(* ===== verification/Prelude.thy ===== *)
theory Prelude
  imports Main "HOL-Library.Word" "HOL-Library.AList"
begin

unbundle bit_operations_syntax

text \<open>
  What every component of the development shares: the Python values that cross the wire
  (\<open>bytes\<close> as lists of 8-bit words, integers as \<open>int\<close>), the exceptions of the program as
  one datatype, computations that may raise and that keep the state they reached when they
  raise (the type \<open>py\<close>), big-endian packing as \<^verbatim>\<open>struct\<close>, \<^verbatim>\<open>int.to_bytes\<close> and
  \<^verbatim>\<open>int.from_bytes\<close> do it, Python slices, dictionaries as association lists, and the rules
  by which the components prove that an operation keeps an invariant.
\<close>

section \<open>Values and exceptions\<close>

type_synonym byte = "8 word"
type_synonym bytes = "byte list"

text \<open>
  The exceptions the modelled code raises or handles. \<open>NegativeResponse nrc sid\<close>,
  \<open>SuppressResponse\<close>, \<open>AbortConnectionAfterResponse resp\<close> are the control-flow types of
  \<^verbatim>\<open>virtecu/uds.py\<close>; \<open>FrameTooLarge declared max\<close> is raised by \<^verbatim>\<open>virtecu/doip.py\<close>;
  \<open>CloseConnection\<close> by \<^verbatim>\<open>virtecu/session.py\<close>; \<open>DoIPProtocolError\<close> and
  \<open>DoIPFaultInjectionError code\<close> by the EdgeNode. \<open>OtherError\<close> is any other exception,
  such as one a plugin raises. \<open>CancelledError\<close> is the only one that is not a subclass of
  Python's \<^verbatim>\<open>Exception\<close>: \<^verbatim>\<open>KeyboardInterrupt\<close> and \<^verbatim>\<open>SystemExit\<close>, which no
  \<^verbatim>\<open>except Exception\<close> of the programs stops and which end the process, are not modelled.
\<close>

datatype exn =
    IncompleteReadError
  | ConnectionResetError
  | FrameTooLarge int int
  | NegativeResponse int "int option"
  | SuppressResponse
  | AbortConnectionAfterResponse bytes
  | CloseConnection
  | DoIPProtocolError
  | DoIPFaultInjectionError int
  | ConfigError
  | CancelledError
  | StructError
  | OverflowError
  | ValueError
  | TypeError
  | IndexError
  | RuntimeError
  | ConnectionError
  | TimeoutError
  | KeyError
  | AttributeError
  | OtherError

definition is_Exception :: "exn \<Rightarrow> bool" where
  "is_Exception e \<longleftrightarrow> e \<noteq> CancelledError"

section \<open>Computations that raise and keep their state\<close>

type_synonym 'a res = "exn + 'a"
type_synonym ('s, 'a) py = "'s \<Rightarrow> 'a res \<times> 's"

definition ret :: "'a \<Rightarrow> ('s, 'a) py" where
  "ret a s = (Inr a, s)"

definition raise :: "exn \<Rightarrow> ('s, 'a) py" where
  "raise e s = (Inl e, s)"

definition lift :: "'a res \<Rightarrow> ('s, 'a) py" where
  "lift r s = (r, s)"

definition gets :: "('s \<Rightarrow> 'a) \<Rightarrow> ('s, 'a) py" where
  "gets f s = (Inr (f s), s)"

definition modify :: "('s \<Rightarrow> 's) \<Rightarrow> ('s, unit) py" where
  "modify f s = (Inr (), f s)"

text \<open>Sequencing: an exception stops the rest, with the state it was raised in.\<close>

definition bnd :: "('s, 'a) py \<Rightarrow> ('a \<Rightarrow> ('s, 'b) py) \<Rightarrow> ('s, 'b) py" where
  "bnd m k s = (case m s of (Inl e, s') \<Rightarrow> (Inl e, s') | (Inr a, s') \<Rightarrow> k a s')"

definition seq :: "('s, unit) py \<Rightarrow> ('s, 'b) py \<Rightarrow> ('s, 'b) py" where
  "seq m n = bnd m (\<lambda>_. n)"

text \<open>\<^verbatim>\<open>try: m except ...\<close>: the handler decides which exceptions it catches, by raising
  the others again.\<close>

definition try_catch :: "('s, 'a) py \<Rightarrow> (exn \<Rightarrow> ('s, 'a) py) \<Rightarrow> ('s, 'a) py" where
  "try_catch m h s = (case m s of (Inl e, s') \<Rightarrow> h e s' | (Inr a, s') \<Rightarrow> (Inr a, s'))"

text \<open>Sequencing of pure results.\<close>

definition ebind :: "'a res \<Rightarrow> ('a \<Rightarrow> 'b res) \<Rightarrow> 'b res" where
  "ebind r k = (case r of Inl e \<Rightarrow> Inl e | Inr a \<Rightarrow> k a)"

lemma ret_apply [simp]: "ret a s = (Inr a, s)"
  by (simp add: ret_def)

lemma raise_apply [simp]: "raise e s = (Inl e, s)"
  by (simp add: raise_def)

lemma lift_apply [simp]: "lift r s = (r, s)"
  by (simp add: lift_def)

lemma gets_apply [simp]: "gets f s = (Inr (f s), s)"
  by (simp add: gets_def)

lemma modify_apply [simp]: "modify f s = (Inr (), f s)"
  by (simp add: modify_def)

lemma bnd_ret [simp]: "bnd (ret a) k = k a"
  by (simp add: fun_eq_iff bnd_def)

lemma bnd_lift_Inr [simp]: "bnd (lift (Inr a)) k = k a"
  by (simp add: fun_eq_iff bnd_def)

lemma bnd_raise [simp]: "bnd (raise e) k = raise e"
  by (simp add: fun_eq_iff bnd_def)

lemma bnd_Inr: "m s = (Inr a, s') \<Longrightarrow> bnd m k s = k a s'"
  by (simp add: bnd_def)

lemma bnd_Inl: "m s = (Inl e, s') \<Longrightarrow> bnd m k s = (Inl e, s')"
  by (simp add: bnd_def)

lemma seq_Inr: "m s = (Inr u, s') \<Longrightarrow> seq m n s = n s'"
  by (simp add: seq_def bnd_def)

lemma seq_Inl: "m s = (Inl e, s') \<Longrightarrow> seq m n s = (Inl e, s')"
  by (simp add: seq_def bnd_def)

lemma bnd_gets [simp]: "bnd (gets f) k s = k (f s) s"
  by (simp add: bnd_def)

lemma seq_modify [simp]: "seq (modify f) n s = n (f s)"
  by (simp add: seq_def bnd_def)

lemma bnd_eq_Inr:
  "bnd m k s = (Inr b, t) \<longleftrightarrow> (\<exists>a s'. m s = (Inr a, s') \<and> k a s' = (Inr b, t))"
  by (auto simp: bnd_def split: prod.splits sum.splits)

lemma bnd_eq_Inl:
  "bnd m k s = (Inl e, t) \<longleftrightarrow>
     m s = (Inl e, t) \<or> (\<exists>a s'. m s = (Inr a, s') \<and> k a s' = (Inl e, t))"
  by (auto simp: bnd_def split: prod.splits sum.splits)

lemma ebind_Inr [simp]: "ebind (Inr a) k = k a"
  by (simp add: ebind_def)

lemma ebind_Inl [simp]: "ebind (Inl e) k = Inl e"
  by (simp add: ebind_def)

lemma ebind_eq_Inr: "ebind r k = Inr b \<longleftrightarrow> (\<exists>a. r = Inr a \<and> k a = Inr b)"
  by (cases r) auto

section \<open>Invariants of computations\<close>

text \<open>
  \<open>keeps P m\<close>: whatever way the computation \<open>m\<close> ends, by a result or by an exception, a
  state with \<open>P\<close> leads to a state with \<open>P\<close>.
\<close>

definition keeps :: "('s \<Rightarrow> bool) \<Rightarrow> ('s, 'a) py \<Rightarrow> bool" where
  "keeps P m \<longleftrightarrow> (\<forall>s. P s \<longrightarrow> P (snd (m s)))"

named_theorems keeps_rules \<open>introduction rules for \<open>keeps\<close>\<close>

lemma keepsI: "(\<And>s. P s \<Longrightarrow> P (snd (m s))) \<Longrightarrow> keeps P m"
  by (simp add: keeps_def)

lemma keepsD: "keeps P m \<Longrightarrow> P s \<Longrightarrow> P (snd (m s))"
  by (simp add: keeps_def)

lemma keeps_result: "keeps P m \<Longrightarrow> P s \<Longrightarrow> m s = (r, s') \<Longrightarrow> P s'"
  using keepsD by fastforce

lemma keeps_ret [keeps_rules]: "keeps P (ret a)"
  by (simp add: keeps_def)

lemma keeps_raise [keeps_rules]: "keeps P (raise e)"
  by (simp add: keeps_def)

lemma keeps_lift [keeps_rules]: "keeps P (lift r)"
  by (simp add: keeps_def)

lemma keeps_gets [keeps_rules]: "keeps P (gets f)"
  by (simp add: keeps_def)

lemma keeps_Pair [keeps_rules, simp]: "keeps P (Pair r)"
  by (simp add: keeps_def)

lemma keeps_modify: "(\<And>s. P s \<Longrightarrow> P (f s)) \<Longrightarrow> keeps P (modify f)"
  by (simp add: keeps_def)

lemma keeps_bnd [keeps_rules]:
  "keeps P m \<Longrightarrow> (\<And>a. keeps P (k a)) \<Longrightarrow> keeps P (bnd m k)"
  by (fastforce simp: keeps_def bnd_def split: prod.splits sum.splits)

lemma keeps_seq [keeps_rules]: "keeps P m \<Longrightarrow> keeps P n \<Longrightarrow> keeps P (seq m n)"
  by (simp add: seq_def keeps_bnd)

lemma keeps_try_catch [keeps_rules]:
  "keeps P m \<Longrightarrow> (\<And>e. keeps P (h e)) \<Longrightarrow> keeps P (try_catch m h)"
  by (fastforce simp: keeps_def try_catch_def split: prod.splits sum.splits)

lemma keeps_if [keeps_rules]:
  "(b \<Longrightarrow> keeps P m) \<Longrightarrow> (\<not> b \<Longrightarrow> keeps P n) \<Longrightarrow> keeps P (if b then m else n)"
  by simp

lemma keeps_case_option [keeps_rules]:
  "(x = None \<Longrightarrow> keeps P m) \<Longrightarrow> (\<And>a. x = Some a \<Longrightarrow> keeps P (k a)) \<Longrightarrow>
     keeps P (case x of None \<Rightarrow> m | Some a \<Rightarrow> k a)"
  by (cases x) simp_all

section \<open>Pre- and postconditions of computations\<close>

text \<open>\<open>valid P m Q\<close>: from a state with \<open>P\<close>, the outcome (result or exception) and the state that
  \<open>m\<close> reaches satisfy \<open>Q\<close>.\<close>

definition valid :: "('s \<Rightarrow> bool) \<Rightarrow> ('s, 'a) py \<Rightarrow> ('a res \<Rightarrow> 's \<Rightarrow> bool) \<Rightarrow> bool" where
  "valid P m Q \<longleftrightarrow> (\<forall>s. P s \<longrightarrow> Q (fst (m s)) (snd (m s)))"

named_theorems valid_rules \<open>introduction rules for \<open>valid\<close>\<close>

lemma validI: "(\<And>s r s'. P s \<Longrightarrow> m s = (r, s') \<Longrightarrow> Q r s') \<Longrightarrow> valid P m Q"
  by (simp add: valid_def)

lemma validD: "valid P m Q \<Longrightarrow> P s \<Longrightarrow> m s = (r, s') \<Longrightarrow> Q r s'"
  by (fastforce simp: valid_def)

lemma valid_weaken: "valid P m Q' \<Longrightarrow> (\<And>r s. Q' r s \<Longrightarrow> Q r s) \<Longrightarrow> valid P m Q"
  by (simp add: valid_def)

lemma valid_keeps: "keeps P m \<Longrightarrow> (\<And>r s. P s \<Longrightarrow> Q r s) \<Longrightarrow> valid P m Q"
  by (simp add: valid_def keeps_def)

lemma valid_ret [valid_rules]: "(\<And>s. P s \<Longrightarrow> Q (Inr a) s) \<Longrightarrow> valid P (ret a) Q"
  by (simp add: valid_def)

lemma valid_raise [valid_rules]: "(\<And>s. P s \<Longrightarrow> Q (Inl e) s) \<Longrightarrow> valid P (raise e) Q"
  by (simp add: valid_def)

lemma valid_if [valid_rules]:
  "(b \<Longrightarrow> valid P m Q) \<Longrightarrow> (\<not> b \<Longrightarrow> valid P n Q) \<Longrightarrow> valid P (if b then m else n) Q"
  by simp

lemma valid_bnd:
  assumes "valid P m R" "\<And>a. valid (R (Inr a)) (k a) Q" "\<And>e s. R (Inl e) s \<Longrightarrow> Q (Inl e) s"
  shows "valid P (bnd m k) Q"
proof (rule validI)
  fix s r s' assume P: "P s" and run: "bnd m k s = (r, s')"
  obtain x t where m: "m s = (x, t)" by fastforce
  then have R: "R x t" using assms(1) P by (auto dest: validD)
  show "Q r s'"
  proof (cases x)
    case (Inl e)
    with run m R assms(3) show ?thesis by (auto simp: bnd_Inl)
  next
    case (Inr a)
    with run m have "k a t = (r, s')" by (simp add: bnd_Inr)
    with assms(2) R Inr show ?thesis by (auto dest: validD)
  qed
qed

lemma valid_bnd_keeps:
  assumes "keeps P m" "\<And>a. valid P (k a) Q" "\<And>e s. P s \<Longrightarrow> Q (Inl e) s"
  shows "valid P (bnd m k) Q"
  by (rule valid_bnd [where R = "\<lambda>_. P"]) (use assms in \<open>auto intro: valid_keeps\<close>)

lemma valid_seq_keeps:
  "keeps P m \<Longrightarrow> valid P n Q \<Longrightarrow> (\<And>e s. P s \<Longrightarrow> Q (Inl e) s) \<Longrightarrow> valid P (seq m n) Q"
  by (simp add: seq_def valid_bnd_keeps)

lemma valid_gets:
  "(\<And>s. P s \<Longrightarrow> valid P (k (f s)) Q) \<Longrightarrow> valid P (bnd (gets f) k) Q"
  by (simp add: valid_def)

lemma valid_seq_modify:
  "(\<And>s. P s \<Longrightarrow> R (f s)) \<Longrightarrow> valid R n Q \<Longrightarrow> valid P (seq (modify f) n) Q"
  by (simp add: valid_def)

section \<open>Exceptions of computations\<close>

text \<open>\<open>raises_only E m\<close>: every exception that \<open>m\<close> raises satisfies \<open>E\<close>.\<close>

definition raises_only :: "(exn \<Rightarrow> bool) \<Rightarrow> ('s, 'a) py \<Rightarrow> bool" where
  "raises_only E m \<longleftrightarrow> (\<forall>s e s'. m s = (Inl e, s') \<longrightarrow> E e)"

named_theorems raises_rules \<open>introduction rules for \<open>raises_only\<close>\<close>

lemma raises_onlyD: "raises_only E m \<Longrightarrow> m s = (Inl e, s') \<Longrightarrow> E e"
  by (auto simp: raises_only_def)

lemma raises_only_basic [raises_rules]:
  "raises_only E (ret a)" "raises_only E (Pair (Inr b))" "raises_only E (gets f)" "raises_only E (modify g)"
  by (simp_all add: raises_only_def)

lemma raises_only_raise [raises_rules]: "E e \<Longrightarrow> raises_only E (raise e)"
  by (simp add: raises_only_def)

lemma raises_only_lift [raises_rules]: "(\<And>e. r = Inl e \<Longrightarrow> E e) \<Longrightarrow> raises_only E (lift r)"
  by (simp add: raises_only_def)

lemma raises_only_bnd [raises_rules]:
  "raises_only E m \<Longrightarrow> (\<And>a. raises_only E (k a)) \<Longrightarrow> raises_only E (bnd m k)"
  unfolding raises_only_def bnd_eq_Inl by blast

lemma raises_only_seq [raises_rules]: "raises_only E m \<Longrightarrow> raises_only E n \<Longrightarrow> raises_only E (seq m n)"
  by (simp add: seq_def raises_only_bnd)

lemma raises_only_if [raises_rules]:
  "(b \<Longrightarrow> raises_only E m) \<Longrightarrow> (\<not> b \<Longrightarrow> raises_only E n) \<Longrightarrow> raises_only E (if b then m else n)"
  by simp

lemma raises_only_option [raises_rules]:
  "(x = None \<Longrightarrow> raises_only E m) \<Longrightarrow> (\<And>a. x = Some a \<Longrightarrow> raises_only E (k a)) \<Longrightarrow>
     raises_only E (case x of None \<Rightarrow> m | Some a \<Rightarrow> k a)"
  by (cases x) simp_all

section \<open>Slices and indexing\<close>

text \<open>\<^verbatim>\<open>xs[a:b]\<close> for non-negative bounds: Python clips both at the length.\<close>

definition py_slice :: "nat \<Rightarrow> nat \<Rightarrow> 'a list \<Rightarrow> 'a list" where
  "py_slice a b xs = take (b - a) (drop a xs)"

definition py_index :: "'a list \<Rightarrow> nat \<Rightarrow> 'a res" where
  "py_index xs i = (if i < length xs then Inr (xs ! i) else Inl IndexError)"

lemma length_py_slice [simp]: "length (py_slice a b xs) = min (b - a) (length xs - a)"
  by (auto simp: py_slice_def)

lemma py_slice_append_left [simp]:
  "b \<le> length xs \<Longrightarrow> py_slice a b (xs @ ys) = py_slice a b xs"
  by (cases "a \<le> b") (auto simp: py_slice_def)

lemma py_slice_all [simp]: "py_slice 0 (length xs) xs = xs"
  by (simp add: py_slice_def)

lemma py_slice_Cons_Suc [simp]: "py_slice (Suc a) (Suc b) (x # xs) = py_slice a b xs"
  by (simp add: py_slice_def)

section \<open>Big-endian integers\<close>

primrec int_be :: "nat \<Rightarrow> int \<Rightarrow> bytes" where
  "int_be 0 v = []"
| "int_be (Suc n) v = int_be n (v div 256) @ [word_of_int v]"

text \<open>\<^verbatim>\<open>int.from_bytes(bs, "big")\<close>.\<close>

definition from_be :: "bytes \<Rightarrow> int" where
  "from_be bs = foldl (\<lambda>a b. a * 256 + uint b) 0 bs"

text \<open>\<^verbatim>\<open>struct.pack\<close> of one unsigned field of \<open>n\<close> bytes, \<^verbatim>\<open>v.to_bytes(n, "big")\<close> and
  \<^verbatim>\<open>bytes([..])\<close>: each raises its own exception on a value that does not fit.\<close>

definition pack_uint :: "nat \<Rightarrow> int \<Rightarrow> bytes res" where
  "pack_uint n v = (if 0 \<le> v \<and> v < 256 ^ n then Inr (int_be n v) else Inl StructError)"

definition to_bytes_big :: "nat \<Rightarrow> int \<Rightarrow> bytes res" where
  "to_bytes_big n v = (if 0 \<le> v \<and> v < 256 ^ n then Inr (int_be n v) else Inl OverflowError)"

primrec py_bytes :: "int list \<Rightarrow> bytes res" where
  "py_bytes [] = Inr []"
| "py_bytes (v # vs) =
     (if 0 \<le> v \<and> v < 256 then ebind (py_bytes vs) (\<lambda>bs. Inr (word_of_int v # bs))
      else Inl ValueError)"

abbreviation pack_H :: "int \<Rightarrow> bytes res" where
  "pack_H v \<equiv> pack_uint 2 v"

abbreviation pack_HH :: "int \<Rightarrow> int \<Rightarrow> bytes res" where
  "pack_HH a b \<equiv> ebind (pack_uint 2 a) (\<lambda>x. ebind (pack_uint 2 b) (\<lambda>y. Inr (x @ y)))"

text \<open>\<^verbatim>\<open>struct.unpack("!H", bs)[0]\<close> and \<^verbatim>\<open>struct.unpack("!I", bs)[0]\<close>: the buffer must have
  exactly the size of the format.\<close>

definition unpack_uint :: "nat \<Rightarrow> bytes \<Rightarrow> int res" where
  "unpack_uint n bs = (if length bs = n then Inr (from_be bs) else Inl StructError)"

abbreviation unpack_H :: "bytes \<Rightarrow> int res" where
  "unpack_H bs \<equiv> unpack_uint 2 bs"

lemma length_int_be [simp]: "length (int_be n v) = n"
  by (induction n arbitrary: v) simp_all

lemma from_be_Nil [simp]: "from_be [] = 0"
  by (simp add: from_be_def)

lemma from_be_snoc [simp]: "from_be (bs @ [b]) = from_be bs * 256 + uint b"
  by (simp add: from_be_def)

lemma uint_byte_bounds [simp]: "0 \<le> uint (b :: byte)" "uint (b :: byte) < 256"
  using uint_bounded [of b] by simp_all

lemma from_be_int_be: "from_be (int_be n v) = v mod 256 ^ n"
proof (induction n arbitrary: v)
  case 0
  then show ?case by simp
next
  case (Suc n)
  have "from_be (int_be (Suc n) v) = (v div 256 mod 256 ^ n) * 256 + v mod 256"
    by (simp add: Suc.IH uint_word_of_int)
  also have "\<dots> = v mod (256 * 256 ^ n)"
    by (simp add: zmod_zmult2_eq algebra_simps)
  finally show ?case by simp
qed

lemma byte_256: "(256 :: byte) = 0"
  by (rule word_uint_eqI) simp

lemma from_be_nonneg [simp]: "0 \<le> from_be bs"
  by (induction bs rule: rev_induct) simp_all

lemma from_be_less: "from_be bs < 256 ^ length bs"
proof (induction bs rule: rev_induct)
  case Nil
  then show ?case by simp
next
  case (snoc b bs)
  have "uint b < 256" by simp
  with snoc.IH have "from_be bs * 256 + uint b < 256 ^ length bs * 256" by linarith
  then show ?case by (simp add: mult.commute)
qed

lemma from_be_less_pow: "length bs \<le> n \<Longrightarrow> from_be bs < 256 ^ n"
  by (rule less_le_trans [OF from_be_less]) (simp add: power_increasing)

lemma int_be_from_be [simp]: "int_be (length bs) (from_be bs) = bs"
proof (induction bs rule: rev_induct)
  case Nil
  then show ?case by simp
next
  case (snoc b bs)
  have div: "(from_be bs * 256 + uint b) div 256 = from_be bs"
    using uint_byte_bounds [of b] by simp
  have "(word_of_int (from_be bs * 256 + uint b) :: byte) = word_of_int (uint b)"
    by (simp add: byte_256)
  with snoc.IH div show ?case by simp
qed

end
