(* ===== verification/Uds.thy ===== *)
theory Uds
  imports Prelude
begin

text \<open>
  The UDS vocabulary of \<^verbatim>\<open>virtual_ecu/virtecu/uds.py\<close>: service identifiers, negative
  response codes, the parsed request \<open>UdsRequest\<close> with its derived properties, and the two
  response forms. The control-flow exceptions of the file (\<open>NegativeResponse\<close>,
  \<open>SuppressResponse\<close>, \<open>AbortConnectionAfterResponse\<close>) are constructors of \<open>exn\<close>.
\<close>

section \<open>Constants\<close>

definition SID_DIAGNOSTIC_SESSION_CONTROL :: int where "SID_DIAGNOSTIC_SESSION_CONTROL = 0x10"
definition SID_ECU_RESET :: int where "SID_ECU_RESET = 0x11"
definition SID_READ_DATA_BY_IDENTIFIER :: int where "SID_READ_DATA_BY_IDENTIFIER = 0x22"
definition SID_SECURITY_ACCESS :: int where "SID_SECURITY_ACCESS = 0x27"
definition SID_WRITE_DATA_BY_IDENTIFIER :: int where "SID_WRITE_DATA_BY_IDENTIFIER = 0x2E"
definition SID_ROUTINE_CONTROL :: int where "SID_ROUTINE_CONTROL = 0x31"
definition SID_TESTER_PRESENT :: int where "SID_TESTER_PRESENT = 0x3E"
definition SID_NEGATIVE_RESPONSE :: int where "SID_NEGATIVE_RESPONSE = 0x7F"

lemmas sids =
  SID_DIAGNOSTIC_SESSION_CONTROL_def SID_ECU_RESET_def SID_READ_DATA_BY_IDENTIFIER_def
  SID_SECURITY_ACCESS_def SID_WRITE_DATA_BY_IDENTIFIER_def SID_ROUTINE_CONTROL_def
  SID_TESTER_PRESENT_def SID_NEGATIVE_RESPONSE_def

definition NRC_GENERAL_REJECT :: int where "NRC_GENERAL_REJECT = 0x10"
definition NRC_SERVICE_NOT_SUPPORTED :: int where "NRC_SERVICE_NOT_SUPPORTED = 0x11"
definition NRC_SUB_FUNCTION_NOT_SUPPORTED :: int where "NRC_SUB_FUNCTION_NOT_SUPPORTED = 0x12"
definition NRC_INCORRECT_MESSAGE_LENGTH :: int where "NRC_INCORRECT_MESSAGE_LENGTH = 0x13"
definition NRC_RESPONSE_TOO_LONG :: int where "NRC_RESPONSE_TOO_LONG = 0x14"
definition NRC_BUSY_REPEAT_REQUEST :: int where "NRC_BUSY_REPEAT_REQUEST = 0x21"
definition NRC_CONDITIONS_NOT_CORRECT :: int where "NRC_CONDITIONS_NOT_CORRECT = 0x22"
definition NRC_REQUEST_SEQUENCE_ERROR :: int where "NRC_REQUEST_SEQUENCE_ERROR = 0x24"
definition NRC_REQUEST_OUT_OF_RANGE :: int where "NRC_REQUEST_OUT_OF_RANGE = 0x31"
definition NRC_SECURITY_ACCESS_DENIED :: int where "NRC_SECURITY_ACCESS_DENIED = 0x33"
definition NRC_INVALID_KEY :: int where "NRC_INVALID_KEY = 0x35"
definition NRC_EXCEEDED_NUMBER_OF_ATTEMPTS :: int where "NRC_EXCEEDED_NUMBER_OF_ATTEMPTS = 0x36"
definition NRC_RESPONSE_PENDING :: int where "NRC_RESPONSE_PENDING = 0x78"
definition NRC_SERVICE_NOT_SUPPORTED_IN_SESSION :: int where
  "NRC_SERVICE_NOT_SUPPORTED_IN_SESSION = 0x7F"

lemmas nrcs =
  NRC_GENERAL_REJECT_def NRC_SERVICE_NOT_SUPPORTED_def NRC_SUB_FUNCTION_NOT_SUPPORTED_def
  NRC_INCORRECT_MESSAGE_LENGTH_def NRC_RESPONSE_TOO_LONG_def NRC_BUSY_REPEAT_REQUEST_def
  NRC_CONDITIONS_NOT_CORRECT_def NRC_REQUEST_SEQUENCE_ERROR_def NRC_REQUEST_OUT_OF_RANGE_def
  NRC_SECURITY_ACCESS_DENIED_def NRC_INVALID_KEY_def NRC_EXCEEDED_NUMBER_OF_ATTEMPTS_def
  NRC_RESPONSE_PENDING_def NRC_SERVICE_NOT_SUPPORTED_IN_SESSION_def

definition SUB_FUNCTION_SERVICES :: "int list" where
  "SUB_FUNCTION_SERVICES =
     [0x10, 0x11, 0x19, 0x27, 0x28, 0x2C, 0x31, 0x3E, 0x83, 0x85, 0x86, 0x87]"

definition FUNCTIONAL_SUPPRESSED_NRCS :: "int list" where
  "FUNCTIONAL_SUPPRESSED_NRCS =
     [NRC_SERVICE_NOT_SUPPORTED, NRC_SUB_FUNCTION_NOT_SUPPORTED, NRC_REQUEST_OUT_OF_RANGE,
      NRC_SERVICE_NOT_SUPPORTED_IN_SESSION]"

definition SESSION_DEFAULT :: int where "SESSION_DEFAULT = 0x01"

definition DID_ACTIVE_DIAGNOSTIC_SESSION :: int where "DID_ACTIVE_DIAGNOSTIC_SESSION = 0xF186"

section \<open>Requests\<close>

record uds_request =
  raw :: bytes
  source_addr :: int
  target_addr :: int
  functional :: bool

definition sid :: "uds_request \<Rightarrow> int" where
  "sid req = (if raw req \<noteq> [] then uint (hd (raw req)) else -1)"

definition req_data :: "uds_request \<Rightarrow> bytes" where
  "req_data req = drop 1 (raw req)"

definition has_sub_function :: "uds_request \<Rightarrow> bool" where
  "has_sub_function req \<longleftrightarrow> sid req \<in> set SUB_FUNCTION_SERVICES"

definition sub_function :: "uds_request \<Rightarrow> int option" where
  "sub_function req =
     (if \<not> has_sub_function req \<or> length (raw req) < 2 then None
      else Some (uint (raw req ! 1) AND 0x7F))"

definition suppress_pos_rsp :: "uds_request \<Rightarrow> bool" where
  "suppress_pos_rsp req \<longleftrightarrow>
     has_sub_function req \<and> length (raw req) > 1 \<and> uint (raw req ! 1) AND 0x80 \<noteq> 0"

definition req_did :: "uds_request \<Rightarrow> int option" where
  "req_did req =
     (if sid req \<in> {SID_READ_DATA_BY_IDENTIFIER, SID_WRITE_DATA_BY_IDENTIFIER}
         \<and> length (raw req) \<ge> 3
      then Some (from_be (py_slice 1 3 (raw req))) else None)"

text \<open>\<^verbatim>\<open>dids()\<close>: the start indices are \<^verbatim>\<open>range(0, len(body) - 1, 2)\<close>.\<close>

definition req_dids :: "uds_request \<Rightarrow> int list" where
  "req_dids req =
     (let body = drop 1 (raw req) in
      map (\<lambda>k. from_be (py_slice (2 * k) (2 * k + 2) body)) [0 ..< length body div 2])"

definition positive :: "uds_request \<Rightarrow> bytes \<Rightarrow> bytes" where
  "positive req payload = word_of_int ((sid req OR 0x40) AND 0xFF) # payload"

definition negative :: "uds_request \<Rightarrow> int \<Rightarrow> bytes res" where
  "negative req nrc = py_bytes [SID_NEGATIVE_RESPONSE, sid req AND 0xFF, nrc]"

text \<open>\<^verbatim>\<open>NegativeResponse.to_bytes\<close>.\<close>

definition nr_to_bytes :: "int \<Rightarrow> int option \<Rightarrow> bytes res" where
  "nr_to_bytes nrc s =
     py_bytes [SID_NEGATIVE_RESPONSE, (case s of None \<Rightarrow> 0 | Some v \<Rightarrow> v) AND 0xFF, nrc]"

section \<open>Lemmas on requests and responses\<close>

abbreviation nrc_ok :: "int \<Rightarrow> bool" where
  "nrc_ok n \<equiv> 0 \<le> n \<and> n < 256"

lemma byte_and_255 [simp]: "uint (b :: byte) AND 255 = uint b"
proof -
  have "uint b AND mask 8 = uint b"
    by (simp flip: take_bit_eq_mask add: take_bit_int_eq_self)
  then show ?thesis by (simp add: mask_eq_exp_minus_1)
qed

lemma int_and_255: "0 \<le> v AND 255" "v AND 255 < (256 :: int)"
proof -
  have "v AND 255 = v mod 256"
    using take_bit_eq_mask [of 8 v] by (simp add: mask_eq_exp_minus_1 take_bit_eq_mod)
  then show "0 \<le> v AND 255" "v AND 255 < (256 :: int)" by simp_all
qed

lemma and_range: "0 \<le> (m :: int) \<Longrightarrow> 0 \<le> v AND m \<and> v AND m \<le> m"
  by (simp add: AND_upper2)

lemma sid_range: "raw req \<noteq> [] \<Longrightarrow> 0 \<le> sid req \<and> sid req < 256"
  by (simp add: sid_def)

lemma sid_Cons [simp]: "raw req = b # bs \<Longrightarrow> sid req = uint b"
  by (simp add: sid_def)

lemma sub_function_range: "sub_function req = Some s \<Longrightarrow> 0 \<le> s \<and> s < 128"
  using and_range [of 127 "uint (raw req ! 1)"]
  by (auto simp: sub_function_def split: if_splits)

lemma negative_ok:
  "nrc_ok nrc \<Longrightarrow> negative req nrc = Inr [0x7F, word_of_int (sid req AND 0xFF), word_of_int nrc]"
  using int_and_255 [of "sid req"] by (simp add: negative_def sids)

lemma negative_eq_Inr:
  "negative req nrc = Inr bs \<longleftrightarrow>
     nrc_ok nrc \<and> bs = [0x7F, word_of_int (sid req AND 0xFF), word_of_int nrc]"
  using int_and_255 [of "sid req"] by (auto simp: negative_def sids ebind_eq_Inr)

lemma nr_to_bytes_ok:
  "nrc_ok nrc \<Longrightarrow> nr_to_bytes nrc (Some s) = Inr [0x7F, word_of_int (s AND 0xFF), word_of_int nrc]"
  using int_and_255 [of s] by (simp add: nr_to_bytes_def sids)

lemma length_req_dids: "length (req_dids req) = (length (raw req) - 1) div 2"
  by (simp add: req_dids_def Let_def)

text \<open>The request that asks for a list of identifiers; \<open>req_dids\<close> reads it back.\<close>

primrec enc_dids :: "int list \<Rightarrow> bytes" where
  "enc_dids [] = []"
| "enc_dids (d # ds) = int_be 2 d @ enc_dids ds"

lemma length_enc_dids [simp]: "length (enc_dids ds) = 2 * length ds"
  by (induction ds) simp_all

lemma req_dids_step:
  assumes "length p = 2"
  shows "map (\<lambda>k. from_be (py_slice (2 * k) (2 * k + 2) (p @ bs))) [0 ..< length (p @ bs) div 2] =
    from_be p # map (\<lambda>k. from_be (py_slice (2 * k) (2 * k + 2) bs)) [0 ..< length bs div 2]"
proof -
  have "[0 ..< length (p @ bs) div 2] = 0 # map Suc [0 ..< length bs div 2]"
    using assms by (simp add: map_Suc_upt upt_conv_Cons)
  then show ?thesis
    using assms by (simp add: py_slice_def)
qed

lemma req_dids_enc:
  assumes "\<And>d. d \<in> set ds \<Longrightarrow> 0 \<le> d \<and> d < 65536"
  shows "req_dids (req\<lparr>raw := s # enc_dids ds\<rparr>) = ds"
  using assms
proof (induction ds)
  case Nil
  then show ?case by (simp add: req_dids_def)
next
  case (Cons d ds)
  have "from_be (int_be 2 d) = d"
    using Cons.prems [of d] by (simp add: from_be_int_be)
  with Cons req_dids_step [of "int_be 2 d" "enc_dids ds"] show ?case
    by (simp add: req_dids_def Let_def)
qed

end
