(* ===== verification/Doip_Frame.thy ===== *)
theory Doip_Frame
  imports Prelude
begin

text \<open>
  The DoIP generic header and the frame helpers of \<^verbatim>\<open>virtual_ecu/virtecu/doip.py\<close>: payload
  types, negative acknowledge codes, \<open>build_frame\<close>, \<open>read_frame\<close>, \<open>validate_header\<close>,
  \<open>frame_ptype\<close> and \<open>frame_payload\<close> (the names under which \<^verbatim>\<open>session.py\<close> imports
  \<^verbatim>\<open>ptype\<close> and \<^verbatim>\<open>payload\<close>). The locale \<open>frame_codec\<close> states what a frame builder promises;
  every builder of the repository is an instance, and the lemmas about reading a built frame
  back are proved once in it.
\<close>

section \<open>Constants\<close>

definition VER :: int where "VER = 0x02"

definition ACCEPTED_VERSIONS :: "int list" where "ACCEPTED_VERSIONS = [0x02, 0x03]"

definition PT_HEADER_NACK :: int where "PT_HEADER_NACK = 0x0000"
definition PT_VEHICLE_ID_REQUEST :: int where "PT_VEHICLE_ID_REQUEST = 0x0001"
definition PT_VEHICLE_ID_REQUEST_WITH_EID :: int where "PT_VEHICLE_ID_REQUEST_WITH_EID = 0x0002"
definition PT_VEHICLE_ID_REQUEST_WITH_VIN :: int where "PT_VEHICLE_ID_REQUEST_WITH_VIN = 0x0003"
definition PT_VEHICLE_ID_RESPONSE :: int where "PT_VEHICLE_ID_RESPONSE = 0x0004"
definition PT_ROUTING_ACT_REQUEST :: int where "PT_ROUTING_ACT_REQUEST = 0x0005"
definition PT_ROUTING_ACT_RESPONSE :: int where "PT_ROUTING_ACT_RESPONSE = 0x0006"
definition PT_ALIVE_CHECK_REQUEST :: int where "PT_ALIVE_CHECK_REQUEST = 0x0007"
definition PT_ALIVE_CHECK_RESPONSE :: int where "PT_ALIVE_CHECK_RESPONSE = 0x0008"
definition PT_ENTITY_STATUS_REQUEST :: int where "PT_ENTITY_STATUS_REQUEST = 0x4001"
definition PT_ENTITY_STATUS_RESPONSE :: int where "PT_ENTITY_STATUS_RESPONSE = 0x4002"
definition PT_POWER_MODE_REQUEST :: int where "PT_POWER_MODE_REQUEST = 0x4003"
definition PT_POWER_MODE_RESPONSE :: int where "PT_POWER_MODE_RESPONSE = 0x4004"
definition PT_DIAGNOSTIC_MESSAGE :: int where "PT_DIAGNOSTIC_MESSAGE = 0x8001"
definition PT_DIAGNOSTIC_POSITIVE_ACK :: int where "PT_DIAGNOSTIC_POSITIVE_ACK = 0x8002"
definition PT_DIAGNOSTIC_NEGATIVE_ACK :: int where "PT_DIAGNOSTIC_NEGATIVE_ACK = 0x8003"

definition NACK_INVALID_SOURCE_ADDRESS :: int where "NACK_INVALID_SOURCE_ADDRESS = 0x02"
definition NACK_UNKNOWN_TARGET_ADDRESS :: int where "NACK_UNKNOWN_TARGET_ADDRESS = 0x03"
definition NACK_MESSAGE_TOO_LARGE :: int where "NACK_MESSAGE_TOO_LARGE = 0x04"

definition NACK_GENERIC_INCORRECT_PATTERN :: int where
  "NACK_GENERIC_INCORRECT_PATTERN = 0x00"
definition NACK_GENERIC_UNKNOWN_PAYLOAD_TYPE :: int where
  "NACK_GENERIC_UNKNOWN_PAYLOAD_TYPE = 0x01"
definition NACK_GENERIC_MESSAGE_TOO_LARGE :: int where
  "NACK_GENERIC_MESSAGE_TOO_LARGE = 0x02"
definition NACK_GENERIC_INVALID_PAYLOAD_LENGTH :: int where
  "NACK_GENERIC_INVALID_PAYLOAD_LENGTH = 0x04"

definition TESTER_ADDR_RANGE :: "int \<times> int" where "TESTER_ADDR_RANGE = (0x0E00, 0x0FFF)"

definition ROUTING_ACT_REQUEST_MIN_LEN :: nat where "ROUTING_ACT_REQUEST_MIN_LEN = 7"

lemmas payload_types =
  PT_HEADER_NACK_def PT_VEHICLE_ID_REQUEST_def PT_VEHICLE_ID_REQUEST_WITH_EID_def
  PT_VEHICLE_ID_REQUEST_WITH_VIN_def PT_VEHICLE_ID_RESPONSE_def PT_ROUTING_ACT_REQUEST_def
  PT_ROUTING_ACT_RESPONSE_def PT_ALIVE_CHECK_REQUEST_def PT_ALIVE_CHECK_RESPONSE_def
  PT_ENTITY_STATUS_REQUEST_def PT_ENTITY_STATUS_RESPONSE_def PT_POWER_MODE_REQUEST_def
  PT_POWER_MODE_RESPONSE_def PT_DIAGNOSTIC_MESSAGE_def PT_DIAGNOSTIC_POSITIVE_ACK_def
  PT_DIAGNOSTIC_NEGATIVE_ACK_def

lemmas nack_codes =
  NACK_INVALID_SOURCE_ADDRESS_def NACK_UNKNOWN_TARGET_ADDRESS_def NACK_MESSAGE_TOO_LARGE_def
  NACK_GENERIC_INCORRECT_PATTERN_def NACK_GENERIC_UNKNOWN_PAYLOAD_TYPE_def
  NACK_GENERIC_MESSAGE_TOO_LARGE_def NACK_GENERIC_INVALID_PAYLOAD_LENGTH_def

section \<open>Frame helpers\<close>

text \<open>\<^verbatim>\<open>struct.pack("!BBHI", version, inv, payload_type, len(payload)) + payload\<close>.\<close>

definition build_frame :: "int \<Rightarrow> bytes \<Rightarrow> int \<Rightarrow> bytes res" where
  "build_frame payload_type payload version =
     (let inv = 0xFF XOR version in
      ebind (pack_uint 1 version) (\<lambda>v.
      ebind (pack_uint 1 inv) (\<lambda>i.
      ebind (pack_uint 2 payload_type) (\<lambda>t.
      ebind (pack_uint 4 (int (length payload))) (\<lambda>l.
      Inr (v @ i @ t @ l @ payload))))))"

text \<open>
  The stream reader is the list of bytes the peer has sent and nobody has read yet.
  \<^verbatim>\<open>readexactly(n)\<close> at the end of the stream discards what is buffered and raises.
\<close>

definition read_exactly :: "nat \<Rightarrow> (bytes, bytes) py" where
  "read_exactly n buf =
     (if length buf < n then (Inl IncompleteReadError, [])
      else (Inr (take n buf), drop n buf))"

definition read_frame :: "int option \<Rightarrow> (bytes, bytes) py" where
  "read_frame max_len =
     bnd (read_exactly 8) (\<lambda>hdr.
     bnd (lift (unpack_uint 4 (py_slice 4 8 hdr))) (\<lambda>plen.
     case max_len of
       Some m \<Rightarrow>
         if plen > m then raise (FrameTooLarge plen m)
         else if plen = 0 then ret hdr
         else bnd (read_exactly (nat plen)) (\<lambda>payload. ret (hdr @ payload))
     | None \<Rightarrow>
         if plen = 0 then ret hdr
         else bnd (read_exactly (nat plen)) (\<lambda>payload. ret (hdr @ payload))))"

definition validate_header :: "bytes \<Rightarrow> int list option \<Rightarrow> int list \<Rightarrow> int option res" where
  "validate_header raw known_types version_wildcard_types =
     ebind (py_index raw 0) (\<lambda>ver.
     ebind (py_index raw 1) (\<lambda>inv.
     ebind (unpack_H (py_slice 2 4 raw)) (\<lambda>pt.
     if uint inv \<noteq> 0xFF XOR uint ver then Inr (Some NACK_GENERIC_INCORRECT_PATTERN)
     else if uint ver \<notin> set ACCEPTED_VERSIONS
             \<and> \<not> (uint ver = 0xFF \<and> pt \<in> set version_wildcard_types)
       then Inr (Some NACK_GENERIC_INCORRECT_PATTERN)
     else case known_types of
            Some ts \<Rightarrow> if pt \<notin> set ts then Inr (Some NACK_GENERIC_UNKNOWN_PAYLOAD_TYPE)
                       else Inr None
          | None \<Rightarrow> Inr None)))"

definition frame_ptype :: "bytes \<Rightarrow> int res" where
  "frame_ptype raw = unpack_H (py_slice 2 4 raw)"

definition frame_payload :: "bytes \<Rightarrow> bytes" where
  "frame_payload raw = drop 8 raw"

section \<open>The header as a value\<close>

text \<open>The eight header bytes for a version, payload type and length in range.\<close>

definition doip_header :: "int \<Rightarrow> int \<Rightarrow> int \<Rightarrow> bytes" where
  "doip_header ver pt plen =
     [word_of_int ver, word_of_int (0xFF XOR ver)] @ int_be 2 pt @ int_be 4 plen"

definition frame_args_ok :: "int \<Rightarrow> bytes \<Rightarrow> int \<Rightarrow> bool" where
  "frame_args_ok pt payload ver \<longleftrightarrow>
     0 \<le> ver \<and> ver < 256 \<and> 0 \<le> pt \<and> pt < 65536 \<and> int (length payload) < 2 ^ 32"

lemma length_doip_header [simp]: "length (doip_header ver pt plen) = 8"
  by (simp add: doip_header_def)

lemma int_be_1 [simp]: "int_be 1 v = [word_of_int v]" "int_be (Suc 0) v = [word_of_int v]"
  by simp_all

lemma int_be_2: "int_be 2 v = [word_of_int (v div 256), word_of_int v]"
  by (simp add: numeral_2_eq_2)

lemma py_slice_header [simp]:
  "py_slice 2 4 (doip_header ver pt plen @ xs) = int_be 2 pt"
  "py_slice 4 8 (doip_header ver pt plen @ xs) = int_be 4 plen"
  by (simp_all add: doip_header_def py_slice_def)

lemma inv_byte_range: "0 \<le> ver \<Longrightarrow> ver < 256 \<Longrightarrow> 0 \<le> 0xFF XOR ver \<and> 0xFF XOR ver < (256 :: int)"
  using XOR_upper [of "0xFF" 8 ver] by simp

lemma unpack_uint_int_be [simp]:
  "0 \<le> v \<Longrightarrow> v < 256 ^ n \<Longrightarrow> unpack_uint n (int_be n v) = Inr v"
  by (simp add: unpack_uint_def from_be_int_be)

section \<open>The contract of a frame builder\<close>

locale frame_codec =
  fixes build :: "int \<Rightarrow> bytes \<Rightarrow> int \<Rightarrow> bytes res"
  assumes build_ok:
    "frame_args_ok pt pl ver \<Longrightarrow>
       build pt pl ver = Inr (doip_header ver pt (int (length pl)) @ pl)"
  and build_fails: "\<not> frame_args_ok pt pl ver \<Longrightarrow> \<exists>e. build pt pl ver = Inl e"
begin

lemma build_Inr_iff:
  "build pt pl ver = Inr fr \<longleftrightarrow>
     frame_args_ok pt pl ver \<and> fr = doip_header ver pt (int (length pl)) @ pl"
  using build_ok build_fails by (metis Inl_Inr_False sum.inject(2))

lemma ptype_of_built: "build pt pl ver = Inr fr \<Longrightarrow> frame_ptype fr = Inr pt"
  by (auto simp: build_Inr_iff frame_ptype_def frame_args_ok_def)

lemma payload_of_built: "build pt pl ver = Inr fr \<Longrightarrow> frame_payload fr = pl"
  by (auto simp: build_Inr_iff frame_payload_def)

lemma length_of_built: "build pt pl ver = Inr fr \<Longrightarrow> length fr = 8 + length pl"
  by (auto simp: build_Inr_iff)

lemma read_built:
  assumes b: "build pt pl ver = Inr fr"
    and bound: "\<And>m. max_len = Some m \<Longrightarrow> int (length pl) \<le> m"
  shows "read_frame max_len (fr @ rest) = (Inr fr, rest)"
proof -
  let ?h = "doip_header ver pt (int (length pl))"
  from b have fr: "fr = ?h @ pl" and len: "int (length pl) < 2 ^ 32"
    by (auto simp: build_Inr_iff frame_args_ok_def)
  have hdr: "read_exactly 8 (fr @ rest) = (Inr ?h, pl @ rest)"
    by (simp add: read_exactly_def fr)
  have plen: "unpack_uint 4 (py_slice 4 8 ?h) = Inr (int (length pl))"
    using len py_slice_header(2) [of ver pt "int (length pl)" "[]"] by simp
  have body: "read_exactly (length pl) (pl @ rest) = (Inr pl, rest)"
    by (simp add: read_exactly_def)
  show ?thesis
  proof (cases max_len)
    case None
    with hdr plen body show ?thesis
      by (simp add: read_frame_def bnd_Inr fr)
  next
    case (Some m)
    with hdr plen body bound [of m] show ?thesis
      by (simp add: read_frame_def bnd_Inr fr)
  qed
qed

lemma built_header_valid:
  assumes b: "build pt pl ver = Inr fr"
    and v: "ver \<in> set ACCEPTED_VERSIONS \<or> ver = 0xFF \<and> pt \<in> set wild"
    and k: "\<And>ts. known = Some ts \<Longrightarrow> pt \<in> set ts"
  shows "validate_header fr known wild = Inr None"
proof -
  from b have fr: "fr = doip_header ver pt (int (length pl)) @ pl"
    and r: "0 \<le> ver" "ver < 256" "0 \<le> pt" "pt < 65536"
    by (auto simp: build_Inr_iff frame_args_ok_def)
  have u: "uint (word_of_int ver :: byte) = ver"
      "uint (word_of_int (0xFF XOR ver) :: byte) = 0xFF XOR ver"
    using r inv_byte_range [of ver] by (simp_all add: uint_word_of_int)
  have idx: "py_index fr 0 = Inr (word_of_int ver)"
      "py_index fr 1 = Inr (word_of_int (0xFF XOR ver))"
    by (simp_all add: py_index_def fr) (simp_all add: doip_header_def)
  have pt: "unpack_H (py_slice 2 4 fr) = Inr pt"
    using r by (simp add: fr)
  show ?thesis
    using v k idx pt u
    by (auto simp: validate_header_def split: option.splits)
qed

lemma build_inject:
  "build pt pl ver = Inr fr \<Longrightarrow> build pt' pl' ver' = Inr fr \<Longrightarrow> pt = pt' \<and> pl = pl'"
  using ptype_of_built payload_of_built by (metis sum.inject(2))

end

interpretation virt_codec: frame_codec build_frame
proof
  show "build_frame pt pl ver = Inr (doip_header ver pt (int (length pl)) @ pl)"
    if "frame_args_ok pt pl ver" for pt pl ver
    using that inv_byte_range [of ver]
    by (simp add: build_frame_def frame_args_ok_def pack_uint_def doip_header_def Let_def)
next
  show "\<exists>e. build_frame pt pl ver = Inl e" if "\<not> frame_args_ok pt pl ver" for pt pl ver
    using that
    by (auto simp: build_frame_def frame_args_ok_def pack_uint_def Let_def)
qed


section \<open>Properties\<close>

text \<open>C40: a frame built by \<open>build_frame\<close> and put on the stream, followed by anything, is read
  back whole by \<open>read_frame\<close> whenever its payload is within the reader's bound; the reader
  leaves exactly what followed it, and payload type and payload are those it was built from.\<close>

theorem frame_roundtrip:
  assumes "build_frame pt pl ver = Inr fr" and "int (length pl) \<le> m"
  shows "read_frame (Some m) (fr @ rest) = (Inr fr, rest) \<and> frame_ptype fr = Inr pt
    \<and> frame_payload fr = pl"
  using assms
  by (auto intro: virt_codec.read_built virt_codec.ptype_of_built virt_codec.payload_of_built)

theorem frame_roundtrip_witness:
  "read_frame (Some 4096) ([2, 0xFD, 0, 7, 0, 0, 0, 0] @ [9]) = (Inr [2, 0xFD, 0, 7, 0, 0, 0, 0], [9])"
proof -
  have "build_frame 7 [] 2 = Inr [2, 0xFD, 0, 7, 0, 0, 0, 0]"
    by (simp add: build_frame_def pack_uint_def int_be_2 numeral_eq_Suc)
  from frame_roundtrip [OF this, of 4096 "[9]"] show ?thesis by simp
qed

lemma read_exactly_Inr:
  "read_exactly n buf = (Inr xs, buf') \<longleftrightarrow> buf = xs @ buf' \<and> length xs = n"
  by (auto simp: read_exactly_def)

lemma read_exactly_Inl:
  "read_exactly n buf = (Inl e, buf') \<longleftrightarrow> length buf < n \<and> e = IncompleteReadError \<and> buf' = []"
  by (auto simp: read_exactly_def)

text \<open>What one call to the bounded reader does to the stream.\<close>

fun bounded_read :: "int \<Rightarrow> bytes \<Rightarrow> bytes res \<Rightarrow> bytes \<Rightarrow> bool" where
  "bounded_read m buf (Inr raw) buf' \<longleftrightarrow>
     buf = raw @ buf' \<and> int (length raw) = 8 + from_be (py_slice 4 8 raw) \<and> int (length raw) \<le> 8 + m"
| "bounded_read m buf (Inl (FrameTooLarge d m')) buf' \<longleftrightarrow>
     m' = m \<and> m < d \<and> 8 \<le> length buf \<and> d = from_be (py_slice 4 8 buf) \<and> buf' = drop 8 buf"
| "bounded_read m buf (Inl e) buf' \<longleftrightarrow>
     e = IncompleteReadError \<and> buf' = [] \<and> int (length buf) < 8 + m"

lemma read_exactly_cases:
  obtains xs where "read_exactly n buf = (Inr xs, drop n buf)" "xs = take n buf" "n \<le> length buf"
  | "read_exactly n buf = (Inl IncompleteReadError, [])" "length buf < n"
  by (cases "length buf < n") (auto simp: read_exactly_def)

text \<open>With a bound \<open>m\<close>, \<open>read_frame\<close> never takes more than \<open>8 + m\<close> bytes off the stream:
  a returned frame is a prefix of the stream whose length its own header declares; an
  over-long declaration consumes the header and nothing else; otherwise the stream ended
  inside a frame.\<close>

theorem read_frame_bounded:
  assumes m: "0 < m"
  shows "bounded_read m buf (fst (read_frame (Some m) buf)) (snd (read_frame (Some m) buf))"
proof (rule read_exactly_cases [of 8 buf])
  fix hdr
  assume h: "read_exactly 8 buf = (Inr hdr, drop 8 buf)" "hdr = take 8 buf" "8 \<le> length buf"
  let ?plen = "from_be (py_slice 4 8 hdr)"
  have sl: "py_slice 4 8 hdr = py_slice 4 8 buf" using h by (simp add: py_slice_def drop_take)
  have up: "unpack_uint 4 (py_slice 4 8 hdr) = Inr ?plen"
    using h by (simp add: unpack_uint_def)
  have len: "length hdr = 8" using h by simp
  show ?thesis
  proof (cases "?plen > m \<or> ?plen = 0")
    case True
    with h up sl m len show ?thesis
      by (auto simp: read_frame_def bnd_Inr)
  next
    case False
    show ?thesis
    proof (rule read_exactly_cases [of "nat ?plen" "drop 8 buf"])
      fix pl
      assume p: "read_exactly (nat ?plen) (drop 8 buf) = (Inr pl, drop (nat ?plen) (drop 8 buf))"
        "pl = take (nat ?plen) (drop 8 buf)" "nat ?plen \<le> length (drop 8 buf)"
      have "hdr @ pl @ drop (nat ?plen) (drop 8 buf) = buf"
        using h(2) p(2) by (metis append_take_drop_id)
      with False h up p len show ?thesis
        by (simp add: read_frame_def bnd_Inr)
    next
      assume p: "read_exactly (nat ?plen) (drop 8 buf) = (Inl IncompleteReadError, [])"
        "length (drop 8 buf) < nat ?plen"
      moreover from this(2) False h(3) have "int (length buf) < 8 + m"
        by (simp add: nat_less_iff zless_nat_eq_int_zless)
      ultimately show ?thesis using False h up
        by (simp add: read_frame_def bnd_Inr bnd_Inl)
    qed
  qed
next
  assume "read_exactly 8 buf = (Inl IncompleteReadError, [])" "length buf < 8"
  with m show ?thesis by (simp add: read_frame_def bnd_Inl)
qed

theorem read_frame_bounded_witness:
  "bounded_read 16 [2, 0xFD, 0, 5, 255, 255, 255, 255, 1]
     (fst (read_frame (Some 16) [2, 0xFD, 0, 5, 255, 255, 255, 255, 1]))
     (snd (read_frame (Some 16) [2, 0xFD, 0, 5, 255, 255, 255, 255, 1]))"
  by (rule read_frame_bounded) simp

text \<open>The headers a listener accepts, read off the requirement.\<close>

definition header_acceptable :: "bytes \<Rightarrow> int list option \<Rightarrow> int list \<Rightarrow> bool" where
  "header_acceptable raw known wild \<longleftrightarrow>
     (let ver = uint (raw ! 0); inv = uint (raw ! 1); pt = from_be (py_slice 2 4 raw) in
      inv + ver = 255
      \<and> (ver = 2 \<or> ver = 3 \<or> ver = 255 \<and> pt \<in> set wild)
      \<and> (\<forall>ts. known = Some ts \<longrightarrow> pt \<in> set ts))"

lemma xor_255: "0 \<le> v \<Longrightarrow> v < 256 \<Longrightarrow> 0xFF XOR v = 255 - (v :: int)"
proof -
  assume v: "0 \<le> v" "v < 256"
  then have tb: "take_bit 8 v = v"
    by (simp add: take_bit_int_eq_self)
  have "mask 8 XOR take_bit 8 v = take_bit 8 (NOT v)"
    by (rule bit_eqI) (auto simp: bit_simps)
  also have "\<dots> = mask 8 - take_bit 8 v"
    by (rule take_bit_not_eq_mask_diff)
  finally show ?thesis by (simp add: tb mask_eq_exp_minus_1)
qed

text \<open>On a buffer that holds a header, \<open>validate_header\<close> never raises; it accepts exactly
  the acceptable headers, where the second byte is the ones' complement of the first and the
  version and payload type are ones the listener knows, and every other header gets one of
  the two Generic Header NACK codes 0x00 and 0x01.\<close>

theorem validate_header_spec:
  assumes "4 \<le> length raw"
  shows "\<exists>v \<in> {None, Some NACK_GENERIC_INCORRECT_PATTERN, Some NACK_GENERIC_UNKNOWN_PAYLOAD_TYPE}.
     validate_header raw known wild = Inr v \<and> (v = None \<longleftrightarrow> header_acceptable raw known wild)"
proof -
  have "py_index raw 0 = Inr (raw ! 0)" "py_index raw 1 = Inr (raw ! 1)"
    using assms by (auto simp: py_index_def)
  moreover have "unpack_H (py_slice 2 4 raw) = Inr (from_be (py_slice 2 4 raw))"
    using assms by (simp add: unpack_uint_def)
  moreover have "0xFF XOR uint (raw ! 0) = 255 - uint (raw ! 0)"
    by (rule xor_255) simp_all
  ultimately show ?thesis
    by (auto simp: validate_header_def ACCEPTED_VERSIONS_def header_acceptable_def Let_def
        nack_codes split: option.splits)
qed

theorem validate_header_spec_witness:
  "validate_header [0xFF, 0, 0, 1] (Some [1]) [1] = Inr None"
proof -
  have "header_acceptable [0xFF, 0, 0, 1] (Some [1]) [1]"
    by (simp add: header_acceptable_def py_slice_def from_be_def)
  with validate_header_spec [of "[0xFF, 0, 0, 1]" "Some [1]" "[1]"] show ?thesis by auto
qed

end
