(* ===== verification/Ecu_Config.thy ===== *)
theory Ecu_Config
  imports Uds Doip_Frame
begin

text \<open>
  The typed configuration of a simulated ECU: the dataclasses of
  \<^verbatim>\<open>virtual_ecu/virtecu/config.py\<close> with their default values, one record per class. Tables keyed
  by an integer (\<^verbatim>\<open>dids\<close>, \<^verbatim>\<open>routines\<close>) are association lists in insertion order; policies
  stay the strings the YAML file has. The raw YAML tree, the base directory and the plugin
  specifications are not part of the record: the modelled operations never read them.
\<close>

record listen_config =
  host :: string
  port :: int
  interface :: string
  family :: string
  discovery_family :: string

record doip_config =
  ecu_logical_addr :: int
  node_type :: int
  power_mode :: int
  max_payload_bytes :: int
  vin :: string
  eid :: string
  gid :: string
  tester_addr_range :: "int \<times> int"
  initial_inactivity_ms :: int
  general_inactivity_ms :: int
  max_concurrent_sessions :: int
  alive_check_timeout_ms :: int

record udp_config =
  udp_enabled :: bool
  announce_count :: int
  announce_interval_ms :: int
  announce_wait_ms :: int

record security_config =
  sec_enabled :: bool
  sec_seed :: bytes
  sec_algorithm :: string
  sec_key :: bytes
  max_attempts :: int

record uds_config =
  default_session :: int
  s3_server_ms :: int
  p2_server_ms :: int
  p2_star_server_ms :: int
  auto_response_pending :: bool
  max_response_pending :: int
  suppress_pos_rsp_bit :: bool
  functional_addr :: int
  unknown_service :: string
  unknown_did :: string
  on_handler_error :: string
  reset_clears_writes :: bool
  reset_drops_connection :: bool
  sessions :: "int list"
  security :: security_config

record did_spec =
  spec_did :: int
  did_name :: string
  did_type :: string
  did_length :: "int option"
  did_value :: "bytes option"
  did_read :: bool
  did_write :: bool
  read_sessions :: "int list option"
  write_sessions :: "int list option"
  read_security :: int
  write_security :: int
  read_nrc :: "int option"
  write_nrc :: "int option"

definition did_dynamic :: "did_spec \<Rightarrow> bool" where
  "did_dynamic spec \<longleftrightarrow> did_type spec = ''dynamic''"

record routine_spec =
  spec_rid :: int
  routine_name :: string
  routine_start :: bytes
  routine_stop :: bytes
  routine_results :: bytes
  routine_sessions :: "int list option"
  routine_security :: int

record ecu_config =
  listen :: listen_config
  doip :: doip_config
  udp :: udp_config
  uds :: uds_config
  dids :: "(int \<times> did_spec) list"
  routines :: "(int \<times> routine_spec) list"

section \<open>Defaults\<close>

definition default_listen_config :: listen_config where
  "default_listen_config =
     \<lparr>host = ''::'', port = 13400, interface = '''', family = ''ipv6'', discovery_family = ''ipv6''\<rparr>"

text \<open>\<open>ALIVE_PROBE_TIMEOUT_S\<close> of \<^verbatim>\<open>doip.py\<close> in milliseconds.\<close>

definition ALIVE_PROBE_TIMEOUT_MS :: int where "ALIVE_PROBE_TIMEOUT_MS = 500"

definition default_doip_config :: doip_config where
  "default_doip_config =
     \<lparr>ecu_logical_addr = 0x0003, node_type = 0x01, power_mode = 0x01, max_payload_bytes = 4096,
      vin = ''00000000000000000'', eid = ''000000000000'', gid = ''000000000000'',
      tester_addr_range = TESTER_ADDR_RANGE, initial_inactivity_ms = 2000,
      general_inactivity_ms = 300000, max_concurrent_sessions = 8,
      alive_check_timeout_ms = ALIVE_PROBE_TIMEOUT_MS\<rparr>"

definition default_udp_config :: udp_config where
  "default_udp_config =
     \<lparr>udp_enabled = True, announce_count = 3, announce_interval_ms = 500, announce_wait_ms = 500\<rparr>"

definition default_security_config :: security_config where
  "default_security_config =
     \<lparr>sec_enabled = True, sec_seed = [0x11, 0x22, 0x33, 0x44], sec_algorithm = ''xor'',
      sec_key = [0xA5, 0xA5, 0xA5, 0xA5], max_attempts = 3\<rparr>"

definition default_uds_config :: uds_config where
  "default_uds_config =
     \<lparr>default_session = SESSION_DEFAULT, s3_server_ms = 5000, p2_server_ms = 50,
      p2_star_server_ms = 5000, auto_response_pending = True, max_response_pending = 10,
      suppress_pos_rsp_bit = True, functional_addr = 0x1FFF, unknown_service = ''nrc'',
      unknown_did = ''nrc'', on_handler_error = ''nrc'', reset_clears_writes = True,
      reset_drops_connection = False, sessions = [0x01, 0x02, 0x03, 0x04],
      security = default_security_config\<rparr>"

text \<open>\<open>DidSpec(did)\<close> and \<open>RoutineSpec(rid)\<close> with every other field at its default.\<close>

definition default_did_spec :: "int \<Rightarrow> did_spec" where
  "default_did_spec d =
     \<lparr>spec_did = d, did_name = '''', did_type = ''hex'', did_length = None, did_value = None,
      did_read = True, did_write = False, read_sessions = None, write_sessions = None,
      read_security = 0, write_security = 0, read_nrc = None, write_nrc = None\<rparr>"

definition default_routine_spec :: "int \<Rightarrow> routine_spec" where
  "default_routine_spec r =
     \<lparr>spec_rid = r, routine_name = '''', routine_start = [], routine_stop = [],
      routine_results = [], routine_sessions = None, routine_security = 0\<rparr>"

definition default_ecu_config :: ecu_config where
  "default_ecu_config =
     \<lparr>listen = default_listen_config, doip = default_doip_config, udp = default_udp_config,
      uds = default_uds_config, dids = [], routines = []\<rparr>"

lemmas config_defaults =
  default_listen_config_def default_doip_config_def default_udp_config_def
  default_security_config_def default_uds_config_def default_did_spec_def
  default_routine_spec_def default_ecu_config_def ALIVE_PROBE_TIMEOUT_MS_def
  TESTER_ADDR_RANGE_def SESSION_DEFAULT_def

end
