(* ===== verification/Did_Store.thy ===== *)
theory Did_Store
  imports Ecu_Config
begin

text \<open>
  \<open>DidStore\<close> of \<^verbatim>\<open>virtual_ecu/virtecu/store.py\<close>: the current value of every statically
  declared data identifier. The locale \<open>runtime_store\<close> states what the services rely on, a
  read after a write and the restoration of the defaults; its lemmas cover whole sequences of
  writes.
\<close>

section \<open>The store\<close>

record did_store =
  store_specs :: "(int \<times> did_spec) list"
  store_values :: "(int \<times> bytes) list"

text \<open>The dict comprehension of \<^verbatim>\<open>reset\<close>: the entries with a value, in table order.\<close>

primrec spec_defaults :: "(int \<times> did_spec) list \<Rightarrow> (int \<times> bytes) list" where
  "spec_defaults [] = []"
| "spec_defaults (e # es) =
     (case did_value (snd e) of
        None \<Rightarrow> spec_defaults es
      | Some v \<Rightarrow> (fst e, v) # spec_defaults es)"

definition store_reset :: "did_store \<Rightarrow> did_store" where
  "store_reset st = st\<lparr>store_values := spec_defaults (store_specs st)\<rparr>"

definition new_store :: "(int \<times> did_spec) list \<Rightarrow> did_store" where
  "new_store specs = store_reset \<lparr>store_specs = specs, store_values = []\<rparr>"

definition store_spec :: "did_store \<Rightarrow> int \<Rightarrow> did_spec option" where
  "store_spec st d = map_of (store_specs st) d"

definition store_contains :: "did_store \<Rightarrow> int \<Rightarrow> bool" where
  "store_contains st d \<longleftrightarrow> d \<in> set (map fst (store_specs st))"

definition store_read :: "did_store \<Rightarrow> int \<Rightarrow> bytes option" where
  "store_read st d = map_of (store_values st) d"

definition store_write :: "int \<Rightarrow> bytes \<Rightarrow> did_store \<Rightarrow> did_store" where
  "store_write d v st = st\<lparr>store_values := AList.update d v (store_values st)\<rparr>"

definition is_modified :: "did_store \<Rightarrow> int \<Rightarrow> bool" where
  "is_modified st d =
     (case map_of (store_specs st) d of
        None \<Rightarrow> store_read st d \<noteq> None
      | Some sp \<Rightarrow>
          (case did_value sp of
             None \<Rightarrow> store_read st d \<noteq> None
           | Some v \<Rightarrow> store_read st d \<noteq> Some v))"

section \<open>The contract of a runtime store\<close>

locale runtime_store =
  fixes rd :: "'s \<Rightarrow> 'k \<Rightarrow> 'v option"
    and wr :: "'k \<Rightarrow> 'v \<Rightarrow> 's \<Rightarrow> 's"
    and rst :: "'s \<Rightarrow> 's"
  assumes rd_wr: "rd (wr k v s) k' = (if k' = k then Some v else rd s k')"
    and rst_wr: "rst (wr k v s) = rst s"
    and rst_rst: "rst (rst s) = rst s"
begin

text \<open>A sequence of writes, first one first.\<close>

definition writes :: "('k \<times> 'v) list \<Rightarrow> 's \<Rightarrow> 's" where
  "writes ws s = fold (\<lambda>(k, v). wr k v) ws s"

lemma rd_writes:
  "rd (writes ws s) k = (case map_of (rev ws) k of Some v \<Rightarrow> Some v | None \<Rightarrow> rd s k)"
  by (induction ws arbitrary: s rule: rev_induct)
    (auto simp: writes_def rd_wr split: prod.splits option.splits)

lemma rst_writes: "rst (writes ws s) = rst s"
  by (induction ws rule: rev_induct) (auto simp: writes_def rst_wr split: prod.splits)

lemma rd_writes_unwritten: "k \<notin> fst ` set ws \<Longrightarrow> rd (writes ws s) k = rd s k"
proof -
  assume "k \<notin> fst ` set ws"
  then have "map_of (rev ws) k = None" by (simp add: map_of_eq_None_iff)
  then show ?thesis by (simp add: rd_writes)
qed

end

interpretation kv: runtime_store store_read store_write store_reset
  by unfold_locales
    (simp_all add: store_read_def store_write_def store_reset_def update_conv')

section \<open>Defaults\<close>

definition store_wf :: "did_store \<Rightarrow> bool" where
  "store_wf st \<longleftrightarrow> distinct (map fst (store_specs st))"

lemma map_of_spec_defaults_notin:
  "d \<notin> fst ` set es \<Longrightarrow> map_of (spec_defaults es) d = None"
  by (induction es) (auto split: option.splits)

lemma map_of_spec_defaults:
  "distinct (map fst es) \<Longrightarrow>
     map_of (spec_defaults es) d = (case map_of es d of None \<Rightarrow> None | Some sp \<Rightarrow> did_value sp)"
  by (induction es)
    (auto simp: map_of_spec_defaults_notin rev_image_eqI split: option.splits prod.splits)

lemma store_read_reset:
  "store_wf st \<Longrightarrow>
     store_read (store_reset st) d = (case store_spec st d of None \<Rightarrow> None | Some sp \<Rightarrow> did_value sp)"
  by (simp add: store_read_def store_reset_def store_spec_def store_wf_def map_of_spec_defaults)

lemma store_spec_write [simp]: "store_spec (store_write d v st) = store_spec st"
  by (simp add: fun_eq_iff store_spec_def store_write_def)

lemma store_specs_write [simp]: "store_specs (store_write d v st) = store_specs st"
  by (simp add: store_write_def)

lemma store_specs_reset [simp]: "store_specs (store_reset st) = store_specs st"
  by (simp add: store_reset_def)

lemma store_specs_new [simp]: "store_specs (new_store specs) = specs"
  by (simp add: new_store_def)

section \<open>Properties\<close>

text \<open>After any sequence of writes to a fresh store, reading an identifier gives the last
  value written to it, or the default its specification declares when it was not written; and
  \<open>reset\<close> brings back exactly the defaults, whatever was written, so that no declared
  identifier counts as modified.\<close>

theorem store_writes_then_reset:
  assumes wf: "distinct (map fst specs)"
    and st: "st = fold (\<lambda>(d, v). store_write d v) ws (new_store specs)"
  shows "store_read st d = (case map_of (rev ws) d of Some v \<Rightarrow> Some v
      | None \<Rightarrow> (case map_of specs d of None \<Rightarrow> None | Some sp \<Rightarrow> did_value sp))
    \<and> store_reset st = new_store specs \<and> \<not> is_modified (store_reset st) d"
proof -
  let ?s0 = "new_store specs"
  have w: "st = kv.writes ws ?s0"
    by (simp add: st kv.writes_def)
  have def: "store_read ?s0 d = (case map_of specs d of None \<Rightarrow> None | Some sp \<Rightarrow> did_value sp)"
    using wf by (simp add: new_store_def store_read_reset store_wf_def store_spec_def)
  have rst: "store_reset st = ?s0"
    by (simp add: w kv.rst_writes) (simp add: new_store_def kv.rst_rst)
  have "\<not> is_modified ?s0 d"
    using def by (auto simp: is_modified_def split: option.splits)
  with def rst show ?thesis
    by (simp add: w kv.rd_writes split: option.splits)
qed

theorem store_writes_then_reset_witness:
  "store_read (fold (\<lambda>(d, v). store_write d v) [(0xF190, [1]), (0xF190, [2])]
      (new_store [(0xF190, (default_did_spec 0xF190)\<lparr>did_value := Some [7]\<rparr>)])) 0xF190 = Some [2]"
  using store_writes_then_reset
    [of "[(0xF190, (default_did_spec 0xF190)\<lparr>did_value := Some [7]\<rparr>)]" _
        "[(0xF190, [1]), (0xF190, [2])]" "0xF190"]
  by simp

end
