(* ===== verification/Ecu_Core.thy ===== *)
theory Ecu_Core
  imports Did_Store
begin

text \<open>
  \<open>SessionState\<close> and \<open>EcuCore\<close> of \<^verbatim>\<open>virtual_ecu/virtecu/core.py\<close>. Session states are objects
  with identity, shared between a connection, the table keyed by tester address and the S3
  timer task, so they live in a heap and are named by references. An armed S3 task is the
  timeout it sleeps for; its expiry is the operation \<open>s3_expiry\<close>. The scratch dictionary
  \<^verbatim>\<open>data\<close> is modelled for the one key the core uses, \<^verbatim>\<open>"routines"\<close>; whatever else plugins
  keep is in the extension part of the record.
\<close>

section \<open>State\<close>

record session_state =
  session_type :: int
  security_level :: int
  seed_pending :: "int option"
  security_attempts :: int
  st_tester_addr :: "int option"
  st_activated :: bool
  s3_timer :: "int option"

record ecu =
  store :: did_store
  routine_data :: "(int \<times> bool) list option"
  session_states :: "(int \<times> nat) list"
  heap :: "nat \<Rightarrow> session_state"
  next_ref :: nat

abbreviation sess :: "'m ecu_scheme \<Rightarrow> nat \<Rightarrow> session_state" where
  "sess w r \<equiv> heap w r"

definition upd_sess :: "nat \<Rightarrow> (session_state \<Rightarrow> session_state) \<Rightarrow> 'm ecu_scheme \<Rightarrow> 'm ecu_scheme" where
  "upd_sess r f w = w\<lparr>heap := (heap w)(r := f (heap w r))\<rparr>"

section \<open>SessionState\<close>

definition new_state :: "uds_config \<Rightarrow> session_state" where
  "new_state u =
     \<lparr>session_type = default_session u, security_level = 0, seed_pending = None,
      security_attempts = 0, st_tester_addr = None, st_activated = False, s3_timer = None\<rparr>"

definition cancel_s3 :: "session_state \<Rightarrow> session_state" where
  "cancel_s3 s = s\<lparr>s3_timer := None\<rparr>"

definition refresh_s3 :: "uds_config \<Rightarrow> session_state \<Rightarrow> session_state" where
  "refresh_s3 u s =
     (let s = cancel_s3 s in
      if session_type s = default_session u then s
      else if s3_server_ms u \<le> 0 then s
      else s\<lparr>s3_timer := Some (s3_server_ms u)\<rparr>)"

definition enter_session :: "uds_config \<Rightarrow> int \<Rightarrow> session_state \<Rightarrow> session_state" where
  "enter_session u ty s =
     refresh_s3 u (s\<lparr>session_type := ty, security_level := 0, seed_pending := None,
                     security_attempts := 0\<rparr>)"

definition state_reset :: "uds_config \<Rightarrow> session_state \<Rightarrow> session_state" where
  "state_reset u s =
     cancel_s3 (s\<lparr>session_type := default_session u, security_level := 0, seed_pending := None,
                  security_attempts := 0\<rparr>)"

section \<open>EcuCore\<close>

text \<open>\<open>new_session\<close> allocates a state that is in no table.\<close>

definition new_session :: "uds_config \<Rightarrow> 'm ecu_scheme \<Rightarrow> nat \<times> 'm ecu_scheme" where
  "new_session u w =
     (next_ref w, w\<lparr>heap := (heap w)(next_ref w := new_state u), next_ref := next_ref w + 1\<rparr>)"

definition session_for :: "uds_config \<Rightarrow> int \<Rightarrow> 'm ecu_scheme \<Rightarrow> nat \<times> 'm ecu_scheme" where
  "session_for u a w =
     (case map_of (session_states w) a of
        Some r \<Rightarrow> (r, w)
      | None \<Rightarrow>
          (let (r, w) = new_session u w;
               w = upd_sess r (\<lambda>s. s\<lparr>st_tester_addr := Some a\<rparr>) w
           in (r, w\<lparr>session_states := AList.update a r (session_states w)\<rparr>)))"

text \<open>The tidy-up condition, and the identity check on the caller's own state.\<close>

definition nothing_to_remember :: "uds_config \<Rightarrow> session_state \<Rightarrow> bool" where
  "nothing_to_remember u s \<longleftrightarrow>
     session_type s = default_session u \<and> security_level s = 0 \<and> seed_pending s = None"

definition maybe_drop_session_state ::
    "uds_config \<Rightarrow> int option \<Rightarrow> nat option \<Rightarrow> 'm ecu_scheme \<Rightarrow> 'm ecu_scheme" where
  "maybe_drop_session_state u addr state w =
     (case addr of
        None \<Rightarrow> w
      | Some a \<Rightarrow>
          (case map_of (session_states w) a of
             None \<Rightarrow> w
           | Some current \<Rightarrow>
               if state \<noteq> None \<and> state \<noteq> Some current then w
               else if nothing_to_remember u (sess w current)
                 then (upd_sess current cancel_s3 w)
                        \<lparr>session_states := AList.delete a (session_states w)\<rparr>
               else w))"

definition drop_session_state :: "int option \<Rightarrow> 'm ecu_scheme \<Rightarrow> 'm ecu_scheme" where
  "drop_session_state addr w =
     (case addr of
        None \<Rightarrow> w
      | Some a \<Rightarrow>
          (case map_of (session_states w) a of
             None \<Rightarrow> w
           | Some r \<Rightarrow>
               (upd_sess r cancel_s3 w)\<lparr>session_states := AList.delete a (session_states w)\<rparr>))"

text \<open>The S3 task of state \<open>r\<close> runs out: back to the default session, then tidy the table.\<close>

definition s3_expiry :: "uds_config \<Rightarrow> nat \<Rightarrow> 'm ecu_scheme \<Rightarrow> 'm ecu_scheme" where
  "s3_expiry u r w =
     (let w = upd_sess r (state_reset u) w
      in maybe_drop_session_state u (st_tester_addr (sess w r)) (Some r) w)"

definition core_reset :: "bool \<Rightarrow> 'm ecu_scheme \<Rightarrow> 'm ecu_scheme" where
  "core_reset clear_writes w =
     (let w = (if clear_writes then w\<lparr>store := store_reset (store w)\<rparr> else w)
      in w\<lparr>routine_data := None\<rparr>)"

text \<open>\<open>EcuCore.__init__\<close> for the part of the state the core owns.\<close>

definition new_ecu :: "ecu_config \<Rightarrow> ecu" where
  "new_ecu cfg =
     \<lparr>store = new_store (dids cfg), routine_data = None, session_states = [],
      heap = (\<lambda>_. new_state (uds cfg)), next_ref = 0\<rparr>"

section \<open>The invariant of a session state\<close>

text \<open>
  A seed is outstanding only for an odd sub-function whose level is above the one unlocked,
  levels and attempts are in range, and a timer runs only outside the default session and
  with the configured timeout. Levels are \<open>(sub + 1) div 2\<close> for a sub-function below 128.
\<close>

definition state_ok :: "uds_config \<Rightarrow> session_state \<Rightarrow> bool" where
  "state_ok u s \<longleftrightarrow>
     0 \<le> security_level s \<and> security_level s < 64 \<and> 0 \<le> security_attempts s
     \<and> (\<forall>p. seed_pending s = Some p \<longrightarrow>
           odd p \<and> 0 < p \<and> p < 128 \<and> security_level s < (p + 1) div 2)
     \<and> (\<forall>t. s3_timer s = Some t \<longrightarrow>
           t = s3_server_ms u \<and> 0 < t \<and> session_type s \<noteq> default_session u)"

definition core_inv :: "uds_config \<Rightarrow> 'm ecu_scheme \<Rightarrow> bool" where
  "core_inv u w \<longleftrightarrow>
     (\<forall>r. state_ok u (sess w r))
     \<and> distinct (map fst (session_states w))
     \<and> (\<forall>a r. map_of (session_states w) a = Some r \<longrightarrow>
           r < next_ref w \<and> st_tester_addr (sess w r) = Some a)"

named_theorems core_simps \<open>how the operations of the core act on the fields of the state\<close>

lemma state_ok_new [simp]: "state_ok u (new_state u)"
  by (simp add: state_ok_def new_state_def)

lemma state_ok_cancel: "state_ok u s \<Longrightarrow> state_ok u (cancel_s3 s)"
  by (auto simp: state_ok_def cancel_s3_def)

lemma state_ok_refresh: "state_ok u s \<Longrightarrow> state_ok u (refresh_s3 u s)"
  by (auto simp: state_ok_def refresh_s3_def cancel_s3_def Let_def)

lemma state_ok_enter: "state_ok u (enter_session u ty s)"
  by (simp add: state_ok_def enter_session_def refresh_s3_def cancel_s3_def Let_def)

lemma state_ok_reset: "state_ok u (state_reset u s)"
  by (simp add: state_ok_def state_reset_def cancel_s3_def)

lemma st_tester_addr_kept [core_simps]:
  "st_tester_addr (cancel_s3 s) = st_tester_addr s"
  "st_tester_addr (refresh_s3 u s) = st_tester_addr s"
  "st_tester_addr (enter_session u ty s) = st_tester_addr s"
  "st_tester_addr (state_reset u s) = st_tester_addr s"
  by (simp_all add: cancel_s3_def refresh_s3_def enter_session_def state_reset_def Let_def)

lemma upd_sess_fields [core_simps]:
  "store (upd_sess r f w) = store w"
  "routine_data (upd_sess r f w) = routine_data w"
  "session_states (upd_sess r f w) = session_states w"
  "next_ref (upd_sess r f w) = next_ref w"
  "ecu.more (upd_sess r f w) = ecu.more w"
  "sess (upd_sess r f w) r' = (if r' = r then f (sess w r) else sess w r')"
  by (simp_all add: upd_sess_def)

lemma core_inv_upd:
  assumes "core_inv u w"
    and "\<And>s. state_ok u s \<Longrightarrow> state_ok u (f s)"
    and "\<And>s. st_tester_addr (f s) = st_tester_addr s"
  shows "core_inv u (upd_sess r f w)"
  using assms by (auto simp: core_inv_def core_simps)

lemma core_inv_upd_at:
  assumes "core_inv u w" and "state_ok u (f (sess w r))"
    and "st_tester_addr (f (sess w r)) = st_tester_addr (sess w r)"
  shows "core_inv u (upd_sess r f w)"
  using assms by (auto simp: core_inv_def core_simps)

lemma core_inv_new [simp]: "core_inv (uds cfg) (new_ecu cfg)"
  by (simp add: core_inv_def new_ecu_def)

lemma map_of_delete: "distinct (map fst al) \<Longrightarrow> map_of (AList.delete k al) = (map_of al)(k := None)"
  by (simp add: delete_conv')

lemma core_inv_drop_entry:
  assumes "core_inv u w"
  shows "core_inv u ((upd_sess r cancel_s3 w)\<lparr>session_states := AList.delete a (session_states w)\<rparr>)"
  using assms
  by (auto simp: core_inv_def core_simps state_ok_cancel map_of_delete distinct_delete
      upd_sess_def split: if_splits)

lemma core_inv_maybe_drop:
  "core_inv u w \<Longrightarrow> core_inv u (maybe_drop_session_state u a st w)"
  by (auto simp: maybe_drop_session_state_def core_inv_drop_entry split: option.splits)

lemma core_inv_drop: "core_inv u w \<Longrightarrow> core_inv u (drop_session_state a w)"
  by (auto simp: drop_session_state_def core_inv_drop_entry split: option.splits)

lemma core_inv_s3_expiry: "core_inv u w \<Longrightarrow> core_inv u (s3_expiry u r w)"
  unfolding s3_expiry_def Let_def
  by (rule core_inv_maybe_drop, rule core_inv_upd) (simp_all add: state_ok_reset core_simps)

lemma core_inv_core_reset: "core_inv u w \<Longrightarrow> core_inv u (core_reset c w)"
  by (auto simp: core_inv_def core_reset_def Let_def)

lemma session_for_new:
  "map_of (session_states w) a = None \<Longrightarrow>
     session_for u a w =
       (next_ref w, w\<lparr>session_states := AList.update a (next_ref w) (session_states w),
          heap := (heap w)(next_ref w := (new_state u)\<lparr>st_tester_addr := Some a\<rparr>),
          next_ref := Suc (next_ref w)\<rparr>)"
  by (simp add: session_for_def new_session_def upd_sess_def Let_def)

lemma session_for_old:
  "map_of (session_states w) a = Some r \<Longrightarrow> session_for u a w = (r, w)"
  by (simp add: session_for_def)

lemma core_inv_session_for:
  assumes inv: "core_inv u w"
  shows "core_inv u (snd (session_for u a w))"
proof (cases "map_of (session_states w) a")
  case None
  have ok: "state_ok u ((new_state u)\<lparr>st_tester_addr := Some a\<rparr>)"
    by (simp add: state_ok_def new_state_def)
  let ?w = "snd (session_for u a w)"
  have entry: "r < next_ref ?w \<and> st_tester_addr (sess ?w r) = Some b"
    if "map_of (session_states ?w) b = Some r" for b r
  proof (cases "b = a")
    case True
    with that show ?thesis using None by (simp add: session_for_new update_conv')
  next
    case False
    with that have "map_of (session_states w) b = Some r"
      using None by (simp add: session_for_new update_conv')
    with inv have "r < next_ref w" "st_tester_addr (sess w r) = Some b"
      unfolding core_inv_def by blast+
    then show ?thesis using None by (simp add: session_for_new)
  qed
  have "state_ok u (sess ?w r)" for r
    using inv ok None by (simp add: session_for_new core_inv_def)
  moreover have "distinct (map fst (session_states ?w))"
    using inv None by (simp add: session_for_new core_inv_def distinct_update)
  ultimately show ?thesis
    using entry unfolding core_inv_def by blast
next
  case (Some r)
  with inv show ?thesis by (simp add: session_for_old)
qed

lemma session_for_registers:
  assumes "session_for u a w = (r, w')"
  shows "map_of (session_states w') a = Some r"
  using assms
  by (auto simp: session_for_def new_session_def Let_def upd_sess_def update_conv'
      split: option.splits)

lemma session_for_other:
  assumes "session_for u a w = (r, w')" and "b \<noteq> a"
  shows "map_of (session_states w') b = map_of (session_states w) b"
  using assms
  by (auto simp: session_for_def new_session_def Let_def upd_sess_def update_conv'
      split: option.splits)

section \<open>Properties\<close>

text \<open>What a tester finds when it activates routing: the diagnostic state its address maps to,
  or that of a fresh state when there is none.\<close>

definition diag_view :: "uds_config \<Rightarrow> 'm ecu_scheme \<Rightarrow> int \<Rightarrow> int \<times> int \<times> int option" where
  "diag_view u w a =
     (let (r, w') = session_for u a w; s = sess w' r
      in (session_type s, security_level s, seed_pending s))"

lemma diag_view_cases:
  "diag_view u w a =
     (case map_of (session_states w) a of
        None \<Rightarrow> (default_session u, 0, None)
      | Some r \<Rightarrow> (session_type (sess w r), security_level (sess w r), seed_pending (sess w r)))"
  by (auto simp: diag_view_def session_for_new session_for_old new_state_def Let_def
      split: option.splits)

text \<open>Tidying up a tester's state when a socket closes is unobservable: for every tester
  address, the session, the security level and the pending seed a later Routing Activation
  finds are those it would have found without the tidy-up. A caller whose own state is no
  longer the one in the table changes nothing at all, and no state that is not in the resting
  condition is ever removed.\<close>

theorem maybe_drop_unobservable:
  assumes inv: "core_inv u w"
  shows "diag_view u (maybe_drop_session_state u addr st w) b = diag_view u w b
    \<and> (\<forall>a r r'. addr = Some a \<and> st = Some r \<and> map_of (session_states w) a = Some r' \<and> r \<noteq> r'
          \<longrightarrow> maybe_drop_session_state u addr st w = w)
    \<and> (\<forall>a r. map_of (session_states w) a = Some r \<and> \<not> nothing_to_remember u (sess w r)
          \<longrightarrow> map_of (session_states (maybe_drop_session_state u addr st w)) a = Some r)"
proof (intro conjI)
  have del: "map_of (AList.delete k (session_states w)) = (map_of (session_states w))(k := None)" for k
    using inv by (simp add: core_inv_def map_of_delete)
  show "diag_view u (maybe_drop_session_state u addr st w) b = diag_view u w b"
    by (auto simp: diag_view_cases maybe_drop_session_state_def nothing_to_remember_def
        del core_simps cancel_s3_def upd_sess_def split: option.splits)
  show "\<forall>a r r'. addr = Some a \<and> st = Some r \<and> map_of (session_states w) a = Some r' \<and> r \<noteq> r'
          \<longrightarrow> maybe_drop_session_state u addr st w = w"
    by (auto simp: maybe_drop_session_state_def)
  show "\<forall>a r. map_of (session_states w) a = Some r \<and> \<not> nothing_to_remember u (sess w r)
          \<longrightarrow> map_of (session_states (maybe_drop_session_state u addr st w)) a = Some r"
    by (auto simp: maybe_drop_session_state_def del split: option.splits)
qed

theorem maybe_drop_unobservable_witness:
  "diag_view default_uds_config
     (maybe_drop_session_state default_uds_config (Some 0x0E00) (Some 0)
        (snd (session_for default_uds_config 0x0E00 (new_ecu default_ecu_config)))) 0x0E00
   = (1, 0, None)"
proof -
  let ?w = "snd (session_for default_uds_config 0x0E00 (new_ecu default_ecu_config))"
  have "core_inv default_uds_config (new_ecu default_ecu_config)"
    using core_inv_new [of default_ecu_config] by (simp add: default_ecu_config_def)
  then have "core_inv default_uds_config ?w"
    by (rule core_inv_session_for)
  from maybe_drop_unobservable [OF this, of "Some 0x0E00" "Some 0" "0x0E00"]
  show ?thesis
    by (simp add: diag_view_cases session_for_def new_session_def new_ecu_def new_state_def
        config_defaults upd_sess_def Let_def)
qed

text \<open>When the S3 timer of a tester's state runs out, the state is back in the default
  session, locked, with no pending seed, no failed attempts and no timer, its entry leaves the
  table, and the entries of all other testers stay.\<close>

theorem s3_expiry_relocks:
  assumes inv: "core_inv u w" and a: "map_of (session_states w) a = Some r"
  shows "sess (s3_expiry u r w) r =
      (new_state u)\<lparr>st_tester_addr := Some a, st_activated := st_activated (sess w r)\<rparr>
    \<and> map_of (session_states (s3_expiry u r w)) = (map_of (session_states w))(a := None)"
proof -
  have "map_of (AList.delete a (session_states w)) = (map_of (session_states w))(a := None)"
    "st_tester_addr (sess w r) = Some a"
    using inv a by (auto simp: core_inv_def map_of_delete simp del: map_of_eq_Some_iff)
  with a show ?thesis
    by (auto simp: s3_expiry_def maybe_drop_session_state_def nothing_to_remember_def state_reset_def
        cancel_s3_def core_simps Let_def upd_sess_def new_state_def)
qed

theorem s3_expiry_relocks_witness:
  "map_of (session_states (s3_expiry default_uds_config 0
     (snd (session_for default_uds_config 0x0E00 (new_ecu default_ecu_config))))) 0x0E00 = None"
proof -
  let ?w = "snd (session_for default_uds_config 0x0E00 (new_ecu default_ecu_config))"
  have "core_inv default_uds_config (new_ecu default_ecu_config)"
    using core_inv_new [of default_ecu_config] by (simp add: default_ecu_config_def)
  then have "core_inv default_uds_config ?w"
    by (rule core_inv_session_for)
  moreover have "map_of (session_states ?w) 0x0E00 = Some 0"
    by (simp add: session_for_def new_session_def new_ecu_def upd_sess_def Let_def)
  ultimately show ?thesis
    using s3_expiry_relocks [of default_uds_config ?w "0x0E00" 0] by simp
qed

text \<open>the S3 timer takes a state out of the table although a connected socket still uses it. From
  then on the tester's state is an orphan: a session entered on that socket afterwards is not the
  one a reconnect finds. After the timer of tester \<open>a\<close> expired, entering any non-default
  session \<open>ty\<close>, even unlocking, then losing the socket (and its tidy-up), a reconnect within S3 gets
  a fresh default state although the old state is still in session \<open>ty\<close>.\<close>

theorem s3_expiry_orphans_live_state:
  assumes inv: "core_inv u w" and a: "map_of (session_states w) a = Some r"
    and ty: "ty \<noteq> default_session u"
    and w2: "w2 = upd_sess r (enter_session u ty) (s3_expiry u r w)"
    and w3: "w3 = maybe_drop_session_state u (Some a) (Some r) w2"
  shows "session_type (sess w3 r) = ty \<and> diag_view u w3 a = (default_session u, 0, None)"
proof -
  have st: "st_tester_addr (sess w r) = Some a"
    and del: "map_of (AList.delete a (session_states w)) = (map_of (session_states w))(a := None)"
    using inv a by (auto simp: core_inv_def map_of_delete simp del: map_of_eq_Some_iff)
  have none: "map_of (session_states w2) a = None"
    using a st del
    by (simp add: w2 s3_expiry_def maybe_drop_session_state_def nothing_to_remember_def state_reset_def
        cancel_s3_def core_simps Let_def)
  then have "w3 = w2" by (simp add: w3 maybe_drop_session_state_def)
  with none show ?thesis
    by (simp add: diag_view_cases)
      (simp add: w2 core_simps enter_session_def refresh_s3_def cancel_s3_def Let_def)
qed

theorem s3_expiry_orphans_live_state_witness:
  "diag_view default_uds_config
     (maybe_drop_session_state default_uds_config (Some 0x0E00) (Some 0)
        (upd_sess 0 (enter_session default_uds_config 3)
           (s3_expiry default_uds_config 0
              (snd (session_for default_uds_config 0x0E00 (new_ecu default_ecu_config)))))) 0x0E00
   = (1, 0, None)"
proof -
  let ?w = "snd (session_for default_uds_config 0x0E00 (new_ecu default_ecu_config))"
  have "core_inv default_uds_config (new_ecu default_ecu_config)"
    using core_inv_new [of default_ecu_config] by (simp add: default_ecu_config_def)
  then have "core_inv default_uds_config ?w"
    by (rule core_inv_session_for)
  moreover have "map_of (session_states ?w) 0x0E00 = Some 0"
    by (simp add: session_for_def new_session_def new_ecu_def upd_sess_def Let_def)
  ultimately show ?thesis
    using s3_expiry_orphans_live_state [of default_uds_config ?w "0x0E00" 0 3, OF _ _ _ refl refl]
    by (simp add: config_defaults)
qed

end
