(* ===== verification/Plugins.thy ===== *)
theory Plugins
  imports Ecu_Core "HOL-Library.Product_Lexorder" "HOL-Library.List_Lexorder" "HOL-Library.Char_ord"
begin

text \<open>
  The plugin interface of \<^verbatim>\<open>virtual_ecu/virtecu/plugin.py\<close>: hook kinds with their keys, the
  collection of decorated methods by \<open>Plugin.__init_subclass__\<close>, the request objects and
  contexts a handler receives, and \<open>Hook\<close> with its sort key from \<^verbatim>\<open>dispatcher.py\<close>. Plugin
  code itself is not part of the repository's core: a method is a parameter, a function from
  its arguments to a computation on the whole state that returns a value or raises. \<open>ladder\<close>
  is the loop all hook consultations have: ask in order, skip those that decline, stop at the
  first that answers.
\<close>

section \<open>Hook points\<close>

definition ANY_SERVICE :: int where "ANY_SERVICE = -1"

datatype hook_point =
    KObserver
  | KService int
  | KReadDid int
  | KWriteDid int
  | KRoutine int "int option"
  | KRoutingActivation
  | KDiagnosticAck
  | KFrameRx
  | KFrameTx
  | KIdentificationRequest

definition is_uds_kind :: "hook_point \<Rightarrow> bool" where
  "is_uds_kind k =
     (case k of KObserver \<Rightarrow> True | KService _ \<Rightarrow> True | KReadDid _ \<Rightarrow> True | KWriteDid _ \<Rightarrow> True
      | KRoutine _ _ \<Rightarrow> True | _ \<Rightarrow> False)"

section \<open>What a handler receives and returns\<close>

text \<open>\<open>Context\<close>: the request and the session state; the ECU is the state of the computation.\<close>

record ctx =
  ctx_request :: uds_request
  ctx_session :: nat

record ra_request =
  ra_source_addr :: int
  ra_activation_type :: int
  ra_raw :: bytes

record 'p ident_request =
  ident_payload_type :: int
  ident_requester :: 'p
  ident_raw :: bytes

text \<open>The peer a \<open>DoipContext\<close> is for: a TCP connection, or a UDP address.\<close>

datatype 'p peer = TcpPeer nat | UdpPeer 'p

datatype 'p hook_args =
    ReqArgs uds_request ctx
  | WriteArgs bytes uds_request ctx
  | RoutineArgs int bytes uds_request ctx
  | RaArgs ra_request "'p peer"
  | AckArgs uds_request "'p peer"
  | FrameArgs int bytes "'p peer"
  | IdentArgs "'p ident_request" "'p peer"

text \<open>Results: \<open>None\<close>, the sentinels \<open>NO_RESPONSE\<close> and \<open>WITHHOLD_ACK\<close>, bytes, booleans,
  integers; any other object is \<open>HOther\<close> with its truth value.\<close>

datatype hres = HNone | HNoResponse | HWithhold | HBytes bytes | HBool bool | HInt int | HOther bool

definition truthy :: "hres \<Rightarrow> bool" where
  "truthy r =
     (case r of HNone \<Rightarrow> False | HNoResponse \<Rightarrow> True | HWithhold \<Rightarrow> True | HBytes b \<Rightarrow> b \<noteq> []
      | HBool b \<Rightarrow> b | HInt i \<Rightarrow> i \<noteq> 0 | HOther t \<Rightarrow> t)"

type_synonym ('p, 'w) handler = "'p hook_args \<Rightarrow> ('w, hres) py"

text \<open>\<open>ctx.nrc(code)\<close>.\<close>

definition ctx_nrc :: "ctx \<Rightarrow> int \<Rightarrow> exn" where
  "ctx_nrc c code = NegativeResponse code (Some (sid (ctx_request c)))"

section \<open>Plugins and their hook tables\<close>

type_synonym entry = "string \<times> int option"
type_synonym hook_table = "(hook_point \<times> entry list) list"

record ('p, 'w) plugin =
  p_name :: string
  p_priority :: int
  p_enabled :: bool
  p_load_index :: int
  p_hooks :: hook_table
  p_method :: "string \<Rightarrow> ('p, 'w) handler"

definition lookup_list :: "('k \<times> 'a list) list \<Rightarrow> 'k \<Rightarrow> 'a list" where
  "lookup_list al k = (case map_of al k of None \<Rightarrow> [] | Some xs \<Rightarrow> xs)"

text \<open>\<open>setdefault(k, []).append(x)\<close>.\<close>

definition append_at :: "'k \<Rightarrow> 'a \<Rightarrow> ('k \<times> 'a list) list \<Rightarrow> ('k \<times> 'a list) list" where
  "append_at k x al = AList.update k (lookup_list al k @ [x]) al"

text \<open>
  \<open>__init_subclass__\<close>: the classes of the MRO, base first, each a list of attributes with the
  marks the decorators left on them (hook point and priority).
\<close>

type_synonym class_attrs = "(string \<times> (hook_point \<times> int option) list) list"

definition collect_mark :: "string \<Rightarrow> hook_point \<times> int option \<Rightarrow> hook_table \<Rightarrow> hook_table" where
  "collect_mark name mk t =
     (let k = fst mk; e = (name, snd mk) in
      if e \<in> set (lookup_list t k) then AList.update k (lookup_list t k) t else append_at k e t)"

definition collect_hooks :: "class_attrs list \<Rightarrow> hook_table" where
  "collect_hooks mro =
     fold (\<lambda>attrs t. fold (\<lambda>(name, marks) t. fold (collect_mark name) marks t) attrs t) mro []"

record ('p, 'w) hook =
  h_priority :: int
  h_load_index :: int
  h_plugin_name :: string
  h_method_name :: string
  h_method :: "('p, 'w) handler"

definition hook_key :: "('p, 'w) hook \<Rightarrow> int \<times> int \<times> string" where
  "hook_key h = (h_priority h, h_load_index h, h_plugin_name h)"

definition mk_hook :: "('p, 'w) plugin \<Rightarrow> entry \<Rightarrow> ('p, 'w) hook" where
  "mk_hook p e =
     \<lparr>h_priority = (case snd e of None \<Rightarrow> p_priority p | Some x \<Rightarrow> x),
      h_load_index = p_load_index p, h_plugin_name = p_name p, h_method_name = fst e,
      h_method = p_method p (fst e)\<rparr>"

text \<open>The hooks a list of plugins registers, in registration order, each with its point.\<close>

definition plugin_hooks :: "('p, 'w) plugin \<Rightarrow> (hook_point \<times> ('p, 'w) hook) list" where
  "plugin_hooks p = concat (map (\<lambda>(k, es). map (\<lambda>e. (k, mk_hook p e)) es) (p_hooks p))"

section \<open>Consulting hooks in order\<close>

datatype 'a verdict = Skip | Stop exn | Take 'a

primrec ladder ::
    "('h \<Rightarrow> ('s, 'r) py) \<Rightarrow> ('r \<Rightarrow> 'a verdict) \<Rightarrow> 'h list \<Rightarrow> ('s, 'a option) py" where
  "ladder ask judge [] = ret None"
| "ladder ask judge (h # hs) =
     bnd (ask h) (\<lambda>r. case judge r of
        Skip \<Rightarrow> ladder ask judge hs
      | Stop e \<Rightarrow> raise e
      | Take a \<Rightarrow> ret (Some a))"

lemma ladder_append:
  "ladder ask judge (hs @ hs') =
     bnd (ladder ask judge hs) (\<lambda>r. case r of None \<Rightarrow> ladder ask judge hs' | Some a \<Rightarrow> ret (Some a))"
  by (induction hs)
    (auto simp: fun_eq_iff bnd_def split: prod.splits sum.splits verdict.splits option.splits)

lemma keeps_ladder:
  "(\<And>h. h \<in> set hs \<Longrightarrow> keeps P (ask h)) \<Longrightarrow> keeps P (ladder ask judge hs)"
proof (induction hs)
  case Nil
  then show ?case by (simp add: keeps_ret)
next
  case (Cons h hs)
  have "keeps P (case judge r of Skip \<Rightarrow> ladder ask judge hs | Stop e \<Rightarrow> raise e | Take a \<Rightarrow> ret (Some a))"
    for r using Cons by (cases "judge r") (simp_all add: keeps_raise keeps_ret)
  with Cons.prems show ?case by (simp add: keeps_bnd)
qed

lemma raises_only_ladder [raises_rules]:
  assumes "\<And>h. h \<in> set hs \<Longrightarrow> raises_only E (ask h)" and "\<And>r e. judge r = Stop e \<Longrightarrow> E e"
  shows "raises_only E (ladder ask judge hs)"
  using assms(1)
proof (induction hs)
  case Nil
  then show ?case unfolding ladder.simps by (intro raises_rules)
next
  case (Cons h hs)
  have "raises_only E (case judge r of Skip \<Rightarrow> ladder ask judge hs | Stop e \<Rightarrow> raise e | Take a \<Rightarrow> ret (Some a))"
    for r
    using Cons assms(2) [of r]
    by (cases "judge r") (simp_all only: verdict.case list.set insert_iff raises_rules simp_thms)
  with Cons.prems show ?case unfolding ladder.simps by (intro raises_rules) auto
qed

text \<open>A ladder that answers \<open>a\<close> answers it from one of its rungs, all earlier ones having
  declined; the state is threaded through all of them.\<close>

inductive declined :: "('h \<Rightarrow> ('s, 'r) py) \<Rightarrow> ('r \<Rightarrow> 'a verdict) \<Rightarrow> 'h list \<Rightarrow> 's \<Rightarrow> 's \<Rightarrow> bool"
  for ask judge where
  declined_Nil: "declined ask judge [] s s"
| declined_Cons: "ask h s = (Inr r, s') \<Longrightarrow> judge r = Skip \<Longrightarrow> declined ask judge hs s' s'' \<Longrightarrow>
     declined ask judge (h # hs) s s''"

lemma ladder_Cons_Inr:
  assumes "ladder ask judge (h # hs) s = (Inr x, s')"
  obtains (skip) r t where "ask h s = (Inr r, t)" "judge r = Skip" "ladder ask judge hs t = (Inr x, s')"
  | (take) r a where "ask h s = (Inr r, s')" "judge r = Take a" "x = Some a"
proof -
  from assms obtain r t where a: "ask h s = (Inr r, t)"
    and c: "(case judge r of Skip \<Rightarrow> ladder ask judge hs | Stop e \<Rightarrow> raise e | Take a \<Rightarrow> ret (Some a)) t
      = (Inr x, s')"
    by (auto simp: bnd_eq_Inr)
  show thesis
    using a c skip take by (cases "judge r") auto
qed

lemma ladder_None:
  "ladder ask judge hs s = (Inr None, s') \<longleftrightarrow> declined ask judge hs s s'"
proof (induction hs arbitrary: s)
  case Nil
  then show ?case by (auto intro: declined_Nil elim: declined.cases)
next
  case (Cons h hs)
  show ?case
  proof
    assume "ladder ask judge (h # hs) s = (Inr None, s')"
    then obtain r t where "ask h s = (Inr r, t)" "judge r = Skip" "ladder ask judge hs t = (Inr None, s')"
      by (rule ladder_Cons_Inr) auto
    with Cons.IH show "declined ask judge (h # hs) s s'" by (auto intro: declined_Cons)
  next
    assume "declined ask judge (h # hs) s s'"
    then show "ladder ask judge (h # hs) s = (Inr None, s')"
      by (cases rule: declined.cases) (auto simp: bnd_eq_Inr Cons.IH)
  qed
qed

lemma ladder_Some:
  "ladder ask judge hs s = (Inr (Some a), s') \<longleftrightarrow>
     (\<exists>pre h post t r. hs = pre @ h # post \<and> declined ask judge pre s t
        \<and> ask h t = (Inr r, s') \<and> judge r = Take a)"
proof (induction hs arbitrary: s)
  case Nil
  then show ?case by simp
next
  case (Cons h hs)
  show ?case (is "?l = ?r")
  proof
    assume ?l
    then obtain r t where a: "ask h s = (Inr r, t)"
      and c: "judge r = Take a \<and> t = s' \<or> judge r = Skip \<and> ladder ask judge hs t = (Inr (Some a), s')"
      by (rule ladder_Cons_Inr) auto
    from c show ?r
    proof
      assume "judge r = Take a \<and> t = s'"
      with a show ?r by (metis append_Nil declined_Nil)
    next
      assume k: "judge r = Skip \<and> ladder ask judge hs t = (Inr (Some a), s')"
      with Cons.IH obtain pre h' post t' r' where
        "hs = pre @ h' # post" "declined ask judge pre t t'" "ask h' t' = (Inr r', s')" "judge r' = Take a"
        by blast
      with a k show ?r by (metis append_Cons declined_Cons)
    qed
  next
    assume ?r
    then obtain pre h' post t r where
      eq: "h # hs = pre @ h' # post" and d: "declined ask judge pre s t"
      and ans: "ask h' t = (Inr r, s')" "judge r = Take a"
      by blast
    show ?l
    proof (cases pre)
      case Nil
      with eq d ans show ?thesis by (auto simp: bnd_Inr elim: declined.cases)
    next
      case (Cons p ps)
      with d obtain r1 s1 where "ask p s = (Inr r1, s1)" "judge r1 = Skip" "declined ask judge ps s1 t"
        by (auto elim: declined.cases)
      moreover have "ladder ask judge hs s1 = (Inr (Some a), s')"
        using Cons.IH eq ans calculation(3) Cons by auto
      ultimately show ?thesis using eq Cons by (simp add: bnd_Inr)
    qed
  qed
qed

end
