(* ===== verification/Dispatcher.thy ===== *)
theory Dispatcher
  imports Plugins "HOL-Library.Multiset"
begin

text \<open>
  The hook tables of \<open>Dispatcher\<close> (\<^verbatim>\<open>virtual_ecu/virtecu/dispatcher.py\<close>): registration,
  handler isolation (\<open>call_hook\<close>, the source's \<^verbatim>\<open>_call\<close>), the per-identifier and per-routine
  resolutions the core services use, and the fallback policy. \<open>dispatch\<close> itself is in
  \<^verbatim>\<open>Resolve_Uds\<close>, after the core services it calls.
\<close>

section \<open>Tables and registration\<close>

record ('p, 'w) dispatcher =
  observers :: "('p, 'w) hook list"
  service_hooks :: "(int \<times> ('p, 'w) hook list) list"
  any_hooks :: "('p, 'w) hook list"
  read_did_hooks :: "(int \<times> ('p, 'w) hook list) list"
  write_did_hooks :: "(int \<times> ('p, 'w) hook list) list"
  routine_hooks :: "((int \<times> int option) \<times> ('p, 'w) hook list) list"

definition empty_dispatcher :: "('p, 'w) dispatcher" where
  "empty_dispatcher =
     \<lparr>observers = [], service_hooks = [], any_hooks = [], read_did_hooks = [], write_did_hooks = [],
      routine_hooks = []\<rparr>"

text \<open>\<open>self._bucket(kind, key).append(hook)\<close>; the DoIP kinds are skipped.\<close>

definition bucket_append :: "hook_point \<times> ('p, 'w) hook \<Rightarrow> ('p, 'w) dispatcher \<Rightarrow> ('p, 'w) dispatcher" where
  "bucket_append kh d =
     (let h = snd kh in
      case fst kh of
        KObserver \<Rightarrow> d\<lparr>observers := observers d @ [h]\<rparr>
      | KService s \<Rightarrow>
          if s = ANY_SERVICE then d\<lparr>any_hooks := any_hooks d @ [h]\<rparr>
          else d\<lparr>service_hooks := append_at s h (service_hooks d)\<rparr>
      | KReadDid did \<Rightarrow> d\<lparr>read_did_hooks := append_at did h (read_did_hooks d)\<rparr>
      | KWriteDid did \<Rightarrow> d\<lparr>write_did_hooks := append_at did h (write_did_hooks d)\<rparr>
      | KRoutine rid c \<Rightarrow> d\<lparr>routine_hooks := append_at (rid, c) h (routine_hooks d)\<rparr>
      | _ \<Rightarrow> d)"

definition sort_table :: "('k \<times> ('p, 'w) hook list) list \<Rightarrow> ('k \<times> ('p, 'w) hook list) list" where
  "sort_table al = map (\<lambda>(k, hs). (k, sort_key hook_key hs)) al"

definition register_hooks ::
    "(hook_point \<times> ('p, 'w) hook) list \<Rightarrow> ('p, 'w) dispatcher \<Rightarrow> ('p, 'w) dispatcher" where
  "register_hooks khs d =
     (let d = fold bucket_append khs d in
      \<lparr>observers = sort_key hook_key (observers d), service_hooks = sort_table (service_hooks d),
       any_hooks = sort_key hook_key (any_hooks d), read_did_hooks = sort_table (read_did_hooks d),
       write_did_hooks = sort_table (write_did_hooks d), routine_hooks = sort_table (routine_hooks d)\<rparr>)"

definition new_dispatcher :: "('p, 'w) plugin list \<Rightarrow> ('p, 'w) dispatcher" where
  "new_dispatcher plugins =
     register_hooks (concat (map plugin_hooks (filter p_enabled plugins))) empty_dispatcher"

definition has_routine :: "('p, 'w) dispatcher \<Rightarrow> int \<Rightarrow> bool" where
  "has_routine d rid \<longleftrightarrow> (\<exists>e \<in> set (routine_hooks d). fst (fst e) = rid)"

section \<open>Handler isolation\<close>

definition call_hook ::
    "uds_config \<Rightarrow> uds_request \<Rightarrow> bool \<Rightarrow> ('p, 'w) hook \<Rightarrow> 'p hook_args \<Rightarrow> ('w, hres) py" where
  "call_hook u req observer h args =
     try_catch (h_method h args) (\<lambda>e. case e of
        NegativeResponse n s \<Rightarrow>
          raise (NegativeResponse n (case s of None \<Rightarrow> Some (sid req) | Some x \<Rightarrow> Some x))
      | SuppressResponse \<Rightarrow> raise SuppressResponse
      | CancelledError \<Rightarrow> raise CancelledError
      | _ \<Rightarrow>
          if observer then ret HNone
          else if on_handler_error u = ''fallthrough'' then ret HNone
          else if on_handler_error u = ''silent'' then raise SuppressResponse
          else raise (NegativeResponse NRC_CONDITIONS_NOT_CORRECT (Some (sid req))))"

text \<open>The exceptions that pass through \<open>call_hook\<close> and how they look afterwards.\<close>

fun isolated :: "exn \<Rightarrow> bool" where
  "isolated (NegativeResponse n s) = (s \<noteq> None)"
| "isolated SuppressResponse = True"
| "isolated CancelledError = True"
| "isolated _ = False"

lemma call_hook_isolates:
  "call_hook u req obs h args s = (Inl e, s') \<Longrightarrow> isolated e"
  by (auto simp: call_hook_def try_catch_def split: prod.splits sum.splits exn.splits if_splits
      option.splits)

lemma keeps_call_hook:
  assumes "keeps P (h_method h args)"
  shows "keeps P (call_hook u req obs h args)"
proof -
  have "snd (call_hook u req obs h args s) = snd (h_method h args s)" for s
    by (auto simp: call_hook_def try_catch_def split: prod.splits sum.splits exn.splits)
  with assms show ?thesis by (simp add: keeps_def)
qed

section \<open>Resolution for the core services\<close>

definition judge_bytes :: "hres \<Rightarrow> bytes verdict" where
  "judge_bytes r =
     (case r of HNone \<Rightarrow> Skip | HNoResponse \<Rightarrow> Stop SuppressResponse | HBytes b \<Rightarrow> Take b | _ \<Rightarrow> Skip)"

definition judge_bool :: "hres \<Rightarrow> bool verdict" where
  "judge_bool r =
     (case r of HNone \<Rightarrow> Skip | HNoResponse \<Rightarrow> Stop SuppressResponse | _ \<Rightarrow> Take (truthy r))"

definition judge_any :: "hres \<Rightarrow> hres verdict" where
  "judge_any r = (if r = HNone then Skip else Take r)"

definition resolve_did_read ::
    "uds_config \<Rightarrow> ('p, 'w) dispatcher \<Rightarrow> int \<Rightarrow> ctx \<Rightarrow> ('w, bytes option) py" where
  "resolve_did_read u d did c =
     ladder (\<lambda>h. call_hook u (ctx_request c) False h (ReqArgs (ctx_request c) c)) judge_bytes
       (lookup_list (read_did_hooks d) did)"

definition resolve_did_write ::
    "uds_config \<Rightarrow> ('p, 'w) dispatcher \<Rightarrow> int \<Rightarrow> bytes \<Rightarrow> ctx \<Rightarrow> ('w, bool option) py" where
  "resolve_did_write u d did v c =
     ladder (\<lambda>h. call_hook u (ctx_request c) False h (WriteArgs v (ctx_request c) c)) judge_bool
       (lookup_list (write_did_hooks d) did)"

definition resolve_routine ::
    "uds_config \<Rightarrow> ('p, 'w) dispatcher \<Rightarrow> int \<Rightarrow> int \<Rightarrow> bytes \<Rightarrow> ctx \<Rightarrow> ('w, bytes option) py" where
  "resolve_routine u d rid control data c =
     ladder (\<lambda>h. call_hook u (ctx_request c) False h (RoutineArgs control data (ctx_request c) c))
       judge_bytes
       (lookup_list (routine_hooks d) (rid, Some control) @ lookup_list (routine_hooks d) (rid, None))"

definition fallback :: "uds_config \<Rightarrow> uds_request \<Rightarrow> hres res" where
  "fallback u req =
     (if unknown_service u = ''silent'' then Inr HNoResponse
      else if unknown_service u = ''echo'' then Inr (HBytes (positive req (req_data req)))
      else Inl (NegativeResponse NRC_SERVICE_NOT_SUPPORTED (Some (sid req))))"

section \<open>Buckets\<close>

fun bucket :: "('p, 'w) dispatcher \<Rightarrow> hook_point \<Rightarrow> ('p, 'w) hook list" where
  "bucket d KObserver = observers d"
| "bucket d (KService s) =
     (if s = ANY_SERVICE then any_hooks d else lookup_list (service_hooks d) s)"
| "bucket d (KReadDid did) = lookup_list (read_did_hooks d) did"
| "bucket d (KWriteDid did) = lookup_list (write_did_hooks d) did"
| "bucket d (KRoutine rid c) = lookup_list (routine_hooks d) (rid, c)"
| "bucket d _ = []"

lemma lookup_append_at [simp]:
  "lookup_list (append_at k x al) k' = (if k' = k then lookup_list al k @ [x] else lookup_list al k')"
  by (simp add: append_at_def lookup_list_def update_conv')

lemma lookup_sort_table [simp]:
  "lookup_list (sort_table al) k = sort_key hook_key (lookup_list al k)"
proof -
  have "map_of (sort_table al) k = map_option (sort_key hook_key) (map_of al k)"
    unfolding sort_table_def by (induction al) auto
  then show ?thesis by (simp add: lookup_list_def split: option.splits)
qed

lemma bucket_bucket_append:
  "bucket (bucket_append kh d) k =
     bucket d k @ (if fst kh = k \<and> is_uds_kind k then [snd kh] else [])"
  by (cases "fst kh"; cases k) (auto simp: bucket_append_def is_uds_kind_def Let_def)

lemma bucket_fold:
  "bucket (fold bucket_append khs d) k =
     bucket d k @ (if is_uds_kind k then map snd (filter (\<lambda>kh. fst kh = k) khs) else [])"
  by (induction khs arbitrary: d) (auto simp: bucket_bucket_append)

lemma bucket_register:
  "bucket (register_hooks khs d) k = sort_key hook_key (bucket (fold bucket_append khs d) k)"
  by (cases k) (simp_all add: register_hooks_def Let_def)

lemma bucket_empty [simp]: "bucket empty_dispatcher k = []"
  by (cases k) (simp_all add: empty_dispatcher_def lookup_list_def)

text \<open>The hooks of a plugin list at one point, enabled plugins only, in load order.\<close>

definition hooks_at :: "('p, 'w) plugin list \<Rightarrow> hook_point \<Rightarrow> ('p, 'w) hook list" where
  "hooks_at plugins k =
     concat (map (\<lambda>p. map snd (filter (\<lambda>kh. fst kh = k) (plugin_hooks p))) plugins)"

lemma hooks_at_concat:
  "map snd (filter (\<lambda>kh. fst kh = k) (concat (map plugin_hooks ps))) = hooks_at ps k"
  by (induction ps) (simp_all add: hooks_at_def)

lemma bucket_new_dispatcher:
  "bucket (new_dispatcher plugins) k =
     (if is_uds_kind k then sort_key hook_key (hooks_at (filter p_enabled plugins) k) else [])"
  by (simp add: new_dispatcher_def bucket_register bucket_fold hooks_at_concat sort_key_simps(1))

section \<open>Invariants of consulted hooks\<close>

definition all_hooks :: "('p, 'w) dispatcher \<Rightarrow> ('p, 'w) hook list" where
  "all_hooks d =
     observers d @ any_hooks d @ concat (map snd (service_hooks d)) @ concat (map snd (read_did_hooks d))
     @ concat (map snd (write_did_hooks d)) @ concat (map snd (routine_hooks d))"

definition hooks_keep :: "('w \<Rightarrow> bool) \<Rightarrow> ('p, 'w) dispatcher \<Rightarrow> bool" where
  "hooks_keep P d \<longleftrightarrow> (\<forall>h \<in> set (all_hooks d). \<forall>args. keeps P (h_method h args))"

lemma lookup_in_concat: "h \<in> set (lookup_list al k) \<Longrightarrow> h \<in> set (concat (map snd al))"
proof (cases "map_of al k")
  case (Some hs)
  assume "h \<in> set (lookup_list al k)"
  with Some have "h \<in> set hs" by (simp add: lookup_list_def)
  moreover from Some have "(k, hs) \<in> set al" by (rule map_of_SomeD)
  ultimately show ?thesis by force
qed (simp add: lookup_list_def)

lemma in_all_hooks [simp]:
  "h \<in> set (observers d) \<Longrightarrow> h \<in> set (all_hooks d)"
  "h \<in> set (any_hooks d) \<Longrightarrow> h \<in> set (all_hooks d)"
  "h \<in> set (lookup_list (service_hooks d) s) \<Longrightarrow> h \<in> set (all_hooks d)"
  "h \<in> set (lookup_list (read_did_hooks d) s) \<Longrightarrow> h \<in> set (all_hooks d)"
  "h \<in> set (lookup_list (write_did_hooks d) s) \<Longrightarrow> h \<in> set (all_hooks d)"
  "h \<in> set (lookup_list (routine_hooks d) rk) \<Longrightarrow> h \<in> set (all_hooks d)"
  unfolding all_hooks_def by (simp_all add: lookup_in_concat del: set_concat)

lemma hooks_keepD:
  "hooks_keep P d \<Longrightarrow> h \<in> set (all_hooks d) \<Longrightarrow> keeps P (h_method h args)"
  by (auto simp: hooks_keep_def)

lemma hooks_keep_empty [simp]: "hooks_keep P empty_dispatcher"
  by (simp add: hooks_keep_def all_hooks_def empty_dispatcher_def)

lemma keeps_resolve_did_read [keeps_rules]:
  "hooks_keep P d \<Longrightarrow> keeps P (resolve_did_read u d did c)"
  unfolding resolve_did_read_def
  by (intro keeps_ladder keeps_call_hook) (simp add: hooks_keepD)

lemma keeps_resolve_did_write [keeps_rules]:
  "hooks_keep P d \<Longrightarrow> keeps P (resolve_did_write u d did v c)"
  unfolding resolve_did_write_def
  by (intro keeps_ladder keeps_call_hook) (simp add: hooks_keepD)

lemma keeps_resolve_routine [keeps_rules]:
  "hooks_keep P d \<Longrightarrow> keeps P (resolve_routine u d rid control data c)"
  unfolding resolve_routine_def
  by (intro keeps_ladder keeps_call_hook) (auto intro: hooks_keepD)

section \<open>Properties\<close>

text \<open>After registration, the hooks at a UDS point are exactly those the enabled plugins
  declare there, with multiplicity, in ascending order of (priority, load index, plugin name);
  hooks with equal keys keep the order in which they were declared. Points of the DoIP layer
  have no hooks in this dispatcher.\<close>

theorem registration_order:
  "sorted (map hook_key (bucket (new_dispatcher plugins) k))
   \<and> mset (bucket (new_dispatcher plugins) k) =
       (if is_uds_kind k then mset (hooks_at (filter p_enabled plugins) k) else {#})
   \<and> (is_uds_kind k \<longrightarrow>
        filter (\<lambda>h. hook_key h = x) (bucket (new_dispatcher plugins) k) =
        filter (\<lambda>h. hook_key h = x) (hooks_at (filter p_enabled plugins) k))"
  by (simp add: bucket_new_dispatcher sort_key_stable)

theorem registration_order_witness:
  "map h_method_name (bucket (new_dispatcher
     [\<lparr>p_name = ''a'', p_priority = 100, p_enabled = True, p_load_index = 0,
       p_hooks = [(KReadDid 0xF190, [(''late'', None), (''early'', Some 5)])],
       p_method = (\<lambda>_ _. ret HNone)\<rparr> :: (unit, unit) plugin]) (KReadDid 0xF190)) = [''early'', ''late'']"
proof -
  let ?p = "\<lparr>p_name = ''a'', p_priority = 100, p_enabled = True, p_load_index = 0,
       p_hooks = [(KReadDid 0xF190, [(''late'', None), (''early'', Some 5)])],
       p_method = (\<lambda>_ _. ret HNone)\<rparr> :: (unit, unit) plugin"
  let ?b = "bucket (new_dispatcher [?p]) (KReadDid 0xF190)"
  let ?e = "mk_hook ?p (''early'', Some 5)" and ?l = "mk_hook ?p (''late'', None)"
  have hs: "hooks_at [?p] (KReadDid 0xF190) = [?l, ?e]"
    by (simp add: hooks_at_def plugin_hooks_def)
  from registration_order [of "[?p]" "KReadDid 0xF190"]
  have b: "sorted (map hook_key ?b)" "mset ?b = {#?l, ?e#}"
    by (simp_all add: hs is_uds_kind_def)
  from b(2) have "length ?b = 2" by (metis size_mset size_add_mset size_empty numeral_2_eq_2)
  then obtain x y where xy: "?b = [x, y]" by (auto simp: length_Suc_conv numeral_2_eq_2)
  with b have "x = ?l \<and> y = ?e \<or> x = ?e \<and> y = ?l" "hook_key x \<le> hook_key y"
    by (auto simp: add_eq_conv_ex)
  then have "x = ?e \<and> y = ?l" by (auto simp: mk_hook_def hook_key_def less_eq_prod_def)
  with xy show ?thesis by (simp add: mk_hook_def)
qed

text \<open>A subclass that overrides a decorated method and decorates it again for the same
  hook point with another priority is registered twice, once with each priority, both
  registrations bound to the overriding method; with the same priority it is registered once.\<close>

lemma redecorated_override_registered_twice:
  "lookup_list (collect_hooks [[(m, [(k, p)])], [(m, [(k, q)])]]) k =
     (if p = q then [(m, p)] else [(m, p), (m, q)])
   \<and> (\<forall>pl. p \<noteq> q \<and> p_hooks pl = collect_hooks [[(m, [(k, p)])], [(m, [(k, q)])]] \<longrightarrow>
        map (\<lambda>h. (h_method_name h, h_method h)) (hooks_at [pl] k) = [(m, p_method pl m), (m, p_method pl m)])"
  by (auto simp: collect_hooks_def collect_mark_def append_at_def lookup_list_def Let_def
      hooks_at_def plugin_hooks_def mk_hook_def)

lemma redecorated_override_registered_twice_witness:
  "lookup_list (collect_hooks [[(''vin'', [(KReadDid 0xF190, None)])],
     [(''vin'', [(KReadDid 0xF190, Some 10)])]]) (KReadDid 0xF190) = [(''vin'', None), (''vin'', Some 10)]"
  using redecorated_override_registered_twice [of "''vin''" "KReadDid 0xF190" None "Some 10", THEN conjunct1]
  by simp

end
