(* ===== verification/Services.thy ===== *)
theory Services
  imports Dispatcher
begin

text \<open>
  The built-in UDS services of \<^verbatim>\<open>virtual_ecu/virtecu/services/\<close>: session control and tester
  present, ECU reset, security access, read and write of data identifiers, routine control,
  and the service table \<open>CoreServices.handle\<close>. Every service takes the configuration, the hook
  tables and the context of the request, and is a computation on the state of the ECU that
  returns what the handler returns or raises what it raises. A sub-function that is missing
  where the code formats or divides it is the \<open>TypeError\<close> Python raises there.
\<close>

type_synonym ('m, 'p) service =
  "ecu_config \<Rightarrow> ('p, 'm ecu_scheme) dispatcher \<Rightarrow> ctx \<Rightarrow> ('m ecu_scheme, hres) py"

definition session_of :: "ctx \<Rightarrow> ('m ecu_scheme, session_state) py" where
  "session_of c = gets (\<lambda>w. sess w (ctx_session c))"

definition upd_session :: "ctx \<Rightarrow> (session_state \<Rightarrow> session_state) \<Rightarrow> ('m ecu_scheme, unit) py" where
  "upd_session c f = modify (upd_sess (ctx_session c) f)"

definition sub_of :: "ctx \<Rightarrow> int res" where
  "sub_of c = (case sub_function (ctx_request c) of None \<Rightarrow> Inl TypeError | Some s \<Rightarrow> Inr s)"

section \<open>session_control.py\<close>

definition diagnostic_session_control :: "ecu_config \<Rightarrow> ctx \<Rightarrow> ('m ecu_scheme, hres) py" where
  "diagnostic_session_control cfg c =
     (let req = ctx_request c; u = uds cfg in
      if length (raw req) \<noteq> 2 then raise (ctx_nrc c NRC_INCORRECT_MESSAGE_LENGTH)
      else bnd (lift (sub_of c)) (\<lambda>sub.
        if sub \<notin> set (sessions u) then raise (ctx_nrc c NRC_SUB_FUNCTION_NOT_SUPPORTED)
        else seq (upd_session c (enter_session u sub))
          (let p2 = p2_server_ms u AND 0xFFFF; p2_star = (p2_star_server_ms u div 10) AND 0xFFFF
           in bnd (lift (pack_HH p2 p2_star)) (\<lambda>t.
              ret (HBytes (positive req (word_of_int sub # t)))))))"

definition tester_present :: "ecu_config \<Rightarrow> ctx \<Rightarrow> ('m ecu_scheme, hres) py" where
  "tester_present cfg c =
     (let req = ctx_request c in
      if length (raw req) \<noteq> 2 then raise (ctx_nrc c NRC_INCORRECT_MESSAGE_LENGTH)
      else if sub_function req \<noteq> Some 0x00 then raise (ctx_nrc c NRC_SUB_FUNCTION_NOT_SUPPORTED)
      else seq (upd_session c (refresh_s3 (uds cfg))) (ret (HBytes (positive req [0x00]))))"

section \<open>reset.py\<close>

definition ecu_reset :: "ecu_config \<Rightarrow> ctx \<Rightarrow> ('m ecu_scheme, hres) py" where
  "ecu_reset cfg c =
     (let req = ctx_request c; u = uds cfg in
      if length (raw req) \<noteq> 2 then raise (ctx_nrc c NRC_INCORRECT_MESSAGE_LENGTH)
      else bnd (lift (sub_of c)) (\<lambda>sub.
        if sub \<notin> {0x01, 0x02, 0x03} then raise (ctx_nrc c NRC_SUB_FUNCTION_NOT_SUPPORTED)
        else seq (modify (core_reset (reset_clears_writes u)))
          (if reset_drops_connection u then
             seq (modify (drop_session_state (Some (source_addr req))))
               (raise (AbortConnectionAfterResponse (positive req [word_of_int sub])))
           else seq (upd_session c (state_reset u))
             (ret (HBytes (positive req [word_of_int sub]))))))"

section \<open>security.py\<close>

definition level_of :: "int \<Rightarrow> int" where
  "level_of sub = (sub + 1) div 2"

text \<open>Addition modulo 256 and exclusive or are those of the 8-bit word.\<close>

definition expected_key :: "bytes \<Rightarrow> security_config \<Rightarrow> bytes" where
  "expected_key seed sc =
     (if sec_algorithm sc = ''none'' then seed
      else if sec_algorithm sc = ''add'' then map (\<lambda>(s, k). s + k) (zip seed (sec_key sc))
      else map (\<lambda>(s, k). s XOR k) (zip seed (sec_key sc)))"

definition request_seed :: "ecu_config \<Rightarrow> ctx \<Rightarrow> int \<Rightarrow> ('m ecu_scheme, hres) py" where
  "request_seed cfg c sub =
     (let req = ctx_request c; sc = security (uds cfg); level = level_of sub in
      if length (raw req) \<noteq> 2 then raise (ctx_nrc c NRC_INCORRECT_MESSAGE_LENGTH)
      else bnd (session_of c) (\<lambda>s.
        if security_level s \<ge> level
        then ret (HBytes (positive req (word_of_int sub # replicate (length (sec_seed sc)) 0)))
        else seq (upd_session c (\<lambda>s. s\<lparr>seed_pending := Some sub\<rparr>))
          (ret (HBytes (positive req (word_of_int sub # sec_seed sc))))))"

definition send_key :: "ecu_config \<Rightarrow> ctx \<Rightarrow> int \<Rightarrow> ('m ecu_scheme, hres) py" where
  "send_key cfg c sub =
     (let req = ctx_request c; sc = security (uds cfg); level = level_of sub in
      bnd (session_of c) (\<lambda>s.
        if seed_pending s \<noteq> Some (sub - 1) then raise (ctx_nrc c NRC_REQUEST_SEQUENCE_ERROR)
        else let key = drop 2 (raw req) in
          if length key \<noteq> length (sec_seed sc) then raise (ctx_nrc c NRC_INCORRECT_MESSAGE_LENGTH)
          else if key \<noteq> expected_key (sec_seed sc) sc then
            seq (upd_session c (\<lambda>s. s\<lparr>security_attempts := security_attempts s + 1, seed_pending := None\<rparr>))
              (bnd (session_of c) (\<lambda>s.
                 if security_attempts s \<ge> max_attempts sc
                 then raise (ctx_nrc c NRC_EXCEEDED_NUMBER_OF_ATTEMPTS)
                 else raise (ctx_nrc c NRC_INVALID_KEY)))
          else seq (upd_session c (\<lambda>s. s\<lparr>security_level := level, security_attempts := 0,
                                       seed_pending := None\<rparr>))
            (ret (HBytes (positive req [word_of_int sub])))))"

definition security_access :: "ecu_config \<Rightarrow> ctx \<Rightarrow> ('m ecu_scheme, hres) py" where
  "security_access cfg c =
     (if \<not> sec_enabled (security (uds cfg)) then ret HNone
      else if length (raw (ctx_request c)) < 2 then raise (ctx_nrc c NRC_INCORRECT_MESSAGE_LENGTH)
      else bnd (lift (sub_of c)) (\<lambda>sub.
        if sub = 0x00 then raise (ctx_nrc c NRC_SUB_FUNCTION_NOT_SUPPORTED)
        else if sub mod 2 = 1 then request_seed cfg c sub
        else send_key cfg c sub))"

section \<open>data\_identifier.py\<close>

definition check_gates :: "ctx \<Rightarrow> int list option \<Rightarrow> int \<Rightarrow> ('m ecu_scheme, unit) py" where
  "check_gates c sns sec =
     bnd (session_of c) (\<lambda>s.
       if (case sns of None \<Rightarrow> False | Some l \<Rightarrow> session_type s \<notin> set l)
       then raise (ctx_nrc c NRC_REQUEST_OUT_OF_RANGE)
       else if sec > security_level s then raise (ctx_nrc c NRC_SECURITY_ACCESS_DENIED)
       else ret ())"

definition unknown_did_policy :: "ecu_config \<Rightarrow> ctx \<Rightarrow> int \<Rightarrow> bytes option res" where
  "unknown_did_policy cfg c did =
     (if unknown_did (uds cfg) = ''silent'' then Inr None
      else if unknown_did (uds cfg) = ''echo'' then ebind (pack_H did) (\<lambda>b. Inr (Some b))
      else Inl (ctx_nrc c NRC_REQUEST_OUT_OF_RANGE))"

definition dynamic_value :: "ctx \<Rightarrow> int \<Rightarrow> ('m ecu_scheme, bytes option) py" where
  "dynamic_value c did =
     (if did = DID_ACTIVE_DIAGNOSTIC_SESSION
      then bnd (session_of c) (\<lambda>s. lift (ebind (py_bytes [session_type s]) (\<lambda>b. Inr (Some b))))
      else ret None)"

definition read_one ::
    "ecu_config \<Rightarrow> ('p, 'm ecu_scheme) dispatcher \<Rightarrow> ctx \<Rightarrow> int \<Rightarrow> ('m ecu_scheme, bytes option) py" where
  "read_one cfg d c did =
     bnd (resolve_did_read (uds cfg) d did c) (\<lambda>value.
     case value of
       Some v \<Rightarrow> ret (Some v)
     | None \<Rightarrow>
         bnd (gets (\<lambda>w. store_spec (store w) did)) (\<lambda>spec.
         case spec of
           None \<Rightarrow> lift (unknown_did_policy cfg c did)
         | Some sp \<Rightarrow>
             if \<not> did_read sp then lift (unknown_did_policy cfg c did)
             else case read_nrc sp of
               Some n \<Rightarrow> raise (ctx_nrc c n)
             | None \<Rightarrow>
                 seq (check_gates c (read_sessions sp) (read_security sp))
                   (if did_dynamic sp then
                      bnd (dynamic_value c did) (\<lambda>dyn. case dyn of
                          Some v \<Rightarrow> ret (Some v)
                        | None \<Rightarrow> raise (ctx_nrc c NRC_REQUEST_OUT_OF_RANGE))
                    else bnd (gets (\<lambda>w. store_read (store w) did)) (\<lambda>stored. case stored of
                        None \<Rightarrow> raise (ctx_nrc c NRC_REQUEST_OUT_OF_RANGE)
                      | Some v \<Rightarrow> ret (Some v)))))"

text \<open>The loop of \<open>read_data_by_identifier\<close>: the record so far and the number served.\<close>

primrec read_all ::
    "ecu_config \<Rightarrow> ('p, 'm ecu_scheme) dispatcher \<Rightarrow> ctx \<Rightarrow> int list \<Rightarrow> bytes \<times> nat
       \<Rightarrow> ('m ecu_scheme, bytes \<times> nat) py" where
  "read_all cfg d c [] acc = ret acc"
| "read_all cfg d c (did # ds) acc =
     bnd (read_one cfg d c did) (\<lambda>value.
     case value of
       None \<Rightarrow> read_all cfg d c ds acc
     | Some v \<Rightarrow> bnd (lift (pack_H did)) (\<lambda>h. read_all cfg d c ds (fst acc @ h @ v, snd acc + 1)))"

definition read_data_by_identifier :: "('m, 'p) service" where
  "read_data_by_identifier cfg d c =
     (let req = ctx_request c; body = req_data req in
      if body = [] \<or> length body mod 2 \<noteq> 0 then raise (ctx_nrc c NRC_INCORRECT_MESSAGE_LENGTH)
      else bnd (read_all cfg d c (req_dids req) ([], 0)) (\<lambda>(record, served).
        if served = 0 then ret HNoResponse
        else let response = positive req record in
          if int (length response) > max_payload_bytes (doip cfg)
          then raise (ctx_nrc c NRC_RESPONSE_TOO_LONG)
          else ret (HBytes response)))"

definition write_data_by_identifier :: "('m, 'p) service" where
  "write_data_by_identifier cfg d c =
     (let req = ctx_request c; body = req_data req in
      if length body < 3 then raise (ctx_nrc c NRC_INCORRECT_MESSAGE_LENGTH)
      else let did = from_be (py_slice 0 2 body); value = drop 2 body in
        bnd (resolve_did_write (uds cfg) d did value c) (\<lambda>accepted.
        case accepted of
          Some True \<Rightarrow> bnd (lift (pack_H did)) (\<lambda>h. ret (HBytes (positive req h)))
        | Some False \<Rightarrow> raise (ctx_nrc c NRC_REQUEST_OUT_OF_RANGE)
        | None \<Rightarrow>
            bnd (gets (\<lambda>w. store_spec (store w) did)) (\<lambda>spec.
            case spec of
              None \<Rightarrow> bnd (lift (unknown_did_policy cfg c did)) (\<lambda>echoed. case echoed of
                  None \<Rightarrow> ret HNoResponse
                | Some b \<Rightarrow> ret (HBytes (positive req b)))
            | Some sp \<Rightarrow>
                if \<not> did_write sp then raise (ctx_nrc c NRC_REQUEST_OUT_OF_RANGE)
                else case write_nrc sp of
                  Some n \<Rightarrow> raise (ctx_nrc c n)
                | None \<Rightarrow>
                    seq (check_gates c (write_sessions sp) (write_security sp))
                      (if (case did_length sp of None \<Rightarrow> False | Some n \<Rightarrow> int (length value) \<noteq> n)
                       then raise (ctx_nrc c NRC_INCORRECT_MESSAGE_LENGTH)
                       else seq (modify (\<lambda>w. w\<lparr>store := store_write did value (store w)\<rparr>))
                         (bnd (lift (pack_H did)) (\<lambda>h. ret (HBytes (positive req h))))))))"

section \<open>routine.py\<close>

definition START_ROUTINE :: int where "START_ROUTINE = 0x01"
definition STOP_ROUTINE :: int where "STOP_ROUTINE = 0x02"
definition REQUEST_ROUTINE_RESULTS :: int where "REQUEST_ROUTINE_RESULTS = 0x03"

lemmas routine_controls = START_ROUTINE_def STOP_ROUTINE_def REQUEST_ROUTINE_RESULTS_def

text \<open>\<open>data.setdefault("routines", {})\<close>.\<close>

definition routine_state :: "('m ecu_scheme, (int \<times> bool) list) py" where
  "routine_state =
     seq (modify (\<lambda>w. w\<lparr>routine_data := Some (case routine_data w of None \<Rightarrow> [] | Some t \<Rightarrow> t)\<rparr>))
       (gets (\<lambda>w. case routine_data w of None \<Rightarrow> [] | Some t \<Rightarrow> t))"

definition routine_track :: "int \<Rightarrow> int \<Rightarrow> ('m ecu_scheme, unit) py" where
  "routine_track rid control =
     bnd routine_state (\<lambda>t.
       if control = START_ROUTINE then modify (\<lambda>w. w\<lparr>routine_data := Some (AList.update rid True t)\<rparr>)
       else if control = STOP_ROUTINE
         then modify (\<lambda>w. w\<lparr>routine_data := Some (AList.update rid False t)\<rparr>)
       else ret ())"

definition routine_control :: "('m, 'p) service" where
  "routine_control cfg d c =
     (let req = ctx_request c in
      if length (raw req) < 4 then raise (ctx_nrc c NRC_INCORRECT_MESSAGE_LENGTH)
      else bnd (lift (sub_of c)) (\<lambda>control.
        if control \<notin> {START_ROUTINE, STOP_ROUTINE, REQUEST_ROUTINE_RESULTS}
        then raise (ctx_nrc c NRC_SUB_FUNCTION_NOT_SUPPORTED)
        else let rid = from_be (py_slice 2 4 (raw req)); data = drop 4 (raw req) in
          bnd (lift (pack_H rid)) (\<lambda>h.
          let header = word_of_int control # h in
          bnd (resolve_routine (uds cfg) d rid control data c) (\<lambda>record.
          case record of
            Some r \<Rightarrow> seq (routine_track rid control) (ret (HBytes (positive req (header @ r))))
          | None \<Rightarrow>
              (case map_of (routines cfg) rid of
                 None \<Rightarrow> raise (ctx_nrc c NRC_REQUEST_OUT_OF_RANGE)
               | Some sp \<Rightarrow>
                   bnd (session_of c) (\<lambda>s.
                   if (case routine_sessions sp of None \<Rightarrow> False | Some l \<Rightarrow> session_type s \<notin> set l)
                   then raise (ctx_nrc c NRC_REQUEST_OUT_OF_RANGE)
                   else if routine_security sp > security_level s
                   then raise (ctx_nrc c NRC_SECURITY_ACCESS_DENIED)
                   else bnd routine_state (\<lambda>t.
                     let started = (map_of t rid = Some True) in
                     if control = STOP_ROUTINE \<and> \<not> started
                     then raise (ctx_nrc c NRC_REQUEST_SEQUENCE_ERROR)
                     else if control = REQUEST_ROUTINE_RESULTS \<and> \<not> started
                     then raise (ctx_nrc c NRC_CONDITIONS_NOT_CORRECT)
                     else seq (routine_track rid control)
                       (ret (HBytes (positive req (header @
                          (if control = START_ROUTINE then routine_start sp
                           else if control = STOP_ROUTINE then routine_stop sp
                           else routine_results sp))))))))))))"

section \<open>CoreServices\<close>

definition core_handle :: "('m, 'p) service" where
  "core_handle cfg d c =
     (let s = sid (ctx_request c) in
      if s = SID_DIAGNOSTIC_SESSION_CONTROL then diagnostic_session_control cfg c
      else if s = SID_TESTER_PRESENT then tester_present cfg c
      else if s = SID_ECU_RESET then ecu_reset cfg c
      else if s = SID_SECURITY_ACCESS then security_access cfg c
      else if s = SID_READ_DATA_BY_IDENTIFIER then read_data_by_identifier cfg d c
      else if s = SID_WRITE_DATA_BY_IDENTIFIER then write_data_by_identifier cfg d c
      else if s = SID_ROUTINE_CONTROL then routine_control cfg d c
      else ret HNone)"

definition core_supports :: "int \<Rightarrow> bool" where
  "core_supports s \<longleftrightarrow>
     s \<in> {SID_DIAGNOSTIC_SESSION_CONTROL, SID_TESTER_PRESENT, SID_ECU_RESET, SID_SECURITY_ACCESS,
          SID_READ_DATA_BY_IDENTIFIER, SID_WRITE_DATA_BY_IDENTIFIER, SID_ROUTINE_CONTROL}"

section \<open>The invariant of the core is kept\<close>

lemma keeps_session_of [keeps_rules]: "keeps P (session_of c)"
  by (simp add: session_of_def keeps_gets)

lemma keeps_upd_session:
  assumes "\<And>s. state_ok u s \<Longrightarrow> state_ok u (f s)" "\<And>s. st_tester_addr (f s) = st_tester_addr s"
  shows "keeps (core_inv u) (upd_session c f)"
  unfolding upd_session_def using assms by (intro keeps_modify core_inv_upd)

lemma keeps_check_gates [keeps_rules]: "keeps P (check_gates c sns sec)"
  unfolding check_gates_def by (intro keeps_rules)

lemma keeps_dynamic_value [keeps_rules]: "keeps P (dynamic_value c did)"
  unfolding dynamic_value_def by (intro keeps_rules)

lemma keeps_diagnostic_session_control [keeps_rules]:
  "keeps (core_inv (uds cfg)) (diagnostic_session_control cfg c)"
  unfolding diagnostic_session_control_def Let_def
  by (intro keeps_rules keeps_upd_session) (simp_all add: state_ok_enter core_simps)

lemma keeps_tester_present [keeps_rules]: "keeps (core_inv (uds cfg)) (tester_present cfg c)"
  unfolding tester_present_def Let_def
  by (intro keeps_rules keeps_upd_session) (simp_all add: state_ok_refresh core_simps)

lemma keeps_ecu_reset [keeps_rules]: "keeps (core_inv (uds cfg)) (ecu_reset cfg c)"
  unfolding ecu_reset_def Let_def
  by (intro keeps_rules keeps_upd_session keeps_modify core_inv_core_reset core_inv_drop)
    (simp_all add: state_ok_reset core_simps)

lemma keeps_read_one [keeps_rules]: "hooks_keep P d \<Longrightarrow> keeps P (read_one cfg d c did)"
  unfolding read_one_def by (intro keeps_rules)

lemma keeps_read_all [keeps_rules]: "hooks_keep P d \<Longrightarrow> keeps P (read_all cfg d c ds acc)"
proof (induction ds arbitrary: acc)
  case Nil
  then show ?case by (simp add: keeps_rules)
next
  case (Cons did ds)
  then show ?case
    unfolding read_all.simps by (intro keeps_rules) auto
qed

lemma keeps_read_data [keeps_rules]: "hooks_keep P d \<Longrightarrow> keeps P (read_data_by_identifier cfg d c)"
  unfolding read_data_by_identifier_def Let_def split_def by (intro keeps_rules)

lemma keeps_write_data [keeps_rules]:
  assumes "hooks_keep P d" and "\<And>w did v. P w \<Longrightarrow> P (w\<lparr>store := store_write did v (store w)\<rparr>)"
  shows "keeps P (write_data_by_identifier cfg d c)"
proof -
  have b: "keeps P (case x of None \<Rightarrow> m | Some True \<Rightarrow> n | Some False \<Rightarrow> n')"
    if "keeps P m" "keeps P n" "keeps P n'" for x and m n n' :: "('a ecu_scheme, hres) py"
    using that by (auto split: option.splits bool.splits)
  show ?thesis
    unfolding write_data_by_identifier_def Let_def
    using assms by (intro keeps_rules b keeps_modify) auto
qed

lemma keeps_routine_state:
  assumes "\<And>w t. P w \<Longrightarrow> P (w\<lparr>routine_data := t\<rparr>)"
  shows "keeps P routine_state"
  unfolding routine_state_def using assms by (intro keeps_rules keeps_modify)

lemma keeps_routine_track:
  assumes "\<And>w t. P w \<Longrightarrow> P (w\<lparr>routine_data := t\<rparr>)"
  shows "keeps P (routine_track rid control)"
  unfolding routine_track_def using assms
  by (intro keeps_rules keeps_modify keeps_routine_state)

lemma keeps_routine_control [keeps_rules]:
  assumes "hooks_keep P d" and "\<And>w t. P w \<Longrightarrow> P (w\<lparr>routine_data := t\<rparr>)"
  shows "keeps P (routine_control cfg d c)"
  unfolding routine_control_def Let_def
  using assms by (intro keeps_rules keeps_routine_state keeps_routine_track)

lemma core_inv_data [simp]:
  "core_inv u (w\<lparr>routine_data := t\<rparr>) = core_inv u w" "core_inv u (w\<lparr>store := st\<rparr>) = core_inv u w"
  by (simp_all add: core_inv_def)

section \<open>Security access\<close>

lemma sub_of_eq_Inr: "sub_of c = Inr s \<longleftrightarrow> sub_function (ctx_request c) = Some s"
  by (auto simp: sub_of_def split: option.splits)

lemma level_of_pos: "0 \<le> sub \<Longrightarrow> sub < 128 \<Longrightarrow> even sub \<Longrightarrow> 0 \<le> level_of sub \<and> level_of sub < 64"
  by (auto simp: level_of_def elim: evenE)

lemma core_inv_request_seed:
  assumes "core_inv (uds cfg) w" "odd sub" "0 < sub" "sub < 128"
  shows "core_inv (uds cfg) (snd (request_seed cfg c sub w))"
proof -
  have "state_ok (uds cfg) (sess w (ctx_session c))"
    using assms(1) by (simp add: core_inv_def)
  with assms show ?thesis
    by (auto simp: request_seed_def session_of_def upd_session_def Let_def level_of_def state_ok_def
        intro: core_inv_upd_at)
qed

lemma send_key_eq:
  "send_key cfg c sub w =
     (let s = sess w (ctx_session c); sc = security (uds cfg); key = drop 2 (raw (ctx_request c)) in
      if seed_pending s \<noteq> Some (sub - 1) then (Inl (ctx_nrc c NRC_REQUEST_SEQUENCE_ERROR), w)
      else if length key \<noteq> length (sec_seed sc) then (Inl (ctx_nrc c NRC_INCORRECT_MESSAGE_LENGTH), w)
      else if key \<noteq> expected_key (sec_seed sc) sc then
        (Inl (ctx_nrc c (if security_attempts s + 1 \<ge> max_attempts sc
                         then NRC_EXCEEDED_NUMBER_OF_ATTEMPTS else NRC_INVALID_KEY)),
         upd_sess (ctx_session c) (\<lambda>s. s\<lparr>security_attempts := security_attempts s + 1,
                                        seed_pending := None\<rparr>) w)
      else (Inr (HBytes (positive (ctx_request c) [word_of_int sub])),
         upd_sess (ctx_session c) (\<lambda>s. s\<lparr>security_level := level_of sub, security_attempts := 0,
                                        seed_pending := None\<rparr>) w))"
  by (simp add: send_key_def session_of_def upd_session_def Let_def core_simps)

lemma core_inv_send_key:
  assumes "core_inv (uds cfg) w" "even sub" "0 < sub" "sub < 128"
  shows "core_inv (uds cfg) (snd (send_key cfg c sub w))"
proof -
  have "state_ok (uds cfg) (sess w (ctx_session c))"
    using assms(1) by (simp add: core_inv_def)
  with assms level_of_pos [of sub] show ?thesis
    by (auto simp: send_key_eq Let_def state_ok_def intro!: core_inv_upd_at)
qed

lemma keeps_security_access [keeps_rules]: "keeps (core_inv (uds cfg)) (security_access cfg c)"
proof (rule keepsI)
  fix w assume inv: "core_inv (uds cfg) w"
  show "core_inv (uds cfg) (snd (security_access cfg c w))"
  proof (cases "sub_of c")
    case (Inl e)
    with inv show ?thesis by (simp add: security_access_def bnd_def)
  next
    case (Inr sub)
    then have "0 \<le> sub" "sub < 128"
      using sub_function_range by (auto simp: sub_of_eq_Inr)
    with Inr inv core_inv_request_seed [of cfg w sub] core_inv_send_key [of cfg w sub]
    show ?thesis
      by (auto simp: security_access_def odd_iff_mod_2_eq_one even_iff_mod_2_eq_zero)
  qed
qed

lemma keeps_core_handle [keeps_rules]:
  "hooks_keep (core_inv (uds cfg)) d \<Longrightarrow> keeps (core_inv (uds cfg)) (core_handle cfg d c)"
  unfolding core_handle_def Let_def by (intro keeps_rules) auto

end
