(* ===== verification/Service_Props.thy ===== *)
theory Service_Props
  imports Services "HOL-Library.Sublist"
begin

text \<open>
  What the built-in services of \<^verbatim>\<open>virtual_ecu/virtecu/services/\<close> guarantee: the security lock
  opens only to the right key after the matching seed, writes happen only through open gates and
  are read back, responses to reads have the documented layout and stay within the payload
  bound, routines follow their start/stop/results protocol, and a reset restores the initial
  diagnostic state.
\<close>

section \<open>Requests used in the examples\<close>

definition mk_req :: "bytes \<Rightarrow> uds_request" where
  "mk_req bs = \<lparr>raw = bs, source_addr = 0x0E00, target_addr = 3, functional = False\<rparr>"

definition mk_ctx :: "bytes \<Rightarrow> nat \<Rightarrow> ctx" where
  "mk_ctx bs r = \<lparr>ctx_request = mk_req bs, ctx_session = r\<rparr>"

lemma ctx_mk [simp]:
  "ctx_request (mk_ctx bs r) = mk_req bs" "ctx_session (mk_ctx bs r) = r" "raw (mk_req bs) = bs"
  "source_addr (mk_req bs) = 0x0E00"
  by (simp_all add: mk_ctx_def mk_req_def)

section \<open>Security access\<close>

text \<open>C6: SecurityAccess raises a session's security level only for the session the request
  arrived on, only when a seed for exactly the preceding odd sub-function is outstanding, and
  only when the request carries exactly the expected key; the level it grants is the one of the
  sub-function and is above the old one, the seed is used up, and the answer is positive.\<close>

theorem unlock_only_by_key:
  assumes inv: "core_inv (uds cfg) w"
    and run: "security_access cfg c w = (res, w')"
    and change: "security_level (sess w' r) \<noteq> security_level (sess w r)"
  shows "\<exists>sub. r = ctx_session c \<and> sub_function (ctx_request c) = Some sub \<and> even sub
    \<and> seed_pending (sess w r) = Some (sub - 1)
    \<and> drop 2 (raw (ctx_request c)) = expected_key (sec_seed (security (uds cfg))) (security (uds cfg))
    \<and> security_level (sess w' r) = level_of sub \<and> security_level (sess w r) < level_of sub
    \<and> seed_pending (sess w' r) = None
    \<and> res = Inr (HBytes (positive (ctx_request c) [word_of_int sub]))"
proof (cases "sub_of c")
  case (Inl e)
  with run change show ?thesis by (auto simp: security_access_def bnd_def split: if_splits)
next
  case (Inr sub)
  show ?thesis
  proof (cases "sub mod 2 = 1 \<or> sub = 0")
    case True
    with Inr run change show ?thesis
      by (auto simp: security_access_def request_seed_def session_of_def upd_session_def Let_def
          core_simps split: if_splits)
  next
    case False
    with Inr run change have sk: "send_key cfg c sub w = (res, w')" and ev: "even sub"
      by (auto simp: security_access_def odd_iff_mod_2_eq_one split: if_splits)
    have ok: "state_ok (uds cfg) (sess w (ctx_session c))"
      using inv by (simp add: core_inv_def)
    have lv: "security_level (sess w (ctx_session c)) < level_of sub"
      if "seed_pending (sess w (ctx_session c)) = Some (sub - 1)"
      using ok that ev by (auto simp: state_ok_def level_of_def elim!: evenE)
    from sk change Inr ev lv show ?thesis
      by (auto simp: send_key_eq Let_def core_simps sub_of_eq_Inr split: if_splits)
  qed
qed

text \<open>The key a tester has to answer with exists whenever the configured key is long enough.\<close>

definition key_usable :: "security_config \<Rightarrow> bool" where
  "key_usable sc \<longleftrightarrow> sec_algorithm sc = ''none'' \<or> length (sec_seed sc) \<le> length (sec_key sc)"

lemma length_expected_key: "key_usable sc \<Longrightarrow> length (expected_key (sec_seed sc) sc) = length (sec_seed sc)"
  by (auto simp: key_usable_def expected_key_def)

lemma sub_fn_27:
  assumes "raw req = 0x27 # b # rest"
  shows "sub_function req = Some (uint b AND 0x7F)" "sid req = 0x27"
  using assms by (simp_all add: sub_function_def has_sub_function_def SUB_FUNCTION_SERVICES_def)

lemma and_7F_small: "0 \<le> v \<Longrightarrow> v < 128 \<Longrightarrow> v AND 0x7F = (v :: int)"
proof -
  assume "0 \<le> v" "v < 128"
  then have "take_bit 7 v = v" by (simp add: take_bit_int_eq_self)
  then show ?thesis by (simp add: take_bit_eq_mask mask_eq_exp_minus_1)
qed

lemma sub_fn_27_of_int:
  assumes "raw req = 0x27 # word_of_int s # rest" "0 \<le> s" "s < 128"
  shows "sub_function req = Some s"
  using assms sub_fn_27(1) [OF assms(1)] and_7F_small [of s]
  by (simp add: uint_word_of_int)

lemma sub_fn_of_int:
  assumes "raw req = word_of_int i # word_of_int s # rest" "i \<in> set SUB_FUNCTION_SERVICES" "0 \<le> s" "s < 128"
  shows "sub_function req = Some s"
proof -
  have "i mod 256 = i" using assms(2) by (auto simp: SUB_FUNCTION_SERVICES_def)
  then have "sid req = i" using assms(1) by (simp add: uint_word_of_int)
  with assms and_7F_small [of s] show ?thesis
    by (simp add: sub_function_def has_sub_function_def uint_word_of_int)
qed

text \<open>A session with a seed outstanding for level 1, in the default configuration.\<close>

abbreviation ex_world :: ecu where
  "ex_world \<equiv> upd_sess 0 (\<lambda>s. s\<lparr>seed_pending := Some 1\<rparr>) (new_ecu default_ecu_config)"

lemma ex_world_inv: "core_inv (uds default_ecu_config) ex_world"
  by (rule core_inv_upd_at [OF core_inv_new]) (simp_all add: state_ok_def new_ecu_def new_state_def)

lemma ex_send_key:
  "security_access default_ecu_config (mk_ctx [0x27, 2, 0xB4, 0x87, 0x96, 0xE1] 0) ex_world =
     (Inr (HBytes [0x67, 2]),
      upd_sess 0 (\<lambda>s. s\<lparr>security_level := 1, security_attempts := 0, seed_pending := None\<rparr>) ex_world)"
proof -
  have "sub_of (mk_ctx [0x27, 2, 0xB4, 0x87, 0x96, 0xE1] 0) = Inr 2"
    using sub_fn_27(1) [of "mk_req [0x27, 2, 0xB4, 0x87, 0x96, 0xE1]" 2 "[0xB4, 0x87, 0x96, 0xE1]"]
    by (simp add: sub_of_def)
  then show ?thesis
    by (simp add: security_access_def send_key_eq core_simps new_ecu_def new_state_def
        config_defaults expected_key_def level_of_def positive_def Let_def)
qed

theorem unlock_only_by_key_witness:
  "\<exists>sub. sub_function (mk_req [0x27, 2, 0xB4, 0x87, 0x96, 0xE1]) = Some sub \<and> level_of sub = 1"
proof -
  have "security_level (sess (upd_sess 0 (\<lambda>s. s\<lparr>security_level := 1, security_attempts := 0,
      seed_pending := None\<rparr>) ex_world) 0) \<noteq> security_level (sess ex_world 0)"
    by (simp add: core_simps new_ecu_def new_state_def)
  from unlock_only_by_key [OF ex_world_inv ex_send_key this]
  show ?thesis by (auto simp: core_simps)
qed

text \<open>C13: a tester whose session is below security level \<open>n\<close> unlocks exactly level \<open>n\<close> with two
  requests: \<^verbatim>\<open>27 <2n-1>\<close>, whose answer carries the configured seed, and \<^verbatim>\<open>27 <2n>\<close> with the key
  derived from that seed; the attempt counter is back at zero and no other session changes.\<close>

theorem seed_then_key_unlocks:
  fixes w :: "'m ecu_scheme"
  assumes en: "sec_enabled sc" "sc = security (uds cfg)" "key_usable sc"
    and n: "0 < n" "n < 64"
    and locked: "security_level (sess w r) < n"
    and c1: "ctx_session c1 = r" "raw (ctx_request c1) = [0x27, word_of_int (2 * n - 1)]"
    and c2: "ctx_session c2 = r"
      "raw (ctx_request c2) = 0x27 # word_of_int (2 * n) # expected_key (sec_seed sc) sc"
  shows "\<exists>w1 w2. security_access cfg c1 w =
      (Inr (HBytes (0x67 # word_of_int (2 * n - 1) # sec_seed sc)), w1)
    \<and> security_access cfg c2 w1 = (Inr (HBytes [0x67, word_of_int (2 * n)]), w2)
    \<and> security_level (sess w2 r) = n \<and> security_attempts (sess w2 r) = 0
    \<and> (\<forall>r'. r' \<noteq> r \<longrightarrow> sess w2 r' = sess w r')"
proof -
  have s1: "sub_of c1 = Inr (2 * n - 1)" and s2: "sub_of c2 = Inr (2 * n)"
    using sub_fn_27_of_int [OF c1(2)] sub_fn_27_of_int [OF c2(2)] n by (simp_all add: sub_of_eq_Inr)
  have lev: "level_of (2 * n - 1) = n" "level_of (2 * n) = n"
    by (simp_all add: level_of_def)
  have md: "(2 * n - 1) mod 2 = 1" "2 * n - 1 \<noteq> 0" "2 * n \<noteq> 0"
    using n by presburger+
  have len: "length (raw (ctx_request c1)) = 2" "\<not> length (raw (ctx_request c2)) < 2"
    using c1(2) c2(2) by simp_all
  have pos: "positive (ctx_request c1) x = 0x67 # x" "positive (ctx_request c2) x = 0x67 # x" for x
    using c1(2) c2(2) by (simp_all add: positive_def)
  let ?w1 = "upd_sess r (\<lambda>s. s\<lparr>seed_pending := Some (2 * n - 1)\<rparr>) w"
  let ?w2 = "upd_sess r (\<lambda>s. s\<lparr>security_level := n, security_attempts := 0, seed_pending := None\<rparr>) ?w1"
  have a1: "security_access cfg c1 w = (Inr (HBytes (0x67 # word_of_int (2 * n - 1) # sec_seed sc)), ?w1)"
    using en locked c1(1) s1 md len(1) lev pos
    by (simp add: security_access_def request_seed_def session_of_def upd_session_def Let_def)
  have key: "drop 2 (raw (ctx_request c2)) = expected_key (sec_seed sc) sc"
    using c2(2) by simp
  have a2: "security_access cfg c2 ?w1 = (Inr (HBytes [0x67, word_of_int (2 * n)]), ?w2)"
    using en s2 md len(2) lev pos key length_expected_key [OF en(3)] c2(1)
    by (simp add: security_access_def send_key_eq Let_def core_simps)
  from a1 a2 show ?thesis by (auto simp: core_simps)
qed

theorem seed_then_key_unlocks_witness:
  "\<exists>w1 w2. security_access default_ecu_config (mk_ctx [0x27, 1] 0) (new_ecu default_ecu_config) =
      (Inr (HBytes [0x67, 1, 0x11, 0x22, 0x33, 0x44]), w1)
    \<and> security_access default_ecu_config (mk_ctx [0x27, 2, 0xB4, 0x87, 0x96, 0xE1] 0) w1 =
      (Inr (HBytes [0x67, 2]), w2)
    \<and> security_level (sess w2 0) = 1"
  using seed_then_key_unlocks [of default_security_config default_ecu_config 1
      "new_ecu default_ecu_config" 0 "mk_ctx [0x27, 1] 0" "mk_ctx [0x27, 2, 0xB4, 0x87, 0x96, 0xE1] 0"]
  by (auto simp: config_defaults key_usable_def expected_key_def new_ecu_def new_state_def)

section \<open>Data identifiers\<close>

text \<open>The gates a statically declared identifier puts before a write, and before a read.\<close>

definition gates_open :: "session_state \<Rightarrow> int list option \<Rightarrow> int \<Rightarrow> bool" where
  "gates_open s sns sec \<longleftrightarrow>
     (case sns of None \<Rightarrow> True | Some l \<Rightarrow> session_type s \<in> set l) \<and> sec \<le> security_level s"

definition write_allowed :: "session_state \<Rightarrow> did_spec \<Rightarrow> bytes \<Rightarrow> bool" where
  "write_allowed s sp v \<longleftrightarrow>
     did_write sp \<and> write_nrc sp = None \<and> gates_open s (write_sessions sp) (write_security sp)
     \<and> (case did_length sp of None \<Rightarrow> True | Some n \<Rightarrow> int (length v) = n)"

definition read_allowed :: "session_state \<Rightarrow> did_spec \<Rightarrow> bool" where
  "read_allowed s sp \<longleftrightarrow>
     did_read sp \<and> read_nrc sp = None \<and> gates_open s (read_sessions sp) (read_security sp)"

lemma check_gates_eq:
  "check_gates c sns sec w =
     (if gates_open (sess w (ctx_session c)) sns sec then (Inr (), w)
      else (Inl (ctx_nrc c (if (case sns of None \<Rightarrow> False | Some l \<Rightarrow> session_type (sess w (ctx_session c)) \<notin> set l)
        then NRC_REQUEST_OUT_OF_RANGE else NRC_SECURITY_ACCESS_DENIED)), w))"
  by (auto simp: check_gates_def session_of_def gates_open_def split: option.splits)

lemma pack_H_two: "length bs = 2 \<Longrightarrow> pack_H (from_be bs) = Inr bs"
  using from_be_less [of bs] int_be_from_be [of bs] by (simp add: pack_uint_def)

lemma write_no_hooks:
  assumes req: "raw (ctx_request c) = 0x2E # hi # lo # v" "v \<noteq> []"
    and nohooks: "lookup_list (write_did_hooks d) (from_be [hi, lo]) = []"
  shows "write_data_by_identifier cfg d c w =
    (case store_spec (store w) (from_be [hi, lo]) of
       None \<Rightarrow> (case unknown_did_policy cfg c (from_be [hi, lo]) of
           Inl e \<Rightarrow> (Inl e, w) | Inr None \<Rightarrow> (Inr HNoResponse, w)
         | Inr (Some b) \<Rightarrow> (Inr (HBytes (0x6E # b)), w))
     | Some sp \<Rightarrow>
         if write_allowed (sess w (ctx_session c)) sp v
         then (Inr (HBytes [0x6E, hi, lo]), w\<lparr>store := store_write (from_be [hi, lo]) v (store w)\<rparr>)
         else (Inl (ctx_nrc c (if \<not> did_write sp then NRC_REQUEST_OUT_OF_RANGE
           else case write_nrc sp of Some n \<Rightarrow> n
           | None \<Rightarrow> if (case write_sessions sp of None \<Rightarrow> False | Some l \<Rightarrow> session_type (sess w (ctx_session c)) \<notin> set l)
               then NRC_REQUEST_OUT_OF_RANGE
             else if write_security sp > security_level (sess w (ctx_session c))
               then NRC_SECURITY_ACCESS_DENIED else NRC_INCORRECT_MESSAGE_LENGTH)), w))"
proof -
  have data: "req_data (ctx_request c) = hi # lo # v" "\<not> length (hi # lo # v) < 3"
    using req by (cases v; simp add: req_data_def)+
  have did: "py_slice 0 2 (hi # lo # v) = [hi, lo]" "pack_H (from_be [hi, lo]) = Inr [hi, lo]"
    by (simp add: py_slice_def) (simp add: pack_H_two)
  have pos: "positive (ctx_request c) b = 0x6E # b" for b
    using req by (simp add: positive_def)
  have res: "resolve_did_write (uds cfg) d (from_be [hi, lo]) v c w = (Inr None, w)"
    by (simp add: resolve_did_write_def nohooks)
  show ?thesis
    using data did pos res
    by (auto simp: write_data_by_identifier_def Let_def bnd_def write_allowed_def check_gates_eq
        gates_open_def seq_def split: option.splits sum.splits)
qed

lemma write_allowed_runs:
  assumes "raw (ctx_request c) = 0x2E # hi # lo # v" "v \<noteq> []"
    "lookup_list (write_did_hooks d) (from_be [hi, lo]) = []"
    "store_spec (store w) (from_be [hi, lo]) = Some sp" "write_allowed (sess w (ctx_session c)) sp v"
  shows "write_data_by_identifier cfg d c w =
    (Inr (HBytes [0x6E, hi, lo]), w\<lparr>store := store_write (from_be [hi, lo]) v (store w)\<rparr>)"
  using assms by (simp add: write_no_hooks)

text \<open>C7: a WriteDataByIdentifier request for an identifier no plugin handles writes the store
  exactly when the identifier is declared, writable, not forced to fail, its session and
  security gates are open and the value has the declared length; then the store changes at that
  identifier only and the answer is \<^verbatim>\<open>6E <did>\<close>. In every other case, whatever the error or
  policy, the whole state is unchanged.\<close>

theorem write_iff_allowed:
  assumes req: "raw (ctx_request c) = 0x2E # hi # lo # v" "v \<noteq> []"
    and nohooks: "lookup_list (write_did_hooks d) (from_be [hi, lo]) = []"
    and spec: "spec = store_spec (store w) (from_be [hi, lo])"
  shows "(if (\<exists>sp. spec = Some sp \<and> write_allowed (sess w (ctx_session c)) sp v)
     then write_data_by_identifier cfg d c w =
       (Inr (HBytes [0x6E, hi, lo]), w\<lparr>store := store_write (from_be [hi, lo]) v (store w)\<rparr>)
     else \<exists>res. write_data_by_identifier cfg d c w = (res, w) \<and> (res = Inr HNoResponse \<or>
       (\<exists>n. res = Inl (ctx_nrc c n)) \<or> spec = None \<and> res = Inr (HBytes [0x6E, hi, lo])))"
  using write_no_hooks [OF req nohooks, of cfg w] spec
  by (auto simp: unknown_did_policy_def pack_H_two split: option.splits)

text \<open>A configuration with one writable identifier of one byte.\<close>

abbreviation ex_cfg :: ecu_config where
  "ex_cfg \<equiv> default_ecu_config\<lparr>dids :=
     [(0xF190, (default_did_spec 0xF190)\<lparr>did_write := True, did_length := Some 1, did_value := Some [1]\<rparr>)]\<rparr>"

abbreviation ex_disp :: "(unit, ecu) dispatcher" where
  "ex_disp \<equiv> empty_dispatcher"

lemma ex_from_be [simp]: "from_be [0xF1, 0x90] = 0xF190"
  by (simp add: from_be_def)

lemma no_hooks_empty [simp]:
  "lookup_list (write_did_hooks empty_dispatcher) k = []"
  "lookup_list (read_did_hooks empty_dispatcher) k = []"
  "lookup_list (routine_hooks empty_dispatcher) k' = []"
  by (simp_all add: empty_dispatcher_def lookup_list_def)

lemma ex_spec:
  "store_spec (store (new_ecu ex_cfg)) 0xF190 =
     Some ((default_did_spec 0xF190)\<lparr>did_write := True, did_length := Some 1, did_value := Some [1]\<rparr>)"
  by (simp add: store_spec_def new_ecu_def)

theorem write_iff_allowed_witness:
  "write_data_by_identifier ex_cfg ex_disp (mk_ctx [0x2E, 0xF1, 0x90, 7] 0) (new_ecu ex_cfg) =
     (Inr (HBytes [0x6E, 0xF1, 0x90]), (new_ecu ex_cfg)\<lparr>store := store_write 0xF190 [7] (store (new_ecu ex_cfg))\<rparr>)"
proof -
  have "write_allowed (sess (new_ecu ex_cfg) 0)
      ((default_did_spec 0xF190)\<lparr>did_write := True, did_length := Some 1, did_value := Some [1]\<rparr>) [7]"
    by (simp add: write_allowed_def gates_open_def config_defaults new_ecu_def new_state_def)
  with write_iff_allowed [of "mk_ctx [0x2E, 0xF1, 0x90, 7] 0" "0xF1" "0x90" "[7]" ex_disp
      "store_spec (store (new_ecu ex_cfg)) (from_be [0xF1, 0x90])" "new_ecu ex_cfg" ex_cfg]
  show ?thesis by (simp add: ex_spec)
qed

text \<open>What a served identifier looks like in the response.\<close>

definition enc_record :: "(int \<times> bytes) list \<Rightarrow> bytes" where
  "enc_record rs = concat (map (\<lambda>(did, v). int_be 2 did @ v) rs)"

lemma read_all_record:
  assumes "read_all cfg d c ds acc w = (Inr (rcd, served), w')"
  shows "\<exists>rs. rcd = fst acc @ enc_record rs \<and> served = snd acc + length rs
    \<and> subseq (map fst rs) ds"
  using assms
proof (induction ds arbitrary: acc w)
  case Nil
  then show ?case by (auto simp: enc_record_def intro!: exI [of _ "[]"])
next
  case (Cons did ds)
  from Cons.prems obtain vl w1 where one: "read_one cfg d c did w = (Inr vl, w1)"
    and rest: "(case vl of None \<Rightarrow> read_all cfg d c ds acc
      | Some v \<Rightarrow> bnd (lift (pack_H did)) (\<lambda>h. read_all cfg d c ds (fst acc @ h @ v, snd acc + 1))) w1
      = (Inr (rcd, served), w')"
    by (auto simp: bnd_eq_Inr)
  show ?case
  proof (cases vl)
    case None
    with rest Cons.IH [of acc w1] show ?thesis by auto
  next
    case (Some v)
    with rest obtain h where h: "pack_H did = Inr h"
      and r: "read_all cfg d c ds (fst acc @ h @ v, snd acc + 1) w1 = (Inr (rcd, served), w')"
      by (auto simp: bnd_eq_Inr)
    from Cons.IH [OF r] obtain rs where
      "rcd = (fst acc @ h @ v) @ enc_record rs" "served = snd acc + 1 + length rs" "subseq (map fst rs) ds"
      by auto
    moreover have "h = int_be 2 did" using h by (auto simp: pack_uint_def split: if_splits)
    ultimately show ?thesis
      by (intro exI [of _ "(did, v) # rs"]) (simp add: enc_record_def)
  qed
qed

text \<open>Whatever the plugins do, a positive answer to ReadDataByIdentifier is the response
  identifier followed by one record, identifier and value, for each served identifier, in the
  order of the request and none twice as often as asked; at least one is served, and the answer
  is never longer than \<open>doip.max_payload_bytes\<close>. A request with no or with half an identifier
  is rejected before any handler runs.\<close>

theorem read_response_layout:
  assumes run: "read_data_by_identifier cfg d c w = (res, w')"
  shows "(\<forall>resp. res = Inr (HBytes resp) \<longrightarrow>
      (\<exists>rs. rs \<noteq> [] \<and> resp = positive (ctx_request c) (enc_record rs)
         \<and> subseq (map fst rs) (req_dids (ctx_request c)) \<and> int (length resp) \<le> max_payload_bytes (doip cfg)))
    \<and> (req_data (ctx_request c) = [] \<or> odd (length (req_data (ctx_request c))) \<longrightarrow>
         res = Inl (ctx_nrc c NRC_INCORRECT_MESSAGE_LENGTH) \<and> w' = w)"
proof (intro conjI allI impI)
  fix resp assume "res = Inr (HBytes resp)"
  with run obtain rcd served where
    ra: "read_all cfg d c (req_dids (ctx_request c)) ([], 0) w = (Inr (rcd, served), w')"
    and s: "served \<noteq> 0" "resp = positive (ctx_request c) rcd" "\<not> int (length resp) > max_payload_bytes (doip cfg)"
    by (auto simp: read_data_by_identifier_def Let_def bnd_eq_Inr split: if_splits prod.splits)
  from read_all_record [OF ra] obtain rs where
    "rcd = enc_record rs" "served = length rs" "subseq (map fst rs) (req_dids (ctx_request c))"
    by auto
  with s show "\<exists>rs. rs \<noteq> [] \<and> resp = positive (ctx_request c) (enc_record rs)
      \<and> subseq (map fst rs) (req_dids (ctx_request c)) \<and> int (length resp) \<le> max_payload_bytes (doip cfg)"
    by (intro exI [of _ rs]) auto
next
  assume "req_data (ctx_request c) = [] \<or> odd (length (req_data (ctx_request c)))"
  with run show "res = Inl (ctx_nrc c NRC_INCORRECT_MESSAGE_LENGTH)" "w' = w"
    by (auto simp: read_data_by_identifier_def Let_def odd_iff_mod_2_eq_one)
qed

text \<open>Reading one identifier that no plugin handles and that is not dynamic.\<close>

lemma read_one_static:
  assumes "lookup_list (read_did_hooks d) did = []" "store_spec (store w) did = Some sp"
    "read_allowed (sess w (ctx_session c)) sp" "\<not> did_dynamic sp" "store_read (store w) did = Some v"
  shows "read_one cfg d c did w = (Inr (Some v), w)"
  using assms
  by (simp add: read_one_def resolve_did_read_def read_allowed_def check_gates_eq seq_def bnd_def)

lemma read_single:
  assumes "raw (ctx_request c) = [0x22, hi, lo]"
    "read_one cfg d c (from_be [hi, lo]) w = (Inr (Some v), w)"
    "int (length v) + 3 \<le> max_payload_bytes (doip cfg)"
  shows "read_data_by_identifier cfg d c w = (Inr (HBytes (0x62 # hi # lo # v)), w)"
proof -
  have "req_dids (ctx_request c) = [from_be [hi, lo]]"
    using assms(1) by (simp add: req_dids_def Let_def py_slice_def)
  with assms show ?thesis
    by (simp add: read_data_by_identifier_def Let_def req_data_def bnd_def pack_H_two positive_def)
qed

text \<open>C14: a value written with WriteDataByIdentifier is the value ReadDataByIdentifier answers
  with, for an identifier no plugin handles, that is static, whose gates are open to both and
  whose value fits the payload bound.\<close>

theorem write_then_read:
  assumes wreq: "raw (ctx_request cw) = 0x2E # hi # lo # v" "v \<noteq> []"
    and rreq: "raw (ctx_request cr) = [0x22, hi, lo]" "ctx_session cr = ctx_session cw"
    and nohooks: "lookup_list (write_did_hooks d) (from_be [hi, lo]) = []"
      "lookup_list (read_did_hooks d) (from_be [hi, lo]) = []"
    and spec: "store_spec (store w) (from_be [hi, lo]) = Some sp" "\<not> did_dynamic sp"
    and ok: "write_allowed (sess w (ctx_session cw)) sp v" "read_allowed (sess w (ctx_session cw)) sp"
    and fits: "int (length v) + 3 \<le> max_payload_bytes (doip cfg)"
  shows "\<exists>w'. write_data_by_identifier cfg d cw w = (Inr (HBytes [0x6E, hi, lo]), w')
    \<and> read_data_by_identifier cfg d cr w' = (Inr (HBytes (0x62 # hi # lo # v)), w')"
proof -
  let ?w = "w\<lparr>store := store_write (from_be [hi, lo]) v (store w)\<rparr>"
  have "write_data_by_identifier cfg d cw w = (Inr (HBytes [0x6E, hi, lo]), ?w)"
    using write_allowed_runs [OF wreq nohooks(1) spec(1) ok(1)] by simp
  moreover have "read_one cfg d cr (from_be [hi, lo]) ?w = (Inr (Some v), ?w)"
    by (rule read_one_static [OF nohooks(2)]) (use spec ok(2) rreq(2) in \<open>simp_all add: kv.rd_wr\<close>)
  ultimately show ?thesis
    using read_single [OF rreq(1) _ fits] by blast
qed

lemma ex_allowed:
  "write_allowed (sess (new_ecu ex_cfg) 0)
     ((default_did_spec 0xF190)\<lparr>did_write := True, did_length := Some 1, did_value := Some [1]\<rparr>) [7]"
  "read_allowed (sess (new_ecu ex_cfg) 0)
     ((default_did_spec 0xF190)\<lparr>did_write := True, did_length := Some 1, did_value := Some [1]\<rparr>)"
  "\<not> did_dynamic ((default_did_spec 0xF190)\<lparr>did_write := True, did_length := Some 1, did_value := Some [1]\<rparr>)"
  "max_payload_bytes (doip ex_cfg) = 4096"
  by (simp_all add: write_allowed_def read_allowed_def gates_open_def config_defaults new_ecu_def
      new_state_def did_dynamic_def)

theorem write_then_read_witness:
  "\<exists>w'. write_data_by_identifier ex_cfg ex_disp (mk_ctx [0x2E, 0xF1, 0x90, 7] 0) (new_ecu ex_cfg) =
      (Inr (HBytes [0x6E, 0xF1, 0x90]), w')
    \<and> read_data_by_identifier ex_cfg ex_disp (mk_ctx [0x22, 0xF1, 0x90] 0) w' =
      (Inr (HBytes [0x62, 0xF1, 0x90, 7]), w')"
  using write_then_read [of "mk_ctx [0x2E, 0xF1, 0x90, 7] 0" "0xF1" "0x90" "[7]"
      "mk_ctx [0x22, 0xF1, 0x90] 0" ex_disp "new_ecu ex_cfg" _ ex_cfg]
    ex_spec ex_allowed by simp

theorem read_response_layout_witness:
  "fst (read_data_by_identifier ex_cfg ex_disp (mk_ctx [0x22, 0xF1] 0) (new_ecu ex_cfg)) =
     Inl (ctx_nrc (mk_ctx [0x22, 0xF1] 0) NRC_INCORRECT_MESSAGE_LENGTH)"
proof -
  obtain res w' where "read_data_by_identifier ex_cfg ex_disp (mk_ctx [0x22, 0xF1] 0)
      (new_ecu ex_cfg) = (res, w')"
    by fastforce
  with read_response_layout [OF this] show ?thesis by (simp add: req_data_def)
qed

section \<open>Routines\<close>

definition running :: "'m ecu_scheme \<Rightarrow> int \<Rightarrow> bool" where
  "running w rid \<longleftrightarrow> (\<exists>t. routine_data w = Some t \<and> map_of t rid = Some True)"

lemma routine_state_eq:
  "routine_state w =
     (let t = (case routine_data w of None \<Rightarrow> [] | Some t \<Rightarrow> t) in (Inr t, w\<lparr>routine_data := Some t\<rparr>))"
  by (simp add: routine_state_def Let_def)

lemma routine_track_eq:
  "routine_track rid control w =
     (let t = (case routine_data w of None \<Rightarrow> [] | Some t \<Rightarrow> t) in
      (Inr (), w\<lparr>routine_data := Some (if control = START_ROUTINE then AList.update rid True t
         else if control = STOP_ROUTINE then AList.update rid False t else t)\<rparr>))"
  by (simp add: routine_track_def bnd_def routine_state_eq Let_def)

lemma running_updates [simp]:
  "running (w\<lparr>routine_data := Some (case routine_data w of None \<Rightarrow> [] | Some t \<Rightarrow> t)\<rparr>) = running w"
  by (auto simp: running_def fun_eq_iff split: option.splits)

definition routine_answer :: "routine_spec \<Rightarrow> int \<Rightarrow> bytes" where
  "routine_answer sp control =
     (if control = 1 then routine_start sp else if control = 2 then routine_stop sp
      else routine_results sp)"

lemma routine_request:
  assumes "raw (ctx_request c) = 0x31 # ctl # hi # lo # args"
  shows "sub_of c = Inr (uint ctl AND 0x7F)" "py_slice 2 4 (raw (ctx_request c)) = [hi, lo]"
    "drop 4 (raw (ctx_request c)) = args" "\<not> length (raw (ctx_request c)) < 4"
    "positive (ctx_request c) x = 0x71 # x"
  using assms
  by (simp_all add: sub_of_def sub_function_def has_sub_function_def SUB_FUNCTION_SERVICES_def
      py_slice_def positive_def)

text \<open>A routine from the configuration, its gates open and no plugin claiming it, follows the
  protocol start, results, stop: start always runs it, results are given only while it runs
  (else \<^verbatim>\<open>22\<close> conditionsNotCorrect), stop ends it only while it runs (else \<^verbatim>\<open>24\<close>
  requestSequenceError); each positive answer echoes control and identifier and carries the
  configured record, and neither any other routine nor any other part of the state changes.\<close>

theorem routine_protocol:
  assumes req: "raw (ctx_request c) = 0x31 # ctl # hi # lo # args"
    and control: "k = uint ctl AND 0x7F" "k \<in> {1, 2, 3}"
    and rid: "rid = from_be [hi, lo]"
    and nohooks: "\<And>x. lookup_list (routine_hooks d) (rid, x) = []"
    and spec: "map_of (routines cfg) rid = Some sp"
    and gates: "gates_open (sess w (ctx_session c)) (routine_sessions sp) (routine_security sp)"
    and run: "routine_control cfg d c w = (res, w')"
  shows "res = (if k = 1 \<or> running w rid
        then Inr (HBytes (0x71 # word_of_int k # hi # lo # routine_answer sp k))
        else Inl (ctx_nrc c (if k = 2 then NRC_REQUEST_SEQUENCE_ERROR else NRC_CONDITIONS_NOT_CORRECT)))
    \<and> (running w' rid \<longleftrightarrow> k = 1 \<or> k = 3 \<and> running w rid)
    \<and> (\<forall>rid'. rid' \<noteq> rid \<longrightarrow> running w' rid' = running w rid')
    \<and> w' = w\<lparr>routine_data := routine_data w'\<rparr>"
proof -
  define t where "t = (case routine_data w of None \<Rightarrow> [] | Some t \<Rightarrow> t)"
  have rw: "running w r \<longleftrightarrow> map_of t r = Some True" for r
    by (auto simp: t_def running_def split: option.splits)
  have rw': "running (w\<lparr>routine_data := Some x\<rparr>) r \<longleftrightarrow> map_of x r = Some True" for x r
    by (simp add: running_def)
  have g: "(case routine_sessions sp of None \<Rightarrow> False | Some l \<Rightarrow> session_type (sess w (ctx_session c)) \<notin> set l) = False"
    "routine_security sp \<le> security_level (sess w (ctx_session c))"
    using gates by (auto simp: gates_open_def split: option.splits)
  have hooks: "resolve_routine (uds cfg) d rid k args c w = (Inr None, w)"
    by (simp add: resolve_routine_def nohooks)
  have "routine_control cfg d c w =
    (if k = 1 \<or> running w rid
     then (Inr (HBytes (0x71 # word_of_int k # hi # lo # routine_answer sp k)),
           w\<lparr>routine_data := Some (if k = 1 then AList.update rid True t
             else if k = 2 then AList.update rid False t else t)\<rparr>)
     else (Inl (ctx_nrc c (if k = 2 then NRC_REQUEST_SEQUENCE_ERROR else NRC_CONDITIONS_NOT_CORRECT)),
           w\<lparr>routine_data := Some t\<rparr>))"
    using routine_request [OF req] control rid hooks spec g rw
    by (auto simp: routine_control_def Let_def bnd_def seq_def routine_controls pack_H_two session_of_def
        routine_state_eq routine_track_eq routine_answer_def t_def [symmetric])
  with run control show ?thesis
    by (auto simp: rw rw' update_conv' split: if_splits)
qed

abbreviation ex_routine_cfg :: ecu_config where
  "ex_routine_cfg \<equiv> default_ecu_config\<lparr>routines := [(0x0203, (default_routine_spec 0x0203)\<lparr>routine_start := [9]\<rparr>)]\<rparr>"

theorem routine_protocol_witness:
  "fst (routine_control ex_routine_cfg ex_disp (mk_ctx [0x31, 2, 2, 3] 0) (new_ecu ex_routine_cfg)) =
     Inl (ctx_nrc (mk_ctx [0x31, 2, 2, 3] 0) NRC_REQUEST_SEQUENCE_ERROR)"
proof -
  have r: "from_be [2, 3] = 0x0203" by (simp add: from_be_def)
  have g: "gates_open (sess (new_ecu ex_routine_cfg) 0) None 0"
    by (simp add: gates_open_def new_ecu_def new_state_def)
  have "\<not> running (new_ecu ex_routine_cfg) 0x0203"
    by (simp add: running_def new_ecu_def)
  moreover obtain res w' where
    "routine_control ex_routine_cfg ex_disp (mk_ctx [0x31, 2, 2, 3] 0) (new_ecu ex_routine_cfg) = (res, w')"
    by fastforce
  ultimately show ?thesis
    using routine_protocol [of "mk_ctx [0x31, 2, 2, 3] 0" 2 2 3 "[]" 2 "0x0203" ex_disp ex_routine_cfg
        "(default_routine_spec 0x0203)\<lparr>routine_start := [9]\<rparr>" "new_ecu ex_routine_cfg" res w'] g
    by (simp add: r default_routine_spec_def)
qed

section \<open>Sessions and reset\<close>

text \<open>A session switch to a configured session always relocks: whatever the state was, the
  session becomes the requested one, security is locked with no pending seed and no failed
  attempts, and the S3 timer runs exactly outside the default session (if it is configured). A
  request for a session that is not configured, or of the wrong length, changes nothing.\<close>

theorem session_switch_relocks:
  assumes req: "raw (ctx_request c) = 0x10 # b # rest" and sub: "k = uint b AND 0x7F"
    and run: "diagnostic_session_control cfg c w = (res, w')"
  shows "if rest = [] \<and> k \<in> set (sessions (uds cfg))
    then sess w' (ctx_session c) = (sess w (ctx_session c))\<lparr>session_type := k, security_level := 0,
           seed_pending := None, security_attempts := 0,
           s3_timer := (if k = default_session (uds cfg) \<or> s3_server_ms (uds cfg) \<le> 0 then None
                        else Some (s3_server_ms (uds cfg)))\<rparr>
         \<and> (\<forall>r. r \<noteq> ctx_session c \<longrightarrow> sess w' r = sess w r)
         \<and> (\<exists>p2. res = Inr (HBytes (0x50 # word_of_int k # p2)) \<and> length p2 = 4)
    else w' = w \<and> (\<exists>n. res = Inl (ctx_nrc c n))"
proof -
  have s: "sub_of c = Inr k"
    using req sub
    by (simp add: sub_of_def sub_function_def has_sub_function_def SUB_FUNCTION_SERVICES_def)
  have pos: "positive (ctx_request c) x = 0x50 # x" for x
    using req by (simp add: positive_def)
  have in_range: "0 \<le> v AND 65535 \<and> v AND 65535 < 65536" for v :: int
    using and_range [of 65535 v] by simp
  have pk: "pack_HH (p2_server_ms (uds cfg) AND 0xFFFF) ((p2_star_server_ms (uds cfg) div 10) AND 0xFFFF)
    = Inr (int_be 2 (p2_server_ms (uds cfg) AND 0xFFFF) @
           int_be 2 ((p2_star_server_ms (uds cfg) div 10) AND 0xFFFF))"
    using in_range by (simp add: pack_uint_def)
  from run req s pos pk show ?thesis
    by (auto simp: diagnostic_session_control_def Let_def upd_session_def core_simps enter_session_def
        refresh_s3_def cancel_s3_def split: if_splits)
qed

theorem session_switch_relocks_witness:
  "security_level (sess (snd (diagnostic_session_control default_ecu_config (mk_ctx [0x10, 3] 0) ex_world)) 0) = 0"
proof -
  obtain res w' where
    "diagnostic_session_control default_ecu_config (mk_ctx [0x10, 3] 0) ex_world = (res, w')"
    by fastforce
  with session_switch_relocks [OF _ _ this, of 3 "[]" 3] show ?thesis
    by (simp add: config_defaults)
qed

text \<open>ECUReset with a supported sub-function ends the diagnostic state: no routine counts as
  running, and with \<open>reset_clears_writes\<close> every identifier reads its configured default again.
  Without \<open>reset_drops_connection\<close> the session is back to default and locked, in place, and the
  answer is positive; with it, the tester's entry leaves the session table and the positive
  answer travels in the exception that makes the connection close after sending it.\<close>

theorem reset_restores:
  assumes req: "raw (ctx_request c) = [0x11, b]" and sub: "k = uint b AND 0x7F" "k \<in> {1, 2, 3}"
    and inv: "core_inv (uds cfg) w" "store_wf (store w)"
    and run: "ecu_reset cfg c w = (res, w')"
  shows "(\<forall>rid. \<not> running w' rid)
    \<and> (reset_clears_writes (uds cfg) \<longrightarrow> (\<forall>did. store_read (store w') did =
         (case store_spec (store w) did of None \<Rightarrow> None | Some sp \<Rightarrow> did_value sp)))
    \<and> (if reset_drops_connection (uds cfg)
       then res = Inl (AbortConnectionAfterResponse [0x51, word_of_int k])
         \<and> map_of (session_states w') (source_addr (ctx_request c)) = None
       else res = Inr (HBytes [0x51, word_of_int k])
         \<and> sess w' (ctx_session c) = (new_state (uds cfg))
             \<lparr>st_tester_addr := st_tester_addr (sess w (ctx_session c)),
              st_activated := st_activated (sess w (ctx_session c))\<rparr>)"
proof -
  have s: "sub_of c = Inr k"
    using req sub
    by (simp add: sub_of_def sub_function_def has_sub_function_def SUB_FUNCTION_SERVICES_def)
  have pos: "positive (ctx_request c) x = 0x51 # x" for x
    using req by (simp add: positive_def)
  have len: "length (raw (ctx_request c)) = 2" using req by simp
  have del: "map_of (AList.delete a (session_states w)) a = None" for a
    using inv(1) by (simp add: core_inv_def map_of_delete)
  have eq: "ecu_reset cfg c w =
    (let w1 = core_reset (reset_clears_writes (uds cfg)) w in
     if reset_drops_connection (uds cfg)
     then (Inl (AbortConnectionAfterResponse [0x51, word_of_int k]),
           drop_session_state (Some (source_addr (ctx_request c))) w1)
     else (Inr (HBytes [0x51, word_of_int k]), upd_sess (ctx_session c) (state_reset (uds cfg)) w1))"
    using len s sub pos by (auto simp: ecu_reset_def Let_def upd_session_def)
  show ?thesis
    using run inv(2) del
    by (auto simp: eq Let_def core_reset_def running_def drop_session_state_def core_simps
        state_reset_def cancel_s3_def new_state_def store_read_reset split: if_splits option.splits)
qed

theorem reset_restores_witness:
  "fst (ecu_reset default_ecu_config (mk_ctx [0x11, 1] 0) ex_world) = Inr (HBytes [0x51, 1])"
proof -
  have wf: "store_wf (store ex_world)"
    by (simp add: store_wf_def core_simps new_ecu_def config_defaults)
  obtain res w' where run: "ecu_reset default_ecu_config (mk_ctx [0x11, 1] 0) ex_world = (res, w')"
    by fastforce
  from reset_restores [OF _ _ _ ex_world_inv wf run, of 1 1] run show ?thesis
    by (simp add: config_defaults)
qed

text \<open>C12: the core services keep the invariant of the diagnostic state, whether they answer or
  raise, provided the plugin hooks they consult do: a pending seed is always for an odd
  sub-function above the unlocked level, timers run only outside the default session, and the
  session table maps every tester to its own state.\<close>

theorem services_keep_invariant:
  assumes "hooks_keep (core_inv (uds cfg)) d" and "core_inv (uds cfg) w"
  shows "core_inv (uds cfg) (snd (core_handle cfg d c w))"
  using keeps_core_handle [OF assms(1)] assms(2) by (rule keepsD)

theorem services_keep_invariant_witness:
  "core_inv (uds default_ecu_config)
     (snd (core_handle default_ecu_config ex_disp (mk_ctx [0x27, 1] 0) ex_world))"
  by (rule services_keep_invariant) (simp_all only: hooks_keep_empty ex_world_inv)

end
