(* ===== verification/Resolve_Uds.thy ===== *)
theory Resolve_Uds
  imports Service_Props
begin

text \<open>
  From a UDS request to the bytes of its answer: \<open>Dispatcher.dispatch\<close> (the precedence ladder of
  \<^verbatim>\<open>virtual_ecu/virtecu/dispatcher.py\<close>), \<open>_dispatch_with_p2\<close> and \<open>resolve_uds\<close> of
  \<^verbatim>\<open>session.py\<close>. Time is counted in tenths of a millisecond. How long the dispatch task takes is
  a parameter (\<open>None\<close> when it never finishes), as is what a task did before it was cancelled;
  the wait loop itself is a partial function whose value is \<open>None\<close> when the loop never ends.
\<close>

section \<open>Dispatch\<close>

primrec run_observers ::
    "uds_config \<Rightarrow> uds_request \<Rightarrow> ctx \<Rightarrow> ('p, 'w) hook list \<Rightarrow> ('w, unit) py" where
  "run_observers u req c [] = ret ()"
| "run_observers u req c (h # hs) =
     bnd (call_hook u req True h (ReqArgs req c)) (\<lambda>_. run_observers u req c hs)"

definition ask_service ::
    "uds_config \<Rightarrow> ctx \<Rightarrow> ('p, 'w) hook \<Rightarrow> ('w, hres) py" where
  "ask_service u c h = call_hook u (ctx_request c) False h (ReqArgs (ctx_request c) c)"

definition dispatch ::
    "ecu_config \<Rightarrow> ('p, 'm ecu_scheme) dispatcher \<Rightarrow> uds_request \<Rightarrow> nat \<Rightarrow> ('m ecu_scheme, hres) py" where
  "dispatch cfg d req r =
     (let c = \<lparr>ctx_request = req, ctx_session = r\<rparr>; u = uds cfg in
      seq (run_observers u req c (observers d))
       (bnd (ladder (ask_service u c) judge_any (lookup_list (service_hooks d) (sid req))) (\<lambda>r1.
        case r1 of
          Some x \<Rightarrow> ret x
        | None \<Rightarrow>
            bnd (ladder (ask_service u c) judge_any (any_hooks d)) (\<lambda>r2.
            case r2 of
              Some x \<Rightarrow> ret x
            | None \<Rightarrow>
                bnd (core_handle cfg d c) (\<lambda>r3.
                if r3 \<noteq> HNone then ret r3 else lift (fallback u req))))))"

section \<open>Waiting with ResponsePending\<close>

text \<open>The loop of \<open>_dispatch_with_p2\<close>: whether the task finished (or the loop gave up) and how
  many ResponsePending frames went out before that.\<close>

partial_function (option) p2_loop ::
    "uds_config \<Rightarrow> int option \<Rightarrow> int \<Rightarrow> int \<Rightarrow> nat \<Rightarrow> (bool \<times> nat) option" where
  "p2_loop u dur elapsed window pending_sent =
     (if (case dur of None \<Rightarrow> False | Some t \<Rightarrow> t \<le> elapsed + max 0 window) then Some (True, pending_sent)
      else if max_response_pending u \<noteq> 0 \<and> int pending_sent \<ge> max_response_pending u
        then Some (False, pending_sent)
      else p2_loop u dur (elapsed + max 0 window) (9 * p2_star_server_ms u) (Suc pending_sent))"

declare p2_loop.simps [code]

primrec repeat_py :: "nat \<Rightarrow> ('s, unit) py \<Rightarrow> ('s, unit) py" where
  "repeat_py 0 m = ret ()"
| "repeat_py (Suc n) m = seq m (repeat_py n m)"

definition dispatch_with_p2 ::
    "uds_config \<Rightarrow> uds_request \<Rightarrow> (bytes \<Rightarrow> ('w, unit) py) \<Rightarrow> int option \<Rightarrow> ('w, hres) py
       \<Rightarrow> ('w, unit) py \<Rightarrow> 'w \<Rightarrow> (hres res \<times> 'w) option" where
  "dispatch_with_p2 u req responder dur task interrupted w =
     (let sid_b = word_of_int (sid req AND 0xFF);
          pending = responder [0x7F, sid_b, word_of_int NRC_RESPONSE_PENDING] in
      if \<not> auto_response_pending u then (case dur of None \<Rightarrow> None | Some _ \<Rightarrow> Some (task w))
      else case p2_loop u dur 0 (10 * p2_server_ms u) 0 of
          None \<Rightarrow> None
        | Some (True, n) \<Rightarrow> Some (seq (repeat_py n pending) task w)
        | Some (False, n) \<Rightarrow>
            Some (seq (repeat_py n pending)
              (seq interrupted (seq (responder [0x7F, sid_b, word_of_int NRC_GENERAL_REJECT])
                (ret HNoResponse))) w))"

section \<open>resolve\_uds\<close>

text \<open>The answer for the outcome of the dispatch: bytes to send, or nothing.\<close>

definition final_answer :: "uds_config \<Rightarrow> uds_request \<Rightarrow> hres res \<Rightarrow> bytes option res" where
  "final_answer u req outcome =
     (case outcome of
        Inl SuppressResponse \<Rightarrow> Inr None
      | Inl (NegativeResponse n s) \<Rightarrow>
          if functional req \<and> n \<in> set FUNCTIONAL_SUPPRESSED_NRCS then Inr None
          else ebind (nr_to_bytes n (case s of None \<Rightarrow> Some (sid req) | Some x \<Rightarrow> Some x))
                 (\<lambda>b. Inr (Some b))
      | Inl e \<Rightarrow> Inl e
      | Inr (HBytes b) \<Rightarrow>
          if suppress_pos_rsp req \<and> suppress_pos_rsp_bit u \<and> take 1 b \<noteq> [0x7F] then Inr None
          else Inr (Some b)
      | Inr _ \<Rightarrow> Inr None)"

definition resolve_uds ::
    "ecu_config \<Rightarrow> ('p, 'm ecu_scheme) dispatcher \<Rightarrow> (bytes \<Rightarrow> ('m ecu_scheme, unit) py) \<Rightarrow> int option
       \<Rightarrow> ('m ecu_scheme, unit) py \<Rightarrow> uds_request \<Rightarrow> nat \<Rightarrow> 'm ecu_scheme
       \<Rightarrow> (bytes option res \<times> 'm ecu_scheme) option" where
  "resolve_uds cfg d responder dur interrupted req r w =
     (let u = uds cfg; w = upd_sess r (refresh_s3 u) w in
      case dispatch_with_p2 u req responder dur (dispatch cfg d req r) interrupted w of
        None \<Rightarrow> None
      | Some (outcome, w') \<Rightarrow> Some (final_answer u req outcome, w'))"

section \<open>The precedence ladder\<close>

definition ladder_hooks :: "('p, 'w) dispatcher \<Rightarrow> int \<Rightarrow> ('p, 'w) hook list" where
  "ladder_hooks d s = lookup_list (service_hooks d) s @ any_hooks d"

lemma dispatch_eq:
  "dispatch cfg d req r =
     (let c = \<lparr>ctx_request = req, ctx_session = r\<rparr>; u = uds cfg in
      seq (run_observers u req c (observers d))
       (bnd (ladder (ask_service u c) judge_any (ladder_hooks d (sid req))) (\<lambda>x.
        case x of
          Some a \<Rightarrow> ret a
        | None \<Rightarrow> bnd (core_handle cfg d c) (\<lambda>r3. if r3 \<noteq> HNone then ret r3 else lift (fallback u req)))))"
  unfolding dispatch_def ladder_hooks_def ladder_append
  by (auto simp: fun_eq_iff Let_def seq_def bnd_def split: prod.splits sum.splits option.splits)

lemma judge_any_simps [simp]:
  "judge_any r = Skip \<longleftrightarrow> r = HNone" "judge_any r = Take a \<longleftrightarrow> r = a \<and> a \<noteq> HNone"
  "judge_any r \<noteq> Stop e"
  by (auto simp: judge_any_def)

lemma fallback_not_None: "fallback u req = Inr r \<Longrightarrow> r \<noteq> HNone"
  by (auto simp: fallback_def split: if_splits)

text \<open>C9: an answer of the dispatcher comes from the first rung of the ladder that has one. After
  all observers ran, the hooks for the service and then the catch-all hooks were asked in table
  order, each with the state the previous one left; the answer is that of the first that did not
  decline. Only if all of them declined does the built-in service answer, and only if there is
  none (or it declines) the fallback policy. An answer is never \<open>None\<close>.\<close>

theorem dispatch_precedence:
  assumes run: "dispatch cfg d req r w = (Inr a, w')"
    and c: "c = \<lparr>ctx_request = req, ctx_session = r\<rparr>"
  shows "a \<noteq> HNone \<and> (\<exists>w1. run_observers (uds cfg) req c (observers d) w = (Inr (), w1) \<and>
    ((\<exists>pre h post t. ladder_hooks d (sid req) = pre @ h # post
        \<and> declined (ask_service (uds cfg) c) judge_any pre w1 t \<and> ask_service (uds cfg) c h t = (Inr a, w'))
     \<or> (\<exists>t. declined (ask_service (uds cfg) c) judge_any (ladder_hooks d (sid req)) w1 t
        \<and> (core_handle cfg d c t = (Inr a, w')
           \<or> core_handle cfg d c t = (Inr HNone, w') \<and> fallback (uds cfg) req = Inr a))))"
proof -
  from run c obtain w1 where obs: "run_observers (uds cfg) req c (observers d) w = (Inr (), w1)"
    and rest: "bnd (ladder (ask_service (uds cfg) c) judge_any (ladder_hooks d (sid req))) (\<lambda>x.
        case x of Some a \<Rightarrow> ret a
        | None \<Rightarrow> bnd (core_handle cfg d c)
            (\<lambda>r3. if r3 \<noteq> HNone then ret r3 else lift (fallback (uds cfg) req))) w1 = (Inr a, w')"
    by (auto simp: dispatch_eq Let_def seq_def bnd_eq_Inr)
  from rest obtain x t where
    lad: "ladder (ask_service (uds cfg) c) judge_any (ladder_hooks d (sid req)) w1 = (Inr x, t)"
    and cont: "(case x of Some a \<Rightarrow> ret a
        | None \<Rightarrow> bnd (core_handle cfg d c)
            (\<lambda>r3. if r3 \<noteq> HNone then ret r3 else lift (fallback (uds cfg) req))) t = (Inr a, w')"
    by (auto simp: bnd_eq_Inr)
  show ?thesis
  proof (cases x)
    case None
    with lad have "declined (ask_service (uds cfg) c) judge_any (ladder_hooks d (sid req)) w1 t"
      by (simp add: ladder_None)
    with None cont obs show ?thesis
      by (fastforce simp: bnd_eq_Inr dest: fallback_not_None split: if_splits)
  next
    case (Some b)
    with lad cont obs show ?thesis
      by (auto simp: ladder_Some)
  qed
qed

lemma ex_dispatch_silent:
  "dispatch (default_ecu_config\<lparr>uds := default_uds_config\<lparr>unknown_service := ''silent''\<rparr>\<rparr>) ex_disp
     (mk_req [0x19]) 0 w = (Inr HNoResponse, w)"
  by (simp add: dispatch_eq Let_def ladder_hooks_def lookup_list_def empty_dispatcher_def core_handle_def
      sids fallback_def seq_def bnd_def)

theorem dispatch_precedence_witness:
  "\<exists>t. core_handle (default_ecu_config\<lparr>uds := default_uds_config\<lparr>unknown_service := ''silent''\<rparr>\<rparr>) ex_disp
     (mk_ctx [0x19] 0) t = (Inr HNone, new_ecu default_ecu_config)"
  using dispatch_precedence [OF ex_dispatch_silent [of "new_ecu default_ecu_config"], of "mk_ctx [0x19] 0"]
  by (auto simp: mk_ctx_def ladder_hooks_def lookup_list_def empty_dispatcher_def core_handle_def sids)

section \<open>The ResponsePending loop\<close>

lemma p2_loop_capped:
  assumes "max_response_pending u \<noteq> 0"
  shows "\<exists>b n. p2_loop u dur e win sent = Some (b, n) \<and> sent \<le> n
    \<and> (\<not> b \<longrightarrow> int n = max (int sent) (max_response_pending u))
    \<and> int n \<le> max (int sent) (max_response_pending u)"
proof (induction "nat (max_response_pending u - int sent)" arbitrary: e win sent rule: less_induct)
  case less
  show ?case
  proof (cases "(case dur of None \<Rightarrow> False | Some t \<Rightarrow> t \<le> e + max 0 win) \<or> int sent \<ge> max_response_pending u")
    case True
    then show ?thesis using assms by (subst p2_loop.simps) auto
  next
    case False
    then have "nat (max_response_pending u - int (Suc sent)) < nat (max_response_pending u - int sent)"
      by simp
    from less [OF this, of "e + max 0 win" "9 * p2_star_server_ms u"] False show ?thesis
      by (subst p2_loop.simps) auto
  qed
qed

lemma p2_loop_finishes:
  assumes "0 < p2_star_server_ms u" "max_response_pending u = 0" "0 < win"
  shows "\<exists>n. p2_loop u (Some t) e win sent = Some (True, n)"
  using assms(3)
proof (induction "nat (t - e)" arbitrary: e win sent rule: less_induct)
  case less
  show ?case
  proof (cases "t \<le> e + max 0 win")
    case True
    then show ?thesis by (subst p2_loop.simps) simp
  next
    case False
    then have "nat (t - (e + max 0 win)) < nat (t - e)" using less.prems by simp
    from less.hyps [OF this, of "9 * p2_star_server_ms u"] False assms show ?thesis
      by (subst p2_loop.simps) auto
  qed
qed

lemma p2_loop_hung:
  assumes "max_response_pending u = 0" "p2_loop u None e win sent = Some r"
  shows False
proof -
  have "dur = None \<and> max_response_pending u = 0 \<longrightarrow> False" if "p2_loop u dur e win sent = Some r" for dur
    using that
    by (rule p2_loop.raw_induct
        [where P = "\<lambda>u dur _ _ _ _. dur = None \<and> max_response_pending u = 0 \<longrightarrow> False", rotated])
      (auto split: if_splits)
  with assms show False by blast
qed

text \<open>C10: with a cap on ResponsePending frames, waiting for a handler always ends, however long the
  handler takes and even if it never returns: at most \<open>max_response_pending\<close> frames \<^verbatim>\<open>7F <sid> 78\<close>
  go out, giving up happens only after exactly that many, and none goes out exactly when the
  handler finished within P2. Without a cap the wait ends whenever the handler does (given
  positive P2 and P2* times), and never ends on a handler that hangs.\<close>

theorem p2_wait_ends:
  "(0 < max_response_pending u \<longrightarrow> (\<exists>b n. p2_loop u dur 0 (10 * p2_server_ms u) 0 = Some (b, n)
      \<and> int n \<le> max_response_pending u \<and> (\<not> b \<longrightarrow> int n = max_response_pending u)
      \<and> (n = 0 \<longleftrightarrow> (\<exists>t. dur = Some t \<and> t \<le> 10 * max 0 (p2_server_ms u)))))
   \<and> (max_response_pending u = 0 \<and> 0 < p2_star_server_ms u \<and> 0 < p2_server_ms u \<longrightarrow>
        (dur \<noteq> None \<longleftrightarrow> (\<exists>n. p2_loop u dur 0 (10 * p2_server_ms u) 0 = Some (True, n))))"
proof (intro conjI impI)
  assume cap: "0 < max_response_pending u"
  then obtain b n where bn: "p2_loop u dur 0 (10 * p2_server_ms u) 0 = Some (b, n)"
    "\<not> b \<longrightarrow> int n = max_response_pending u" "int n \<le> max_response_pending u"
    using p2_loop_capped [of u dur 0 "10 * p2_server_ms u" 0] by auto
  have "n = 0 \<longleftrightarrow> (\<exists>t. dur = Some t \<and> t \<le> 10 * max 0 (p2_server_ms u))"
  proof (cases "case dur of None \<Rightarrow> False | Some t \<Rightarrow> t \<le> max 0 (10 * p2_server_ms u)")
    case True
    then have "p2_loop u dur 0 (10 * p2_server_ms u) 0 = Some (True, 0)"
      by (subst p2_loop.simps) (auto split: option.splits)
    with bn True show ?thesis by (auto split: option.splits)
  next
    case False
    with bn cap have
      "p2_loop u dur (max 0 (10 * p2_server_ms u)) (9 * p2_star_server_ms u) (Suc 0) = Some (b, n)"
      by (subst (asm) p2_loop.simps) (auto split: option.splits if_splits)
    with cap p2_loop_capped [of u dur "max 0 (10 * p2_server_ms u)" "9 * p2_star_server_ms u" "Suc 0"]
    have "Suc 0 \<le> n" by auto
    with False show ?thesis by (auto split: option.splits)
  qed
  with bn show "\<exists>b n. p2_loop u dur 0 (10 * p2_server_ms u) 0 = Some (b, n)
      \<and> int n \<le> max_response_pending u \<and> (\<not> b \<longrightarrow> int n = max_response_pending u)
      \<and> (n = 0 \<longleftrightarrow> (\<exists>t. dur = Some t \<and> t \<le> 10 * max 0 (p2_server_ms u)))"
    by blast
next
  assume "max_response_pending u = 0 \<and> 0 < p2_star_server_ms u \<and> 0 < p2_server_ms u"
  then show "dur \<noteq> None \<longleftrightarrow> (\<exists>n. p2_loop u dur 0 (10 * p2_server_ms u) 0 = Some (True, n))"
    using p2_loop_finishes [of u "10 * p2_server_ms u" _ 0 0] p2_loop_hung [of u 0 "10 * p2_server_ms u" 0]
    by (cases dur) auto
qed

theorem p2_wait_ends_witness:
  "\<exists>b n. p2_loop default_uds_config None 0 (10 * p2_server_ms default_uds_config) 0 = Some (b, n)
     \<and> int n \<le> 10"
  using p2_wait_ends [of default_uds_config None] by (auto simp: config_defaults)

section \<open>Isolation and suppression\<close>

text \<open>\<open>raises_in P m\<close>: every exception that \<open>m\<close> raises satisfies \<open>P\<close> together with the state it
  leaves.\<close>

definition raises_in :: "(exn \<Rightarrow> 's \<Rightarrow> bool) \<Rightarrow> ('s, 'a) py \<Rightarrow> bool" where
  "raises_in P m \<longleftrightarrow> (\<forall>s e s'. m s = (Inl e, s') \<longrightarrow> P e s')"

lemma raises_inD: "raises_in P m \<Longrightarrow> m s = (Inl e, s') \<Longrightarrow> P e s'"
  by (auto simp: raises_in_def)

lemma raises_in_weaken: "raises_in P m \<Longrightarrow> (\<And>e s. P e s \<Longrightarrow> Q e s) \<Longrightarrow> raises_in Q m"
  by (auto simp: raises_in_def)

lemma raises_in_only: "raises_only E m \<Longrightarrow> (\<And>e s. E e \<Longrightarrow> P e s) \<Longrightarrow> raises_in P m"
  by (auto simp: raises_in_def raises_only_def)

lemma raises_in_bnd: "raises_in P m \<Longrightarrow> (\<And>a. raises_in P (k a)) \<Longrightarrow> raises_in P (bnd m k)"
  unfolding raises_in_def bnd_eq_Inl by blast

lemma raises_in_seq: "raises_in P m \<Longrightarrow> raises_in P n \<Longrightarrow> raises_in P (seq m n)"
  by (simp add: seq_def raises_in_bnd)

lemma raises_in_if:
  "(b \<Longrightarrow> raises_in P m) \<Longrightarrow> (\<not> b \<Longrightarrow> raises_in P n) \<Longrightarrow> raises_in P (if b then m else n)"
  by simp

lemma raises_in_option:
  "(x = None \<Longrightarrow> raises_in P m) \<Longrightarrow> (\<And>a. x = Some a \<Longrightarrow> raises_in P (k a)) \<Longrightarrow>
     raises_in P (case x of None \<Rightarrow> m | Some a \<Rightarrow> k a)"
  by (cases x) simp_all

lemmas raises_in_rules = raises_in_bnd raises_in_seq raises_in_if raises_in_option

text \<open>The exceptions with which the dispatcher may leave a request \<open>req\<close> on connection \<open>r\<close> in the
  world \<open>w\<close>: a negative response whose service identifier is filled in, suppression and cancellation;
  the abort that ECUReset raises, only for an ECUReset request, only when resets drop the connection,
  and only with the positive response of that reset; a \<open>ValueError\<close> only when a
  ReadDataByIdentifier request asks for the active session and its number is not a byte.\<close>

definition dispatch_exit :: "ecu_config \<Rightarrow> uds_request \<Rightarrow> nat \<Rightarrow> exn \<Rightarrow> 'm ecu_scheme \<Rightarrow> bool" where
  "dispatch_exit cfg req r e w =
     (case e of
        NegativeResponse n s \<Rightarrow> s \<noteq> None
      | SuppressResponse \<Rightarrow> True
      | CancelledError \<Rightarrow> True
      | AbortConnectionAfterResponse b \<Rightarrow>
          sid req = 0x11 \<and> reset_drops_connection (uds cfg) \<and> b \<in> {[0x51, 1], [0x51, 2], [0x51, 3]}
          \<and> sub_function req = Some (uint (b ! 1))
      | ValueError \<Rightarrow>
          sid req = 0x22 \<and> 0xF186 \<in> set (req_dids req) \<and> session_type (sess w r) \<notin> {0..255}
      | _ \<Rightarrow> False)"

lemma isolated_exit: "isolated e \<Longrightarrow> dispatch_exit cfg req r e w"
  by (cases e) (simp_all add: dispatch_exit_def)

lemma raises_call_hook [raises_rules]: "raises_only isolated (call_hook u req obs h args)"
  unfolding raises_only_def using call_hook_isolates by metis

lemma judge_stops [simp]:
  "judge_bytes r = Stop e \<Longrightarrow> isolated e" "judge_bool r = Stop e \<Longrightarrow> isolated e"
  by (auto simp: judge_bytes_def judge_bool_def split: hres.splits)

lemma raises_resolve [raises_rules]:
  "raises_only isolated (resolve_did_read u d did c)"
  "raises_only isolated (resolve_did_write u d did v c)"
  "raises_only isolated (resolve_routine u d rid k data c)"
  unfolding resolve_did_read_def resolve_did_write_def resolve_routine_def
  by (intro raises_rules; simp)+

lemma ctx_nrc_exn [simp]: "isolated (ctx_nrc c n)"
  by (simp add: ctx_nrc_def)

lemma raises_session [raises_rules]:
  "raises_only E (session_of c)" "raises_only E (upd_session c f)"
  unfolding session_of_def upd_session_def by (intro raises_rules)+

lemma raises_check_gates [raises_rules]: "raises_only isolated (check_gates c sns sec)"
  unfolding check_gates_def by (intro raises_rules) simp_all

lemma sub_of_total:
  "sid (ctx_request c) \<in> set SUB_FUNCTION_SERVICES \<Longrightarrow> \<not> length (raw (ctx_request c)) < 2 \<Longrightarrow>
     sub_of c \<noteq> Inl e"
  by (simp add: sub_of_def sub_function_def has_sub_function_def)

lemma pack_H_total: "0 \<le> v \<Longrightarrow> v < 65536 \<Longrightarrow> pack_H v \<noteq> Inl e"
  by (simp add: pack_uint_def)

lemma raises_unknown_did [raises_rules]:
  "0 \<le> did \<Longrightarrow> did < 65536 \<Longrightarrow> raises_only isolated (lift (unknown_did_policy cfg c did))"
  by (rule raises_only_lift) (auto simp: unknown_did_policy_def pack_uint_def split: if_splits)

lemma raises_dynamic_value:
  "raises_in (\<lambda>e w. e = ValueError \<and> did = DID_ACTIVE_DIAGNOSTIC_SESSION \<and>
     session_type (sess w (ctx_session c)) \<notin> {0..255}) (dynamic_value c did)"
  by (auto simp: raises_in_def dynamic_value_def session_of_def bnd_def gets_def lift_def ret_def py_bytes_def
      split: if_splits)

text \<open>What reading the identifiers \<open>ds\<close> may raise.\<close>

definition read_exit :: "ctx \<Rightarrow> int list \<Rightarrow> exn \<Rightarrow> 'm ecu_scheme \<Rightarrow> bool" where
  "read_exit c ds e w \<longleftrightarrow> isolated e \<or>
     e = ValueError \<and> DID_ACTIVE_DIAGNOSTIC_SESSION \<in> set ds \<and> session_type (sess w (ctx_session c)) \<notin> {0..255}"

lemma raises_read_exit: "raises_only isolated m \<Longrightarrow> raises_in (read_exit c ds) m"
  by (erule raises_in_only) (simp add: read_exit_def)

lemma raises_read_one:
  assumes "0 \<le> did" "did < 65536" "did \<in> set ds"
  shows "raises_in (read_exit c ds) (read_one cfg d c did)"
proof -
  have dyn: "raises_in (read_exit c ds) (dynamic_value c did)"
    by (rule raises_in_weaken [OF raises_dynamic_value]) (use assms in \<open>auto simp: read_exit_def\<close>)
  show ?thesis
    unfolding read_one_def
    by (intro raises_in_rules dyn; rule raises_read_exit; intro raises_rules; simp add: assms)
qed

lemma raises_read_all:
  "(\<And>did. did \<in> set es \<Longrightarrow> 0 \<le> did \<and> did < 65536 \<and> did \<in> set ds) \<Longrightarrow>
     raises_in (read_exit c ds) (read_all cfg d c es acc)"
proof (induction es arbitrary: acc)
  case Nil
  then show ?case unfolding read_all.simps by (intro raises_read_exit raises_rules)
next
  case (Cons did es)
  then have one: "raises_in (read_exit c ds) (read_one cfg d c did)" by (intro raises_read_one) auto
  have pack: "raises_in (read_exit c ds) (lift (pack_H did))"
    by (intro raises_read_exit raises_rules) (use Cons.prems [of did] in \<open>auto simp: pack_uint_def\<close>)
  from Cons have rest: "raises_in (read_exit c ds) (read_all cfg d c es a)" for a by auto
  show ?case unfolding read_all.simps by (intro raises_in_rules one pack rest)
qed

lemma req_dids_range: "did \<in> set (req_dids req) \<Longrightarrow> 0 \<le> did \<and> did < 65536"
  using from_be_less_pow [of _ 2] by (fastforce simp: req_dids_def Let_def)

lemma raises_tester_present [raises_rules]: "raises_only isolated (tester_present cfg c)"
  unfolding tester_present_def Let_def by (intro raises_rules) simp_all

lemma raises_read:
  "raises_in (read_exit c (req_dids (ctx_request c))) (read_data_by_identifier cfg d c)"
  unfolding read_data_by_identifier_def Let_def split_def
  by (intro raises_in_rules raises_read_all conjI;
      (intro raises_read_exit raises_rules)?; simp add: req_dids_range)

lemma pack_slice_total: "length bs \<le> 2 \<Longrightarrow> pack_H (from_be bs) \<noteq> Inl e"
  using from_be_less_pow [of bs 2] by (simp add: pack_uint_def)

lemma raises_write [raises_rules]: "raises_only isolated (write_data_by_identifier cfg d c)"
proof -
  have b: "raises_only isolated (case x of None \<Rightarrow> m | Some True \<Rightarrow> n | Some False \<Rightarrow> n')"
    if "raises_only isolated m" "raises_only isolated n" "raises_only isolated n'"
    for x and m n n' :: "('a ecu_scheme, hres) py"
    using that by (auto split: option.splits bool.splits)
  have r: "from_be (py_slice 0 2 xs) < 65536" "pack_H (from_be (py_slice 0 2 xs)) \<noteq> Inl e" for xs e
    using from_be_less_pow [of "py_slice 0 2 xs" 2] pack_slice_total [of "py_slice 0 2 xs"] by simp_all
  show ?thesis
    unfolding write_data_by_identifier_def Let_def
    by (intro raises_rules b) (simp_all add: r)
qed

lemma raises_routine_state [raises_rules]: "raises_only E routine_state" "raises_only E (routine_track rid k)"
  unfolding routine_track_def routine_state_def by (intro raises_rules)+

lemma raises_sub_services:
  assumes "sid (ctx_request c) \<in> set SUB_FUNCTION_SERVICES"
  shows "raises_only isolated (diagnostic_session_control cfg c)"
    "raises_only isolated (security_access cfg c)"
    "raises_only isolated (routine_control cfg d c)"
proof -
  have m: "0 \<le> v AND 65535" "v AND 65535 < 65536" for v :: int
    using and_range [of 65535 v] by simp_all
  show "raises_only isolated (diagnostic_session_control cfg c)"
    unfolding diagnostic_session_control_def Let_def
    by (intro raises_rules) (use assms sub_of_total in \<open>auto simp: pack_uint_def m\<close>)
  show "raises_only isolated (security_access cfg c)"
    unfolding security_access_def request_seed_def send_key_def Let_def
    by (intro raises_rules) (use assms sub_of_total in auto)
  show "raises_only isolated (routine_control cfg d c)"
    unfolding routine_control_def Let_def
    by (intro raises_rules) (use assms sub_of_total pack_slice_total in auto)
qed

text \<open>What ECUReset may raise.\<close>

definition reset_exit :: "ecu_config \<Rightarrow> ctx \<Rightarrow> exn \<Rightarrow> bool" where
  "reset_exit cfg c e \<longleftrightarrow> isolated e \<or>
     reset_drops_connection (uds cfg) \<and> (\<exists>sub \<in> {1, 2, 3}. sub_function (ctx_request c) = Some sub
        \<and> e = AbortConnectionAfterResponse (positive (ctx_request c) [word_of_int sub]))"

lemma raises_reset:
  assumes "sid (ctx_request c) = SID_ECU_RESET"
  shows "raises_only (reset_exit cfg c) (ecu_reset cfg c)"
proof -
  from assms have sub: "length (raw (ctx_request c)) = 2 \<Longrightarrow> sub_of c \<noteq> Inl e" for e
    by (rule_tac sub_of_total) (simp_all add: sids SUB_FUNCTION_SERVICES_def)
  have some: "sub_of c = Inr sub \<Longrightarrow> sub_function (ctx_request c) = Some sub" for sub
    by (simp add: sub_of_def split: option.splits)
  have nrc: "reset_exit cfg c (ctx_nrc c n)" for n by (simp add: reset_exit_def)
  have m: "raises_only (reset_exit cfg c) (lift (sub_of c))" if "length (raw (ctx_request c)) = 2"
    using that by (intro raises_rules) (simp add: sub)
  show ?thesis
  proof (cases "sub_of c")
    case (Inl e)
    then show ?thesis
      unfolding ecu_reset_def Let_def using sub by (intro raises_rules) (auto simp: nrc)
  next
    case (Inr sub)
    have abort: "reset_exit cfg c (AbortConnectionAfterResponse (positive (ctx_request c) [word_of_int sub]))"
      if "sub \<in> {1, 2, 3}" "reset_drops_connection (uds cfg)"
      using that some [OF Inr] by (auto simp: reset_exit_def)
    show ?thesis
      unfolding ecu_reset_def Let_def Inr bnd_lift_Inr
      by (intro raises_rules) (use abort in \<open>auto simp: nrc\<close>)
  qed
qed

lemma reset_exit_dispatch:
  assumes "sid (ctx_request c) = SID_ECU_RESET" and "reset_exit cfg c e"
  shows "dispatch_exit cfg (ctx_request c) (ctx_session c) e w"
proof (cases "isolated e")
  case False
  with assms show ?thesis by (auto simp: reset_exit_def dispatch_exit_def positive_def sids)
qed (rule isolated_exit)

lemma read_exit_dispatch:
  assumes "sid (ctx_request c) = SID_READ_DATA_BY_IDENTIFIER" and "read_exit c (req_dids (ctx_request c)) e w"
  shows "dispatch_exit cfg (ctx_request c) (ctx_session c) e w"
proof (cases "isolated e")
  case False
  with assms show ?thesis
    by (auto simp: read_exit_def dispatch_exit_def sids DID_ACTIVE_DIAGNOSTIC_SESSION_def)
qed (rule isolated_exit)

lemma raises_exit: "raises_only isolated m \<Longrightarrow> raises_in (dispatch_exit cfg req r) m"
  by (erule raises_in_only) (rule isolated_exit)

lemma raises_core_handle:
  "raises_in (dispatch_exit cfg (ctx_request c) (ctx_session c)) (core_handle cfg d c)"
  unfolding core_handle_def Let_def
proof (intro raises_in_if)
  assume "sid (ctx_request c) = SID_ECU_RESET"
  then show "raises_in (dispatch_exit cfg (ctx_request c) (ctx_session c)) (ecu_reset cfg c)"
    using reset_exit_dispatch by (intro raises_in_only [OF raises_reset]) auto
next
  assume "sid (ctx_request c) = SID_READ_DATA_BY_IDENTIFIER"
  then show "raises_in (dispatch_exit cfg (ctx_request c) (ctx_session c)) (read_data_by_identifier cfg d c)"
    using read_exit_dispatch by (intro raises_in_weaken [OF raises_read]) auto
qed (rule raises_exit, intro raises_rules raises_sub_services;
     simp add: sids SUB_FUNCTION_SERVICES_def)+

lemma raises_observers [raises_rules]: "raises_only isolated (run_observers u req c hs)"
proof (induction hs)
  case Nil
  show ?case unfolding run_observers.simps by (intro raises_rules)
next
  case (Cons h hs)
  then show ?case unfolding run_observers.simps by (intro raises_rules)
qed

lemma raises_dispatch: "raises_in (dispatch_exit cfg req r) (dispatch cfg d req r)"
proof -
  let ?c = "\<lparr>ctx_request = req, ctx_session = r\<rparr>"
  have core: "raises_in (dispatch_exit cfg req r) (core_handle cfg d ?c)"
    using raises_core_handle [of cfg ?c d] by simp
  have obs: "raises_in (dispatch_exit cfg req r) (run_observers u req ?c hs)" for u hs
    by (intro raises_exit raises_rules)
  have asked: "raises_in (dispatch_exit cfg req r) (ladder (ask_service u ?c) judge_any hs)" for u hs
    by (intro raises_exit, unfold ask_service_def, intro raises_rules) simp
  have fb: "raises_in (dispatch_exit cfg req r) (lift (fallback u req))" for u
    by (intro raises_exit raises_rules) (auto simp: fallback_def split: if_splits)
  have rets: "raises_in P (ret a)" for P and a :: hres by (simp add: raises_in_def)
  show ?thesis
    unfolding dispatch_def Let_def by (intro raises_in_rules core obs asked fb rets)
qed

text \<open>C8: handler isolation. Whatever exception plugin code raises (any subclass of Python's
  \<^verbatim>\<open>Exception\<close>, on any hook and for any request), the dispatcher is left only by: a
  \<open>NegativeResponse\<close> with its service identifier filled in, \<open>SuppressResponse\<close> or cancellation; on
  an ECUReset request, when resets drop the connection, the abort that carries the positive response
  of that very reset; and, on a ReadDataByIdentifier request for the active session (0xF186), a
  \<open>ValueError\<close> when the number of the session stored for the connection is not a byte. So a plugin's
  own \<open>ValueError\<close>, \<open>TypeError\<close> or \<open>AbortConnectionAfterResponse\<close> never gets out, and the core
  services raise no other exception on any request.\<close>

theorem dispatch_isolates:
  assumes "dispatch cfg d req r w = (Inl e, w')"
  shows "dispatch_exit cfg req r e w'"
  using raises_dispatch assms by (rule raises_inD)

definition bad_plugin :: "(unit, ecu) hook" where
  "bad_plugin = \<lparr>h_priority = 100, h_load_index = 0, h_plugin_name = ''bad'', h_method_name = ''m'',
     h_method = (\<lambda>_. raise ValueError)\<rparr>"

definition negative_observer :: "int \<Rightarrow> (unit, ecu) hook" where
  "negative_observer n = \<lparr>h_priority = 100, h_load_index = 0, h_plugin_name = ''obs'', h_method_name = ''m'',
     h_method = (\<lambda>_. raise (NegativeResponse n None))\<rparr>"

lemma ex_bad_dispatch:
  "dispatch default_ecu_config (ex_disp\<lparr>any_hooks := [bad_plugin]\<rparr>) (mk_req [0x19]) 0 w =
     (Inl (NegativeResponse NRC_CONDITIONS_NOT_CORRECT (Some 0x19)), w)"
  by (simp add: dispatch_eq Let_def ladder_hooks_def lookup_list_def empty_dispatcher_def ask_service_def
      call_hook_def try_catch_def bad_plugin_def seq_def bnd_def config_defaults)

theorem dispatch_isolates_witness:
  "\<exists>e w'. dispatch default_ecu_config (ex_disp\<lparr>any_hooks := [bad_plugin]\<rparr>) (mk_req [0x19]) 0
       (new_ecu default_ecu_config) = (Inl e, w')
     \<and> dispatch_exit default_ecu_config (mk_req [0x19]) 0 e w' \<and> e \<noteq> ValueError"
  using dispatch_isolates [OF ex_bad_dispatch [of "new_ecu default_ecu_config"]]
  by (auto simp: ex_bad_dispatch)

text \<open>An observer can decide the answer. When the first observer raises a \<open>NegativeResponse\<close>,
  the dispatcher raises it too, for every request, and neither a service hook nor the core
  service runs: the state is the one the observer left.\<close>

theorem observer_can_answer:
  assumes "observers d = h # hs"
    and "h_method h (ReqArgs req \<lparr>ctx_request = req, ctx_session = r\<rparr>) w = (Inl (NegativeResponse n s), w')"
  shows "dispatch cfg d req r w =
    (Inl (NegativeResponse n (Some (case s of None \<Rightarrow> sid req | Some x \<Rightarrow> x))), w')"
  using assms
  by (auto simp: dispatch_eq Let_def seq_def bnd_def call_hook_def try_catch_def split: option.splits)

theorem observer_can_answer_witness:
  "dispatch default_ecu_config (ex_disp\<lparr>observers := [negative_observer 0x22]\<rparr>) (mk_req [0x3E, 0]) 0
     (new_ecu default_ecu_config) = (Inl (NegativeResponse 0x22 (Some 0x3E)), new_ecu default_ecu_config)"
  using observer_can_answer [of "ex_disp\<lparr>observers := [negative_observer 0x22]\<rparr>" "negative_observer 0x22" "[]"
      "mk_req [0x3E, 0]" 0 "new_ecu default_ecu_config" "0x22" None]
  by (simp add: negative_observer_def)

section \<open>What is sent\<close>

lemma nr_to_bytes_eq_Inr:
  "nr_to_bytes n (Some s) = Inr b \<longleftrightarrow> nrc_ok n \<and> b = [0x7F, word_of_int (s AND 0xFF), word_of_int n]"
  using int_and_255 [of s] by (auto simp: nr_to_bytes_def sids ebind_eq_Inr)

lemma final_answer_cases:
  assumes "final_answer u req outcome = Inr (Some b)"
  shows "(\<exists>n s. outcome = Inl (NegativeResponse n s) \<and> nrc_ok n
      \<and> b = [0x7F, word_of_int ((case s of None \<Rightarrow> sid req | Some x \<Rightarrow> x) AND 0xFF), word_of_int n]
      \<and> \<not> (functional req \<and> n \<in> set FUNCTIONAL_SUPPRESSED_NRCS))
    \<or> outcome = Inr (HBytes b) \<and> \<not> (suppress_pos_rsp req \<and> suppress_pos_rsp_bit u \<and> take 1 b \<noteq> [0x7F])"
  using assms
  by (auto simp: final_answer_def ebind_eq_Inr nr_to_bytes_eq_Inr
      split: sum.splits exn.splits hres.splits if_splits option.splits)

lemma resolve_uds_outcome:
  assumes "resolve_uds cfg d responder dur interrupted req r w = Some (res, w')"
  obtains outcome where "res = final_answer (uds cfg) req outcome"
    "dispatch_with_p2 (uds cfg) req responder dur (dispatch cfg d req r) interrupted
       (upd_sess r (refresh_s3 (uds cfg)) w) = Some (outcome, w')"
  using assms by (auto simp: resolve_uds_def Let_def split: option.splits)

text \<open>C11: the suppression rules, for arbitrary plugins and timing. If the request sets the
  suppressPosRspMsgIndicationBit of a service that has a sub-function (and the configuration
  honours it), what is finally sent is nothing or a negative response. If the request is
  functionally addressed, a negative response the dispatcher raised is never sent with one of
  the codes 11, 12, 31 and 7F; anything else sent are the bytes a handler returned.\<close>

theorem suppression_rules:
  assumes run: "resolve_uds cfg d responder dur interrupted req r w = Some (Inr (Some b), w')"
  shows "(suppress_pos_rsp req \<and> suppress_pos_rsp_bit (uds cfg) \<longrightarrow> take 1 b = [0x7F])
    \<and> (functional req \<longrightarrow>
        (\<exists>s n. b = [0x7F, s, word_of_int n] \<and> nrc_ok n \<and> n \<notin> {0x11, 0x12, 0x31, 0x7F})
        \<or> dispatch_with_p2 (uds cfg) req responder dur (dispatch cfg d req r) interrupted
            (upd_sess r (refresh_s3 (uds cfg)) w) = Some (Inr (HBytes b), w'))"
proof -
  from run obtain outcome where o: "final_answer (uds cfg) req outcome = Inr (Some b)"
    and p2: "dispatch_with_p2 (uds cfg) req responder dur (dispatch cfg d req r) interrupted
       (upd_sess r (refresh_s3 (uds cfg)) w) = Some (outcome, w')"
    by (metis resolve_uds_outcome)
  from final_answer_cases [OF o] p2 show ?thesis
    by (auto simp: FUNCTIONAL_SUPPRESSED_NRCS_def nrcs)
qed

lemma ex_tester_present:
  "resolve_uds default_ecu_config ex_disp (\<lambda>_. ret ()) (Some 0) (ret ()) (mk_req [0x3E, 0x81]) 0
     (new_ecu default_ecu_config) =
   Some (Inr (Some [0x7F, 0x3E, 0x12]), upd_sess 0 (refresh_s3 default_uds_config) (new_ecu default_ecu_config))"
proof -
  have s: "sub_function (mk_req [0x3E, 0x81]) = Some 1" "sid (mk_req [0x3E, 0x81]) = 0x3E"
    by (simp_all add: sub_function_def has_sub_function_def SUB_FUNCTION_SERVICES_def)
  have p2: "p2_loop default_uds_config (Some 0) 0 500 0 = Some (True, 0)"
    by (subst p2_loop.simps) simp
  have "dispatch default_ecu_config ex_disp (mk_req [0x3E, 0x81]) 0 w =
      (Inl (NegativeResponse 0x12 (Some 0x3E)), w)" for w :: ecu
    using s by (simp add: dispatch_eq Let_def ladder_hooks_def lookup_list_def empty_dispatcher_def
        core_handle_def sids tester_present_def ctx_nrc_def nrcs seq_def bnd_def)
  with p2 show ?thesis
    by (simp add: resolve_uds_def dispatch_with_p2_def Let_def config_defaults final_answer_def
        seq_def bnd_def nr_to_bytes_ok mk_req_def)
qed

theorem suppression_rules_witness:
  "\<exists>b w'. resolve_uds default_ecu_config ex_disp (\<lambda>_. ret ()) (Some 0) (ret ()) (mk_req [0x3E, 0x81]) 0
     (new_ecu default_ecu_config) = Some (Inr (Some b), w') \<and> take 1 b = [0x7F]"
proof -
  have "suppress_pos_rsp (mk_req [0x3E, 0x81])" "suppress_pos_rsp_bit (uds default_ecu_config)"
    by (simp_all add: suppress_pos_rsp_def has_sub_function_def SUB_FUNCTION_SERVICES_def config_defaults)
  with suppression_rules [OF ex_tester_present] ex_tester_present show ?thesis by auto
qed

end
