(* ===== verification/Py_Int.thy ===== *)
theory Py_Int
  imports Prelude
begin

text \<open>
  Python's \<^verbatim>\<open>int(text, base)\<close> for bases 0 and 10, \<^verbatim>\<open>int(bytes)\<close>, \<^verbatim>\<open>str.strip\<close>, \<^verbatim>\<open>str.lower\<close> and
  \<^verbatim>\<open>bytes.fromhex\<close>, on text of code points below 256: what the configuration loaders and the hook results need. A
  single underscore may stand between digits and after a base prefix.
\<close>

definition is_ws :: "char \<Rightarrow> bool" where
  "is_ws c \<longleftrightarrow> c \<in> {CHR '' '', CHR 0x09, CHR 0x0A, CHR 0x0B, CHR 0x0C, CHR 0x0D}"

text \<open>\<^verbatim>\<open>str.isspace\<close> below code point 256; \<open>is_ws\<close> is the white space of byte strings.\<close>

definition is_space :: "char \<Rightarrow> bool" where
  "is_space c \<longleftrightarrow> is_ws c \<or> c \<in> {CHR 0x1C, CHR 0x1D, CHR 0x1E, CHR 0x1F, CHR 0x85, CHR 0xA0}"

definition strip_by :: "(char \<Rightarrow> bool) \<Rightarrow> string \<Rightarrow> string" where
  "strip_by f s = rev (dropWhile f (rev (dropWhile f s)))"

definition py_strip :: "string \<Rightarrow> string" where
  "py_strip s = strip_by is_space s"

definition lower_char :: "char \<Rightarrow> char" where
  "lower_char c =
     (let n = of_char c :: nat in if 65 \<le> n \<and> n \<le> 90 then char_of (n + 32) else c)"

definition py_lower :: "string \<Rightarrow> string" where
  "py_lower s = map lower_char s"

definition digit_val :: "char \<Rightarrow> int option" where
  "digit_val c =
     (let n = of_char (lower_char c) :: int in
      if 48 \<le> n \<and> n \<le> 57 then Some (n - 48)
      else if 97 \<le> n \<and> n \<le> 122 then Some (n - 87)
      else None)"

text \<open>Digits of a base with single underscores between them; \<open>prev\<close> tells whether an underscore
  may come next.\<close>

fun parse_digits :: "int \<Rightarrow> bool \<Rightarrow> int \<Rightarrow> string \<Rightarrow> int option" where
  "parse_digits b prev acc [] = (if prev then Some acc else None)"
| "parse_digits b prev acc (c # cs) =
     (if c = CHR ''_'' then (if prev then parse_digits b False acc cs else None)
      else case digit_val c of
          None \<Rightarrow> None
        | Some v \<Rightarrow> if v < b then parse_digits b True (acc * b + v) cs else None)"

definition parse_based :: "int \<Rightarrow> string \<Rightarrow> int option" where
  "parse_based b s =
     (case s of
        [] \<Rightarrow> None
      | c # cs \<Rightarrow> if c = CHR ''_'' then parse_digits b False 0 cs else parse_digits b False 0 s)"

text \<open>An unsigned literal for base 0: a prefix chooses the base; a decimal with a leading zero
  has to be zero.\<close>

definition parse_auto :: "string \<Rightarrow> int option" where
  "parse_auto s =
     (case s of
        c # x # rest \<Rightarrow>
          if c = CHR ''0'' \<and> lower_char x = CHR ''x'' then parse_based 16 rest
          else if c = CHR ''0'' \<and> lower_char x = CHR ''o'' then parse_based 8 rest
          else if c = CHR ''0'' \<and> lower_char x = CHR ''b'' then parse_based 2 rest
          else if c = CHR ''0'' then (case parse_digits 10 False 0 s of Some v \<Rightarrow> if v = 0 then Some 0 else None | None \<Rightarrow> None)
          else parse_digits 10 False 0 s
      | _ \<Rightarrow> parse_digits 10 False 0 s)"

definition parse_signed :: "(string \<Rightarrow> int option) \<Rightarrow> string \<Rightarrow> int option" where
  "parse_signed p s =
     (case s of
        [] \<Rightarrow> None
      | c # cs \<Rightarrow>
          if c = CHR ''-'' then map_option uminus (p cs)
          else if c = CHR ''+'' then p cs
          else p s)"

definition py_int_auto :: "string \<Rightarrow> int option" where
  "py_int_auto s = parse_signed parse_auto (py_strip s)"

definition py_int_dec :: "string \<Rightarrow> int option" where
  "py_int_dec s = parse_signed (parse_digits 10 False 0) s"

definition py_int_bytes :: "bytes \<Rightarrow> int res" where
  "py_int_bytes bs =
     (case py_int_dec (strip_by is_ws (map (\<lambda>b. char_of (unat b)) bs)) of None \<Rightarrow> Inl ValueError | Some v \<Rightarrow> Inr v)"

text \<open>\<^verbatim>\<open>bytes.fromhex\<close>: pairs of hexadecimal digits, white space allowed between pairs.\<close>

fun fromhex :: "string \<Rightarrow> bytes option" where
  "fromhex [] = Some []"
| "fromhex (c # cs) =
     (if is_ws c then fromhex cs
      else case cs of
          [] \<Rightarrow> None
        | c' # cs' \<Rightarrow>
            (case (digit_val c, digit_val c') of
               (Some a, Some b) \<Rightarrow>
                 if a < 16 \<and> b < 16 then map_option (Cons (word_of_int (16 * a + b))) (fromhex cs') else None
             | _ \<Rightarrow> None))"

lemma py_int_auto_examples:
  "py_int_auto ''0x1000'' = Some 4096" "py_int_auto '' 42 '' = Some 42" "py_int_auto ''010'' = None"
  "py_int_auto ''-0b1_1'' = Some (-3)" "py_int_auto ''1__0'' = None" "py_int_auto '''' = None"
  by code_simp+

lemma fromhex_examples: "fromhex ''DE adBE'' = Some [0xDE, 0xAD, 0xBE]" "fromhex ''abc'' = None"
  by code_simp+

text \<open>\<^verbatim>\<open>str(i)\<close> of an integer.\<close>

fun nat_str :: "nat \<Rightarrow> string" where
  "nat_str n = (if n < 10 then [char_of (48 + n)] else nat_str (n div 10) @ [char_of (48 + n mod 10)])"

declare nat_str.simps [simp del]

definition py_str_int :: "int \<Rightarrow> string" where
  "py_str_int i = (if i < 0 then CHR ''-'' # nat_str (nat (- i)) else nat_str (nat i))"

lemma py_str_int_examples: "py_str_int (-12) = ''-12''" "py_str_int 0 = ''0''"
  by code_simp+

end
