(* ===== verification/Doip_Dispatcher.thy ===== *)
theory Doip_Dispatcher
  imports Dispatcher Py_Int
begin

text \<open>
  \<open>DoipDispatcher\<close> of \<^verbatim>\<open>virtual_ecu/virtecu/doip_dispatcher.py\<close>: the hook table of the DoIP layer,
  its isolation rule (everything but cancellation counts as declining), and the decision points
  the TCP sessions and the UDP listener consult.
\<close>

definition DOIP_KINDS :: "hook_point list" where
  "DOIP_KINDS = [KRoutingActivation, KDiagnosticAck, KFrameRx, KFrameTx, KIdentificationRequest]"

type_synonym ('p, 'w) doip_dispatcher = "(hook_point \<times> ('p, 'w) hook list) list"

definition doip_append :: "hook_point \<times> ('p, 'w) hook \<Rightarrow> ('p, 'w) doip_dispatcher \<Rightarrow> ('p, 'w) doip_dispatcher" where
  "doip_append kh t = (if fst kh \<in> set DOIP_KINDS then append_at (fst kh) (snd kh) t else t)"

definition new_doip_dispatcher :: "('p, 'w) plugin list \<Rightarrow> ('p, 'w) doip_dispatcher" where
  "new_doip_dispatcher plugins =
     sort_table (fold doip_append (concat (map plugin_hooks plugins)) (map (\<lambda>k. (k, [])) DOIP_KINDS))"

definition doip_call :: "('p, 'w) hook \<Rightarrow> 'p hook_args \<Rightarrow> ('w, hres) py" where
  "doip_call h args =
     try_catch (h_method h args)
       (\<lambda>e. if e = CancelledError then raise CancelledError else ret HNone)"

text \<open>\<^verbatim>\<open>int(result)\<close> and \<^verbatim>\<open>bytes(result)\<close> for what a hook may return; both run outside the
  isolation of \<open>doip_call\<close>.\<close>

definition judge_int :: "hres \<Rightarrow> int verdict" where
  "judge_int r =
     (case r of
        HNone \<Rightarrow> Skip
      | HInt i \<Rightarrow> Take i
      | HBool b \<Rightarrow> Take (if b then 1 else 0)
      | HBytes bs \<Rightarrow> (case py_int_bytes bs of Inl e \<Rightarrow> Stop e | Inr i \<Rightarrow> Take i)
      | _ \<Rightarrow> Stop TypeError)"

definition judge_as_bytes :: "hres \<Rightarrow> bytes verdict" where
  "judge_as_bytes r =
     (case r of
        HNone \<Rightarrow> Skip
      | HBytes b \<Rightarrow> Take b
      | HInt i \<Rightarrow> if i < 0 then Stop ValueError else Take (replicate (nat i) 0)
      | HBool b \<Rightarrow> Take (if b then [0] else [])
      | _ \<Rightarrow> Stop TypeError)"

definition resolve_routing_activation ::
    "('p, 'w) doip_dispatcher \<Rightarrow> ra_request \<Rightarrow> 'p peer \<Rightarrow> ('w, int option) py" where
  "resolve_routing_activation t req p =
     ladder (\<lambda>h. doip_call h (RaArgs req p)) judge_int (lookup_list t KRoutingActivation)"

definition resolve_diagnostic_ack ::
    "('p, 'w) doip_dispatcher \<Rightarrow> uds_request \<Rightarrow> 'p peer \<Rightarrow> ('w, hres option) py" where
  "resolve_diagnostic_ack t req p =
     ladder (\<lambda>h. doip_call h (AckArgs req p)) judge_any (lookup_list t KDiagnosticAck)"

definition resolve_identification_request ::
    "('p, 'w) doip_dispatcher \<Rightarrow> 'p ident_request \<Rightarrow> 'p peer \<Rightarrow> ('w, bytes option) py" where
  "resolve_identification_request t req p =
     ladder (\<lambda>h. doip_call h (IdentArgs req p)) judge_as_bytes (lookup_list t KIdentificationRequest)"

primrec notify_all :: "'p hook_args \<Rightarrow> ('p, 'w) hook list \<Rightarrow> ('w, unit) py" where
  "notify_all args [] = ret ()"
| "notify_all args (h # hs) = bnd (doip_call h args) (\<lambda>_. notify_all args hs)"

definition notify_frame_rx :: "('p, 'w) doip_dispatcher \<Rightarrow> int \<Rightarrow> bytes \<Rightarrow> 'p peer \<Rightarrow> ('w, unit) py" where
  "notify_frame_rx t pt pl p = notify_all (FrameArgs pt pl p) (lookup_list t KFrameRx)"

definition notify_frame_tx :: "('p, 'w) doip_dispatcher \<Rightarrow> int \<Rightarrow> bytes \<Rightarrow> 'p peer \<Rightarrow> ('w, unit) py" where
  "notify_frame_tx t pt pl p = notify_all (FrameArgs pt pl p) (lookup_list t KFrameTx)"

section \<open>Lemmas\<close>

lemma doip_call_raises: "raises_only (\<lambda>e. e = CancelledError) (doip_call h args)"
  by (auto simp: raises_only_def doip_call_def try_catch_def split: prod.splits sum.splits if_splits)

lemma keeps_doip_call:
  assumes "keeps P (h_method h args)"
  shows "keeps P (doip_call h args)"
proof -
  have "snd (doip_call h args s) = snd (h_method h args s)" for s
    by (auto simp: doip_call_def try_catch_def split: prod.splits sum.splits)
  with assms show ?thesis by (simp add: keeps_def)
qed

definition doip_hooks_keep :: "('w \<Rightarrow> bool) \<Rightarrow> ('p, 'w) doip_dispatcher \<Rightarrow> bool" where
  "doip_hooks_keep P t \<longleftrightarrow> (\<forall>k. \<forall>h \<in> set (lookup_list t k). \<forall>args. keeps P (h_method h args))"

lemma keeps_notify_all: "(\<And>h. h \<in> set hs \<Longrightarrow> keeps P (h_method h args)) \<Longrightarrow> keeps P (notify_all args hs)"
proof (induction hs)
  case Nil
  then show ?case by (simp add: keeps_rules)
next
  case (Cons h hs)
  then show ?case unfolding notify_all.simps by (intro keeps_bnd keeps_doip_call) auto
qed

lemma keeps_doip_hooks [keeps_rules]:
  assumes "doip_hooks_keep P t"
  shows "keeps P (resolve_routing_activation t ra p)" "keeps P (resolve_diagnostic_ack t rq p)"
    "keeps P (resolve_identification_request t irq p)"
    "keeps P (notify_frame_rx t pt pl p)" "keeps P (notify_frame_tx t pt pl p)"
  using assms
  unfolding resolve_routing_activation_def resolve_diagnostic_ack_def resolve_identification_request_def
    notify_frame_rx_def notify_frame_tx_def doip_hooks_keep_def
  by (blast intro: keeps_ladder keeps_doip_call keeps_notify_all)+

lemma raises_notify [raises_rules]:
  "raises_only (\<lambda>e. e = CancelledError) (notify_all args hs)"
  by (induction hs) (auto simp only: notify_all.simps intro!: raises_rules doip_call_raises)

lemma lookup_doip_fold:
  "k \<in> set DOIP_KINDS \<Longrightarrow>
     lookup_list (fold doip_append khs t) k = lookup_list t k @ map snd (filter (\<lambda>kh. fst kh = k) khs)"
  by (induction khs arbitrary: t) (auto simp: doip_append_def)

section \<open>Properties\<close>

text \<open>The DoIP layer registers the hooks of every plugin it is given, sorted like the UDS
  hooks, without looking at \<open>enabled\<close>: a disabled plugin has no UDS hook in the dispatcher, yet
  its DoIP hooks are registered and run.\<close>

theorem doip_hooks_ignore_enabled:
  assumes "k \<in> set DOIP_KINDS"
  shows "lookup_list (new_doip_dispatcher plugins) k = sort_key hook_key (hooks_at plugins k)
    \<and> (\<forall>p. p \<in> set plugins \<and> \<not> p_enabled p \<longrightarrow>
         set (hooks_at [p] k) \<subseteq> set (lookup_list (new_doip_dispatcher plugins) k))
    \<and> ((\<forall>p \<in> set plugins. \<not> p_enabled p) \<longrightarrow> bucket (new_dispatcher plugins) k' = [])"
proof -
  have base: "lookup_list (map (\<lambda>k. (k, [])) DOIP_KINDS) k = []"
    by (simp add: lookup_list_def DOIP_KINDS_def)
  have eq: "lookup_list (new_doip_dispatcher plugins) k = sort_key hook_key (hooks_at plugins k)"
    using assms by (simp add: new_doip_dispatcher_def lookup_doip_fold base hooks_at_concat)
  moreover have "set (hooks_at [p] k) \<subseteq> set (hooks_at plugins k)" if "p \<in> set plugins" for p
    using that by (auto simp: hooks_at_def)
  moreover have "bucket (new_dispatcher plugins) k' = []" if "\<forall>p \<in> set plugins. \<not> p_enabled p"
  proof -
    have "filter p_enabled plugins = []" using that by (simp add: filter_empty_conv)
    then show ?thesis by (simp add: bucket_new_dispatcher hooks_at_def sort_key_simps(1))
  qed
  ultimately show ?thesis by auto
qed

definition off_plugin :: "(unit, unit) plugin" where
  "off_plugin = \<lparr>p_name = ''off'', p_priority = 100, p_enabled = False, p_load_index = 0,
     p_hooks = [(KFrameRx, [(''m'', None)])], p_method = (\<lambda>_ _. ret HNone)\<rparr>"

theorem doip_hooks_ignore_enabled_witness:
  "lookup_list (new_doip_dispatcher [off_plugin]) KFrameRx \<noteq> []"
  using doip_hooks_ignore_enabled [of KFrameRx "[off_plugin]"]
  by (auto simp: DOIP_KINDS_def hooks_at_def plugin_hooks_def off_plugin_def)

end
