(* ===== verification/Session_Registry.thy ===== *)
theory Session_Registry
  imports Prelude
begin

text \<open>
  The registries that say which socket owns a tester's logical address. The locale
  \<open>session_table\<close> is the contract both of them have to meet, \<open>SessionRegistry\<close> of
  \<^verbatim>\<open>virtual_ecu/virtecu/session.py\<close> (here) and that of \<^verbatim>\<open>doip_edgenode/session_registry.py\<close>: removal
  is identity-checked, so a session that was evicted and cleans up late never removes the entry of
  its successor.
\<close>

section \<open>The contract\<close>

locale session_table =
  fixes wf :: "'s \<Rightarrow> bool"
    and look :: "'s \<Rightarrow> int \<Rightarrow> 'i option"
    and reg :: "int \<Rightarrow> 'i \<Rightarrow> 's \<Rightarrow> 's"
    and unreg :: "int \<Rightarrow> 'i \<Rightarrow> 's \<Rightarrow> 's"
    and sz :: "'s \<Rightarrow> nat"
  assumes wf_reg: "wf s \<Longrightarrow> wf (reg a i s)"
    and wf_unreg: "wf s \<Longrightarrow> wf (unreg a i s)"
    and look_reg: "look (reg a i s) b = (if b = a then Some i else look s b)"
    and look_unreg: "wf s \<Longrightarrow>
      look (unreg a i s) b = (if b = a \<and> look s a = Some i then None else look s b)"
    and sz_reg: "wf s \<Longrightarrow> sz (reg a i s) = (if look s a = None then Suc (sz s) else sz s)"
    and sz_unreg: "wf s \<Longrightarrow> sz (unreg a i s) = (if look s a = Some i then sz s - 1 else sz s)"
begin

text \<open>Late cleanup of an evicted session.\<close>

lemma stale_unreg_keeps:
  "wf s \<Longrightarrow> look s a = Some j \<Longrightarrow> j \<noteq> i \<Longrightarrow> look (unreg a i s) = look s"
  by (simp add: fun_eq_iff look_unreg)

lemma handover:
  assumes "wf s" "new \<noteq> old"
  shows "look (unreg a old (reg a new (unreg a old s))) a = Some new"
  using assms by (simp add: look_unreg look_reg wf_reg wf_unreg)

lemma unreg_unreg: "wf s \<Longrightarrow> look (unreg a i (unreg a i s)) = look (unreg a i s)"
  by (simp add: fun_eq_iff look_unreg wf_unreg)

text \<open>Registering under a bound never exceeds it.\<close>

lemma sz_reg_bound: "wf s \<Longrightarrow> sz s < n \<Longrightarrow> sz (reg a i s) \<le> n"
  by (simp add: sz_reg)

lemma sz_unreg_le: "wf s \<Longrightarrow> sz (unreg a i s) \<le> sz s"
  by (simp add: sz_unreg)

end

section \<open>The registry of the VirtualEcu\<close>

type_synonym registry = "(int \<times> nat) list"

definition registry_register :: "int \<Rightarrow> nat \<Rightarrow> registry \<Rightarrow> registry" where
  "registry_register a i rg = AList.update a i rg"

definition registry_unregister :: "int \<Rightarrow> nat \<Rightarrow> registry \<Rightarrow> registry" where
  "registry_unregister a i rg = (if map_of rg a = Some i then AList.delete a rg else rg)"

definition registry_lookup :: "registry \<Rightarrow> int \<Rightarrow> nat option" where
  "registry_lookup rg a = map_of rg a"

definition registry_len :: "registry \<Rightarrow> nat" where
  "registry_len rg = length rg"

definition registry_wf :: "registry \<Rightarrow> bool" where
  "registry_wf rg \<longleftrightarrow> distinct (map fst rg)"

lemma length_update:
  "length (AList.update k v al) = (if map_of al k = None then Suc (length al) else length al)"
  by (induction al) auto

lemma length_delete:
  "distinct (map fst al) \<Longrightarrow>
     length (AList.delete k al) = (if map_of al k = None then length al else length al - 1)"
proof (induction al)
  case Nil
  then show ?case by simp
next
  case (Cons e al)
  show ?case
  proof (cases "fst e = k")
    case True
    with Cons.prems have "k \<notin> fst ` set al" by auto
    then have "AList.delete k al = al" by (simp add: delete_idem)
    with True show ?thesis by (cases e) simp
  next
    case False
    with Cons have "length al > 0 \<or> map_of al k = None" by (cases al) auto
    with False Cons show ?thesis by (cases e; cases al) auto
  qed
qed

interpretation ecu_reg: session_table registry_wf registry_lookup registry_register registry_unregister registry_len
proof
  show "registry_wf s \<Longrightarrow> registry_wf (registry_register a i s)" for s a i
    by (simp add: registry_wf_def registry_register_def distinct_update)
  show "registry_wf s \<Longrightarrow> registry_wf (registry_unregister a i s)" for s a i
    by (simp add: registry_wf_def registry_unregister_def distinct_delete)
  show "registry_lookup (registry_register a i s) b = (if b = a then Some i else registry_lookup s b)" for a i s b
    by (simp add: registry_lookup_def registry_register_def update_conv')
  show "registry_wf s \<Longrightarrow> registry_lookup (registry_unregister a i s) b =
      (if b = a \<and> registry_lookup s a = Some i then None else registry_lookup s b)" for s a i b
    by (simp add: registry_wf_def registry_lookup_def registry_unregister_def delete_conv')
  show "registry_wf s \<Longrightarrow> registry_len (registry_register a i s) =
      (if registry_lookup s a = None then Suc (registry_len s) else registry_len s)" for s a i
    by (simp add: registry_len_def registry_lookup_def registry_register_def length_update)
  show "registry_wf s \<Longrightarrow> registry_len (registry_unregister a i s) =
      (if registry_lookup s a = Some i then registry_len s - 1 else registry_len s)" for s a i
    by (simp add: registry_len_def registry_lookup_def registry_unregister_def registry_wf_def length_delete)
qed

end
