(* ===== verification/Ecu_Session.thy ===== *)
theory Ecu_Session
  imports Resolve_Uds Doip_Dispatcher Session_Registry
begin

text \<open>
  \<open>EcuSession\<close> of \<^verbatim>\<open>virtual_ecu/virtecu/session.py\<close>: the TCP connection state machine. All
  connections of the ECU, the registry and the clock extend the state of the core, so one handler
  can probe and evict another connection. The frame pump handles one frame without interruption,
  except where the source waits for an Alive Check Response of another socket: there Routing
  Activation is split into \<open>ra_begin\<close>, the probe, and \<open>ra_resume\<close>, and other connections
  run in between. The UDS worker serves one queued request per step. The relation \<open>ecu_step\<close>
  interleaves pumps, workers, timers and the peers.
\<close>

section \<open>State\<close>

text \<open>What the pump of a connection is doing: reading frames, waiting for the answer of connection
  \<open>j\<close> to the probe with a given event until a deadline, or finished.\<close>

datatype pump = PReading | PProbing int nat nat int | PDone

record conn =
  c_activated :: bool
  c_tester :: "int option"
  c_state :: "nat option"
  alive_probe_pending :: bool
  alive_probe_event :: "nat option"
  uds_queue :: "(uds_request \<times> int) list"
  worker_running :: bool
  cur_version :: int
  initial_deadline :: "int option"
  general_deadline :: "int option"
  c_finalized :: bool
  c_closed :: bool
  c_aborted :: bool
  c_out :: "bytes list"
  c_pump :: pump

record world = ecu +
  conns :: "nat \<Rightarrow> conn"
  next_conn :: nat
  registry :: registry
  clock :: int
  next_event :: nat
  set_events :: "nat list"

definition FRAME_LEN_SLACK :: int where "FRAME_LEN_SLACK = 65536"
definition UDS_QUEUE_MAXSIZE :: nat where "UDS_QUEUE_MAXSIZE = 8"

definition upd_conn :: "nat \<Rightarrow> (conn \<Rightarrow> conn) \<Rightarrow> 'm world_scheme \<Rightarrow> 'm world_scheme" where
  "upd_conn i f w = w\<lparr>conns := (conns w)(i := f (conns w i))\<rparr>"

text \<open>\<open>EcuSession.__init__\<close> and the start of \<open>run\<close>.\<close>

definition new_conn :: "doip_config \<Rightarrow> int \<Rightarrow> conn" where
  "new_conn dc t =
     \<lparr>c_activated = False, c_tester = None, c_state = None, alive_probe_pending = False,
      alive_probe_event = None, uds_queue = [], worker_running = True, cur_version = VER,
      initial_deadline = (if initial_inactivity_ms dc > 0 then Some (t + initial_inactivity_ms dc) else None),
      general_deadline = None, c_finalized = False, c_closed = False, c_aborted = False, c_out = [],
      c_pump = PReading\<rparr>"

definition accept_conn :: "ecu_config \<Rightarrow> 'm world_scheme \<Rightarrow> 'm world_scheme" where
  "accept_conn cfg w =
     (upd_conn (next_conn w) (\<lambda>_. new_conn (doip cfg) (clock w)) w)\<lparr>next_conn := next_conn w + 1\<rparr>"

section \<open>Timers\<close>

definition bump_general :: "doip_config \<Rightarrow> nat \<Rightarrow> 'm world_scheme \<Rightarrow> 'm world_scheme" where
  "bump_general dc i w =
     (let c = conns w i in
      if c_activated c \<and> \<not> c_finalized c \<and> general_inactivity_ms dc > 0
      then upd_conn i (\<lambda>c. c\<lparr>general_deadline := Some (clock w + general_inactivity_ms dc)\<rparr>) w
      else w)"

definition arm_general :: "doip_config \<Rightarrow> nat \<Rightarrow> 'm world_scheme \<Rightarrow> 'm world_scheme" where
  "arm_general dc i w =
     upd_conn i (\<lambda>c. c\<lparr>initial_deadline := None,
       general_deadline := (if general_inactivity_ms dc > 0 then Some (clock w + general_inactivity_ms dc)
                            else general_deadline c)\<rparr>) w"

definition finalize_conn :: "bool \<Rightarrow> nat \<Rightarrow> 'm world_scheme \<Rightarrow> 'm world_scheme" where
  "finalize_conn abortive i w =
     (if c_finalized (conns w i) then w
      else upd_conn i (\<lambda>c. c\<lparr>c_finalized := True, c_closed := True, c_aborted := abortive\<rparr>) w)"

text \<open>\<open>_supervise\<close>: an elapsed initial deadline aborts the socket, an elapsed general one closes it.\<close>

definition supervise :: "nat \<Rightarrow> 'm world_scheme \<Rightarrow> 'm world_scheme" where
  "supervise i w =
     (let c = conns w i in
      if c_finalized c then w
      else if (case initial_deadline c of None \<Rightarrow> False | Some t \<Rightarrow> clock w \<ge> t) then finalize_conn True i w
      else if (case general_deadline c of None \<Rightarrow> False | Some t \<Rightarrow> clock w \<ge> t) then finalize_conn False i w
      else w)"

section \<open>Sending\<close>

text \<open>\<open>_send\<close>: on a closed writer the write is dropped and \<^verbatim>\<open>drain\<close> raises.\<close>

definition send_raw ::
    "ecu_config \<Rightarrow> ('p, 'm world_scheme) doip_dispatcher \<Rightarrow> nat \<Rightarrow> bytes \<Rightarrow> ('m world_scheme, unit) py" where
  "send_raw cfg t i fr =
     seq (modify (bump_general (doip cfg) i))
      (bnd (gets (\<lambda>w. c_closed (conns w i))) (\<lambda>closed.
       if closed then raise ConnectionResetError
       else seq (modify (upd_conn i (\<lambda>c. c\<lparr>c_out := c_out c @ [fr]\<rparr>)))
         (bnd (lift (frame_ptype fr)) (\<lambda>pt.
          notify_frame_tx t pt (frame_payload fr) (TcpPeer i)))))"

definition send_frame ::
    "ecu_config \<Rightarrow> ('p, 'm world_scheme) doip_dispatcher \<Rightarrow> nat \<Rightarrow> int \<Rightarrow> bytes \<Rightarrow> int
       \<Rightarrow> ('m world_scheme, unit) py" where
  "send_frame cfg t i pt pl ver = bnd (lift (build_frame pt pl ver)) (send_raw cfg t i)"

definition send_response ::
    "ecu_config \<Rightarrow> ('p, 'm world_scheme) doip_dispatcher \<Rightarrow> nat \<Rightarrow> int \<Rightarrow> bytes \<Rightarrow> ('m world_scheme, unit) py" where
  "send_response cfg t i pt pl =
     bnd (gets (\<lambda>w. cur_version (conns w i))) (\<lambda>v. send_frame cfg t i pt pl v)"

section \<open>Eviction and cleanup\<close>

definition drop_own_state :: "uds_config \<Rightarrow> nat \<Rightarrow> 'm world_scheme \<Rightarrow> 'm world_scheme" where
  "drop_own_state u i w =
     (let c = conns w i in
      if c_state c \<noteq> None then maybe_drop_session_state u (c_tester c) (c_state c) w else w)"

definition unregister_own :: "nat \<Rightarrow> 'm world_scheme \<Rightarrow> 'm world_scheme" where
  "unregister_own i w =
     (case c_tester (conns w i) of
        None \<Rightarrow> w
      | Some a \<Rightarrow> w\<lparr>registry := registry_unregister a i (registry w)\<rparr>)"

definition evict :: "uds_config \<Rightarrow> nat \<Rightarrow> 'm world_scheme \<Rightarrow> 'm world_scheme" where
  "evict u i w =
     (let w = upd_conn i (\<lambda>c. c\<lparr>c_finalized := True, worker_running := False\<rparr>) w;
          w = drop_own_state u i w;
          w = upd_conn i (\<lambda>c. c\<lparr>c_closed := True\<rparr>) w
      in unregister_own i w)"

text \<open>The \<^verbatim>\<open>finally\<close> block of \<open>run\<close>.\<close>

definition run_finally :: "uds_config \<Rightarrow> nat \<Rightarrow> 'm world_scheme \<Rightarrow> 'm world_scheme" where
  "run_finally u i w =
     (let w = upd_conn i (\<lambda>c. c\<lparr>c_finalized := True, worker_running := False\<rparr>) w;
          w = drop_own_state u i w;
          w = upd_conn i (\<lambda>c. c\<lparr>c_closed := True, c_pump := PDone\<rparr>) w
      in unregister_own i w)"

section \<open>Routing activation\<close>

definition activation_response :: "ecu_config \<Rightarrow> int \<Rightarrow> int \<Rightarrow> bytes res" where
  "activation_response cfg src code =
     ebind (pack_HH src (ecu_logical_addr (doip cfg))) (\<lambda>a.
     ebind (py_bytes [code]) (\<lambda>b. Inr (a @ b @ [0, 0, 0, 0] @ [0, 0, 0, 0])))"

definition respond_activation ::
    "ecu_config \<Rightarrow> ('p, 'm world_scheme) doip_dispatcher \<Rightarrow> nat \<Rightarrow> int \<Rightarrow> int \<Rightarrow> ('m world_scheme, unit) py" where
  "respond_activation cfg t i src code =
     bnd (lift (activation_response cfg src code)) (send_response cfg t i PT_ROUTING_ACT_RESPONSE)"

definition deny_activation ::
    "ecu_config \<Rightarrow> ('p, 'm world_scheme) doip_dispatcher \<Rightarrow> nat \<Rightarrow> int \<Rightarrow> int \<Rightarrow> ('m world_scheme, 'a) py" where
  "deny_activation cfg t i src code = seq (respond_activation cfg t i src code) (raise CloseConnection)"

text \<open>The bookkeeping of an accepted activation, before the response goes out.\<close>

definition bind_tester :: "ecu_config \<Rightarrow> nat \<Rightarrow> int \<Rightarrow> 'm world_scheme \<Rightarrow> 'm world_scheme" where
  "bind_tester cfg i src w =
     (let w = upd_conn i (\<lambda>c. c\<lparr>c_tester := Some src, c_activated := True\<rparr>) w;
          (r, w) = session_for (uds cfg) src w;
          w = upd_conn i (\<lambda>c. c\<lparr>c_state := Some r\<rparr>) w;
          w = upd_sess r (\<lambda>s. s\<lparr>st_activated := True\<rparr>) w;
          w = w\<lparr>registry := registry_register src i (registry w)\<rparr>
      in arm_general (doip cfg) i w)"

definition ra_accept ::
    "ecu_config \<Rightarrow> ('p, 'm world_scheme) doip_dispatcher \<Rightarrow> nat \<Rightarrow> int \<Rightarrow> ('m world_scheme, unit) py" where
  "ra_accept cfg t i src =
     bnd (gets (\<lambda>w. int (registry_len (registry w)))) (\<lambda>n.
     if n \<ge> max_concurrent_sessions (doip cfg) then deny_activation cfg t i src 0x01
     else seq (modify (bind_tester cfg i src)) (respond_activation cfg t i src 0x10))"

text \<open>What one frame makes the pump do: go on reading, close, or probe connection \<open>j\<close> for \<open>src\<close>.\<close>

datatype pump_result = Continue | CloseIt | Probe int nat

definition ra_begin ::
    "ecu_config \<Rightarrow> ('p, 'm world_scheme) doip_dispatcher \<Rightarrow> nat \<Rightarrow> bytes \<Rightarrow> ('m world_scheme, pump_result) py" where
  "ra_begin cfg t i payload =
     (if length payload < ROUTING_ACT_REQUEST_MIN_LEN
      then seq (send_response cfg t i PT_HEADER_NACK [word_of_int NACK_GENERIC_INVALID_PAYLOAD_LENGTH])
             (ret Continue)
      else bnd (lift (unpack_H (py_slice 0 2 payload))) (\<lambda>src.
      let activation_type = uint (payload ! 2) in
      bnd (resolve_routing_activation t
             \<lparr>ra_source_addr = src, ra_activation_type = activation_type, ra_raw = payload\<rparr> (TcpPeer i)) (\<lambda>override.
      if override \<noteq> None \<and> override \<noteq> Some 0x10 then deny_activation cfg t i src (the override)
      else let (low, high) = tester_addr_range (doip cfg) in
        if \<not> (low \<le> src \<and> src \<le> high) then deny_activation cfg t i src 0x00
        else if activation_type \<notin> {0x00, 0x01} then deny_activation cfg t i src 0x06
        else bnd (gets (\<lambda>w. conns w i)) (\<lambda>c.
          if c_activated c \<and> Some src \<noteq> c_tester c then deny_activation cfg t i src 0x02
          else if c_activated c \<and> Some src = c_tester c
            then seq (respond_activation cfg t i src 0x10) (ret Continue)
          else bnd (gets (\<lambda>w. registry_lookup (registry w) src)) (\<lambda>existing.
            case existing of
              Some j \<Rightarrow> if j \<noteq> i then ret (Probe src j)
                         else seq (ra_accept cfg t i src) (ret Continue)
            | None \<Rightarrow> seq (ra_accept cfg t i src) (ret Continue))))))"

text \<open>\<open>probe_alive\<close> up to its wait: a fresh event on the probed connection, then the request. The
  value tells whether the wait starts; a send that fails counts as no answer.\<close>

definition probe_begin ::
    "ecu_config \<Rightarrow> ('p, 'm world_scheme) doip_dispatcher \<Rightarrow> nat \<Rightarrow> ('m world_scheme, nat \<times> bool) py" where
  "probe_begin cfg t j =
     bnd (gets next_event) (\<lambda>e.
     seq (modify (\<lambda>w. (upd_conn j (\<lambda>c. c\<lparr>alive_probe_event := Some e, alive_probe_pending := True\<rparr>) w)
                        \<lparr>next_event := e + 1\<rparr>))
      (bnd (try_catch (seq (send_frame cfg t j PT_ALIVE_CHECK_REQUEST [] VER) (ret True))
              (\<lambda>ex. if is_Exception ex then ret False else raise ex)) (\<lambda>sent.
       ret (e, sent))))"

definition ra_resume ::
    "ecu_config \<Rightarrow> ('p, 'm world_scheme) doip_dispatcher \<Rightarrow> nat \<Rightarrow> int \<Rightarrow> nat \<Rightarrow> bool
       \<Rightarrow> ('m world_scheme, pump_result) py" where
  "ra_resume cfg t i src j alive =
     seq (modify (upd_conn j (\<lambda>c. c\<lparr>alive_probe_pending := False, alive_probe_event := None\<rparr>)))
      (if alive then deny_activation cfg t i src 0x03
       else seq (modify (evict (uds cfg) j)) (seq (ra_accept cfg t i src) (ret Continue)))"

section \<open>Alive check and diagnostic messages\<close>

definition handle_alive_check ::
    "ecu_config \<Rightarrow> ('p, 'm world_scheme) doip_dispatcher \<Rightarrow> nat \<Rightarrow> ('m world_scheme, pump_result) py" where
  "handle_alive_check cfg t i =
     bnd (lift (pack_H (ecu_logical_addr (doip cfg)))) (\<lambda>a.
     seq (send_response cfg t i PT_ALIVE_CHECK_RESPONSE a) (ret Continue))"

text \<open>\<^verbatim>\<open>struct.pack("!HHB", ecu_addr, src, code)\<close>.\<close>

definition diag_ack_payload :: "ecu_config \<Rightarrow> int \<Rightarrow> int \<Rightarrow> bytes res" where
  "diag_ack_payload cfg src code =
     ebind (pack_HH (ecu_logical_addr (doip cfg)) src) (\<lambda>a.
     ebind (pack_uint 1 code) (\<lambda>b. Inr (a @ b)))"

definition diag_nack ::
    "ecu_config \<Rightarrow> ('p, 'm world_scheme) doip_dispatcher \<Rightarrow> nat \<Rightarrow> int \<Rightarrow> int \<Rightarrow> ('m world_scheme, unit) py" where
  "diag_nack cfg t i src code =
     bnd (lift (diag_ack_payload cfg src code)) (send_response cfg t i PT_DIAGNOSTIC_NEGATIVE_ACK)"

definition enqueue_uds ::
    "ecu_config \<Rightarrow> ('p, 'm world_scheme) doip_dispatcher \<Rightarrow> nat \<Rightarrow> uds_request \<Rightarrow> ('m world_scheme, pump_result) py" where
  "enqueue_uds cfg t i req =
     bnd (gets (\<lambda>w. conns w i)) (\<lambda>c.
     if length (uds_queue c) < UDS_QUEUE_MAXSIZE
     then seq (modify (upd_conn i (\<lambda>c. c\<lparr>uds_queue := uds_queue c @ [(req, cur_version c)]\<rparr>))) (ret Continue)
     else bnd (lift (pack_HH (ecu_logical_addr (doip cfg)) (source_addr req))) (\<lambda>a.
       seq (send_response cfg t i PT_DIAGNOSTIC_MESSAGE
              (a @ [0x7F, word_of_int (sid req AND 0xFF), word_of_int NRC_BUSY_REPEAT_REQUEST]))
         (ret Continue)))"

definition handle_diagnostic ::
    "ecu_config \<Rightarrow> ('p, 'm world_scheme) doip_dispatcher \<Rightarrow> nat \<Rightarrow> bytes \<Rightarrow> ('m world_scheme, pump_result) py" where
  "handle_diagnostic cfg t i payload =
     (if length payload < 5
      then seq (send_response cfg t i PT_HEADER_NACK [word_of_int NACK_GENERIC_INVALID_PAYLOAD_LENGTH])
             (ret Continue)
      else
      let src = from_be (py_slice 0 2 payload); tgt = from_be (py_slice 2 4 payload);
          uds_bytes = drop 4 payload; fn = (tgt = functional_addr (uds cfg)) in
      bnd (gets (\<lambda>w. conns w i)) (\<lambda>c.
      if \<not> c_activated c \<or> Some src \<noteq> c_tester c
      then seq (diag_nack cfg t i src NACK_INVALID_SOURCE_ADDRESS) (raise CloseConnection)
      else if tgt \<noteq> ecu_logical_addr (doip cfg) \<and> \<not> fn
      then seq (diag_nack cfg t i src NACK_UNKNOWN_TARGET_ADDRESS) (ret Continue)
      else if int (length uds_bytes) > max_payload_bytes (doip cfg)
      then seq (diag_nack cfg t i src NACK_MESSAGE_TOO_LARGE) (ret Continue)
      else
        let req = \<lparr>raw = uds_bytes, source_addr = src, target_addr = tgt, functional = fn\<rparr> in
        bnd (resolve_diagnostic_ack t req (TcpPeer i)) (\<lambda>ack.
        case ack of
          Some HWithhold \<Rightarrow> ret Continue
        | Some (HInt n) \<Rightarrow> seq (diag_nack cfg t i src n) (ret Continue)
        | Some (HBool b) \<Rightarrow> seq (diag_nack cfg t i src (if b then 1 else 0)) (ret Continue)
        | _ \<Rightarrow>
            bnd (lift (diag_ack_payload cfg src 0x00)) (\<lambda>p.
            seq (send_response cfg t i PT_DIAGNOSTIC_POSITIVE_ACK p) (enqueue_uds cfg t i req)))))"

section \<open>The frame pump\<close>

definition close_on_denial :: "('w, pump_result) py \<Rightarrow> ('w, pump_result) py" where
  "close_on_denial m = try_catch m (\<lambda>e. if e = CloseConnection then ret CloseIt else raise e)"

definition alive_response :: "nat \<Rightarrow> 'm world_scheme \<Rightarrow> 'm world_scheme" where
  "alive_response i w =
     (let c = conns w i in
      case alive_probe_event c of
        Some e \<Rightarrow> if alive_probe_pending c then w\<lparr>set_events := e # set_events w\<rparr> else w
      | None \<Rightarrow> w)"

definition pump_frame ::
    "ecu_config \<Rightarrow> ('p, 'm world_scheme) doip_dispatcher \<Rightarrow> nat \<Rightarrow> bytes \<Rightarrow> ('m world_scheme, pump_result) py" where
  "pump_frame cfg t i fr =
     bnd (lift (frame_ptype fr)) (\<lambda>pt.
     let pload = frame_payload fr in
     seq (modify (bump_general (doip cfg) i))
     (seq (notify_frame_rx t pt pload (TcpPeer i))
     (bnd (lift (validate_header fr None [])) (\<lambda>nack.
      case nack of
        Some n \<Rightarrow> seq (bnd (lift (py_bytes [n])) (\<lambda>b. send_frame cfg t i PT_HEADER_NACK b VER)) (ret CloseIt)
      | None \<Rightarrow>
          bnd (lift (py_index fr 0)) (\<lambda>v.
          seq (modify (upd_conn i (\<lambda>c. c\<lparr>cur_version := uint v\<rparr>)))
          (if pt = PT_ROUTING_ACT_REQUEST then close_on_denial (ra_begin cfg t i pload)
           else if pt = PT_DIAGNOSTIC_MESSAGE then close_on_denial (handle_diagnostic cfg t i pload)
           else if pt = PT_ALIVE_CHECK_REQUEST then handle_alive_check cfg t i
           else if pt = PT_ALIVE_CHECK_RESPONSE then seq (modify (alive_response i)) (ret Continue)
           else seq (send_response cfg t i PT_HEADER_NACK [word_of_int NACK_GENERIC_UNKNOWN_PAYLOAD_TYPE])
             (ret Continue)))))))"

text \<open>The bound \<open>_loop\<close> gives to \<open>read_frame\<close>, and what it does with a longer declaration.\<close>

definition pump_max_len :: "ecu_config \<Rightarrow> int" where
  "pump_max_len cfg = max_payload_bytes (doip cfg) + 4 + FRAME_LEN_SLACK"

definition pump_too_large ::
    "ecu_config \<Rightarrow> ('p, 'm world_scheme) doip_dispatcher \<Rightarrow> nat \<Rightarrow> ('m world_scheme, pump_result) py" where
  "pump_too_large cfg t i =
     seq (send_frame cfg t i PT_HEADER_NACK [word_of_int NACK_GENERIC_MESSAGE_TOO_LARGE] VER) (ret CloseIt)"

text \<open>How the pump of \<open>i\<close> goes on: reading, waiting for a probe, or through the cleanup of \<open>run\<close>,
  which every exception reaches too. A denial after the probe closes like one before it.\<close>

definition pump_resume ::
    "ecu_config \<Rightarrow> ('p, 'm world_scheme) doip_dispatcher \<Rightarrow> nat \<Rightarrow> int \<Rightarrow> nat \<Rightarrow> bool \<Rightarrow> 'm world_scheme \<Rightarrow> 'm world_scheme" where
  "pump_resume cfg t i src j alive w =
     (case close_on_denial (ra_resume cfg t i src j alive) w of
        (Inr Continue, w') \<Rightarrow> upd_conn i (\<lambda>c. c\<lparr>c_pump := PReading\<rparr>) w'
      | (_, w') \<Rightarrow> run_finally (uds cfg) i w')"

definition pump_continue ::
    "ecu_config \<Rightarrow> ('p, 'm world_scheme) doip_dispatcher \<Rightarrow> nat \<Rightarrow> pump_result res \<times> 'm world_scheme \<Rightarrow> 'm world_scheme" where
  "pump_continue cfg t i rw =
     (case rw of
        (Inr Continue, w) \<Rightarrow> w
      | (Inr (Probe src j), w) \<Rightarrow>
          (case probe_begin cfg t j w of
             (Inr (e, True), w') \<Rightarrow>
               upd_conn i (\<lambda>c. c\<lparr>c_pump := PProbing src j e (clock w' + alive_check_timeout_ms (doip cfg))\<rparr>) w'
           | (Inr (e, False), w') \<Rightarrow> pump_resume cfg t i src j False w'
           | (Inl _, w') \<Rightarrow> run_finally (uds cfg) i w')
      | (_, w) \<Rightarrow> run_finally (uds cfg) i w)"

section \<open>The UDS worker\<close>

definition uds_responder ::
    "ecu_config \<Rightarrow> ('p, 'm world_scheme) doip_dispatcher \<Rightarrow> nat \<Rightarrow> int \<Rightarrow> int \<Rightarrow> bytes \<Rightarrow> ('m world_scheme, unit) py" where
  "uds_responder cfg t i src ver response =
     bnd (lift (pack_HH (ecu_logical_addr (doip cfg)) src)) (\<lambda>a.
     send_frame cfg t i PT_DIAGNOSTIC_MESSAGE (a @ response) ver)"

text \<open>One round of \<open>_uds_worker\<close>; \<open>None\<close> when the handler never returns.\<close>

definition worker_round ::
    "ecu_config \<Rightarrow> ('p, 'm world_scheme) dispatcher \<Rightarrow> ('p, 'm world_scheme) doip_dispatcher \<Rightarrow> int option
       \<Rightarrow> ('m world_scheme, unit) py \<Rightarrow> nat \<Rightarrow> uds_request \<Rightarrow> int \<Rightarrow> 'm world_scheme \<Rightarrow> 'm world_scheme option" where
  "worker_round cfg d t dur interrupted i req ver w =
     (let respond = uds_responder cfg t i (source_addr req) ver in
      case c_state (conns w i) of
        None \<Rightarrow> Some w
      | Some r \<Rightarrow>
          (case resolve_uds cfg d respond dur interrupted req r w of
             None \<Rightarrow> None
           | Some (Inr None, w') \<Rightarrow> Some w'
           | Some (Inr (Some b), w') \<Rightarrow>
               (case respond b w' of
                  (Inl CancelledError, w'') \<Rightarrow> Some (upd_conn i (\<lambda>c. c\<lparr>worker_running := False\<rparr>) w'')
                | (_, w'') \<Rightarrow> Some w'')
           | Some (Inl (AbortConnectionAfterResponse b), w') \<Rightarrow>
               (case respond b w' of
                  (Inl _, w'') \<Rightarrow> Some (upd_conn i (\<lambda>c. c\<lparr>worker_running := False\<rparr>) w'')
                | (Inr _, w'') \<Rightarrow> Some (finalize_conn True i w''))
           | Some (Inl CancelledError, w') \<Rightarrow> Some (upd_conn i (\<lambda>c. c\<lparr>worker_running := False\<rparr>) w')
           | Some (Inl _, w') \<Rightarrow> Some w'))"

definition worker_step ::
    "ecu_config \<Rightarrow> ('p, 'm world_scheme) dispatcher \<Rightarrow> ('p, 'm world_scheme) doip_dispatcher \<Rightarrow> int option
       \<Rightarrow> ('m world_scheme, unit) py \<Rightarrow> nat \<Rightarrow> 'm world_scheme \<Rightarrow> 'm world_scheme option" where
  "worker_step cfg d t dur interrupted i w =
     (case uds_queue (conns w i) of
        [] \<Rightarrow> None
      | (req, ver) # rest \<Rightarrow>
          worker_round cfg d t dur interrupted i req ver (upd_conn i (\<lambda>c. c\<lparr>uds_queue := rest\<rparr>) w))"

section \<open>Interleavings\<close>

definition new_world :: "ecu_config \<Rightarrow> world" where
  "new_world cfg =
     ecu.extend (new_ecu cfg)
       (world.fields (\<lambda>_. (new_conn (doip cfg) 0)\<lparr>c_pump := PDone\<rparr>) 0 [] 0 0 [])"

abbreviation reading :: "'m world_scheme \<Rightarrow> nat \<Rightarrow> bool" where
  "reading w i \<equiv> i < next_conn w \<and> c_pump (conns w i) = PReading"

text \<open>\<open>I\<close> are the effects a cancelled handler may have had; frames are those \<open>read_frame\<close> returns.\<close>

inductive ecu_step ::
    "ecu_config \<Rightarrow> ('p, 'm world_scheme) dispatcher \<Rightarrow> ('p, 'm world_scheme) doip_dispatcher
       \<Rightarrow> ('m world_scheme, unit) py set \<Rightarrow> 'm world_scheme \<Rightarrow> 'm world_scheme \<Rightarrow> bool"
  for cfg d t I where
  Accept: "ecu_step cfg d t I w (accept_conn cfg w)"
| Frame: "reading w i \<Longrightarrow> 8 \<le> length fr \<Longrightarrow> int (length fr) \<le> 8 + pump_max_len cfg \<Longrightarrow>
     ecu_step cfg d t I w (pump_continue cfg t i (pump_frame cfg t i fr w))"
| TooLarge: "reading w i \<Longrightarrow> ecu_step cfg d t I w (pump_continue cfg t i (pump_too_large cfg t i w))"
| Eof: "reading w i \<Longrightarrow> ecu_step cfg d t I w (run_finally (uds cfg) i w)"
| ProbeAnswered: "c_pump (conns w i) = PProbing src j e dl \<Longrightarrow> e \<in> set (set_events w) \<Longrightarrow>
     ecu_step cfg d t I w (pump_resume cfg t i src j True w)"
| ProbeTimeout: "c_pump (conns w i) = PProbing src j e dl \<Longrightarrow> e \<notin> set (set_events w) \<Longrightarrow> dl \<le> clock w \<Longrightarrow>
     ecu_step cfg d t I w (pump_resume cfg t i src j False w)"
| Work: "worker_running (conns w i) \<Longrightarrow> interrupted \<in> I \<Longrightarrow>
     worker_step cfg d t dur interrupted i w = Some w' \<Longrightarrow> ecu_step cfg d t I w w'"
| S3: "s3_timer (sess w r) \<noteq> None \<Longrightarrow> ecu_step cfg d t I w (s3_expiry (uds cfg) r w)"
| Supervise: "ecu_step cfg d t I w (supervise i w)"
| Tick: "0 < dt \<Longrightarrow> ecu_step cfg d t I w (w\<lparr>clock := clock w + dt\<rparr>)"

end
