(* ===== verification/Session_Binding.thy ===== *)
theory Session_Binding
  imports Ecu_Session
begin

text \<open>
  An abstract machine for what ties sockets to testers (\<open>bstate\<close>, \<open>bstep\<close>): activation, the
  registry, the request queues and the state of each pump. The detailed connection machine of
  \<^verbatim>\<open>Ecu_Session\<close> refines it: every step of \<open>ecu_step\<close> is a sequence of steps of \<open>bstep\<close>, provided
  plugin hooks use only what their contexts offer (they may change the diagnostic state, send and
  close, but not rebind sockets). Safety of the binding is then an invariant of the abstract
  machine.
\<close>

section \<open>The abstract machine\<close>

record bstate =
  b_act :: "nat \<Rightarrow> bool"
  b_tester :: "nat \<Rightarrow> int option"
  b_state :: "nat \<Rightarrow> nat option"
  b_queue :: "nat \<Rightarrow> (uds_request \<times> int) list"
  b_pump :: "nat \<Rightarrow> pump"
  b_reg :: registry
  b_next :: nat

definition binding :: "'m world_scheme \<Rightarrow> bstate" where
  "binding w =
     \<lparr>b_act = (\<lambda>i. c_activated (conns w i)), b_tester = (\<lambda>i. c_tester (conns w i)),
      b_state = (\<lambda>i. c_state (conns w i)), b_queue = (\<lambda>i. uds_queue (conns w i)),
      b_pump = (\<lambda>i. c_pump (conns w i)), b_reg = registry w, b_next = next_conn w\<rparr>"

definition tester_ok :: "ecu_config \<Rightarrow> int \<Rightarrow> bool" where
  "tester_ok cfg a \<longleftrightarrow> fst (tester_addr_range (doip cfg)) \<le> a \<and> a \<le> snd (tester_addr_range (doip cfg))"

definition request_ok :: "ecu_config \<Rightarrow> int option \<Rightarrow> uds_request \<Rightarrow> bool" where
  "request_ok cfg tester req \<longleftrightarrow>
     tester = Some (source_addr req) \<and> raw req \<noteq> [] \<and> int (length (raw req)) \<le> max_payload_bytes (doip cfg)
     \<and> (target_addr req = ecu_logical_addr (doip cfg) \<or> functional req)"

inductive bstep :: "ecu_config \<Rightarrow> bstate \<Rightarrow> bstate \<Rightarrow> bool" for cfg where
  b_connect: "bstep cfg b (b\<lparr>b_act := (b_act b)(b_next b := False), b_tester := (b_tester b)(b_next b := None),
     b_state := (b_state b)(b_next b := None), b_queue := (b_queue b)(b_next b := []),
     b_pump := (b_pump b)(b_next b := PReading), b_next := b_next b + 1\<rparr>)"
| b_enqueue: "b_act b i \<Longrightarrow> request_ok cfg (b_tester b i) req \<Longrightarrow> length (b_queue b i) < UDS_QUEUE_MAXSIZE \<Longrightarrow>
     bstep cfg b (b\<lparr>b_queue := (b_queue b)(i := b_queue b i @ [(req, v)])\<rparr>)"
| b_pop: "b_queue b i = x # xs \<Longrightarrow> bstep cfg b (b\<lparr>b_queue := (b_queue b)(i := xs)\<rparr>)"
| b_probe: "\<not> b_act b i \<Longrightarrow> b_pump b i = PReading \<Longrightarrow> i < b_next b \<Longrightarrow> tester_ok cfg src \<Longrightarrow> j \<noteq> i \<Longrightarrow>
     bstep cfg b (b\<lparr>b_pump := (b_pump b)(i := PProbing src j e dl)\<rparr>)"
| b_read: "b_pump b i = PProbing src j e dl \<Longrightarrow> bstep cfg b (b\<lparr>b_pump := (b_pump b)(i := PReading)\<rparr>)"
| b_bind: "\<not> b_act b i \<Longrightarrow> b_pump b i = PReading \<Longrightarrow> i < b_next b \<Longrightarrow> tester_ok cfg src \<Longrightarrow>
     int (registry_len (b_reg b)) < max_concurrent_sessions (doip cfg) \<Longrightarrow>
     bstep cfg b (b\<lparr>b_act := (b_act b)(i := True), b_tester := (b_tester b)(i := Some src),
       b_state := (b_state b)(i := Some r), b_reg := registry_register src i (b_reg b)\<rparr>)"
| b_unregister: "b_tester b i = Some a \<Longrightarrow>
     bstep cfg b (b\<lparr>b_reg := registry_unregister a i (b_reg b)\<rparr>)"
| b_done: "(\<And>a. registry_lookup (b_reg b) a \<noteq> Some i) \<Longrightarrow>
     bstep cfg b (b\<lparr>b_pump := (b_pump b)(i := PDone)\<rparr>)"

abbreviation bsteps :: "ecu_config \<Rightarrow> bstate \<Rightarrow> bstate \<Rightarrow> bool" where
  "bsteps cfg \<equiv> (bstep cfg)\<^sup>*\<^sup>*"

section \<open>Its invariant\<close>

definition binding_ok :: "ecu_config \<Rightarrow> bstate \<Rightarrow> bool" where
  "binding_ok cfg b \<longleftrightarrow>
     registry_wf (b_reg b)
     \<and> int (registry_len (b_reg b)) \<le> max 0 (max_concurrent_sessions (doip cfg))
     \<and> (\<forall>a i. registry_lookup (b_reg b) a = Some i \<longrightarrow>
           b_act b i \<and> b_tester b i = Some a \<and> i < b_next b \<and> b_pump b i \<noteq> PDone)
     \<and> (\<forall>i. length (b_queue b i) \<le> UDS_QUEUE_MAXSIZE)
     \<and> (\<forall>i. \<forall>x \<in> set (b_queue b i). b_act b i \<and> request_ok cfg (b_tester b i) (fst x))
     \<and> (\<forall>i. if b_act b i then b_state b i \<noteq> None \<and> (\<exists>a. b_tester b i = Some a \<and> tester_ok cfg a)
            else b_tester b i = None)
     \<and> (\<forall>i src j e dl. b_pump b i = PProbing src j e dl \<longrightarrow>
           \<not> b_act b i \<and> tester_ok cfg src \<and> i < b_next b \<and> j \<noteq> i)
     \<and> (\<forall>i. b_next b \<le> i \<longrightarrow> \<not> b_act b i \<and> b_pump b i = PDone)"

lemma binding_okD:
  assumes "binding_ok cfg b"
  shows "registry_wf (b_reg b)"
    "int (registry_len (b_reg b)) \<le> max 0 (max_concurrent_sessions (doip cfg))"
    "registry_lookup (b_reg b) a = Some i \<Longrightarrow>
       b_act b i \<and> b_tester b i = Some a \<and> i < b_next b \<and> b_pump b i \<noteq> PDone"
    "length (b_queue b i) \<le> UDS_QUEUE_MAXSIZE"
    "x \<in> set (b_queue b i) \<Longrightarrow> b_act b i \<and> request_ok cfg (b_tester b i) (fst x)"
    "b_act b i \<Longrightarrow> b_state b i \<noteq> None \<and> (\<exists>a. b_tester b i = Some a \<and> tester_ok cfg a)"
    "\<not> b_act b i \<Longrightarrow> b_tester b i = None"
    "b_pump b i = PProbing src j e dl \<Longrightarrow> \<not> b_act b i \<and> tester_ok cfg src \<and> i < b_next b \<and> j \<noteq> i"
    "b_next b \<le> i \<Longrightarrow> \<not> b_act b i \<and> b_pump b i = PDone"
  using assms unfolding binding_ok_def by (auto split: if_splits) metis+

lemma binding_okI:
  assumes "registry_wf (b_reg b)"
    "int (registry_len (b_reg b)) \<le> max 0 (max_concurrent_sessions (doip cfg))"
    "\<And>a i. registry_lookup (b_reg b) a = Some i \<Longrightarrow>
       b_act b i \<and> b_tester b i = Some a \<and> i < b_next b \<and> b_pump b i \<noteq> PDone"
    "\<And>i. length (b_queue b i) \<le> UDS_QUEUE_MAXSIZE"
    "\<And>i x. x \<in> set (b_queue b i) \<Longrightarrow> b_act b i \<and> request_ok cfg (b_tester b i) (fst x)"
    "\<And>i. b_act b i \<Longrightarrow> b_state b i \<noteq> None \<and> (\<exists>a. b_tester b i = Some a \<and> tester_ok cfg a)"
    "\<And>i. \<not> b_act b i \<Longrightarrow> b_tester b i = None"
    "\<And>i src j e dl. b_pump b i = PProbing src j e dl \<Longrightarrow> \<not> b_act b i \<and> tester_ok cfg src \<and> i < b_next b \<and> j \<noteq> i"
    "\<And>i. b_next b \<le> i \<Longrightarrow> \<not> b_act b i \<and> b_pump b i = PDone"
  shows "binding_ok cfg b"
  using assms unfolding binding_ok_def by (auto split: if_splits)

lemma binding_ok_connect:
  assumes ok: "binding_ok cfg b"
  shows "binding_ok cfg (b\<lparr>b_act := (b_act b)(b_next b := False), b_tester := (b_tester b)(b_next b := None),
     b_state := (b_state b)(b_next b := None), b_queue := (b_queue b)(b_next b := []),
     b_pump := (b_pump b)(b_next b := PReading), b_next := b_next b + 1\<rparr>)"
  by (rule binding_okI)
    (use binding_okD [OF ok] in \<open>auto simp: le_Suc_eq less_Suc_eq split: if_splits\<close>)

lemma binding_ok_bind:
  assumes ok: "binding_ok cfg b" and i: "\<not> b_act b i" "b_pump b i = PReading" "i < b_next b"
    and src: "tester_ok cfg src" "int (registry_len (b_reg b)) < max_concurrent_sessions (doip cfg)"
    and b': "b' = b\<lparr>b_act := (b_act b)(i := True), b_tester := (b_tester b)(i := Some src),
       b_state := (b_state b)(i := Some r), b_reg := registry_register src i (b_reg b)\<rparr>"
  shows "binding_ok cfg b'"
proof -
  note D = binding_okD [OF ok]
  have notreg: "registry_lookup (b_reg b) a \<noteq> Some i" for a using D(3) i(1) by blast
  have q: "b_queue b i = []"
  proof (cases "b_queue b i")
    case (Cons x xs)
    then show ?thesis using D(5) [of x i] i(1) by auto
  qed
  show ?thesis
  proof (rule binding_okI)
    show "b_act b' k \<and> b_tester b' k = Some a \<and> k < b_next b' \<and> b_pump b' k \<noteq> PDone"
      if "registry_lookup (b_reg b') a = Some k" for a k
      using that D(3) i notreg by (auto simp: b' ecu_reg.look_reg split: if_splits)
    show "int (registry_len (b_reg b')) \<le> max 0 (max_concurrent_sessions (doip cfg))"
      using src(2) D(1) by (auto simp: b' ecu_reg.sz_reg)
  qed (use D i src q in \<open>auto simp: b' ecu_reg.wf_reg split: if_splits\<close>)
qed

lemma binding_ok_enqueue:
  assumes ok: "binding_ok cfg b" and "b_act b i" "request_ok cfg (b_tester b i) req"
    "length (b_queue b i) < UDS_QUEUE_MAXSIZE"
  shows "binding_ok cfg (b\<lparr>b_queue := (b_queue b)(i := b_queue b i @ [(req, v)])\<rparr>)"
  by (rule binding_okI) (use binding_okD [OF ok] assms(2-) in \<open>auto split: if_splits\<close>)

lemma binding_ok_pop:
  assumes ok: "binding_ok cfg b" and "b_queue b i = x # xs"
  shows "binding_ok cfg (b\<lparr>b_queue := (b_queue b)(i := xs)\<rparr>)"
proof (rule binding_okI)
  show "length (b_queue (b\<lparr>b_queue := (b_queue b)(i := xs)\<rparr>) k) \<le> UDS_QUEUE_MAXSIZE" for k
    using binding_okD(4) [OF ok, of k] assms(2) by auto
  show "b_act (b\<lparr>b_queue := (b_queue b)(i := xs)\<rparr>) k
      \<and> request_ok cfg (b_tester (b\<lparr>b_queue := (b_queue b)(i := xs)\<rparr>) k) (fst y)"
    if "y \<in> set (b_queue (b\<lparr>b_queue := (b_queue b)(i := xs)\<rparr>) k)" for k y
  proof -
    have "y \<in> set (b_queue b k)" using that assms(2) by (auto split: if_splits)
    from binding_okD(5) [OF ok this] show ?thesis by simp
  qed
qed (use binding_okD [OF ok] assms(2) in \<open>auto split: if_splits\<close>)

lemma binding_ok_probe:
  assumes ok: "binding_ok cfg b" and "\<not> b_act b i" "i < b_next b" "tester_ok cfg src" "j \<noteq> i"
  shows "binding_ok cfg (b\<lparr>b_pump := (b_pump b)(i := PProbing src j e dl)\<rparr>)"
  by (rule binding_okI) (use binding_okD [OF ok] assms(2-) in \<open>auto split: if_splits\<close>)

lemma binding_ok_read:
  assumes ok: "binding_ok cfg b" and "b_pump b i = PProbing src j e dl"
  shows "binding_ok cfg (b\<lparr>b_pump := (b_pump b)(i := PReading)\<rparr>)"
  by (rule binding_okI) (use binding_okD [OF ok] assms(2-) in \<open>auto split: if_splits\<close>)

lemma binding_ok_unregister:
  assumes ok: "binding_ok cfg b"
  shows "binding_ok cfg (b\<lparr>b_reg := registry_unregister a i (b_reg b)\<rparr>)"
proof (rule binding_okI)
  note D = binding_okD [OF ok]
  show "int (registry_len (b_reg (b\<lparr>b_reg := registry_unregister a i (b_reg b)\<rparr>)))
      \<le> max 0 (max_concurrent_sessions (doip cfg))"
    using ecu_reg.sz_unreg_le [OF D(1), of a i] D(2) by simp
qed (use binding_okD [OF ok] in
    \<open>auto simp: ecu_reg.wf_unreg ecu_reg.look_unreg split: if_splits\<close>)

lemma binding_ok_done:
  assumes ok: "binding_ok cfg b" and "\<And>a. registry_lookup (b_reg b) a \<noteq> Some i"
  shows "binding_ok cfg (b\<lparr>b_pump := (b_pump b)(i := PDone)\<rparr>)"
  by (rule binding_okI) (use binding_okD [OF ok] assms(2) in \<open>auto split: if_splits\<close>)

lemma binding_ok_step: "bstep cfg b b' \<Longrightarrow> binding_ok cfg b \<Longrightarrow> binding_ok cfg b'"
proof (induction rule: bstep.induct)
  case (b_connect b)
  then show ?case by (rule binding_ok_connect)
next
  case (b_enqueue b i req v)
  then show ?case by (intro binding_ok_enqueue)
next
  case (b_pop b i x xs)
  then show ?case by (intro binding_ok_pop)
next
  case (b_probe b i src j e dl)
  then show ?case by (intro binding_ok_probe)
next
  case (b_read b i src j e dl)
  then show ?case by (intro binding_ok_read)
next
  case (b_bind b i src r)
  then show ?case by (intro binding_ok_bind [OF _ _ _ _ _ _ refl])
next
  case (b_unregister b i a)
  then show ?case by (intro binding_ok_unregister)
next
  case (b_done b i)
  then show ?case by (intro binding_ok_done)
qed

lemma binding_ok_steps: "bsteps cfg b b' \<Longrightarrow> binding_ok cfg b \<Longrightarrow> binding_ok cfg b'"
  by (induction rule: rtranclp_induct) (auto intro: binding_ok_step)

section \<open>What hooks may do\<close>

text \<open>Hooks keep the invariant of the diagnostic core and leave the binding alone.\<close>

definition tame :: "ecu_config \<Rightarrow> ('m world_scheme, 'a) py \<Rightarrow> bool" where
  "tame cfg m \<longleftrightarrow> keeps (core_inv (uds cfg)) m \<and> (\<forall>b. keeps (\<lambda>w. binding w = b) m)"

definition hooks_tame ::
    "ecu_config \<Rightarrow> ('p, 'm world_scheme) dispatcher \<Rightarrow> ('p, 'm world_scheme) doip_dispatcher
       \<Rightarrow> ('m world_scheme, unit) py set \<Rightarrow> bool" where
  "hooks_tame cfg d t I \<longleftrightarrow>
     (\<forall>h \<in> set (all_hooks d). \<forall>args. tame cfg (h_method h args))
     \<and> (\<forall>k. \<forall>h \<in> set (lookup_list t k). \<forall>args. tame cfg (h_method h args))
     \<and> (\<forall>m \<in> I. tame cfg m)"

abbreviation doip_tame :: "ecu_config \<Rightarrow> ('p, 'm world_scheme) doip_dispatcher \<Rightarrow> bool" where
  "doip_tame cfg t \<equiv> (\<forall>k. \<forall>h \<in> set (lookup_list t k). \<forall>args. tame cfg (h_method h args))"

abbreviation at_binding :: "ecu_config \<Rightarrow> bstate \<Rightarrow> 'm world_scheme \<Rightarrow> bool" where
  "at_binding cfg b w \<equiv> core_inv (uds cfg) w \<and> binding w = b"

lemma keeps_conj: "keeps P m \<Longrightarrow> keeps Q m \<Longrightarrow> keeps (\<lambda>w. P w \<and> Q w) m"
  by (simp add: keeps_def)

lemma tame_keeps: "tame cfg m \<Longrightarrow> keeps (at_binding cfg b) m"
  by (simp add: tame_def keeps_conj)

lemma tame_result: "tame cfg m \<Longrightarrow> core_inv (uds cfg) w \<Longrightarrow> m w = (r, w') \<Longrightarrow> at_binding cfg (binding w) w'"
  using keeps_result [OF tame_keeps [of cfg m "binding w"]] by blast

lemma tameI:
  assumes "\<And>w. core_inv (uds cfg) w \<Longrightarrow> core_inv (uds cfg) (snd (m w))"
    and "\<And>w. binding (snd (m w)) = binding w"
  shows "tame cfg m"
  using assms by (simp add: tame_def keeps_def)

named_theorems tame_rules \<open>introduction rules for \<open>tame\<close>\<close>

lemma tame_basic [tame_rules]:
  "tame cfg (ret a)" "tame cfg (raise e)" "tame cfg (lift r)" "tame cfg (gets f)" "tame cfg (Pair x)"
  by (simp_all add: tame_def keeps_def)

lemma tame_bnd [tame_rules]: "tame cfg m \<Longrightarrow> (\<And>a. tame cfg (k a)) \<Longrightarrow> tame cfg (bnd m k)"
  by (simp add: tame_def keeps_bnd)

lemma tame_seq [tame_rules]: "tame cfg m \<Longrightarrow> tame cfg n \<Longrightarrow> tame cfg (seq m n)"
  by (simp add: tame_def keeps_seq)

lemma tame_if [tame_rules]:
  "(b \<Longrightarrow> tame cfg m) \<Longrightarrow> (\<not> b \<Longrightarrow> tame cfg n) \<Longrightarrow> tame cfg (if b then m else n)"
  by simp

lemma tame_try [tame_rules]: "tame cfg m \<Longrightarrow> (\<And>e. tame cfg (h e)) \<Longrightarrow> tame cfg (try_catch m h)"
  by (simp add: tame_def keeps_try_catch)

lemma tame_modify:
  "(\<And>w. core_inv (uds cfg) w \<Longrightarrow> core_inv (uds cfg) (f w)) \<Longrightarrow> (\<And>w. binding (f w) = binding w) \<Longrightarrow>
     tame cfg (modify f)"
  by (simp add: tame_def keeps_def)

section \<open>How the operations act on the binding\<close>

lemma core_inv_world [simp]:
  "core_inv u (w\<lparr>conns := cs\<rparr>) = core_inv u w" "core_inv u (w\<lparr>next_conn := n\<rparr>) = core_inv u w"
  "core_inv u (w\<lparr>registry := rg\<rparr>) = core_inv u w" "core_inv u (w\<lparr>clock := tm\<rparr>) = core_inv u w"
  "core_inv u (w\<lparr>next_event := e\<rparr>) = core_inv u w" "core_inv u (w\<lparr>set_events := es\<rparr>) = core_inv u w"
  "core_inv u (upd_conn i f w) = core_inv u w"
  by (simp_all add: core_inv_def upd_conn_def)

lemma binding_ecu [simp]:
  "binding (w\<lparr>store := a\<rparr>) = binding w" "binding (w\<lparr>routine_data := rd\<rparr>) = binding w"
  "binding (w\<lparr>session_states := ss\<rparr>) = binding w" "binding (w\<lparr>heap := h\<rparr>) = binding w"
  "binding (w\<lparr>next_ref := n\<rparr>) = binding w" "binding (w\<lparr>clock := tm\<rparr>) = binding w"
  "binding (w\<lparr>next_event := e\<rparr>) = binding w" "binding (w\<lparr>set_events := es\<rparr>) = binding w"
  "binding (upd_sess r f w) = binding w"
  by (simp_all add: binding_def upd_sess_def)

lemma binding_core [simp]:
  "binding (maybe_drop_session_state u a st w) = binding w"
  "binding (drop_session_state a w) = binding w"
  "binding (core_reset cl w) = binding w"
  "binding (s3_expiry u r w) = binding w"
  "binding (snd (session_for u ad w)) = binding w"
  by (auto simp: maybe_drop_session_state_def drop_session_state_def core_reset_def s3_expiry_def Let_def
      session_for_def new_session_def split: option.splits)

text \<open>Connection updates that touch none of the bound fields.\<close>

definition unbound_upd :: "(conn \<Rightarrow> conn) \<Rightarrow> bool" where
  "unbound_upd f \<longleftrightarrow> (\<forall>c. c_activated (f c) = c_activated c \<and> c_tester (f c) = c_tester c
     \<and> c_state (f c) = c_state c \<and> uds_queue (f c) = uds_queue c \<and> c_pump (f c) = c_pump c)"

lemma binding_upd_conn: "unbound_upd f \<Longrightarrow> binding (upd_conn i f w) = binding w"
  by (auto simp: binding_def upd_conn_def unbound_upd_def fun_eq_iff)

lemma binding_small [simp]:
  "binding (bump_general dc i w) = binding w"
  "binding (arm_general dc i w) = binding w"
  "binding (finalize_conn ab i w) = binding w"
  "binding (supervise i w) = binding w"
  "binding (alive_response i w) = binding w"
  "binding (drop_own_state u i w) = binding w"
  by (auto simp: bump_general_def arm_general_def finalize_conn_def supervise_def alive_response_def
      drop_own_state_def Let_def binding_upd_conn unbound_upd_def split: option.splits)

lemma core_inv_small [simp]:
  "core_inv u (bump_general dc i w) = core_inv u w"
  "core_inv u (arm_general dc i w) = core_inv u w"
  "core_inv u (finalize_conn ab i w) = core_inv u w"
  "core_inv u (supervise i w) = core_inv u w"
  "core_inv u (alive_response i w) = core_inv u w"
  by (auto simp: bump_general_def arm_general_def finalize_conn_def supervise_def alive_response_def
      Let_def split: option.splits)

lemma core_inv_drop_own: "core_inv u w \<Longrightarrow> core_inv u (drop_own_state u i w)"
  by (simp add: drop_own_state_def Let_def core_inv_maybe_drop)

lemma core_inv_unregister [simp]: "core_inv u (unregister_own i w) = core_inv u w"
  by (simp add: unregister_own_def split: option.splits)

definition b_unreg :: "nat \<Rightarrow> bstate \<Rightarrow> bstate" where
  "b_unreg i b = (case b_tester b i of None \<Rightarrow> b
     | Some a \<Rightarrow> b\<lparr>b_reg := registry_unregister a i (b_reg b)\<rparr>)"

lemma b_tester_binding [simp]: "b_tester (binding w) i = c_tester (conns w i)"
  "b_act (binding w) i = c_activated (conns w i)" "b_pump (binding w) i = c_pump (conns w i)"
  "b_queue (binding w) i = uds_queue (conns w i)" "b_state (binding w) i = c_state (conns w i)"
  "b_reg (binding w) = registry w" "b_next (binding w) = next_conn w"
  by (simp_all add: binding_def)

lemma binding_unregister: "binding (unregister_own i w) = b_unreg i (binding w)"
  by (auto simp: unregister_own_def b_unreg_def binding_def split: option.splits)

lemma binding_evict: "binding (evict u i w) = b_unreg i (binding w)"
  unfolding evict_def Let_def binding_unregister
  by (simp add: binding_upd_conn unbound_upd_def)

lemma binding_finally:
  "binding (run_finally u i w) = (let b = b_unreg i (binding w) in b\<lparr>b_pump := (b_pump b)(i := PDone)\<rparr>)"
proof -
  have "binding (upd_conn i (\<lambda>c. c\<lparr>c_closed := True, c_pump := PDone\<rparr>) v) =
      (binding v)\<lparr>b_pump := (b_pump (binding v))(i := PDone)\<rparr>" for v :: "'a world_scheme"
    by (auto simp: binding_def upd_conn_def fun_eq_iff)
  then show ?thesis
    unfolding run_finally_def Let_def binding_unregister
    by (simp add: binding_upd_conn unbound_upd_def b_unreg_def split: option.splits)
qed

lemma core_inv_evict: "core_inv u w \<Longrightarrow> core_inv u (evict u i w)"
  by (simp add: evict_def Let_def core_inv_drop_own)

lemma core_inv_finally: "core_inv u w \<Longrightarrow> core_inv u (run_finally u i w)"
  by (simp add: run_finally_def Let_def core_inv_drop_own)

lemma bsteps_unreg: "bsteps cfg b (b_unreg i b)"
  by (auto simp: b_unreg_def intro: b_unregister split: option.splits)

lemma bsteps_finally:
  assumes ok: "binding_ok cfg (binding w)"
  shows "bsteps cfg (binding w) (binding (run_finally u i w))"
proof -
  let ?b = "b_unreg i (binding w)"
  have "registry_lookup (b_reg ?b) a \<noteq> Some i" for a
  proof
    assume l: "registry_lookup (b_reg ?b) a = Some i"
    have "binding_ok cfg ?b" using bsteps_unreg ok by (rule binding_ok_steps)
    then have "b_tester ?b i = Some a" using binding_okD(3) l by blast
    then have "c_tester (conns w i) = Some a" by (auto simp: b_unreg_def split: option.splits)
    with l binding_okD(1) [OF ok] show False
      by (simp add: b_unreg_def ecu_reg.look_unreg split: if_splits)
  qed
  then have "bstep cfg ?b (?b\<lparr>b_pump := (b_pump ?b)(i := PDone)\<rparr>)" by (rule b_done)
  with bsteps_unreg [of cfg "binding w" i] show ?thesis
    by (simp add: binding_finally Let_def)
qed

end
