(* ===== verification/Session_Refine.thy ===== *)
theory Session_Refine
  imports Session_Binding
begin

text \<open>
  The refinement proof: the operations of \<^verbatim>\<open>Ecu_Session\<close>, under tame hooks, act on the binding as
  the abstract machine \<open>bstep\<close> does. The consequences for every reachable state of the connection
  machine follow: capacity, who may enqueue diagnostic requests, bounded queues.
\<close>

section \<open>Tame operations\<close>

lemma doip_keep:
  "doip_tame cfg t \<Longrightarrow> doip_hooks_keep (core_inv (uds cfg)) t"
  "doip_tame cfg t \<Longrightarrow> doip_hooks_keep (\<lambda>w. binding w = b) t"
  by (auto simp: doip_hooks_keep_def tame_def)

lemma tame_hooks [tame_rules]:
  assumes "doip_tame cfg t"
  shows "tame cfg (resolve_routing_activation t ra p)" "tame cfg (resolve_diagnostic_ack t rq p)"
    "tame cfg (notify_frame_rx t pt pl p)" "tame cfg (notify_frame_tx t pt pl p)"
  using keeps_doip_hooks [OF doip_keep(1) [OF assms]] keeps_doip_hooks [OF doip_keep(2) [OF assms]]
  by (auto simp: tame_def)

lemma tame_upd_conn: "unbound_upd f \<Longrightarrow> tame cfg (modify (upd_conn i f))"
  by (rule tame_modify) (simp_all add: binding_upd_conn)

lemma tame_send_raw [tame_rules]: "doip_tame cfg t \<Longrightarrow> tame cfg (send_raw cfg t i fr)"
  unfolding send_raw_def
  by (intro tame_rules tame_modify tame_upd_conn) (auto simp: unbound_upd_def)

lemma tame_sends [tame_rules]:
  assumes "doip_tame cfg t"
  shows "tame cfg (send_frame cfg t i pt pl ver)" "tame cfg (send_response cfg t i pt pl)"
    "tame cfg (respond_activation cfg t i src code)" "tame cfg (deny_activation cfg t i src code)"
    "tame cfg (diag_nack cfg t i src code)" "tame cfg (uds_responder cfg t i src ver resp)"
  unfolding send_frame_def send_response_def respond_activation_def deny_activation_def diag_nack_def
    uds_responder_def
  using assms by (intro tame_rules; assumption)+

lemma keeps_upd_session_binding [keeps_rules]: "keeps (\<lambda>w. binding w = b) (upd_session c f)"
  unfolding upd_session_def by (rule keeps_modify) simp

lemma binding_services [keeps_rules]:
  "keeps (\<lambda>w. binding w = b) (diagnostic_session_control cfg c)"
  "keeps (\<lambda>w. binding w = b) (tester_present cfg c)"
  "keeps (\<lambda>w. binding w = b) (security_access cfg c)"
  unfolding diagnostic_session_control_def tester_present_def security_access_def request_seed_def
    send_key_def Let_def
  by (intro keeps_rules)+

lemma binding_ecu_reset [keeps_rules]: "keeps (\<lambda>w. binding w = b) (ecu_reset cfg c)"
  unfolding ecu_reset_def Let_def by (intro keeps_rules keeps_modify) simp_all

lemma binding_core_handle [keeps_rules]:
  "hooks_keep (\<lambda>w. binding w = b) d \<Longrightarrow> keeps (\<lambda>w. binding w = b) (core_handle cfg d c)"
  unfolding core_handle_def Let_def by (intro keeps_rules) simp_all

lemma keeps_run_observers [keeps_rules]:
  "(\<And>h. h \<in> set hs \<Longrightarrow> keeps P (h_method h (ReqArgs req c))) \<Longrightarrow> keeps P (run_observers u req c hs)"
proof (induction hs)
  case Nil
  then show ?case by (simp add: keeps_rules)
next
  case (Cons h hs)
  then show ?case unfolding run_observers.simps by (intro keeps_bnd keeps_call_hook) auto
qed

lemma keeps_dispatch:
  assumes h: "hooks_keep P d" and c: "\<And>c. keeps P (core_handle cfg d c)"
  shows "keeps P (dispatch cfg d req r)"
  using h c unfolding dispatch_def Let_def ask_service_def
  by (intro keeps_rules keeps_ladder keeps_call_hook) (auto intro: hooks_keepD)

lemma tame_dispatch:
  assumes "hooks_tame cfg d t I"
  shows "tame cfg (dispatch cfg d req r)"
proof -
  have "hooks_keep (core_inv (uds cfg)) d" "hooks_keep (\<lambda>w. binding w = b) d" for b
    using assms by (auto simp: hooks_tame_def hooks_keep_def tame_def)
  then show ?thesis
    by (simp add: tame_def keeps_dispatch keeps_core_handle binding_core_handle)
qed

lemma tame_repeat [tame_rules]: "tame cfg m \<Longrightarrow> tame cfg (repeat_py n m)"
proof (induction n)
  case 0
  show ?case unfolding repeat_py.simps by (intro tame_rules)
next
  case (Suc n)
  then show ?case unfolding repeat_py.simps by (intro tame_rules)
qed

lemma tame_at: "tame cfg m \<Longrightarrow> at_binding cfg b w \<Longrightarrow> m w = (r, w') \<Longrightarrow> at_binding cfg b w'"
  using tame_result by blast

text \<open>Resolving a request touches the diagnostic state and the wire, not the binding.\<close>

lemma resolve_uds_binding:
  assumes h: "hooks_tame cfg d t I" "interrupted \<in> I"
    and resp: "\<And>b. tame cfg (responder b)"
    and run: "resolve_uds cfg d responder dur interrupted req r w = Some (res, w')"
    and w: "core_inv (uds cfg) w"
  shows "at_binding cfg (binding w) w'"
proof -
  have cut: "tame cfg interrupted" using h by (simp add: hooks_tame_def)
  let ?w = "upd_sess r (refresh_s3 (uds cfg)) w"
  have w1: "at_binding cfg (binding w) ?w"
    using w by (simp add: core_inv_upd state_ok_refresh core_simps)
  from run obtain outcome where
    p2: "dispatch_with_p2 (uds cfg) req responder dur (dispatch cfg d req r) interrupted ?w = Some (outcome, w')"
    by (auto elim: resolve_uds_outcome)
  have "tame cfg (seq (repeat_py n (responder x)) (dispatch cfg d req r))"
    "tame cfg (seq (repeat_py n (responder x)) (seq interrupted (seq (responder y) (ret HNoResponse))))" for n x y
    by (intro tame_rules tame_dispatch [OF h(1)] resp cut)+
  from this [THEN tame_at, OF w1] tame_at [OF tame_dispatch [OF h(1)] w1] p2
  show ?thesis
    by (auto simp: dispatch_with_p2_def Let_def split: if_splits option.splits prod.splits bool.splits)
qed

section \<open>One frame\<close>

text \<open>After the pump handled a frame on connection \<open>i\<close> in binding \<open>b\<close>: a move of the abstract
  machine; a pending probe left the binding as it was.\<close>

definition pump_post :: "ecu_config \<Rightarrow> bstate \<Rightarrow> nat \<Rightarrow> pump_result res \<Rightarrow> 'm world_scheme \<Rightarrow> bool" where
  "pump_post cfg b i res w \<longleftrightarrow>
     core_inv (uds cfg) w \<and> bsteps cfg b (binding w)
     \<and> (\<forall>src j. res = Inr (Probe src j) \<longrightarrow>
          binding w = b \<and> \<not> b_act b i \<and> tester_ok cfg src \<and> j \<noteq> i)"

lemma pump_post_same: "at_binding cfg b w \<Longrightarrow> (\<And>src j. res \<noteq> Inr (Probe src j)) \<Longrightarrow> pump_post cfg b i res w"
  by (simp add: pump_post_def)

lemma valid_tame_then:
  assumes "tame cfg m" and "\<And>src j. x \<noteq> Probe src j"
  shows "valid (at_binding cfg b) (seq m (ret x)) (pump_post cfg b i)"
  by (rule valid_seq_keeps [OF tame_keeps [OF assms(1)] valid_ret])
    (use assms(2) in \<open>auto intro: pump_post_same\<close>)

lemma deny_raises: "\<exists>e. fst (deny_activation cfg t i src code w) = Inl e"
  by (auto simp: deny_activation_def seq_def bnd_def split: prod.splits sum.splits)

lemma valid_deny:
  "doip_tame cfg t \<Longrightarrow>
     valid (at_binding cfg b) (deny_activation cfg t i src code) (\<lambda>r w. at_binding cfg b w \<and> (\<exists>e. r = Inl e))"
proof (rule validI)
  fix w r w' assume t: "doip_tame cfg t" and w: "at_binding cfg b w"
    and run: "deny_activation cfg t i src code w = (r, w')"
  from t have "tame cfg (deny_activation cfg t i src code)" by (intro tame_rules)
  then have "at_binding cfg b w'" using w run by (rule tame_at)
  moreover have "\<exists>e. fst (r, w') = Inl e"
    unfolding run [symmetric] by (rule deny_raises)
  ultimately show "at_binding cfg b w' \<and> (\<exists>e. r = Inl e)" by auto
qed

text \<open>The binding an accepted activation produces.\<close>

definition b_bound :: "nat \<Rightarrow> int \<Rightarrow> nat \<Rightarrow> bstate \<Rightarrow> bstate" where
  "b_bound i src r b =
     b\<lparr>b_act := (b_act b)(i := True), b_tester := (b_tester b)(i := Some src),
       b_state := (b_state b)(i := Some r), b_reg := registry_register src i (b_reg b)\<rparr>"

lemma bind_tester_binding:
  assumes "core_inv (uds cfg) w"
  obtains r where "binding (bind_tester cfg i src w) = b_bound i src r (binding w)"
    "core_inv (uds cfg) (bind_tester cfg i src w)"
proof -
  let ?w1 = "upd_conn i (\<lambda>c. c\<lparr>c_tester := Some src, c_activated := True\<rparr>) w"
  obtain r w2 where sf: "session_for (uds cfg) src ?w1 = (r, w2)" by fastforce
  have w1: "core_inv (uds cfg) ?w1" using assms by simp
  have w2: "core_inv (uds cfg) w2" "binding w2 = binding ?w1"
    using core_inv_session_for [OF w1, of src] binding_core(5) [of "uds cfg" src ?w1] sf by simp_all
  have "core_inv (uds cfg) (upd_sess r (\<lambda>s. s\<lparr>st_activated := True\<rparr>) (upd_conn i (\<lambda>c. c\<lparr>c_state := Some r\<rparr>) w2))"
    using w2 by (intro core_inv_upd) (auto simp: state_ok_def)
  then have 1: "core_inv (uds cfg) (bind_tester cfg i src w)"
    by (simp add: bind_tester_def Let_def sf)
  have b1: "binding ?w1 = (binding w)\<lparr>b_act := (b_act (binding w))(i := True),
      b_tester := (b_tester (binding w))(i := Some src)\<rparr>"
    by (auto simp: binding_def upd_conn_def fun_eq_iff)
  have b2: "binding (v\<lparr>registry := registry_register src i (registry v)\<rparr>) =
      (binding v)\<lparr>b_reg := registry_register src i (b_reg (binding v))\<rparr>" for v :: "'a world_scheme"
    by (simp add: binding_def)
  have b3: "binding (upd_conn i (\<lambda>c. c\<lparr>c_state := Some r\<rparr>) v) =
      (binding v)\<lparr>b_state := (b_state (binding v))(i := Some r)\<rparr>" for v :: "'a world_scheme"
    by (auto simp: binding_def upd_conn_def fun_eq_iff)
  have "binding (bind_tester cfg i src w) = b_bound i src r (binding w)"
    by (simp add: bind_tester_def Let_def sf b2 b3 w2(2) b1 b_bound_def)
  with 1 show thesis by (rule that [rotated])
qed

lemma valid_accept:
  assumes t: "doip_tame cfg t"
  shows "valid (at_binding cfg b) (ra_accept cfg t i src)
    (\<lambda>res w. core_inv (uds cfg) w \<and>
       (binding w = b \<and> (\<exists>e. res = Inl e)
        \<or> int (registry_len (b_reg b)) < max_concurrent_sessions (doip cfg) \<and> (\<exists>r. binding w = b_bound i src r b)))"
  unfolding ra_accept_def
proof (rule valid_gets, goal_cases)
  case (1 s)
  then have len: "registry_len (registry s) = registry_len (b_reg b)" by auto
  show ?case
  proof (cases "int (registry_len (b_reg b)) \<ge> max_concurrent_sessions (doip cfg)")
    case True
    with len show ?thesis
      using valid_deny [OF t, of b i src 1] by (auto intro: valid_weaken)
  next
    case False
    have "valid (\<lambda>w. core_inv (uds cfg) w \<and> (\<exists>r. binding w = b_bound i src r b))
      (respond_activation cfg t i src 0x10)
      (\<lambda>_ w. core_inv (uds cfg) w \<and> (\<exists>r. binding w = b_bound i src r b))"
    proof (rule validI)
      fix w x w' assume w: "core_inv (uds cfg) w \<and> (\<exists>r. binding w = b_bound i src r b)"
        and run: "respond_activation cfg t i src 0x10 w = (x, w')"
      have "tame cfg (respond_activation cfg t i src 0x10)" using t by (intro tame_rules)
      from tame_result [OF this _ run] w show "core_inv (uds cfg) w' \<and> (\<exists>r. binding w' = b_bound i src r b)"
        by auto
    qed
    then have "valid (at_binding cfg b)
      (seq (modify (bind_tester cfg i src)) (respond_activation cfg t i src 0x10))
      (\<lambda>_ w. core_inv (uds cfg) w \<and> (\<exists>r. binding w = b_bound i src r b))"
      by (rule valid_seq_modify [rotated]) (metis bind_tester_binding)
    with False len show ?thesis by (auto intro: valid_weaken)
  qed
qed

lemma valid_seq_ret:
  "valid P m Q \<Longrightarrow> (\<And>u s. Q (Inr u) s \<Longrightarrow> R (Inr x) s) \<Longrightarrow> (\<And>e s. Q (Inl e) s \<Longrightarrow> R (Inl e) s) \<Longrightarrow>
     valid P (seq m (ret x)) R"
  unfolding seq_def by (rule valid_bnd [where R = Q]) (auto intro: valid_ret)

lemma accept_post:
  assumes t: "doip_tame cfg t" and i: "\<not> b_act b i" "b_pump b i = PReading" "i < b_next b" "tester_ok cfg src"
  shows "valid (at_binding cfg b) (seq (ra_accept cfg t i src) (ret Continue)) (pump_post cfg b i)"
proof -
  have "bsteps cfg b (b_bound i src r b)"
    if "int (registry_len (b_reg b)) < max_concurrent_sessions (doip cfg)" for r
    unfolding b_bound_def by (intro r_into_rtranclp b_bind i that)
  then show ?thesis
    by (intro valid_seq_ret [OF valid_accept [OF t]]) (auto simp: pump_post_def)
qed

lemma deny_post:
  "doip_tame cfg t \<Longrightarrow> valid (at_binding cfg b) (deny_activation cfg t i src code) (pump_post cfg b k)"
  by (rule valid_weaken [OF valid_deny]) (auto intro: pump_post_same)

lemma valid_bnd_tame:
  assumes "tame cfg m" "\<And>a. valid (at_binding cfg b) (k a) (pump_post cfg b i)"
  shows "valid (at_binding cfg b) (bnd m k) (pump_post cfg b i)"
  by (rule valid_bnd_keeps [OF tame_keeps [OF assms(1)] assms(2)]) (auto intro: pump_post_same)

lemma ra_begin_post:
  assumes t: "doip_tame cfg t" and i: "b_pump b i = PReading" "i < b_next b"
  shows "valid (at_binding cfg b) (ra_begin cfg t i payload) (pump_post cfg b i)"
proof -
  have act: "valid (at_binding cfg b) (bnd (gets (\<lambda>w. conns w i)) (\<lambda>c.
          if c_activated c \<and> Some src \<noteq> c_tester c then deny_activation cfg t i src 0x02
          else if c_activated c \<and> Some src = c_tester c
            then seq (respond_activation cfg t i src 0x10) (ret Continue)
          else bnd (gets (\<lambda>w. registry_lookup (registry w) src)) (\<lambda>existing.
            case existing of
              Some j \<Rightarrow> if j \<noteq> i then ret (Probe src j)
                         else seq (ra_accept cfg t i src) (ret Continue)
            | None \<Rightarrow> seq (ra_accept cfg t i src) (ret Continue)))) (pump_post cfg b i)"
    if src: "tester_ok cfg src" for src
  proof (rule valid_gets, goal_cases)
    case (1 s)
    then have c: "c_activated (conns s i) = b_act b i" by auto
    show ?case
    proof (cases "c_activated (conns s i)")
      case True
      then show ?thesis
        by (auto intro!: deny_post valid_tame_then tame_rules t)
    next
      case False
      with c have na: "\<not> b_act b i" by simp
      have "valid (at_binding cfg b) (ret (Probe src j)) (pump_post cfg b i)" if "j \<noteq> i" for j
        by (rule valid_ret) (use na src that in \<open>auto simp: pump_post_def\<close>)
      moreover have "valid (at_binding cfg b) (seq (ra_accept cfg t i src) (ret Continue)) (pump_post cfg b i)"
        by (rule accept_post [OF t na i src])
      ultimately show ?thesis
        using False by (auto intro!: valid_gets split: option.splits)
    qed
  qed
  show ?thesis
    unfolding ra_begin_def Let_def split_def
    by (intro valid_if valid_tame_then valid_bnd_tame deny_post act tame_rules t)
      (auto simp: tester_ok_def)
qed

lemma enqueue_post:
  fixes t :: "('p, 'm world_scheme) doip_dispatcher"
  assumes t: "doip_tame cfg t" and i: "b_act b i" "request_ok cfg (b_tester b i) req"
  shows "valid (at_binding cfg b) (enqueue_uds cfg t i req) (pump_post cfg b i)"
  unfolding enqueue_uds_def
proof (rule valid_gets, goal_cases)
  case (1 s)
  then have q: "uds_queue (conns s i) = b_queue b i" by auto
  have enq: "pump_post cfg b i (Inr Continue)
      (upd_conn i (\<lambda>c. c\<lparr>uds_queue := uds_queue c @ [(req, cur_version c)]\<rparr>) w)"
    if "at_binding cfg b w" "length (b_queue b i) < UDS_QUEUE_MAXSIZE" for w :: "'m world_scheme"
  proof -
    have "binding (upd_conn i (\<lambda>c. c\<lparr>uds_queue := uds_queue c @ [(req, cur_version c)]\<rparr>) w) =
        b\<lparr>b_queue := (b_queue b)(i := b_queue b i @ [(req, cur_version (conns w i))])\<rparr>"
      using that(1) by (auto simp: binding_def upd_conn_def fun_eq_iff)
    with that b_enqueue [OF i that(2)] show ?thesis by (auto simp: pump_post_def)
  qed
  have "valid (at_binding cfg b)
      (seq (modify (upd_conn i (\<lambda>c. c\<lparr>uds_queue := uds_queue c @ [(req, cur_version c)]\<rparr>)) :: ('m world_scheme, unit) py)
        (ret Continue))
      (pump_post cfg b i)" if "length (b_queue b i) < UDS_QUEUE_MAXSIZE"
    by (rule valid_seq_modify [where R = "pump_post cfg b i (Inr Continue)"])
      (use enq that in \<open>simp_all add: valid_ret\<close>)
  moreover have "valid (at_binding cfg b)
      (bnd (lift (pack_HH (ecu_logical_addr (doip cfg)) (source_addr req))) (\<lambda>a.
         seq (send_response cfg t i PT_DIAGNOSTIC_MESSAGE
                (a @ [0x7F, word_of_int (sid req AND 0xFF), word_of_int NRC_BUSY_REPEAT_REQUEST]))
           (ret Continue))) (pump_post cfg b i)"
    by (intro valid_bnd_tame valid_tame_then tame_rules t) simp
  ultimately show ?case
    unfolding q by (rule valid_if)
qed

lemma handle_diagnostic_post:
  assumes t: "doip_tame cfg t"
  shows "valid (at_binding cfg b) (handle_diagnostic cfg t i payload) (pump_post cfg b i)"
proof -
  let ?src = "from_be (py_slice 0 2 payload)" and ?tgt = "from_be (py_slice 2 4 payload)"
  let ?fn = "?tgt = functional_addr (uds cfg)"
  let ?req = "\<lparr>raw = drop 4 payload, source_addr = ?src, target_addr = ?tgt, functional = ?fn\<rparr>"
  have nackclose: "valid (at_binding cfg b) (seq (diag_nack cfg t i src c) (raise CloseConnection)) (pump_post cfg b i)"
    for src c
    by (rule valid_seq_keeps [OF tame_keeps]) (auto intro!: tame_rules t valid_raise pump_post_same)
  have nack: "valid (at_binding cfg b) (seq (diag_nack cfg t i src c) (ret Continue)) (pump_post cfg b i)" for src c
    by (intro valid_tame_then tame_rules t) simp
  have ack: "valid (at_binding cfg b)
      (bnd (lift (diag_ack_payload cfg ?src 0)) (\<lambda>p. seq (send_response cfg t i PT_DIAGNOSTIC_POSITIVE_ACK p)
         (enqueue_uds cfg t i ?req))) (pump_post cfg b i)"
    if "b_act b i" "b_tester b i = Some ?src" "\<not> length payload < 5"
      "?tgt = ecu_logical_addr (doip cfg) \<or> ?fn" "\<not> int (length (drop 4 payload)) > max_payload_bytes (doip cfg)"
  proof -
    have "request_ok cfg (b_tester b i) ?req" using that by (auto simp: request_ok_def)
    with that(1) have "valid (at_binding cfg b) (enqueue_uds cfg t i ?req) (pump_post cfg b i)"
      by (intro enqueue_post t)
    then show ?thesis
      by (intro valid_bnd_tame tame_rules valid_seq_keeps [OF tame_keeps] t) (auto intro: pump_post_same)
  qed
  have cont: "valid (at_binding cfg b) (ret Continue) (pump_post cfg b i)"
    by (rule valid_ret) (auto intro: pump_post_same)
  show ?thesis
    unfolding handle_diagnostic_def Let_def
  proof (intro valid_if valid_gets, goal_cases)
    case 1
    then show ?case by (intro valid_tame_then tame_rules t) simp
  next
    case (2 s)
    then show ?case by (intro nackclose)
  next
    case (3 s)
    then show ?case by (intro nack)
  next
    case (4 s)
    then show ?case by (intro nack)
  next
    case (5 s)
    then have "b_act b i" "b_tester b i = Some ?src" by auto
    with 5 ack have a: "valid (at_binding cfg b)
      (bnd (lift (diag_ack_payload cfg ?src 0)) (\<lambda>p. seq (send_response cfg t i PT_DIAGNOSTIC_POSITIVE_ACK p)
         (enqueue_uds cfg t i ?req))) (pump_post cfg b i)"
      by blast
    show ?case
      by (intro valid_bnd_tame tame_rules t) (auto intro!: nack cont a split: option.split hres.split)
  qed
qed

lemma close_on_denial_post:
  assumes "valid P m (pump_post cfg b i)"
  shows "valid P (close_on_denial m) (pump_post cfg b i)"
proof (rule validI)
  fix s r s' assume P: "P s" and run: "close_on_denial m s = (r, s')"
  obtain x u where m: "m s = (x, u)" by fastforce
  with assms P have "pump_post cfg b i x u" by (auto dest: validD)
  with run m show "pump_post cfg b i r s'"
    by (cases x) (auto simp: close_on_denial_def try_catch_def pump_post_def split: if_splits)
qed

lemma pump_frame_post:
  assumes t: "doip_tame cfg t" and i: "b_pump b i = PReading" "i < b_next b"
  shows "valid (at_binding cfg b) (pump_frame cfg t i fr) (pump_post cfg b i)"
proof -
  have alive: "tame cfg (modify (alive_response i))"
    by (rule tame_modify) simp_all
  have ver: "tame cfg (modify (upd_conn i (\<lambda>c. c\<lparr>cur_version := uint v\<rparr>)))" for v
    by (rule tame_upd_conn) (simp add: unbound_upd_def)
  have bump: "tame cfg (modify (bump_general (doip cfg) i))"
    by (rule tame_modify) simp_all
  have s: "valid (at_binding cfg b) (seq m n) (pump_post cfg b i)"
    if "tame cfg m" "valid (at_binding cfg b) n (pump_post cfg b i)" for m n
    using that by (intro valid_seq_keeps [OF tame_keeps]) (auto intro: pump_post_same)
  have alivecheck: "valid (at_binding cfg b) (handle_alive_check cfg t i) (pump_post cfg b i)"
    unfolding handle_alive_check_def
    by (intro valid_bnd_tame valid_tame_then tame_rules t) simp
  have o: "valid (at_binding cfg b) (case nack of
        Some n \<Rightarrow> m n | None \<Rightarrow> k) (pump_post cfg b i)"
    if "\<And>n. valid (at_binding cfg b) (m n) (pump_post cfg b i)" "valid (at_binding cfg b) k (pump_post cfg b i)"
    for nack :: "int option" and m k
    using that by (cases nack) auto
  show ?thesis
    unfolding pump_frame_def Let_def
    by (intro valid_bnd_tame s o valid_if valid_tame_then close_on_denial_post ra_begin_post
        handle_diagnostic_post alivecheck tame_rules t i alive ver bump) simp_all
qed

section \<open>Probes and cleanup\<close>

definition b_finally :: "nat \<Rightarrow> bstate \<Rightarrow> bstate" where
  "b_finally i b = (let b = b_unreg i b in b\<lparr>b_pump := (b_pump b)(i := PDone)\<rparr>)"

lemma binding_finally': "binding (run_finally u i w) = b_finally i (binding w)"
  by (simp add: binding_finally b_finally_def)

lemma b_finally_pump [simp]: "b_finally i (b\<lparr>b_pump := (b_pump b)(i := p)\<rparr>) = b_finally i b"
  by (simp add: b_finally_def b_unreg_def Let_def split: option.splits)

lemma b_unreg_pump: "b_unreg j (b\<lparr>b_pump := p\<rparr>) = (b_unreg j b)\<lparr>b_pump := p\<rparr>"
  by (simp add: b_unreg_def split: option.splits)

lemma b_unreg_fields [simp]:
  "b_act (b_unreg j b) = b_act b" "b_tester (b_unreg j b) = b_tester b" "b_pump (b_unreg j b) = b_pump b"
  "b_next (b_unreg j b) = b_next b"
  by (simp_all add: b_unreg_def split: option.splits)

lemma bsteps_b_finally:
  assumes ok: "binding_ok cfg b"
  shows "bsteps cfg b (b_finally i b)"
proof -
  let ?b = "b_unreg i b"
  have ok': "binding_ok cfg ?b" using bsteps_unreg ok by (rule binding_ok_steps)
  have "registry_lookup (b_reg ?b) a \<noteq> Some i" for a
  proof
    assume l: "registry_lookup (b_reg ?b) a = Some i"
    then have "b_tester b i = Some a" using binding_okD(3) [OF ok'] by auto
    with l binding_okD(1) [OF ok] show False
      by (simp add: b_unreg_def ecu_reg.look_unreg split: if_splits)
  qed
  then have "bstep cfg ?b (b_finally i b)"
    unfolding b_finally_def Let_def by (rule b_done)
  with bsteps_unreg [of cfg b i] show ?thesis by (rule rtranclp.rtrancl_into_rtrancl)
qed

lemma finally_sim:
  assumes "core_inv (uds cfg) w" "bsteps cfg b0 b" "binding_ok cfg b"
    and "b = (binding w)\<lparr>b_pump := (b_pump (binding w))(i := p)\<rparr> \<or> b = binding w"
  shows "core_inv (uds cfg) (run_finally (uds cfg) i w)
    \<and> bsteps cfg b0 (binding (run_finally (uds cfg) i w))"
proof -
  have "b_finally i b = b_finally i (binding w)" using assms(4) by auto
  with bsteps_b_finally [OF assms(3), of i] assms(1,2) show ?thesis
    by (simp add: binding_finally' core_inv_finally)
qed

lemma ra_resume_post:
  assumes t: "doip_tame cfg t"
  shows "valid (at_binding cfg b) (ra_resume cfg t i src j alive)
    (\<lambda>res w. core_inv (uds cfg) w \<and> res \<noteq> Inr CloseIt \<and> (\<forall>x y. res \<noteq> Inr (Probe x y)) \<and>
       ((binding w = b \<or> binding w = b_unreg j b) \<and> (\<exists>e. res = Inl e)
        \<or> int (registry_len (b_reg (b_unreg j b))) < max_concurrent_sessions (doip cfg)
          \<and> (\<exists>r. binding w = b_bound i src r (b_unreg j b))))"
    (is "valid _ _ ?Q")
proof -
  have clear: "at_binding cfg b (upd_conn j (\<lambda>c. c\<lparr>alive_probe_pending := False, alive_probe_event := None\<rparr>) w)"
    if "at_binding cfg b w" for w :: "'a world_scheme"
    using that by (simp add: binding_upd_conn unbound_upd_def)
  have deny: "valid (at_binding cfg b) (deny_activation cfg t i src 3) ?Q"
    by (rule valid_weaken [OF valid_deny [OF t]]) auto
  have acc: "valid (at_binding cfg (b_unreg j b)) (seq (ra_accept cfg t i src) (ret Continue)) ?Q"
    by (rule valid_seq_ret [OF valid_accept [OF t]]) auto
  have ev: "valid (at_binding cfg b) (seq (modify (evict (uds cfg) j)) (seq (ra_accept cfg t i src) (ret Continue))) ?Q"
    by (rule valid_seq_modify [OF _ acc]) (auto simp: binding_evict core_inv_evict)
  show ?thesis
    unfolding ra_resume_def
    by (rule valid_seq_modify [where R = "at_binding cfg b"])
      (auto simp: binding_upd_conn unbound_upd_def intro: deny ev)
qed

lemma b_bound_pump: "(b_bound i src r b)\<lparr>b_pump := p\<rparr> = b_bound i src r (b\<lparr>b_pump := p\<rparr>)"
  by (simp add: b_bound_def)

lemma pump_resume_sim:
  assumes t: "doip_tame cfg t" and ok: "binding_ok cfg (binding w)" and inv: "core_inv (uds cfg) w"
    and i: "c_pump (conns w i) = PReading \<or> (\<exists>e dl. c_pump (conns w i) = PProbing src j e dl)"
      "\<not> c_activated (conns w i)" "i < next_conn w" "tester_ok cfg src"
  shows "core_inv (uds cfg) (pump_resume cfg t i src j alive w)
    \<and> bsteps cfg (binding w) (binding (pump_resume cfg t i src j alive w))"
proof -
  let ?b = "binding w"
  let ?rd = "\<lambda>b. b\<lparr>b_pump := (b_pump b)(i := PReading)\<rparr>"
  have read: "bsteps cfg ?b (?rd ?b)"
  proof (cases "c_pump (conns w i) = PReading")
    case True
    then have "(b_pump ?b)(i := PReading) = b_pump ?b" by (auto simp: fun_eq_iff)
    then show ?thesis by simp
  next
    case False
    with i(1) obtain e dl where "b_pump ?b i = PProbing src j e dl" by auto
    then show ?thesis by (intro r_into_rtranclp b_read)
  qed
  have unreg: "bsteps cfg (?rd ?b) (?rd (b_unreg j ?b))"
    using bsteps_unreg [of cfg "?rd ?b" j] by (simp add: b_unreg_pump)
  have bind: "bsteps cfg (?rd (b_unreg j ?b)) (?rd (b_bound i src r (b_unreg j ?b)))"
    if "int (registry_len (b_reg (b_unreg j ?b))) < max_concurrent_sessions (doip cfg)" for r
  proof -
    have "?rd (b_bound i src r (b_unreg j ?b)) = b_bound i src r (?rd (b_unreg j ?b))"
      by (simp add: b_bound_def)
    moreover have "bstep cfg (?rd (b_unreg j ?b)) (b_bound i src r (?rd (b_unreg j ?b)))"
      unfolding b_bound_def by (rule b_bind) (use i that in simp_all)
    ultimately show ?thesis by auto
  qed
  obtain res w' where run: "ra_resume cfg t i src j alive w = (res, w')" by fastforce
  from validD [OF ra_resume_post [OF t] _ run, of ?b] inv
  have inv': "core_inv (uds cfg) w'" and nr: "res \<noteq> Inr CloseIt" "\<And>x y. res \<noteq> Inr (Probe x y)"
    and cs: "(binding w' = ?b \<or> binding w' = b_unreg j ?b) \<and> (\<exists>e. res = Inl e)
        \<or> int (registry_len (b_reg (b_unreg j ?b))) < max_concurrent_sessions (doip cfg)
          \<and> (\<exists>r. binding w' = b_bound i src r (b_unreg j ?b))"
    by auto
  have reach: "bsteps cfg ?b (?rd (binding w'))"
    using cs
  proof (elim disjE conjE exE, goal_cases)
    case 1
    with read show ?case by simp
  next
    case 2
    with rtranclp_trans [OF read unreg] show ?case by simp
  next
    case (3 r)
    with rtranclp_trans [OF rtranclp_trans [OF read unreg] bind] show ?case by simp
  qed
  have fin: "core_inv (uds cfg) (run_finally (uds cfg) i w') \<and> bsteps cfg ?b (binding (run_finally (uds cfg) i w'))"
    by (rule finally_sim [OF inv' reach binding_ok_steps [OF reach ok]]) auto
  have pr: "binding (upd_conn i (\<lambda>c. c\<lparr>c_pump := PReading\<rparr>) w') = ?rd (binding w')"
    by (auto simp: binding_def upd_conn_def fun_eq_iff)
  show ?thesis
  proof (cases res)
    case (Inl e)
    with run fin show ?thesis
      by (auto simp: pump_resume_def close_on_denial_def try_catch_def)
  next
    case (Inr x)
    with nr have "x = Continue" by (cases x) auto
    with Inr run inv' reach pr show ?thesis
      by (auto simp: pump_resume_def close_on_denial_def try_catch_def)
  qed
qed

lemma tame_probe_begin [tame_rules]: "doip_tame cfg t \<Longrightarrow> tame cfg (probe_begin cfg t j)"
  unfolding probe_begin_def
  by (intro tame_rules tame_modify) (auto simp: binding_upd_conn unbound_upd_def)

lemma pump_continue_sim:
  assumes t: "doip_tame cfg t" and ok: "binding_ok cfg b"
    and i: "b_pump b i = PReading" "i < b_next b"
    and post: "pump_post cfg b i res w"
  shows "core_inv (uds cfg) (pump_continue cfg t i (res, w))
    \<and> bsteps cfg b (binding (pump_continue cfg t i (res, w)))"
proof -
  have inv: "core_inv (uds cfg) w" and st: "bsteps cfg b (binding w)"
    using post by (auto simp: pump_post_def)
  have fin: "core_inv (uds cfg) (run_finally (uds cfg) i w) \<and> bsteps cfg b (binding (run_finally (uds cfg) i w))"
    by (rule finally_sim [OF inv st binding_ok_steps [OF st ok]]) simp
  show ?thesis
  proof (cases "\<exists>src j. res = Inr (Probe src j)")
    case False
    then consider "res = Inr Continue" | "res = Inr CloseIt" | e where "res = Inl e"
      by (metis pump_result.exhaust sum.exhaust)
    then show ?thesis
      using inv st fin by cases (simp_all add: pump_continue_def)
  next
    case True
    then obtain src j where res: "res = Inr (Probe src j)" by blast
    with post have b: "binding w = b" "\<not> b_act b i" "tester_ok cfg src" "j \<noteq> i"
      by (auto simp: pump_post_def)
    obtain x w' where pb: "probe_begin cfg t j w = (x, w')" by fastforce
    have w': "at_binding cfg b w'"
      by (rule tame_at [OF tame_probe_begin [OF t] _ pb]) (use inv b in auto)
    have pr: "binding (upd_conn i (\<lambda>c. c\<lparr>c_pump := p\<rparr>) w') = b\<lparr>b_pump := (b_pump b)(i := p)\<rparr>" for p
      using w' by (auto simp: binding_def upd_conn_def fun_eq_iff)
    have probe: "bsteps cfg b (b\<lparr>b_pump := (b_pump b)(i := PProbing src j e dl)\<rparr>)" for e dl
      by (intro r_into_rtranclp b_probe b i)
    have resume: "core_inv (uds cfg) (pump_resume cfg t i src j False w')
        \<and> bsteps cfg b (binding (pump_resume cfg t i src j False w'))"
    proof -
      have f: "c_pump (conns w' i) = PReading" "\<not> c_activated (conns w' i)" "i < next_conn w'"
        using w' b i b_tester_binding [of w'] by auto
      from w' have bw: "binding w' = b" and iw: "core_inv (uds cfg) w'" by auto
      from ok have okw: "binding_ok cfg (binding w')" by (simp add: bw)
      show ?thesis
        using pump_resume_sim [OF t okw iw disjI1 [OF f(1)] f(2,3) b(3), of j False] by (simp add: bw)
    qed
    have fin': "core_inv (uds cfg) (run_finally (uds cfg) i w') \<and> bsteps cfg b (binding (run_finally (uds cfg) i w'))"
      by (rule finally_sim [of _ _ _ b]) (use w' ok in auto)
    show ?thesis
      using res pb w' pr probe resume fin'
      by (auto simp: pump_continue_def split: sum.splits prod.splits bool.splits)
  qed
qed

lemma pump_too_large_post:
  "doip_tame cfg t \<Longrightarrow> valid (at_binding cfg b) (pump_too_large cfg t i) (pump_post cfg b i)"
  unfolding pump_too_large_def by (intro valid_tame_then tame_rules) simp_all

section \<open>The worker\<close>

lemma worker_round_binding:
  assumes h: "hooks_tame cfg d t I" "interrupted \<in> I"
    and inv: "core_inv (uds cfg) w"
    and run: "worker_round cfg d t dur interrupted i req ver w = Some w'"
  shows "at_binding cfg (binding w) w'"
proof -
  have dt: "doip_tame cfg t" using h(1) by (simp add: hooks_tame_def)
  let ?resp = "uds_responder cfg t i (source_addr req) ver"
  have resp: "tame cfg (?resp x)" for x using dt by (intro tame_rules)
  have r: "at_binding cfg (binding w) v'" if "at_binding cfg (binding w) v" "?resp x v = (y, v')" for x y v v'
    using tame_at [OF resp that(1)] that(2) by blast
  have off: "at_binding cfg (binding w) (upd_conn i (\<lambda>c. c\<lparr>worker_running := False\<rparr>) v)"
    if "at_binding cfg (binding w) v" for v
    using that by (simp add: binding_upd_conn unbound_upd_def)
  show ?thesis
  proof (cases "c_state (conns w i)")
    case None
    with run inv show ?thesis by (simp add: worker_round_def Let_def)
  next
    case (Some s)
    with run obtain res v where u: "resolve_uds cfg d ?resp dur interrupted req s w = Some (res, v)"
      by (auto simp: worker_round_def Let_def split: option.splits)
    from resolve_uds_binding [OF h resp u inv] have v: "at_binding cfg (binding w) v" .
    show ?thesis
    proof (cases res)
      case (Inr x)
      with run u Some v r [OF v] off show ?thesis
        by (cases x) (auto simp: worker_round_def Let_def split: prod.splits sum.splits exn.splits)
    next
      case (Inl e)
      with run u Some v r [OF v] off show ?thesis
        by (cases e) (auto simp: worker_round_def Let_def split: prod.splits sum.splits)
    qed
  qed
qed

lemma worker_step_sim:
  assumes h: "hooks_tame cfg d t I" "interrupted \<in> I" and inv: "core_inv (uds cfg) w"
    and run: "worker_step cfg d t dur interrupted i w = Some w'"
  shows "core_inv (uds cfg) w' \<and> bsteps cfg (binding w) (binding w')"
proof -
  from run obtain req ver rest where q: "uds_queue (conns w i) = (req, ver) # rest"
    and r: "worker_round cfg d t dur interrupted i req ver (upd_conn i (\<lambda>c. c\<lparr>uds_queue := rest\<rparr>) w) = Some w'"
    by (auto simp: worker_step_def split: list.splits)
  have b: "binding (upd_conn i (\<lambda>c. c\<lparr>uds_queue := rest\<rparr>) w) =
      (binding w)\<lparr>b_queue := (b_queue (binding w))(i := rest)\<rparr>"
    by (auto simp: binding_def upd_conn_def fun_eq_iff)
  have "bstep cfg (binding w) ((binding w)\<lparr>b_queue := (b_queue (binding w))(i := rest)\<rparr>)"
    by (rule b_pop) (simp add: q)
  with worker_round_binding [OF h _ r] inv b show ?thesis by auto
qed

section \<open>Every step\<close>

lemma ecu_step_sim:
  assumes st: "ecu_step cfg d t I w w'" and h: "hooks_tame cfg d t I"
    and inv: "core_inv (uds cfg) w" "binding_ok cfg (binding w)"
  shows "core_inv (uds cfg) w' \<and> bsteps cfg (binding w) (binding w')"
proof -
  have dt: "doip_tame cfg t" using h by (simp add: hooks_tame_def)
  have at: "at_binding cfg (binding w) w" using inv by simp
  note D = binding_okD [OF inv(2)]
  from st show ?thesis
  proof cases
    case Accept
    have "binding w' = (let b = binding w in b\<lparr>b_act := (b_act b)(b_next b := False),
        b_tester := (b_tester b)(b_next b := None), b_state := (b_state b)(b_next b := None),
        b_queue := (b_queue b)(b_next b := []), b_pump := (b_pump b)(b_next b := PReading), b_next := b_next b + 1\<rparr>)"
      by (auto simp: Accept accept_conn_def binding_def upd_conn_def new_conn_def fun_eq_iff Let_def)
    with b_connect [of cfg "binding w"] inv Accept show ?thesis
      by (simp add: accept_conn_def Let_def)
  next
    case (Frame i fr)
    obtain res v where run: "pump_frame cfg t i fr w = (res, v)" by fastforce
    have "pump_post cfg (binding w) i res v"
      by (rule validD [OF pump_frame_post [OF dt] at run]) (use Frame in simp_all)
    from pump_continue_sim [OF dt inv(2) _ _ this] Frame run show ?thesis by simp
  next
    case (TooLarge i)
    obtain res v where run: "pump_too_large cfg t i w = (res, v)" by fastforce
    have "pump_post cfg (binding w) i res v"
      by (rule validD [OF pump_too_large_post [OF dt] at run])
    from pump_continue_sim [OF dt inv(2) _ _ this] TooLarge run show ?thesis by simp
  next
    case (Eof i)
    then show ?thesis
      using finally_sim [OF inv(1) rtranclp.rtrancl_refl inv(2)] by simp
  next
    case (ProbeAnswered i src j e dl)
    then have "\<not> b_act (binding w) i" "tester_ok cfg src" "i < b_next (binding w)"
      using D(8) [of i src j e dl] by auto
    with ProbeAnswered pump_resume_sim [OF dt inv(2) inv(1)] show ?thesis by auto
  next
    case (ProbeTimeout i src j e dl)
    then have "\<not> b_act (binding w) i" "tester_ok cfg src" "i < b_next (binding w)"
      using D(8) [of i src j e dl] by auto
    with ProbeTimeout pump_resume_sim [OF dt inv(2) inv(1)] show ?thesis by auto
  next
    case (Work i interrupted dur)
    then show ?thesis using worker_step_sim [OF h _ inv(1)] by blast
  next
    case (S3 r)
    then show ?thesis using inv(1) by (simp add: core_inv_s3_expiry)
  next
    case (Supervise i)
    then show ?thesis using inv(1) by simp
  next
    case (Tick dt)
    then show ?thesis using inv(1) by simp
  qed
qed

lemma binding_new_world: "binding_ok cfg (binding (new_world cfg))" "core_inv (uds cfg) (new_world cfg)"
proof -
  have "conns (new_world cfg) = (\<lambda>_. (new_conn (doip cfg) 0)\<lparr>c_pump := PDone\<rparr>)"
    "registry (new_world cfg) = []" "next_conn (new_world cfg) = 0"
    by (simp_all add: new_world_def ecu.defs world.defs new_ecu_def)
  then show "binding_ok cfg (binding (new_world cfg))"
    by (intro binding_okI)
      (auto simp: registry_wf_def registry_len_def registry_lookup_def new_conn_def)
  show "core_inv (uds cfg) (new_world cfg)"
    by (simp add: core_inv_def new_world_def ecu.defs new_ecu_def)
qed

lemma reachable_sim:
  assumes "(ecu_step cfg d t I)\<^sup>*\<^sup>* w w'" "hooks_tame cfg d t I"
    and "core_inv (uds cfg) w" "binding_ok cfg (binding w)"
  shows "core_inv (uds cfg) w' \<and> bsteps cfg (binding w) (binding w') \<and> binding_ok cfg (binding w')"
  using assms(1)
proof (induction rule: rtranclp_induct)
  case base
  then show ?case using assms by simp
next
  case (step y z)
  then have "core_inv (uds cfg) z \<and> bsteps cfg (binding y) (binding z)"
    using ecu_step_sim assms(2) by blast
  with step.IH show ?case using binding_ok_steps by (metis rtranclp_trans)
qed

end
