(* ===== verification/Session_Props.thy ===== *)
theory Session_Props
  imports Session_Refine
begin

text \<open>
  What the connection machine of the VirtualEcu guarantees in every reachable state, what it answers
  to a Routing Activation Request and a Diagnostic Message, and what it does not guarantee: two
  activations that overlap while both wait for an Alive Check.
\<close>

section \<open>Sending without hooks\<close>

lemma no_hooks [simp]:
  "notify_frame_tx [] pt pl p = ret ()" "notify_frame_rx [] pt pl p = ret ()"
  "resolve_routing_activation [] ra p = ret None" "resolve_diagnostic_ack [] rq p = ret None"
  by (simp_all add: notify_frame_tx_def notify_frame_rx_def resolve_routing_activation_def
      resolve_diagnostic_ack_def lookup_list_def)

text \<open>The state after frame \<open>fr\<close> went out on connection \<open>i\<close>.\<close>

definition sent :: "ecu_config \<Rightarrow> nat \<Rightarrow> bytes \<Rightarrow> 'm world_scheme \<Rightarrow> 'm world_scheme" where
  "sent cfg i fr w = upd_conn i (\<lambda>c. c\<lparr>c_out := c_out c @ [fr]\<rparr>) (bump_general (doip cfg) i w)"

named_theorems conn_simps \<open>fields of connections after an operation\<close>

lemma upd_conn_fields [conn_simps]:
  "conns (upd_conn i f w) k = (if k = i then f (conns w i) else conns w k)"
  "registry (upd_conn i f w) = registry w" "next_conn (upd_conn i f w) = next_conn w"
  "clock (upd_conn i f w) = clock w" "next_event (upd_conn i f w) = next_event w"
  "set_events (upd_conn i f w) = set_events w"
  by (simp_all add: upd_conn_def)

lemma sent_other [conn_simps]: "k \<noteq> i \<Longrightarrow> conns (sent cfg i fr w) k = conns w k"
  "registry (sent cfg i fr w) = registry w" "next_conn (sent cfg i fr w) = next_conn w"
  "clock (sent cfg i fr w) = clock w" "next_event (sent cfg i fr w) = next_event w"
  "set_events (sent cfg i fr w) = set_events w"
  by (simp_all add: sent_def bump_general_def Let_def conn_simps)

text \<open>Sending changes the output and the deadline only.\<close>

lemma sent_same [conn_simps]:
  "c_activated (conns (sent cfg i fr w) k) = c_activated (conns w k)"
  "c_tester (conns (sent cfg i fr w) k) = c_tester (conns w k)"
  "c_state (conns (sent cfg i fr w) k) = c_state (conns w k)"
  "uds_queue (conns (sent cfg i fr w) k) = uds_queue (conns w k)"
  "c_closed (conns (sent cfg i fr w) k) = c_closed (conns w k)"
  "c_finalized (conns (sent cfg i fr w) k) = c_finalized (conns w k)"
  "c_pump (conns (sent cfg i fr w) k) = c_pump (conns w k)"
  "cur_version (conns (sent cfg i fr w) k) = cur_version (conns w k)"
  "alive_probe_pending (conns (sent cfg i fr w) k) = alive_probe_pending (conns w k)"
  "alive_probe_event (conns (sent cfg i fr w) k) = alive_probe_event (conns w k)"
  by (simp_all add: sent_def bump_general_def Let_def conn_simps)

lemma sent_out [conn_simps]: "c_out (conns (sent cfg i fr w) i) = c_out (conns w i) @ [fr]"
  by (simp add: sent_def bump_general_def Let_def conn_simps)

lemma send_frame_no_hooks:
  assumes "frame_args_ok pt pl ver" "\<not> c_closed (conns w i)"
  shows "send_frame cfg [] i pt pl ver w =
    (Inr (), sent cfg i (doip_header ver pt (int (length pl)) @ pl) w)"
proof -
  have b: "build_frame pt pl ver = Inr (doip_header ver pt (int (length pl)) @ pl)"
    by (rule virt_codec.build_ok [OF assms(1)])
  have "\<not> c_closed (conns (bump_general (doip cfg) i w) i)"
    using assms(2) by (simp add: bump_general_def Let_def conn_simps)
  with b virt_codec.ptype_of_built [OF b] show ?thesis
    by (simp add: send_frame_def send_raw_def sent_def bnd_def seq_def)
qed

text \<open>The frame an answer becomes.\<close>

definition answer_frame :: "conn \<Rightarrow> int \<Rightarrow> bytes \<Rightarrow> bytes" where
  "answer_frame c pt pl = doip_header (cur_version c) pt (int (length pl)) @ pl"

lemma send_response_no_hooks:
  assumes "frame_args_ok pt pl (cur_version (conns w i))" "\<not> c_closed (conns w i)"
  shows "send_response cfg [] i pt pl w = (Inr (), sent cfg i (answer_frame (conns w i) pt pl) w)"
  using assms by (simp add: send_response_def send_frame_no_hooks answer_frame_def)

definition addr_ok :: "int \<Rightarrow> bool" where
  "addr_ok a \<longleftrightarrow> 0 \<le> a \<and> a < 65536"

definition activation_payload :: "ecu_config \<Rightarrow> int \<Rightarrow> int \<Rightarrow> bytes" where
  "activation_payload cfg src code =
     int_be 2 src @ int_be 2 (ecu_logical_addr (doip cfg)) @ [word_of_int code] @ replicate 8 0"

lemma respond_activation_no_hooks:
  assumes a: "addr_ok src" "addr_ok (ecu_logical_addr (doip cfg))" "nrc_ok code"
    and c: "0 \<le> cur_version (conns w i)" "cur_version (conns w i) < 256" "\<not> c_closed (conns w i)"
  shows "respond_activation cfg [] i src code w =
    (Inr (), sent cfg i (answer_frame (conns w i) PT_ROUTING_ACT_RESPONSE (activation_payload cfg src code)) w)"
proof -
  have r: "activation_response cfg src code = Inr (activation_payload cfg src code)"
    using a by (simp add: activation_response_def activation_payload_def pack_uint_def addr_ok_def
        numeral_eq_Suc)
  have "frame_args_ok PT_ROUTING_ACT_RESPONSE (activation_payload cfg src code) (cur_version (conns w i))"
    using c by (simp add: frame_args_ok_def activation_payload_def payload_types)
  with r c show ?thesis
    by (simp add: respond_activation_def send_response_no_hooks)
qed

section \<open>Properties of reachable states\<close>

text \<open>C1: the connection machine refines the abstract binding machine: however connections, frames,
  probes, workers and timers interleave, each run is, on the level of activation, registry and
  queues, a run of \<open>bstep\<close>, for every set of hooks that uses only what hook contexts offer.\<close>

theorem session_refines_binding:
  assumes "hooks_tame cfg d t I" and "(ecu_step cfg d t I)\<^sup>*\<^sup>* (new_world cfg) w"
  shows "bsteps cfg (binding (new_world cfg)) (binding w) \<and> core_inv (uds cfg) w"
  using reachable_sim [OF assms(2) assms(1) binding_new_world(2) binding_new_world(1)] by blast

abbreviation plain_hooks :: "(unit, world) doip_dispatcher" where
  "plain_hooks \<equiv> []"

abbreviation plain_disp :: "(unit, world) dispatcher" where
  "plain_disp \<equiv> empty_dispatcher"

lemma plain_tame: "hooks_tame cfg plain_disp plain_hooks {}"
  by (simp add: hooks_tame_def all_hooks_def empty_dispatcher_def lookup_list_def)

lemma ex_accept_reachable:
  "(ecu_step cfg plain_disp plain_hooks {})\<^sup>*\<^sup>* (new_world cfg) (accept_conn cfg (new_world cfg))"
  by (rule r_into_rtranclp) (rule ecu_step.Accept)

theorem session_refines_binding_witness:
  "core_inv (uds default_ecu_config) (accept_conn default_ecu_config (new_world default_ecu_config))"
  using session_refines_binding [OF plain_tame ex_accept_reachable] by blast

text \<open>C2: in every reachable state at most \<open>max_concurrent_sessions\<close> testers are registered; the
  socket registered for an address is alive and activated for exactly that address, and addresses
  are within the configured tester range; no queue holds more than eight requests, and every queued
  diagnostic request came from the tester the socket is activated for, is addressed to this ECU, not
  empty and within the payload bound.\<close>

theorem reachable_binding_safe:
  assumes hooks: "hooks_tame cfg d t I" and run: "(ecu_step cfg d t I)\<^sup>*\<^sup>* (new_world cfg) w"
  shows "int (length (registry w)) \<le> max 0 (max_concurrent_sessions (doip cfg))
    \<and> (\<forall>a i. map_of (registry w) a = Some i \<longrightarrow>
         c_activated (conns w i) \<and> c_tester (conns w i) = Some a \<and> c_pump (conns w i) \<noteq> PDone
         \<and> fst (tester_addr_range (doip cfg)) \<le> a \<and> a \<le> snd (tester_addr_range (doip cfg)))
    \<and> (\<forall>i. length (uds_queue (conns w i)) \<le> 8)
    \<and> (\<forall>i req v. (req, v) \<in> set (uds_queue (conns w i)) \<longrightarrow>
         c_activated (conns w i) \<and> c_tester (conns w i) = Some (source_addr req)
         \<and> (target_addr req = ecu_logical_addr (doip cfg) \<or> functional req)
         \<and> raw req \<noteq> [] \<and> int (length (raw req)) \<le> max_payload_bytes (doip cfg))"
proof -
  have "binding_ok cfg (binding w)"
    using reachable_sim [OF run hooks binding_new_world(2) binding_new_world(1)] by blast
  note D = binding_okD [OF this, simplified]
  have reg: "c_activated (conns w i) \<and> c_tester (conns w i) = Some a \<and> c_pump (conns w i) \<noteq> PDone
      \<and> tester_ok cfg a" if "map_of (registry w) a = Some i" for a i
    using D(3) [of a i] D(6) [of i] that by (auto simp: registry_lookup_def)
  have q: "c_activated (conns w i) \<and> request_ok cfg (c_tester (conns w i)) req"
    if "(req, v) \<in> set (uds_queue (conns w i))" for i req v
    using D(5) [of "(req, v)" i] that by simp
  show ?thesis
    using D(2) reg q D(4)
    by (auto simp: registry_len_def UDS_QUEUE_MAXSIZE_def tester_ok_def request_ok_def)
qed

theorem reachable_binding_safe_witness:
  "length (registry (accept_conn default_ecu_config (new_world default_ecu_config))) \<le> 8"
  using reachable_binding_safe [OF plain_tame ex_accept_reachable, of default_ecu_config]
  by (simp add: config_defaults)

section \<open>Overlapping activations\<close>

lemma bind_tester_conns [conn_simps]:
  "k \<noteq> i \<Longrightarrow> conns (bind_tester cfg i src w) k = conns w k"
  "c_activated (conns (bind_tester cfg i src w) i)"
  "c_tester (conns (bind_tester cfg i src w) i) = Some src"
  "c_closed (conns (bind_tester cfg i src w) i) = c_closed (conns w i)"
  "c_finalized (conns (bind_tester cfg i src w) i) = c_finalized (conns w i)"
  "c_pump (conns (bind_tester cfg i src w) i) = c_pump (conns w i)"
  "cur_version (conns (bind_tester cfg i src w) i) = cur_version (conns w i)"
  "registry (bind_tester cfg i src w) = registry_register src i (registry w)"
  "clock (bind_tester cfg i src w) = clock w"
  "set_events (bind_tester cfg i src w) = set_events w"
  "next_event (bind_tester cfg i src w) = next_event w"
  "next_conn (bind_tester cfg i src w) = next_conn w"
  by (auto simp: bind_tester_def session_for_def new_session_def arm_general_def upd_sess_def conn_simps
      Let_def split: option.splits prod.splits)

lemma maybe_drop_world [conn_simps]:
  "conns (maybe_drop_session_state u a st w) = conns w"
  "registry (maybe_drop_session_state u a st w) = registry w"
  "clock (maybe_drop_session_state u a st w) = clock w"
  "set_events (maybe_drop_session_state u a st w) = set_events w"
  "next_event (maybe_drop_session_state u a st w) = next_event w"
  "next_conn (maybe_drop_session_state u a st w) = next_conn w"
  by (simp_all add: maybe_drop_session_state_def upd_sess_def split: option.splits)

lemma evict_conns [conn_simps]:
  "k \<noteq> j \<Longrightarrow> conns (evict u j w) k = conns w k"
  "c_closed (conns (evict u j w) j)" "c_finalized (conns (evict u j w) j)"
  "clock (evict u j w) = clock w" "set_events (evict u j w) = set_events w"
  "next_conn (evict u j w) = next_conn w"
  "registry (evict u j w) = (case c_tester (conns w j) of None \<Rightarrow> registry w
     | Some a \<Rightarrow> registry_unregister a j (registry w))"
  by (auto simp: evict_def unregister_own_def drop_own_state_def conn_simps Let_def split: option.splits)

text \<open>The probe of \<open>j\<close> failed and there is room: the waiting socket is bound and answered.\<close>

definition resumed :: "ecu_config \<Rightarrow> nat \<Rightarrow> int \<Rightarrow> nat \<Rightarrow> 'm world_scheme \<Rightarrow> 'm world_scheme" where
  "resumed cfg i src j w =
     (let w = evict (uds cfg) j (upd_conn j (\<lambda>c. c\<lparr>alive_probe_pending := False, alive_probe_event := None\<rparr>) w);
          w = bind_tester cfg i src w;
          w = sent cfg i (answer_frame (conns w i) PT_ROUTING_ACT_RESPONSE (activation_payload cfg src 0x10)) w
      in upd_conn i (\<lambda>c. c\<lparr>c_pump := PReading\<rparr>) w)"

lemma resume_accepts:
  fixes t :: "('p, 'm world_scheme) doip_dispatcher"
  assumes t: "t = []" and a: "addr_ok src" "addr_ok (ecu_logical_addr (doip cfg))"
    and c: "0 \<le> cur_version (conns w i)" "cur_version (conns w i) < 256" "\<not> c_closed (conns w i)" "j \<noteq> i"
    and room: "int (length (registry w)) < max_concurrent_sessions (doip cfg)"
    and wf: "registry_wf (registry w)"
  shows "pump_resume cfg t i src j False w = resumed cfg i src j w"
proof -
  let ?w1 = "evict (uds cfg) j (upd_conn j (\<lambda>c. c\<lparr>alive_probe_pending := False, alive_probe_event := None\<rparr>) w)"
  let ?w2 = "bind_tester cfg i src ?w1"
  have "registry_len (registry ?w1) \<le> registry_len (registry w)"
    using ecu_reg.sz_unreg_le [OF wf] by (simp add: conn_simps split: option.splits)
  with room have room': "\<not> int (registry_len (registry ?w1)) \<ge> max_concurrent_sessions (doip cfg)"
    by (simp add: registry_len_def)
  have "respond_activation cfg t i src 0x10 ?w2 = (Inr (), sent cfg i
      (answer_frame (conns ?w2 i) PT_ROUTING_ACT_RESPONSE (activation_payload cfg src 0x10)) ?w2)"
    unfolding t by (rule respond_activation_no_hooks) (use a c in \<open>simp_all add: conn_simps\<close>)
  with room' show ?thesis
    by (simp add: pump_resume_def close_on_denial_def try_catch_def ra_resume_def ra_accept_def seq_def bnd_def
        resumed_def Let_def)
qed

lemma resumed_conns [conn_simps]:
  "k \<noteq> i \<Longrightarrow> k \<noteq> j \<Longrightarrow> conns (resumed cfg i src j w) k = conns w k"
  "j \<noteq> i \<Longrightarrow> c_closed (conns (resumed cfg i src j w) j)"
  "j \<noteq> i \<Longrightarrow> c_finalized (conns (resumed cfg i src j w) j)"
  "c_activated (conns (resumed cfg i src j w) i)"
  "c_tester (conns (resumed cfg i src j w) i) = Some src"
  "j \<noteq> i \<Longrightarrow> c_closed (conns (resumed cfg i src j w) i) = c_closed (conns w i)"
  "j \<noteq> i \<Longrightarrow> c_finalized (conns (resumed cfg i src j w) i) = c_finalized (conns w i)"
  "clock (resumed cfg i src j w) = clock w" "set_events (resumed cfg i src j w) = set_events w"
  "registry (resumed cfg i src j w) = registry_register src i
     (case c_tester (conns w j) of None \<Rightarrow> registry w | Some a \<Rightarrow> registry_unregister a j (registry w))"
  by (simp_all add: resumed_def Let_def conn_simps cong: option.case_cong)

text \<open>Two sockets \<open>i\<close> and \<open>k\<close> that both wait for the Alive Check Response of \<open>j\<close>, for the same
  address, with \<open>j\<close> registered for it.\<close>

definition both_probing :: "ecu_config \<Rightarrow> nat \<Rightarrow> nat \<Rightarrow> nat \<Rightarrow> int \<Rightarrow> 'm world_scheme \<Rightarrow> bool" where
  "both_probing cfg i k j src w \<longleftrightarrow>
     i \<noteq> k \<and> j \<noteq> i \<and> j \<noteq> k
     \<and> (\<exists>e dl. c_pump (conns w i) = PProbing src j e dl \<and> e \<notin> set (set_events w) \<and> dl \<le> clock w)
     \<and> (\<exists>e dl. c_pump (conns w k) = PProbing src j e dl \<and> e \<notin> set (set_events w) \<and> dl \<le> clock w)
     \<and> (\<forall>x \<in> {i, k}. \<not> c_closed (conns w x) \<and> \<not> c_finalized (conns w x)
          \<and> 0 \<le> cur_version (conns w x) \<and> cur_version (conns w x) < 256)
     \<and> registry_wf (registry w) \<and> map_of (registry w) src = Some j \<and> c_tester (conns w j) = Some src
     \<and> int (length (registry w)) < max_concurrent_sessions (doip cfg)
     \<and> addr_ok src \<and> addr_ok (ecu_logical_addr (doip cfg))"

text \<open>Routing Activation does not exclude itself while it waits for an Alive Check. When two
  sockets wait for the same unresponsive predecessor, two steps later both are open and activated
  for the same source address, and the registry knows only the later one: the earlier one is an
  activated socket no later activation will ever probe or evict.\<close>

theorem overlapping_activations_share_address:
  assumes b: "both_probing cfg i k j src w"
  shows "\<exists>w'. (ecu_step cfg d [] I)\<^sup>*\<^sup>* w w'
    \<and> (\<forall>x \<in> {i, k}. c_activated (conns w' x) \<and> c_tester (conns w' x) = Some src
         \<and> \<not> c_closed (conns w' x) \<and> \<not> c_finalized (conns w' x))
    \<and> map_of (registry w') src = Some k"
proof -
  let ?w1 = "resumed cfg i src j w" and ?w2 = "resumed cfg k src j (resumed cfg i src j w)"
  have r1: "pump_resume cfg [] i src j False w = ?w1"
    by (rule resume_accepts [OF refl]) (use b in \<open>auto simp: both_probing_def\<close>)
  have s1: "ecu_step cfg d [] I w ?w1"
    using b ecu_step.ProbeTimeout [of w i src j _ _ cfg d "[]" I] unfolding r1 both_probing_def by blast
  have reg1: "registry ?w1 = registry_register src i (registry_unregister src j (registry w))"
    using b by (simp add: conn_simps both_probing_def)
  have wf: "registry_wf (registry w)" using b by (simp add: both_probing_def)
  have len: "registry_len (registry ?w1) = registry_len (registry w)"
    using b wf ecu_reg.sz_unreg [OF wf, of src j] ecu_reg.look_unreg [OF wf, of src j src]
      ecu_reg.sz_reg [OF ecu_reg.wf_unreg [OF wf], of src i src j]
    by (cases "registry w") (auto simp: reg1 both_probing_def registry_lookup_def registry_len_def)
  have c1: "conns ?w1 k = conns w k" using b by (simp add: conn_simps both_probing_def)
  have r2: "pump_resume cfg [] k src j False ?w1 = ?w2"
    by (rule resume_accepts [OF refl])
      (use b len c1 in \<open>auto simp: both_probing_def reg1 ecu_reg.wf_reg ecu_reg.wf_unreg registry_len_def\<close>)
  have s2: "ecu_step cfg d [] I ?w1 ?w2"
  proof -
    from b obtain e dl where "c_pump (conns ?w1 k) = PProbing src j e dl" "e \<notin> set (set_events ?w1)"
      "dl \<le> clock ?w1"
      by (auto simp: both_probing_def c1 conn_simps)
    from ecu_step.ProbeTimeout [OF this, of cfg d "[]" I] show ?thesis unfolding r2 .
  qed
  have "map_of (registry ?w2) src = Some k"
    by (simp add: conn_simps registry_register_def update_conv')
  with s1 s2 b show ?thesis
    by (intro exI [of _ ?w2] conjI)
      (auto simp: both_probing_def conn_simps intro: converse_rtranclp_into_rtranclp)
qed

subsection \<open>A run that reaches the overlap\<close>

abbreviation fr_ra :: bytes where
  "fr_ra \<equiv> [2, 0xFD, 0, 5, 0, 0, 0, 7, 0x0E, 0x00, 0, 0, 0, 0, 0]"

abbreviation on_frame :: "nat \<Rightarrow> bytes \<Rightarrow> world \<Rightarrow> world" where
  "on_frame i fr w \<equiv> pump_continue default_ecu_config plain_hooks i (pump_frame default_ecu_config plain_hooks i fr w)"

definition pumped :: "nat \<Rightarrow> world \<Rightarrow> world" where
  "pumped i w = upd_conn i (\<lambda>c. c\<lparr>cur_version := 2\<rparr>) (bump_general (doip default_ecu_config) i w)"

lemma pumped_fields [conn_simps]:
  "k \<noteq> i \<Longrightarrow> conns (pumped i w) k = conns w k" "registry (pumped i w) = registry w"
  "c_activated (conns (pumped i w) i) = c_activated (conns w i)"
  "c_tester (conns (pumped i w) i) = c_tester (conns w i)"
  "c_closed (conns (pumped i w) i) = c_closed (conns w i)"
  "c_finalized (conns (pumped i w) i) = c_finalized (conns w i)"
  "c_pump (conns (pumped i w) i) = c_pump (conns w i)" "cur_version (conns (pumped i w) i) = 2"
  "clock (pumped i w) = clock w" "next_event (pumped i w) = next_event w" "set_events (pumped i w) = set_events w"
  "next_conn (pumped i w) = next_conn w"
  by (simp_all add: pumped_def bump_general_def Let_def conn_simps)

lemma fr_ra_parse [simp]:
  "frame_ptype fr_ra = Inr 5" "frame_payload fr_ra = [0x0E, 0x00, 0, 0, 0, 0, 0]"
  "validate_header fr_ra None [] = Inr None" "py_index fr_ra 0 = Inr 2"
  "unpack_H (py_slice 0 2 [0x0E, 0x00, 0, 0, 0, 0, 0]) = Inr 0x0E00"
  by (simp_all add: frame_ptype_def frame_payload_def validate_header_def py_index_def py_slice_def
      unpack_uint_def from_be_def ACCEPTED_VERSIONS_def)

lemma pump_ra: "pump_frame default_ecu_config plain_hooks i fr_ra w =
    close_on_denial (ra_begin default_ecu_config plain_hooks i [0x0E, 0x00, 0, 0, 0, 0, 0]) (pumped i w)"
  by (simp add: pump_frame_def Let_def pumped_def payload_types bnd_def seq_def)

lemma default_addr [simp]: "addr_ok 0x0E00" "addr_ok (ecu_logical_addr (doip default_ecu_config))"
  by (simp_all add: addr_ok_def config_defaults)

lemma on_frame_accepts:
  assumes "\<not> c_activated (conns w i)" "\<not> c_closed (conns w i)" "registry w = []"
  shows "on_frame i fr_ra w =
    (let w = bind_tester default_ecu_config i 0x0E00 (pumped i w) in
     sent default_ecu_config i (answer_frame (conns w i) PT_ROUTING_ACT_RESPONSE
       (activation_payload default_ecu_config 0x0E00 0x10)) w)"
proof -
  let ?w = "bind_tester default_ecu_config i 0x0E00 (pumped i w)"
  have "respond_activation default_ecu_config plain_hooks i 0x0E00 0x10 ?w = (Inr (), sent default_ecu_config i
      (answer_frame (conns ?w i) PT_ROUTING_ACT_RESPONSE (activation_payload default_ecu_config 0x0E00 0x10)) ?w)"
    by (rule respond_activation_no_hooks) (use assms in \<open>simp_all add: conn_simps\<close>)
  moreover have "tester_addr_range (doip default_ecu_config) = (0x0E00, 0x0FFF)"
    "max_concurrent_sessions (doip default_ecu_config) = 8"
    by (simp_all add: config_defaults)
  ultimately show ?thesis
    using assms
    by (simp add: pump_ra close_on_denial_def try_catch_def ra_begin_def ROUTING_ACT_REQUEST_MIN_LEN_def Let_def
        conn_simps registry_lookup_def ra_accept_def registry_len_def seq_def bnd_def pump_continue_def)
qed

definition probing :: "nat \<Rightarrow> nat \<Rightarrow> world \<Rightarrow> world" where
  "probing i j w =
     (let e = next_event w;
          w1 = (upd_conn j (\<lambda>c. c\<lparr>alive_probe_event := Some e, alive_probe_pending := True\<rparr>) (pumped i w))
                 \<lparr>next_event := e + 1\<rparr>;
          w2 = sent default_ecu_config j (doip_header VER PT_ALIVE_CHECK_REQUEST 0) w1
      in upd_conn i (\<lambda>c. c\<lparr>c_pump := PProbing 0x0E00 j e (clock w + 500)\<rparr>) w2)"

lemma on_frame_probes:
  assumes "\<not> c_activated (conns w i)" "map_of (registry w) 0x0E00 = Some j" "j \<noteq> i" "\<not> c_closed (conns w j)"
  shows "on_frame i fr_ra w = probing i j w"
proof -
  let ?w1 = "(upd_conn j (\<lambda>c. c\<lparr>alive_probe_event := Some (next_event w), alive_probe_pending := True\<rparr>) (pumped i w))
                 \<lparr>next_event := next_event w + 1\<rparr>"
  have fr: "frame_args_ok PT_ALIVE_CHECK_REQUEST [] VER"
    by (simp add: frame_args_ok_def payload_types VER_def)
  have "send_frame default_ecu_config plain_hooks j PT_ALIVE_CHECK_REQUEST [] VER ?w1 =
      (Inr (), sent default_ecu_config j (doip_header VER PT_ALIVE_CHECK_REQUEST 0) ?w1)"
    using send_frame_no_hooks [OF fr, of ?w1 j default_ecu_config] assms(3,4) by (simp add: conn_simps)
  moreover have "tester_addr_range (doip default_ecu_config) = (0x0E00, 0x0FFF)"
    "alive_check_timeout_ms (doip default_ecu_config) = 500"
    by (simp_all add: config_defaults)
  ultimately show ?thesis
    using assms
    by (simp add: pump_ra close_on_denial_def try_catch_def ra_begin_def ROUTING_ACT_REQUEST_MIN_LEN_def Let_def
        conn_simps registry_lookup_def bnd_def seq_def pump_continue_def probe_begin_def probing_def)
qed

definition one_tester :: world where
  "one_tester = on_frame 0 fr_ra (accept_conn default_ecu_config (new_world default_ecu_config))"

definition three_sockets :: world where
  "three_sockets = accept_conn default_ecu_config (accept_conn default_ecu_config one_tester)"

definition two_probes :: world where
  "two_probes = on_frame 2 fr_ra (on_frame 1 fr_ra three_sockets)"

lemma accept_fields [conn_simps]:
  "conns (accept_conn cfg w) k = (if k = next_conn w then new_conn (doip cfg) (clock w) else conns w k)"
  "registry (accept_conn cfg w) = registry w" "next_conn (accept_conn cfg w) = next_conn w + 1"
  "clock (accept_conn cfg w) = clock w" "next_event (accept_conn cfg w) = next_event w"
  "set_events (accept_conn cfg w) = set_events w"
  by (simp_all add: accept_conn_def conn_simps)

lemma new_world_fields [conn_simps]:
  "registry (new_world cfg) = []" "next_conn (new_world cfg) = 0" "clock (new_world cfg) = 0"
  "next_event (new_world cfg) = 0" "set_events (new_world cfg) = []"
  by (simp_all add: new_world_def ecu.extend_def world.fields_def)

lemma new_conn_fields [conn_simps]:
  "\<not> c_activated (new_conn dc t)" "\<not> c_closed (new_conn dc t)" "\<not> c_finalized (new_conn dc t)"
  "c_pump (new_conn dc t) = PReading" "cur_version (new_conn dc t) = VER"
  by (simp_all add: new_conn_def)

lemma one_tester_state:
  "registry one_tester = [(0x0E00, 0)]" "next_conn one_tester = 1" "clock one_tester = 0"
  "next_event one_tester = 0" "set_events one_tester = []"
  "\<not> c_closed (conns one_tester 0)" "c_tester (conns one_tester 0) = Some 0x0E00"
proof -
  have eq: "one_tester = sent default_ecu_config 0
      (answer_frame (conns (bind_tester default_ecu_config 0 0x0E00
          (pumped 0 (accept_conn default_ecu_config (new_world default_ecu_config)))) 0) PT_ROUTING_ACT_RESPONSE
        (activation_payload default_ecu_config 0x0E00 0x10))
      (bind_tester default_ecu_config 0 0x0E00
        (pumped 0 (accept_conn default_ecu_config (new_world default_ecu_config))))"
    unfolding one_tester_def by (subst on_frame_accepts) (simp_all add: conn_simps Let_def)
  show "registry one_tester = [(0x0E00, 0)]" "next_conn one_tester = 1" "clock one_tester = 0"
    "next_event one_tester = 0" "set_events one_tester = []"
    "\<not> c_closed (conns one_tester 0)" "c_tester (conns one_tester 0) = Some 0x0E00"
    unfolding eq by (simp_all add: conn_simps registry_register_def)
qed

lemma probing_fields [conn_simps]:
  "k \<noteq> i \<Longrightarrow> k \<noteq> j \<Longrightarrow> conns (probing i j w) k = conns w k"
  "registry (probing i j w) = registry w" "next_conn (probing i j w) = next_conn w"
  "clock (probing i j w) = clock w" "next_event (probing i j w) = next_event w + 1"
  "set_events (probing i j w) = set_events w"
  "j \<noteq> i \<Longrightarrow> c_closed (conns (probing i j w) x) = c_closed (conns w x)"
  "j \<noteq> i \<Longrightarrow> c_finalized (conns (probing i j w) x) = c_finalized (conns w x)"
  "j \<noteq> i \<Longrightarrow> c_tester (conns (probing i j w) x) = c_tester (conns w x)"
  "j \<noteq> i \<Longrightarrow> cur_version (conns (probing i j w) i) = 2"
  "c_pump (conns (probing i j w) i) = PProbing 0x0E00 j (next_event w) (clock w + 500)"
  "j \<noteq> i \<Longrightarrow> alive_probe_event (conns (probing i j w) j) = Some (next_event w)"
  "j \<noteq> i \<Longrightarrow> alive_probe_pending (conns (probing i j w) j)"
  by (auto simp: probing_def Let_def conn_simps)

lemma one_probe_eq: "on_frame 1 fr_ra three_sockets = probing 1 0 three_sockets"
  by (rule on_frame_probes) (simp_all add: three_sockets_def conn_simps one_tester_state)

lemma two_probes_eq: "two_probes = probing 2 0 (probing 1 0 three_sockets)"
proof -
  have "on_frame 2 fr_ra (probing 1 0 three_sockets) = probing 2 0 (probing 1 0 three_sockets)"
    by (rule on_frame_probes) (simp_all add: three_sockets_def conn_simps one_tester_state)
  then show ?thesis by (simp add: two_probes_def one_probe_eq [simplified])
qed

abbreviation overlap :: world where
  "overlap \<equiv> two_probes\<lparr>clock := clock two_probes + 500\<rparr>"

lemma overlap_state:
  "c_pump (conns overlap 1) = PProbing 0x0E00 0 0 500" "c_pump (conns overlap 2) = PProbing 0x0E00 0 1 500"
  "alive_probe_event (conns overlap 0) = Some 1" "alive_probe_pending (conns overlap 0)"
  "clock overlap = 500" "set_events overlap = []"
  by (simp_all add: two_probes_eq three_sockets_def conn_simps one_tester_state)

lemma overlap_both_probing: "both_probing default_ecu_config 1 2 0 0x0E00 overlap"
proof -
  have "max_concurrent_sessions (doip default_ecu_config) = 8" by (simp add: config_defaults)
  then show ?thesis
    using overlap_state
    by (auto simp: both_probing_def two_probes_eq three_sockets_def conn_simps one_tester_state
        registry_wf_def VER_def)
qed

lemma overlap_reachable:
  "(ecu_step default_ecu_config plain_disp plain_hooks {})\<^sup>*\<^sup>* (new_world default_ecu_config) overlap"
proof -
  let ?s = "ecu_step default_ecu_config plain_disp plain_hooks {}" and ?c = default_ecu_config
  have len: "int (length fr_ra) \<le> 8 + pump_max_len ?c"
    by (simp add: pump_max_len_def FRAME_LEN_SLACK_def config_defaults)
  have fr: "?s w (on_frame i fr_ra w)" if "reading w i" for i w
    by (rule ecu_step.Frame [OF that _ len]) simp
  have acc: "?s w (accept_conn ?c w)" for w by (rule ecu_step.Accept)
  have "?s\<^sup>*\<^sup>* (new_world ?c) (accept_conn ?c (new_world ?c))" by (rule r_into_rtranclp [of ?s, OF acc])
  also have "?s\<^sup>*\<^sup>* \<dots> one_tester"
    unfolding one_tester_def by (rule r_into_rtranclp [of ?s, OF fr]) (simp add: conn_simps)
  also have "?s\<^sup>*\<^sup>* \<dots> three_sockets"
    unfolding three_sockets_def by (rule converse_rtranclp_into_rtranclp [of ?s, OF acc r_into_rtranclp [of ?s, OF acc]])
  also have "?s\<^sup>*\<^sup>* \<dots> (on_frame 1 fr_ra three_sockets)"
    by (rule r_into_rtranclp [of ?s, OF fr]) (simp add: three_sockets_def conn_simps one_tester_state)
  also have "?s\<^sup>*\<^sup>* \<dots> two_probes"
    unfolding two_probes_def one_probe_eq
    by (rule r_into_rtranclp [of ?s, OF fr]) (simp add: three_sockets_def conn_simps one_tester_state)
  also have "?s\<^sup>*\<^sup>* \<dots> overlap"
    by (rule r_into_rtranclp [of ?s], rule ecu_step.Tick) simp
  finally show ?thesis .
qed

theorem overlapping_activations_share_address_witness:
  "\<exists>w'. (ecu_step default_ecu_config plain_disp plain_hooks {})\<^sup>*\<^sup>* (new_world default_ecu_config) w'
    \<and> c_activated (conns w' 1) \<and> c_tester (conns w' 1) = Some 0x0E00 \<and> \<not> c_closed (conns w' 1)
    \<and> c_activated (conns w' 2) \<and> c_tester (conns w' 2) = Some 0x0E00 \<and> \<not> c_closed (conns w' 2)
    \<and> map_of (registry w') 0x0E00 = Some 2"
  using overlapping_activations_share_address [OF overlap_both_probing, of plain_disp "{}"]
    rtranclp_trans [OF overlap_reachable]
  by fastforce

text \<open>the answer of a live socket to an Alive Check can count for another probe. While a second
  probe of the same socket is pending, its response sets only the event of the later probe, so the
  earlier waiter times out and evicts a socket that has just answered.\<close>

theorem overlapping_probes_evict_live_socket:
  assumes b: "both_probing cfg i k j src w0" and ev: "alive_probe_event (conns w0 j) = Some ek"
    and pend: "alive_probe_pending (conns w0 j)"
    and pk: "c_pump (conns w0 k) = PProbing src j ek dlk"
    and pi: "c_pump (conns w0 i) = PProbing src j ei dli" "ei \<noteq> ek"
    and answered: "w = alive_response j w0"
  shows "ek \<in> set (set_events w)
    \<and> (\<exists>w'. ecu_step cfg d [] I w w' \<and> c_closed (conns w' j) \<and> c_activated (conns w' i)
          \<and> map_of (registry w') src = Some i)"
proof -
  have w: "conns w = conns w0" "registry w = registry w0" "clock w = clock w0" "set_events w = ek # set_events w0"
    using ev pend by (simp_all add: answered alive_response_def Let_def)
  have r: "pump_resume cfg [] i src j False w = resumed cfg i src j w"
    by (rule resume_accepts [OF refl]) (use b in \<open>auto simp: both_probing_def w\<close>)
  have t: "ei \<notin> set (set_events w)" "dli \<le> clock w"
    using b pi by (auto simp: both_probing_def w)
  have "ecu_step cfg d [] I w (resumed cfg i src j w)"
    using ecu_step.ProbeTimeout [of w i src j ei dli cfg d "[]" I] pi(1) t by (simp add: r w)
  moreover have "map_of (registry (resumed cfg i src j w)) src = Some i"
    by (simp add: conn_simps registry_register_def update_conv')
  moreover have "c_closed (conns (resumed cfg i src j w) j)" "c_activated (conns (resumed cfg i src j w) i)"
    using b by (simp_all add: conn_simps both_probing_def)
  ultimately show ?thesis by (auto simp: w)
qed

theorem overlapping_probes_evict_live_socket_witness:
  "\<exists>w'. ecu_step default_ecu_config plain_disp plain_hooks {} (alive_response 0 overlap) w'
    \<and> c_closed (conns w' 0) \<and> c_activated (conns w' 1)"
  using overlapping_probes_evict_live_socket
    [OF overlap_both_probing overlap_state(3,4,2,1) _ refl, of plain_disp "{}"]
  by auto

section \<open>What a frame is answered with\<close>

text \<open>The verdict on a Routing Activation Request, as ISO 13400-2 states it: a response code, with
  denial or confirmation, a probe of the socket that holds the address, or a new binding.\<close>

datatype ra_verdict = RaDeny int | RaConfirm | RaProbe nat | RaBind

definition ra_verdict :: "doip_config \<Rightarrow> conn \<Rightarrow> registry \<Rightarrow> nat \<Rightarrow> int \<Rightarrow> int \<Rightarrow> ra_verdict" where
  "ra_verdict dc c reg i src ty =
     (if src < fst (tester_addr_range dc) \<or> snd (tester_addr_range dc) < src then RaDeny 0x00
      else if ty \<noteq> 0 \<and> ty \<noteq> 1 then RaDeny 0x06
      else if c_activated c then (if c_tester c = Some src then RaConfirm else RaDeny 0x02)
      else case map_of reg src of
          Some j \<Rightarrow> if j \<noteq> i then RaProbe j
                     else if max_concurrent_sessions dc \<le> int (length reg) then RaDeny 0x01 else RaBind
        | None \<Rightarrow> if max_concurrent_sessions dc \<le> int (length reg) then RaDeny 0x01 else RaBind)"

text \<open>What carrying out a verdict does to the world.\<close>

definition ra_effect :: "ecu_config \<Rightarrow> nat \<Rightarrow> int \<Rightarrow> ra_verdict \<Rightarrow> world \<Rightarrow> pump_result res \<times> world" where
  "ra_effect cfg i src v w =
     (let reply = (\<lambda>code w. sent cfg i (answer_frame (conns w i) PT_ROUTING_ACT_RESPONSE (activation_payload cfg src code)) w)
      in case v of
           RaDeny code \<Rightarrow> (Inr CloseIt, reply code w)
         | RaConfirm \<Rightarrow> (Inr Continue, reply 0x10 w)
         | RaProbe j \<Rightarrow> (Inr (Probe src j), w)
         | RaBind \<Rightarrow> (Inr Continue, reply 0x10 (bind_tester cfg i src w)))"

definition conn_live :: "conn \<Rightarrow> bool" where
  "conn_live c \<longleftrightarrow> \<not> c_closed c \<and> 0 \<le> cur_version c \<and> cur_version c < 256"

lemma respond_live:
  assumes "addr_ok src" "addr_ok (ecu_logical_addr (doip cfg))" "conn_live (conns w i)" "nrc_ok code"
  shows "respond_activation cfg plain_hooks i src code w =
    (Inr (), sent cfg i (answer_frame (conns w i) PT_ROUTING_ACT_RESPONSE (activation_payload cfg src code)) w)"
  using assms by (intro respond_activation_no_hooks) (auto simp: conn_live_def)

lemma unpack_src: "7 \<le> length p \<Longrightarrow> unpack_H (py_slice 0 2 p) = Inr (from_be (take 2 p))"
  by (simp add: unpack_uint_def py_slice_def)

lemma from_be_2_addr: "addr_ok (from_be (take 2 p))"
  using from_be_less_pow [of "take 2 p" 2] by (simp add: addr_ok_def)

lemma ra_begin_decides:
  assumes p: "7 \<le> length p" and ecu: "addr_ok (ecu_logical_addr (doip cfg))" and live: "conn_live (conns w i)"
  shows "close_on_denial (ra_begin cfg plain_hooks i p) w =
    ra_effect cfg i (from_be (take 2 p))
      (ra_verdict (doip cfg) (conns w i) (registry w) i (from_be (take 2 p)) (uint (p ! 2))) w"
proof -
  let ?src = "from_be (take 2 p)"
  have src: "addr_ok ?src" by (rule from_be_2_addr)
  note r = respond_live [OF src ecu live]
  have live': "conn_live (conns (bind_tester cfg i ?src w) i)"
    using live by (simp add: conn_live_def conn_simps)
  note r' = respond_live [OF src ecu live']
  show ?thesis
    using p
    by (auto simp: ra_begin_def ROUTING_ACT_REQUEST_MIN_LEN_def unpack_src Let_def case_prod_beta ra_verdict_def
        ra_effect_def close_on_denial_def try_catch_def bnd_def seq_def deny_activation_def ra_accept_def
        registry_lookup_def registry_len_def r r' split: option.splits)
qed

text \<open>C4: on a live socket and with no hooks, a Routing Activation Request of at least seven bytes is
  answered by the decision table: 0x00 outside the tester range, 0x06 for an unsupported activation
  type, 0x02 when the socket is bound to another address, 0x10 and no other change when it is bound to
  this one, a probe when another socket holds the address, 0x01 when the ECU is full, and otherwise
  the socket is bound and 0x10 sent. Every denial closes the socket and changes nothing but its output.\<close>

theorem routing_activation_decides:
  assumes p: "7 \<le> length p" and ecu: "addr_ok (ecu_logical_addr (doip cfg))" and live: "conn_live (conns w i)"
  shows "close_on_denial (ra_begin cfg plain_hooks i p) w =
    ra_effect cfg i (from_be (take 2 p))
      (ra_verdict (doip cfg) (conns w i) (registry w) i (from_be (take 2 p)) (uint (p ! 2))) w"
  using assms by (rule ra_begin_decides)

definition ex_socket :: world where
  "ex_socket = accept_conn default_ecu_config (new_world default_ecu_config)"

lemma ex_socket_live: "conn_live (conns ex_socket 0)"
  by (simp add: conn_live_def ex_socket_def conn_simps VER_def)

theorem routing_activation_decides_witness:
  "fst (close_on_denial (ra_begin default_ecu_config plain_hooks 0 [0x0E, 0x00, 7, 0, 0, 0, 0]) ex_socket) = Inr CloseIt
   \<and> fst (close_on_denial (ra_begin default_ecu_config plain_hooks 0 [0x0E, 0x00, 0, 0, 0, 0, 0]) ex_socket) = Inr Continue"
proof -
  have c: "tester_addr_range (doip default_ecu_config) = (0x0E00, 0x0FFF)"
    "max_concurrent_sessions (doip default_ecu_config) = 8"
    by (simp_all add: config_defaults)
  have f: "from_be [0x0E, 0x00] = 0x0E00" by (simp add: from_be_def)
  have w: "registry ex_socket = []" "\<not> c_activated (conns ex_socket 0)"
    by (simp_all add: ex_socket_def conn_simps)
  show ?thesis
    using routing_activation_decides [OF _ default_addr(2) ex_socket_live, of "[0x0E, 0x00, 7, 0, 0, 0, 0]"]
      routing_activation_decides [OF _ default_addr(2) ex_socket_live, of "[0x0E, 0x00, 0, 0, 0, 0, 0]"]
    by (simp add: ra_verdict_def ra_effect_def c f w)
qed

text \<open>The verdict on a Diagnostic Message: malformed, refused with a code (and the socket closed or
  not), acknowledged and queued, or acknowledged and answered busy.\<close>

datatype diag_verdict = DMalformed | DNack int bool | DQueue uds_request | DBusy uds_request

definition diag_verdict :: "ecu_config \<Rightarrow> conn \<Rightarrow> bytes \<Rightarrow> diag_verdict" where
  "diag_verdict cfg c p =
     (let src = from_be (take 2 p); tgt = from_be (take 2 (drop 2 p)); body = drop 4 p;
          req = \<lparr>raw = body, source_addr = src, target_addr = tgt, functional = tgt = functional_addr (uds cfg)\<rparr> in
      if length p < 5 then DMalformed
      else if \<not> (c_activated c \<and> c_tester c = Some src) then DNack NACK_INVALID_SOURCE_ADDRESS True
      else if tgt \<noteq> ecu_logical_addr (doip cfg) \<and> tgt \<noteq> functional_addr (uds cfg)
        then DNack NACK_UNKNOWN_TARGET_ADDRESS False
      else if max_payload_bytes (doip cfg) < int (length body) then DNack NACK_MESSAGE_TOO_LARGE False
      else if length (uds_queue c) < 8 then DQueue req else DBusy req)"

definition diag_code_payload :: "ecu_config \<Rightarrow> int \<Rightarrow> int \<Rightarrow> bytes" where
  "diag_code_payload cfg src code = int_be 2 (ecu_logical_addr (doip cfg)) @ int_be 2 src @ [word_of_int code]"

definition answered :: "ecu_config \<Rightarrow> nat \<Rightarrow> int \<Rightarrow> bytes \<Rightarrow> world \<Rightarrow> world" where
  "answered cfg i pt pl w = sent cfg i (answer_frame (conns w i) pt pl) w"

definition diag_effect :: "ecu_config \<Rightarrow> nat \<Rightarrow> int \<Rightarrow> diag_verdict \<Rightarrow> world \<Rightarrow> pump_result res \<times> world" where
  "diag_effect cfg i src v w =
     (case v of
        DMalformed \<Rightarrow> (Inr Continue, answered cfg i PT_HEADER_NACK [0x04] w)
      | DNack code closing \<Rightarrow> (Inr (if closing then CloseIt else Continue),
          answered cfg i PT_DIAGNOSTIC_NEGATIVE_ACK (diag_code_payload cfg src code) w)
      | DQueue req \<Rightarrow> (Inr Continue,
          upd_conn i (\<lambda>c. c\<lparr>uds_queue := uds_queue c @ [(req, cur_version c)]\<rparr>)
            (answered cfg i PT_DIAGNOSTIC_POSITIVE_ACK (diag_code_payload cfg src 0) w))
      | DBusy req \<Rightarrow> (Inr Continue,
          answered cfg i PT_DIAGNOSTIC_MESSAGE
            (int_be 2 (ecu_logical_addr (doip cfg)) @ int_be 2 src @ [0x7F, word_of_int (sid req AND 0xFF), 0x21])
            (answered cfg i PT_DIAGNOSTIC_POSITIVE_ACK (diag_code_payload cfg src 0) w)))"

lemma answered_live: "conn_live (conns w i) \<Longrightarrow> conn_live (conns (answered cfg k pt pl w) i)"
  by (simp add: conn_live_def answered_def conn_simps)

lemma answered_queue [conn_simps]: "uds_queue (conns (answered cfg k pt pl w) i) = uds_queue (conns w i)"
  by (simp add: answered_def conn_simps)

lemma send_response_live:
  assumes "conn_live (conns w i)" "0 \<le> pt" "pt < 65536" "length pl < 100"
  shows "send_response cfg plain_hooks i pt pl w = (Inr (), answered cfg i pt pl w)"
  using assms by (subst send_response_no_hooks) (auto simp: conn_live_def frame_args_ok_def answered_def)

lemma pack_HH_ok: "addr_ok a \<Longrightarrow> addr_ok b \<Longrightarrow> pack_HH a b = Inr (int_be 2 a @ int_be 2 b)"
  by (simp add: pack_uint_def addr_ok_def numeral_eq_Suc)

lemma diag_ack_payload_ok:
  assumes "addr_ok src" "addr_ok (ecu_logical_addr (doip cfg))" "0 \<le> code" "code < 256"
  shows "diag_ack_payload cfg src code = Inr (diag_code_payload cfg src code)"
  using assms by (simp add: diag_ack_payload_def diag_code_payload_def pack_uint_def addr_ok_def)

lemma diag_nack_live:
  assumes "addr_ok src" "addr_ok (ecu_logical_addr (doip cfg))" "0 \<le> code" "code < 256" "conn_live (conns w i)"
  shows "diag_nack cfg plain_hooks i src code w =
    (Inr (), answered cfg i PT_DIAGNOSTIC_NEGATIVE_ACK (diag_code_payload cfg src code) w)"
  using assms
  by (simp add: diag_nack_def diag_ack_payload_ok send_response_live payload_types diag_code_payload_def)

lemma diag_accept_live:
  assumes a: "addr_ok (source_addr req)" "addr_ok (ecu_logical_addr (doip cfg))" and live: "conn_live (conns w i)"
  defines "w1 \<equiv> answered cfg i PT_DIAGNOSTIC_POSITIVE_ACK (diag_code_payload cfg (source_addr req) 0) w"
  shows "bnd (lift (diag_ack_payload cfg (source_addr req) 0)) (\<lambda>p.
      seq (send_response cfg plain_hooks i PT_DIAGNOSTIC_POSITIVE_ACK p) (enqueue_uds cfg plain_hooks i req)) w =
    diag_effect cfg i (source_addr req)
      (if length (uds_queue (conns w i)) < 8 then DQueue req else DBusy req) w"
proof -
  have live1: "conn_live (conns w1 i)" using live by (simp add: w1_def answered_live)
  have ack: "send_response cfg plain_hooks i PT_DIAGNOSTIC_POSITIVE_ACK (diag_code_payload cfg (source_addr req) 0) w
      = (Inr (), w1)"
    using live by (simp add: send_response_live w1_def payload_types diag_code_payload_def)
  have busy: "send_response cfg plain_hooks i PT_DIAGNOSTIC_MESSAGE
        (int_be 2 (ecu_logical_addr (doip cfg)) @ int_be 2 (source_addr req) @ [0x7F, x, y]) w1
      = (Inr (), answered cfg i PT_DIAGNOSTIC_MESSAGE
          (int_be 2 (ecu_logical_addr (doip cfg)) @ int_be 2 (source_addr req) @ [0x7F, x, y]) w1)" for x y
    using live1 by (simp add: send_response_live payload_types)
  have q: "uds_queue (conns w1 i) = uds_queue (conns w i)" by (simp add: w1_def conn_simps)
  show ?thesis
    by (simp add: diag_ack_payload_ok a ack enqueue_uds_def pack_HH_ok q busy UDS_QUEUE_MAXSIZE_def seq_def bnd_def
        diag_effect_def w1_def [symmetric] nrcs)
qed

text \<open>C5: on a live socket and with no hooks, a Diagnostic Message is judged by its source, its target
  and its length, in this order: only a request of the tester the socket is activated for, addressed
  to this ECU and within the payload bound is acknowledged and queued with the version it came with;
  a foreign source address is refused with 0x02 and the socket closed; a full queue answers NRC 0x21
  after the acknowledgement and queues nothing. Every answer echoes the version of the request.\<close>

theorem diagnostic_message_decides:
  assumes ecu: "addr_ok (ecu_logical_addr (doip cfg))" and live: "conn_live (conns w i)"
  shows "close_on_denial (handle_diagnostic cfg plain_hooks i p) w =
    diag_effect cfg i (from_be (take 2 p)) (diag_verdict cfg (conns w i) p) w"
proof -
  let ?src = "from_be (take 2 p)"
  have src: "addr_ok ?src" by (rule from_be_2_addr)
  have sl: "py_slice 0 2 p = take 2 p" "py_slice 2 4 p = take 2 (drop 2 p)"
    by (simp_all add: py_slice_def take_drop)
  have hn: "send_response cfg plain_hooks i PT_HEADER_NACK [0x04] w = (Inr (), answered cfg i PT_HEADER_NACK [0x04] w)"
    using live by (simp add: send_response_live payload_types)
  note nk = diag_nack_live [OF src ecu _ _ live]
  have nks: "seq (diag_nack cfg plain_hooks i ?src code) n w =
      n (answered cfg i PT_DIAGNOSTIC_NEGATIVE_ACK (diag_code_payload cfg ?src code) w)"
    if "0 \<le> code" "code < 256" for code and n :: "(world, pump_result) py"
    by (rule seq_Inr) (rule nk [OF that])
  have ac: "bnd (lift (diag_ack_payload cfg ?src 0)) (\<lambda>p.
      seq (send_response cfg plain_hooks i PT_DIAGNOSTIC_POSITIVE_ACK p) (enqueue_uds cfg plain_hooks i req)) w =
    diag_effect cfg i ?src (if length (uds_queue (conns w i)) < 8 then DQueue req else DBusy req) w"
    if "source_addr req = ?src" for req
    using diag_accept_live [of req cfg w i] that src ecu live by simp
  note defs = handle_diagnostic_def diag_verdict_def Let_def sl close_on_denial_def try_catch_def
  consider "length p < 5" | "5 \<le> length p" "\<not> (c_activated (conns w i) \<and> c_tester (conns w i) = Some ?src)"
    | "5 \<le> length p" "c_activated (conns w i)" "c_tester (conns w i) = Some ?src"
    by linarith
  then show ?thesis
  proof cases
    case 1
    then show ?thesis by (simp add: defs seq_def bnd_def hn nack_codes diag_effect_def)
  next
    case 2
    then show ?thesis by (auto simp: defs seq_def bnd_def nk nack_codes diag_effect_def)
  next
    case 3
    then show ?thesis
      by (auto simp: defs nks nack_codes diag_effect_def ac)
  qed
qed

theorem diagnostic_message_decides_witness:
  "fst (close_on_denial (handle_diagnostic default_ecu_config plain_hooks 0 [0x0E, 0, 0, 1, 0x3E, 0]) ex_socket) = Inr CloseIt"
  using diagnostic_message_decides [OF default_addr(2) ex_socket_live, of "[0x0E, 0, 0, 1, 0x3E, 0]"]
  by (simp add: diag_verdict_def diag_effect_def ex_socket_def conn_simps Let_def)

end
