(* ===== verification/Edge_Frame.thy ===== *)
theory Edge_Frame
  imports Doip_Frame
begin

text \<open>
  The EdgeNode's view of a frame: the configuration records its session uses
  (\<^verbatim>\<open>doip_edgenode/config.py\<close>), the frame builders of \<^verbatim>\<open>doip_edgenode/session.py\<close> and
  \<^verbatim>\<open>doip_edgenode/ecu_client.py\<close>, the tester-side reader with its header checks, its
  Generic Header NACKs and the chunked discard of rejected payloads, and the ECU-side reader.
\<close>

section \<open>Configuration\<close>

record edge_doip =
  vin :: string
  eid :: string
  gid :: string
  edge_node_type :: int
  node_logical_addr :: int
  edge_power_mode :: int
  edge_max_payload :: int
  edge_tester_range :: "int \<times> int"
  tester_addr_list :: "int list"
  max_connections :: int

definition is_tester_allowed :: "edge_doip \<Rightarrow> int \<Rightarrow> bool" where
  "is_tester_allowed dc addr =
     (let (low, high) = edge_tester_range dc in
      if low \<le> addr \<and> addr \<le> high then True else addr \<in> set (tester_addr_list dc))"

text \<open>Times are milliseconds.\<close>

record edge_timers =
  ecu_response_timeout :: int
  ecu_pending_max_wait :: int
  strict_response_matching :: bool

record routing_entry =
  re_logical_addr :: int
  re_ipv6 :: string
  re_interface :: string
  re_port_plain :: int
  re_port_tls :: int
  re_sni :: string

fun lookup_by_ecu_addr :: "routing_entry list \<Rightarrow> int \<Rightarrow> routing_entry option" where
  "lookup_by_ecu_addr [] a = None"
| "lookup_by_ecu_addr (e # es) a = (if re_logical_addr e = a then Some e else lookup_by_ecu_addr es a)"

lemma lookup_by_ecu_addr_Some:
  "lookup_by_ecu_addr es a = Some e \<Longrightarrow> e \<in> set es \<and> re_logical_addr e = a"
  by (induction es) (auto split: if_splits)

lemma lookup_by_ecu_addr_None: "lookup_by_ecu_addr es a = None \<longleftrightarrow> a \<notin> re_logical_addr ` set es"
  by (induction es) auto

record edge_config =
  edoip :: edge_doip
  timers :: edge_timers
  routing_table :: "routing_entry list"

section \<open>Frame builders\<close>

text \<open>\<^verbatim>\<open>DoIPSession._build_frame\<close>: the same frame as the VirtualEcu's builder, through
  \<^verbatim>\<open>int.to_bytes\<close> and \<^verbatim>\<open>bytes\<close>.\<close>

definition edge_build_frame :: "int \<Rightarrow> bytes \<Rightarrow> int \<Rightarrow> bytes res" where
  "edge_build_frame payload_type payload version =
     (let inv = 0xFF XOR version in
      ebind (to_bytes_big 2 payload_type) (\<lambda>pt_bytes.
      ebind (to_bytes_big 4 (int (length payload))) (\<lambda>len_bytes.
      ebind (py_bytes [version, inv]) (\<lambda>v.
      Inr (v @ pt_bytes @ len_bytes @ payload)))))"

interpretation edge_codec: frame_codec edge_build_frame
proof
  show "edge_build_frame pt pl ver = Inr (doip_header ver pt (int (length pl)) @ pl)"
    if "frame_args_ok pt pl ver" for pt pl ver
    using that inv_byte_range [of ver]
    by (simp add: edge_build_frame_def frame_args_ok_def to_bytes_big_def doip_header_def Let_def)
next
  show "\<exists>e. edge_build_frame pt pl ver = Inl e" if "\<not> frame_args_ok pt pl ver" for pt pl ver
    using that inv_byte_range [of ver]
    by (auto simp: edge_build_frame_def frame_args_ok_def to_bytes_big_def Let_def)
qed

text \<open>\<^verbatim>\<open>ecu_client._build_doip_frame\<close> and \<^verbatim>\<open>_build_ra_request\<close>.\<close>

definition DOIP_VER :: int where "DOIP_VER = 0x02"

definition ecu_build_frame :: "int \<Rightarrow> bytes \<Rightarrow> bytes res" where
  "ecu_build_frame payload_type payload =
     (let inv = 0xFF XOR DOIP_VER in
      ebind (pack_uint 1 DOIP_VER) (\<lambda>v.
      ebind (pack_uint 1 inv) (\<lambda>i.
      ebind (pack_uint 2 payload_type) (\<lambda>t.
      ebind (pack_uint 4 (int (length payload))) (\<lambda>l.
      Inr (v @ i @ t @ l @ payload))))))"

definition build_ra_request :: "int \<Rightarrow> bytes res" where
  "build_ra_request src_addr =
     ebind (pack_uint 2 src_addr) (\<lambda>a.
     ebind (pack_uint 1 0x00) (\<lambda>t.
     ecu_build_frame PT_ROUTING_ACT_REQUEST ((a @ t) @ [0, 0, 0, 0])))"

lemma ecu_build_frame_virt: "ecu_build_frame pt pl = build_frame pt pl DOIP_VER"
  by (simp add: ecu_build_frame_def build_frame_def)

lemma build_ra_request_ok:
  "0 \<le> a \<Longrightarrow> a < 65536 \<Longrightarrow>
   build_ra_request a = build_frame PT_ROUTING_ACT_REQUEST (int_be 2 a @ [0, 0, 0, 0, 0]) DOIP_VER"
  by (simp add: build_ra_request_def ecu_build_frame_virt pack_uint_def)

section \<open>The tester-side socket\<close>

text \<open>What the peer has sent and nobody has read, what was written, whether the session is
  closing, and whether the peer has reset the connection, which \<^verbatim>\<open>drain\<close> reports.\<close>

record edge_io =
  e_in :: bytes
  e_out :: "bytes list"
  e_closing :: bool
  e_reset :: bool

definition on_stream :: "(bytes, 'a) py \<Rightarrow> ('m edge_io_scheme, 'a) py" where
  "on_stream m s = (case m (e_in s) of (r, buf) \<Rightarrow> (r, s\<lparr>e_in := buf\<rparr>))"

definition edge_send_raw :: "bytes \<Rightarrow> ('m edge_io_scheme, unit) py" where
  "edge_send_raw data s =
     (if e_closing s then (Inr (), s)
      else if e_reset s then (Inl ConnectionResetError, s)
      else (Inr (), s\<lparr>e_out := e_out s @ [data]\<rparr>))"

definition edge_send_frame :: "int \<Rightarrow> bytes \<Rightarrow> ('m edge_io_scheme, unit) py" where
  "edge_send_frame pt pl = bnd (lift (edge_build_frame pt pl 0x02)) edge_send_raw"

definition send_header_nack :: "int \<Rightarrow> ('m edge_io_scheme, unit) py" where
  "send_header_nack nack_code =
     bnd (lift (py_bytes [nack_code])) (\<lambda>payload. edge_send_frame PT_HEADER_NACK payload)"

definition send_routing_activation_response :: "edge_doip \<Rightarrow> int \<Rightarrow> int \<Rightarrow> ('m edge_io_scheme, unit) py" where
  "send_routing_activation_response dc response_code tester_addr =
     bnd (lift (to_bytes_big 2 tester_addr)) (\<lambda>a.
     bnd (lift (to_bytes_big 2 (node_logical_addr dc))) (\<lambda>b.
     bnd (lift (py_bytes [response_code])) (\<lambda>c.
     edge_send_frame PT_ROUTING_ACT_RESPONSE (a @ b @ c @ [0, 0, 0, 0] @ [0, 0, 0, 0]))))"

text \<open>The NACK for a request swaps its addresses; a request without both is a length error.\<close>

definition send_diag_nack :: "int \<Rightarrow> bytes \<Rightarrow> ('m edge_io_scheme, unit) py" where
  "send_diag_nack nack_code request =
     (if length request < 12 then seq (send_header_nack 0x04) (raise DoIPProtocolError)
      else bnd (lift (py_bytes [nack_code])) (\<lambda>c.
        edge_send_frame PT_DIAGNOSTIC_NEGATIVE_ACK (py_slice 10 12 request @ py_slice 8 10 request @ c)))"

section \<open>Reading a frame\<close>

definition VALID_VERSIONS :: "int list" where "VALID_VERSIONS = [0x02, 0x03]"

text \<open>\<open>_TCP_PAYLOAD_LENGTHS\<close>: the lengths a supported type allows, \<open>None\<close> for a Diagnostic Message.\<close>

definition TCP_PAYLOAD_LENGTHS :: "(int \<times> int list option) list" where
  "TCP_PAYLOAD_LENGTHS =
     [(PT_HEADER_NACK, Some [1]), (PT_ROUTING_ACT_REQUEST, Some [7, 11]), (PT_ALIVE_CHECK_REQUEST, Some [0]),
      (PT_ALIVE_CHECK_RESPONSE, Some [2]), (PT_ENTITY_STATUS_REQUEST, Some [0]),
      (PT_POWER_MODE_REQUEST, Some [0]), (PT_DIAGNOSTIC_MESSAGE, None)]"

definition TCP_DISCARD_CHUNK_BYTES :: nat where "TCP_DISCARD_CHUNK_BYTES = 4096"

text \<open>The loop that reads a rejected payload chunk by chunk.\<close>

function discard_chunks :: "nat \<Rightarrow> bytes \<Rightarrow> unit res \<times> bytes" where
  "discard_chunks remaining buf =
     (if remaining = 0 then (Inr (), buf)
      else let size = min remaining TCP_DISCARD_CHUNK_BYTES in
        case read_exactly size buf of
          (Inl e, buf') \<Rightarrow> (Inl e, buf')
        | (Inr _, buf') \<Rightarrow> discard_chunks (remaining - size) buf')"
  by pat_completeness auto

termination discard_chunks
  by (relation "measure fst") (auto simp: TCP_DISCARD_CHUNK_BYTES_def)

declare discard_chunks.simps [simp del]

text \<open>\<open>_discard_payload\<close>. With \<open>stalled\<close> the peer keeps the missing bytes back until the discard
  deadline instead of closing.\<close>

definition discard_payload :: "bool \<Rightarrow> nat \<Rightarrow> ('m edge_io_scheme, unit) py" where
  "discard_payload stalled payload_len =
     (if payload_len = 0 then ret ()
      else try_catch (on_stream (discard_chunks payload_len))
        (\<lambda>e. if stalled \<and> e = IncompleteReadError then raise DoIPProtocolError else raise e))"

definition edge_read_frame :: "edge_doip \<Rightarrow> bool \<Rightarrow> ('m edge_io_scheme, bytes option) py" where
  "edge_read_frame dc stalled =
     bnd (on_stream (read_exactly 8)) (\<lambda>header.
     let ver = uint (header ! 0); inv = uint (header ! 1) in
     if ver \<notin> set VALID_VERSIONS \<or> inv \<noteq> 0xFF XOR ver
     then seq (send_header_nack 0x00) (raise DoIPProtocolError)
     else let ptype = from_be (py_slice 2 4 header); payload_len = from_be (py_slice 4 8 header) in
     case map_of TCP_PAYLOAD_LENGTHS ptype of
       None \<Rightarrow> seq (send_header_nack 0x01) (seq (discard_payload stalled (nat payload_len)) (ret None))
     | Some lengths \<Rightarrow>
         if payload_len > edge_max_payload dc
         then seq (send_header_nack 0x02) (seq (discard_payload stalled (nat payload_len)) (ret None))
         else if \<not> (case lengths of None \<Rightarrow> payload_len \<ge> 5 | Some ls \<Rightarrow> payload_len \<in> set ls)
         then seq (send_header_nack 0x04) (raise DoIPProtocolError)
         else bnd (on_stream (read_exactly (nat payload_len))) (\<lambda>payload. ret (Some (header @ payload))))"

section \<open>The verdict on a header\<close>

datatype edge_verdict = EAccept | EDiscard int | ERefuse int

definition edge_verdict :: "edge_doip \<Rightarrow> bytes \<Rightarrow> edge_verdict" where
  "edge_verdict dc hdr =
     (let ver = uint (hdr ! 0); pt = from_be (take 2 (drop 2 hdr)); n = from_be (take 4 (drop 4 hdr)) in
      if \<not> (uint (hdr ! 1) + ver = 255 \<and> (ver = 2 \<or> ver = 3)) then ERefuse 0x00
      else if pt \<notin> {0x0000, 0x0005, 0x0007, 0x0008, 0x4001, 0x4003, 0x8001} then EDiscard 0x01
      else if edge_max_payload dc < n then EDiscard 0x02
      else if pt = 0x0000 \<and> n = 1 \<or> pt = 0x0005 \<and> (n = 7 \<or> n = 11) \<or> pt \<in> {0x0007, 0x4001, 0x4003} \<and> n = 0
              \<or> pt = 0x0008 \<and> n = 2 \<or> pt = 0x8001 \<and> 5 \<le> n
        then EAccept else ERefuse 0x04)"

definition nack_frame :: "int \<Rightarrow> bytes" where
  "nack_frame code = [2, 0xFD, 0, 0, 0, 0, 0, 1, word_of_int code]"

lemma build_nack: "0 \<le> c \<Longrightarrow> c < 256 \<Longrightarrow> edge_build_frame PT_HEADER_NACK [word_of_int c] 2 = Inr (nack_frame c)"
  by (subst edge_codec.build_ok)
    (simp_all add: frame_args_ok_def nack_frame_def payload_types doip_header_def numeral_eq_Suc)

lemma send_header_nack_open:
  assumes "\<not> e_closing s" "\<not> e_reset s" "0 \<le> c" "c < 256"
  shows "send_header_nack c s = (Inr (), s\<lparr>e_out := e_out s @ [nack_frame c]\<rparr>)"
  using assms by (simp add: send_header_nack_def edge_send_frame_def build_nack edge_send_raw_def)

lemma discard_chunks_enough: "n \<le> length buf \<Longrightarrow> discard_chunks n buf = (Inr (), drop n buf)"
proof (induction n buf rule: discard_chunks.induct)
  case (1 n buf)
  show ?case
  proof (cases "n = 0")
    case False
    let ?k = "min n TCP_DISCARD_CHUNK_BYTES"
    have r: "read_exactly ?k buf = (Inr (take ?k buf), drop ?k buf)"
      using 1(2) by (simp add: read_exactly_def)
    have "discard_chunks (n - ?k) (drop ?k buf) = (Inr (), drop (n - ?k) (drop ?k buf))"
      using 1(2) by (intro 1(1) [OF False refl r [symmetric] refl]) simp
    with r False show ?thesis by (subst discard_chunks.simps) (simp add: Let_def)
  qed (simp add: discard_chunks.simps)
qed

lemma discard_chunks_short: "length buf < n \<Longrightarrow> discard_chunks n buf = (Inl IncompleteReadError, [])"
proof (induction n buf rule: discard_chunks.induct)
  case (1 n buf)
  let ?k = "min n TCP_DISCARD_CHUNK_BYTES"
  from 1(2) have n: "n \<noteq> 0" by simp
  show ?case
  proof (cases "length buf < ?k")
    case True
    with n show ?thesis by (subst discard_chunks.simps) (simp add: Let_def read_exactly_def)
  next
    case False
    then have r: "read_exactly ?k buf = (Inr (take ?k buf), drop ?k buf)" by (simp add: read_exactly_def)
    have "discard_chunks (n - ?k) (drop ?k buf) = (Inl IncompleteReadError, [])"
      using 1(2) False by (intro 1(1) [OF n refl r [symmetric] refl]) simp
    with r n show ?thesis by (subst discard_chunks.simps) (simp add: Let_def)
  qed
qed

lemma discard_payload_enough:
  assumes "n \<le> length (e_in s)"
  shows "discard_payload st n s = (Inr (), s\<lparr>e_in := drop n (e_in s)\<rparr>)"
  using assms by (simp add: discard_payload_def try_catch_def on_stream_def discard_chunks_enough)

lemma discard_payload_short:
  assumes "length (e_in s) < n"
  shows "discard_payload st n s = (Inl (if st then DoIPProtocolError else IncompleteReadError), s\<lparr>e_in := []\<rparr>)"
  using assms by (auto simp: discard_payload_def try_catch_def on_stream_def discard_chunks_short)

lemma length_table:
  "map_of TCP_PAYLOAD_LENGTHS pt =
     (if pt = 0x0000 then Some (Some [1]) else if pt = 0x0005 then Some (Some [7, 11])
      else if pt = 0x0007 then Some (Some [0]) else if pt = 0x0008 then Some (Some [2])
      else if pt = 0x4001 then Some (Some [0]) else if pt = 0x4003 then Some (Some [0])
      else if pt = 0x8001 then Some None else None)"
  by (simp add: TCP_PAYLOAD_LENGTHS_def payload_types)

text \<open>The EdgeNode's reader on a whole frame. A header with a wrong version pattern or a length its
  type does not allow is answered with NACK 0x00 or 0x04 and ends the session; an unsupported type or a
  payload over the limit is answered with NACK 0x01 or 0x02 and its payload, of any size, is taken off
  the stream, so that the next read starts at the next frame; every other frame is returned whole and
  nothing is sent.\<close>

theorem edge_read_frame_spec:
  assumes io: "\<not> e_closing s" "\<not> e_reset s" and inp: "e_in s = hdr @ body @ rest" "length hdr = 8"
    and len: "int (length body) = from_be (take 4 (drop 4 hdr))"
  shows "edge_read_frame dc stalled s =
    (case edge_verdict dc hdr of
       EAccept \<Rightarrow> (Inr (Some (hdr @ body)), s\<lparr>e_in := rest\<rparr>)
     | EDiscard c \<Rightarrow> (Inr None, s\<lparr>e_in := rest, e_out := e_out s @ [nack_frame c]\<rparr>)
     | ERefuse c \<Rightarrow> (Inl DoIPProtocolError, s\<lparr>e_in := body @ rest, e_out := e_out s @ [nack_frame c]\<rparr>))"
proof -
  define buf where "buf = body @ rest"
  let ?s = "s\<lparr>e_in := buf\<rparr>"
  have h: "on_stream (read_exactly 8) s = (Inr hdr, ?s)"
    using inp by (simp add: on_stream_def read_exactly_def buf_def)
  have sl: "py_slice 2 4 hdr = take 2 (drop 2 hdr)" "py_slice 4 8 hdr = take 4 (drop 4 hdr)"
    by (simp_all add: py_slice_def take_drop)
  have x: "0xFF XOR uint (hdr ! 0) = 255 - uint (hdr ! 0)" by (rule xor_255) simp_all
  have nk: "send_header_nack c ?s = (Inr (), ?s\<lparr>e_out := e_out s @ [nack_frame c]\<rparr>)"
    if "0 \<le> c" "c < 256" for c
    using send_header_nack_open [of ?s c] io that by simp
  have b: "on_stream (read_exactly k) ?s = (Inr body, s\<lparr>e_in := rest\<rparr>)" if "length body = k" for k
    using that by (auto simp: on_stream_def read_exactly_def buf_def)
  have d: "discard_payload stalled (length body) (?s\<lparr>e_out := e_out s @ [nack_frame c]\<rparr>) =
      (Inr (), s\<lparr>e_in := rest, e_out := e_out s @ [nack_frame c]\<rparr>)" for c
    by (subst discard_payload_enough) (simp_all add: buf_def)
  show ?thesis
    unfolding edge_read_frame_def buf_def [symmetric] bnd_Inr [of "on_stream (read_exactly 8)", OF h]
    by (auto simp: Let_def sl x VALID_VERSIONS_def length_table len [symmetric] edge_verdict_def seq_def bnd_def nk d b)
qed

definition ex_edge_doip :: edge_doip where
  "ex_edge_doip = \<lparr>vin = ''TESTVIN0123456789'', eid = ''001122334455'', gid = ''001122334455'', edge_node_type = 0,
     node_logical_addr = 0x1234, edge_power_mode = 1, edge_max_payload = 4096, edge_tester_range = (0x0E00, 0x0FFF),
     tester_addr_list = [], max_connections = 8\<rparr>"

definition ex_io :: "bytes \<Rightarrow> edge_io" where
  "ex_io b = \<lparr>e_in = b, e_out = [], e_closing = False, e_reset = False\<rparr>"

theorem edge_read_frame_spec_witness:
  "edge_read_frame ex_edge_doip False (ex_io [2, 0xFD, 0xDE, 0xAD, 0, 0, 0, 2, 7, 7, 2])
     = (Inr None, (ex_io [2])\<lparr>e_out := [nack_frame 1]\<rparr>)"
  using edge_read_frame_spec [of "ex_io [2, 0xFD, 0xDE, 0xAD, 0, 0, 0, 2, 7, 7, 2]"
      "[2, 0xFD, 0xDE, 0xAD, 0, 0, 0, 2]" "[7, 7]" "[2]" ex_edge_doip False]
  by (simp add: ex_io_def edge_verdict_def from_be_def Let_def)

section \<open>The reading part of the session loop\<close>

lemma send_header_nack_in [simp]: "e_in (snd (send_header_nack c s)) = e_in s"
  by (auto simp: send_header_nack_def edge_send_frame_def edge_send_raw_def bnd_def split: sum.splits)

lemma discard_payload_in: "length (e_in (snd (discard_payload st n s))) \<le> length (e_in s)"
  by (cases "length (e_in s) < n") (simp_all add: discard_payload_short discard_payload_enough)

lemma nack_then_in:
  assumes "\<And>s. length (e_in (snd (m s))) \<le> length (e_in s)"
  shows "length (e_in (snd (seq (send_header_nack c) m s))) \<le> length (e_in s)"
proof (cases "send_header_nack c s")
  case (Pair r s')
  then have "e_in s' = e_in s" using send_header_nack_in [of c s] by simp
  with Pair assms [of s'] show ?thesis by (simp add: seq_def bnd_def split: sum.split)
qed

text \<open>Every frame the reader returns or discards takes its header off the stream.\<close>

lemma edge_read_frame_consumes:
  assumes "edge_read_frame dc st s = (Inr r, s')"
  shows "length (e_in s') < length (e_in s)"
proof (cases "length (e_in s) < 8")
  case True
  then show ?thesis using assms by (simp add: edge_read_frame_def bnd_def on_stream_def read_exactly_def)
next
  case False
  let ?s = "s\<lparr>e_in := drop 8 (e_in s)\<rparr>" and ?h = "take 8 (e_in s)"
  have h: "on_stream (read_exactly 8) s = (Inr ?h, ?s)"
    using False by (simp add: on_stream_def read_exactly_def)
  have d: "length (e_in (snd (seq (discard_payload st n) (ret (None :: bytes option)) s))) \<le> length (e_in s)"
    for n and s :: "'a edge_io_scheme"
    using discard_payload_in [of st n s] by (auto simp: seq_def bnd_def split: sum.splits prod.splits)
  have r: "length (e_in (snd (bnd (on_stream (read_exactly n)) (\<lambda>p. ret (Some (?h @ p))) ?s))) \<le> length (e_in ?s)" for n
    by (auto simp: bnd_def on_stream_def read_exactly_def)
  have "length (e_in (snd (edge_read_frame dc st s))) \<le> length (e_in ?s)"
    unfolding edge_read_frame_def bnd_Inr [of "on_stream (read_exactly 8)", OF h]
    using nack_then_in [OF d, of _ _ ?s] r nack_then_in [of "raise DoIPProtocolError" _ ?s]
    by (auto simp: Let_def simp del: edge_io.simps split: option.splits)
  with False assms show ?thesis by simp
qed

text \<open>\<open>_session_loop\<close> up to the dissection of a frame: rejected frames, received Header NACKs and Alive
  Checks before activation are skipped. \<open>None\<close> when the session is closing.\<close>

function edge_next_frame ::
    "edge_doip \<Rightarrow> bool \<Rightarrow> bool \<Rightarrow> 'm edge_io_scheme \<Rightarrow> bytes option res \<times> 'm edge_io_scheme" where
  "edge_next_frame dc stalled activated s =
     (if e_closing s then (Inr None, s)
      else case edge_read_frame dc stalled s of
        (Inl e, s') \<Rightarrow> (Inl e, s')
      | (Inr None, s') \<Rightarrow> edge_next_frame dc stalled activated s'
      | (Inr (Some raw), s') \<Rightarrow>
          let ptype = from_be (py_slice 2 4 raw) in
          if ptype = PT_HEADER_NACK then edge_next_frame dc stalled activated s'
          else if \<not> activated \<and> ptype \<in> {PT_ALIVE_CHECK_REQUEST, PT_ALIVE_CHECK_RESPONSE}
            then edge_next_frame dc stalled activated s'
          else (Inr (Some raw), s'))"
  by pat_completeness auto

termination edge_next_frame
  by (relation "measure (\<lambda>(dc, st, a, s). length (e_in s))") (auto dest: edge_read_frame_consumes sym)

declare edge_next_frame.simps [simp del]

text \<open>A frame whose declared length is the length of its payload.\<close>

definition whole_frame :: "bytes \<times> bytes \<Rightarrow> bool" where
  "whole_frame f \<longleftrightarrow> length (fst f) = 8 \<and> int (length (snd f)) = from_be (take 4 (drop 4 (fst f)))"

definition wire :: "(bytes \<times> bytes) list \<Rightarrow> bytes" where
  "wire fs = concat (map (\<lambda>(h, b). h @ b) fs)"

fun discard_code :: "edge_verdict \<Rightarrow> int option" where
  "discard_code (EDiscard c) = Some c"
| "discard_code _ = None"

lemma discard_code_iff: "discard_code v = Some c \<longleftrightarrow> v = EDiscard c"
  by (cases v) simp_all

text \<open>C35: framing survives rejected frames. However many whole frames of an unsupported type or over
  the payload limit come first, the loop answers each with its NACK, in order, and returns exactly the
  first acceptable frame behind them, leaving what follows it on the stream.\<close>

theorem edge_reader_resynchronises:
  assumes io: "\<not> e_closing s" "\<not> e_reset s"
    and inp: "e_in s = wire bad @ (hdr @ body) @ rest"
    and bad: "\<forall>f \<in> set bad. whole_frame f \<and> discard_code (edge_verdict dc (fst f)) \<noteq> None"
    and good: "whole_frame (hdr, body)" "edge_verdict dc hdr = EAccept"
      "from_be (take 2 (drop 2 hdr)) \<in> {PT_ROUTING_ACT_REQUEST, PT_DIAGNOSTIC_MESSAGE, PT_ENTITY_STATUS_REQUEST}"
  shows "edge_next_frame dc stalled act s =
    (Inr (Some (hdr @ body)),
     s\<lparr>e_in := rest, e_out := e_out s @ map (\<lambda>f. nack_frame (the (discard_code (edge_verdict dc (fst f))))) bad\<rparr>)"
  using io inp bad
proof (induction bad arbitrary: s)
  case Nil
  have r: "edge_read_frame dc stalled s = (Inr (Some (hdr @ body)), s\<lparr>e_in := rest\<rparr>)"
    using edge_read_frame_spec [of s hdr body rest dc stalled] Nil good by (simp add: wire_def whole_frame_def)
  have "py_slice 2 4 (hdr @ body) = take 2 (drop 2 hdr)"
    using good(1) by (simp add: whole_frame_def py_slice_def take_drop)
  with r Nil good(3) show ?case
    by (subst edge_next_frame.simps) (auto simp: Let_def payload_types)
next
  case (Cons f bad)
  obtain h b where f: "f = (h, b)" by (cases f)
  with Cons.prems(4) obtain c where c: "edge_verdict dc h = EDiscard c" "whole_frame (h, b)"
    by (auto simp: discard_code_iff)
  let ?s = "s\<lparr>e_in := wire bad @ (hdr @ body) @ rest, e_out := e_out s @ [nack_frame c]\<rparr>"
  have "edge_read_frame dc stalled s = (Inr None, ?s)"
    using edge_read_frame_spec [of s h b "wire bad @ (hdr @ body) @ rest" dc stalled] Cons.prems c
    by (simp add: wire_def whole_frame_def f)
  then have "edge_next_frame dc stalled act s = edge_next_frame dc stalled act ?s"
    using Cons.prems(1) by (subst edge_next_frame.simps) simp
  also have "\<dots> = (Inr (Some (hdr @ body)), ?s\<lparr>e_in := rest, e_out := e_out ?s
      @ map (\<lambda>f. nack_frame (the (discard_code (edge_verdict dc (fst f))))) bad\<rparr>)"
    by (rule Cons.IH) (use Cons.prems in simp_all)
  finally show ?case using c f by simp
qed

theorem edge_reader_resynchronises_witness:
  "edge_next_frame ex_edge_doip False False (ex_io [2, 0xFD, 0xDE, 0xAD, 0, 0, 0, 1, 9, 2, 0xFD, 0x40, 1, 0, 0, 0, 0, 5])
     = (Inr (Some [2, 0xFD, 0x40, 1, 0, 0, 0, 0]), (ex_io [5])\<lparr>e_out := [nack_frame 1]\<rparr>)"
  using edge_reader_resynchronises
    [of "ex_io [2, 0xFD, 0xDE, 0xAD, 0, 0, 0, 1, 9, 2, 0xFD, 0x40, 1, 0, 0, 0, 0, 5]"
      "[([2, 0xFD, 0xDE, 0xAD, 0, 0, 0, 1], [9])]" "[2, 0xFD, 0x40, 1, 0, 0, 0, 0]" "[]" "[5]" ex_edge_doip False False]
  by (simp add: ex_io_def wire_def edge_verdict_def from_be_def Let_def whole_frame_def payload_types ex_edge_doip_def)

end
