(* ===== verification/Ecu_Client.thy ===== *)
theory Ecu_Client
  imports Edge_Frame
begin

text \<open>
  \<open>ECUConnection\<close> of \<^verbatim>\<open>doip_edgenode/ecu_client.py\<close>: one connection of the EdgeNode to an ECU, on the
  plain port. What the ECU has sent and nobody has read is a list of bytes; the queue between the
  background reader and \<open>recv\<close> is a list whose \<open>None\<close> is the persistent marker of a terminated
  connection. The TLS transport, which the sessions never ask for, is in \<open>Tls_Bridge\<close>.
\<close>

section \<open>State\<close>

record ecu_leg =
  leg_addr :: int
  leg_max :: int
  leg_in :: bytes
  leg_out :: "bytes list"
  leg_connected :: bool
  leg_terminal :: bool
  leg_queue :: "bytes option list"
  leg_tester :: int
  leg_closed :: bool

definition new_leg :: "routing_entry \<Rightarrow> int \<Rightarrow> ecu_leg" where
  "new_leg entry max_payload_bytes =
     \<lparr>leg_addr = re_logical_addr entry, leg_max = max_payload_bytes, leg_in = [], leg_out = [],
      leg_connected = False, leg_terminal = False, leg_queue = [], leg_tester = 0x0E00, leg_closed = False\<rparr>"

text \<open>\<open>_mark_terminal\<close>: the marker goes behind queued frames, which an explicit close discards.\<close>

definition mark_terminal :: "bool \<Rightarrow> ecu_leg \<Rightarrow> ecu_leg" where
  "mark_terminal discard l =
     (let l1 = l\<lparr>leg_connected := False\<rparr>;
          first = \<not> leg_terminal l1;
          l2 = l1\<lparr>leg_terminal := True\<rparr>;
          l3 = (if discard then l2\<lparr>leg_queue := []\<rparr> else l2)
      in if first \<or> discard then l3\<lparr>leg_queue := leg_queue l3 @ [None]\<rparr> else l3)"

definition leg_send :: "bytes \<Rightarrow> (ecu_leg, unit) py" where
  "leg_send data l =
     (if leg_terminal l then (Inl ConnectionError, l)
      else if \<not> leg_connected l then (Inl RuntimeError, l)
      else (Inr (), l\<lparr>leg_out := leg_out l @ [data]\<rparr>))"

text \<open>\<open>recv\<close>: \<open>None\<close> while the queue is empty, where the source waits.\<close>

definition leg_recv :: "ecu_leg \<Rightarrow> (bytes res \<times> ecu_leg) option" where
  "leg_recv l =
     (if \<not> leg_connected l \<and> \<not> leg_terminal l then Some (Inl RuntimeError, l)
      else case leg_queue l of
        [] \<Rightarrow> None
      | None # q \<Rightarrow> Some (Inl ConnectionError, l\<lparr>leg_queue := q @ [None]\<rparr>)
      | Some raw # q \<Rightarrow> Some (Inr raw, l\<lparr>leg_queue := q\<rparr>))"

definition leg_close :: "ecu_leg \<Rightarrow> ecu_leg" where
  "leg_close l = (mark_terminal True l)\<lparr>leg_closed := True\<rparr>"

section \<open>Reading from the ECU\<close>

definition leg_read_exactly :: "nat \<Rightarrow> (ecu_leg, bytes) py" where
  "leg_read_exactly n l = (case read_exactly n (leg_in l) of (r, buf) \<Rightarrow> (r, l\<lparr>leg_in := buf\<rparr>))"

definition ECU_FIXED_LENGTHS :: "(int \<times> int list) list" where
  "ECU_FIXED_LENGTHS =
     [(0x0000, [1]), (PT_ROUTING_ACT_RESPONSE, [9, 13]), (PT_ALIVE_CHECK_REQUEST, [0]),
      (PT_ALIVE_CHECK_RESPONSE, [2]), (0x4002, [3, 7]), (0x4004, [1])]"

definition ecu_read_frame :: "(ecu_leg, bytes) py" where
  "ecu_read_frame =
     bnd (leg_read_exactly 8) (\<lambda>header.
     let version = uint (header ! 0); inverse = uint (header ! 1);
         ptype = from_be (py_slice 2 4 header); payload_len = from_be (py_slice 4 8 header) in
     if version \<notin> {0x02, 0x03} \<or> inverse \<noteq> version XOR 0xFF then raise RuntimeError
     else bnd (gets leg_max) (\<lambda>limit.
     if payload_len > limit then raise RuntimeError
     else
       let valid = (case map_of ECU_FIXED_LENGTHS ptype of
           Some ls \<Rightarrow> Some (payload_len \<in> set ls)
         | None \<Rightarrow> if ptype \<in> {0x8001, 0x8002, 0x8003} then Some (payload_len \<ge> 5) else None) in
       if valid \<noteq> Some True then raise RuntimeError
       else bnd (leg_read_exactly (nat payload_len)) (\<lambda>payload. ret (header @ payload))))"

definition send_alive_check_response :: "int \<Rightarrow> (ecu_leg, unit) py" where
  "send_alive_check_response tester_addr =
     bnd (lift (pack_H tester_addr)) (\<lambda>a.
     bnd (lift (ecu_build_frame PT_ALIVE_CHECK_RESPONSE a)) leg_send)"

section \<open>Routing activation towards the ECU\<close>

text \<open>What the frame after the request means: go on waiting (\<open>None\<close>), or done.\<close>

definition ra_frame :: "int \<Rightarrow> bytes \<Rightarrow> (ecu_leg, unit option) py" where
  "ra_frame tester raw =
     (let ptype = from_be (py_slice 2 4 raw) in
      if ptype = 0x0000 then ret None
      else if ptype = PT_ALIVE_CHECK_REQUEST then seq (send_alive_check_response tester) (ret None)
      else if ptype \<noteq> PT_ROUTING_ACT_RESPONSE then raise RuntimeError
      else
        let payload = drop 8 raw in
        if length payload \<notin> {9, 13} then raise RuntimeError
        else
          let echoed_tester = from_be (py_slice 0 2 payload); entity_addr = from_be (py_slice 2 4 payload) in
          if echoed_tester \<noteq> tester then raise RuntimeError
          else bnd (gets leg_addr) (\<lambda>a.
            if entity_addr \<noteq> a then raise RuntimeError
            else if uint (payload ! 4) = 0x10 then ret (Some ())
            else raise RuntimeError))"

fun ra_wait :: "nat \<Rightarrow> int \<Rightarrow> (ecu_leg, unit) py" where
  "ra_wait 0 tester = raise RuntimeError"
| "ra_wait (Suc n) tester =
     bnd ecu_read_frame (\<lambda>raw.
     bnd (ra_frame tester raw) (\<lambda>r. case r of None \<Rightarrow> ra_wait n tester | Some _ \<Rightarrow> ret ()))"

definition do_routing_activation :: "int \<Rightarrow> (ecu_leg, unit) py" where
  "do_routing_activation tester =
     bnd (lift (build_ra_request tester)) (\<lambda>req. seq (leg_send req) (ra_wait 3 tester))"

text \<open>\<open>connect\<close> once the TCP connection stands: a failure leaves a terminal, closed leg.\<close>

definition leg_connect :: "int \<Rightarrow> (ecu_leg, unit) py" where
  "leg_connect tester l =
     (if leg_terminal l then (Inl ConnectionError, l)
      else if leg_connected l then (Inl RuntimeError, l)
      else case do_routing_activation tester (l\<lparr>leg_connected := True, leg_tester := tester\<rparr>) of
        (Inl e, l') \<Rightarrow> (Inl e, leg_close (mark_terminal True l'))
      | (Inr _, l') \<Rightarrow> (Inr (), l'))"

section \<open>The background reader\<close>

lemma leg_read_exactly_in: "length (leg_in (snd (leg_read_exactly n l))) \<le> length (leg_in l)"
  by (simp add: leg_read_exactly_def read_exactly_def)

lemma ecu_read_frame_consumes:
  assumes "ecu_read_frame l = (Inr raw, l')"
  shows "length (leg_in l') < length (leg_in l)"
proof (cases "length (leg_in l) < 8")
  case True
  then show ?thesis using assms by (simp add: ecu_read_frame_def bnd_def leg_read_exactly_def read_exactly_def)
next
  case False
  then have h: "leg_read_exactly 8 l = (Inr (take 8 (leg_in l)), l\<lparr>leg_in := drop 8 (leg_in l)\<rparr>)"
    by (simp add: leg_read_exactly_def read_exactly_def)
  show ?thesis
    using assms False
    by (auto simp: ecu_read_frame_def bnd_Inr [of "leg_read_exactly 8", OF h] Let_def bnd_def leg_read_exactly_def
        read_exactly_def split: if_splits)
qed

lemma send_alive_in [simp]: "leg_in (snd (send_alive_check_response a l)) = leg_in l"
  by (auto simp: send_alive_check_response_def bnd_def leg_send_def split: sum.splits)

lemma send_alive_same: "send_alive_check_response a l = (r, l') \<Longrightarrow> leg_in l' = leg_in l"
  using send_alive_in [of a l] by simp

text \<open>\<open>_background_reader\<close>: every frame the ECU sends until its stream ends or breaks the protocol.\<close>

function background_reader :: "ecu_leg \<Rightarrow> ecu_leg" where
  "background_reader l =
     (case ecu_read_frame l of
        (Inl e, l') \<Rightarrow> (mark_terminal False l')\<lparr>leg_closed := True\<rparr>
      | (Inr raw, l') \<Rightarrow>
          let ptype = from_be (py_slice 2 4 raw) in
          if ptype = 0x0000 then background_reader l'
          else if ptype = PT_ALIVE_CHECK_REQUEST
            then (case send_alive_check_response (leg_tester l') l' of
                    (Inl e, l'') \<Rightarrow> (mark_terminal False l'')\<lparr>leg_closed := True\<rparr>
                  | (Inr _, l'') \<Rightarrow> background_reader l'')
          else background_reader (l'\<lparr>leg_queue := leg_queue l' @ [Some raw]\<rparr>))"
  by pat_completeness auto

termination background_reader
  by (relation "measure (\<lambda>l. length (leg_in l))")
    (auto dest!: sym [of "(_, _)"] ecu_read_frame_consumes send_alive_same)

declare background_reader.simps [simp del]

section \<open>What reaches the exchange\<close>

text \<open>The frames the reader lets through, as the protocol states them.\<close>

definition ecu_length_ok :: "int \<Rightarrow> int \<Rightarrow> bool" where
  "ecu_length_ok pt n \<longleftrightarrow>
     pt = 0x0000 \<and> n = 1 \<or> pt = 0x0006 \<and> (n = 9 \<or> n = 13) \<or> pt = 0x0007 \<and> n = 0 \<or> pt = 0x0008 \<and> n = 2
     \<or> pt = 0x4002 \<and> (n = 3 \<or> n = 7) \<or> pt = 0x4004 \<and> n = 1 \<or> pt \<in> {0x8001, 0x8002, 0x8003} \<and> 5 \<le> n"

definition ecu_frame_ok :: "int \<Rightarrow> bytes \<Rightarrow> bool" where
  "ecu_frame_ok m f \<longleftrightarrow>
     (let ver = uint (f ! 0); n = from_be (take 4 (drop 4 f)) in
      8 \<le> length f \<and> int (length f) = 8 + n \<and> n \<le> m \<and> uint (f ! 1) + ver = 255 \<and> (ver = 2 \<or> ver = 3)
      \<and> ecu_length_ok (from_be (take 2 (drop 2 f))) n)"

abbreviation pt_of :: "bytes \<Rightarrow> int" where
  "pt_of f \<equiv> from_be (take 2 (drop 2 f))"

lemma ecu_length_table:
  "map_of ECU_FIXED_LENGTHS pt =
     (if pt = 0x0000 then Some [1] else if pt = 0x0006 then Some [9, 13] else if pt = 0x0007 then Some [0]
      else if pt = 0x0008 then Some [2] else if pt = 0x4002 then Some [3, 7] else if pt = 0x4004 then Some [1] else None)"
  by (simp add: ECU_FIXED_LENGTHS_def payload_types)

lemma ecu_length_valid:
  assumes "ecu_length_ok pt n"
  shows "(case map_of ECU_FIXED_LENGTHS pt of Some ls \<Rightarrow> Some (n \<in> set ls)
      | None \<Rightarrow> if pt \<in> {0x8001, 0x8002, 0x8003} then Some (n \<ge> 5) else None) = Some True"
  using assms unfolding ecu_length_ok_def by (elim disjE conjE insertE) (simp_all add: ecu_length_table)

lemma ecu_read_ok:
  assumes f: "ecu_frame_ok (leg_max l) f" and inp: "leg_in l = f @ rest"
  shows "ecu_read_frame l = (Inr f, l\<lparr>leg_in := rest\<rparr>)"
proof -
  let ?h = "take 8 f" and ?b = "drop 8 f"
  define buf where "buf = ?b @ rest"
  let ?n = "from_be (take 4 (drop 4 f))"
  have F: "8 \<le> length f" "int (length f) = 8 + ?n" "?n \<le> leg_max l" "uint (f ! 1) + uint (f ! 0) = 255"
    "uint (f ! 0) = 2 \<or> uint (f ! 0) = 3" "ecu_length_ok (pt_of f) ?n"
    using f unfolding ecu_frame_ok_def Let_def by blast+
  have len: "8 \<le> length f" "?n = int (length ?b)" using F(1,2) by simp_all
  have h: "leg_read_exactly 8 l = (Inr ?h, l\<lparr>leg_in := buf\<rparr>)"
    using len inp by (simp add: leg_read_exactly_def read_exactly_def buf_def)
  have sl: "py_slice 2 4 ?h = take 2 (drop 2 f)" "py_slice 4 8 ?h = take 4 (drop 4 f)"
    "?h ! 0 = f ! 0" "?h ! 1 = f ! 1"
    using len by (simp_all add: py_slice_def drop_take)
  have x: "uint (f ! 0) XOR 0xFF = 255 - uint (f ! 0)"
    using xor_255 [of "uint (f ! 0)"] by (simp add: xor.commute)
  have b: "leg_read_exactly k (l\<lparr>leg_in := buf\<rparr>) = (Inr ?b, l\<lparr>leg_in := rest\<rparr>)" if "length ?b = k" for k
    using that by (auto simp: leg_read_exactly_def read_exactly_def buf_def)
  have valid: "(case map_of ECU_FIXED_LENGTHS (pt_of f) of Some ls \<Rightarrow> Some (int (length ?b) \<in> set ls)
      | None \<Rightarrow> if pt_of f \<in> {0x8001, 0x8002, 0x8003} then Some (int (length ?b) \<ge> 5) else None) = Some True"
    by (rule ecu_length_valid) (rule F(6) [unfolded len(2)])
  have hd: "\<not> (uint (f ! 0) \<notin> {0x02, 0x03} \<or> uint (f ! 1) \<noteq> uint (f ! 0) XOR 0xFF)"
    and lim: "\<not> int (length ?b) > leg_max l"
    using F(3-5) x unfolding len(2) by simp_all
  show ?thesis
    unfolding ecu_read_frame_def bnd_Inr [of "leg_read_exactly 8", OF h] Let_def sl len(2) valid
    using hd lim by (simp add: bnd_def b)
qed

definition alive_answer :: "int \<Rightarrow> bytes" where
  "alive_answer tester = [2, 0xFD, 0, 8, 0, 0, 0, 2] @ int_be 2 tester"

lemma send_alive_ok:
  assumes "0 \<le> a" "a < 65536" "leg_connected l" "\<not> leg_terminal l"
  shows "send_alive_check_response a l = (Inr (), l\<lparr>leg_out := leg_out l @ [alive_answer a]\<rparr>)"
proof -
  have "ecu_build_frame PT_ALIVE_CHECK_RESPONSE (int_be 2 a) = Inr (alive_answer a)"
    by (simp add: ecu_build_frame_def DOIP_VER_def pack_uint_def payload_types alive_answer_def numeral_eq_Suc)
  with assms show ?thesis by (simp add: send_alive_check_response_def pack_uint_def leg_send_def)
qed

lemma pt_slice: "8 \<le> length f \<Longrightarrow> py_slice 2 4 f = take 2 (drop 2 f)"
  by (simp add: py_slice_def drop_take)

text \<open>While the ECU's stream holds well-formed frames, followed by an incomplete header, the
  background reader answers each Alive Check Request with the tester's address, hands neither these
  nor Header NACKs on, queues every other frame in its order, and ends with the marker that wakes
  every receiver.\<close>

theorem ecu_reader_filters:
  assumes l: "leg_connected l" "\<not> leg_terminal l" "0 \<le> leg_tester l" "leg_tester l < 65536"
    and fs: "\<forall>f \<in> set fs. ecu_frame_ok (leg_max l) f" and inp: "leg_in l = concat fs @ rest" "length rest < 8"
  shows "background_reader l =
    l\<lparr>leg_in := [], leg_out := leg_out l @ map (\<lambda>_. alive_answer (leg_tester l)) (filter (\<lambda>f. pt_of f = 0x0007) fs),
      leg_queue := leg_queue l @ map Some (filter (\<lambda>f. pt_of f \<notin> {0x0000, 0x0007}) fs) @ [None],
      leg_connected := False, leg_terminal := True, leg_closed := True\<rparr>"
  using assms
proof (induction fs arbitrary: l)
  case Nil
  then have "ecu_read_frame l = (Inl IncompleteReadError, l\<lparr>leg_in := []\<rparr>)"
    by (simp add: ecu_read_frame_def bnd_def leg_read_exactly_def read_exactly_def)
  with Nil show ?case by (subst background_reader.simps) (simp add: mark_terminal_def)
next
  case (Cons f fs)
  let ?l = "l\<lparr>leg_in := concat fs @ rest\<rparr>"
  have r: "ecu_read_frame l = (Inr f, ?l)"
    by (rule ecu_read_ok) (use Cons.prems in simp_all)
  have pt: "py_slice 2 4 f = take 2 (drop 2 f)"
    using Cons.prems(5) by (intro pt_slice) (simp add: ecu_frame_ok_def Let_def)
  note step = background_reader.simps [of l]
  consider "pt_of f = 0x0000" | "pt_of f = 0x0007" | "pt_of f \<notin> {0x0000, 0x0007}" by blast
  then show ?case
  proof cases
    case 1
    with Cons.IH [of ?l] Cons.prems show ?thesis by (simp add: step r pt)
  next
    case 2
    with Cons.IH [of "?l\<lparr>leg_out := leg_out l @ [alive_answer (leg_tester l)]\<rparr>"] Cons.prems show ?thesis
      by (simp add: step r pt payload_types send_alive_ok)
  next
    case 3
    with Cons.IH [of "?l\<lparr>leg_queue := leg_queue l @ [Some f]\<rparr>"] Cons.prems show ?thesis
      by (simp add: step r pt payload_types)
  qed
qed

definition ex_leg :: "bytes \<Rightarrow> ecu_leg" where
  "ex_leg b = \<lparr>leg_addr = 1, leg_max = 4096, leg_in = b, leg_out = [], leg_connected = True, leg_terminal = False,
     leg_queue = [], leg_tester = 0x0E00, leg_closed = False\<rparr>"

theorem ecu_reader_filters_witness:
  "leg_queue (background_reader (ex_leg ([2, 0xFD, 0, 7, 0, 0, 0, 0] @ [2, 0xFD, 0x80, 2, 0, 0, 0, 5, 0, 1, 0x0E, 0, 0])))
     = [Some [2, 0xFD, 0x80, 2, 0, 0, 0, 5, 0, 1, 0x0E, 0, 0], None]"
  using ecu_reader_filters
    [of "ex_leg ([2, 0xFD, 0, 7, 0, 0, 0, 0] @ [2, 0xFD, 0x80, 2, 0, 0, 0, 5, 0, 1, 0x0E, 0, 0])"
      "[[2, 0xFD, 0, 7, 0, 0, 0, 0], [2, 0xFD, 0x80, 2, 0, 0, 0, 5, 0, 1, 0x0E, 0, 0]]" "[]"]
  by (simp add: ex_leg_def ecu_frame_ok_def ecu_length_ok_def from_be_def Let_def)

end
