(* ===== verification/Edge_Ecu_Link.thy ===== *)
theory Edge_Ecu_Link
  imports Session_Props Ecu_Client
begin

text \<open>
  The EdgeNode in front of the VirtualEcu: the Routing Activation the EdgeNode starts on behalf of a
  tester, as the VirtualEcu decides and answers it and as the EdgeNode judges the answer.
\<close>

lemma activation_frame_header:
  assumes "v = 2 \<or> v = 3"
  shows "doip_header v PT_ROUTING_ACT_RESPONSE 13 = [word_of_int v, word_of_int (255 - v), 0, 6, 0, 0, 0, 13]"
proof -
  have "0xFF XOR v = 255 - v" by (rule xor_255) (use assms in auto)
  then show ?thesis by (simp add: doip_header_def payload_types int_be_2 numeral_eq_Suc)
qed

text \<open>The answer of the VirtualEcu as the EdgeNode reads it.\<close>

abbreviation activation_answer :: "ecu_config \<Rightarrow> int \<Rightarrow> int \<Rightarrow> bytes" where
  "activation_answer cfg src code \<equiv>
     [2, 0xFD, 0, 6, 0, 0, 0, 13] @ activation_payload cfg src code"

lemma length_activation_payload [simp]: "length (activation_payload cfg src code) = 13"
  by (simp add: activation_payload_def)

lemma activation_answer_ok: "13 \<le> m \<Longrightarrow> ecu_frame_ok m (activation_answer cfg src code)"
  by (simp add: ecu_frame_ok_def ecu_length_ok_def from_be_def Let_def)

lemma activation_payload_fields:
  assumes "addr_ok src" "addr_ok (ecu_logical_addr (doip cfg))" "0 \<le> code" "code < 256"
  shows "from_be (py_slice 0 2 (activation_payload cfg src code)) = src"
    "from_be (py_slice 2 4 (activation_payload cfg src code)) = ecu_logical_addr (doip cfg)"
    "uint (activation_payload cfg src code ! 4) = code"
proof -
  have l: "length (int_be 2 x) = 2" for x by simp
  have "py_slice 0 2 (activation_payload cfg src code) = int_be 2 src"
    "py_slice 2 4 (activation_payload cfg src code) = int_be 2 (ecu_logical_addr (doip cfg))"
    by (simp_all add: activation_payload_def py_slice_def)
  then show "from_be (py_slice 0 2 (activation_payload cfg src code)) = src"
    "from_be (py_slice 2 4 (activation_payload cfg src code)) = ecu_logical_addr (doip cfg)"
    using assms by (simp_all add: from_be_int_be addr_ok_def)
  show "uint (activation_payload cfg src code ! 4) = code"
    using assms by (simp add: activation_payload_def nth_append uint_word_of_int)
qed

text \<open>How the EdgeNode judges the answer with a given code.\<close>

lemma ra_wait_answer:
  assumes a: "addr_ok src" "addr_ok (ecu_logical_addr (doip cfg))" "0 \<le> code" "code < 256"
    and l: "leg_addr l = ecu_logical_addr (doip cfg)" "13 \<le> leg_max l"
    and inp: "leg_in l = activation_answer cfg src code @ rest"
  shows "ra_wait (Suc n) src l =
    (if code = 0x10 then Inr () else Inl RuntimeError, l\<lparr>leg_in := rest\<rparr>)"
proof -
  let ?f = "activation_answer cfg src code"
  have r: "ecu_read_frame l = (Inr ?f, l\<lparr>leg_in := rest\<rparr>)"
    by (rule ecu_read_ok) (use activation_answer_ok l inp in auto)
  have pt: "py_slice 2 4 ?f = [0, 6]" by (simp add: py_slice_def)
  have six: "from_be [0, 6] = 6" by (simp add: from_be_def)
  have v: "ra_frame src ?f (l\<lparr>leg_in := rest\<rparr>) =
      (if code = 0x10 then Inr (Some ()) else Inl RuntimeError, l\<lparr>leg_in := rest\<rparr>)"
    unfolding ra_frame_def pt six using a l by (simp add: Let_def payload_types activation_payload_fields)
  show ?thesis
    unfolding ra_wait.simps bnd_Inr [of ecu_read_frame, OF r] by (simp add: bnd_def v del: append.simps)
qed

text \<open>The EdgeNode's request as the VirtualEcu's frame pump sees it.\<close>

lemma ra_request_pumped:
  assumes "addr_ok src" "build_ra_request src = Inr fr"
  shows "pump_frame cfg plain_hooks i fr w =
    close_on_denial (ra_begin cfg plain_hooks i (int_be 2 src @ [0, 0, 0, 0, 0]))
      (upd_conn i (\<lambda>c. c\<lparr>cur_version := 2\<rparr>) (bump_general (doip cfg) i w))"
proof -
  have b: "build_frame PT_ROUTING_ACT_REQUEST (int_be 2 src @ [0, 0, 0, 0, 0]) 2 = Inr fr"
    using assms build_ra_request_ok [of src] by (simp add: addr_ok_def DOIP_VER_def)
  have v: "validate_header fr None [] = Inr None"
    by (rule virt_codec.built_header_valid [OF b]) (simp_all add: ACCEPTED_VERSIONS_def)
  have "fr = doip_header 2 PT_ROUTING_ACT_REQUEST 7 @ int_be 2 src @ [0, 0, 0, 0, 0]"
    using b by (simp add: virt_codec.build_Inr_iff)
  then have i: "py_index fr 0 = Inr 2" by (simp add: py_index_def doip_header_def)
  show ?thesis
    using virt_codec.ptype_of_built [OF b] virt_codec.payload_of_built [OF b] v i
    by (simp add: pump_frame_def Let_def payload_types seq_def bnd_def)
qed

fun verdict_code :: "ra_verdict \<Rightarrow> int" where
  "verdict_code (RaDeny c) = c"
| "verdict_code _ = 0x10"

lemma verdict_code_range: "v = ra_verdict dc c reg i src ty \<Longrightarrow> 0 \<le> verdict_code v \<and> verdict_code v < 256"
  by (simp add: ra_verdict_def split: option.splits)

lemma deny_not_0x10: "ra_verdict dc c reg i src ty = RaDeny x \<Longrightarrow> x \<noteq> 0x10"
  by (auto simp: ra_verdict_def split: if_splits option.splits)

text \<open>To whom a socket of the VirtualEcu is bound.\<close>

definition socket_binding :: "world \<Rightarrow> nat \<Rightarrow> bool \<times> int option" where
  "socket_binding w i = (c_activated (conns w i), c_tester (conns w i))"

text \<open>What the VirtualEcu did between two worlds in answer to a request: it wrote one answer, with \<open>code\<close>,
  closes unless the code is 0x10, and has changed the binding of the socket only for that code.\<close>

definition answered :: "ecu_config \<Rightarrow> int \<Rightarrow> nat \<Rightarrow> int \<Rightarrow> world \<Rightarrow> pump_result res \<times> world \<Rightarrow> bool" where
  "answered cfg src i code w out \<longleftrightarrow>
     (case out of (res, w') \<Rightarrow>
        res = Inr (if code = 0x10 then Continue else CloseIt)
        \<and> c_out (conns w' i) = c_out (conns w i) @ [activation_answer cfg src code]
        \<and> socket_binding w' i = (if code = 0x10 then (True, Some src) else socket_binding w i))"

lemma answer_frame_activation:
  "cur_version c = 2 \<Longrightarrow>
     answer_frame c PT_ROUTING_ACT_RESPONSE (activation_payload cfg src code) = activation_answer cfg src code"
  using activation_frame_header [of 2] by (simp add: answer_frame_def)

lemma bind_tester_socket:
  "socket_binding (bind_tester cfg i src w) i = (True, Some src)" "c_out (conns (bind_tester cfg i src w) i) = c_out (conns w i)"
  "cur_version (conns (bind_tester cfg i src w) i) = cur_version (conns w i)"
  "c_closed (conns (bind_tester cfg i src w) i) = c_closed (conns w i)"
  by (auto simp: socket_binding_def bind_tester_def session_for_def new_session_def arm_general_def upd_sess_def conn_simps
      Let_def split: option.splits prod.splits)

text \<open>What the VirtualEcu does with the request on a live socket.\<close>

lemma virtual_ecu_answers:
  assumes a: "addr_ok src" "addr_ok (ecu_logical_addr (doip cfg))" and req: "build_ra_request src = Inr fr"
    and live: "\<not> c_closed (conns w i)" and v: "v = ra_verdict (doip cfg) (conns w i) (registry w) i src 0"
  shows "case v of
      RaProbe j \<Rightarrow> \<exists>w'. pump_frame cfg plain_hooks i fr w = (Inr (Probe src j), w')
        \<and> c_out (conns w' i) = c_out (conns w i) \<and> socket_binding w' i = socket_binding w i
    | _ \<Rightarrow> answered cfg src i (verdict_code v) w (pump_frame cfg plain_hooks i fr w)"
proof -
  let ?w = "upd_conn i (\<lambda>c. c\<lparr>cur_version := 2\<rparr>) (bump_general (doip cfg) i w)"
  let ?p = "int_be 2 src @ [0, 0, 0, 0, 0] :: bytes"
  have s: "from_be (take 2 ?p) = src" "uint (?p ! 2) = 0"
    using a by (simp_all add: from_be_int_be addr_ok_def nth_append)
  have c: "c_activated (conns ?w i) = c_activated (conns w i)" "c_tester (conns ?w i) = c_tester (conns w i)"
    "registry ?w = registry w" "c_out (conns ?w i) = c_out (conns w i)" "cur_version (conns ?w i) = 2"
    "c_closed (conns ?w i) = c_closed (conns w i)"
    by (simp_all add: conn_simps bump_general_def Let_def)
  have v': "ra_verdict (doip cfg) (conns ?w i) (registry ?w) i src 0 = v"
    unfolding v ra_verdict_def c ..
  have "close_on_denial (ra_begin cfg plain_hooks i ?p) ?w = ra_effect cfg i src v ?w"
    using ra_begin_decides [of ?p cfg ?w i, unfolded s v'] a(2) live c by (simp add: conn_live_def)
  then have pf: "pump_frame cfg plain_hooks i fr w = ra_effect cfg i src v ?w"
    by (simp add: ra_request_pumped [OF a(1) req])
  have out: "c_out (conns (sent cfg i f w2) i) = c_out (conns w2 i) @ [f]" "socket_binding (sent cfg i f w2) i = socket_binding w2 i"
    for f w2
    by (simp_all add: socket_binding_def conn_simps)
  have same: "socket_binding ?w i = socket_binding w i" by (simp add: socket_binding_def c)
  show ?thesis
  proof (cases v)
    case (RaDeny x)
    with deny_not_0x10 [OF v [symmetric, unfolded RaDeny]] show ?thesis
      using c same by (simp add: pf ra_effect_def Let_def answer_frame_activation out answered_def)
  next
    case RaConfirm
    then have "socket_binding w i = (True, Some src)"
      using v by (auto simp: socket_binding_def ra_verdict_def split: if_splits option.splits)
    with RaConfirm show ?thesis
      using c same by (simp add: pf ra_effect_def Let_def answer_frame_activation out answered_def)
  next
    case RaBind
    then show ?thesis
      using c by (simp add: pf ra_effect_def Let_def answer_frame_activation out answered_def bind_tester_socket)
  next
    case (RaProbe j)
    then show ?thesis using c same by (simp add: pf ra_effect_def)
  qed
qed

text \<open>And with the same request once the probe of the socket that held the address has ended.\<close>

lemma virtual_ecu_resumes:
  assumes a: "addr_ok src" "addr_ok (ecu_logical_addr (doip cfg))"
    and live: "\<not> c_closed (conns w i)" "cur_version (conns w i) = 2" and j: "j \<noteq> i"
  shows "\<exists>code. (if alive then code = 0x03 else code = 0x01 \<or> code = 0x10)
    \<and> answered cfg src i code w (close_on_denial (ra_resume cfg plain_hooks i src j alive) w)"
proof -
  let ?w = "upd_conn j (\<lambda>c. c\<lparr>alive_probe_pending := False, alive_probe_event := None\<rparr>) w"
  let ?e = "evict (uds cfg) j ?w"
  have w: "conns ?w i = conns w i" using j by (simp add: conn_simps)
  have e: "conns ?e i = conns w i"
    using j by (simp add: evict_def drop_own_state_def drop_session_state_def unregister_own_def conn_simps Let_def split: option.split)
  have lw: "conn_live (conns ?w i)" "conn_live (conns ?e i)" "conn_live (conns (bind_tester cfg i src ?e) i)"
    using live by (simp_all add: conn_live_def w e bind_tester_socket)
  note r = respond_live [OF a lw(1)] respond_live [OF a lw(2)] respond_live [OF a lw(3)]
  have out: "c_out (conns (sent cfg i f w2) i) = c_out (conns w2 i) @ [f]" "socket_binding (sent cfg i f w2) i = socket_binding w2 i"
    for f w2
    by (simp_all add: socket_binding_def conn_simps)
  have bs: "socket_binding ?w i = socket_binding w i" "socket_binding ?e i = socket_binding w i" by (simp_all add: socket_binding_def w e)
  have v: "cur_version (conns ?w i) = 2" "cur_version (conns ?e i) = 2" "cur_version (conns (bind_tester cfg i src ?e) i) = 2"
    using live by (simp_all add: w e bind_tester_socket)
  have res: "ra_resume cfg plain_hooks i src j True w = deny_activation cfg plain_hooks i src 0x03 ?w"
    "ra_resume cfg plain_hooks i src j False w = seq (ra_accept cfg plain_hooks i src) (ret Continue) ?e"
    by (simp_all add: ra_resume_def seq_def bnd_def)
  show ?thesis
  proof (cases alive)
    case True
    then show ?thesis
      by (simp add: res close_on_denial_def try_catch_def deny_activation_def seq_def bnd_def r answered_def out bs v w
          answer_frame_activation live)
  next
    case False
    then show ?thesis
    proof (cases "max_concurrent_sessions (doip cfg) \<le> int (registry_len (registry ?e))")
      case True
      with False show ?thesis
        by (intro exI [of _ 1])
          (simp add: res close_on_denial_def try_catch_def ra_accept_def deny_activation_def seq_def bnd_def r answered_def out
            bs v e answer_frame_activation live)
    next
      case full: False
      with False show ?thesis
        by (intro exI [of _ 16])
          (simp add: res close_on_denial_def try_catch_def ra_accept_def deny_activation_def seq_def bnd_def r answered_def out
            bs v e bind_tester_socket answer_frame_activation live)
    qed
  qed
qed

text \<open>How the EdgeNode takes an answer: it succeeds exactly when the VirtualEcu has bound the socket to the
  tester by it, and reads that answer and no more.\<close>

definition edge_takes :: "int \<Rightarrow> nat \<Rightarrow> bytes \<Rightarrow> ecu_leg \<Rightarrow> bytes \<Rightarrow> world \<Rightarrow> world \<Rightarrow> bool" where
  "edge_takes src i fr l rest w w' \<longleftrightarrow>
     (let written = concat (drop (length (c_out (conns w i))) (c_out (conns w' i)));
          (r, l') = do_routing_activation src (l\<lparr>leg_in := written @ rest\<rparr>)
      in (r = Inr () \<or> r = Inl RuntimeError) \<and> l' = l\<lparr>leg_in := rest, leg_out := leg_out l @ [fr]\<rparr>
         \<and> (r = Inr () \<longrightarrow> socket_binding w' i = (True, Some src)) \<and> (r \<noteq> Inr () \<longrightarrow> socket_binding w' i = socket_binding w i)
         \<and> (socket_binding w i = (True, Some src) \<or> (r = Inr () \<longleftrightarrow> socket_binding w' i = (True, Some src))))"

lemma answered_taken:
  assumes a: "addr_ok src" "addr_ok (ecu_logical_addr (doip cfg))" and req: "build_ra_request src = Inr fr"
    and l: "leg_connected l" "\<not> leg_terminal l" "leg_addr l = ecu_logical_addr (doip cfg)" "13 \<le> leg_max l"
    and code: "0 \<le> code" "code < 256" and ans: "answered cfg src i code w out"
  shows "edge_takes src i fr l rest w (snd out)"
proof -
  let ?l = "l\<lparr>leg_in := activation_answer cfg src code @ rest\<rparr>"
  have s: "leg_send fr ?l = (Inr (), ?l\<lparr>leg_out := leg_out l @ [fr]\<rparr>)"
    using l by (simp add: leg_send_def)
  have "ra_wait 3 src (?l\<lparr>leg_out := leg_out l @ [fr]\<rparr>) =
      (if code = 0x10 then Inr () else Inl RuntimeError, l\<lparr>leg_in := rest, leg_out := leg_out l @ [fr]\<rparr>)"
    using ra_wait_answer [of src cfg code "?l\<lparr>leg_out := leg_out l @ [fr]\<rparr>" rest 2] a l code
    by (simp add: numeral_3_eq_3 numeral_2_eq_2)
  moreover have "do_routing_activation src ?l = ra_wait 3 src (?l\<lparr>leg_out := leg_out l @ [fr]\<rparr>)"
    unfolding do_routing_activation_def req bnd_lift_Inr by (rule seq_Inr) (rule s)
  ultimately have d: "do_routing_activation src ?l =
      (if code = 0x10 then Inr () else Inl RuntimeError, l\<lparr>leg_in := rest, leg_out := leg_out l @ [fr]\<rparr>)"
    by (rule trans [rotated])
  obtain res w' where out: "out = (res, w')" by (cases out)
  have w: "concat (drop (length (c_out (conns w i))) (c_out (conns w' i))) = activation_answer cfg src code"
    using ans by (simp add: answered_def out)
  have b: "socket_binding w' i = (if code = 0x10 then (True, Some src) else socket_binding w i)"
    using ans by (simp add: answered_def out)
  show ?thesis
    unfolding edge_takes_def Let_def out snd_conv w d by (auto simp: b)
qed

text \<open>C22: Routing Activation through both programs, with no hooks in the VirtualEcu. The request the EdgeNode
  sends for a tester is understood by the VirtualEcu's frame pump. Unless its decision table asks for
  a probe, it answers at once with the code of the table; when another socket holds the address it
  only probes that socket, and answers when the probe has ended (whatever happened meanwhile, as long
  as the requesting socket is open): 0x03 if the other tester is alive, else 0x01 or 0x10. In both
  cases the EdgeNode takes exactly that answer off the stream; it succeeds if and only if the answer
  has bound the socket to the tester; on every denial it raises, the VirtualEcu closes, and the
  binding of the socket is the one it had before.\<close>

theorem edge_activation_end_to_end:
  assumes a: "addr_ok src" "addr_ok (ecu_logical_addr (doip cfg))" and req: "build_ra_request src = Inr fr"
    and live: "\<not> c_closed (conns w i)" and v: "v = ra_verdict (doip cfg) (conns w i) (registry w) i src 0"
    and l: "leg_connected l" "\<not> leg_terminal l" "leg_addr l = ecu_logical_addr (doip cfg)" "13 \<le> leg_max l"
    and later: "\<not> c_closed (conns w2 i)" "cur_version (conns w2 i) = 2"
  shows "(case v of
        RaProbe j \<Rightarrow> \<exists>w'. pump_frame cfg plain_hooks i fr w = (Inr (Probe src j), w')
          \<and> c_out (conns w' i) = c_out (conns w i) \<and> socket_binding w' i = socket_binding w i
      | _ \<Rightarrow> answered cfg src i (verdict_code v) w (pump_frame cfg plain_hooks i fr w)
          \<and> edge_takes src i fr l rest w (snd (pump_frame cfg plain_hooks i fr w)))
    \<and> (j \<noteq> i \<longrightarrow> (\<exists>code. (if alive then code = 0x03 else code = 0x01 \<or> code = 0x10)
          \<and> answered cfg src i code w2 (close_on_denial (ra_resume cfg plain_hooks i src j alive) w2))
        \<and> edge_takes src i fr l rest w2 (snd (close_on_denial (ra_resume cfg plain_hooks i src j alive) w2)))"
proof
  show "case v of
        RaProbe j \<Rightarrow> \<exists>w'. pump_frame cfg plain_hooks i fr w = (Inr (Probe src j), w')
          \<and> c_out (conns w' i) = c_out (conns w i) \<and> socket_binding w' i = socket_binding w i
      | _ \<Rightarrow> answered cfg src i (verdict_code v) w (pump_frame cfg plain_hooks i fr w)
          \<and> edge_takes src i fr l rest w (snd (pump_frame cfg plain_hooks i fr w))"
    using virtual_ecu_answers [OF a req live v] answered_taken [OF a req l, of "verdict_code v" i w _ rest]
      verdict_code_range [OF v]
    by (cases v) auto
next
  show "j \<noteq> i \<longrightarrow> (\<exists>code. (if alive then code = 0x03 else code = 0x01 \<or> code = 0x10)
          \<and> answered cfg src i code w2 (close_on_denial (ra_resume cfg plain_hooks i src j alive) w2))
        \<and> edge_takes src i fr l rest w2 (snd (close_on_denial (ra_resume cfg plain_hooks i src j alive) w2))"
  proof
    assume "j \<noteq> i"
    with virtual_ecu_resumes [OF a later, of j alive] obtain code where
      c: "if alive then code = 0x03 else code = 0x01 \<or> code = 0x10"
        "answered cfg src i code w2 (close_on_denial (ra_resume cfg plain_hooks i src j alive) w2)" by blast
    then have "0 \<le> code \<and> code < 256" by (auto split: if_splits)
    with c answered_taken [OF a req l _ _ c(2), of rest]
    show "(\<exists>code. (if alive then code = 0x03 else code = 0x01 \<or> code = 0x10)
          \<and> answered cfg src i code w2 (close_on_denial (ra_resume cfg plain_hooks i src j alive) w2))
        \<and> edge_takes src i fr l rest w2 (snd (close_on_denial (ra_resume cfg plain_hooks i src j alive) w2))"
      by blast
  qed
qed

text \<open>Granted on a fresh ECU, denied when the probed owner of the address is alive.\<close>

theorem edge_activation_end_to_end_witness:
  "\<exists>fr. build_ra_request 0x0E00 = Inr fr
     \<and> (\<exists>w'. pump_frame default_ecu_config plain_hooks 0 fr ex_socket = (Inr Continue, w') \<and> socket_binding w' 0 = (True, Some 0x0E00))
     \<and> fst (close_on_denial (ra_resume default_ecu_config plain_hooks 0 0x0E00 1 True) (upd_conn 0 (\<lambda>c. c\<lparr>cur_version := 2\<rparr>) ex_socket))
         = Inr CloseIt"
proof -
  have c: "tester_addr_range (doip default_ecu_config) = (0x0E00, 0x0FFF)"
    "max_concurrent_sessions (doip default_ecu_config) = 8"
    by (simp_all add: config_defaults)
  have w: "registry ex_socket = []" "\<not> c_activated (conns ex_socket 0)" "\<not> c_closed (conns ex_socket 0)"
    by (simp_all add: ex_socket_def conn_simps)
  let ?v = "ra_verdict (doip default_ecu_config) (conns ex_socket 0) (registry ex_socket) 0 0x0E00 0"
  have v: "?v = RaBind" by (simp add: ra_verdict_def c w)
  obtain fr where fr: "build_ra_request 0x0E00 = Inr fr"
    by (simp add: build_ra_request_def ecu_build_frame_def DOIP_VER_def pack_uint_def payload_types)
  let ?l = "(ex_leg [])\<lparr>leg_addr := ecu_logical_addr (doip default_ecu_config)\<rparr>"
    and ?w2 = "upd_conn 0 (\<lambda>c. c\<lparr>cur_version := 2\<rparr>) ex_socket"
  have l: "leg_connected ?l" "\<not> leg_terminal ?l" "leg_addr ?l = ecu_logical_addr (doip default_ecu_config)" "13 \<le> leg_max ?l"
    by (simp_all add: ex_leg_def)
  have w2: "\<not> c_closed (conns ?w2 0)" "cur_version (conns ?w2 0) = 2" using w by (simp_all add: conn_simps)
  note e = edge_activation_end_to_end [OF default_addr(1,2) fr w(3) v [symmetric] l w2, of "[]" 1 True]
  from e have "answered default_ecu_config 0x0E00 0 0x10 ex_socket (pump_frame default_ecu_config plain_hooks 0 fr ex_socket)"
    by simp
  moreover from e have "answered default_ecu_config 0x0E00 0 3 ?w2
      (close_on_denial (ra_resume default_ecu_config plain_hooks 0 0x0E00 1 True) ?w2)" by auto
  ultimately show ?thesis using fr by (auto simp: answered_def split: prod.splits)
qed

end
