(* ===== verification/Config_Load.thy ===== *)
theory Config_Load
  imports Complex_Main Ecu_Config Py_Int "HOL-Library.List_Lexorder" "HOL-Library.Char_ord"
begin

text \<open>
  The configuration loaders of the VirtualEcu (\<^verbatim>\<open>virtual_ecu/virtecu/config.py\<close>): from the tree
  \<^verbatim>\<open>yaml.safe_load\<close> returns to the typed configuration. Error messages are not modelled, so the
  argument \<open>where\<close> is left out and every complaint is \<open>ConfigError\<close>. The file system, which the
  plugin section scans, is an argument.
\<close>

section \<open>YAML values\<close>

text \<open>Scalars, sequences and mappings. A float is the rational it stands for, \<open>None\<close> where it is not finite;
  \<open>YOther\<close> is any other object (a date, a byte string), with its truth value.\<close>

datatype yaml =
    YNull | YBool bool | YInt int | YStr string | YList "yaml list" | YMap "(yaml \<times> yaml) list"
  | YFloat "rat option" | YOther bool

type_synonym ydict = "(yaml \<times> yaml) list"

fun truthy :: "yaml \<Rightarrow> bool" where
  "truthy YNull = False"
| "truthy (YBool b) = b"
| "truthy (YInt i) = (i \<noteq> 0)"
| "truthy (YStr s) = (s \<noteq> [])"
| "truthy (YList xs) = (xs \<noteq> [])"
| "truthy (YMap d) = (d \<noteq> [])"
| "truthy (YFloat r) = (r \<noteq> Some 0)"
| "truthy (YOther b) = b"

text \<open>\<^verbatim>\<open>d.get(k, default)\<close> and \<^verbatim>\<open>k in d\<close>.\<close>

definition get :: "ydict \<Rightarrow> string \<Rightarrow> yaml \<Rightarrow> yaml" where
  "get d k dflt = (case map_of d (YStr k) of None \<Rightarrow> dflt | Some v \<Rightarrow> v)"

definition has :: "ydict \<Rightarrow> string \<Rightarrow> bool" where
  "has d k \<longleftrightarrow> map_of d (YStr k) \<noteq> None"

section \<open>Coercion helpers\<close>

fun to_int :: "yaml \<Rightarrow> int res" where
  "to_int (YInt i) = Inr i"
| "to_int (YStr s) = (case py_int_auto (py_strip s) of None \<Rightarrow> Inl ConfigError | Some i \<Rightarrow> Inr i)"
| "to_int _ = Inl ConfigError"

fun to_bool :: "yaml \<Rightarrow> bool res" where
  "to_bool (YBool b) = Inr b"
| "to_bool _ = Inl ConfigError"

text \<open>A boolean is an \<^verbatim>\<open>int\<close> of Python.\<close>

fun to_str :: "yaml \<Rightarrow> string res" where
  "to_str YNull = Inr []"
| "to_str (YStr s) = Inr s"
| "to_str (YInt i) = Inr (py_str_int i)"
| "to_str (YBool b) = Inr (if b then ''True'' else ''False'')"
| "to_str _ = Inl ConfigError"

definition to_hex_bytes :: "yaml \<Rightarrow> bytes res" where
  "to_hex_bytes v =
     ebind (to_str v) (\<lambda>text.
     case fromhex (filter (\<lambda>c. c \<noteq> CHR '' '' \<and> c \<noteq> CHR ''_'') text) of
       None \<Rightarrow> Inl ConfigError | Some b \<Rightarrow> Inr b)"

fun map_res :: "('a \<Rightarrow> 'b res) \<Rightarrow> 'a list \<Rightarrow> 'b list res" where
  "map_res f [] = Inr []"
| "map_res f (x # xs) = ebind (f x) (\<lambda>y. ebind (map_res f xs) (\<lambda>ys. Inr (y # ys)))"

fun to_int_list :: "yaml \<Rightarrow> int list res" where
  "to_int_list (YList xs) = map_res to_int xs"
| "to_int_list _ = Inl ConfigError"

definition section_of :: "ydict \<Rightarrow> string \<Rightarrow> ydict res" where
  "section_of tree name = (case get tree name YNull of YNull \<Rightarrow> Inr [] | YMap d \<Rightarrow> Inr d | _ \<Rightarrow> Inl ConfigError)"

definition one_of :: "yaml \<Rightarrow> string list \<Rightarrow> string res" where
  "one_of v allowed =
     ebind (to_str v) (\<lambda>t. let text = py_lower (py_strip t) in if text \<in> set allowed then Inr text else Inl ConfigError)"

definition guard :: "bool \<Rightarrow> unit res" where
  "guard b = (if b then Inr () else Inl ConfigError)"

section \<open>Section loaders\<close>

definition load_listen :: "ydict \<Rightarrow> listen_config res" where
  "load_listen tree =
     ebind (section_of tree ''listen'') (\<lambda>sec.
     ebind (one_of (get sec ''family'' (YStr ''ipv6'')) [''ipv6'', ''ipv4'', ''dual'']) (\<lambda>fam.
     let default_discovery = (if fam = ''ipv4'' then ''ipv4'' else ''ipv6'') in
     ebind (one_of (get sec ''discovery_family'' (YStr default_discovery)) [''ipv6'', ''ipv4'']) (\<lambda>disc.
     ebind (to_str (get sec ''host'' (YStr ''::''))) (\<lambda>h.
     ebind (to_int (get sec ''port'' (YInt 13400))) (\<lambda>p.
     ebind (to_str (get sec ''interface'' (YStr ''''))) (\<lambda>i.
     Inr \<lparr>host = (if h = [] then ''::'' else h), port = p, interface = i, family = fam, discovery_family = disc\<rparr>))))))"

definition ascii_text :: "string \<Rightarrow> bool" where
  "ascii_text s \<longleftrightarrow> (\<forall>c \<in> set s. of_char c < (128 :: nat))"

definition load_tester_range :: "ydict \<Rightarrow> doip_config \<Rightarrow> doip_config res" where
  "load_tester_range sec cfg =
     (if has sec ''tester_addr_range'' then
        ebind (to_int_list (get sec ''tester_addr_range'' YNull)) (\<lambda>bounds.
        case bounds of
          [low, high] \<Rightarrow> ebind (guard (0 \<le> low \<and> low \<le> high \<and> high \<le> 0xFFFF)) (\<lambda>_. Inr (cfg\<lparr>tester_addr_range := (low, high)\<rparr>))
        | _ \<Rightarrow> Inl ConfigError)
      else Inr cfg)"

definition check_doip :: "doip_config \<Rightarrow> unit res" where
  "check_doip cfg =
     ebind (to_hex_bytes (YStr (eid cfg))) (\<lambda>e. ebind (guard (length e = 6)) (\<lambda>_.
     ebind (to_hex_bytes (YStr (gid cfg))) (\<lambda>g. ebind (guard (length g = 6)) (\<lambda>_.
     ebind (guard (ascii_text (vin cfg))) (\<lambda>_.
     ebind (guard (length (vin cfg) = 17)) (\<lambda>_.
     ebind (guard (0 \<le> ecu_logical_addr cfg \<and> ecu_logical_addr cfg \<le> 0xFFFF)) (\<lambda>_.
     ebind (guard (0 < max_payload_bytes cfg \<and> max_payload_bytes cfg \<le> 0x1000000)) (\<lambda>_.
     ebind (guard (\<not> max_concurrent_sessions cfg \<le> 0)) (\<lambda>_.
     guard (\<not> alive_check_timeout_ms cfg \<le> 0))))))))))"

definition load_doip :: "ydict \<Rightarrow> doip_config res" where
  "load_doip tree =
     ebind (section_of tree ''doip'') (\<lambda>sec.
     ebind (to_int (get sec ''ecu_logical_addr'' (YInt 0x0003))) (\<lambda>addr.
     ebind (to_int (get sec ''node_type'' (YInt 0x01))) (\<lambda>nt.
     ebind (to_int (get sec ''power_mode'' (YInt 0x01))) (\<lambda>pm.
     ebind (to_int (get sec ''max_payload_bytes'' (YInt 4096))) (\<lambda>mx.
     ebind (to_str (get sec ''vin'' (YStr ''00000000000000000''))) (\<lambda>v.
     ebind (to_str (get sec ''eid'' (YStr ''000000000000''))) (\<lambda>e.
     ebind (to_str (get sec ''gid'' (YStr ''000000000000''))) (\<lambda>g.
     ebind (to_int (get sec ''initial_inactivity_ms'' (YInt 2000))) (\<lambda>ii.
     ebind (to_int (get sec ''general_inactivity_ms'' (YInt 300000))) (\<lambda>gi.
     ebind (to_int (get sec ''max_concurrent_sessions'' (YInt 8))) (\<lambda>mc.
     ebind (to_int (get sec ''alive_check_timeout_ms'' (YInt ALIVE_PROBE_TIMEOUT_MS))) (\<lambda>ac.
     let cfg = \<lparr>ecu_logical_addr = addr, node_type = nt, power_mode = pm, max_payload_bytes = mx, vin = v, eid = e, gid = g,
       tester_addr_range = TESTER_ADDR_RANGE, initial_inactivity_ms = ii, general_inactivity_ms = gi,
       max_concurrent_sessions = mc, alive_check_timeout_ms = ac\<rparr> in
     ebind (check_doip cfg) (\<lambda>_. load_tester_range sec cfg)))))))))))))"

definition load_udp :: "ydict \<Rightarrow> udp_config res" where
  "load_udp tree =
     ebind (section_of tree ''udp'') (\<lambda>sec.
     ebind (to_bool (get sec ''enabled'' (YBool True))) (\<lambda>en.
     ebind (to_int (get sec ''announce_count'' (YInt 3))) (\<lambda>n.
     ebind (to_int (get sec ''announce_interval_ms'' (YInt 500))) (\<lambda>iv.
     ebind (to_int (get sec ''announce_wait_ms'' (YInt 500))) (\<lambda>w.
     ebind (guard (\<not> n < 0)) (\<lambda>_. ebind (guard (\<not> iv < 0)) (\<lambda>_. ebind (guard (\<not> w < 0)) (\<lambda>_.
     Inr \<lparr>udp_enabled = en, announce_count = n, announce_interval_ms = iv, announce_wait_ms = w\<rparr>))))))))"

definition load_security :: "ydict \<Rightarrow> security_config res" where
  "load_security sec =
     (if sec = [] then Inr default_security_config
      else
        ebind (one_of (get sec ''algorithm'' (YStr ''xor'')) [''none'', ''xor'', ''add'']) (\<lambda>alg.
        ebind (to_bool (get sec ''enabled'' (YBool True))) (\<lambda>en.
        ebind (to_hex_bytes (get sec ''seed'' (YStr ''11223344''))) (\<lambda>seed.
        ebind (to_hex_bytes (get sec ''key'' (YStr ''A5A5A5A5''))) (\<lambda>key.
        ebind (to_int (get sec ''max_attempts'' (YInt 3))) (\<lambda>ma.
        ebind (guard (seed \<noteq> [])) (\<lambda>_.
        ebind (guard (\<not> (alg \<noteq> ''none'' \<and> length key \<noteq> length seed))) (\<lambda>_.
        Inr \<lparr>sec_enabled = en, sec_seed = seed, sec_algorithm = alg, sec_key = key, max_attempts = ma\<rparr>))))))))"

definition check_uds :: "uds_config \<Rightarrow> unit res" where
  "check_uds cfg =
     ebind (guard (default_session cfg \<in> set (sessions cfg))) (\<lambda>_.
     ebind (guard (\<not> p2_server_ms cfg \<le> 0)) (\<lambda>_.
     ebind (guard (\<not> max_response_pending cfg < 0)) (\<lambda>_.
     ebind (guard (0 \<le> functional_addr cfg \<and> functional_addr cfg \<le> 0xFFFF)) (\<lambda>_.
     ebind (guard (\<not> p2_star_server_ms cfg \<le> 0)) (\<lambda>_.
     guard (\<not> s3_server_ms cfg < 0))))))"

definition load_uds :: "ydict \<Rightarrow> uds_config res" where
  "load_uds tree =
     ebind (section_of tree ''uds'') (\<lambda>sec.
     ebind (to_int (get sec ''default_session'' (YInt SESSION_DEFAULT))) (\<lambda>ds.
     ebind (to_int (get sec ''s3_server_ms'' (YInt 5000))) (\<lambda>s3.
     ebind (to_int (get sec ''p2_server_ms'' (YInt 50))) (\<lambda>p2.
     ebind (to_int (get sec ''p2_star_server_ms'' (YInt 5000))) (\<lambda>p2s.
     ebind (to_bool (get sec ''auto_response_pending'' (YBool True))) (\<lambda>arp.
     ebind (to_int (get sec ''max_response_pending'' (YInt 10))) (\<lambda>mrp.
     ebind (to_bool (get sec ''suppress_pos_rsp_bit'' (YBool True))) (\<lambda>sup.
     ebind (to_int (get sec ''functional_addr'' (YInt 0x1FFF))) (\<lambda>fa.
     ebind (one_of (get sec ''unknown_service'' (YStr ''nrc'')) [''nrc'', ''echo'', ''silent'']) (\<lambda>us.
     ebind (one_of (get sec ''unknown_did'' (YStr ''nrc'')) [''nrc'', ''echo'', ''silent'']) (\<lambda>ud.
     ebind (one_of (get sec ''on_handler_error'' (YStr ''nrc'')) [''nrc'', ''fallthrough'', ''silent'']) (\<lambda>oh.
     ebind (to_bool (get sec ''reset_clears_writes'' (YBool True))) (\<lambda>rcw.
     ebind (to_bool (get sec ''reset_drops_connection'' (YBool False))) (\<lambda>rdc.
     ebind (ebind (section_of sec ''security'') load_security) (\<lambda>security.
     ebind (if has sec ''sessions'' then to_int_list (get sec ''sessions'' YNull) else Inr [0x01, 0x02, 0x03, 0x04]) (\<lambda>ss.
     let cfg = \<lparr>default_session = ds, s3_server_ms = s3, p2_server_ms = p2, p2_star_server_ms = p2s, auto_response_pending = arp,
       max_response_pending = mrp, suppress_pos_rsp_bit = sup, functional_addr = fa, unknown_service = us, unknown_did = ud,
       on_handler_error = oh, reset_clears_writes = rcw, reset_drops_connection = rdc, sessions = ss, security = security\<rparr> in
     ebind (check_uds cfg) (\<lambda>_. Inr cfg)))))))))))))))))"

section \<open>DID and routine tables\<close>

definition ljust :: "nat \<Rightarrow> bytes \<Rightarrow> bytes" where
  "ljust n b = b @ replicate (n - length b) 0"

definition encode_ascii :: "string \<Rightarrow> bytes" where
  "encode_ascii s = map (\<lambda>c. of_nat (of_char c)) s"

definition encode_did_value :: "string \<Rightarrow> yaml \<Rightarrow> int option \<Rightarrow> bytes res" where
  "encode_did_value spec_type v len =
     (if spec_type = ''hex'' then
        ebind (to_hex_bytes v) (\<lambda>encoded.
        ebind (guard (\<not> (len \<noteq> None \<and> int (length encoded) \<noteq> the len))) (\<lambda>_. Inr encoded))
      else if spec_type = ''ascii'' then
        ebind (to_str v) (\<lambda>text.
        ebind (guard (ascii_text text)) (\<lambda>_.
        let encoded = encode_ascii text in
        case len of None \<Rightarrow> Inr encoded | Some n \<Rightarrow> Inr (ljust (nat n) (take (nat n) encoded))))
      else if spec_type = ''uint'' then
        ebind (to_int v) (\<lambda>number.
        let width = (case len of None \<Rightarrow> 1 | Some n \<Rightarrow> nat n) in
        case to_bytes_big width number of Inl _ \<Rightarrow> Inl ConfigError | Inr b \<Rightarrow> Inr b)
      else Inl ConfigError)"

text \<open>\<^verbatim>\<open>NRC_NAMES\<close>: the known codes.\<close>

definition NRC_NAMES :: "int list" where
  "NRC_NAMES = [NRC_GENERAL_REJECT, NRC_SERVICE_NOT_SUPPORTED, NRC_SUB_FUNCTION_NOT_SUPPORTED, NRC_INCORRECT_MESSAGE_LENGTH,
     NRC_RESPONSE_TOO_LONG, NRC_BUSY_REPEAT_REQUEST, NRC_CONDITIONS_NOT_CORRECT, NRC_REQUEST_SEQUENCE_ERROR,
     NRC_REQUEST_OUT_OF_RANGE, NRC_SECURITY_ACCESS_DENIED, NRC_INVALID_KEY, NRC_EXCEEDED_NUMBER_OF_ATTEMPTS,
     NRC_RESPONSE_PENDING, NRC_SERVICE_NOT_SUPPORTED_IN_SESSION]"

text \<open>An optional entry: absent and null mean the same.\<close>

definition optional :: "ydict \<Rightarrow> string \<Rightarrow> (yaml \<Rightarrow> 'a res) \<Rightarrow> 'a option res" where
  "optional d k conv = (case get d k YNull of YNull \<Rightarrow> Inr None | v \<Rightarrow> ebind (conv v) (\<lambda>x. Inr (Some x)))"

definition load_nrc :: "yaml \<Rightarrow> int res" where
  "load_nrc v = ebind (to_int v) (\<lambda>code. ebind (guard (code \<in> set NRC_NAMES)) (\<lambda>_. Inr code))"

definition load_did_value :: "ydict \<Rightarrow> string \<Rightarrow> int option \<Rightarrow> bytes option res" where
  "load_did_value entry spec_type len =
     (if spec_type = ''dynamic'' then if has entry ''value'' then Inl ConfigError else Inr None
      else if has entry ''value'' then ebind (encode_did_value spec_type (get entry ''value'' YNull) len) (\<lambda>b. Inr (Some b))
      else Inl ConfigError)"

definition load_did :: "int \<Rightarrow> yaml \<Rightarrow> did_spec res" where
  "load_did d rawent =
     (case rawent of
        YMap entry \<Rightarrow>
          ebind (one_of (get entry ''type'' (YStr ''hex'')) [''hex'', ''ascii'', ''uint'', ''dynamic'']) (\<lambda>spec_type.
          ebind (optional entry ''length'' to_int) (\<lambda>len.
          ebind (guard (\<not> (len \<noteq> None \<and> the len \<le> 0))) (\<lambda>_.
          ebind (load_did_value entry spec_type len) (\<lambda>v.
          ebind (to_str (get entry ''name'' (YStr ''''))) (\<lambda>nm.
          ebind (to_bool (get entry ''read'' (YBool True))) (\<lambda>rd.
          ebind (to_bool (get entry ''write'' (YBool False))) (\<lambda>wr.
          ebind (to_int (get entry ''read_security'' (YInt 0))) (\<lambda>rs.
          ebind (to_int (get entry ''write_security'' (YInt 0))) (\<lambda>ws.
          ebind (optional entry ''read_sessions'' to_int_list) (\<lambda>rss.
          ebind (optional entry ''write_sessions'' to_int_list) (\<lambda>wss.
          ebind (optional entry ''read_nrc'' load_nrc) (\<lambda>rn.
          ebind (optional entry ''write_nrc'' load_nrc) (\<lambda>wn.
          ebind (guard (\<not> (wr \<and> spec_type = ''dynamic''))) (\<lambda>_.
          Inr \<lparr>spec_did = d, did_name = nm, did_type = spec_type, did_length = len, did_value = v, did_read = rd, did_write = wr,
            read_sessions = rss, write_sessions = wss, read_security = rs, write_security = ws, read_nrc = rn, write_nrc = wn\<rparr>))))))))))))))
      | _ \<Rightarrow> Inl ConfigError)"

fun load_did_entries :: "ydict \<Rightarrow> (int \<times> did_spec) list \<Rightarrow> (int \<times> did_spec) list res" where
  "load_did_entries [] table = Inr table"
| "load_did_entries ((key, entry) # rest) table =
     ebind (to_int key) (\<lambda>d.
     ebind (guard (0 \<le> d \<and> d \<le> 0xFFFF)) (\<lambda>_.
     ebind (guard (d \<notin> fst ` set table)) (\<lambda>_.
     ebind (load_did d entry) (\<lambda>spec. load_did_entries rest (table @ [(d, spec)])))))"

definition load_dids :: "ydict \<Rightarrow> (int \<times> did_spec) list res" where
  "load_dids tree = ebind (section_of tree ''data_identifiers'') (\<lambda>sec. load_did_entries sec [])"

definition load_routine :: "int \<Rightarrow> yaml \<Rightarrow> routine_spec res" where
  "load_routine rid rawent =
     (case rawent of
        YMap entry \<Rightarrow>
          ebind (to_str (get entry ''name'' (YStr ''''))) (\<lambda>nm.
          ebind (to_hex_bytes (get entry ''start'' (YStr ''''))) (\<lambda>st.
          ebind (to_hex_bytes (get entry ''stop'' (YStr ''''))) (\<lambda>sp.
          ebind (to_hex_bytes (get entry ''results'' (YStr ''''))) (\<lambda>rs.
          ebind (to_int (get entry ''security'' (YInt 0))) (\<lambda>sy.
          ebind (optional entry ''sessions'' to_int_list) (\<lambda>ss.
          Inr \<lparr>spec_rid = rid, routine_name = nm, routine_start = st, routine_stop = sp, routine_results = rs,
            routine_sessions = ss, routine_security = sy\<rparr>))))))
      | _ \<Rightarrow> Inl ConfigError)"

text \<open>A repeated identifier replaces the entry, as an assignment to the dictionary does.\<close>

fun load_routine_entries :: "ydict \<Rightarrow> (int \<times> routine_spec) list \<Rightarrow> (int \<times> routine_spec) list res" where
  "load_routine_entries [] table = Inr table"
| "load_routine_entries ((key, entry) # rest) table =
     ebind (to_int key) (\<lambda>rid.
     ebind (guard (0 \<le> rid \<and> rid \<le> 0xFFFF)) (\<lambda>_.
     ebind (load_routine rid entry) (\<lambda>spec. load_routine_entries rest (AList.update rid spec table))))"

definition load_routines :: "ydict \<Rightarrow> (int \<times> routine_spec) list res" where
  "load_routines tree = ebind (section_of tree ''routines'') (\<lambda>sec. load_routine_entries sec [])"

section \<open>Plugins\<close>

record plugin_spec =
  ps_label :: string
  ps_file :: "string option"
  ps_module :: "string option"
  ps_enabled :: bool
  ps_priority :: "int option"
  ps_params :: ydict

record plugins_config =
  plugins_strict :: bool
  plugin_specs :: "plugin_spec list"

text \<open>The directories of the host: \<^verbatim>\<open>os.path.isdir\<close> and \<^verbatim>\<open>os.listdir\<close>. \<^verbatim>\<open>os.path.isabs\<close> and \<^verbatim>\<open>os.path.join\<close>
  are those of POSIX.\<close>

record filesystem =
  fs_isdir :: "string \<Rightarrow> bool"
  fs_listdir :: "string \<Rightarrow> string list res"

definition path_isabs :: "string \<Rightarrow> bool" where
  "path_isabs p \<longleftrightarrow> p \<noteq> [] \<and> hd p = CHR ''/''"

definition path_join :: "string \<Rightarrow> string \<Rightarrow> string" where
  "path_join a b = (if path_isabs b then b else if a = [] \<or> last a = CHR ''/'' then a @ b else a @ ''/'' @ b)"

definition is_plugin_file :: "string \<Rightarrow> bool" where
  "is_plugin_file e \<longleftrightarrow> 3 \<le> length e \<and> drop (length e - 3) e = ''.py'' \<and> hd e \<noteq> CHR ''_''"

definition scan_plugin_dir :: "filesystem \<Rightarrow> string \<Rightarrow> string \<Rightarrow> bool \<Rightarrow> plugin_spec list res" where
  "scan_plugin_dir fs directory base_dir strict =
     (let resolved = (if path_isabs directory then directory else path_join base_dir directory) in
      if \<not> fs_isdir fs resolved then if strict then Inl ConfigError else Inr []
      else ebind (fs_listdir fs resolved) (\<lambda>entries.
        Inr (map (\<lambda>e. \<lparr>ps_label = path_join directory e, ps_file = Some (path_join resolved e), ps_module = None,
                       ps_enabled = True, ps_priority = None, ps_params = []\<rparr>)
               (filter is_plugin_file (sort entries)))))"

definition load_plugin_module :: "string \<Rightarrow> yaml \<Rightarrow> plugin_spec res" where
  "load_plugin_module base_dir rawent =
     (case rawent of
        YMap entry \<Rightarrow>
          let file_path = get entry ''file'' YNull; module_name = get entry ''module'' YNull in
          ebind (guard (truthy file_path \<noteq> truthy module_name)) (\<lambda>_.
          let params = get entry ''params'' YNull in
          ebind (if truthy params then (case params of YMap d \<Rightarrow> Inr d | _ \<Rightarrow> Inl ConfigError) else Inr []) (\<lambda>ps.
          ebind (if truthy file_path
                 then ebind (to_str file_path) (\<lambda>f. Inr (Some (if path_isabs f then f else path_join base_dir f)))
                 else Inr None) (\<lambda>resolved.
          ebind (to_str (if truthy file_path then file_path else module_name)) (\<lambda>label.
          ebind (if truthy module_name then ebind (to_str module_name) (\<lambda>m. Inr (Some m)) else Inr None) (\<lambda>md.
          ebind (to_bool (get entry ''enabled'' (YBool True))) (\<lambda>en.
          ebind (optional entry ''priority'' to_int) (\<lambda>prio.
          Inr \<lparr>ps_label = label, ps_file = resolved, ps_module = md, ps_enabled = en, ps_priority = prio, ps_params = ps\<rparr>)))))))
      | _ \<Rightarrow> Inl ConfigError)"

text \<open>\<^verbatim>\<open>section.get(k) or []\<close>, which has to be a list.\<close>

definition list_entry :: "ydict \<Rightarrow> string \<Rightarrow> yaml list res" where
  "list_entry sec k = (let v = get sec k YNull in if truthy v then (case v of YList xs \<Rightarrow> Inr xs | _ \<Rightarrow> Inl ConfigError) else Inr [])"

definition load_plugins :: "filesystem \<Rightarrow> ydict \<Rightarrow> string \<Rightarrow> plugins_config res" where
  "load_plugins fs tree base_dir =
     ebind (section_of tree ''plugins'') (\<lambda>sec.
     ebind (to_bool (get sec ''strict'' (YBool False))) (\<lambda>strict.
     ebind (list_entry sec ''path'') (\<lambda>paths.
     ebind (map_res (\<lambda>directory. ebind (to_str directory) (\<lambda>d. scan_plugin_dir fs d base_dir strict)) paths) (\<lambda>scanned.
     ebind (list_entry sec ''modules'') (\<lambda>modules.
     ebind (map_res (load_plugin_module base_dir) modules) (\<lambda>specs.
     Inr \<lparr>plugins_strict = strict, plugin_specs = concat scanned @ specs\<rparr>))))))"

section \<open>The whole configuration\<close>

definition sessions_known :: "int list \<Rightarrow> int list option \<Rightarrow> bool" where
  "sessions_known known ss = (case ss of None \<Rightarrow> True | Some xs \<Rightarrow> set xs \<subseteq> set known)"

text \<open>\<open>parse_config\<close>. The plugin section is returned beside the record of the parts the ECU reads.\<close>

definition parse_config :: "filesystem \<Rightarrow> yaml \<Rightarrow> string \<Rightarrow> (ecu_config \<times> plugins_config) res" where
  "parse_config fs tree base_dir =
     ebind (case tree of YNull \<Rightarrow> Inr [] | YMap d \<Rightarrow> Inr d | _ \<Rightarrow> Inl ConfigError) (\<lambda>tree.
     ebind (load_listen tree) (\<lambda>l.
     ebind (load_doip tree) (\<lambda>dc.
     ebind (load_udp tree) (\<lambda>uc.
     ebind (load_uds tree) (\<lambda>u.
     ebind (load_dids tree) (\<lambda>ds.
     ebind (load_routines tree) (\<lambda>rs.
     ebind (load_plugins fs tree base_dir) (\<lambda>ps.
     ebind (guard (functional_addr u \<noteq> ecu_logical_addr dc)) (\<lambda>_.
     ebind (guard (list_all (\<lambda>(d, spec). sessions_known (sessions u) (read_sessions spec)
                                         \<and> sessions_known (sessions u) (write_sessions spec)) ds)) (\<lambda>_.
     Inr (\<lparr>listen = l, doip = dc, udp = uc, uds = u, dids = ds, routines = rs\<rparr>, ps)))))))))))"

end
