(* ===== verification/Edge_Config_Load.thy ===== *)
theory Edge_Config_Load
  imports Config_Load Edge_Frame
begin

text \<open>
  The configuration loader of the EdgeNode (\<^verbatim>\<open>doip_edgenode/config.py\<close>), from the tree
  \<^verbatim>\<open>yaml.safe_load\<close> returns. Error texts are not modelled, so the path arguments are left out.
  \<^verbatim>\<open>float(text)\<close> of a string and the syntax of IP addresses (\<^verbatim>\<open>ipaddress\<close>) are arguments; numbers are
  the rationals they stand for, without rounding.
\<close>

section \<open>Records\<close>

record network_config =
  tester_interface :: string
  tester_ipv4 :: string
  ecu_interface :: string

record ports_config =
  doip_plain :: int
  doip_tls :: int

record tls_config =
  server_cert :: string
  server_key :: string
  client_cert :: string
  client_key :: string
  ca_cert :: string
  mutual_tls :: bool
  tls_version :: string
  cipher_suites :: "string list"

record timer_config =
  t_tcp_initial_inactivity_s :: rat
  t_tcp_general_inactivity_s :: rat
  alive_check_interval_ms :: int
  ecu_response_timeout_s :: rat
  ecu_pending_max_wait_s :: rat
  timer_strict_matching :: bool

record edge_udp_config =
  edge_announce_count :: int
  edge_announce_interval_ms :: int

record middleware_config =
  mwc_type :: string
  mwc_enabled :: bool
  mwc_params :: ydict

record app_config =
  ac_network :: network_config
  ac_ports :: ports_config
  ac_tls :: tls_config
  ac_doip :: edge_doip
  ac_timers :: timer_config
  ac_udp :: edge_udp_config
  ac_routing :: "routing_entry list"
  ac_middleware :: "middleware_config list"

record py_lib =
  lib_float :: "string \<Rightarrow> rat option"
  lib_ipv4 :: "string \<Rightarrow> bool"
  lib_ipv6 :: "string \<Rightarrow> bool"

section \<open>Helpers\<close>

definition mapping :: "yaml \<Rightarrow> ydict res" where
  "mapping v =
     (case v of
        YMap d \<Rightarrow> ebind (guard (list_all (\<lambda>(k, x). case k of YStr s \<Rightarrow> True | _ \<Rightarrow> False) d)) (\<lambda>_. Inr d)
      | _ \<Rightarrow> Inl ConfigError)"

fun strict_bool :: "yaml \<Rightarrow> bool res" where
  "strict_bool (YBool b) = Inr b"
| "strict_bool _ = Inl ConfigError"

definition string_value :: "bool \<Rightarrow> yaml \<Rightarrow> string res" where
  "string_value nonempty v =
     (case v of YStr s \<Rightarrow> ebind (guard (\<not> (nonempty \<and> py_strip s = []))) (\<lambda>_. Inr s) | _ \<Rightarrow> Inl ConfigError)"

text \<open>\<^verbatim>\<open>int(text, base)\<close> with base 16 for a \<^verbatim>\<open>0x\<close> prefix behind any signs, base 10 otherwise.\<close>

definition has_hex_prefix :: "string \<Rightarrow> bool" where
  "has_hex_prefix s \<longleftrightarrow> take 2 (py_lower (dropWhile (\<lambda>c. c = CHR ''+'' \<or> c = CHR ''-'') s)) = ''0x''"

definition parse_hex :: "string \<Rightarrow> int option" where
  "parse_hex s = (if take 2 (py_lower s) = ''0x'' then parse_based 16 (drop 2 s) else parse_digits 16 False 0 s)"

definition int_text :: "string \<Rightarrow> int option" where
  "int_text v = (let text = py_strip v in if has_hex_prefix text then parse_signed parse_hex text else py_int_dec text)"

fun edge_to_int :: "yaml \<Rightarrow> int res" where
  "edge_to_int (YInt i) = Inr i"
| "edge_to_int (YStr s) = (case int_text s of None \<Rightarrow> Inl ConfigError | Some i \<Rightarrow> Inr i)"
| "edge_to_int _ = Inl ConfigError"

definition require :: "ydict \<Rightarrow> string \<Rightarrow> yaml res" where
  "require d k = (case map_of d (YStr k) of None \<Rightarrow> Inl ConfigError | Some v \<Rightarrow> Inr v)"

fun edge_to_int_list :: "yaml \<Rightarrow> int list res" where
  "edge_to_int_list (YList xs) = map_res edge_to_int xs"
| "edge_to_int_list _ = Inl ConfigError"

definition bounded :: "int \<Rightarrow> int option \<Rightarrow> yaml \<Rightarrow> int res" where
  "bounded lo hi v =
     ebind (edge_to_int v) (\<lambda>r. ebind (guard (\<not> (r < lo \<or> (hi \<noteq> None \<and> the hi < r)))) (\<lambda>_. Inr r))"

text \<open>\<^verbatim>\<open>float(value)\<close> where it is finite. An integer from \<open>2 ^ 1024 - 2 ^ 970\<close> on overflows.\<close>

fun py_float :: "py_lib \<Rightarrow> yaml \<Rightarrow> rat option" where
  "py_float L (YInt i) = (if \<bar>i\<bar> < 2 ^ 1024 - 2 ^ 970 then Some (of_int i) else None)"
| "py_float L (YFloat r) = r"
| "py_float L (YStr s) = lib_float L s"
| "py_float L _ = None"

definition positive_number :: "py_lib \<Rightarrow> yaml \<Rightarrow> rat res" where
  "positive_number L v = (case py_float L v of None \<Rightarrow> Inl ConfigError | Some r \<Rightarrow> if r \<le> 0 then Inl ConfigError else Inr r)"

definition nonnegative_number :: "py_lib \<Rightarrow> yaml \<Rightarrow> rat res" where
  "nonnegative_number L v = (case py_float L v of None \<Rightarrow> Inl ConfigError | Some r \<Rightarrow> if r < 0 then Inl ConfigError else Inr r)"

definition ipv4_value :: "py_lib \<Rightarrow> yaml \<Rightarrow> string res" where
  "ipv4_value L v = ebind (string_value True v) (\<lambda>text. ebind (guard (lib_ipv4 L text)) (\<lambda>_. Inr text))"

definition ipv6_value :: "py_lib \<Rightarrow> yaml \<Rightarrow> string res" where
  "ipv6_value L v = ebind (string_value True v) (\<lambda>text. ebind (guard (lib_ipv6 L text)) (\<lambda>_. Inr text))"

section \<open>Section loaders\<close>

definition load_network :: "py_lib \<Rightarrow> ydict \<Rightarrow> network_config res" where
  "load_network L d =
     ebind (ebind (require d ''tester_interface'') (string_value True)) (\<lambda>ti.
     ebind (ebind (require d ''tester_ipv4'') (ipv4_value L)) (\<lambda>ip.
     ebind (ebind (require d ''ecu_interface'') (string_value True)) (\<lambda>ei.
     Inr \<lparr>tester_interface = ti, tester_ipv4 = ip, ecu_interface = ei\<rparr>)))"

definition load_ports :: "ydict \<Rightarrow> ports_config res" where
  "load_ports d =
     ebind (ebind (require d ''doip_plain'') (bounded 1 (Some 65535))) (\<lambda>p.
     ebind (ebind (require d ''doip_tls'') (bounded 1 (Some 65535))) (\<lambda>t.
     Inr \<lparr>doip_plain = p, doip_tls = t\<rparr>))"

definition load_tls :: "ydict \<Rightarrow> tls_config res" where
  "load_tls d =
     ebind (ebind (require d ''tls_version'') (string_value False)) (\<lambda>version.
     ebind (guard (version = ''TLSv1.3'')) (\<lambda>_.
     ebind (case get d ''cipher_suites'' (YList []) of YList xs \<Rightarrow> map_res (string_value True) xs | _ \<Rightarrow> Inl ConfigError) (\<lambda>suites.
     ebind (ebind (require d ''server_cert'') (string_value True)) (\<lambda>sc.
     ebind (ebind (require d ''server_key'') (string_value True)) (\<lambda>sk.
     ebind (ebind (require d ''client_cert'') (string_value True)) (\<lambda>cc.
     ebind (ebind (require d ''client_key'') (string_value True)) (\<lambda>ck.
     ebind (ebind (require d ''ca_cert'') (string_value True)) (\<lambda>ca.
     ebind (strict_bool (get d ''mutual_tls'' (YBool True))) (\<lambda>m.
     Inr \<lparr>server_cert = sc, server_key = sk, client_cert = cc, client_key = ck, ca_cert = ca, mutual_tls = m,
       tls_version = version, cipher_suites = suites\<rparr>)))))))))"

definition hex12 :: "string \<Rightarrow> bool" where
  "hex12 s \<longleftrightarrow> length s = 12 \<and> list_all (\<lambda>c. c \<in> set ''0123456789abcdefABCDEF'') s"

definition DEFAULT_TESTER_ADDR_RANGE :: "yaml list" where "DEFAULT_TESTER_ADDR_RANGE = [YInt 0x0E00, YInt 0x0FFF]"

definition DEFAULT_NODE_LOGICAL_ADDR :: int where "DEFAULT_NODE_LOGICAL_ADDR = 0x1234"

definition load_edge_doip :: "ydict \<Rightarrow> edge_doip res" where
  "load_edge_doip d =
     ebind (ebind (require d ''vin'') (string_value False)) (\<lambda>v.
     ebind (guard (length v = 17 \<and> ascii_text v)) (\<lambda>_.
     ebind (ebind (require d ''eid'') (string_value False)) (\<lambda>e.
     ebind (guard (hex12 e)) (\<lambda>_.
     ebind (ebind (require d ''gid'') (string_value False)) (\<lambda>g.
     ebind (guard (hex12 g)) (\<lambda>_.
     ebind (edge_to_int_list (get d ''tester_addr_range'' (YList DEFAULT_TESTER_ADDR_RANGE))) (\<lambda>bounds.
     ebind (guard (length bounds = 2 \<and> 0 \<le> bounds ! 0 \<and> bounds ! 0 \<le> bounds ! 1 \<and> bounds ! 1 \<le> 0xFFFF)) (\<lambda>_.
     ebind (edge_to_int_list (get d ''tester_addr_list'' (YList []))) (\<lambda>addresses.
     ebind (guard (list_all (\<lambda>a. 0 \<le> a \<and> a \<le> 0xFFFF) addresses)) (\<lambda>_.
     ebind (ebind (require d ''node_type'') (bounded 0 (Some 1))) (\<lambda>nt.
     ebind (bounded 1 (Some 65535) (get d ''node_logical_addr'' (YInt DEFAULT_NODE_LOGICAL_ADDR))) (\<lambda>na.
     ebind (ebind (require d ''power_mode'') (bounded 0 (Some 2))) (\<lambda>pm.
     ebind (ebind (require d ''max_payload_bytes'') (bounded 1 (Some 0xFFFFFFFF))) (\<lambda>mp.
     ebind (bounded 1 (Some 254) (get d ''max_connections'' (YInt 8))) (\<lambda>mc.
     Inr \<lparr>edge_doip.vin = v, eid = e, gid = g, edge_node_type = nt, node_logical_addr = na, edge_power_mode = pm,
       edge_max_payload = mp, edge_tester_range = (bounds ! 0, bounds ! 1), tester_addr_list = addresses, max_connections = mc\<rparr>)))))))))))))))"

definition load_timers :: "py_lib \<Rightarrow> ydict \<Rightarrow> timer_config res" where
  "load_timers L d =
     ebind (ebind (require d ''t_tcp_initial_inactivity_s'') (positive_number L)) (\<lambda>ti.
     ebind (ebind (require d ''t_tcp_general_inactivity_s'') (positive_number L)) (\<lambda>tg.
     ebind (bounded 1 None (get d ''alive_check_interval_ms'' (YInt 500))) (\<lambda>ac.
     ebind (positive_number L (get d ''ecu_response_timeout_s'' (YFloat (Some 2)))) (\<lambda>rt.
     ebind (positive_number L (get d ''ecu_pending_max_wait_s'' (YFloat (Some 30)))) (\<lambda>pw.
     ebind (strict_bool (get d ''strict_response_matching'' (YBool True))) (\<lambda>sm.
     Inr \<lparr>t_tcp_initial_inactivity_s = ti, t_tcp_general_inactivity_s = tg, alive_check_interval_ms = ac,
       ecu_response_timeout_s = rt, ecu_pending_max_wait_s = pw, timer_strict_matching = sm\<rparr>))))))"

definition load_edge_udp :: "ydict \<Rightarrow> edge_udp_config res" where
  "load_edge_udp d =
     ebind (ebind (require d ''announce_count'') (bounded 1 None)) (\<lambda>n.
     ebind (ebind (require d ''announce_interval_ms'') (bounded 1 None)) (\<lambda>i.
     Inr \<lparr>edge_announce_count = n, edge_announce_interval_ms = i\<rparr>))"

text \<open>One entry of the routing table; \<open>seen\<close> are the addresses of the entries before it.\<close>

definition load_routing_entry :: "py_lib \<Rightarrow> network_config \<Rightarrow> int list \<Rightarrow> yaml \<Rightarrow> routing_entry res" where
  "load_routing_entry L network seen v =
     ebind (mapping v) (\<lambda>d.
     ebind (ebind (require d ''ecu_logical_addr'') (bounded 1 (Some 65535))) (\<lambda>addr.
     ebind (ebind (require d ''ecu_interface'') (string_value True)) (\<lambda>iface.
     ebind (guard (iface \<in> {tester_interface network, ecu_interface network})) (\<lambda>_.
     ebind (guard (addr \<notin> set seen)) (\<lambda>_.
     ebind (ebind (require d ''ecu_ipv6'') (ipv6_value L)) (\<lambda>ip.
     ebind (ebind (require d ''ecu_port_plain'') (bounded 1 (Some 65535))) (\<lambda>pp.
     ebind (ebind (require d ''ecu_port_tls'') (bounded 1 (Some 65535))) (\<lambda>pt.
     ebind (string_value False (get d ''ecu_sni'' (YStr ''''))) (\<lambda>sni.
     Inr \<lparr>re_logical_addr = addr, re_ipv6 = ip, re_interface = iface, re_port_plain = pp, re_port_tls = pt, re_sni = sni\<rparr>)))))))))"

fun load_routing_entries :: "py_lib \<Rightarrow> network_config \<Rightarrow> yaml list \<Rightarrow> routing_entry list \<Rightarrow> routing_entry list res" where
  "load_routing_entries L network [] entries = Inr entries"
| "load_routing_entries L network (v # vs) entries =
     ebind (load_routing_entry L network (map re_logical_addr entries) v) (\<lambda>e.
     load_routing_entries L network vs (entries @ [e]))"

definition load_routing_table :: "py_lib \<Rightarrow> yaml \<Rightarrow> network_config \<Rightarrow> routing_entry list res" where
  "load_routing_table L v network =
     (case v of YList vs \<Rightarrow> load_routing_entries L network vs [] | _ \<Rightarrow> Inl ConfigError)"

section \<open>Middleware\<close>

definition VALID_MIDDLEWARE_TYPES :: "string list" where
  "VALID_MIDDLEWARE_TYPES =
     [''LoggerMiddleware'', ''DropMiddleware'', ''DelayMiddleware'', ''CorruptMiddleware'', ''ReplayMiddleware'',
      ''AddressMiddleware'', ''HeaderFaultMiddleware'', ''TLSFaultMiddleware'']"

definition VALID_HEADER_FAULTS :: "string list" where
  "VALID_HEADER_FAULTS = [''wrong_version'', ''bad_inverse'', ''bad_length'', ''unknown_type'']"

text \<open>Name, minimum, maximum, and whether null is allowed.\<close>

definition integer_fields :: "string \<Rightarrow> (string \<times> int \<times> int option \<times> bool) list" where
  "integer_fields t =
     (if t = ''CorruptMiddleware'' then [(''byte_offset'', 0, None, True), (''flip_mask'', 0, Some 0xFF, False)]
      else if t = ''AddressMiddleware'' then [(''src_override'', 0, Some 0xFFFF, True), (''tgt_override'', 0, Some 0xFFFF, True)]
      else if t = ''DelayMiddleware'' then [(''delay_ms'', 0, None, False), (''jitter_ms'', 0, None, False)]
      else if t = ''HeaderFaultMiddleware'' then [(''inject_on_nth'', 1, None, False)]
      else [])"

text \<open>A parameter that is present is validated and replaced.\<close>

definition with_param :: "string \<Rightarrow> (yaml \<Rightarrow> yaml res) \<Rightarrow> ydict \<Rightarrow> ydict res" where
  "with_param name f params =
     (case map_of params (YStr name) of
        None \<Rightarrow> Inr params
      | Some v \<Rightarrow> ebind (f v) (\<lambda>v'. Inr (AList.update (YStr name) v' params)))"

definition int_param :: "int \<Rightarrow> int option \<Rightarrow> bool \<Rightarrow> yaml \<Rightarrow> yaml res" where
  "int_param lo hi nullable v = (if nullable \<and> v = YNull then Inr v else ebind (bounded lo hi v) (\<lambda>i. Inr (YInt i)))"

fun coerce_fields :: "(string \<times> int \<times> int option \<times> bool) list \<Rightarrow> ydict \<Rightarrow> ydict res" where
  "coerce_fields [] params = Inr params"
| "coerce_fields ((name, lo, hi, nullable) # fs) params =
     ebind (with_param name (int_param lo hi nullable) params) (coerce_fields fs)"

definition validate_match :: "yaml \<Rightarrow> yaml res" where
  "validate_match v =
     (if v = YNull then Inr v
      else ebind (mapping v) (\<lambda>d.
        ebind (guard (has d ''direction'' \<longrightarrow> get d ''direction'' YNull \<in> {YNull, YStr ''tester_to_ecu'', YStr ''ecu_to_tester''})) (\<lambda>_.
        ebind (with_param ''payload_type'' (int_param 0 (Some 0xFFFF) True) d) (\<lambda>d'. Inr (YMap d')))))"

definition string_param :: "yaml \<Rightarrow> yaml res" where
  "string_param v = ebind (string_value True v) (\<lambda>s. Inr (YStr s))"

definition bool_param :: "yaml \<Rightarrow> yaml res" where
  "bool_param v = ebind (strict_bool v) (\<lambda>b. Inr (YBool b))"

definition rate_param :: "py_lib \<Rightarrow> yaml \<Rightarrow> yaml res" where
  "rate_param L v = ebind (nonnegative_number L v) (\<lambda>r. ebind (guard (\<not> 1 < r)) (\<lambda>_. Inr (YFloat (Some r))))"

definition choice_param :: "string list \<Rightarrow> yaml \<Rightarrow> yaml res" where
  "choice_param allowed v = ebind (guard (v \<in> YStr ` set allowed)) (\<lambda>_. Inr v)"

definition check_params :: "py_lib \<Rightarrow> string \<Rightarrow> ydict \<Rightarrow> ydict res" where
  "check_params L t p =
     (if t = ''DropMiddleware'' then ebind (with_param ''drop_rate'' (rate_param L) p) (with_param ''match'' validate_match)
      else if t = ''LoggerMiddleware'' then ebind (with_param ''log_path'' string_param p) (with_param ''hex_dump'' bool_param)
      else if t = ''ReplayMiddleware'' then ebind (with_param ''record'' bool_param p) (with_param ''replay_count'' (int_param 1 None False))
      else if t = ''HeaderFaultMiddleware''
      then ebind (with_param ''fault'' (\<lambda>v. ebind (string_value True v) (\<lambda>s. choice_param VALID_HEADER_FAULTS (YStr s))) p)
             (with_param ''direction'' (choice_param [''tester_to_ecu'', ''ecu_to_tester'', ''both'']))
      else if t = ''TLSFaultMiddleware'' then with_param ''fault'' string_param p
      else Inr p)"

definition load_middleware_entry :: "py_lib \<Rightarrow> yaml \<Rightarrow> middleware_config res" where
  "load_middleware_entry L v =
     ebind (mapping v) (\<lambda>d.
     ebind (ebind (require d ''type'') (string_value False)) (\<lambda>t.
     ebind (guard (t \<in> set VALID_MIDDLEWARE_TYPES)) (\<lambda>_.
     ebind (strict_bool (get d ''enabled'' (YBool True))) (\<lambda>en.
     ebind (coerce_fields (integer_fields t) (filter (\<lambda>(k, x). k \<noteq> YStr ''type'' \<and> k \<noteq> YStr ''enabled'') d)) (\<lambda>p.
     ebind (check_params L t p) (\<lambda>p'.
     Inr \<lparr>mwc_type = t, mwc_enabled = en, mwc_params = p'\<rparr>))))))"

definition load_middleware :: "py_lib \<Rightarrow> yaml \<Rightarrow> middleware_config list res" where
  "load_middleware L v = (case v of YList vs \<Rightarrow> map_res (load_middleware_entry L) vs | _ \<Rightarrow> Inl ConfigError)"

section \<open>The whole configuration\<close>

definition section_required :: "ydict \<Rightarrow> string \<Rightarrow> ydict res" where
  "section_required d k = ebind (require d k) mapping"

definition edge_load_config :: "py_lib \<Rightarrow> yaml \<Rightarrow> app_config res" where
  "edge_load_config L tree =
     ebind (mapping tree) (\<lambda>d.
     ebind (ebind (section_required d ''network'') (load_network L)) (\<lambda>nw.
     ebind (ebind (section_required d ''ports'') load_ports) (\<lambda>po.
     ebind (ebind (section_required d ''tls'') load_tls) (\<lambda>tl.
     ebind (ebind (section_required d ''doip'') load_edge_doip) (\<lambda>dc.
     ebind (ebind (section_required d ''timers'') (load_timers L)) (\<lambda>tm.
     ebind (ebind (section_required d ''udp'') load_edge_udp) (\<lambda>u.
     ebind (ebind (require d ''routing_table'') (\<lambda>v. load_routing_table L v nw)) (\<lambda>rt.
     ebind (load_middleware L (get d ''middleware'' (YList []))) (\<lambda>mw.
     Inr \<lparr>ac_network = nw, ac_ports = po, ac_tls = tl, ac_doip = dc, ac_timers = tm, ac_udp = u, ac_routing = rt,
       ac_middleware = mw\<rparr>)))))))))"

end
