(* ===== verification/Edge_Activation.thy ===== *)
theory Edge_Activation
  imports Edge_Frame Session_Registry
begin

text \<open>
  The EdgeNode's session registry (\<^verbatim>\<open>doip_edgenode/session_registry.py\<close>) and the Routing Activation
  of its sessions (\<^verbatim>\<open>doip_edgenode/session.py\<close>) as a step relation over all sessions. A handler
  runs without interruption between its awaits: the activation lock of an address, the Alive Check
  probe of the present owner, the capacity lock and its probes, and the sending of the response.
  Each of these is a phase of the session; other sessions run in between. What a probe finds is
  arbitrary.
\<close>

section \<open>The registry\<close>

definition edge_register :: "int \<Rightarrow> nat \<Rightarrow> registry \<Rightarrow> registry" where
  "edge_register a i rg = AList.update a i rg"

definition edge_unregister :: "int \<Rightarrow> nat \<Rightarrow> registry \<Rightarrow> registry" where
  "edge_unregister a i rg = (if map_of rg a = Some i then AList.delete a rg else rg)"

definition edge_lookup :: "registry \<Rightarrow> int \<Rightarrow> nat option" where
  "edge_lookup rg a = map_of rg a"

definition edge_count :: "registry \<Rightarrow> nat" where
  "edge_count rg = length rg"

interpretation edge_reg: session_table registry_wf edge_lookup edge_register edge_unregister edge_count
proof -
  have "edge_register = registry_register" "edge_unregister = registry_unregister"
    "edge_lookup = registry_lookup" "edge_count = registry_len"
    by (simp_all add: fun_eq_iff edge_register_def registry_register_def edge_unregister_def
        registry_unregister_def edge_lookup_def registry_lookup_def edge_count_def registry_len_def)
  then show "session_table registry_wf edge_lookup edge_register edge_unregister edge_count"
    using ecu_reg.session_table_axioms by simp
qed

section \<open>Sessions and the world\<close>

text \<open>Where a session is: reading, waiting for the lock of an address, probing the present owner,
  waiting for the capacity lock, probing all owners, done with that, sending the response, finished.
  The first number is the address, the second the lock object it uses.\<close>

datatype ephase =
    EReading
  | EWaitLock int nat
  | EProbing int nat nat
  | EWaitCap int nat
  | EReclaim int nat "(int \<times> nat) list"
  | ECapDone int nat
  | EResponding int nat
  | EDone

record esess =
  s_activated :: bool
  s_tester :: "int option"
  s_closing :: bool
  s_phase :: ephase
  s_replies :: "(int \<times> int) list"

record edge_world =
  esessions :: "nat \<Rightarrow> esess"
  next_sess :: nat
  ereg :: registry
  open_sockets :: "nat list"
  activation_locks :: "(int \<times> nat \<times> nat) list"
  lock_holder :: "nat \<Rightarrow> nat option"
  next_lock :: nat
  cap_holder :: "nat option"

definition upd_esess :: "nat \<Rightarrow> (esess \<Rightarrow> esess) \<Rightarrow> edge_world \<Rightarrow> edge_world" where
  "upd_esess i f w = w\<lparr>esessions := (esessions w)(i := f (esessions w i))\<rparr>"

abbreviation goto :: "nat \<Rightarrow> ephase \<Rightarrow> edge_world \<Rightarrow> edge_world" where
  "goto i p \<equiv> upd_esess i (\<lambda>s. s\<lparr>s_phase := p\<rparr>)"

text \<open>\<open>reserve\<close> and \<open>attach\<close> for a new connection, \<open>release\<close>.\<close>

definition reserve :: "edge_doip \<Rightarrow> nat \<Rightarrow> nat list \<Rightarrow> nat list option" where
  "reserve dc i opn =
     (if i \<in> set opn then Some opn
      else if int (length opn) \<ge> max_connections dc + 1 then None
      else Some (opn @ [i]))"

definition release :: "nat \<Rightarrow> nat list \<Rightarrow> nat list" where
  "release i opn = removeAll i opn"

definition new_esess :: esess where
  "new_esess = \<lparr>s_activated = False, s_tester = None, s_closing = False, s_phase = EReading, s_replies = []\<rparr>"

definition edge_accept :: "edge_doip \<Rightarrow> edge_world \<Rightarrow> edge_world" where
  "edge_accept dc w =
     (case reserve dc (next_sess w) (open_sockets w) of
        None \<Rightarrow> w
      | Some opn \<Rightarrow> (upd_esess (next_sess w) (\<lambda>_. new_esess) w)\<lparr>next_sess := next_sess w + 1, open_sockets := opn\<rparr>)"

text \<open>\<open>_schedule_cleanup\<close> with \<open>_close_transport_and_registry\<close>: what eviction does at once.\<close>

definition schedule_cleanup :: "nat \<Rightarrow> edge_world \<Rightarrow> edge_world" where
  "schedule_cleanup i w =
     (if s_closing (esessions w i) then w
      else let w = upd_esess i (\<lambda>s. s\<lparr>s_closing := True\<rparr>) w;
               w = w\<lparr>open_sockets := release i (open_sockets w)\<rparr> in
        case s_tester (esessions w i) of
          None \<Rightarrow> w
        | Some a \<Rightarrow> w\<lparr>ereg := edge_unregister a i (ereg w)\<rparr>)"

section \<open>The activation lock of an address\<close>

definition enter_lock :: "int \<Rightarrow> edge_world \<Rightarrow> nat \<times> edge_world" where
  "enter_lock a w =
     (case map_of (activation_locks w) a of
        Some (lk, users) \<Rightarrow> (lk, w\<lparr>activation_locks := AList.update a (lk, users + 1) (activation_locks w)\<rparr>)
      | None \<Rightarrow> (next_lock w,
          w\<lparr>activation_locks := AList.update a (next_lock w, 1) (activation_locks w), next_lock := next_lock w + 1\<rparr>))"

text \<open>The end of the \<open>activation_lock\<close> block, by the session that holds the lock.\<close>

definition leave_lock :: "int \<Rightarrow> nat \<Rightarrow> edge_world \<Rightarrow> edge_world" where
  "leave_lock a lk w =
     (let w = w\<lparr>lock_holder := (lock_holder w)(lk := None)\<rparr> in
      case map_of (activation_locks w) a of
        None \<Rightarrow> w
      | Some (_, users) \<Rightarrow>
          if users = 1 then w\<lparr>activation_locks := AList.delete a (activation_locks w)\<rparr>
          else w\<lparr>activation_locks := AList.update a (lk, users - 1) (activation_locks w)\<rparr>)"

section \<open>Routing activation\<close>

text \<open>A response is written unless the session is closing.\<close>

definition reply :: "nat \<Rightarrow> int \<Rightarrow> int \<Rightarrow> edge_world \<Rightarrow> edge_world" where
  "reply i code src w =
     (if s_closing (esessions w i) then w else upd_esess i (\<lambda>s. s\<lparr>s_replies := s_replies s @ [(code, src)]\<rparr>) w)"

text \<open>A protocol error before the lock, and one inside the block: the lock is left, then \<open>run\<close> cleans up.\<close>

definition refuse :: "nat \<Rightarrow> int \<Rightarrow> int \<Rightarrow> edge_world \<Rightarrow> edge_world" where
  "refuse i code src w = goto i EDone (schedule_cleanup i (reply i code src w))"

definition fail_locked :: "nat \<Rightarrow> int \<Rightarrow> nat \<Rightarrow> edge_world \<Rightarrow> edge_world" where
  "fail_locked i src lk w = goto i EDone (schedule_cleanup i (leave_lock src lk w))"

definition deny_locked :: "nat \<Rightarrow> int \<Rightarrow> nat \<Rightarrow> int \<Rightarrow> edge_world \<Rightarrow> edge_world" where
  "deny_locked i src lk code w = fail_locked i src lk (reply i code src w)"

definition commit :: "nat \<Rightarrow> int \<Rightarrow> nat \<Rightarrow> edge_world \<Rightarrow> edge_world" where
  "commit i src lk w =
     (if s_closing (esessions w i) then fail_locked i src lk w
      else let w = upd_esess i (\<lambda>s. s\<lparr>s_tester := Some src, s_activated := True\<rparr>) w;
               w = w\<lparr>ereg := edge_register src i (ereg w)\<rparr>;
               w = reply i 0x10 src w
           in goto i (EResponding src lk) w)"

definition capacity_check :: "edge_doip \<Rightarrow> nat \<Rightarrow> int \<Rightarrow> nat \<Rightarrow> edge_world \<Rightarrow> edge_world" where
  "capacity_check dc i src lk w =
     (if int (edge_count (ereg w)) \<ge> max_connections dc then deny_locked i src lk 0x01 w else commit i src lk w)"

definition conflict_check :: "edge_doip \<Rightarrow> nat \<Rightarrow> int \<Rightarrow> nat \<Rightarrow> edge_world \<Rightarrow> edge_world" where
  "conflict_check dc i src lk w =
     (if s_closing (esessions w i) then fail_locked i src lk w
      else let existing = edge_lookup (ereg w) src in
        if existing \<noteq> None \<and> existing \<noteq> Some i then goto i (EProbing src lk (the existing)) w
        else if \<not> s_activated (esessions w i)
        then if int (edge_count (ereg w)) \<ge> max_connections dc then goto i (EWaitCap src lk) w
             else commit i src lk w
        else commit i src lk w)"

text \<open>\<open>_handle_routing_activation\<close> up to the lock.\<close>

definition edge_ra_begin :: "edge_doip \<Rightarrow> nat \<Rightarrow> int \<Rightarrow> int \<Rightarrow> edge_world \<Rightarrow> edge_world" where
  "edge_ra_begin dc i src activation_type w =
     (if s_activated (esessions w i) \<and> Some src \<noteq> s_tester (esessions w i) then refuse i 0x02 src w
      else if \<not> is_tester_allowed dc src then refuse i 0x00 src w
      else if activation_type \<notin> {0x00, 0x01} then refuse i 0x06 src w
      else case enter_lock src w of (lk, w') \<Rightarrow> goto i (EWaitLock src lk) w')"

text \<open>The probe of \<open>j\<close> has returned.\<close>

definition edge_probed :: "edge_doip \<Rightarrow> nat \<Rightarrow> int \<Rightarrow> nat \<Rightarrow> nat \<Rightarrow> bool \<Rightarrow> edge_world \<Rightarrow> edge_world" where
  "edge_probed dc i src lk j alive w =
     (if s_closing (esessions w i) then fail_locked i src lk w
      else if edge_lookup (ereg w) src \<noteq> Some j then conflict_check dc i src lk w
      else if alive then deny_locked i src lk 0x03 w
      else conflict_check dc i src lk (schedule_cleanup j w))"

text \<open>\<open>_reclaim_capacity\<close>: up to the probes, and after them. \<open>dead\<close> are the owners whose probe finished
  without an answer.\<close>

definition reclaim_begin :: "edge_doip \<Rightarrow> nat \<Rightarrow> int \<Rightarrow> nat \<Rightarrow> edge_world \<Rightarrow> edge_world" where
  "reclaim_begin dc i src lk w =
     (if s_closing (esessions w i) then fail_locked i src lk w
      else if int (edge_count (ereg w)) < max_connections dc then capacity_check dc i src lk w
      else goto i (EReclaim src lk (ereg w)) (w\<lparr>cap_holder := Some i\<rparr>))"

fun evict_dead :: "(int \<times> nat) list \<Rightarrow> (int \<times> nat) list \<Rightarrow> edge_world \<Rightarrow> edge_world" where
  "evict_dead [] dead w = w"
| "evict_dead ((a, j) # owners) dead w =
     evict_dead owners dead
       (if (a, j) \<in> set dead \<and> edge_lookup (ereg w) a = Some j then schedule_cleanup j w else w)"

definition reclaim_probed :: "nat \<Rightarrow> int \<Rightarrow> nat \<Rightarrow> (int \<times> nat) list \<Rightarrow> (int \<times> nat) list \<Rightarrow> edge_world \<Rightarrow> edge_world" where
  "reclaim_probed i src lk owners dead w =
     goto i (ECapDone src lk) (if s_closing (esessions w i) then w else evict_dead owners dead w)"

definition reclaim_end :: "edge_doip \<Rightarrow> nat \<Rightarrow> int \<Rightarrow> nat \<Rightarrow> edge_world \<Rightarrow> edge_world" where
  "reclaim_end dc i src lk w =
     (let w = w\<lparr>cap_holder := None\<rparr> in
      if s_closing (esessions w i) then fail_locked i src lk w else capacity_check dc i src lk w)"

definition edge_responded :: "nat \<Rightarrow> int \<Rightarrow> nat \<Rightarrow> edge_world \<Rightarrow> edge_world" where
  "edge_responded i src lk w =
     (if s_closing (esessions w i) then fail_locked i src lk w else goto i EReading (leave_lock src lk w))"

section \<open>Interleavings\<close>

inductive edge_step :: "edge_doip \<Rightarrow> edge_world \<Rightarrow> edge_world \<Rightarrow> bool" for dc where
  Accept: "edge_step dc w (edge_accept dc w)"
| Request: "i < next_sess w \<Longrightarrow> s_phase (esessions w i) = EReading \<Longrightarrow> \<not> s_closing (esessions w i) \<Longrightarrow>
     edge_step dc w (edge_ra_begin dc i src ty w)"
| Acquire: "s_phase (esessions w i) = EWaitLock src lk \<Longrightarrow> lock_holder w lk = None \<Longrightarrow>
     edge_step dc w (conflict_check dc i src lk (w\<lparr>lock_holder := (lock_holder w)(lk \<mapsto> i)\<rparr>))"
| Probed: "s_phase (esessions w i) = EProbing src lk j \<Longrightarrow> edge_step dc w (edge_probed dc i src lk j alive w)"
| CapAcquire: "s_phase (esessions w i) = EWaitCap src lk \<Longrightarrow> cap_holder w = None \<Longrightarrow>
     edge_step dc w (reclaim_begin dc i src lk w)"
| Reclaimed: "s_phase (esessions w i) = EReclaim src lk owners \<Longrightarrow>
     edge_step dc w (reclaim_probed i src lk owners dead w)"
| CapDone: "s_phase (esessions w i) = ECapDone src lk \<Longrightarrow> edge_step dc w (reclaim_end dc i src lk w)"
| Responded: "s_phase (esessions w i) = EResponding src lk \<Longrightarrow> edge_step dc w (edge_responded i src lk w)"
| Expire: "i < next_sess w \<Longrightarrow> edge_step dc w (schedule_cleanup i w)"
| Close: "i < next_sess w \<Longrightarrow> s_phase (esessions w i) = EReading \<Longrightarrow>
     edge_step dc w (goto i EDone (schedule_cleanup i w))"

definition new_edge :: edge_world where
  "new_edge = \<lparr>esessions = (\<lambda>_. new_esess\<lparr>s_phase := EDone\<rparr>), next_sess = 0, ereg = [], open_sockets = [],
     activation_locks = [], lock_holder = (\<lambda>_. None), next_lock = 0, cap_holder = None\<rparr>"

end
