(* ===== verification/Udp_Discovery.thy ===== *)
theory Udp_Discovery
  imports Config_Load Doip_Dispatcher
begin

text \<open>
  UDP discovery of the VirtualEcu (\<^verbatim>\<open>virtual_ecu/virtecu/udp.py\<close>): the announcement payload, the
  datagram handler with its two guards against answering itself or a peer's responses, the deferred
  identification response with its plugin hook, and the start-up announcements. Creating and
  configuring the socket is not modelled; the host's own addresses and the interface index are arguments.
\<close>

section \<open>Addresses and delays\<close>

text \<open>A socket address: host, port, and for IPv6 flow information and scope.\<close>

type_synonym udp_addr = "string \<times> int \<times> int list"

datatype key_part = PStr string | PInt int

definition addr_key :: "udp_addr \<Rightarrow> key_part list" where
  "addr_key a = PStr (fst a) # map PInt (fst (snd a) # snd (snd a))"

text \<open>UTF-8 of a code point below 256.\<close>

definition utf8_char :: "char \<Rightarrow> int list" where
  "utf8_char c = (let n = of_char c :: int in if n < 128 then [n] else [0xC0 + n div 64, 0x80 + n mod 64])"

definition mix :: "int \<Rightarrow> int \<Rightarrow> int" where
  "mix seed b = (seed * 31 + b) AND 0xFFFFFFFF"

fun mix_part :: "key_part \<Rightarrow> int \<Rightarrow> int" where
  "mix_part (PStr s) seed = foldl mix seed (concat (map utf8_char s))"
| "mix_part (PInt i) seed = mix seed i"

definition stagger_delay_ms :: "key_part list \<Rightarrow> int \<Rightarrow> int" where
  "stagger_delay_ms key max_ms = (if max_ms \<le> 0 then 0 else fold mix_part key 0 mod (max_ms + 1))"

section \<open>The announcement payload\<close>

definition vin_bytes :: "doip_config \<Rightarrow> bytes res" where
  "vin_bytes dc = (if ascii_text (vin dc) then Inr (ljust 17 (take 17 (encode_ascii (vin dc)))) else Inl ValueError)"

definition py_fromhex :: "string \<Rightarrow> bytes res" where
  "py_fromhex s = (case fromhex s of None \<Rightarrow> Inl ValueError | Some b \<Rightarrow> Inr b)"

definition build_announcement_payload :: "ecu_config \<Rightarrow> bytes res" where
  "build_announcement_payload cfg =
     ebind (vin_bytes (doip cfg)) (\<lambda>v.
     ebind (py_fromhex (eid (doip cfg))) (\<lambda>e.
     ebind (py_fromhex (gid (doip cfg))) (\<lambda>g.
     ebind (pack_uint 2 (ecu_logical_addr (doip cfg))) (\<lambda>a.
     Inr (v @ a @ e @ g @ [0x00] @ [0x00])))))"

section \<open>The protocol object\<close>

record udp_protocol =
  u_payload :: bytes
  u_if_index :: int
  u_port :: int
  u_discovery :: string
  u_local_ips :: "string list"
  u_node_type :: int
  u_power_mode :: int
  u_max_data :: int
  u_max_sockets :: int
  u_eid :: bytes
  u_vin :: bytes
  u_wait :: int

definition new_udp_protocol :: "ecu_config \<Rightarrow> string list \<Rightarrow> int \<Rightarrow> int \<Rightarrow> udp_protocol res" where
  "new_udp_protocol cfg local_ips if_index max_sockets =
     ebind (build_announcement_payload cfg) (\<lambda>p.
     ebind (py_fromhex (eid (doip cfg))) (\<lambda>e.
     ebind (vin_bytes (doip cfg)) (\<lambda>v.
     Inr \<lparr>u_payload = p, u_if_index = if_index, u_port = port (listen cfg), u_discovery = discovery_family (listen cfg),
       u_local_ips = local_ips, u_node_type = node_type (doip cfg), u_power_mode = power_mode (doip cfg),
       u_max_data = max_payload_bytes (doip cfg), u_max_sockets = max_sockets, u_eid = e, u_vin = v,
       u_wait = announce_wait_ms (udp cfg)\<rparr>)))"

text \<open>Whether there is a transport, the datagrams sent, and the deferred identification responses: delay,
  requester, payload type and request.\<close>

record udp_io =
  u_transport :: bool
  u_out :: "(bytes \<times> udp_addr) list"
  u_tasks :: "(int \<times> udp_addr \<times> int \<times> bytes) list"

definition sendto :: "bytes \<Rightarrow> udp_addr \<Rightarrow> ('m udp_io_scheme, unit) py" where
  "sendto data addr = modify (\<lambda>s. s\<lparr>u_out := u_out s @ [(data, addr)]\<rparr>)"

text \<open>\<^verbatim>\<open>if self._transport: self._transport.sendto(build_frame(pt, payload), addr)\<close>.\<close>

definition reply :: "int \<Rightarrow> bytes res \<Rightarrow> udp_addr \<Rightarrow> ('m udp_io_scheme, unit) py" where
  "reply pt payload addr =
     bnd (gets u_transport) (\<lambda>tr.
     if tr then bnd (lift (ebind payload (\<lambda>p. build_frame pt p VER))) (\<lambda>f. sendto f addr) else ret ())"

definition UDP_KNOWN_TYPES :: "int list" where
  "UDP_KNOWN_TYPES = [PT_ENTITY_STATUS_REQUEST, PT_POWER_MODE_REQUEST, PT_VEHICLE_ID_REQUEST,
     PT_VEHICLE_ID_REQUEST_WITH_EID, PT_VEHICLE_ID_REQUEST_WITH_VIN]"

definition VERSION_WILDCARD_TYPES :: "int list" where
  "VERSION_WILDCARD_TYPES = [PT_VEHICLE_ID_REQUEST, PT_VEHICLE_ID_REQUEST_WITH_EID, PT_VEHICLE_ID_REQUEST_WITH_VIN]"

definition UDP_NEVER_NACK_TYPES :: "int list" where
  "UDP_NEVER_NACK_TYPES = [PT_HEADER_NACK, PT_VEHICLE_ID_RESPONSE, PT_ENTITY_STATUS_RESPONSE, PT_POWER_MODE_RESPONSE]"

definition is_self_origin :: "udp_protocol \<Rightarrow> udp_addr \<Rightarrow> bool" where
  "is_self_origin p addr \<longleftrightarrow>
     fst (snd addr) = u_port p \<and> takeWhile (\<lambda>c. c \<noteq> CHR ''%'') (fst addr) \<in> set (u_local_ips p)"

definition ident_matches :: "udp_protocol \<Rightarrow> bytes \<Rightarrow> int \<Rightarrow> bool" where
  "ident_matches p req pt =
     (if pt = PT_VEHICLE_ID_REQUEST then True
      else if pt = PT_VEHICLE_ID_REQUEST_WITH_EID then 6 \<le> length req \<and> take 6 req = u_eid p
      else if pt = PT_VEHICLE_ID_REQUEST_WITH_VIN then 17 \<le> length req \<and> take 17 req = u_vin p
      else False)"

text \<open>\<open>registered\<close> is \<^verbatim>\<open>len(self._registry)\<close>, \<open>None\<close> without a registry.\<close>

definition entity_status_payload :: "udp_protocol \<Rightarrow> nat option \<Rightarrow> bytes res" where
  "entity_status_payload p registered =
     (let open_sockets = (case registered of None \<Rightarrow> 0 | Some n \<Rightarrow> min (int n) 0xFF);
          max_sockets = min (max (u_max_sockets p) 0) 0xFF in
      ebind (py_bytes [u_node_type p, max_sockets, open_sockets]) (\<lambda>b.
      ebind (pack_uint 4 (u_max_data p)) (\<lambda>m. Inr (b @ m))))"

definition schedule_identification :: "udp_protocol \<Rightarrow> udp_addr \<Rightarrow> int \<Rightarrow> bytes \<Rightarrow> ('m udp_io_scheme, unit) py" where
  "schedule_identification p addr pt req =
     bnd (gets u_transport) (\<lambda>tr.
     if \<not> tr then ret ()
     else modify (\<lambda>s. s\<lparr>u_tasks := u_tasks s @ [(stagger_delay_ms (addr_key addr) (u_wait p), addr, pt, req)]\<rparr>))"

definition datagram_received ::
    "udp_protocol \<Rightarrow> nat option \<Rightarrow> bytes \<Rightarrow> udp_addr \<Rightarrow> ('m udp_io_scheme, unit) py" where
  "datagram_received p registered data addr =
     (if length data < 8 then ret ()
      else if is_self_origin p addr then ret ()
      else if from_be (py_slice 2 4 data) \<in> set UDP_NEVER_NACK_TYPES then ret ()
      else bnd (lift (validate_header data (Some UDP_KNOWN_TYPES) VERSION_WILDCARD_TYPES)) (\<lambda>nack.
        case nack of
          Some code \<Rightarrow> reply PT_HEADER_NACK (py_bytes [code]) addr
        | None \<Rightarrow>
            let pt = from_be (py_slice 2 4 data) in
            if pt = PT_ENTITY_STATUS_REQUEST
            then reply PT_ENTITY_STATUS_RESPONSE (entity_status_payload p registered) addr
            else if pt = PT_POWER_MODE_REQUEST then reply PT_POWER_MODE_RESPONSE (py_bytes [u_power_mode p]) addr
            else if pt \<in> {PT_VEHICLE_ID_REQUEST, PT_VEHICLE_ID_REQUEST_WITH_EID, PT_VEHICLE_ID_REQUEST_WITH_VIN}
            then let req = drop 8 data in if \<not> ident_matches p req pt then ret () else schedule_identification p addr pt req
            else ret ()))"

text \<open>\<open>_send_identification_after\<close>, once its delay is over. \<open>hooks\<close> is \<open>None\<close> without a hook dispatcher.\<close>

definition send_identification ::
    "udp_protocol \<Rightarrow> (udp_addr, 'm udp_io_scheme) doip_dispatcher option \<Rightarrow> udp_addr \<Rightarrow> int \<Rightarrow> bytes
       \<Rightarrow> ('m udp_io_scheme, unit) py" where
  "send_identification p hooks addr pt req =
     (let default_reply = reply PT_VEHICLE_ID_RESPONSE (Inr (u_payload p)) addr in
      case hooks of
        None \<Rightarrow> default_reply
      | Some t \<Rightarrow>
          bnd (resolve_identification_request t \<lparr>ident_payload_type = pt, ident_requester = addr, ident_raw = req\<rparr> (UdpPeer addr))
            (\<lambda>override. case override of
               None \<Rightarrow> default_reply
             | Some b \<Rightarrow> if b \<noteq> [] then reply PT_VEHICLE_ID_RESPONSE (Inr b) addr else ret ()))"

section \<open>Announcements\<close>

definition DOIP_MCAST_ADDR :: string where "DOIP_MCAST_ADDR = ''ff02::1''"
definition DOIP_V4_BROADCAST_ADDR :: string where "DOIP_V4_BROADCAST_ADDR = ''255.255.255.255''"

definition announcement_dest :: "udp_protocol \<Rightarrow> udp_addr" where
  "announcement_dest p =
     (if u_discovery p = ''ipv4'' then (DOIP_V4_BROADCAST_ADDR, u_port p, [])
      else (DOIP_MCAST_ADDR, u_port p, [0, u_if_index p]))"

definition send_announcement :: "udp_protocol \<Rightarrow> ('m udp_io_scheme, unit) py" where
  "send_announcement p = reply PT_VEHICLE_ID_RESPONSE (Inr (u_payload p)) (announcement_dest p)"

text \<open>The announcements of \<open>run_announcer\<close>: when each is sent, in milliseconds after the socket is open. The
  sleep after an announcement is skipped after the last one.\<close>

fun announce_loop :: "nat \<Rightarrow> int \<Rightarrow> int \<Rightarrow> int list" where
  "announce_loop 0 interval now = []"
| "announce_loop (Suc n) interval now = now # announce_loop n interval (if n = 0 then now else now + interval)"

definition run_announcer :: "ecu_config \<Rightarrow> int list" where
  "run_announcer cfg =
     (let initial = stagger_delay_ms [PInt (ecu_logical_addr (doip cfg)), PStr (vin (doip cfg))] (announce_wait_ms (udp cfg)) in
      announce_loop (nat (announce_count (udp cfg))) (announce_interval_ms (udp cfg)) initial)"

end
