(* ===== verification/Edge_Udp.thy ===== *)
theory Edge_Udp
  imports Edge_Activation Udp_Discovery
begin

text \<open>
  UDP discovery of the EdgeNode (\<^verbatim>\<open>doip_edgenode/udp_announcer.py\<close>): validation and dispatch of
  discovery datagrams, the bounded set of deferred identification responses, and the start-up
  announcements. The socket itself and the random delays are not modelled: a deferred response may
  fire at any time. The announcements are timed from the random initial wait, an argument.
\<close>

section \<open>Tables\<close>

definition EDGE_UDP_PAYLOAD_LENGTHS :: "(int \<times> int list) list" where
  "EDGE_UDP_PAYLOAD_LENGTHS =
     [(PT_HEADER_NACK, [1]), (PT_VEHICLE_ID_REQUEST, [0]), (PT_VEHICLE_ID_REQUEST_WITH_EID, [6]),
      (PT_VEHICLE_ID_REQUEST_WITH_VIN, [17]), (PT_VEHICLE_ID_RESPONSE, [32, 33]), (PT_ENTITY_STATUS_REQUEST, [0]),
      (PT_POWER_MODE_REQUEST, [0])]"

definition DISCOVERY_REQUESTS :: "int list" where
  "DISCOVERY_REQUESTS = [PT_VEHICLE_ID_REQUEST, PT_VEHICLE_ID_REQUEST_WITH_EID, PT_VEHICLE_ID_REQUEST_WITH_VIN]"

definition MAX_PENDING_RESPONSES :: nat where "MAX_PENDING_RESPONSES = 256"

definition DOIP_UDP_PORT :: int where "DOIP_UDP_PORT = 13400"

section \<open>Payloads\<close>

definition edge_announcement_payload :: "edge_doip \<Rightarrow> bytes res" where
  "edge_announcement_payload dc =
     ebind (if ascii_text (edge_doip.vin dc) then Inr (encode_ascii (edge_doip.vin dc)) else Inl ValueError) (\<lambda>v.
     ebind (pack_uint 2 (node_logical_addr dc)) (\<lambda>a.
     ebind (py_fromhex (edge_doip.eid dc)) (\<lambda>e.
     ebind (py_fromhex (edge_doip.gid dc)) (\<lambda>g.
     Inr (v @ a @ e @ g @ [0, 0])))))"

text \<open>\<open>SessionRegistry.status_payload\<close>, from the number of open sockets.\<close>

definition status_payload :: "edge_doip \<Rightarrow> nat \<Rightarrow> bytes res" where
  "status_payload dc open_count = py_bytes [edge_node_type dc, max_connections dc, int open_count]"

section \<open>Source addresses\<close>

text \<open>\<^verbatim>\<open>ipaddress.IPv4Address\<close>: four decimal numbers up to 255 of at most three digits, without leading zeros.\<close>

fun split_dots :: "string \<Rightarrow> string list" where
  "split_dots [] = [[]]"
| "split_dots (c # cs) =
     (if c = CHR ''.'' then [] # split_dots cs else (case split_dots cs of [] \<Rightarrow> [[c]] | w # ws \<Rightarrow> (c # w) # ws))"

definition parse_octet :: "string \<Rightarrow> int option" where
  "parse_octet s =
     (if s = [] \<or> 3 < length s \<or> \<not> list_all (\<lambda>c. c \<in> set ''0123456789'') s \<or> (1 < length s \<and> hd s = CHR ''0'') then None
      else let v = foldl (\<lambda>a c. 10 * a + (of_char c - 48)) 0 s in if v \<le> 255 then Some v else None)"

definition parse_ipv4 :: "string \<Rightarrow> int list option" where
  "parse_ipv4 s =
     (let os = map parse_octet (split_dots s) in
      if length os = 4 \<and> None \<notin> set os then Some (map the os) else None)"

definition source_allowed :: "string \<Rightarrow> bool" where
  "source_allowed address =
     (case parse_ipv4 address of
        None \<Rightarrow> False
      | Some os \<Rightarrow> \<not> (os = [0, 0, 0, 0] \<or> 224 \<le> hd os \<and> hd os \<le> 239 \<or> os = [255, 255, 255, 255]))"

section \<open>The protocol object\<close>

text \<open>Transports are numbered. A deferred response remembers its transport and the requester.\<close>

record edge_udp =
  eu_transport :: "nat option"
  eu_out :: "(bytes \<times> udp_addr) list"
  eu_pending :: "(nat \<times> nat \<times> udp_addr) list"
  eu_next :: nat

definition eu_send :: "int \<Rightarrow> bytes \<Rightarrow> udp_addr \<Rightarrow> (edge_udp, unit) py" where
  "eu_send pt payload addr =
     bnd (gets eu_transport) (\<lambda>tr.
     if tr = None then ret ()
     else bnd (lift (edge_build_frame pt payload 0x02)) (\<lambda>f. modify (\<lambda>s. s\<lparr>eu_out := eu_out s @ [(f, addr)]\<rparr>)))"

definition eu_reject :: "int \<Rightarrow> udp_addr \<Rightarrow> (edge_udp, unit) py" where
  "eu_reject code addr = bnd (lift (py_bytes [code])) (\<lambda>b. eu_send PT_HEADER_NACK b addr)"

definition schedule_discovery :: "udp_addr \<Rightarrow> edge_udp \<Rightarrow> edge_udp" where
  "schedule_discovery addr s =
     (case eu_transport s of
        None \<Rightarrow> s
      | Some tr \<Rightarrow>
          if length (eu_pending s) \<ge> MAX_PENDING_RESPONSES then s
          else s\<lparr>eu_pending := eu_pending s @ [(eu_next s, tr, addr)], eu_next := eu_next s + 1\<rparr>)"

text \<open>The closure \<open>reply\<close>, run by the timer \<open>h\<close>.\<close>

definition fire_response :: "bytes \<Rightarrow> nat \<Rightarrow> (edge_udp, unit) py" where
  "fire_response payload h =
     bnd (gets (\<lambda>s. s)) (\<lambda>s.
     case map_of (eu_pending s) h of
       None \<Rightarrow> ret ()
     | Some (tr, addr) \<Rightarrow>
         seq (modify (\<lambda>s. s\<lparr>eu_pending := AList.delete h (eu_pending s)\<rparr>))
          (if eu_transport s = Some tr then eu_send PT_VEHICLE_ID_RESPONSE payload addr else ret ()))"

text \<open>\<open>connection_lost\<close> with \<open>cancel_pending\<close>.\<close>

definition connection_lost :: "edge_udp \<Rightarrow> edge_udp" where
  "connection_lost s = s\<lparr>eu_pending := [], eu_transport := None\<rparr>"

definition edge_datagram_received ::
    "edge_doip \<Rightarrow> bytes \<Rightarrow> nat \<Rightarrow> bytes \<Rightarrow> udp_addr \<Rightarrow> (edge_udp, unit) py" where
  "edge_datagram_received dc payload open_count data addr =
     (if \<not> source_allowed (fst addr) \<or> length data < 8 then ret ()
      else
        let version = uint (data ! 0); inverse = uint (data ! 1); payload_type = from_be (py_slice 2 4 data);
            default_discovery = (version = 0xFF \<and> payload_type \<in> set DISCOVERY_REQUESTS) in
        if inverse \<noteq> (version XOR 0xFF) \<or> (version \<notin> {0x02, 0x03} \<and> \<not> default_discovery) then eu_reject 0x00 addr
        else case map_of EDGE_UDP_PAYLOAD_LENGTHS payload_type of
            None \<Rightarrow> eu_reject 0x01 addr
          | Some lengths \<Rightarrow>
              let payload_length = from_be (py_slice 4 8 data) in
              if payload_length > edge_max_payload dc then eu_reject 0x02 addr
              else if payload_length \<notin> set lengths \<or> int (length data) \<noteq> 8 + payload_length then eu_reject 0x04 addr
              else if payload_type \<in> {PT_HEADER_NACK, PT_VEHICLE_ID_RESPONSE} then ret ()
              else if payload_type = PT_VEHICLE_ID_REQUEST_WITH_EID \<and> drop 8 data \<noteq> py_slice 19 25 payload then ret ()
              else if payload_type = PT_VEHICLE_ID_REQUEST_WITH_VIN \<and> drop 8 data \<noteq> py_slice 0 17 payload then ret ()
              else if payload_type = PT_ENTITY_STATUS_REQUEST
              then bnd (lift (status_payload dc open_count)) (\<lambda>b. eu_send PT_ENTITY_STATUS_RESPONSE b addr)
              else if payload_type = PT_POWER_MODE_REQUEST
              then bnd (lift (py_bytes [edge_power_mode dc])) (\<lambda>b. eu_send PT_POWER_MODE_RESPONSE b addr)
              else modify (schedule_discovery addr))"

text \<open>\<open>_send_announcements\<close>: send times after the initial wait, while the transport is open.\<close>

definition send_announcements :: "nat \<Rightarrow> int \<Rightarrow> int \<Rightarrow> int list" where
  "send_announcements n interval initial = announce_loop n interval initial"

end
