(* ===== verification/Config_Props.thy ===== *)
theory Config_Props
  imports Config_Load
begin

text \<open>
  What the loaders guarantee: every configuration they return is well-formed in the sense of the
  predicates below, which are what the rest of the program relies on without checking again, and
  whatever the YAML tree is they raise nothing but \<open>ConfigError\<close>.
\<close>

section \<open>Well-formed configurations\<close>

definition hex_field :: "nat \<Rightarrow> string \<Rightarrow> bool" where
  "hex_field n s \<longleftrightarrow> map_option length (fromhex (filter (\<lambda>c. c \<noteq> CHR '' '' \<and> c \<noteq> CHR ''_'') s)) = Some n"

definition addr16 :: "int \<Rightarrow> bool" where
  "addr16 a \<longleftrightarrow> 0 \<le> a \<and> a \<le> 0xFFFF"

definition listen_ok :: "listen_config \<Rightarrow> bool" where
  "listen_ok l \<longleftrightarrow>
     host l \<noteq> [] \<and> family l \<in> {''ipv6'', ''ipv4'', ''dual''} \<and> discovery_family l \<in> {''ipv6'', ''ipv4''}"

definition doip_ok :: "doip_config \<Rightarrow> bool" where
  "doip_ok c \<longleftrightarrow>
     hex_field 6 (eid c) \<and> hex_field 6 (gid c) \<and> ascii_text (vin c) \<and> length (vin c) = 17 \<and> addr16 (ecu_logical_addr c)
     \<and> 0 < max_payload_bytes c \<and> max_payload_bytes c \<le> 0x1000000 \<and> 0 < max_concurrent_sessions c
     \<and> 0 < alive_check_timeout_ms c \<and> 0 \<le> fst (tester_addr_range c)
     \<and> fst (tester_addr_range c) \<le> snd (tester_addr_range c) \<and> snd (tester_addr_range c) \<le> 0xFFFF"

definition udp_ok :: "udp_config \<Rightarrow> bool" where
  "udp_ok c \<longleftrightarrow> 0 \<le> announce_count c \<and> 0 \<le> announce_interval_ms c \<and> 0 \<le> announce_wait_ms c"

definition security_ok :: "security_config \<Rightarrow> bool" where
  "security_ok c \<longleftrightarrow>
     sec_seed c \<noteq> [] \<and> sec_algorithm c \<in> {''none'', ''xor'', ''add''}
     \<and> (sec_algorithm c = ''none'' \<or> length (sec_key c) = length (sec_seed c))"

definition uds_ok :: "uds_config \<Rightarrow> bool" where
  "uds_ok u \<longleftrightarrow>
     default_session u \<in> set (sessions u) \<and> 0 < p2_server_ms u \<and> 0 < p2_star_server_ms u \<and> 0 \<le> max_response_pending u
     \<and> 0 \<le> s3_server_ms u \<and> addr16 (functional_addr u) \<and> unknown_service u \<in> {''nrc'', ''echo'', ''silent''}
     \<and> unknown_did u \<in> {''nrc'', ''echo'', ''silent''} \<and> on_handler_error u \<in> {''nrc'', ''fallthrough'', ''silent''}
     \<and> security_ok (security u)"

text \<open>The value of a DID has the declared length; a dynamic one has no value and cannot be written.\<close>

definition did_ok :: "did_spec \<Rightarrow> bool" where
  "did_ok s \<longleftrightarrow>
     did_type s \<in> {''hex'', ''ascii'', ''uint'', ''dynamic''} \<and> (did_value s = None \<longleftrightarrow> did_dynamic s)
     \<and> \<not> (did_write s \<and> did_dynamic s)
     \<and> (case did_length s of None \<Rightarrow> did_type s = ''uint'' \<longrightarrow> map_option length (did_value s) = Some 1
        | Some n \<Rightarrow> 0 < n \<and> (did_dynamic s \<or> map_option (\<lambda>v. int (length v)) (did_value s) = Some n))
     \<and> set_option (read_nrc s) \<union> set_option (write_nrc s) \<subseteq> set NRC_NAMES"

definition dids_ok :: "int list \<Rightarrow> (int \<times> did_spec) list \<Rightarrow> bool" where
  "dids_ok known ds \<longleftrightarrow>
     distinct (map fst ds) \<and> (\<forall>(d, s) \<in> set ds. addr16 d \<and> spec_did s = d \<and> did_ok s
       \<and> sessions_known known (read_sessions s) \<and> sessions_known known (write_sessions s))"

definition routines_ok :: "(int \<times> routine_spec) list \<Rightarrow> bool" where
  "routines_ok rs \<longleftrightarrow> distinct (map fst rs) \<and> (\<forall>(r, s) \<in> set rs. addr16 r \<and> spec_rid s = r)"

definition config_ok :: "ecu_config \<Rightarrow> bool" where
  "config_ok c \<longleftrightarrow>
     listen_ok (listen c) \<and> doip_ok (doip c) \<and> udp_ok (udp c) \<and> uds_ok (uds c)
     \<and> functional_addr (uds c) \<noteq> ecu_logical_addr (doip c) \<and> dids_ok (sessions (uds c)) (dids c) \<and> routines_ok (routines c)"

section \<open>The loaders establish it\<close>

lemma guard_Inr [simp]: "guard b = Inr u \<longleftrightarrow> b"
  by (auto simp: guard_def)

lemma one_of_Inr: "one_of v allowed = Inr t \<Longrightarrow> t \<in> set allowed"
  by (auto simp: one_of_def ebind_eq_Inr Let_def split: if_splits)

lemma to_hex_bytes_Inr:
  "to_hex_bytes (YStr s) = Inr b \<longleftrightarrow> fromhex (filter (\<lambda>c. c \<noteq> CHR '' '' \<and> c \<noteq> CHR ''_'') s) = Some b"
  by (auto simp: to_hex_bytes_def split: option.splits)

lemma load_listen_ok: "load_listen tree = Inr l \<Longrightarrow> listen_ok l"
  by (auto simp: load_listen_def listen_ok_def ebind_eq_Inr Let_def dest!: one_of_Inr split: if_splits)

lemma check_doip_ok:
  "check_doip c = Inr u \<Longrightarrow> 0 \<le> fst (tester_addr_range c) \<Longrightarrow> fst (tester_addr_range c) \<le> snd (tester_addr_range c) \<Longrightarrow>
   snd (tester_addr_range c) \<le> 0xFFFF \<Longrightarrow> doip_ok c"
  by (auto simp: check_doip_def doip_ok_def ebind_eq_Inr to_hex_bytes_Inr hex_field_def addr16_def)

lemma case_pair_Inr:
  "(case xs of [a, b] \<Rightarrow> f a b | _ \<Rightarrow> Inl e) = Inr r \<longleftrightarrow> (\<exists>a b. xs = [a, b] \<and> f a b = Inr r)"
  by (auto split: list.splits)

lemma load_tester_range_ok: "load_tester_range sec c = Inr c' \<Longrightarrow> doip_ok c \<Longrightarrow> doip_ok c'"
  by (auto simp: load_tester_range_def doip_ok_def ebind_eq_Inr case_pair_Inr split: if_splits)

lemma load_doip_ok: "load_doip tree = Inr c \<Longrightarrow> doip_ok c"
  by (auto simp: load_doip_def ebind_eq_Inr Let_def TESTER_ADDR_RANGE_def
      elim!: load_tester_range_ok intro!: check_doip_ok)

lemma load_udp_ok: "load_udp tree = Inr c \<Longrightarrow> udp_ok c"
  by (auto simp: load_udp_def udp_ok_def ebind_eq_Inr)

lemma load_security_ok: "load_security sec = Inr c \<Longrightarrow> security_ok c"
  by (auto simp: load_security_def security_ok_def ebind_eq_Inr default_security_config_def
      split: if_splits dest!: one_of_Inr)

lemma load_uds_ok: "load_uds tree = Inr u \<Longrightarrow> uds_ok u"
  by (auto simp: load_uds_def check_uds_def uds_ok_def ebind_eq_Inr Let_def addr16_def
      dest!: one_of_Inr load_security_ok)

lemma optional_Inr:
  "optional d k conv = Inr x \<longleftrightarrow>
     (get d k YNull = YNull \<and> x = None) \<or> (get d k YNull \<noteq> YNull \<and> (\<exists>y. conv (get d k YNull) = Inr y \<and> x = Some y))"
  by (auto simp: optional_def ebind_eq_Inr split: yaml.splits)

lemma load_nrc_Inr: "load_nrc v = Inr c \<Longrightarrow> c \<in> set NRC_NAMES"
  by (auto simp: load_nrc_def ebind_eq_Inr)

lemma length_ljust_take [simp]: "length (ljust n (take n b)) = n"
  by (simp add: ljust_def)

lemma optional_nrc_Inr: "optional d k load_nrc = Inr x \<Longrightarrow> set_option x \<subseteq> set NRC_NAMES"
  by (auto simp: optional_Inr dest!: load_nrc_Inr)

lemma encode_did_value_length:
  assumes "encode_did_value t v len = Inr b" "\<not> (len \<noteq> None \<and> the len \<le> 0)"
  shows "(case len of None \<Rightarrow> t = ''uint'' \<longrightarrow> length b = 1 | Some n \<Rightarrow> int (length b) = n)"
  using assms
  by (cases len)
    (auto simp: encode_did_value_def ebind_eq_Inr Let_def to_bytes_big_def split: if_splits sum.splits)

lemma load_did_value_ok:
  assumes "load_did_value entry t len = Inr v" "\<not> (len \<noteq> None \<and> the len \<le> 0)"
  shows "(v = None \<longleftrightarrow> t = ''dynamic'')
    \<and> (case len of None \<Rightarrow> t = ''uint'' \<longrightarrow> map_option length v = Some 1
       | Some n \<Rightarrow> 0 < n \<and> (t = ''dynamic'' \<or> map_option (\<lambda>v. int (length v)) v = Some n))"
  using assms encode_did_value_length [of t "get entry ''value'' YNull" len]
  by (auto simp: load_did_value_def ebind_eq_Inr split: if_splits option.splits)

lemma load_did_ok:
  assumes "load_did d e = Inr s"
  shows "spec_did s = d \<and> did_ok s"
proof (cases e)
  case (YMap entry)
  then obtain t len where t: "t \<in> set [''hex'', ''ascii'', ''uint'', ''dynamic'']" "did_type s = t" "did_length s = len"
      and l: "\<not> (len \<noteq> None \<and> the len \<le> 0)" and v: "load_did_value entry t len = Inr (did_value s)"
      and nrc: "set_option (read_nrc s) \<subseteq> set NRC_NAMES" "set_option (write_nrc s) \<subseteq> set NRC_NAMES"
      and s: "spec_did s = d" "\<not> (did_write s \<and> t = ''dynamic'')"
    using assms by (clarsimp simp: load_did_def ebind_eq_Inr simp del: set_simps) (drule one_of_Inr optional_nrc_Inr | simp)+
  show ?thesis
    using load_did_value_ok [OF v l] t nrc s by (auto simp: did_ok_def did_dynamic_def split: option.splits)
qed (use assms in \<open>auto simp: load_did_def\<close>)

definition did_table_ok :: "(int \<times> did_spec) list \<Rightarrow> bool" where
  "did_table_ok ds \<longleftrightarrow> distinct (map fst ds) \<and> (\<forall>(d, s) \<in> set ds. addr16 d \<and> spec_did s = d \<and> did_ok s)"

lemma load_did_entries_ok: "load_did_entries entries table = Inr ds \<Longrightarrow> did_table_ok table \<Longrightarrow> did_table_ok ds"
proof (induction entries table rule: load_did_entries.induct)
  case (2 key entry rest table)
  then obtain d spec where d: "0 \<le> d \<and> d \<le> 0xFFFF" "d \<notin> fst ` set table" "load_did d entry = Inr spec"
      and rest: "load_did_entries rest (table @ [(d, spec)]) = Inr ds" and key: "to_int key = Inr d"
    by (auto simp: ebind_eq_Inr)
  have "did_table_ok (table @ [(d, spec)])"
    using 2(3) d load_did_ok [OF d(3)] by (auto simp: did_table_ok_def addr16_def)
  with 2(1) rest show ?case by blast
qed simp

lemma load_routine_ok: "load_routine r e = Inr s \<Longrightarrow> spec_rid s = r"
  by (cases e) (auto simp: load_routine_def ebind_eq_Inr)

lemma routines_ok_update: "routines_ok t \<Longrightarrow> addr16 r \<Longrightarrow> spec_rid s = r \<Longrightarrow> routines_ok (AList.update r s t)"
  by (auto simp: routines_ok_def distinct_update dest!: update_Some_unfold [THEN iffD1, OF map_of_is_SomeI, rotated 1]
      split: if_splits)

lemma load_routine_entries_ok: "load_routine_entries entries table = Inr rs \<Longrightarrow> routines_ok table \<Longrightarrow> routines_ok rs"
proof (induction entries table rule: load_routine_entries.induct)
  case (2 key entry rest table)
  then obtain r spec where "0 \<le> r \<and> r \<le> 0xFFFF" "load_routine r entry = Inr spec"
      and rest: "load_routine_entries rest (AList.update r spec table) = Inr rs"
    by (auto simp: ebind_eq_Inr)
  with 2(3) have "routines_ok (AList.update r spec table)"
    by (auto simp: addr16_def intro: routines_ok_update load_routine_ok)
  with 2(1) rest show ?case by blast
qed simp


lemma parse_config_ok:
  assumes "parse_config fs tree base = Inr (c, p)"
  shows "config_ok c"
proof -
  obtain d where l: "load_listen d = Inr (listen c)" "load_doip d = Inr (doip c)" "load_udp d = Inr (udp c)"
      "load_uds d = Inr (uds c)" "load_dids d = Inr (dids c)" "load_routines d = Inr (routines c)"
      and x: "functional_addr (uds c) \<noteq> ecu_logical_addr (doip c)"
      "list_all (\<lambda>(d, spec). sessions_known (sessions (uds c)) (read_sessions spec)
         \<and> sessions_known (sessions (uds c)) (write_sessions spec)) (dids c)"
    using assms by (auto simp: parse_config_def ebind_eq_Inr)
  have "did_table_ok (dids c)" "routines_ok (routines c)"
    using l(5,6) by (auto simp: load_dids_def load_routines_def ebind_eq_Inr did_table_ok_def routines_ok_def
        elim!: load_did_entries_ok [of _ "[]", unfolded did_table_ok_def] load_routine_entries_ok [of _ "[]", unfolded routines_ok_def])
  with x load_listen_ok [OF l(1)] load_doip_ok [OF l(2)] load_udp_ok [OF l(3)] load_uds_ok [OF l(4)]
  show ?thesis by (fastforce simp: config_ok_def dids_ok_def did_table_ok_def list_all_iff)
qed

section \<open>Every complaint is a \<open>ConfigError\<close>\<close>

text \<open>\<open>E\<close> holds the exceptions the host may raise while a directory is listed.\<close>

definition complains :: "exn set \<Rightarrow> 'a res \<Rightarrow> bool" where
  "complains E r \<longleftrightarrow> (\<forall>e. r = Inl e \<longrightarrow> e = ConfigError \<or> e \<in> E)"

named_theorems complains_rules \<open>loaders that raise nothing but \<open>ConfigError\<close>\<close>

lemma complains_basic [complains_rules]: "complains E (Inr x)" "complains E (Inl ConfigError)"
  by (simp_all add: complains_def)

lemma complains_ebind [complains_rules]:
  "complains E m \<Longrightarrow> (\<And>a. m = Inr a \<Longrightarrow> complains E (k a)) \<Longrightarrow> complains E (ebind m k)"
  by (cases m) (auto simp: complains_def)

lemma complains_if [complains_rules]: "complains E x \<Longrightarrow> complains E y \<Longrightarrow> complains E (if b then x else y)"
  by simp

lemma complains_let [complains_rules]: "(\<And>x. complains E (f x)) \<Longrightarrow> complains E (let x = a in f x)"
  by simp

lemma complains_coercions [complains_rules]:
  "complains E (to_int v)" "complains E (to_bool v)" "complains E (to_str v)" "complains E (guard b)"
  by (cases v; auto simp: complains_def guard_def split: option.splits if_splits)+

lemma complains_hex [complains_rules]: "complains E (to_hex_bytes v)"
  unfolding to_hex_bytes_def
  by (rule complains_ebind [OF complains_coercions(3)]) (auto simp: complains_def split: option.splits)

lemma complains_map_res: "(\<And>x. complains E (f x)) \<Longrightarrow> complains E (map_res f xs)"
  by (induction xs) (auto intro!: complains_rules)

lemma complains_containers [complains_rules]:
  "complains E (to_int_list v)" "complains E (section_of d k)" "complains E (one_of v allowed)" "complains E (list_entry d k)"
  by (cases v; auto intro!: complains_map_res complains_rules)
    (auto simp: section_of_def one_of_def list_entry_def Let_def intro!: complains_rules split: yaml.split)

lemma complains_optional [complains_rules]: "(\<And>v. complains E (f v)) \<Longrightarrow> complains E (optional d k f)"
  by (auto simp: optional_def intro!: complains_rules split: yaml.split)

lemma complains_nrc [complains_rules]: "complains E (load_nrc v)"
  unfolding load_nrc_def by (intro complains_rules)

lemma complains_did_value [complains_rules]: "complains E (load_did_value d t len)"
  by (auto simp: load_did_value_def encode_did_value_def Let_def intro!: complains_rules split: option.split sum.split)

lemma complains_entries [complains_rules]: "complains E (load_did d e)" "complains E (load_routine r e)" "complains E (load_plugin_module b e)"
  by (cases e; auto simp: load_did_def load_routine_def load_plugin_module_def Let_def intro!: complains_rules split: yaml.split)+

lemma complains_tables [complains_rules]: "complains E (load_did_entries es t)" "complains E (load_routine_entries es t')"
  by (induction es arbitrary: t t') (auto intro!: complains_rules)

lemma complains_doip [complains_rules]: "complains E (check_doip c)" "complains E (load_tester_range d c)"
  by (auto simp: check_doip_def load_tester_range_def intro!: complains_rules split: list.split)

lemma complains_security [complains_rules]: "complains E (load_security d)"
  unfolding load_security_def by (intro complains_rules)

lemma complains_uds [complains_rules]: "complains E (check_uds c)"
  unfolding check_uds_def by (intro complains_rules)

lemma complains_sections [complains_rules]:
  "complains E (load_listen d)" "complains E (load_doip d)" "complains E (load_udp d)" "complains E (load_uds d)"
  "complains E (load_dids d)" "complains E (load_routines d)"
  unfolding load_listen_def load_doip_def load_udp_def load_uds_def load_dids_def load_routines_def
  by (intro complains_rules)+

definition listing_errors :: "filesystem \<Rightarrow> exn set" where
  "listing_errors fs = {e. \<exists>dir. fs_isdir fs dir \<and> fs_listdir fs dir = Inl e}"

lemma complains_scan: "complains (listing_errors fs) (scan_plugin_dir fs d b strict)"
  by (auto simp: scan_plugin_dir_def complains_def listing_errors_def Let_def ebind_def split: sum.splits if_splits)

lemma complains_plugins: "complains (listing_errors fs) (load_plugins fs d b)"
  unfolding load_plugins_def
  by (intro complains_rules complains_map_res complains_scan)

lemma complains_parse: "complains (listing_errors fs) (parse_config fs tree b)"
  unfolding parse_config_def
  by (intro complains_ebind complains_sections complains_plugins complains_coercions complains_basic)
    (auto intro!: complains_rules split: yaml.split)

section \<open>The theorem\<close>

text \<open>C36: for every YAML tree, every base directory and every file system, the loader either returns a
  well-formed configuration, the ranges, lengths, table keys and cross-references the rest of the
  program relies on, or raises \<open>ConfigError\<close>; the one other exception that can come out is one the
  host raises while a plugin directory is listed. An empty file gives exactly the defaults of the
  dataclasses.\<close>

theorem loaded_config_ok:
  "(case parse_config fs tree base_dir of
      Inr (c, p) \<Rightarrow> config_ok c
    | Inl e \<Rightarrow> e = ConfigError \<or> (\<exists>dir. fs_isdir fs dir \<and> fs_listdir fs dir = Inl e))
   \<and> parse_config fs YNull base_dir = Inr (default_ecu_config, \<lparr>plugins_strict = False, plugin_specs = []\<rparr>)"
proof
  show "case parse_config fs tree base_dir of
      Inr (c, p) \<Rightarrow> config_ok c
    | Inl e \<Rightarrow> e = ConfigError \<or> (\<exists>dir. fs_isdir fs dir \<and> fs_listdir fs dir = Inl e)"
    using complains_parse [of fs tree base_dir]
    by (auto simp: complains_def listing_errors_def split: sum.split intro: parse_config_ok)
  show "parse_config fs YNull base_dir = Inr (default_ecu_config, \<lparr>plugins_strict = False, plugin_specs = []\<rparr>)"
    by code_simp
qed

end
