(* ===== verification/Udp_Props.thy ===== *)
theory Udp_Props
  imports Udp_Discovery Config_Props Session_Props
begin

text \<open>
  Discovery on a shared segment: entities never answer each other's answers, announcements have the
  layout and the timing the configuration asks for, and the Entity Status answer agrees with what
  the TCP side enforces.
\<close>

section \<open>Answers are never answered\<close>

lemma reply_out:
  assumes "reply pt payload addr s = (r, s')"
  shows "(s' = s \<or> (\<exists>f p. payload = Inr p \<and> build_frame pt p VER = Inr f \<and> s' = s\<lparr>u_out := u_out s @ [(f, addr)]\<rparr>))"
  using assms
  by (auto simp: reply_def sendto_def bnd_def ebind_def split: if_splits sum.splits)

lemma response_ignored:
  assumes "build_frame pt pl VER = Inr f" "pt \<in> set UDP_NEVER_NACK_TYPES"
  shows "datagram_received q r f addr t = (Inr (), t)"
proof -
  have "from_be (py_slice 2 4 f) = pt"
    using virt_codec.ptype_of_built [OF assms(1)] by (auto simp: frame_ptype_def unpack_uint_def split: if_splits)
  with assms(2) show ?thesis by (simp add: datagram_received_def)
qed

text \<open>At most one datagram is added, to \<open>addr\<close>, and no entity reacts to it.\<close>

definition one_silent_reply :: "udp_addr \<Rightarrow> 'm udp_io_scheme \<Rightarrow> 'm udp_io_scheme \<Rightarrow> bool" where
  "one_silent_reply addr s s' \<longleftrightarrow>
     u_out s' = u_out s \<or>
     (\<exists>f. u_out s' = u_out s @ [(f, addr)] \<and> (\<forall>q r from (t :: 'm udp_io_scheme). datagram_received q r f from t = (Inr (), t)))"

lemma reply_silent:
  "reply pt payload addr s = (r, s') \<Longrightarrow> pt \<in> set UDP_NEVER_NACK_TYPES \<Longrightarrow> one_silent_reply addr s s'"
  using reply_out [of pt payload addr s r s'] by (auto simp: one_silent_reply_def intro: response_ignored)

lemma silent_idle: "u_out s' = u_out s \<Longrightarrow> one_silent_reply addr s s'"
  by (simp add: one_silent_reply_def)

lemma never_nack_types:
  "PT_HEADER_NACK \<in> set UDP_NEVER_NACK_TYPES" "PT_ENTITY_STATUS_RESPONSE \<in> set UDP_NEVER_NACK_TYPES"
  "PT_POWER_MODE_RESPONSE \<in> set UDP_NEVER_NACK_TYPES" "PT_VEHICLE_ID_RESPONSE \<in> set UDP_NEVER_NACK_TYPES"
  by (simp_all add: UDP_NEVER_NACK_TYPES_def)

lemma datagram_silent:
  assumes "datagram_received p r data addr s = (res, s')"
  shows "one_silent_reply addr s s'"
  using assms
  by (auto simp: datagram_received_def bnd_def schedule_identification_def Let_def
      split: if_splits sum.splits option.splits intro: silent_idle never_nack_types [THEN reply_silent [rotated]])

text \<open>No reply storms. Whatever datagram arrives, from whatever address, an entity sends at most one
  datagram for it, to the sender; the same holds for a deferred identification response without
  plugin override, and for an announcement. Every datagram so sent is ignored by every entity that
  runs this code, whatever its configuration and whoever it seems to come from: neither answered nor
  scheduled, so entities on one segment cannot keep each other busy.\<close>

lemma udp_no_reply_storm:
  "one_silent_reply addr s (snd (datagram_received p r data addr s))
   \<and> one_silent_reply addr s (snd (send_identification p None addr pt req s))
   \<and> one_silent_reply (announcement_dest p) s (snd (send_announcement p s))"
proof -
  have "one_silent_reply a s (snd (reply PT_VEHICLE_ID_RESPONSE x a s))" for x a
    by (rule reply_silent [OF prod.collapse [symmetric] never_nack_types(4)])
  then show ?thesis
    using datagram_silent [OF prod.collapse [symmetric]]
    by (simp add: send_identification_def send_announcement_def Let_def)
qed

section \<open>Announcements\<close>

lemma stagger_bounds: "0 \<le> stagger_delay_ms k m \<and> stagger_delay_ms k m \<le> max 0 m"
  using pos_mod_bound [of "m + 1" "fold mix_part k 0"] by (auto simp: stagger_delay_ms_def)

lemma announce_loop_times: "announce_loop n iv now = map (\<lambda>i. now + int i * iv) [0..<n]"
proof (induction n arbitrary: now)
  case (Suc n)
  show ?case
    by (simp add: Suc.IH map_upt_Suc algebra_simps del: upt_Suc)
qed simp

lemma digit_val_separators: "digit_val CHR ''_'' = None" "digit_val CHR '' '' = None"
  by code_simp+

text \<open>What \<^verbatim>\<open>bytes.fromhex\<close> accepts, the loader reads as the same bytes.\<close>

lemma fromhex_clean: "fromhex s = Some b \<Longrightarrow> fromhex (filter (\<lambda>c. c \<noteq> CHR '' '' \<and> c \<noteq> CHR ''_'') s) = Some b"
proof (induction s arbitrary: b rule: fromhex.induct)
  case (2 c cs)
  show ?case
  proof (cases "is_ws c")
    case True
    with 2 have "fromhex cs = Some b" "c \<noteq> CHR ''_''" by (auto simp: is_ws_def)
    with 2(1) True show ?thesis by auto
  next
    case False
    with 2(3) obtain c' cs' where cs: "cs = c' # cs'" by (cases cs) auto
    with 2(3) False obtain x y b' where d: "digit_val c = Some x" "digit_val c' = Some y" "x < 16" "y < 16"
        "fromhex cs' = Some b'" "b = word_of_int (16 * x + y) # b'"
      by (auto split: option.splits if_splits)
    have "c \<noteq> CHR ''_'' \<and> c' \<noteq> CHR ''_'' \<and> c \<noteq> CHR '' '' \<and> c' \<noteq> CHR '' ''"
      using d(1,2) digit_val_separators by auto
    with 2(2) [OF False cs, of "Some x" "Some y"] cs d False show ?thesis by auto
  qed
qed simp


lemma py_fromhex_field: "py_fromhex s = Inr b \<Longrightarrow> hex_field n s \<Longrightarrow> length b = n"
  using fromhex_clean [of s b] by (auto simp: py_fromhex_def hex_field_def split: option.splits)

lemma vin_bytes_ok: "doip_ok dc \<Longrightarrow> vin_bytes dc = Inr (encode_ascii (vin dc))"
  by (simp add: vin_bytes_def doip_ok_def ljust_def encode_ascii_def)

text \<open>On a configuration the loader returned, the announcement payload, whenever it is built, has 33 bytes
  with the VIN, the logical address, EID and GID in their places and two zero bytes behind, it fails
  only with a \<open>ValueError\<close>, for an EID or GID string; and \<open>announce_count\<close> announcements go out,
  evenly spaced by the configured interval after an initial wait within the configured bound.\<close>

theorem announcements_as_configured:
  assumes "parse_config fs tree base_dir = Inr (cfg, ps)"
  shows "(case build_announcement_payload cfg of
      Inl e \<Rightarrow> e = ValueError \<and> (fromhex (eid (doip cfg)) = None \<or> fromhex (gid (doip cfg)) = None)
    | Inr p \<Rightarrow> length p = 33 \<and> take 17 p = encode_ascii (vin (doip cfg))
        \<and> from_be (py_slice 17 19 p) = ecu_logical_addr (doip cfg)
        \<and> fromhex (eid (doip cfg)) = Some (py_slice 19 25 p) \<and> fromhex (gid (doip cfg)) = Some (py_slice 25 31 p)
        \<and> drop 31 p = [0, 0])
    \<and> (\<exists>w. 0 \<le> w \<and> w \<le> announce_wait_ms (udp cfg) \<and>
        run_announcer cfg = map (\<lambda>i. w + int i * announce_interval_ms (udp cfg)) [0..<nat (announce_count (udp cfg))])"
proof -
  have ok: "doip_ok (doip cfg)" "udp_ok (udp cfg)"
    using parse_config_ok [OF assms] by (simp_all add: config_ok_def)
  have vin: "length (encode_ascii (vin (doip cfg))) = 17"
    using ok(1) by (simp add: doip_ok_def encode_ascii_def)
  have addr: "pack_uint 2 (ecu_logical_addr (doip cfg)) = Inr (int_be 2 (ecu_logical_addr (doip cfg)))"
    "from_be (int_be 2 (ecu_logical_addr (doip cfg))) = ecu_logical_addr (doip cfg)"
    using ok(1) by (auto simp: doip_ok_def addr16_def pack_uint_def from_be_int_be)
  have hex: "length b = 6" if "py_fromhex x = Inr b" "x = eid (doip cfg) \<or> x = gid (doip cfg)" for x b
    using py_fromhex_field [OF that(1)] that(2) ok(1) by (auto simp: doip_ok_def)
  show ?thesis
  proof
    show "case build_announcement_payload cfg of
      Inl e \<Rightarrow> e = ValueError \<and> (fromhex (eid (doip cfg)) = None \<or> fromhex (gid (doip cfg)) = None)
    | Inr p \<Rightarrow> length p = 33 \<and> take 17 p = encode_ascii (vin (doip cfg))
        \<and> from_be (py_slice 17 19 p) = ecu_logical_addr (doip cfg)
        \<and> fromhex (eid (doip cfg)) = Some (py_slice 19 25 p) \<and> fromhex (gid (doip cfg)) = Some (py_slice 25 31 p)
        \<and> drop 31 p = [0, 0]"
    proof (cases "fromhex (eid (doip cfg))")
      case None
      then show ?thesis by (simp add: build_announcement_payload_def vin_bytes_ok [OF ok(1)] py_fromhex_def)
    next
      case e: (Some e)
      show ?thesis
      proof (cases "fromhex (gid (doip cfg))")
        case None
        with e show ?thesis by (simp add: build_announcement_payload_def vin_bytes_ok [OF ok(1)] py_fromhex_def)
      next
        case (Some g)
        with e hex [of "eid (doip cfg)" e] hex [of "gid (doip cfg)" g] vin addr show ?thesis
          by (simp add: build_announcement_payload_def vin_bytes_ok [OF ok(1)] py_fromhex_def py_slice_def)
      qed
    qed
    show "\<exists>w. 0 \<le> w \<and> w \<le> announce_wait_ms (udp cfg) \<and>
        run_announcer cfg = map (\<lambda>i. w + int i * announce_interval_ms (udp cfg)) [0..<nat (announce_count (udp cfg))]"
      using stagger_bounds [of "[PInt (ecu_logical_addr (doip cfg)), PStr (vin (doip cfg))]" "announce_wait_ms (udp cfg)"] ok(2)
      unfolding run_announcer_def announce_loop_times Let_def udp_ok_def by (intro exI conjI) auto
  qed
qed

theorem announcements_as_configured_witness:
  "length (encode_ascii ''00000000000000000'') = 17
    \<and> (\<exists>w. 0 \<le> w \<and> w \<le> 500 \<and> run_announcer default_ecu_config = [w, w + 500, w + 1000])"
proof -
  have l: "parse_config \<lparr>fs_isdir = (\<lambda>p. False), fs_listdir = (\<lambda>p. Inr [])\<rparr> YNull ''.'' =
      Inr (default_ecu_config, \<lparr>plugins_strict = False, plugin_specs = []\<rparr>)"
    by code_simp
  have n: "[0..<nat 3] = [0, 1, 2]" by (simp add: upt_rec)
  show ?thesis
    using announcements_as_configured [OF l]
    by (simp add: default_ecu_config_def default_udp_config_def encode_ascii_def n [simplified])
qed

text \<open>the loader checks EID and GID with separators removed but stores them as written, and the
  discovery socket reads them with \<^verbatim>\<open>bytes.fromhex\<close>, which takes no underscore: there is a
  configuration that loads without complaint and whose discovery object cannot be built, on any
  host, so the ECU runs without answering discovery.\<close>

theorem eid_accepted_but_unusable:
  "\<exists>cfg ps. parse_config fs (YMap [(YStr ''doip'', YMap [(YStr ''eid'', YStr ''00_11_22_33_44_55'')])]) base_dir = Inr (cfg, ps)
    \<and> new_udp_protocol cfg local_ips if_index max_sockets = Inl ValueError"
proof -
  let ?r = "parse_config fs (YMap [(YStr ''doip'', YMap [(YStr ''eid'', YStr ''00_11_22_33_44_55'')])]) base_dir"
  have "case ?r of Inl e \<Rightarrow> False | Inr (cfg, ps) \<Rightarrow> new_udp_protocol cfg local_ips if_index max_sockets = Inl ValueError"
    by code_simp
  then show ?thesis by (auto split: sum.splits prod.splits)
qed

section \<open>Entity status\<close>

text \<open>C37: the Entity Status answer agrees with the TCP side. In every state the ECU can reach, on a loaded
  configuration whose node type is a byte, the answer has seven bytes, its number of open sockets
  never exceeds its maximum, both are the registry's count and the limit Routing Activation enforces
  (as far as a byte can tell), and it reports the payload limit the sessions apply.\<close>

theorem entity_status_consistent:
  assumes loaded: "parse_config fs tree base_dir = Inr (cfg, ps)" and nt: "0 \<le> node_type (doip cfg)" "node_type (doip cfg) \<le> 255"
    and p: "new_udp_protocol cfg ips if_index (max_concurrent_sessions (doip cfg)) = Inr p"
    and hooks: "hooks_tame cfg d t I" and run: "(ecu_step cfg d t I)\<^sup>*\<^sup>* (new_world cfg) w"
  shows "\<exists>b. entity_status_payload p (Some (registry_len (registry w))) = Inr b \<and> length b = 7
    \<and> uint (b ! 2) \<le> uint (b ! 1) \<and> uint (b ! 1) = min (max_concurrent_sessions (doip cfg)) 255
    \<and> uint (b ! 2) = min (int (registry_len (registry w))) 255 \<and> from_be (drop 3 b) = max_payload_bytes (doip cfg)"
proof -
  have ok: "doip_ok (doip cfg)" using parse_config_ok [OF loaded] by (simp add: config_ok_def)
  have "binding_ok cfg (binding w)"
    using reachable_sim [OF run hooks binding_new_world(2) binding_new_world(1)] by blast
  from binding_okD(2) [OF this] ok have len: "int (registry_len (registry w)) \<le> max_concurrent_sessions (doip cfg)"
    by (simp add: doip_ok_def)
  have f: "u_node_type p = node_type (doip cfg)" "u_max_sockets p = max_concurrent_sessions (doip cfg)"
      "u_max_data p = max_payload_bytes (doip cfg)"
    using p by (auto simp: new_udp_protocol_def ebind_eq_Inr)
  show ?thesis
    using ok nt len
    by (auto simp: entity_status_payload_def f Let_def pack_uint_def doip_ok_def from_be_int_be word_of_int_inverse)
qed

theorem entity_status_consistent_witness:
  "\<exists>p b. new_udp_protocol default_ecu_config [''::1''] 0 8 = Inr p
    \<and> entity_status_payload p (Some (registry_len (registry (new_world default_ecu_config)))) = Inr b
    \<and> length b = 7 \<and> uint (b ! 1) = 8 \<and> uint (b ! 2) \<le> 8"
proof -
  have l: "parse_config \<lparr>fs_isdir = (\<lambda>p. False), fs_listdir = (\<lambda>p. Inr [])\<rparr> YNull ''.'' =
      Inr (default_ecu_config, \<lparr>plugins_strict = False, plugin_specs = []\<rparr>)"
    by code_simp
  have "case new_udp_protocol default_ecu_config [''::1''] 0 8 of Inl e \<Rightarrow> False | Inr p \<Rightarrow> True"
    by code_simp
  then obtain p where p: "new_udp_protocol default_ecu_config [''::1''] 0 8 = Inr p"
    by (auto split: sum.splits)
  have mx: "max_concurrent_sessions (doip default_ecu_config) = 8" "node_type (doip default_ecu_config) = 1"
    by (simp_all add: config_defaults)
  show ?thesis
    using entity_status_consistent [OF l _ _ _ plain_tame rtranclp.rtrancl_refl, unfolded mx, OF _ _ p] p by auto
qed

end
