(* ===== verification/Edge_Invariant.thy ===== *)
theory Edge_Invariant
  imports Edge_Activation
begin

text \<open>
  Routing Activation of the EdgeNode is safe under every interleaving: the invariant of registry,
  sockets, locks and phases, that every step keeps it, and what it says about reachable states.
\<close>

section \<open>The invariant\<close>

text \<open>The address and lock a session is activating with, and whether it holds the lock.\<close>

fun phase_lock :: "ephase \<Rightarrow> (int \<times> nat) option" where
  "phase_lock (EWaitLock a lk) = Some (a, lk)"
| "phase_lock (EProbing a lk j) = Some (a, lk)"
| "phase_lock (EWaitCap a lk) = Some (a, lk)"
| "phase_lock (EReclaim a lk os) = Some (a, lk)"
| "phase_lock (ECapDone a lk) = Some (a, lk)"
| "phase_lock (EResponding a lk) = Some (a, lk)"
| "phase_lock _ = None"

fun holding :: "ephase \<Rightarrow> bool" where
  "holding (EWaitLock a lk) = False"
| "holding p = (phase_lock p \<noteq> None)"

fun in_capacity :: "ephase \<Rightarrow> bool" where
  "in_capacity (EWaitCap a lk) = True"
| "in_capacity (EReclaim a lk os) = True"
| "in_capacity (ECapDone a lk) = True"
| "in_capacity _ = False"

abbreviation lock_of :: "edge_world \<Rightarrow> nat \<Rightarrow> (int \<times> nat) option" where
  "lock_of w i \<equiv> phase_lock (s_phase (esessions w i))"

definition lock_users :: "edge_world \<Rightarrow> int \<Rightarrow> nat set" where
  "lock_users w a = {i. \<exists>lk. lock_of w i = Some (a, lk)}"

text \<open>Registry, sockets and sessions agree.\<close>

definition reg_inv :: "edge_doip \<Rightarrow> edge_world \<Rightarrow> bool" where
  "reg_inv dc w \<longleftrightarrow>
     registry_wf (ereg w)
     \<and> (\<forall>a i. edge_lookup (ereg w) a = Some i \<longleftrightarrow>
          i < next_sess w \<and> s_activated (esessions w i) \<and> \<not> s_closing (esessions w i) \<and> s_tester (esessions w i) = Some a)
     \<and> (\<forall>i a. s_activated (esessions w i) \<and> s_tester (esessions w i) = Some a \<longrightarrow> is_tester_allowed dc a)
     \<and> (\<forall>i. s_activated (esessions w i) \<longleftrightarrow> s_tester (esessions w i) \<noteq> None)
     \<and> int (edge_count (ereg w)) \<le> max_connections dc
     \<and> distinct (open_sockets w) \<and> int (length (open_sockets w)) \<le> max_connections dc + 1
     \<and> (\<forall>i. i \<in> set (open_sockets w) \<longleftrightarrow> i < next_sess w \<and> \<not> s_closing (esessions w i))
     \<and> (\<forall>i. next_sess w \<le> i \<longrightarrow> esessions w i = new_esess\<lparr>s_phase := EDone\<rparr>)"

text \<open>The lock table counts exactly the sessions that use a lock, and a lock has one holder.\<close>

definition lock_inv :: "edge_world \<Rightarrow> bool" where
  "lock_inv w \<longleftrightarrow>
     distinct (map fst (activation_locks w))
     \<and> (\<forall>i a lk. lock_of w i = Some (a, lk) \<longrightarrow> (\<exists>n. map_of (activation_locks w) a = Some (lk, n)))
     \<and> (\<forall>a lk n. map_of (activation_locks w) a = Some (lk, n) \<longrightarrow> n = card (lock_users w a) \<and> lk < next_lock w)
     \<and> (\<forall>a b lk n m. map_of (activation_locks w) a = Some (lk, n) \<longrightarrow> map_of (activation_locks w) b = Some (lk, m) \<longrightarrow> a = b)
     \<and> (\<forall>i a lk. lock_of w i = Some (a, lk) \<longrightarrow> holding (s_phase (esessions w i)) \<longrightarrow> lock_holder w lk = Some i)"

text \<open>What a session in the middle of an activation may rely on.\<close>

definition phase_inv :: "edge_doip \<Rightarrow> edge_world \<Rightarrow> bool" where
  "phase_inv dc w \<longleftrightarrow>
     (\<forall>i a lk. lock_of w i = Some (a, lk) \<longrightarrow>
        is_tester_allowed dc a \<and> (s_activated (esessions w i) \<longrightarrow> s_tester (esessions w i) = Some a))
     \<and> (\<forall>i a lk. lock_of w i = Some (a, lk) \<longrightarrow> in_capacity (s_phase (esessions w i)) \<longrightarrow>
        edge_lookup (ereg w) a = None \<and> \<not> s_activated (esessions w i))"

definition edge_inv :: "edge_doip \<Rightarrow> edge_world \<Rightarrow> bool" where
  "edge_inv dc w \<longleftrightarrow> reg_inv dc w \<and> lock_inv w \<and> phase_inv dc w"

lemma upd_esess_fields [simp]:
  "esessions (upd_esess i f w) k = (if k = i then f (esessions w i) else esessions w k)"
  "next_sess (upd_esess i f w) = next_sess w" "ereg (upd_esess i f w) = ereg w"
  "open_sockets (upd_esess i f w) = open_sockets w" "activation_locks (upd_esess i f w) = activation_locks w"
  "lock_holder (upd_esess i f w) = lock_holder w" "next_lock (upd_esess i f w) = next_lock w"
  "cap_holder (upd_esess i f w) = cap_holder w"
  by (simp_all add: upd_esess_def)

lemma reg_invD:
  assumes "reg_inv dc w"
  shows "registry_wf (ereg w)"
    "edge_lookup (ereg w) a = Some i \<longleftrightarrow>
       i < next_sess w \<and> s_activated (esessions w i) \<and> \<not> s_closing (esessions w i) \<and> s_tester (esessions w i) = Some a"
    "s_activated (esessions w i) \<Longrightarrow> s_tester (esessions w i) = Some a \<Longrightarrow> is_tester_allowed dc a"
    "s_activated (esessions w i) \<longleftrightarrow> s_tester (esessions w i) \<noteq> None"
    "int (edge_count (ereg w)) \<le> max_connections dc"
    "distinct (open_sockets w)" "int (length (open_sockets w)) \<le> max_connections dc + 1"
    "i \<in> set (open_sockets w) \<longleftrightarrow> i < next_sess w \<and> \<not> s_closing (esessions w i)"
    "next_sess w \<le> i \<Longrightarrow> esessions w i = new_esess\<lparr>s_phase := EDone\<rparr>"
  using assms unfolding reg_inv_def by blast+

section \<open>Eviction\<close>

lemma schedule_cleanup_fields [simp]:
  "s_phase (esessions (schedule_cleanup i w) k) = s_phase (esessions w k)"
  "s_activated (esessions (schedule_cleanup i w) k) = s_activated (esessions w k)"
  "s_tester (esessions (schedule_cleanup i w) k) = s_tester (esessions w k)"
  "s_closing (esessions (schedule_cleanup i w) k) = (k = i \<or> s_closing (esessions w k))"
  "next_sess (schedule_cleanup i w) = next_sess w" "activation_locks (schedule_cleanup i w) = activation_locks w"
  "lock_holder (schedule_cleanup i w) = lock_holder w" "next_lock (schedule_cleanup i w) = next_lock w"
  by (auto simp: schedule_cleanup_def Let_def split: option.splits)

lemma schedule_cleanup_reg:
  "\<not> s_closing (esessions w i) \<Longrightarrow> ereg (schedule_cleanup i w) =
     (case s_tester (esessions w i) of None \<Rightarrow> ereg w | Some a \<Rightarrow> edge_unregister a i (ereg w))"
  "s_closing (esessions w i) \<Longrightarrow> schedule_cleanup i w = w"
  "\<not> s_closing (esessions w i) \<Longrightarrow> open_sockets (schedule_cleanup i w) = removeAll i (open_sockets w)"
  by (auto simp: schedule_cleanup_def Let_def release_def split: option.splits)

text \<open>The lock part of the invariant depends on phases and locks only.\<close>

lemma lock_inv_cong:
  assumes "\<And>k. s_phase (esessions w' k) = s_phase (esessions w k)" "activation_locks w' = activation_locks w"
    "lock_holder w' = lock_holder w" "next_lock w' = next_lock w"
  shows "lock_inv w' = lock_inv w"
  unfolding lock_inv_def lock_users_def assms ..

lemma reg_inv_cleanup:
  assumes R: "reg_inv dc w" and i: "i < next_sess w" "\<not> s_closing (esessions w i)"
  shows "reg_inv dc (schedule_cleanup i w)"
proof -
  note D = reg_invD [OF R]
  let ?w = "schedule_cleanup i w"
  have look: "edge_lookup (ereg ?w) a = (if edge_lookup (ereg w) a = Some i then None else edge_lookup (ereg w) a)" for a
    using i D(2) [of a i] D(2) [of "the (s_tester (esessions w i))" i] D(4) [of i]
    by (auto simp: schedule_cleanup_reg edge_reg.look_unreg [OF D(1)] split: option.splits)
  have "registry_wf (ereg ?w)" "edge_count (ereg ?w) \<le> edge_count (ereg w)"
    using i D(1) by (auto simp: schedule_cleanup_reg edge_reg.wf_unreg edge_reg.sz_unreg_le split: option.splits)
  moreover have "esessions ?w k = new_esess\<lparr>s_phase := EDone\<rparr>" if "next_sess w \<le> k" for k
    using D(9) [OF that] i that by (auto simp: schedule_cleanup_def Let_def split: option.splits)
  moreover have "edge_lookup (ereg ?w) a = Some k \<longleftrightarrow> k < next_sess w \<and> s_activated (esessions w k)
      \<and> \<not> (k = i \<or> s_closing (esessions w k)) \<and> s_tester (esessions w k) = Some a" for a k
    using D(2) [of a k] D(2) [of a i] by (auto simp: look)
  moreover have "int (length (removeAll i (open_sockets w))) \<le> max_connections dc + 1"
    using D(7) length_removeAll_less_eq [of i "open_sockets w"] by linarith
  moreover have "k \<in> set (removeAll i (open_sockets w)) \<longleftrightarrow> k < next_sess w \<and> \<not> (k = i \<or> s_closing (esessions w k))" for k
    using D(8) [of k] by auto
  ultimately show ?thesis
    using D(3-6) unfolding reg_inv_def schedule_cleanup_fields schedule_cleanup_reg(3) [OF i(2)]
    by (auto simp: distinct_removeAll)
qed

lemma cleanup_inv:
  assumes "edge_inv dc w" "i < next_sess w"
  shows "edge_inv dc (schedule_cleanup i w)"
proof (cases "s_closing (esessions w i)")
  case True
  with assms show ?thesis by (simp add: schedule_cleanup_reg)
next
  case False
  have R: "reg_inv dc w" using assms by (simp add: edge_inv_def)
  have "edge_lookup (ereg (schedule_cleanup i w)) a = None" if "edge_lookup (ereg w) a = None" for a
    using that False by (auto simp: schedule_cleanup_reg edge_reg.look_unreg [OF reg_invD(1) [OF R]] split: option.splits)
  with assms have "phase_inv dc (schedule_cleanup i w)"
    unfolding edge_inv_def phase_inv_def schedule_cleanup_fields by blast
  with reg_inv_cleanup [OF R assms(2) False] assms show ?thesis
    by (simp add: edge_inv_def lock_inv_cong [of "schedule_cleanup i w" w])
qed

lemma cleanup_goto: "schedule_cleanup i (goto k p w) = goto k p (schedule_cleanup i w)"
  by (auto simp: schedule_cleanup_def upd_esess_def Let_def fun_eq_iff split: option.splits)

section \<open>Moving on\<close>

lemma reg_inv_goto:
  "i < next_sess w \<Longrightarrow> reg_inv dc (goto i p w) = reg_inv dc w"
  unfolding reg_inv_def by auto

lemma users_goto_same:
  "phase_lock p = lock_of w i \<Longrightarrow> lock_users (goto i p w) a = lock_users w a"
  by (auto simp: lock_users_def)

text \<open>The session that holds the lock of an address.\<close>

definition owns :: "edge_world \<Rightarrow> nat \<Rightarrow> int \<Rightarrow> nat \<Rightarrow> bool" where
  "owns w i a lk \<longleftrightarrow> lock_of w i = Some (a, lk) \<and> lock_holder w lk = Some i"

lemma owns_alloc: "reg_inv dc w \<Longrightarrow> lock_of w i \<noteq> None \<Longrightarrow> i < next_sess w"
  using reg_invD(9) [of dc w i] by (metis esess.select_convs(4) esess.surjective esess.update_convs(4) leI phase_lock.simps(8))

lemma goto_inv:
  assumes inv: "edge_inv dc w" and own: "owns w i a lk" and p: "phase_lock p = Some (a, lk)"
    and cap: "in_capacity p \<Longrightarrow> edge_lookup (ereg w) a = None \<and> \<not> s_activated (esessions w i)"
  shows "edge_inv dc (goto i p w)"
proof -
  have R: "reg_inv dc w" and L: "lock_inv w" and P: "phase_inv dc w" using inv by (simp_all add: edge_inv_def)
  have lk: "lock_of w i = Some (a, lk)" "lock_holder w lk = Some i" using own by (simp_all add: owns_def)
  have i: "i < next_sess w" using owns_alloc [OF R] lk by simp
  have lo: "lock_of (goto i p w) k = lock_of w k" for k using p lk by simp
  have "lock_inv (goto i p w)"
    using L lk p unfolding lock_inv_def lo lock_users_def by auto
  moreover have "phase_inv dc (goto i p w)"
    using P lk p cap unfolding phase_inv_def lo by auto
  ultimately show ?thesis using R i by (simp add: edge_inv_def reg_inv_goto)
qed

lemma reply_fields [simp]:
  "s_phase (esessions (reply i c a w) k) = s_phase (esessions w k)"
  "s_activated (esessions (reply i c a w) k) = s_activated (esessions w k)"
  "s_tester (esessions (reply i c a w) k) = s_tester (esessions w k)"
  "s_closing (esessions (reply i c a w) k) = s_closing (esessions w k)"
  "next_sess (reply i c a w) = next_sess w" "ereg (reply i c a w) = ereg w"
  "open_sockets (reply i c a w) = open_sockets w" "activation_locks (reply i c a w) = activation_locks w"
  "lock_holder (reply i c a w) = lock_holder w" "next_lock (reply i c a w) = next_lock w"
  by (simp_all add: reply_def)

lemma reg_inv_reply:
  assumes "reg_inv dc w" "i < next_sess w"
  shows "reg_inv dc (reply i c a w)"
proof -
  have "esessions (reply i c a w) k = esessions w k" if "next_sess w \<le> k" for k
    using that assms(2) by (simp add: reply_def)
  with assms show ?thesis by (auto simp: reg_inv_def)
qed

lemma reply_inv:
  assumes "edge_inv dc w" "i < next_sess w"
  shows "edge_inv dc (reply i c a w)"
  using assms by (auto simp: edge_inv_def reg_inv_reply phase_inv_def lock_inv_cong [of "reply i c a w" w])

section \<open>Locks\<close>

lemma lock_invD:
  assumes "lock_inv w"
  shows "distinct (map fst (activation_locks w))"
    "lock_of w i = Some (a, lk) \<Longrightarrow> \<exists>n. map_of (activation_locks w) a = Some (lk, n)"
    "map_of (activation_locks w) a = Some (lk, n) \<Longrightarrow> n = card (lock_users w a)"
    "map_of (activation_locks w) a = Some (lk, n) \<Longrightarrow> lk < next_lock w"
    "map_of (activation_locks w) a = Some (lk, n) \<Longrightarrow> map_of (activation_locks w) b = Some (lk, m) \<Longrightarrow> a = b"
    "lock_of w i = Some (a, lk) \<Longrightarrow> holding (s_phase (esessions w i)) \<Longrightarrow> lock_holder w lk = Some i"
  using assms unfolding lock_inv_def by blast+

lemma lock_inv_change:
  assumes L: "lock_inv w" and lo: "\<And>k. lock_of w' k = lock_of w k"
    and al: "activation_locks w' = activation_locks w" "next_lock w' = next_lock w"
    and hold: "\<And>k a lk. lock_of w k = Some (a, lk) \<Longrightarrow> holding (s_phase (esessions w' k)) \<Longrightarrow> lock_holder w' lk = Some k"
  shows "lock_inv w'"
proof -
  have "lock_users w' = lock_users w" by (simp add: fun_eq_iff lock_users_def lo)
  then show ?thesis unfolding lock_inv_def lo al using L hold unfolding lock_inv_def by metis
qed

text \<open>Two sessions with the same address use the same lock, so only one of them holds it.\<close>

lemma owner_unique:
  assumes L: "lock_inv w" and own: "owns w i a lk" and k: "lock_of w k = Some (a', lk')" "holding (s_phase (esessions w k))"
    and same: "a' = a \<or> lk' = lk"
  shows "k = i"
proof -
  obtain n m where "map_of (activation_locks w) a = Some (lk, n)" "map_of (activation_locks w) a' = Some (lk', m)"
    using lock_invD(2) [OF L] own k(1) unfolding owns_def by metis
  with same lock_invD(5) [OF L] have "lk' = lk" by auto
  with lock_invD(6) [OF L k] own show ?thesis by (simp add: owns_def)
qed

lemma finite_users: "reg_inv dc w \<Longrightarrow> finite (lock_users w a)"
proof (rule finite_subset)
  show "lock_users w a \<subseteq> {..<next_sess w}" if "reg_inv dc w"
    using owns_alloc [OF that] by (auto simp: lock_users_def)
qed simp

lemma enter_lock_inv:
  assumes R: "reg_inv dc w" and L: "lock_inv w" and i: "lock_of w i = None"
    and e: "enter_lock a w = (lk, w')"
  shows "lock_inv (goto i (EWaitLock a lk) w')"
proof -
  let ?W = "goto i (EWaitLock a lk) w'" and ?al = "activation_locks w"
  obtain n where al: "activation_locks w' = AList.update a (lk, Suc n) ?al" and n: "n = card (lock_users w a)"
    and lk: "lk < next_lock w'" "next_lock w \<le> next_lock w'"
    and old: "\<And>lk0 n0. map_of ?al a = Some (lk0, n0) \<Longrightarrow> lk0 = lk"
    and new: "\<And>b m. map_of ?al b = Some (lk, m) \<Longrightarrow> b = a"
    and same: "esessions w' = esessions w" "lock_holder w' = lock_holder w"
  proof (cases "map_of ?al a")
    case None
    then have "lock_users w a = {}" using lock_invD(2) [OF L] by (fastforce simp: lock_users_def)
    with None e lock_invD(4) [OF L] that [of 0] show ?thesis
      by (fastforce simp: enter_lock_def)
  next
    case (Some x)
    then obtain m where x: "map_of ?al a = Some (lk, m)" using e by (cases x) (auto simp: enter_lock_def)
    with e lock_invD(3-5) [OF L] that [of m] show ?thesis by (fastforce simp: enter_lock_def)
  qed
  have us: "lock_users ?W b = (if b = a then insert i (lock_users w a) else lock_users w b)" for b
    using i by (auto simp: lock_users_def same)
  have c: "card (insert i (lock_users w a)) = Suc n"
    using i finite_users [OF R] n by (simp add: lock_users_def)
  have mp: "map_of (activation_locks ?W) b = (if b = a then Some (lk, Suc n) else map_of ?al b)" for b
    by (simp add: al update_conv')
  have lo: "lock_of ?W k = (if k = i then Some (a, lk) else lock_of w k)" for k by (simp add: same)
  have h: "holding (s_phase (esessions ?W k)) \<longleftrightarrow> k \<noteq> i \<and> holding (s_phase (esessions w k))" for k by (simp add: same)
  have "\<exists>m. map_of (activation_locks ?W) b = Some (lk', m)" if "lock_of ?W k = Some (b, lk')" for k b lk'
    using that lock_invD(2) [OF L, of k b lk'] old unfolding lo mp by (auto split: if_splits)
  moreover have "m = card (lock_users ?W b) \<and> lk' < next_lock ?W"
    if "map_of (activation_locks ?W) b = Some (lk', m)" for b lk' m
    using that lock_invD(3,4) [OF L, of b lk' m] lk c unfolding us mp by (auto split: if_splits)
  moreover have "b = b'" if "map_of (activation_locks ?W) b = Some (lk', m)" "map_of (activation_locks ?W) b' = Some (lk', m')"
    for b b' lk' m m'
    using that lock_invD(5) [OF L, of b lk' m b' m'] new unfolding mp by (auto split: if_splits)
  moreover have "distinct (map fst (activation_locks ?W))"
    using lock_invD(1) [OF L] by (simp add: al distinct_update)
  moreover have "lock_holder ?W lk' = Some k" if "lock_of ?W k = Some (b, lk')" "holding (s_phase (esessions ?W k))" for k b lk'
    using that lock_invD(6) [OF L, of k b lk'] unfolding h lo by (auto simp: same split: if_splits)
  ultimately show ?thesis unfolding lock_inv_def by blast
qed

lemma leave_lock_fields [simp]:
  "esessions (leave_lock a lk w) = esessions w" "next_sess (leave_lock a lk w) = next_sess w"
  "ereg (leave_lock a lk w) = ereg w" "open_sockets (leave_lock a lk w) = open_sockets w"
  "next_lock (leave_lock a lk w) = next_lock w" "lock_holder (leave_lock a lk w) = (lock_holder w)(lk := None)"
  by (auto simp: leave_lock_def Let_def split: option.splits)

lemma leave_lock_inv:
  assumes R: "reg_inv dc w" and L: "lock_inv w" and own: "owns w i a lk" and p: "phase_lock p = None"
  shows "lock_inv (goto i p (leave_lock a lk w))"
proof -
  let ?W = "goto i p (leave_lock a lk w)" and ?al = "activation_locks w"
  have i: "lock_of w i = Some (a, lk)" using own by (simp add: owns_def)
  obtain n where n: "map_of ?al a = Some (lk, n)" using lock_invD(2) [OF L i] by blast
  have us: "lock_users ?W b = lock_users w b - {i}" for b using p by (auto simp: lock_users_def)
  have iu: "i \<in> lock_users w a" "finite (lock_users w a)" using i finite_users [OF R] by (auto simp: lock_users_def)
  have c: "card (lock_users ?W a) = n - 1" using iu lock_invD(3) [OF L n] by (simp add: us)
  have cb: "lock_users ?W b = lock_users w b" if "b \<noteq> a" for b using that i unfolding us by (auto simp: lock_users_def)
  have mp: "map_of (activation_locks ?W) b = (if b = a then if n = 1 then None else Some (lk, n - 1) else map_of ?al b)" for b
    using n by (simp add: leave_lock_def Let_def update_conv' delete_conv')
  have old: "\<exists>m0. map_of ?al b = Some (lk', m0)" if "map_of (activation_locks ?W) b = Some (lk', m)" for b lk' m
    using that n unfolding mp by (cases "b = a"; cases "n = 1") simp_all
  have lo: "lock_of ?W k = (if k = i then None else lock_of w k)" for k using p by simp
  have h: "holding (s_phase (esessions ?W k)) \<Longrightarrow> holding (s_phase (esessions w k)) \<and> k \<noteq> i" for k
    using p by (cases p) (auto split: if_splits)
  have "\<exists>m. map_of (activation_locks ?W) b = Some (lk', m)" if "lock_of ?W k = Some (b, lk')" for k b lk'
  proof -
    from that have k: "k \<noteq> i" "lock_of w k = Some (b, lk')" unfolding lo by (auto split: if_splits)
    with lock_invD(2) [OF L] obtain m where m: "map_of ?al b = Some (lk', m)" by blast
    have "n \<noteq> 1" if "b = a"
    proof
      assume "n = 1"
      with iu lock_invD(3) [OF L n] have "lock_users w a = {i}" by (metis card_1_singletonE singletonD)
      with k that show False by (auto simp: lock_users_def)
    qed
    with m n show ?thesis unfolding mp by auto
  qed
  moreover have "m = card (lock_users ?W b) \<and> lk' < next_lock ?W"
    if "map_of (activation_locks ?W) b = Some (lk', m)" for b lk' m
    using that lock_invD(3,4) [OF L, of b lk' m] lock_invD(4) [OF L n] c cb [of b] unfolding mp
    by (simp split: if_splits)
  moreover have "b = b'" if "map_of (activation_locks ?W) b = Some (lk', m)" "map_of (activation_locks ?W) b' = Some (lk', m')"
    for b b' lk' m m'
    using old [OF that(1)] old [OF that(2)] lock_invD(5) [OF L] by blast
  moreover have "distinct (map fst (activation_locks ?W))"
    using lock_invD(1) [OF L] n by (simp add: leave_lock_def Let_def distinct_update distinct_delete)
  moreover have "lock_holder ?W lk' = Some k" if "lock_of ?W k = Some (b, lk')" "holding (s_phase (esessions ?W k))" for k b lk'
  proof -
    have k: "k \<noteq> i" "holding (s_phase (esessions w k))" using h [OF that(2)] by simp_all
    then have k': "lock_of w k = Some (b, lk')" using that(1) unfolding lo by simp
    note k = k(1) k' k(2)
    with owner_unique [OF L own k(2,3)] have "lk' \<noteq> lk" by blast
    with lock_invD(6) [OF L k(2,3)] show ?thesis by simp
  qed
  ultimately show ?thesis unfolding lock_inv_def by blast
qed

lemma finish_inv:
  assumes inv: "edge_inv dc w" and own: "owns w i a lk" and p: "phase_lock p = None"
  shows "edge_inv dc (goto i p (leave_lock a lk w))"
proof -
  have R: "reg_inv dc w" and P: "phase_inv dc w" using inv by (simp_all add: edge_inv_def)
  have i: "i < next_sess w" using owns_alloc [OF R] own by (simp add: owns_def)
  have "reg_inv dc (leave_lock a lk w)" using R by (simp add: reg_inv_def)
  then have "reg_inv dc (goto i p (leave_lock a lk w))" using i by (simp add: reg_inv_goto)
  moreover have "phase_inv dc (goto i p (leave_lock a lk w))"
    using P p unfolding phase_inv_def by (auto split: if_splits)
  ultimately show ?thesis using leave_lock_inv [OF R _ own p] inv by (simp add: edge_inv_def)
qed

lemma fail_locked_inv:
  assumes inv: "edge_inv dc w" and own: "owns w i a lk"
  shows "edge_inv dc (fail_locked i a lk w)"
proof -
  have i: "i < next_sess w" using inv own owns_alloc [of dc w i] by (auto simp: edge_inv_def owns_def)
  have "fail_locked i a lk w = schedule_cleanup i (goto i EDone (leave_lock a lk w))"
    by (simp add: fail_locked_def cleanup_goto)
  with cleanup_inv [OF finish_inv [OF inv own, of EDone], of i] i show ?thesis by simp
qed

lemma owns_reply [simp]: "owns (reply k c b w) i a lk = owns w i a lk"
  by (simp add: owns_def)

lemma deny_locked_inv: "edge_inv dc w \<Longrightarrow> owns w i a lk \<Longrightarrow> edge_inv dc (deny_locked i a lk c w)"
  using owns_alloc [of dc w i] unfolding deny_locked_def
  by (intro fail_locked_inv reply_inv) (auto simp: owns_def edge_inv_def)

section \<open>Binding a session\<close>

lemma reg_inv_bind:
  assumes R: "reg_inv dc w" and i: "i < next_sess w" "\<not> s_closing (esessions w i)"
    and free: "edge_lookup (ereg w) a = None \<or> edge_lookup (ereg w) a = Some i"
    and room: "edge_lookup (ereg w) a = None \<Longrightarrow> int (edge_count (ereg w)) < max_connections dc"
    and a: "is_tester_allowed dc a" "s_activated (esessions w i) \<Longrightarrow> s_tester (esessions w i) = Some a"
    and W: "W = (upd_esess i (\<lambda>s. s\<lparr>s_tester := Some a, s_activated := True\<rparr>) w)\<lparr>ereg := edge_register a i (ereg w)\<rparr>"
  shows "reg_inv dc W"
proof -
  note D = reg_invD [OF R]
  have look: "edge_lookup (ereg W) b = (if b = a then Some i else edge_lookup (ereg w) b)" for b
    by (simp add: W edge_reg.look_reg)
  have notother: "edge_lookup (ereg w) b \<noteq> Some i" if "b \<noteq> a" for b
    using D(2) [of b i] a(2) that by auto
  have "edge_lookup (ereg W) b = Some k \<longleftrightarrow> k < next_sess W \<and> s_activated (esessions W k)
      \<and> \<not> s_closing (esessions W k) \<and> s_tester (esessions W k) = Some b" for b k
    using D(2) [of b k] free i notother [of b] unfolding look by (auto simp: W)
  moreover have "int (edge_count (ereg W)) \<le> max_connections dc"
    using room D(5) by (cases "edge_lookup (ereg w) a") (simp_all add: W edge_reg.sz_reg [OF D(1)])
  moreover have "registry_wf (ereg W)" using D(1) by (simp add: W edge_reg.wf_reg)
  moreover have "esessions W k = new_esess\<lparr>s_phase := EDone\<rparr>" if "next_sess W \<le> k" for k
    using D(9) [of k] that i by (simp add: W)
  moreover have "is_tester_allowed dc b" if "s_activated (esessions W k)" "s_tester (esessions W k) = Some b" for k b
    using that D(3) [of k b] a(1) by (auto simp: W split: if_splits)
  moreover have "s_activated (esessions W k) \<longleftrightarrow> s_tester (esessions W k) \<noteq> None" for k
    using D(4) [of k] by (simp add: W)
  moreover have "distinct (open_sockets W)" "int (length (open_sockets W)) \<le> max_connections dc + 1"
    "k \<in> set (open_sockets W) \<longleftrightarrow> k < next_sess W \<and> \<not> s_closing (esessions W k)" for k
    using D(6-8) by (simp_all add: W)
  ultimately show ?thesis unfolding reg_inv_def by blast
qed

lemma commit_inv:
  assumes inv: "edge_inv dc w" and own: "owns w i a lk"
    and free: "edge_lookup (ereg w) a = None \<or> edge_lookup (ereg w) a = Some i"
    and room: "edge_lookup (ereg w) a = None \<Longrightarrow> s_activated (esessions w i) \<or> int (edge_count (ereg w)) < max_connections dc"
  shows "edge_inv dc (commit i a lk w)"
proof (cases "s_closing (esessions w i)")
  case True
  with fail_locked_inv [OF inv own] show ?thesis by (simp add: commit_def)
next
  case False
  have R: "reg_inv dc w" and L: "lock_inv w" and P: "phase_inv dc w" using inv by (simp_all add: edge_inv_def)
  have lo: "lock_of w i = Some (a, lk)" using own by (simp add: owns_def)
  have i: "i < next_sess w" using owns_alloc [OF R] lo by simp
  have al: "is_tester_allowed dc a" "s_activated (esessions w i) \<Longrightarrow> s_tester (esessions w i) = Some a"
    using P lo unfolding phase_inv_def by blast+
  have room': "int (edge_count (ereg w)) < max_connections dc" if "edge_lookup (ereg w) a = None"
    using room [OF that] al(2) reg_invD(2) [OF R, of a i] i False that by auto
  define W where "W = (upd_esess i (\<lambda>s. s\<lparr>s_tester := Some a, s_activated := True\<rparr>) w)\<lparr>ereg := edge_register a i (ereg w)\<rparr>"
  let ?G = "goto i (EResponding a lk) (reply i 0x10 a W)"
  have RW: "reg_inv dc W" by (rule reg_inv_bind [OF R i False free room' al W_def])
  have lockW: "lock_of ?G k = lock_of w k" for k using lo by (simp add: W_def)
  have "reg_inv dc (reply i 0x10 a W)"
    using reg_inv_reply [OF RW] i by (simp add: W_def)
  then have "reg_inv dc ?G" using i by (simp add: reg_inv_goto W_def)
  moreover have "lock_inv ?G"
    using L own lo unfolding lock_inv_def lockW lock_users_def owns_def by (auto simp: W_def)
  moreover have "phase_inv dc ?G"
  proof -
    have "edge_lookup (ereg W) b = None \<and> \<not> s_activated (esessions w k)"
      if "lock_of w k = Some (b, lk')" "in_capacity (s_phase (esessions w k))" "k \<noteq> i" for k b lk'
    proof -
      have "holding (s_phase (esessions w k))" using that(2) by (cases "s_phase (esessions w k)") auto
      with owner_unique [OF L own that(1)] that(3) have "b \<noteq> a" by blast
      with P that(1,2) show ?thesis unfolding phase_inv_def by (simp add: W_def edge_reg.look_reg) blast
    qed
    with P lo show ?thesis unfolding phase_inv_def lockW by (auto simp: W_def)
  qed
  ultimately show ?thesis using False by (simp add: commit_def Let_def edge_inv_def W_def)
qed

section \<open>The handlers\<close>

lemma cap_holder_inv [simp]: "edge_inv dc (w\<lparr>cap_holder := x\<rparr>) = edge_inv dc w" "owns (w\<lparr>cap_holder := x\<rparr>) i a lk = owns w i a lk"
  by (simp_all add: edge_inv_def reg_inv_def lock_inv_def lock_users_def phase_inv_def owns_def)

lemma owns_phase:
  assumes "edge_inv dc w" "lock_of w i = Some (a, lk)" "holding (s_phase (esessions w i))"
  shows "owns w i a lk"
  using assms lock_invD(6) [of w i a lk] by (simp add: owns_def edge_inv_def)

lemma conflict_check_inv:
  assumes inv: "edge_inv dc w" and own: "owns w i a lk"
  shows "edge_inv dc (conflict_check dc i a lk w)"
proof -
  have R: "reg_inv dc w" using inv by (simp add: edge_inv_def)
  let ?e = "edge_lookup (ereg w) a"
  consider "s_closing (esessions w i)" | j where "?e = Some j" "j \<noteq> i" "\<not> s_closing (esessions w i)"
    | "?e = None \<or> ?e = Some i" "\<not> s_closing (esessions w i)" by (metis not_None_eq)
  then show ?thesis
  proof cases
    case 1
    with fail_locked_inv [OF inv own] show ?thesis by (simp add: conflict_check_def)
  next
    case 2
    with goto_inv [OF inv own, of "EProbing a lk j"] show ?thesis by (simp add: conflict_check_def)
  next
    case 3
    have "?e = None" if "\<not> s_activated (esessions w i)" using 3 reg_invD(2) [OF R, of a i] that by auto
    with 3 goto_inv [OF inv own, of "EWaitCap a lk"] commit_inv [OF inv own 3(1)] show ?thesis
      by (auto simp: conflict_check_def Let_def)
  qed
qed

lemma owns_cleanup [simp]: "owns (schedule_cleanup k w) i a lk = owns w i a lk"
  by (simp add: owns_def)

lemma edge_probed_inv:
  assumes inv: "edge_inv dc w" and own: "owns w i a lk"
  shows "edge_inv dc (edge_probed dc i a lk j alive w)"
proof -
  have "edge_inv dc (schedule_cleanup j w)" if "edge_lookup (ereg w) a = Some j"
    using inv that reg_invD(2) [of dc w a j] by (intro cleanup_inv) (auto simp: edge_inv_def)
  with fail_locked_inv [OF inv own] deny_locked_inv [OF inv own] conflict_check_inv [OF inv own]
    conflict_check_inv [of dc "schedule_cleanup j w" i a lk] own show ?thesis
    by (simp add: edge_probed_def)
qed

lemma capacity_check_inv:
  assumes "edge_inv dc w" "owns w i a lk" "edge_lookup (ereg w) a = None"
  shows "edge_inv dc (capacity_check dc i a lk w)"
  using assms deny_locked_inv [of dc w i a lk] commit_inv [of dc w i a lk] by (simp add: capacity_check_def)

lemma capacity_facts:
  assumes "edge_inv dc w" "lock_of w i = Some (a, lk)" "in_capacity (s_phase (esessions w i))"
  shows "owns w i a lk" "edge_lookup (ereg w) a = None" "\<not> s_activated (esessions w i)"
proof -
  have "holding (s_phase (esessions w i))" using assms(3) by (cases "s_phase (esessions w i)") auto
  with assms show "owns w i a lk" by (intro owns_phase)
  show "edge_lookup (ereg w) a = None" "\<not> s_activated (esessions w i)"
    using assms unfolding edge_inv_def phase_inv_def by blast+
qed

lemma evict_dead_inv:
  assumes "edge_inv dc w"
  shows "edge_inv dc (evict_dead os dead w) \<and> (\<forall>k. s_phase (esessions (evict_dead os dead w) k) = s_phase (esessions w k))"
  using assms
proof (induction os arbitrary: w)
  case (Cons x os)
  obtain a j where x: "x = (a, j)" by (cases x)
  let ?w = "if (a, j) \<in> set dead \<and> edge_lookup (ereg w) a = Some j then schedule_cleanup j w else w"
  have "edge_inv dc ?w"
    using Cons.prems reg_invD(2) [of dc w a j] cleanup_inv [OF Cons.prems, of j] by (auto simp: edge_inv_def)
  with Cons.IH [of ?w] show ?case by (auto simp: x)
qed simp

lemma reclaim_probed_inv:
  assumes inv: "edge_inv dc w" and ph: "s_phase (esessions w i) = EReclaim a lk os"
  shows "edge_inv dc (reclaim_probed i a lk os dead w)"
proof -
  define v where "v = (if s_closing (esessions w i) then w else evict_dead os dead w)"
  have v: "edge_inv dc v" "s_phase (esessions v i) = EReclaim a lk os"
    using evict_dead_inv [OF inv, of os dead] inv ph by (auto simp: v_def)
  note f = capacity_facts [OF v(1), of i a lk, unfolded v(2), simplified]
  show ?thesis unfolding reclaim_probed_def v_def [symmetric]
    by (rule goto_inv [OF v(1) f(1)]) (simp_all add: f)
qed

lemma goto_idle_inv:
  assumes inv: "edge_inv dc w" and "lock_of w i = None" "phase_lock p = None" "i < next_sess w"
  shows "edge_inv dc (goto i p w)"
proof -
  have lo: "lock_of (goto i p w) k = lock_of w k" for k using assms by simp
  have h: "lock_of w k = Some x \<Longrightarrow> s_phase (esessions (goto i p w) k) = s_phase (esessions w k)" for k x
    using assms(2) by auto
  have "lock_inv (goto i p w)" "phase_inv dc (goto i p w)"
    using inv h unfolding edge_inv_def lock_inv_def phase_inv_def lo lock_users_def by auto
  with inv assms(4) show ?thesis by (simp add: edge_inv_def reg_inv_goto)
qed

lemma ra_begin_inv:
  assumes inv: "edge_inv dc w" and i: "i < next_sess w" "s_phase (esessions w i) = EReading"
  shows "edge_inv dc (edge_ra_begin dc i a ty w)"
proof -
  have "edge_inv dc (refuse i c a w)" for c
    unfolding refuse_def by (rule goto_idle_inv, rule cleanup_inv, rule reply_inv) (use inv i in simp_all)
  moreover have "edge_inv dc (goto i (EWaitLock a lk) w')"
    if e: "enter_lock a w = (lk, w')" and a: "is_tester_allowed dc a"
      "\<not> (s_activated (esessions w i) \<and> Some a \<noteq> s_tester (esessions w i))" for lk w'
  proof -
    have same: "esessions w' = esessions w" "next_sess w' = next_sess w" "ereg w' = ereg w" "open_sockets w' = open_sockets w"
      using e by (auto simp: enter_lock_def split: option.splits)
    have "reg_inv dc w'" using inv unfolding edge_inv_def reg_inv_def same by simp
    then have "reg_inv dc (goto i (EWaitLock a lk) w')" using i by (simp add: reg_inv_goto same)
    moreover have "phase_inv dc (goto i (EWaitLock a lk) w')"
      using inv a unfolding edge_inv_def phase_inv_def by (auto simp: same split: if_splits)
    moreover have "lock_inv (goto i (EWaitLock a lk) w')"
      by (rule enter_lock_inv [OF _ _ _ e, of dc]) (use inv i in \<open>simp_all add: edge_inv_def\<close>)
    ultimately show ?thesis by (simp add: edge_inv_def)
  qed
  ultimately show ?thesis by (auto simp: edge_ra_begin_def split: prod.splits)
qed

lemma accept_inv:
  assumes inv: "edge_inv dc w"
  shows "edge_inv dc (edge_accept dc w)"
proof (cases "reserve dc (next_sess w) (open_sockets w)")
  case None
  with inv show ?thesis by (simp add: edge_accept_def)
next
  case (Some opn)
  let ?n = "next_sess w" and ?W = "edge_accept dc w"
  have R: "reg_inv dc w" using inv by (simp add: edge_inv_def)
  note D = reg_invD [OF R]
  have n: "?n \<notin> set (open_sockets w)" using D(8) [of ?n] by simp
  with Some have opn: "opn = open_sockets w @ [?n]" "int (length (open_sockets w)) < max_connections dc + 1"
    by (auto simp: reserve_def split: if_splits)
  have old: "esessions w ?n = new_esess\<lparr>s_phase := EDone\<rparr>" using D(9) by simp
  have W: "esessions ?W = (esessions w)(?n := new_esess)" "next_sess ?W = Suc ?n" "ereg ?W = ereg w"
    "open_sockets ?W = open_sockets w @ [?n]" "activation_locks ?W = activation_locks w"
    "lock_holder ?W = lock_holder w" "next_lock ?W = next_lock w"
    using Some by (simp_all add: edge_accept_def opn upd_esess_def)
  have new: "\<not> s_activated new_esess" "s_tester new_esess = None" "\<not> s_closing new_esess" "s_phase new_esess = EReading"
    by (simp_all add: new_esess_def)
  have lo: "lock_of ?W k = lock_of w k" for k using old by (simp add: W new)
  have ph: "lock_of w k = Some x \<Longrightarrow> esessions ?W k = esessions w k" for k x using old by (auto simp: W)
  have "reg_inv dc ?W"
    using D(2) [of _ ?n] D opn(2) n new old unfolding reg_inv_def W by (auto simp: less_Suc_eq new_esess_def)
  moreover have "lock_inv ?W"
  proof (rule lock_inv_change [OF _ lo W(5,7)])
    show L: "lock_inv w" using inv by (simp add: edge_inv_def)
    show "lock_holder ?W lk = Some k" if "lock_of w k = Some (a, lk)" "holding (s_phase (esessions ?W k))" for k a lk
      using lock_invD(6) [OF L that(1)] that(2) unfolding ph [OF that(1)] W(6) by blast
  qed
  moreover have "phase_inv dc ?W"
    using inv ph unfolding edge_inv_def phase_inv_def lo W(3) by simp
  ultimately show ?thesis by (simp add: edge_inv_def)
qed

lemma lock_holder_inv [simp]:
  "reg_inv dc (w\<lparr>lock_holder := h\<rparr>) = reg_inv dc w" "phase_inv dc (w\<lparr>lock_holder := h\<rparr>) = phase_inv dc w"
  by (simp_all add: reg_inv_def phase_inv_def)

lemma acquire_inv:
  assumes inv: "edge_inv dc w" and ph: "s_phase (esessions w i) = EWaitLock a lk" "lock_holder w lk = None"
  shows "edge_inv dc (w\<lparr>lock_holder := (lock_holder w)(lk \<mapsto> i)\<rparr>)" "owns (w\<lparr>lock_holder := (lock_holder w)(lk \<mapsto> i)\<rparr>) i a lk"
proof -
  have L: "lock_inv w" using inv by (simp add: edge_inv_def)
  have other: "lk' \<noteq> lk" if "lock_of w k = Some (b, lk')" "holding (s_phase (esessions w k))" for k b lk'
    using lock_invD(6) [OF L that] ph(2) by auto
  have "lock_inv (w\<lparr>lock_holder := (lock_holder w)(lk \<mapsto> i)\<rparr>)"
  proof (rule lock_inv_change [of w])
    fix k b lk'
    assume k: "lock_of w k = Some (b, lk')"
      "holding (s_phase (esessions (w\<lparr>lock_holder := (lock_holder w)(lk \<mapsto> i)\<rparr>) k))"
    then have h: "holding (s_phase (esessions w k))" by simp
    have "lk' \<noteq> lk" using other [OF k(1) h] .
    with lock_invD(6) [OF L k(1) h] show "lock_holder (w\<lparr>lock_holder := (lock_holder w)(lk \<mapsto> i)\<rparr>) lk' = Some k" by simp
  qed (use L in simp_all)
  then show "edge_inv dc (w\<lparr>lock_holder := (lock_holder w)(lk \<mapsto> i)\<rparr>)"
    using inv by (simp add: edge_inv_def)
  show "owns (w\<lparr>lock_holder := (lock_holder w)(lk \<mapsto> i)\<rparr>) i a lk" using ph by (simp add: owns_def)
qed

section \<open>Reachable states\<close>

lemma edge_step_inv: "edge_step dc w w' \<Longrightarrow> edge_inv dc w \<Longrightarrow> edge_inv dc w'"
proof (induction rule: edge_step.induct)
  case (Accept w)
  then show ?case by (rule accept_inv)
next
  case (Request i w src ty)
  then show ?case by (intro ra_begin_inv)
next
  case (Acquire w i src lk)
  with acquire_inv [of dc w i src lk] show ?case by (intro conflict_check_inv) auto
next
  case (Probed w i src lk j alive)
  then show ?case by (intro edge_probed_inv owns_phase [of dc w]) auto
next
  case (CapAcquire w i src lk)
  note f = capacity_facts [OF CapAcquire.prems, of i src lk, unfolded CapAcquire.hyps(1), simplified]
  show ?case
    using fail_locked_inv [OF CapAcquire.prems f(1)] capacity_check_inv [OF CapAcquire.prems f(1,2)]
      goto_inv [of dc "w\<lparr>cap_holder := Some i\<rparr>" i src lk "EReclaim src lk (ereg w)"] CapAcquire.prems f
    by (simp add: reclaim_begin_def)
next
  case (Reclaimed w i src lk owners dead)
  then show ?case by (intro reclaim_probed_inv)
next
  case (CapDone w i src lk)
  note f = capacity_facts [OF CapDone.prems, of i src lk, unfolded CapDone.hyps, simplified]
  let ?w = "w\<lparr>cap_holder := None\<rparr>"
  have "edge_inv dc ?w" "owns ?w i src lk" "edge_lookup (ereg ?w) src = None" using CapDone.prems f by simp_all
  then show ?case using fail_locked_inv [of dc ?w i src lk] capacity_check_inv [of dc ?w i src lk]
    by (simp add: reclaim_end_def Let_def)
next
  case (Responded w i src lk)
  then have own: "owns w i src lk" by (intro owns_phase [of dc w]) auto
  with Responded fail_locked_inv [OF _ own] finish_inv [OF _ own, of dc EReading] show ?case
    by (simp add: edge_responded_def)
next
  case (Expire i w)
  then show ?case by (intro cleanup_inv)
next
  case (Close i w)
  with goto_idle_inv [OF cleanup_inv, of dc w i i EDone] show ?case by simp
qed

lemma new_edge_inv: "0 \<le> max_connections dc \<Longrightarrow> edge_inv dc new_edge"
  by (simp add: edge_inv_def new_edge_def reg_inv_def lock_inv_def phase_inv_def registry_wf_def edge_lookup_def
      edge_count_def new_esess_def)

lemma edge_reachable_inv:
  assumes "(edge_step dc)\<^sup>*\<^sup>* new_edge w" "0 \<le> max_connections dc"
  shows "edge_inv dc w"
  using assms(1) by (induction rule: rtranclp_induct) (auto intro: new_edge_inv [OF assms(2)] edge_step_inv)

text \<open>C3: Routing Activation of the EdgeNode is exclusive. However requests, probes, evictions, timeouts
  and capacity reclaims of any number of sockets interleave, in every reachable state no two open
  sockets are activated for the same address, the registry names for each address exactly the open
  socket activated for it, every such address is an allowed one, at most \<open>max_connections\<close> testers are
  registered and at most one socket more is open.\<close>

theorem edge_activation_exclusive:
  assumes run: "(edge_step dc)\<^sup>*\<^sup>* new_edge w" and cap: "0 \<le> max_connections dc"
  shows "(\<forall>i j a. s_activated (esessions w i) \<and> \<not> s_closing (esessions w i) \<and> s_tester (esessions w i) = Some a
         \<and> s_activated (esessions w j) \<and> \<not> s_closing (esessions w j) \<and> s_tester (esessions w j) = Some a \<longrightarrow> i = j)
    \<and> (\<forall>a i. edge_lookup (ereg w) a = Some i \<longleftrightarrow>
         s_activated (esessions w i) \<and> \<not> s_closing (esessions w i) \<and> s_tester (esessions w i) = Some a)
    \<and> (\<forall>a i. edge_lookup (ereg w) a = Some i \<longrightarrow> is_tester_allowed dc a)
    \<and> int (edge_count (ereg w)) \<le> max_connections dc
    \<and> int (length (open_sockets w)) \<le> max_connections dc + 1"
proof -
  have R: "reg_inv dc w" using edge_reachable_inv [OF assms] by (simp add: edge_inv_def)
  note D = reg_invD [OF R]
  have "i < next_sess w" if "s_activated (esessions w i)" for i
    using D(9) [of i] that by (cases "i < next_sess w") (auto simp: new_esess_def)
  then have look: "edge_lookup (ereg w) a = Some i \<longleftrightarrow>
      s_activated (esessions w i) \<and> \<not> s_closing (esessions w i) \<and> s_tester (esessions w i) = Some a" for a i
    using D(2) [of a i] by blast
  have "i = j" if "edge_lookup (ereg w) a = Some i" "edge_lookup (ereg w) a = Some j" for i j a
    using that by simp
  with look D(3,5,7) show ?thesis by blast
qed

text \<open>One tester connects and activates.\<close>

definition ex_edge_run :: "edge_world list" where
  "ex_edge_run =
     (let w1 = edge_accept ex_edge_doip new_edge;
          w2 = edge_ra_begin ex_edge_doip 0 0x0E00 0 w1;
          w3 = conflict_check ex_edge_doip 0 0x0E00 0 (w2\<lparr>lock_holder := (lock_holder w2)(0 \<mapsto> 0)\<rparr>)
      in [w1, w2, w3])"

lemma ex_edge_defs:
  "ex_edge_run ! 0 = edge_accept ex_edge_doip new_edge"
  "ex_edge_run ! 1 = edge_ra_begin ex_edge_doip 0 0x0E00 0 (ex_edge_run ! 0)"
  "ex_edge_run ! 2 = conflict_check ex_edge_doip 0 0x0E00 0
     ((ex_edge_run ! 1)\<lparr>lock_holder := (lock_holder (ex_edge_run ! 1))(0 \<mapsto> 0)\<rparr>)"
  by (simp_all add: ex_edge_run_def Let_def)

lemma ex_edge_states:
  "next_sess (ex_edge_run ! 0) = 1" "esessions (ex_edge_run ! 0) 0 = new_esess"
  "s_phase (esessions (ex_edge_run ! 1) 0) = EWaitLock 0x0E00 0" "lock_holder (ex_edge_run ! 1) 0 = None"
  "edge_lookup (ereg (ex_edge_run ! 2)) 0x0E00 = Some 0"
  by (simp_all add: ex_edge_run_def Let_def edge_accept_def new_edge_def reserve_def ex_edge_doip_def upd_esess_def
      edge_ra_begin_def new_esess_def is_tester_allowed_def enter_lock_def conflict_check_def edge_lookup_def
      edge_count_def commit_def reply_def edge_register_def)

lemma ex_edge_reachable: "(edge_step ex_edge_doip)\<^sup>*\<^sup>* new_edge (ex_edge_run ! 2)"
proof -
  have a: "edge_step ex_edge_doip new_edge (ex_edge_run ! 0)" unfolding ex_edge_defs by (rule edge_step.Accept)
  have b: "edge_step ex_edge_doip (ex_edge_run ! 0) (ex_edge_run ! 1)"
    unfolding ex_edge_defs(2) by (rule edge_step.Request) (simp_all add: ex_edge_states new_esess_def)
  have c: "edge_step ex_edge_doip (ex_edge_run ! 1) (ex_edge_run ! 2)"
    unfolding ex_edge_defs(3) by (rule edge_step.Acquire) (simp_all only: ex_edge_states)
  show ?thesis by (rule rtranclp.rtrancl_into_rtrancl [OF rtranclp.rtrancl_into_rtrancl [OF r_into_rtranclp [of "edge_step ex_edge_doip", OF a] b] c])
qed

theorem edge_activation_exclusive_witness:
  "s_activated (esessions (ex_edge_run ! 2) 0) \<and> s_tester (esessions (ex_edge_run ! 2) 0) = Some 0x0E00
   \<and> edge_count (ereg (ex_edge_run ! 2)) \<le> 8"
  using edge_activation_exclusive [OF ex_edge_reachable] ex_edge_states(5) by (simp add: ex_edge_doip_def)

end
