(* ===== verification/Echo_Ecu.thy ===== *)
theory Echo_Ecu
  imports Session_Registry Udp_Discovery
begin

text \<open>
  The Echo ECU (\<^verbatim>\<open>echo_ecu/echo_ecu.py\<close>), the small peer the EdgeNode is tried against: reading its
  configuration, the frame helpers, the session handler with conflict resolution by Alive Check, the
  registry and the UDP answers. The sessions of one server share the registry, so the state is a
  world of connections, and the atomic steps are what runs between two awaits that can suspend: the
  handling of one frame, the waking of an activation that waited for a probe, the end of a session
  in the \<^verbatim>\<open>finally\<close> clause of \<open>run\<close>. Logging and setting up the sockets are not modelled.
\<close>

section \<open>Configuration\<close>

text \<open>\<^verbatim>\<open>str(v)\<close> of a float, container or other object, and \<^verbatim>\<open>int(v)\<close> of an object that is neither number nor
  text (and of a float that is not finite), are arguments.\<close>

record py_conv =
  conv_str :: "yaml \<Rightarrow> string"
  conv_int :: "yaml \<Rightarrow> int res"

fun py_str :: "py_conv \<Rightarrow> yaml \<Rightarrow> string" where
  "py_str C YNull = ''None''"
| "py_str C (YBool b) = (if b then ''True'' else ''False'')"
| "py_str C (YInt i) = py_str_int i"
| "py_str C (YStr s) = s"
| "py_str C v = conv_str C v"

fun py_int_of :: "py_conv \<Rightarrow> yaml \<Rightarrow> int res" where
  "py_int_of C YNull = Inl TypeError"
| "py_int_of C (YBool b) = Inr (if b then 1 else 0)"
| "py_int_of C (YInt i) = Inr i"
| "py_int_of C (YStr s) = (case py_int_dec (py_strip s) of None \<Rightarrow> Inl ValueError | Some i \<Rightarrow> Inr i)"
| "py_int_of C (YFloat (Some r)) = Inr (if r < 0 then \<lceil>r\<rceil> else \<lfloor>r\<rfloor>)"
| "py_int_of C (YList xs) = Inl TypeError"
| "py_int_of C (YMap d) = Inl TypeError"
| "py_int_of C v = conv_int C v"

text \<open>\<^verbatim>\<open>v.get(k, dflt)\<close> where \<open>v\<close> need not be a dictionary; \<^verbatim>\<open>int(str(v), 0)\<close>.\<close>

definition obj_get :: "yaml \<Rightarrow> string \<Rightarrow> yaml \<Rightarrow> yaml res" where
  "obj_get v k dflt = (case v of YMap d \<Rightarrow> Inr (get d k dflt) | _ \<Rightarrow> Inl AttributeError)"

definition int_auto_of :: "py_conv \<Rightarrow> yaml \<Rightarrow> int res" where
  "int_auto_of C v = (case py_int_auto (py_str C v) of None \<Rightarrow> Inl ValueError | Some i \<Rightarrow> Inr i)"

text \<open>\<open>_load_config\<close>, from what \<^verbatim>\<open>open\<close> and \<^verbatim>\<open>yaml.safe_load\<close> yield: any failure, and any document
  that is not a mapping, gives the defaults.\<close>

definition echo_load_config :: "yaml res \<Rightarrow> ydict" where
  "echo_load_config doc =
     (case doc of
        Inr (YMap d) \<Rightarrow> d
      | _ \<Rightarrow> [(YStr ''listen'', YMap []), (YStr ''doip'', YMap [])])"

text \<open>\<^verbatim>\<open>str(config.get("doip", {}).get("vin", ...)).encode("ascii")[:17].ljust(17, b"\x00")\<close>.\<close>

definition echo_vin :: "py_conv \<Rightarrow> ydict \<Rightarrow> bytes res" where
  "echo_vin C config =
     ebind (obj_get (get config ''doip'' (YMap [])) ''vin'' (YStr ''00000000000000000'')) (\<lambda>v.
     let vin_str = py_str C v in
     if ascii_text vin_str then Inr (ljust 17 (take 17 (encode_ascii vin_str))) else Inl ValueError)"

definition echo_announcement_payload :: "py_conv \<Rightarrow> ydict \<Rightarrow> bytes res" where
  "echo_announcement_payload C config =
     (let dc = get config ''doip'' (YMap []) in
      ebind (echo_vin C config) (\<lambda>vin.
      ebind (ebind (obj_get dc ''eid'' (YStr ''000000000000'')) (\<lambda>v. py_fromhex (py_str C v))) (\<lambda>eid.
      ebind (ebind (obj_get dc ''gid'' (YStr ''000000000000'')) (\<lambda>v. py_fromhex (py_str C v))) (\<lambda>gid.
      ebind (ebind (obj_get dc ''ecu_logical_addr'' (YStr ''0x0002'')) (int_auto_of C)) (\<lambda>ecu_addr.
      ebind (pack_H ecu_addr) (\<lambda>a.
      Inr (vin @ a @ eid @ gid @ [0x00] @ [0x00])))))))"

section \<open>Frame helpers\<close>

definition echo_build :: "int \<Rightarrow> bytes \<Rightarrow> int \<Rightarrow> bytes res" where
  "echo_build payload_type payload version =
     (let inv = 0xFF XOR version in
      ebind (pack_uint 1 version) (\<lambda>v.
      ebind (pack_uint 1 inv) (\<lambda>i.
      ebind (pack_uint 2 payload_type) (\<lambda>t.
      ebind (pack_uint 4 (int (length payload))) (\<lambda>l.
      Inr (v @ i @ t @ l @ payload))))))"

definition echo_read_frame :: "(bytes, bytes) py" where
  "echo_read_frame =
     bnd (read_exactly 8) (\<lambda>hdr.
     bnd (lift (unpack_uint 4 (py_slice 4 8 hdr))) (\<lambda>plen.
     if plen = 0 then ret hdr
     else bnd (read_exactly (nat plen)) (\<lambda>payload. ret (hdr @ payload))))"

definition echo_ptype :: "bytes \<Rightarrow> int res" where
  "echo_ptype raw_frame = unpack_H (py_slice 2 4 raw_frame)"

definition echo_payload :: "bytes \<Rightarrow> bytes" where
  "echo_payload raw_frame = drop 8 raw_frame"

interpretation echo_codec: frame_codec echo_build
proof
  show "echo_build pt pl ver = Inr (doip_header ver pt (int (length pl)) @ pl)"
    if "frame_args_ok pt pl ver" for pt pl ver
    using that inv_byte_range [of ver]
    by (simp add: echo_build_def frame_args_ok_def pack_uint_def doip_header_def Let_def)
next
  show "\<exists>e. echo_build pt pl ver = Inl e" if "\<not> frame_args_ok pt pl ver" for pt pl ver
    using that
    by (auto simp: echo_build_def frame_args_ok_def pack_uint_def Let_def)
qed

section \<open>UDP\<close>

text \<open>\<open>datagram_received\<close> with an open transport: the frames sent. No part of the header but the payload
  type is looked at.\<close>

definition echo_datagram_received :: "bytes \<Rightarrow> bytes \<Rightarrow> udp_addr \<Rightarrow> (bytes \<times> udp_addr) list res" where
  "echo_datagram_received payload data addr =
     (if length data < 8 then Inr []
      else ebind (unpack_H (py_slice 2 4 data)) (\<lambda>pt.
        if pt \<noteq> PT_VEHICLE_ID_REQUEST then Inr []
        else ebind (echo_build PT_VEHICLE_ID_RESPONSE payload VER) (\<lambda>fr. Inr [(fr, addr)])))"

definition echo_send_announcement :: "bytes \<Rightarrow> int \<Rightarrow> (bytes \<times> udp_addr) list res" where
  "echo_send_announcement payload if_index =
     ebind (echo_build PT_VEHICLE_ID_RESPONSE payload VER) (\<lambda>fr.
     Inr [(fr, (''ff02::1'', 13400, [0, if_index]))])"

text \<open>\<open>_run_udp_announcer\<close>: the settings, and the times of the announcements in milliseconds from the moment
  the socket is bound.\<close>

definition echo_udp_settings :: "py_conv \<Rightarrow> ydict \<Rightarrow> (int \<times> int \<times> int) res" where
  "echo_udp_settings C config =
     (let udp_cfg = get config ''udp'' (YMap []) in
      ebind (ebind (obj_get udp_cfg ''announce_count'' (YInt 3)) (py_int_of C)) (\<lambda>n.
      ebind (ebind (obj_get udp_cfg ''announce_interval_ms'' (YInt 500)) (py_int_of C)) (\<lambda>interval_ms.
      ebind (ebind (obj_get (get config ''listen'' (YMap [])) ''port'' (YInt 13400)) (py_int_of C)) (\<lambda>port.
      Inr (n, interval_ms, port)))))"

definition echo_announce_times :: "int \<Rightarrow> int \<Rightarrow> int list" where
  "echo_announce_times n interval_ms =
     announce_loop (nat n) (max 0 interval_ms) 0"

section \<open>Sessions\<close>

record echo_params =
  p_ecu_addr :: int
  p_node_type :: int
  p_power_mode :: int
  p_max_data :: int

text \<open>What \<open>ECUSession.__init__\<close> reads; \<^verbatim>\<open>config["doip"]\<close> raises when the key is missing.\<close>

definition new_echo_params :: "py_conv \<Rightarrow> ydict \<Rightarrow> echo_params res" where
  "new_echo_params C config =
     ebind (case map_of config (YStr ''doip'') of None \<Rightarrow> Inl KeyError | Some v \<Rightarrow> Inr v) (\<lambda>doip.
     ebind (ebind (obj_get doip ''ecu_logical_addr'' (YStr ''0x0002'')) (int_auto_of C)) (\<lambda>addr.
     ebind (ebind (obj_get doip ''node_type'' (YStr ''0x01'')) (int_auto_of C)) (\<lambda>nt.
     ebind (ebind (obj_get doip ''power_mode'' (YStr ''0x01'')) (int_auto_of C)) (\<lambda>pm.
     ebind (ebind (obj_get doip ''max_payload_bytes'' (YInt 4096)) (py_int_of C)) (\<lambda>md.
     Inr \<lparr>p_ecu_addr = addr, p_node_type = nt, p_power_mode = pm, p_max_data = md\<rparr>)))))"

text \<open>Where the task of a session stands: reading frames; waiting for the probe of session \<open>j\<close>, with the
  address asked for, the event it waits on and whether sending the probe failed; in the
  \<^verbatim>\<open>finally\<close> clause, writer closed; gone.\<close>

datatype echo_phase = Reading | Probing int nat nat bool | Ending | Done

text \<open>\<open>ec_in\<close> is what the peer sent and nobody read, \<open>ec_eof\<close> that nothing will follow. \<open>ec_lost\<close>: the
  writer is closed or the connection reset. \<open>ec_event\<close> is \<open>_alive_probe_event\<close>.\<close>

record echo_conn =
  ec_phase :: echo_phase
  ec_in :: bytes
  ec_eof :: bool
  ec_lost :: bool
  ec_out :: "bytes list"
  ec_activated :: bool
  ec_tester :: "int option"
  ec_probe_pending :: bool
  ec_event :: "nat option"

definition new_echo_conn :: echo_conn where
  "new_echo_conn =
     \<lparr>ec_phase = Reading, ec_in = [], ec_eof = False, ec_lost = False, ec_out = [], ec_activated = False,
      ec_tester = None, ec_probe_pending = False, ec_event = None\<rparr>"

text \<open>Connections are numbered in the order they are accepted; events in the order they are made, and
  \<open>ew_set\<close> are those that are set.\<close>

record echo_world =
  ew_conns :: "nat \<Rightarrow> echo_conn"
  ew_next :: nat
  ew_registry :: registry
  ew_set :: "nat list"
  ew_next_event :: nat

definition new_echo_world :: echo_world where
  "new_echo_world = \<lparr>ew_conns = (\<lambda>i. new_echo_conn), ew_next = 0, ew_registry = [], ew_set = [], ew_next_event = 0\<rparr>"

definition upd_echo :: "nat \<Rightarrow> (echo_conn \<Rightarrow> echo_conn) \<Rightarrow> echo_world \<Rightarrow> echo_world" where
  "upd_echo i f w = w\<lparr>ew_conns := (ew_conns w)(i := f (ew_conns w i))\<rparr>"

text \<open>\<open>ECUSessionRegistry\<close>. Removal goes by the address alone.\<close>

definition echo_register :: "int \<Rightarrow> nat \<Rightarrow> registry \<Rightarrow> registry" where
  "echo_register a i rg = AList.update a i rg"

definition echo_unregister :: "int \<Rightarrow> registry \<Rightarrow> registry" where
  "echo_unregister a rg = AList.delete a rg"

definition echo_lookup :: "registry \<Rightarrow> int \<Rightarrow> nat option" where
  "echo_lookup rg a = map_of rg a"

definition echo_unregister_own :: "nat \<Rightarrow> echo_world \<Rightarrow> echo_world" where
  "echo_unregister_own i w =
     (case ec_tester (ew_conns w i) of
        None \<Rightarrow> w
      | Some a \<Rightarrow> w\<lparr>ew_registry := echo_unregister a (ew_registry w)\<rparr>)"

text \<open>\<open>_send\<close>: on a closed writer or a lost connection the write is dropped and \<^verbatim>\<open>drain\<close> raises.\<close>

definition echo_send :: "nat \<Rightarrow> bytes \<Rightarrow> (echo_world, unit) py" where
  "echo_send i fr =
     bnd (gets (\<lambda>w. ec_lost (ew_conns w i))) (\<lambda>lost.
     if lost then raise ConnectionResetError
     else modify (upd_echo i (\<lambda>c. c\<lparr>ec_out := ec_out c @ [fr]\<rparr>)))"

definition echo_send_frame :: "nat \<Rightarrow> int \<Rightarrow> bytes \<Rightarrow> (echo_world, unit) py" where
  "echo_send_frame i pt pl = bnd (lift (echo_build pt pl VER)) (echo_send i)"

section \<open>Alive Check probes and eviction\<close>

definition echo_evict :: "nat \<Rightarrow> echo_world \<Rightarrow> echo_world" where
  "echo_evict j w = echo_unregister_own j (upd_echo j (\<lambda>c. c\<lparr>ec_lost := True, ec_eof := True\<rparr>) w)"

text \<open>\<open>probe_alive\<close> up to its wait: the event it waits on, and whether the send failed; and its \<^verbatim>\<open>finally\<close>.\<close>

definition echo_probe_begin :: "nat \<Rightarrow> (echo_world, nat \<times> bool) py" where
  "echo_probe_begin j w =
     (let e = ew_next_event w;
          w1 = upd_echo j (\<lambda>c. c\<lparr>ec_event := Some e, ec_probe_pending := True\<rparr>) (w\<lparr>ew_next_event := e + 1\<rparr>) in
      case echo_send_frame j PT_ALIVE_CHECK_REQUEST [] w1 of
        (Inl _, w2) \<Rightarrow> (Inr (e, True), w2)
      | (Inr _, w2) \<Rightarrow> (Inr (e, False), w2))"

definition echo_probe_end :: "nat \<Rightarrow> echo_world \<Rightarrow> echo_world" where
  "echo_probe_end j = upd_echo j (\<lambda>c. c\<lparr>ec_probe_pending := False, ec_event := None\<rparr>)"

section \<open>Handlers\<close>

definition echo_ra_response :: "echo_params \<Rightarrow> int \<Rightarrow> int \<Rightarrow> bytes res" where
  "echo_ra_response P src_addr code =
     ebind (pack_HH src_addr (p_ecu_addr P)) (\<lambda>addrs.
     ebind (py_bytes [code]) (\<lambda>c. Inr (addrs @ c @ [0, 0, 0, 0] @ [0, 0, 0, 0])))"

definition echo_accept :: "echo_params \<Rightarrow> nat \<Rightarrow> int \<Rightarrow> (echo_world, unit) py" where
  "echo_accept P i src_addr =
     seq (modify (upd_echo i (\<lambda>c. c\<lparr>ec_tester := Some src_addr, ec_activated := True\<rparr>)))
     (seq (modify (\<lambda>w. w\<lparr>ew_registry := echo_register src_addr i (ew_registry w)\<rparr>))
      (bnd (lift (echo_ra_response P src_addr 0x10)) (echo_send_frame i PT_ROUTING_ACT_RESPONSE)))"

text \<open>\<open>_handle_routing_activation\<close> up to the wait for a probe, and from there.\<close>

definition echo_handle_ra :: "echo_params \<Rightarrow> nat \<Rightarrow> bytes \<Rightarrow> (echo_world, unit) py" where
  "echo_handle_ra P i payload =
     (if length payload < 7 then bnd (lift (py_bytes [0x04])) (echo_send_frame i PT_HEADER_NACK)
      else bnd (lift (unpack_H (py_slice 0 2 payload))) (\<lambda>src_addr.
        bnd (gets (\<lambda>w. echo_lookup (ew_registry w) src_addr)) (\<lambda>existing.
        case existing of
          None \<Rightarrow> echo_accept P i src_addr
        | Some j \<Rightarrow>
            if j = i then echo_accept P i src_addr
            else bnd (echo_probe_begin j) (\<lambda>(e, failed).
              modify (upd_echo i (\<lambda>c. c\<lparr>ec_phase := Probing src_addr j e failed\<rparr>))))))"

definition echo_ra_resume :: "echo_params \<Rightarrow> nat \<Rightarrow> int \<Rightarrow> nat \<Rightarrow> bool \<Rightarrow> (echo_world, unit) py" where
  "echo_ra_resume P i src_addr j alive =
     seq (modify (echo_probe_end j))
      (if alive then bnd (lift (echo_ra_response P src_addr 0x03)) (echo_send_frame i PT_ROUTING_ACT_RESPONSE)
       else seq (modify (echo_evict j)) (echo_accept P i src_addr))"

definition echo_uds_response :: "py_conv \<Rightarrow> ydict \<Rightarrow> bytes \<Rightarrow> bytes \<Rightarrow> bytes res" where
  "echo_uds_response C config urandom req =
     (if 3 \<le> length req \<and> req ! 0 = 0x22 \<and> req ! 1 = 0xF1 \<and> req ! 2 = 0x90
      then ebind (echo_vin C config) (\<lambda>vin. Inr ([0x62, 0xF1, 0x90] @ vin))
      else case req of
        u # us \<Rightarrow> Inr ([u OR 0x40] @ us @ urandom)
      | [] \<Rightarrow> Inr urandom)"

definition echo_handle_diagnostic ::
    "py_conv \<Rightarrow> ydict \<Rightarrow> bytes \<Rightarrow> nat \<Rightarrow> bytes \<Rightarrow> (echo_world, unit) py" where
  "echo_handle_diagnostic C config urandom i payload =
     bnd (gets (\<lambda>w. ec_activated (ew_conns w i))) (\<lambda>activated.
     if \<not> activated then ret ()
     else if length payload < 4 then ret ()
     else
       bnd (lift (unpack_H (py_slice 0 2 payload))) (\<lambda>src.
       bnd (lift (unpack_H (py_slice 2 4 payload))) (\<lambda>tgt.
       let req = drop 4 payload in
       bnd (lift (ebind (pack_HH src tgt) (\<lambda>a. Inr (a @ [0x00])))) (\<lambda>ack_payload.
       seq (echo_send_frame i PT_DIAGNOSTIC_POSITIVE_ACK ack_payload)
       (bnd (lift (echo_uds_response C config urandom req)) (\<lambda>response_uds.
        bnd (lift (ebind (pack_HH tgt src) (\<lambda>a. Inr (a @ response_uds)))) (\<lambda>echo_payload.
        echo_send_frame i PT_DIAGNOSTIC_MESSAGE echo_payload)))))))"

definition echo_handle_alive_check :: "echo_params \<Rightarrow> nat \<Rightarrow> (echo_world, unit) py" where
  "echo_handle_alive_check P i =
     bnd (lift (pack_H (p_ecu_addr P))) (echo_send_frame i PT_ALIVE_CHECK_RESPONSE)"

definition echo_handle_entity_status :: "echo_params \<Rightarrow> nat \<Rightarrow> (echo_world, unit) py" where
  "echo_handle_entity_status P i =
     bnd (lift (ebind (py_bytes [p_node_type P, 1, 1]) (\<lambda>a. ebind (pack_uint 4 (p_max_data P)) (\<lambda>b. Inr (a @ b)))))
      (echo_send_frame i PT_ENTITY_STATUS_RESPONSE)"

definition echo_handle_power_mode :: "echo_params \<Rightarrow> nat \<Rightarrow> (echo_world, unit) py" where
  "echo_handle_power_mode P i =
     bnd (lift (py_bytes [p_power_mode P])) (echo_send_frame i PT_POWER_MODE_RESPONSE)"

text \<open>The answer to our own probe.\<close>

definition echo_alive_response :: "nat \<Rightarrow> echo_world \<Rightarrow> echo_world" where
  "echo_alive_response i w =
     (case ec_event (ew_conns w i) of
        Some e \<Rightarrow> if ec_probe_pending (ew_conns w i) then w\<lparr>ew_set := e # ew_set w\<rparr> else w
      | None \<Rightarrow> w)"

text \<open>One turn of \<open>_loop\<close> on a frame; the value tells whether the loop goes on.\<close>

definition echo_dispatch ::
    "py_conv \<Rightarrow> ydict \<Rightarrow> echo_params \<Rightarrow> bytes \<Rightarrow> nat \<Rightarrow> bytes \<Rightarrow> (echo_world, bool) py" where
  "echo_dispatch C config P urandom i raw_frame =
     bnd (lift (echo_ptype raw_frame)) (\<lambda>pt.
     let pload = echo_payload raw_frame in
     bnd (lift (py_index raw_frame 0)) (\<lambda>ver.
     bnd (lift (py_index raw_frame 1)) (\<lambda>inv.
     if uint ver \<notin> {0x02, 0x03} \<or> uint inv \<noteq> 0xFF XOR uint ver
     then seq (bnd (lift (py_bytes [0x00])) (echo_send_frame i PT_HEADER_NACK)) (ret False)
     else
       seq (if pt = PT_ROUTING_ACT_REQUEST then echo_handle_ra P i pload
            else if pt = PT_DIAGNOSTIC_MESSAGE then echo_handle_diagnostic C config urandom i pload
            else if pt = PT_ALIVE_CHECK_REQUEST then echo_handle_alive_check P i
            else if pt = PT_ALIVE_CHECK_RESPONSE then modify (echo_alive_response i)
            else if pt = PT_ENTITY_STATUS_REQUEST then echo_handle_entity_status P i
            else if pt = PT_POWER_MODE_REQUEST then echo_handle_power_mode P i
            else bnd (lift (py_bytes [0x01])) (echo_send_frame i PT_HEADER_NACK))
        (ret True))))"

text \<open>The end of \<open>run\<close>: the writer is closed at once; the registry entry goes when \<^verbatim>\<open>wait_closed\<close> is over.\<close>

definition echo_close :: "nat \<Rightarrow> echo_world \<Rightarrow> echo_world" where
  "echo_close i = upd_echo i (\<lambda>c. c\<lparr>ec_phase := Ending, ec_lost := True\<rparr>)"

definition echo_finish :: "nat \<Rightarrow> echo_world \<Rightarrow> echo_world" where
  "echo_finish i w = upd_echo i (\<lambda>c. c\<lparr>ec_phase := Done\<rparr>) (echo_unregister_own i w)"

definition echo_turn ::
    "py_conv \<Rightarrow> ydict \<Rightarrow> echo_params \<Rightarrow> bytes \<Rightarrow> nat \<Rightarrow> bytes \<Rightarrow> echo_world \<Rightarrow> echo_world" where
  "echo_turn C config P urandom i raw_frame w =
     (case echo_dispatch C config P urandom i raw_frame w of
        (Inr True, w') \<Rightarrow> w'
      | (_, w') \<Rightarrow> echo_close i w')"

definition echo_wake :: "echo_params \<Rightarrow> nat \<Rightarrow> int \<Rightarrow> nat \<Rightarrow> bool \<Rightarrow> echo_world \<Rightarrow> echo_world" where
  "echo_wake P i src_addr j alive w =
     (case echo_ra_resume P i src_addr j alive (upd_echo i (\<lambda>c. c\<lparr>ec_phase := Reading\<rparr>) w) of
        (Inr _, w') \<Rightarrow> w'
      | (Inl _, w') \<Rightarrow> echo_close i w')"

section \<open>The server\<close>

text \<open>The steps of a server with its peers. A reset may come at any time. A session ends when its
  stream does, inside a frame or between two, or when the connection is lost.\<close>

inductive echo_step :: "py_conv \<Rightarrow> ydict \<Rightarrow> echo_params \<Rightarrow> echo_world \<Rightarrow> echo_world \<Rightarrow> bool"
  for C config P where
  connect: "echo_step C config P w (w\<lparr>ew_next := ew_next w + 1\<rparr>)"
| feed: "i < ew_next w \<Longrightarrow> \<not> ec_eof (ew_conns w i) \<Longrightarrow>
    echo_step C config P w (upd_echo i (\<lambda>c. c\<lparr>ec_in := ec_in c @ bs\<rparr>) w)"
| peer_eof: "i < ew_next w \<Longrightarrow> echo_step C config P w (upd_echo i (\<lambda>c. c\<lparr>ec_eof := True\<rparr>) w)"
| reset: "i < ew_next w \<Longrightarrow> echo_step C config P w (upd_echo i (\<lambda>c. c\<lparr>ec_eof := True, ec_lost := True\<rparr>) w)"
| frame: "i < ew_next w \<Longrightarrow> ec_phase (ew_conns w i) = Reading \<Longrightarrow>
    echo_read_frame (ec_in (ew_conns w i)) = (Inr raw_frame, rest) \<Longrightarrow> length urandom = 4 \<Longrightarrow>
    echo_step C config P w (echo_turn C config P urandom i raw_frame (upd_echo i (\<lambda>c. c\<lparr>ec_in := rest\<rparr>) w))"
| stream_end: "i < ew_next w \<Longrightarrow> ec_phase (ew_conns w i) = Reading \<Longrightarrow>
    ec_lost (ew_conns w i) \<or> ec_eof (ew_conns w i) \<and> echo_read_frame (ec_in (ew_conns w i)) = (Inl e, rest) \<Longrightarrow>
    echo_step C config P w (echo_close i w)"
| probed: "i < ew_next w \<Longrightarrow> ec_phase (ew_conns w i) = Probing a j e failed \<Longrightarrow>
    (if alive then e \<in> set (ew_set w) \<and> \<not> failed else e \<notin> set (ew_set w) \<or> failed) \<Longrightarrow>
    echo_step C config P w (echo_wake P i a j alive w)"
| finish: "i < ew_next w \<Longrightarrow> ec_phase (ew_conns w i) = Ending \<Longrightarrow> echo_step C config P w (echo_finish i w)"

definition echo_reachable :: "py_conv \<Rightarrow> ydict \<Rightarrow> echo_params \<Rightarrow> echo_world \<Rightarrow> bool" where
  "echo_reachable C config P w \<longleftrightarrow> (echo_step C config P)\<^sup>*\<^sup>* new_echo_world w"

end
