(* ===== verification/Edge_Udp_Props.thy ===== *)
theory Edge_Udp_Props
  imports Edge_Udp Udp_Props Edge_Invariant Echo_Ecu
begin

text \<open>
  Discovery with all three programs on one segment: which frames a node sends because of a datagram, and
  that such answers die out after two steps whichever nodes receive them. Also that the EdgeNode's
  deferred responses stay within their bound and its Entity Status answer within its bytes.
\<close>

section \<open>Answers of a node\<close>

text \<open>A VirtualEcu with its number of registered sessions, an EdgeNode with its announcement payload and
  its number of open sockets, or an Echo ECU with its announcement payload.\<close>

datatype node = VEcu udp_protocol "nat option" | ENode edge_doip bytes nat | EchoN bytes

definition idle_udp :: udp_io where
  "idle_udp = \<lparr>u_transport = True, u_out = [], u_tasks = []\<rparr>"

definition idle_edge :: edge_udp where
  "idle_edge = \<lparr>eu_transport = Some 0, eu_out = [], eu_pending = [], eu_next = 0\<rparr>"

text \<open>Every frame a node sends because of a datagram, at once or after a delay.\<close>

fun node_answers :: "node \<Rightarrow> bytes \<Rightarrow> udp_addr \<Rightarrow> bytes list" where
  "node_answers (VEcu p r) data addr =
     (let s = snd (datagram_received p r data addr idle_udp) in
      map fst (u_out s)
      @ concat (map (\<lambda>(d, a, pt, req). map fst (u_out (snd (send_identification p None a pt req idle_udp)))) (u_tasks s)))"
| "node_answers (ENode dc payload n) data addr =
     (let s = snd (edge_datagram_received dc payload n data addr idle_edge) in
      map fst (eu_out s)
      @ concat (map (\<lambda>(h, _). map fst (eu_out (snd (fire_response payload h (s\<lparr>eu_out := []\<rparr>))))) (eu_pending s)))"
| "node_answers (EchoN payload) data addr =
     (case echo_datagram_received payload data addr of Inl e \<Rightarrow> [] | Inr xs \<Rightarrow> map fst xs)"

definition response_frame :: "int set \<Rightarrow> bytes \<Rightarrow> bool" where
  "response_frame T f \<longleftrightarrow>
     (\<exists>pt pl. pt \<in> T \<and> frame_args_ok pt pl 2 \<and> f = doip_header 2 pt (int (length pl)) @ pl
        \<and> (pt = PT_HEADER_NACK \<longrightarrow> length pl = 1))"

abbreviation RESPONSES :: "int set" where
  "RESPONSES \<equiv> set UDP_NEVER_NACK_TYPES"

lemma response_frameI:
  "pt \<in> T \<Longrightarrow> (pt = PT_HEADER_NACK \<Longrightarrow> length pl = 1) \<Longrightarrow> build_frame pt pl VER = Inr f \<Longrightarrow> response_frame T f"
  "pt \<in> T \<Longrightarrow> (pt = PT_HEADER_NACK \<Longrightarrow> length pl = 1) \<Longrightarrow> edge_build_frame pt pl 2 = Inr f \<Longrightarrow> response_frame T f"
  by (auto simp: response_frame_def virt_codec.build_Inr_iff edge_codec.build_Inr_iff VER_def)

lemma length_py_bytes: "py_bytes vs = Inr b \<Longrightarrow> length b = length vs"
  by (induction vs arbitrary: b) (auto simp: ebind_eq_Inr split: if_splits)

lemma reply_response:
  assumes "reply pt x addr s = (r, s')" "u_out s = []" "pt \<in> RESPONSES"
    "pt = PT_HEADER_NACK \<Longrightarrow> \<exists>c. x = py_bytes [c]" "(f, a) \<in> set (u_out s')"
  shows "response_frame RESPONSES f"
proof -
  from reply_out [OF assms(1)] assms(2,5) obtain p where p: "x = Inr p" "build_frame pt p VER = Inr f" by auto
  moreover have "length p = 1" if "pt = PT_HEADER_NACK" using assms(4) [OF that] p(1) by (auto dest!: sym [of "Inr p"] length_py_bytes simp del: py_bytes.simps)
  ultimately show ?thesis using assms(3) by (blast intro: response_frameI(1))
qed

lemma eu_send_response:
  assumes "eu_send pt p addr s = (r, s')" "eu_out s = []" "(f, a) \<in> set (eu_out s')" "pt \<in> T"
    "pt = PT_HEADER_NACK \<Longrightarrow> length p = 1"
  shows "response_frame T f"
  using assms by (auto simp: eu_send_def bnd_def split: if_splits sum.splits intro: response_frameI(2) [of pt])

lemma eu_reject_response:
  assumes "eu_reject c addr s = (r, s')" "eu_out s = []" "(f, a) \<in> set (eu_out s')" "PT_HEADER_NACK \<in> T"
  shows "response_frame T f"
  using assms
  by (auto simp: eu_reject_def bnd_def split: sum.splits elim!: eu_send_response dest!: length_py_bytes simp del: py_bytes.simps)

lemma idle_simps [simp]:
  "u_out idle_udp = []" "u_tasks idle_udp = []" "eu_out idle_edge = []" "eu_pending idle_edge = []" "eu_transport idle_edge = Some 0"
  by (simp_all add: idle_udp_def idle_edge_def)

section \<open>First step: answers are responses\<close>

lemma virt_answers_responses:
  assumes "f \<in> set (node_answers (VEcu p r) data addr)"
  shows "response_frame RESPONSES f"
proof -
  obtain res s where run: "datagram_received p r data addr idle_udp = (res, s)"
    by (cases "datagram_received p r data addr idle_udp")
  have rep: "response_frame RESPONSES g"
    if "reply pt x addr idle_udp = (res, s)" "(g, b) \<in> set (u_out s)" "pt \<in> RESPONSES"
      "pt = PT_HEADER_NACK \<Longrightarrow> \<exists>c. x = py_bytes [c]" for pt x g b
    by (rule reply_response [OF that(1) _ that(3,4,2)]) simp_all
  have now: "response_frame RESPONSES g" if "(g, b) \<in> set (u_out s)" for g b
    using run that rep [OF _ that] never_nack_types
    by (auto simp: datagram_received_def bnd_def schedule_identification_def Let_def payload_types simp del: py_bytes.simps
        split: if_splits sum.splits option.splits)
  have later: "response_frame RESPONSES g"
    if "(g, b) \<in> set (u_out (snd (send_identification p None a pt req idle_udp)))" for g a b pt req
  proof -
    have "reply PT_VEHICLE_ID_RESPONSE (Inr (u_payload p)) a idle_udp =
        (fst (reply PT_VEHICLE_ID_RESPONSE (Inr (u_payload p)) a idle_udp), snd (send_identification p None a pt req idle_udp))"
      by (simp add: send_identification_def)
    from reply_response [OF this _ never_nack_types(4) _ that] show ?thesis by (simp add: payload_types)
  qed
  show ?thesis using assms run now later by (auto simp: Let_def)
qed

lemma fire_response_frames:
  assumes "(g, b) \<in> set (eu_out (snd (fire_response payload h s)))" "eu_out s = []"
  shows "response_frame RESPONSES g"
proof -
  obtain r s' where run: "fire_response payload h s = (r, s')" by (cases "fire_response payload h s")
  have v: "response_frame RESPONSES g" if "eu_send PT_VEHICLE_ID_RESPONSE payload a s0 = (r, s')" "eu_out s0 = []" for a s0
    using eu_send_response [OF that _ never_nack_types(4)] assms(1) run by (auto simp: payload_types)
  show ?thesis
    using run assms v
    by (auto simp: fire_response_def split: option.splits if_splits)
qed

text \<open>The immediate answers of an EdgeNode, by what the datagram is.\<close>

lemma edge_immediate:
  assumes "edge_datagram_received dc payload n data addr idle_edge = (res, s)" "(g, b) \<in> set (eu_out s)"
  shows "response_frame RESPONSES g"
  using assms eu_reject_response [of _ addr idle_edge res s g b RESPONSES, OF _ _ _ never_nack_types(1)]
    eu_send_response [of PT_ENTITY_STATUS_RESPONSE _ addr idle_edge res s g b RESPONSES, OF _ _ _ never_nack_types(2)]
    eu_send_response [of PT_POWER_MODE_RESPONSE _ addr idle_edge res s g b RESPONSES, OF _ _ _ never_nack_types(3)]
  by (auto simp: edge_datagram_received_def Let_def bnd_def schedule_discovery_def payload_types simp del: py_bytes.simps
      split: if_splits option.splits sum.splits)

lemma echo_answers_responses:
  assumes "f \<in> set (node_answers (EchoN payload) data addr)"
  shows "response_frame RESPONSES f"
proof -
  from assms have "echo_build PT_VEHICLE_ID_RESPONSE payload VER = Inr f"
    by (auto simp: echo_datagram_received_def ebind_def split: if_splits sum.splits)
  then have "frame_args_ok PT_VEHICLE_ID_RESPONSE payload 2 \<and> f = doip_header 2 PT_VEHICLE_ID_RESPONSE (int (length payload)) @ payload"
    by (simp add: echo_codec.build_Inr_iff VER_def)
  moreover have "PT_VEHICLE_ID_RESPONSE \<noteq> PT_HEADER_NACK" by (simp add: payload_types)
  ultimately show ?thesis unfolding response_frame_def using never_nack_types(4) by blast
qed

lemma echo_ignores_responses:
  assumes "response_frame T f" "PT_VEHICLE_ID_REQUEST \<notin> T"
  shows "node_answers (EchoN payload) f addr = []"
  using assms by (auto simp: response_frame_def echo_datagram_received_def ebind_def frame_args_ok_def)

lemma answers_are_responses: "f \<in> set (node_answers nd data addr) \<Longrightarrow> response_frame RESPONSES f"
proof (cases nd)
  case (ENode dc payload n)
  assume f: "f \<in> set (node_answers nd data addr)"
  obtain res s where run: "edge_datagram_received dc payload n data addr idle_edge = (res, s)"
    by (cases "edge_datagram_received dc payload n data addr idle_edge")
  show ?thesis
    using f ENode run edge_immediate [OF run] fire_response_frames [of _ _ payload _ "s\<lparr>eu_out := []\<rparr>"]
    by (auto simp: Let_def)
qed (simp_all del: node_answers.simps add: virt_answers_responses echo_answers_responses)

section \<open>Second and third step\<close>

lemma header_bytes:
  "(doip_header 2 pt n @ pl) ! 0 = 2" "(doip_header 2 pt n @ pl) ! Suc 0 = 0xFD" "length (doip_header 2 pt n @ pl) = 8 + length pl"
  by (simp_all add: doip_header_def)

lemma edge_on_response:
  assumes f: "f = doip_header 2 pt (int (length pl)) @ pl" "frame_args_ok pt pl 2"
    and pt: "pt \<in> RESPONSES" "pt = PT_HEADER_NACK \<longrightarrow> length pl = 1"
  shows "edge_datagram_received dc payload n f addr s = (Inr (), s)
    \<or> (\<exists>c. edge_datagram_received dc payload n f addr s = eu_reject c addr s)
      \<and> \<not> (pt = PT_HEADER_NACK \<and> 1 \<le> edge_max_payload dc)"
proof -
  have slices: "from_be (py_slice 2 4 f) = pt" "from_be (py_slice 4 8 f) = int (length pl)"
    using f by (auto simp: frame_args_ok_def from_be_int_be)
  have bytes: "f ! 0 = 2" "f ! Suc 0 = 0xFD" "length f = 8 + length pl"
    using f(1) header_bytes [of pt "int (length pl)" pl] by auto
  have pts: "pt = 0 \<or> pt = 4 \<or> pt = 0x4002 \<or> pt = 0x4004"
    using pt(1) by (simp add: UDP_NEVER_NACK_TYPES_def payload_types)
  have xor: "(2 :: int) XOR 0xFF = 0xFD" by code_simp
  have eq: "edge_datagram_received dc payload n f addr s =
      (if \<not> source_allowed (fst addr) then (Inr (), s)
       else if pt = 0x4002 \<or> pt = 0x4004 then eu_reject 1 addr s
       else if edge_max_payload dc < int (length pl) then eu_reject 2 addr s
       else if pt = 4 \<and> int (length pl) \<notin> {32, 33} then eu_reject 4 addr s
       else (Inr (), s))"
    using pts pt(2)
    by (elim disjE)
      (simp_all add: edge_datagram_received_def Let_def slices bytes xor EDGE_UDP_PAYLOAD_LENGTHS_def payload_types)
  show ?thesis
    using pt(2) pts unfolding eq payload_types by (simp split: if_split) auto
qed

lemma responses_get_nacks:
  assumes "response_frame RESPONSES f" "g \<in> set (node_answers nd f addr)"
  shows "response_frame {PT_HEADER_NACK} g"
proof -
  obtain pt pl where f: "f = doip_header 2 pt (int (length pl)) @ pl" "frame_args_ok pt pl 2" "pt \<in> RESPONSES"
      "pt = PT_HEADER_NACK \<longrightarrow> length pl = 1"
    using assms(1) by (auto simp: response_frame_def)
  show ?thesis
  proof (cases nd)
    case (VEcu p r)
    have "build_frame pt pl VER = Inr f" using f by (simp add: virt_codec.build_Inr_iff VER_def)
    with assms(2) VEcu f(3) response_ignored [of pt pl f p r addr idle_udp] show ?thesis by (simp add: Let_def)
  next
    case (ENode dc payload n)
    obtain c where run: "edge_datagram_received dc payload n f addr idle_edge = (Inr (), idle_edge)
        \<or> edge_datagram_received dc payload n f addr idle_edge = eu_reject c addr idle_edge"
      using edge_on_response [OF f(1-2) f(3-4)] by blast
    obtain r s where rej: "eu_reject c addr idle_edge = (r, s)" by (cases "eu_reject c addr idle_edge")
    then have "eu_pending s = []"
      by (auto simp: eu_reject_def eu_send_def bnd_def simp del: py_bytes.simps split: sum.splits if_splits)
    moreover have "response_frame {PT_HEADER_NACK} h" if "(h, b) \<in> set (eu_out s)" for h b
      by (rule eu_reject_response [OF rej _ that]) simp_all
    ultimately show ?thesis using run assms(2) ENode rej by (auto simp: Let_def)
  next
    case (EchoN payload)
    have "PT_VEHICLE_ID_REQUEST \<notin> RESPONSES" by (simp add: UDP_NEVER_NACK_TYPES_def payload_types)
    with echo_ignores_responses [OF assms(1)] assms(2) EchoN show ?thesis by simp
  qed
qed

text \<open>An EdgeNode whose payload limit admits one byte; every loaded configuration has it.\<close>

definition node_ok :: "node \<Rightarrow> bool" where
  "node_ok nd = (case nd of VEcu p r \<Rightarrow> True | ENode dc payload n \<Rightarrow> 1 \<le> edge_max_payload dc | EchoN payload \<Rightarrow> True)"

lemma nacks_get_nothing:
  assumes "response_frame {PT_HEADER_NACK} f" "node_ok nd"
  shows "node_answers nd f addr = []"
proof -
  obtain pl where f: "f = doip_header 2 PT_HEADER_NACK (int (length pl)) @ pl" "frame_args_ok PT_HEADER_NACK pl 2" "length pl = 1"
    using assms(1) by (auto simp: response_frame_def)
  show ?thesis
  proof (cases nd)
    case (VEcu p r)
    have "build_frame PT_HEADER_NACK pl VER = Inr f" using f by (simp add: virt_codec.build_Inr_iff VER_def)
    with VEcu response_ignored [of PT_HEADER_NACK pl f p r addr idle_udp] never_nack_types(1) show ?thesis
      by (simp add: Let_def)
  next
    case (ENode dc payload n)
    with edge_on_response [OF f(1,2) never_nack_types(1), of dc payload n addr idle_edge] f(3) assms(2) show ?thesis
      by (auto simp: Let_def node_ok_def)
  next
    case (EchoN payload)
    have "PT_VEHICLE_ID_REQUEST \<notin> {PT_HEADER_NACK}" by (simp add: payload_types)
    with echo_ignores_responses [OF assms(1)] EchoN show ?thesis by simp
  qed
qed

text \<open>C38: discovery traffic dies out. Put any VirtualEcus, EdgeNodes and Echo ECUs on one segment and let any datagram
  arrive at one of them. Whatever is sent because of it, at once or deferred, is a response or a NACK;
  whatever another node sends because of that is a NACK; and no node reacts to it.\<close>

theorem discovery_quiesces:
  assumes "d1 \<in> set (node_answers n0 d0 a0)" "d2 \<in> set (node_answers n1 d1 a1)" "node_ok n2"
  shows "node_answers n2 d2 a2 = []"
  using assms answers_are_responses responses_get_nacks nacks_get_nothing by blast

text \<open>A power mode request, its answer, and the EdgeNode's NACK to that answer.\<close>

definition ex_virt :: node where
  "ex_virt = (case new_udp_protocol default_ecu_config [] 0 8 of Inr p \<Rightarrow> VEcu p (Some 0) | Inl e \<Rightarrow> ENode ex_edge_doip [] 0)"

theorem discovery_quiesces_witness:
  "[2, 0xFD, 0x40, 4, 0, 0, 0, 1, 1] \<in> set (node_answers ex_virt [2, 0xFD, 0x40, 3, 0, 0, 0, 0] (''10.0.0.5'', 40000, []))
   \<and> [2, 0xFD, 0, 0, 0, 0, 0, 1, 1] \<in> set (node_answers (ENode ex_edge_doip [] 0) [2, 0xFD, 0x40, 4, 0, 0, 0, 1, 1] (''10.0.0.7'', 13400, []))
   \<and> node_answers ex_virt [2, 0xFD, 0, 0, 0, 0, 0, 1, 1] (''10.0.0.8'', 13400, []) = []"
proof -
  have "[2, 0xFD, 0x40, 4, 0, 0, 0, 1, 1] \<in> set (node_answers ex_virt [2, 0xFD, 0x40, 3, 0, 0, 0, 0] (''10.0.0.5'', 40000, []))"
    by code_simp
  moreover have "[2, 0xFD, 0, 0, 0, 0, 0, 1, 1]
      \<in> set (node_answers (ENode ex_edge_doip [] 0) [2, 0xFD, 0x40, 4, 0, 0, 0, 1, 1] (''10.0.0.7'', 13400, []))"
    by code_simp
  moreover have "node_ok ex_virt" by code_simp
  ultimately show ?thesis using discovery_quiesces by blast
qed

section \<open>Bounds\<close>

lemma eu_send_pending [simp]: "eu_pending (snd (eu_send pt pl addr s)) = eu_pending s"
  by (simp add: eu_send_def bnd_def split: sum.split)

lemma eu_reject_pending [simp]: "eu_pending (snd (eu_reject c addr s)) = eu_pending s"
  by (simp add: eu_reject_def bnd_def del: py_bytes.simps split: sum.split)

definition pending_ok :: "edge_udp \<Rightarrow> bool" where
  "pending_ok s \<longleftrightarrow> length (eu_pending s) \<le> MAX_PENDING_RESPONSES"

lemma keeps_pending [keeps_rules]:
  "keeps pending_ok (eu_send pt pl addr)" "keeps pending_ok (eu_reject c addr)"
  "keeps pending_ok (modify (schedule_discovery addr))"
  by (auto simp: keeps_def pending_ok_def schedule_discovery_def split: option.split)

lemma pending_bounded: "keeps pending_ok (edge_datagram_received dc payload n data addr)"
  unfolding edge_datagram_received_def Let_def
  by (intro keeps_rules)

text \<open>In every state the EdgeNode can reach its Entity Status answer has its three bytes, and
  reports at most one socket more than its maximum, the one reserved for activation decisions.\<close>

lemma edge_status_fits:
  assumes "(edge_step dc)\<^sup>*\<^sup>* new_edge w" "0 \<le> edge_node_type dc" "edge_node_type dc \<le> 255"
    "0 \<le> max_connections dc" "max_connections dc \<le> 254"
  shows "\<exists>b. status_payload dc (length (open_sockets w)) = Inr b \<and> length b = 3 \<and> uint (b ! 2) \<le> uint (b ! 1) + 1"
proof -
  have "int (length (open_sockets w)) \<le> max_connections dc + 1"
    using edge_reachable_inv [OF assms(1,4)] by (simp add: edge_inv_def reg_inv_def)
  moreover define k where "k = int (length (open_sockets w))"
  ultimately have "0 \<le> k" "k \<le> max_connections dc + 1" by simp_all
  with assms show ?thesis unfolding status_payload_def k_def [symmetric] by (auto simp: word_of_int_inverse)
qed

end
