(* ===== verification/Edge_Config_Props.thy ===== *)
theory Edge_Config_Props
  imports Edge_Config_Load Edge_Udp_Props
begin

text \<open>
  What the EdgeNode's loader guarantees, and that it is what the other components rely on: the
  announcement payload can always be built, the routing table is unambiguous, timeouts are positive,
  and the connection limit leaves room for the reserve socket in one byte.
\<close>

section \<open>Well-formed configurations\<close>

definition edge_doip_ok :: "edge_doip \<Rightarrow> bool" where
  "edge_doip_ok c \<longleftrightarrow>
     length (edge_doip.vin c) = 17 \<and> ascii_text (edge_doip.vin c) \<and> hex12 (edge_doip.eid c) \<and> hex12 (edge_doip.gid c)
     \<and> edge_node_type c \<in> {0, 1} \<and> edge_power_mode c \<in> {0, 1, 2}
     \<and> 1 \<le> node_logical_addr c \<and> node_logical_addr c \<le> 65535
     \<and> 1 \<le> edge_max_payload c \<and> edge_max_payload c \<le> 0xFFFFFFFF \<and> 1 \<le> max_connections c \<and> max_connections c \<le> 254
     \<and> (\<forall>a. is_tester_allowed c a \<longrightarrow> addr16 a)"

definition port_ok :: "int \<Rightarrow> bool" where
  "port_ok p \<longleftrightarrow> 1 \<le> p \<and> p \<le> 65535"

definition timers_ok :: "timer_config \<Rightarrow> bool" where
  "timers_ok t \<longleftrightarrow>
     0 < t_tcp_initial_inactivity_s t \<and> 0 < t_tcp_general_inactivity_s t \<and> 0 < alive_check_interval_ms t
     \<and> 0 < ecu_response_timeout_s t \<and> 0 < ecu_pending_max_wait_s t"

definition routing_ok :: "py_lib \<Rightarrow> network_config \<Rightarrow> routing_entry list \<Rightarrow> bool" where
  "routing_ok L nw es \<longleftrightarrow>
     distinct (map re_logical_addr es)
     \<and> (\<forall>e \<in> set es. port_ok (re_logical_addr e) \<and> port_ok (re_port_plain e) \<and> port_ok (re_port_tls e) \<and> lib_ipv6 L (re_ipv6 e)
          \<and> re_interface e \<in> {tester_interface nw, ecu_interface nw})"

definition edge_config_ok :: "py_lib \<Rightarrow> app_config \<Rightarrow> bool" where
  "edge_config_ok L c \<longleftrightarrow>
     edge_doip_ok (ac_doip c) \<and> timers_ok (ac_timers c) \<and> port_ok (doip_plain (ac_ports c)) \<and> port_ok (doip_tls (ac_ports c))
     \<and> lib_ipv4 L (tester_ipv4 (ac_network c)) \<and> tls_version (ac_tls c) = ''TLSv1.3''
     \<and> 1 \<le> edge_announce_count (ac_udp c) \<and> 1 \<le> edge_announce_interval_ms (ac_udp c)
     \<and> routing_ok L (ac_network c) (ac_routing c) \<and> (\<forall>m \<in> set (ac_middleware c). mwc_type m \<in> set VALID_MIDDLEWARE_TYPES)"

section \<open>The loader establishes it\<close>

lemma bounded_Inr: "bounded lo hi v = Inr r \<Longrightarrow> lo \<le> r \<and> (\<forall>h. hi = Some h \<longrightarrow> r \<le> h)"
  by (auto simp: bounded_def ebind_eq_Inr)

lemma positive_Inr: "positive_number L v = Inr r \<Longrightarrow> 0 < r"
  by (auto simp: positive_number_def split: option.splits if_splits)

lemma ip_Inr: "ipv4_value L v = Inr s \<Longrightarrow> lib_ipv4 L s" "ipv6_value L v = Inr s \<Longrightarrow> lib_ipv6 L s"
  by (auto simp: ipv4_value_def ipv6_value_def ebind_eq_Inr)

lemmas loaded_values = bounded_Inr positive_Inr ip_Inr

lemma load_network_ok: "load_network L d = Inr n \<Longrightarrow> lib_ipv4 L (tester_ipv4 n)"
  by (auto simp: load_network_def ebind_eq_Inr dest!: loaded_values)

lemma load_ports_ok: "load_ports d = Inr p \<Longrightarrow> port_ok (doip_plain p) \<and> port_ok (doip_tls p)"
  by (auto simp: load_ports_def port_ok_def ebind_eq_Inr dest!: loaded_values)

lemma load_tls_ok: "load_tls d = Inr t \<Longrightarrow> tls_version t = ''TLSv1.3''"
  by (auto simp: load_tls_def ebind_eq_Inr)

lemma load_edge_doip_ok: "load_edge_doip d = Inr c \<Longrightarrow> edge_doip_ok c"
  by (auto simp: load_edge_doip_def edge_doip_ok_def ebind_eq_Inr is_tester_allowed_def addr16_def list_all_iff
      dest!: loaded_values split: if_splits)

lemma load_timers_ok: "load_timers L d = Inr t \<Longrightarrow> timers_ok t"
  by (auto simp: load_timers_def timers_ok_def ebind_eq_Inr dest!: loaded_values)

lemma load_edge_udp_ok: "load_edge_udp d = Inr u \<Longrightarrow> 1 \<le> edge_announce_count u \<and> 1 \<le> edge_announce_interval_ms u"
  by (auto simp: load_edge_udp_def ebind_eq_Inr dest!: loaded_values)

lemma load_routing_entry_ok:
  "load_routing_entry L nw seen v = Inr e \<Longrightarrow>
   re_logical_addr e \<notin> set seen \<and> port_ok (re_logical_addr e) \<and> port_ok (re_port_plain e) \<and> port_ok (re_port_tls e)
   \<and> lib_ipv6 L (re_ipv6 e) \<and> re_interface e \<in> {tester_interface nw, ecu_interface nw}"
  by (auto simp: load_routing_entry_def port_ok_def ebind_eq_Inr dest!: loaded_values)

lemma load_routing_entries_ok: "load_routing_entries L nw vs es = Inr rs \<Longrightarrow> routing_ok L nw es \<Longrightarrow> routing_ok L nw rs"
proof (induction vs arbitrary: es)
  case (Cons v vs)
  then obtain e where e: "load_routing_entry L nw (map re_logical_addr es) v = Inr e"
      and rest: "load_routing_entries L nw vs (es @ [e]) = Inr rs"
    by (auto simp: ebind_eq_Inr)
  have "routing_ok L nw (es @ [e])"
    using Cons.prems(2) load_routing_entry_ok [OF e] by (auto simp: routing_ok_def)
  with Cons.IH rest show ?case by blast
qed simp

lemma map_res_Inr: "map_res f xs = Inr ys \<Longrightarrow> y \<in> set ys \<Longrightarrow> \<exists>x \<in> set xs. f x = Inr y"
  by (induction xs arbitrary: ys) (auto simp: ebind_eq_Inr)

lemma load_middleware_ok: "load_middleware L v = Inr ms \<Longrightarrow> m \<in> set ms \<Longrightarrow> mwc_type m \<in> set VALID_MIDDLEWARE_TYPES"
  by (auto simp: load_middleware_def load_middleware_entry_def ebind_eq_Inr split: yaml.splits dest!: map_res_Inr)

lemma edge_load_config_ok:
  assumes "edge_load_config L tree = Inr c"
  shows "edge_config_ok L c"
proof -
  obtain d1 d2 d3 d4 d5 d6 v1 v2 where l: "load_network L d1 = Inr (ac_network c)" "load_ports d2 = Inr (ac_ports c)" "load_tls d3 = Inr (ac_tls c)"
      "load_edge_doip d4 = Inr (ac_doip c)" "load_timers L d5 = Inr (ac_timers c)" "load_edge_udp d6 = Inr (ac_udp c)"
      "load_routing_table L v1 (ac_network c) = Inr (ac_routing c)" "load_middleware L v2 = Inr (ac_middleware c)"
    using assms by (auto simp: edge_load_config_def ebind_eq_Inr)
  have "routing_ok L (ac_network c) (ac_routing c)"
    using l(7) load_routing_entries_ok [of L "ac_network c" _ "[]"]
    by (auto simp: load_routing_table_def routing_ok_def split: yaml.splits)
  with load_network_ok [OF l(1)] load_ports_ok [OF l(2)] load_tls_ok [OF l(3)] load_edge_doip_ok [OF l(4)]
    load_timers_ok [OF l(5)] load_edge_udp_ok [OF l(6)] load_middleware_ok [OF l(8)]
  show ?thesis by (simp add: edge_config_ok_def)
qed

section \<open>Every complaint is a \<open>ConfigError\<close>\<close>

lemma complains_edge_values [complains_rules]:
  "complains E (edge_to_int v)" "complains E (strict_bool v)" "complains E (string_value b v)" "complains E (require d k)"
  "complains E (mapping v)"
  by (cases v; auto simp: string_value_def require_def mapping_def intro!: complains_rules split: option.split)+

lemma complains_numbers [complains_rules]:
  "complains E (positive_number L v)" "complains E (nonnegative_number L v)" "complains E (bounded lo hi v)"
  "complains E (ipv4_value L v)" "complains E (ipv6_value L v)"
  by (auto simp: positive_number_def nonnegative_number_def bounded_def ipv4_value_def ipv6_value_def
      intro!: complains_rules split: option.split)

lemma complains_edge_list [complains_rules]: "complains E (edge_to_int_list v)"
  by (cases v) (auto intro!: complains_map_res complains_rules)

lemma complains_edge_sections [complains_rules]:
  "complains E (load_network L d)" "complains E (load_ports d)" "complains E (load_edge_doip d)" "complains E (load_timers L d)"
  "complains E (load_edge_udp d)" "complains E (load_routing_entry L nw seen v)" "complains E (section_required d k)"
  unfolding load_network_def load_ports_def load_edge_doip_def load_timers_def load_edge_udp_def load_routing_entry_def
    section_required_def
  by (intro complains_rules)+

lemma complains_tls [complains_rules]: "complains E (load_tls d)"
  unfolding load_tls_def
  by (intro complains_rules) (auto intro!: complains_rules complains_map_res split: yaml.split)

lemma complains_routing [complains_rules]: "complains E (load_routing_table L v nw)"
proof -
  have "complains E (load_routing_entries L nw vs es)" for vs es
    by (induction vs arbitrary: es) (auto intro!: complains_rules)
  then show ?thesis by (auto simp: load_routing_table_def intro!: complains_rules split: yaml.split)
qed

lemma complains_with_param [complains_rules]: "(\<And>v. complains E (f v)) \<Longrightarrow> complains E (with_param k f p)"
  by (auto simp: with_param_def intro!: complains_rules split: option.split)

lemma complains_params [complains_rules]:
  "complains E (int_param lo hi b v)" "complains E (string_param v)" "complains E (bool_param v)" "complains E (rate_param L v)"
  "complains E (choice_param xs v)"
  unfolding int_param_def string_param_def bool_param_def rate_param_def choice_param_def
  by (intro complains_rules)+

lemma complains_match [complains_rules]: "complains E (validate_match v)"
  unfolding validate_match_def by (intro complains_rules)

lemma complains_coerce [complains_rules]: "complains E (coerce_fields fs p)"
  by (induction fs p rule: coerce_fields.induct) (auto intro!: complains_rules)

lemma complains_check_params [complains_rules]: "complains E (check_params L t p)"
  unfolding check_params_def by (intro complains_rules)

lemma complains_middleware [complains_rules]: "complains E (load_middleware L v)"
proof -
  have "complains E (load_middleware_entry L x)" for x
    unfolding load_middleware_entry_def by (intro complains_rules)
  then show ?thesis by (auto simp: load_middleware_def intro!: complains_map_res complains_rules split: yaml.split)
qed

lemma complains_edge_load: "complains {} (edge_load_config L tree)"
  unfolding edge_load_config_def by (intro complains_rules)

section \<open>The announcement can always be built\<close>

lemma lower_hex: "map lower_char ''ABCDEF'' = ''abcdef''"
  by code_simp

lemmas lower_hex_chars = lower_hex [simplified]

lemma lower_id: "(of_char c :: nat) < 65 \<or> 90 < (of_char c :: nat) \<Longrightarrow> lower_char c = c"
  by (auto simp: lower_char_def Let_def)

lemma hex_digit:
  assumes "c \<in> set ''0123456789abcdefABCDEF''"
  shows "\<exists>v. digit_val c = Some v \<and> v < 16 \<and> \<not> is_ws c"
proof -
  have "list_all (\<lambda>c. case digit_val c of None \<Rightarrow> False | Some v \<Rightarrow> v < 16 \<and> \<not> is_ws c) ''0123456789abcdefABCDEF''"
    by (simp add: digit_val_def lower_hex_chars lower_id is_ws_def Let_def)
  from bspec [OF this [unfolded list_all_iff] assms] show ?thesis by (cases "digit_val c") auto
qed

lemma fromhex_digits:
  "list_all (\<lambda>c. c \<in> set ''0123456789abcdefABCDEF'') s \<Longrightarrow> length s = 2 * n \<Longrightarrow> \<exists>b. fromhex s = Some b \<and> length b = n"
proof (induction n arbitrary: s)
  case (Suc n)
  then obtain c c' cs where s: "s = c # c' # cs"
    by (cases s; cases "tl s") auto
  from Suc.IH [of cs] Suc.prems s obtain b where "fromhex cs = Some b" "length b = n"
    by (auto simp del: set_simps)
  moreover obtain v v' where "digit_val c = Some v" "v < 16" "\<not> is_ws c" "digit_val c' = Some v'" "v' < 16"
    using Suc.prems(1) s hex_digit [of c] hex_digit [of c'] by (auto simp del: set_simps)
  ultimately show ?case by (simp add: s)
qed simp

lemma hex12_fromhex: "hex12 s \<Longrightarrow> \<exists>b. py_fromhex s = Inr b \<and> length b = 6"
  using fromhex_digits [of s 6] by (auto simp: hex12_def py_fromhex_def simp del: set_simps)

lemma edge_announcement_ok:
  assumes "edge_doip_ok dc"
  shows "\<exists>p. edge_announcement_payload dc = Inr p \<and> length p = 33 \<and> py_slice 0 17 p = encode_ascii (edge_doip.vin dc)
    \<and> from_be (py_slice 17 19 p) = node_logical_addr dc \<and> fromhex (edge_doip.eid dc) = Some (py_slice 19 25 p)"
proof -
  have ok: "length (encode_ascii (edge_doip.vin dc)) = 17" "ascii_text (edge_doip.vin dc)" "hex12 (edge_doip.eid dc)"
      "hex12 (edge_doip.gid dc)" "0 \<le> node_logical_addr dc" "node_logical_addr dc < 65536"
    using assms by (auto simp: edge_doip_ok_def encode_ascii_def)
  from hex12_fromhex [OF ok(3)] hex12_fromhex [OF ok(4)] obtain e g where
    eg: "py_fromhex (edge_doip.eid dc) = Inr e" "length e = 6" "py_fromhex (edge_doip.gid dc) = Inr g" "length g = 6" by blast
  from eg(1) have fe: "fromhex (edge_doip.eid dc) = Some e" by (auto simp: py_fromhex_def split: option.splits)
  have "edge_announcement_payload dc =
      Inr (encode_ascii (edge_doip.vin dc) @ int_be 2 (node_logical_addr dc) @ e @ g @ [0, 0])"
    using ok eg by (simp add: edge_announcement_payload_def pack_uint_def)
  with ok eg fe show ?thesis by (auto simp: py_slice_def from_be_int_be)
qed

section \<open>The theorem\<close>

text \<open>C39: for every YAML tree the EdgeNode's loader returns a configuration or raises \<open>ConfigError\<close>. What it
  returns is well-formed: addresses, ports, limits and timeouts are in range, every accepted tester
  address has 16 bits, no two routes are for the same ECU, so each route is the one a lookup finds,
  and the node's announcement can always be built: 33 bytes with VIN, logical address and EID in their places.\<close>

theorem edge_loaded_config_ok:
  "case edge_load_config L tree of
     Inl e \<Rightarrow> e = ConfigError
   | Inr c \<Rightarrow> edge_config_ok L c
       \<and> (\<forall>r \<in> set (ac_routing c). lookup_by_ecu_addr (ac_routing c) (re_logical_addr r) = Some r)
       \<and> (\<exists>p. edge_announcement_payload (ac_doip c) = Inr p \<and> length p = 33
            \<and> py_slice 0 17 p = encode_ascii (edge_doip.vin (ac_doip c))
            \<and> from_be (py_slice 17 19 p) = node_logical_addr (ac_doip c)
            \<and> fromhex (edge_doip.eid (ac_doip c)) = Some (py_slice 19 25 p))"
proof (cases "edge_load_config L tree")
  case (Inl e)
  with complains_edge_load [of L tree] show ?thesis by (simp add: complains_def)
next
  case (Inr c)
  from edge_load_config_ok [OF Inr] have ok: "edge_config_ok L c" .
  have "lookup_by_ecu_addr es (re_logical_addr r) = Some r" if "r \<in> set es" "distinct (map re_logical_addr es)" for es r
    using that by (induction es) auto
  with ok edge_announcement_ok [of "ac_doip c"] Inr show ?thesis
    by (simp add: edge_config_ok_def routing_ok_def)
qed

text \<open>A small configuration, and what the loader makes of it.\<close>

definition ex_lib :: py_lib where
  "ex_lib = \<lparr>lib_float = (\<lambda>s. None), lib_ipv4 = (\<lambda>s. parse_ipv4 s \<noteq> None), lib_ipv6 = (\<lambda>s. s = ''fd00::2'')\<rparr>"

definition ystr :: "string \<Rightarrow> yaml \<Rightarrow> yaml \<times> yaml" where
  "ystr k v = (YStr k, v)"

definition ex_edge_tree :: yaml where
  "ex_edge_tree = YMap
     [ystr ''network'' (YMap [ystr ''tester_interface'' (YStr ''eth0''), ystr ''tester_ipv4'' (YStr ''10.0.0.1''), ystr ''ecu_interface'' (YStr ''eth1'')]),
      ystr ''ports'' (YMap [ystr ''doip_plain'' (YInt 13400), ystr ''doip_tls'' (YInt 3496)]),
      ystr ''tls'' (YMap [ystr ''tls_version'' (YStr ''TLSv1.3''), ystr ''server_cert'' (YStr ''a''), ystr ''server_key'' (YStr ''b''),
        ystr ''client_cert'' (YStr ''c''), ystr ''client_key'' (YStr ''d''), ystr ''ca_cert'' (YStr ''e'')]),
      ystr ''doip'' (YMap [ystr ''vin'' (YStr ''WVWZZZ1JZXW000001''), ystr ''eid'' (YStr ''001122334455''), ystr ''gid'' (YStr ''001122334455''),
        ystr ''node_type'' (YInt 0), ystr ''power_mode'' (YInt 1), ystr ''max_payload_bytes'' (YStr ''0x1000'')]),
      ystr ''timers'' (YMap [ystr ''t_tcp_initial_inactivity_s'' (YFloat (Some 2)), ystr ''t_tcp_general_inactivity_s'' (YFloat (Some 300))]),
      ystr ''udp'' (YMap [ystr ''announce_count'' (YInt 3), ystr ''announce_interval_ms'' (YInt 500)]),
      ystr ''routing_table'' (YList [YMap [ystr ''ecu_logical_addr'' (YStr ''0x0003''), ystr ''ecu_ipv6'' (YStr ''fd00::2''),
        ystr ''ecu_interface'' (YStr ''eth1''), ystr ''ecu_port_plain'' (YInt 13400), ystr ''ecu_port_tls'' (YInt 3496)]])]"

lemma ex_ints: "int_text ''0x1000'' = Some 4096" "int_text ''0x0003'' = Some 3"
  by code_simp+

lemma ex_ip: "parse_ipv4 ''10.0.0.1'' = Some [10, 0, 0, 1]"
  by code_simp

lemma ex_edge_tree_loads:
  "case edge_load_config ex_lib ex_edge_tree of
     Inl e \<Rightarrow> False
   | Inr c \<Rightarrow> edge_max_payload (ac_doip c) = 4096 \<and> map re_logical_addr (ac_routing c) = [3] \<and> max_connections (ac_doip c) = 8"
  by (simp add: ex_edge_tree_def ystr_def edge_load_config_def section_required_def require_def mapping_def guard_def load_network_def
      load_ports_def load_tls_def load_edge_doip_def load_timers_def load_edge_udp_def load_routing_table_def load_routing_entry_def
      load_middleware_def string_value_def ipv4_value_def ipv6_value_def bounded_def positive_number_def get_def ex_lib_def
      py_strip_def strip_by_def is_space_def is_ws_def hex12_def ascii_text_def DEFAULT_TESTER_ADDR_RANGE_def
      DEFAULT_NODE_LOGICAL_ADDR_def ex_ints ex_ip)

theorem edge_loaded_config_ok_witness:
  "\<exists>c p. edge_load_config ex_lib ex_edge_tree = Inr c \<and> edge_config_ok ex_lib c \<and> map re_logical_addr (ac_routing c) = [3]
    \<and> edge_announcement_payload (ac_doip c) = Inr p \<and> length p = 33"
  using edge_loaded_config_ok [of ex_lib ex_edge_tree] ex_edge_tree_loads by (auto split: sum.splits)

end
