(* ===== verification/Edge_Middleware.thy ===== *)
theory Edge_Middleware
  imports Complex_Main Edge_Frame
begin

text \<open>
  The middleware chain of the EdgeNode (\<^verbatim>\<open>doip_edgenode/middleware\<close>): what each middleware
  does with one packet, the state it keeps from packet to packet, and how the chain composes
  them. Packets are Scapy objects; Scapy is not part of the program, so its operations are the
  fields of the argument \<open>S\<close>. The draws of \<^verbatim>\<open>random\<close>, the sleep and \<open>session.send_to_ecu\<close>, which
  the replay middleware calls, are arguments too.
\<close>

section \<open>The environment of a middleware\<close>

text \<open>\<^verbatim>\<open>DoIP(raw)\<close>, \<^verbatim>\<open>bytes(pkt)\<close>, \<^verbatim>\<open>getattr(pkt, "payload_type", None)\<close> and \<^verbatim>\<open>setattr\<close> of the
  fields the middlewares write.\<close>

datatype doip_field = FVersion | FInverse | FType | FLength | FSource | FTarget

record 'k scapy =
  dissect :: "bytes \<Rightarrow> 'k"
  ser :: "'k \<Rightarrow> bytes res"
  get_ptype :: "'k \<Rightarrow> int option"
  set_field :: "doip_field \<Rightarrow> int \<Rightarrow> 'k \<Rightarrow> 'k res"

record draws =
  random_float :: rat
  randint :: "int \<Rightarrow> int \<Rightarrow> int"

record ('s, 'k) mw_env =
  env_draws :: draws
  env_sleep :: "int \<Rightarrow> 's \<Rightarrow> 's"
  send_to_ecu :: "'k \<Rightarrow> ('s, unit) py"

section \<open>The middlewares\<close>

datatype fault_mode = wrong_version | bad_inverse | bad_length | unknown_type

text \<open>\<open>HeaderFaultMiddleware\<close>: mode, direction, \<open>inject_on_nth\<close>, counter.\<close>

record header_fault =
  hf_fault :: fault_mode
  hf_direction :: string
  inject_on_nth :: int
  hf_counter :: int

definition should_inject :: "string \<Rightarrow> header_fault \<Rightarrow> bool \<times> header_fault" where
  "should_inject direction h =
     (if hf_direction h \<noteq> ''both'' \<and> direction \<noteq> hf_direction h then (False, h)
      else let h' = h\<lparr>hf_counter := hf_counter h + 1\<rparr> in
        if hf_counter h' \<ge> inject_on_nth h' then (True, h'\<lparr>hf_counter := 0\<rparr>) else (False, h'))"

definition apply_fault :: "'k scapy \<Rightarrow> fault_mode \<Rightarrow> 'k \<Rightarrow> 'k res" where
  "apply_fault S f pkt =
     ebind (ser S pkt) (\<lambda>raw.
     let corrupted = dissect S raw in
     case f of
       wrong_version \<Rightarrow> set_field S FVersion 0xFF corrupted
     | bad_inverse \<Rightarrow> set_field S FInverse 0x00 corrupted
     | bad_length \<Rightarrow> set_field S FLength 0xFFFFFFFF corrupted
     | unknown_type \<Rightarrow> set_field S FType 0xDEAD corrupted)"

definition header_fault_process :: "'k scapy \<Rightarrow> string \<Rightarrow> 'k \<Rightarrow> header_fault \<Rightarrow> 'k option res \<times> header_fault" where
  "header_fault_process S direction pkt h =
     (case should_inject direction h of
        (False, h') \<Rightarrow> (Inr (Some pkt), h')
      | (True, h') \<Rightarrow> (ebind (apply_fault S (hf_fault h') pkt) (\<lambda>p. Inr (Some p)), h'))"

record drop_mw =
  drop_rate :: rat
  match_direction :: "string option"
  match_payload_type :: "int option"

definition drop_matches :: "'k scapy \<Rightarrow> string \<Rightarrow> 'k \<Rightarrow> drop_mw \<Rightarrow> bool" where
  "drop_matches S direction pkt m =
     (if match_direction m \<noteq> None \<and> Some direction \<noteq> match_direction m then False
      else if match_payload_type m \<noteq> None \<and> get_ptype S pkt \<noteq> match_payload_type m then False
      else True)"

definition drop_process :: "'k scapy \<Rightarrow> draws \<Rightarrow> string \<Rightarrow> 'k \<Rightarrow> drop_mw \<Rightarrow> 'k option" where
  "drop_process S R direction pkt m =
     (if drop_matches S direction pkt m \<and> random_float R < drop_rate m then None else Some pkt)"

record corrupt_mw =
  byte_offset :: "int option"
  flip_mask :: int

definition corrupt_process :: "'k scapy \<Rightarrow> draws \<Rightarrow> 'k \<Rightarrow> corrupt_mw \<Rightarrow> 'k" where
  "corrupt_process S R pkt m =
     (case ser S pkt of
        Inl _ \<Rightarrow> pkt
      | Inr raw \<Rightarrow>
          let payload = drop 8 raw in
          if payload = [] then pkt
          else case byte_offset m of
              None \<Rightarrow> let offset = nat (randint R 0 (int (length payload) - 1)) in
                dissect S (take 8 raw @ payload[offset := payload ! offset XOR word_of_int (flip_mask m)])
            | Some off \<Rightarrow> if off \<ge> int (length payload) then pkt
                else let offset = nat off in
                  dissect S (take 8 raw @ payload[offset := payload ! offset XOR word_of_int (flip_mask m)]))"

record address_mw =
  src_override :: "int option"
  tgt_override :: "int option"

definition override_field :: "'k scapy \<Rightarrow> doip_field \<Rightarrow> int option \<Rightarrow> 'k \<Rightarrow> 'k" where
  "override_field S f v pkt =
     (case v of None \<Rightarrow> pkt
      | Some a \<Rightarrow> (case set_field S f a pkt of Inl _ \<Rightarrow> pkt | Inr pkt' \<Rightarrow> pkt'))"

definition address_process :: "'k scapy \<Rightarrow> 'k \<Rightarrow> address_mw \<Rightarrow> 'k" where
  "address_process S pkt m = override_field S FTarget (tgt_override m) (override_field S FSource (src_override m) pkt)"

record delay_mw =
  delay_ms :: int
  jitter_ms :: int

definition delay_total :: "draws \<Rightarrow> delay_mw \<Rightarrow> int" where
  "delay_total R m = delay_ms m + randint R 0 (max 0 (jitter_ms m))"

definition delay_process :: "('s, 'k) mw_env \<Rightarrow> delay_mw \<Rightarrow> 's \<Rightarrow> 's" where
  "delay_process E m s =
     (let total = delay_total (env_draws E) m in if total > 0 then env_sleep E total s else s)"

record 'k replay_mw =
  recording :: bool
  replay_count :: int
  recorded :: "'k list"
  replayed :: bool

text \<open>\<open>_replay\<close>: each packet goes out on its own; an injection that fails is logged.\<close>

fun replay_all :: "('k \<Rightarrow> ('s, unit) py) \<Rightarrow> 'k list \<Rightarrow> ('s, unit) py" where
  "replay_all send [] = ret ()"
| "replay_all send (p # ps) =
     seq (try_catch (send p) (\<lambda>e. if is_Exception e then ret () else raise e)) (replay_all send ps)"

definition replay_process ::
    "('s, 'k) mw_env \<Rightarrow> string \<Rightarrow> 'k \<Rightarrow> 'k replay_mw \<Rightarrow> 's \<Rightarrow> ('k option res \<times> 'k replay_mw) \<times> 's" where
  "replay_process E direction pkt m s =
     (if \<not> recording m then ((Inr (Some pkt), m), s)
      else if direction = ''tester_to_ecu'' \<and> \<not> replayed m
      then let m' = m\<lparr>recorded := recorded m @ [pkt]\<rparr> in
        if int (length (recorded m')) \<ge> replay_count m'
        then let m'' = m'\<lparr>replayed := True\<rparr> in
          (case replay_all (send_to_ecu E) (recorded m'') s of
             (Inl e, s') \<Rightarrow> ((Inl e, m''), s')
           | (Inr _, s') \<Rightarrow> ((Inr (Some pkt), m''), s'))
        else ((Inr (Some pkt), m'), s)
      else ((Inr (Some pkt), m), s))"

section \<open>The chain\<close>

datatype 'k middleware =
    LoggerMiddleware
  | DropMiddleware drop_mw
  | DelayMiddleware delay_mw
  | CorruptMiddleware corrupt_mw
  | ReplayMiddleware "'k replay_mw"
  | AddressMiddleware address_mw
  | HeaderFaultMiddleware header_fault
  | TLSFaultMiddleware

text \<open>\<open>Middleware.process\<close>: the packet to pass on, or \<open>None\<close>, or an exception, with the state of the
  middleware afterwards. The logger and the TLS placeholder pass the packet on.\<close>

fun mw_process ::
    "'k scapy \<Rightarrow> ('s, 'k) mw_env \<Rightarrow> string \<Rightarrow> 'k \<Rightarrow> 'k middleware \<Rightarrow> 's \<Rightarrow> ('k option res \<times> 'k middleware) \<times> 's" where
  "mw_process S E dir pkt LoggerMiddleware s = ((Inr (Some pkt), LoggerMiddleware), s)"
| "mw_process S E dir pkt (DropMiddleware m) s = ((Inr (drop_process S (env_draws E) dir pkt m), DropMiddleware m), s)"
| "mw_process S E dir pkt (DelayMiddleware m) s = ((Inr (Some pkt), DelayMiddleware m), delay_process E m s)"
| "mw_process S E dir pkt (CorruptMiddleware m) s =
     ((Inr (Some (corrupt_process S (env_draws E) pkt m)), CorruptMiddleware m), s)"
| "mw_process S E dir pkt (ReplayMiddleware m) s =
     (case replay_process E dir pkt m s of ((r, m'), s') \<Rightarrow> ((r, ReplayMiddleware m'), s'))"
| "mw_process S E dir pkt (AddressMiddleware m) s = ((Inr (Some (address_process S pkt m)), AddressMiddleware m), s)"
| "mw_process S E dir pkt (HeaderFaultMiddleware m) s =
     (case header_fault_process S dir pkt m of (r, m') \<Rightarrow> ((r, HeaderFaultMiddleware m'), s))"
| "mw_process S E dir pkt TLSFaultMiddleware s = ((Inr (Some pkt), TLSFaultMiddleware), s)"

text \<open>\<open>MiddlewareChain.__init__\<close> keeps the enabled ones; \<open>run\<close> stops at the first drop or exception.\<close>

definition chain_of :: "('k middleware \<times> bool) list \<Rightarrow> 'k middleware list" where
  "chain_of ms = map fst (filter snd ms)"

fun chain_run ::
    "'k scapy \<Rightarrow> ('s, 'k) mw_env \<Rightarrow> string \<Rightarrow> 'k middleware list \<Rightarrow> 'k option \<Rightarrow> 's
       \<Rightarrow> ('k option res \<times> 'k middleware list) \<times> 's" where
  "chain_run S E dir [] p s = ((Inr p, []), s)"
| "chain_run S E dir (m # ms) None s = ((Inr None, m # ms), s)"
| "chain_run S E dir (m # ms) (Some pkt) s =
     (case mw_process S E dir pkt m s of
        ((Inl e, m'), s') \<Rightarrow> ((Inl e, m' # ms), s')
      | ((Inr p, m'), s') \<Rightarrow>
          (case chain_run S E dir ms p s' of ((r, ms'), s'') \<Rightarrow> ((r, m' # ms'), s'')))"

section \<open>Cadence of header faults\<close>

text \<open>The outcomes of a header-fault middleware on a sequence of packets with their directions.\<close>

fun fault_trace :: "'k scapy \<Rightarrow> header_fault \<Rightarrow> (string \<times> 'k) list \<Rightarrow> 'k option res list" where
  "fault_trace S h [] = []"
| "fault_trace S h ((dir, pkt) # xs) =
     (case header_fault_process S dir pkt h of (r, h') \<Rightarrow> r # fault_trace S h' xs)"

definition fault_applies :: "header_fault \<Rightarrow> string \<times> 'k \<Rightarrow> bool" where
  "fault_applies h x \<longleftrightarrow> hf_direction h = ''both'' \<or> fst x = hf_direction h"

text \<open>The packets of the configured direction before and including position \<open>i\<close>.\<close>

definition nth_applying :: "header_fault \<Rightarrow> (string \<times> 'k) list \<Rightarrow> nat \<Rightarrow> int" where
  "nth_applying h xs i = int (length (filter (fault_applies h) (take (Suc i) xs)))"

lemma should_inject_skip: "\<not> fault_applies h (dir, pkt) \<Longrightarrow> should_inject dir h = (False, h)"
  by (simp add: should_inject_def fault_applies_def)

lemma should_inject_turn:
  assumes "fault_applies h (dir, pkt)" "0 \<le> hf_counter h" "hf_counter h < inject_on_nth h"
  shows "should_inject dir h =
    ((hf_counter h + 1) mod inject_on_nth h = 0, h\<lparr>hf_counter := (hf_counter h + 1) mod inject_on_nth h\<rparr>)"
proof (cases "hf_counter h + 1 = inject_on_nth h")
  case True
  with assms(1) show ?thesis by (auto simp: should_inject_def fault_applies_def Let_def)
next
  case False
  with assms have "(hf_counter h + 1) mod inject_on_nth h = hf_counter h + 1" by simp
  with assms False show ?thesis by (auto simp: should_inject_def fault_applies_def Let_def)
qed

lemma fault_trace_from:
  assumes "0 \<le> hf_counter h" "hf_counter h < inject_on_nth h" "i < length xs"
  shows "fault_trace S h xs ! i =
    (if fault_applies h (xs ! i) \<and> (hf_counter h + nth_applying h xs i) mod inject_on_nth h = 0
     then ebind (apply_fault S (hf_fault h) (snd (xs ! i))) (\<lambda>p. Inr (Some p)) else Inr (Some (snd (xs ! i))))"
  using assms
proof (induction xs arbitrary: h i)
  case (Cons x xs)
  obtain dir pkt where x: "x = (dir, pkt)" by (cases x)
  show ?case
  proof (cases "fault_applies h x")
    case False
    with Cons x show ?thesis
      by (cases i) (simp_all add: header_fault_process_def should_inject_skip nth_applying_def)
  next
    case True
    let ?c = "(hf_counter h + 1) mod inject_on_nth h" and ?h = "h\<lparr>hf_counter := (hf_counter h + 1) mod inject_on_nth h\<rparr>"
    have turn: "should_inject dir h = (?c = 0, ?h)"
      using should_inject_turn [of h dir pkt] True Cons.prems x by simp
    have app: "fault_applies ?h = fault_applies h" by (simp add: fault_applies_def fun_eq_iff)
    have c: "0 \<le> ?c" "?c < inject_on_nth h" using Cons.prems by simp_all
    show ?thesis
    proof (cases i)
      case 0
      with True turn x show ?thesis by (auto simp: header_fault_process_def nth_applying_def)
    next
      case (Suc j)
      have "fault_trace S h (x # xs) ! i = fault_trace S ?h xs ! j"
        using turn x Suc by (cases "?c = 0") (simp_all add: header_fault_process_def)
      moreover have "(?c + nth_applying h xs j) mod inject_on_nth h
          = (hf_counter h + nth_applying h (x # xs) i) mod inject_on_nth h"
        using True Suc by (simp add: nth_applying_def mod_add_left_eq ac_simps)
      moreover have "nth_applying ?h xs j = nth_applying h xs j" by (simp add: nth_applying_def app)
      ultimately show ?thesis
        using Cons.IH [of ?h j] Cons.prems Suc c by (simp add: app)
    qed
  qed
qed simp

text \<open>A fresh header-fault middleware corrupts exactly every \<open>inject_on_nth\<close>-th packet of its
  direction: packet \<open>i\<close> of any traffic comes out with the configured fault if it travels in that
  direction and the number of such packets so far is a multiple of \<open>inject_on_nth\<close>, and unchanged
  otherwise; traffic of the other direction does not advance the count.\<close>

theorem header_fault_cadence:
  assumes "hf_counter h = 0" "0 < inject_on_nth h" "i < length xs"
  shows "fault_trace S h xs ! i =
    (if fault_applies h (xs ! i) \<and> nth_applying h xs i mod inject_on_nth h = 0
     then ebind (apply_fault S (hf_fault h) (snd (xs ! i))) (\<lambda>p. Inr (Some p)) else Inr (Some (snd (xs ! i))))"
  using fault_trace_from [of h i xs S] assms by simp

text \<open>A stand-in for Scapy whose packets are their bytes.\<close>

definition raw_scapy :: "bytes scapy" where
  "raw_scapy = \<lparr>dissect = id, ser = Inr,
     get_ptype = (\<lambda>p. if length p < 4 then None else Some (from_be (py_slice 2 4 p))),
     set_field = (\<lambda>f v p. case f of FVersion \<Rightarrow> Inr (p[0 := word_of_int v]) | FInverse \<Rightarrow> Inr (p[1 := word_of_int v])
       | FType \<Rightarrow> Inr (take 2 p @ int_be 2 v @ drop 4 p) | FLength \<Rightarrow> Inr (take 4 p @ int_be 4 v @ drop 8 p)
       | FSource \<Rightarrow> Inr (take 8 p @ int_be 2 v @ drop 10 p) | FTarget \<Rightarrow> Inr (take 10 p @ int_be 2 v @ drop 12 p))\<rparr>"

theorem header_fault_cadence_witness:
  "fault_trace raw_scapy \<lparr>hf_fault = wrong_version, hf_direction = ''both'', inject_on_nth = 2, hf_counter = 0\<rparr>
     [(''tester_to_ecu'', [2, 0xFD]), (''ecu_to_tester'', [2, 0xFD])] ! 1 = Inr (Some [0xFF, 0xFD])"
  using header_fault_cadence
    [of "\<lparr>hf_fault = wrong_version, hf_direction = ''both'', inject_on_nth = 2, hf_counter = 0\<rparr>" 1
      "[(''tester_to_ecu'', [2, 0xFD]), (''ecu_to_tester'', [2, 0xFD])]" raw_scapy]
  by (simp add: fault_applies_def nth_applying_def apply_fault_def raw_scapy_def ebind_def)

section \<open>Replay\<close>

text \<open>A replay middleware on a sequence of packets, and the packets of the recorded direction.\<close>

fun replay_trace ::
    "('s, 'k) mw_env \<Rightarrow> 'k replay_mw \<Rightarrow> (string \<times> 'k) list \<Rightarrow> 's \<Rightarrow> 'k option res list \<times> 's" where
  "replay_trace E m [] s = ([], s)"
| "replay_trace E m ((dir, pkt) # xs) s =
     (case replay_process E dir pkt m s of ((r, m'), s') \<Rightarrow>
        (case replay_trace E m' xs s' of (rs, s'') \<Rightarrow> (r # rs, s'')))"

definition to_ecu :: "(string \<times> 'k) list \<Rightarrow> 'k list" where
  "to_ecu xs = map snd (filter (\<lambda>x. fst x = ''tester_to_ecu'') xs)"

text \<open>Injections that are appended to the state, whether they fail or not.\<close>

definition injects_to :: "('k list, 'k) mw_env \<Rightarrow> bool" where
  "injects_to E \<longleftrightarrow> (\<forall>p s. snd (send_to_ecu E p s) = s @ [p] \<and> fst (send_to_ecu E p s) \<noteq> Inl CancelledError)"

lemma replay_all_injects: "injects_to E \<Longrightarrow> replay_all (send_to_ecu E) ps s = (Inr (), s @ ps)"
proof (induction ps arbitrary: s)
  case (Cons p ps)
  then have "try_catch (send_to_ecu E p) (\<lambda>e. if is_Exception e then ret () else raise e) s = (Inr (), s @ [p])"
    by (auto simp: injects_to_def try_catch_def is_Exception_def split: prod.splits sum.splits) (metis fst_conv snd_conv)+
  with Cons show ?case by (simp add: seq_Inr)
qed simp

lemma replay_trace_done: "replayed m \<Longrightarrow> replay_trace E m xs s = (map (Inr \<circ> Some \<circ> snd) xs, s)"
  by (induction xs) (auto simp: replay_process_def)

lemma replay_trace_from:
  assumes E: "injects_to E"
    and m: "recording m" "\<not> replayed m" "int (length (recorded m)) < replay_count m"
  shows "replay_trace E m xs s =
    (map (Inr \<circ> Some \<circ> snd) xs,
     if replay_count m \<le> int (length (recorded m @ to_ecu xs))
     then s @ take (nat (replay_count m)) (recorded m @ to_ecu xs) else s)"
  using m
proof (induction xs arbitrary: m)
  case Nil
  then show ?case by (simp add: to_ecu_def)
next
  case (Cons x xs)
  obtain dir pkt where x: "x = (dir, pkt)" by (cases x)
  consider "dir \<noteq> ''tester_to_ecu''" | "dir = ''tester_to_ecu''" "replay_count m \<le> int (length (recorded m)) + 1"
    | "dir = ''tester_to_ecu''" "int (length (recorded m)) + 1 < replay_count m" by linarith
  then show ?case
  proof cases
    case 1
    with Cons x show ?thesis by (simp add: replay_process_def to_ecu_def)
  next
    case 2
    let ?m = "m\<lparr>recorded := recorded m @ [pkt], replayed := True\<rparr>"
    have "replay_count m = int (length (recorded m)) + 1" using 2 Cons.prems by linarith
    with 2 x Cons.prems show ?thesis
      using replay_trace_done [of ?m E xs] E
      by (simp add: replay_process_def replay_all_injects to_ecu_def nat_add_distrib)
  next
    case 3
    with Cons.IH [of "m\<lparr>recorded := recorded m @ [pkt]\<rparr>"] Cons.prems x show ?thesis
      by (simp add: replay_process_def to_ecu_def)
  qed
qed

text \<open>A recording replay middleware passes every packet on unchanged and injects once: as soon as
  \<open>replay_count\<close> packets towards the ECU were seen, exactly these packets, in their order, are
  injected again, whether single injections fail or not; before that, and ever after, nothing is.\<close>

theorem replay_once:
  assumes "injects_to E" "recording m" "recorded m = []" "\<not> replayed m" "1 \<le> replay_count m"
  shows "replay_trace E m xs [] =
    (map (Inr \<circ> Some \<circ> snd) xs,
     if int (length (to_ecu xs)) < replay_count m then [] else take (nat (replay_count m)) (to_ecu xs))"
  using replay_trace_from [of E m xs "[]"] assms by simp

definition log_env :: "(bytes list, bytes) mw_env" where
  "log_env = \<lparr>env_draws = \<lparr>random_float = 0, randint = (\<lambda>a b. a)\<rparr>, env_sleep = (\<lambda>t s. s),
     send_to_ecu = (\<lambda>p s. (Inr (), s @ [p]))\<rparr>"

theorem replay_once_witness:
  "snd (replay_trace log_env \<lparr>recording = True, replay_count = 2, recorded = [], replayed = False\<rparr>
     [(''tester_to_ecu'', [1]), (''ecu_to_tester'', [9]), (''tester_to_ecu'', [2]), (''tester_to_ecu'', [3])] []) = [[1], [2]]"
proof -
  have "injects_to log_env" by (simp add: injects_to_def log_env_def)
  then show ?thesis by (subst replay_once) (simp_all add: to_ecu_def)
qed

end
