(* ===== verification/Edge_Exchange.thy ===== *)
theory Edge_Exchange
  imports Edge_Middleware Ecu_Client
begin

text \<open>
  One diagnostic exchange of an EdgeNode session (\<^verbatim>\<open>doip_edgenode/session.py\<close>): the tester's message
  through the middleware chain to the ECU its target address routes to, and the ECU's answers back
  until the exchange is over. The clock is in milliseconds. What the background reader of an ECU
  connection will queue, and when, is a list of arrivals; a wait ends with the next arrival or with
  its timeout. A read that outlives a wait is kept by the source, so no arrival is lost. How long a
  connection to an ECU takes to accept the request and to close is given by the environment, and the
  waits for both are bounded as in the source. Not counted are the time a new connection takes, that
  of the tester's socket to take a frame, and that of an ECU's to take a packet the replay
  middleware injects. The exchange is modelled for a session that is not closed meanwhile.
\<close>

section \<open>State and environment\<close>

text \<open>\<open>es_conns\<close> is \<open>_ecu_conns\<close>; connections are numbered. \<open>None\<close> in the arrivals of a connection is the
  end of its stream.\<close>

record 'k edge_session = edge_io +
  es_activated :: bool
  es_tester :: "int option"
  es_chain :: "'k middleware list"
  es_conns :: "(int \<times> nat) list"
  es_legs :: "nat \<Rightarrow> ecu_leg"
  es_arrivals :: "nat \<Rightarrow> (int \<times> bytes option) list"
  es_next_leg :: nat
  es_now :: int

text \<open>Scapy, the random draws, what a TCP connection to a routing entry yields (the ECU's bytes during
  the handshake and its later frames, or a failure), \<^verbatim>\<open>os.urandom(4)\<close>, and how long a connection, from
  a given time on, takes to drain what was written to it and to close; \<open>None\<close> when it never does.\<close>

record 'k edge_env =
  ee_scapy :: "'k scapy"
  ee_draws :: draws
  ee_dial :: "routing_entry \<Rightarrow> int \<Rightarrow> (bytes \<times> (int \<times> bytes option) list) option"
  ee_urandom :: bytes
  ee_drain :: "nat \<Rightarrow> int \<Rightarrow> int option"
  ee_close :: "nat \<Rightarrow> int \<Rightarrow> int option"

definition on_leg :: "nat \<Rightarrow> (ecu_leg, 'a) py \<Rightarrow> ('k edge_session, 'a) py" where
  "on_leg g m s = (case m (es_legs s g) of (r, l) \<Rightarrow> (r, s\<lparr>es_legs := (es_legs s)(g := l)\<rparr>))"

section \<open>Connections to ECUs\<close>

text \<open>The time that \<^verbatim>\<open>asyncio.wait_for\<close> takes for something that needs \<open>d\<close>.\<close>

definition bounded_wait :: "int \<Rightarrow> int option \<Rightarrow> int" where
  "bounded_wait limit d = (case d of None \<Rightarrow> max 0 limit | Some t \<Rightarrow> min (max 0 t) (max 0 limit))"

text \<open>\<open>_retire_ecu_leg\<close> and \<open>_close_ecu_once\<close>: detach the connection if it is still the cached one, close it
  and wait for that, the response timeout at most.\<close>

definition retire_leg :: "edge_config \<Rightarrow> 'k edge_env \<Rightarrow> int \<Rightarrow> nat \<Rightarrow> 'k edge_session \<Rightarrow> 'k edge_session" where
  "retire_leg cfg env target g s =
     (let s = (if map_of (es_conns s) target = Some g then s\<lparr>es_conns := AList.delete target (es_conns s)\<rparr> else s)
      in s\<lparr>es_legs := (es_legs s)(g := leg_close (es_legs s g)),
           es_now := es_now s + bounded_wait (ecu_response_timeout (timers cfg)) (ee_close env g (es_now s))\<rparr>)"

text \<open>\<^verbatim>\<open>asyncio.wait_for(ecu_conn.send(data), timeout=max(0, limit))\<close>: the frame is written, then the connection has
  to take it in time.\<close>

definition send_within :: "'k edge_env \<Rightarrow> nat \<Rightarrow> bytes \<Rightarrow> int \<Rightarrow> ('k edge_session, unit) py" where
  "send_within env g data limit s =
     (case on_leg g (leg_send data) s of
        (Inl e, s1) \<Rightarrow> (Inl e, s1)
      | (Inr _, s1) \<Rightarrow>
          (if (case ee_drain env g (es_now s) of None \<Rightarrow> False | Some d \<Rightarrow> d \<le> max 0 limit) then Inr () else Inl TimeoutError,
           s1\<lparr>es_now := es_now s + bounded_wait limit (ee_drain env g (es_now s))\<rparr>))"

text \<open>\<^verbatim>\<open>self.tester_logical_addr or 0x0E00\<close>.\<close>

definition tester_or_default :: "int option \<Rightarrow> int" where
  "tester_or_default t = (case t of None \<Rightarrow> 0x0E00 | Some a \<Rightarrow> if a = 0 then 0x0E00 else a)"

definition connect_to_ecu :: "edge_config \<Rightarrow> 'k edge_env \<Rightarrow> int \<Rightarrow> bytes \<Rightarrow> ('k edge_session, nat option) py" where
  "connect_to_ecu cfg env target raw =
     bnd (gets e_closing) (\<lambda>closing.
     if closing then ret None
     else case lookup_by_ecu_addr (routing_table cfg) target of
       None \<Rightarrow> seq (send_diag_nack 0x03 raw) (ret None)
     | Some entry \<Rightarrow>
         bnd (gets (\<lambda>s. s)) (\<lambda>s.
         case ee_dial env entry (es_now s) of
           None \<Rightarrow> seq (send_diag_nack 0x06 raw) (ret None)
         | Some (bs, arr) \<Rightarrow>
             let g = es_next_leg s; l = (new_leg entry (edge_max_payload (edoip cfg)))\<lparr>leg_in := bs\<rparr> in
             seq (modify (\<lambda>s. s\<lparr>es_next_leg := g + 1, es_legs := (es_legs s)(g := l), es_arrivals := (es_arrivals s)(g := arr)\<rparr>))
              (bnd (try_catch (seq (on_leg g (leg_connect (tester_or_default (es_tester s)))) (ret True))
                      (\<lambda>e. if is_Exception e then ret False else raise e)) (\<lambda>ok.
               if ok then seq (modify (\<lambda>s. s\<lparr>es_conns := AList.update target g (es_conns s)\<rparr>)) (ret (Some g))
               else seq (send_diag_nack 0x06 raw) (ret None)))))"

text \<open>The cached connection for a target, a dead one replaced.\<close>

definition connection_for :: "edge_config \<Rightarrow> 'k edge_env \<Rightarrow> int \<Rightarrow> bytes \<Rightarrow> ('k edge_session, nat option) py" where
  "connection_for cfg env target raw =
     bnd (gets (\<lambda>s. s)) (\<lambda>s.
     case map_of (es_conns s) target of
       Some g \<Rightarrow>
         if leg_connected (es_legs s g) then ret (Some g)
         else seq (modify (retire_leg cfg env target g)) (connect_to_ecu cfg env target raw)
     | None \<Rightarrow> connect_to_ecu cfg env target raw)"

text \<open>\<open>DoIPSession.send_to_ecu\<close>, which the replay middleware calls.\<close>

definition edge_send_to_ecu :: "edge_config \<Rightarrow> 'k edge_env \<Rightarrow> 'k \<Rightarrow> ('k edge_session, unit) py" where
  "edge_send_to_ecu cfg env pkt =
     bnd (lift (ser (ee_scapy env) pkt)) (\<lambda>raw.
     bnd (gets e_closing) (\<lambda>closing.
     if closing \<or> length raw < 12 then ret ()
     else bnd (connection_for cfg env (from_be (py_slice 10 12 raw)) raw) (\<lambda>g.
       case g of None \<Rightarrow> ret () | Some g \<Rightarrow> on_leg g (leg_send raw))))"

section \<open>The middleware chain of the session\<close>

definition session_env :: "edge_config \<Rightarrow> 'k edge_env \<Rightarrow> ('k edge_session, 'k) mw_env" where
  "session_env cfg env =
     \<lparr>env_draws = ee_draws env, env_sleep = (\<lambda>t s. s\<lparr>es_now := es_now s + t\<rparr>), send_to_ecu = edge_send_to_ecu cfg env\<rparr>"

definition run_chain :: "edge_config \<Rightarrow> 'k edge_env \<Rightarrow> string \<Rightarrow> 'k \<Rightarrow> ('k edge_session, 'k option) py" where
  "run_chain cfg env dir pkt s =
     (case chain_run (ee_scapy env) (session_env cfg env) dir (es_chain s) (Some pkt) s of
        ((r, ms), s') \<Rightarrow> (r, s'\<lparr>es_chain := ms\<rparr>))"

definition relay_ecu_frame :: "edge_config \<Rightarrow> 'k edge_env \<Rightarrow> bytes \<Rightarrow> ('k edge_session, unit) py" where
  "relay_ecu_frame cfg env raw =
     bnd (gets e_closing) (\<lambda>closing.
     if closing then ret ()
     else let pkt = dissect (ee_scapy env) raw in
       bnd (try_catch (run_chain cfg env ''ecu_to_tester'' pkt)
              (\<lambda>e. case e of DoIPFaultInjectionError _ \<Rightarrow> ret (Some pkt) | _ \<Rightarrow> raise e)) (\<lambda>resp.
       case resp of None \<Rightarrow> ret () | Some p \<Rightarrow> bnd (lift (ser (ee_scapy env) p)) edge_send_raw))"

section \<open>The exchange\<close>

definition is_response_pending :: "bytes \<Rightarrow> bool" where
  "is_response_pending raw \<longleftrightarrow>
     15 \<le> length raw \<and> from_be (py_slice 2 4 raw) = PT_DIAGNOSTIC_MESSAGE \<and> raw ! 12 = 0x7F \<and> raw ! 14 = 0x78"

definition response_matches :: "edge_timers \<Rightarrow> bytes \<Rightarrow> int option \<Rightarrow> bool" where
  "response_matches tc raw request_sid =
     (case request_sid of
        None \<Rightarrow> True
      | Some sid \<Rightarrow>
          if length raw < 13 then True
          else let resp_sid = uint (raw ! 12) in
            if resp_sid = sid OR 0x40 then True
            else if resp_sid = 0x7F \<and> 14 \<le> length raw \<and> uint (raw ! 13) = sid then True
            else \<not> strict_response_matching tc)"

text \<open>\<open>_recv_ecu_frame\<close>: the next queued frame, or the next arrival within \<open>timeout\<close>, or \<open>None\<close>.\<close>

definition recv_ecu_frame :: "nat \<Rightarrow> int \<Rightarrow> ('k edge_session, bytes option) py" where
  "recv_ecu_frame g timeout s =
     (if e_closing s then (Inr None, s)
      else case leg_recv (es_legs s g) of
        Some (r, l) \<Rightarrow> (ebind r (\<lambda>raw. Inr (Some raw)), s\<lparr>es_legs := (es_legs s)(g := l)\<rparr>)
      | None \<Rightarrow>
          (case es_arrivals s g of
             [] \<Rightarrow> (Inr None, s\<lparr>es_now := es_now s + timeout\<rparr>)
           | (t, item) # rest \<Rightarrow>
               if es_now s + timeout < t then (Inr None, s\<lparr>es_now := es_now s + timeout\<rparr>)
               else let s' = s\<lparr>es_now := max (es_now s) t, es_arrivals := (es_arrivals s)(g := rest)\<rparr> in
                 case item of
                   Some raw \<Rightarrow> (Inr (Some raw), s')
                 | None \<Rightarrow> (Inl ConnectionError,
                     s'\<lparr>es_legs := (es_legs s)(g := mark_terminal False (es_legs s g))\<rparr>)))"

text \<open>The synthetic NACK of an exchange that got no answer. The value is whether the exchange is complete,
  with the flag \<open>accepted\<close>.\<close>

definition give_up :: "bool \<Rightarrow> bytes \<Rightarrow> 'k edge_session \<Rightarrow> (bool res \<times> bool) \<times> 'k edge_session" where
  "give_up accepted request s =
     (if accepted then ((Inr False, True), s)
      else case send_diag_nack 0x06 request s of
        (Inl e, s') \<Rightarrow> ((Inl e, False), s')
      | (Inr _, s') \<Rightarrow> ((Inr False, False), s'))"

partial_function (option) exchange_loop ::
    "edge_config \<Rightarrow> 'k edge_env \<Rightarrow> nat \<Rightarrow> int option \<Rightarrow> bytes \<Rightarrow> int \<Rightarrow> bool \<Rightarrow> bool
       \<Rightarrow> 'k edge_session \<Rightarrow> ((bool res \<times> bool) \<times> 'k edge_session) option" where
  "exchange_loop cfg env g sid request deadline accepted pending_seen s =
     (if e_closing s then Some ((Inr False, accepted), s)
      else let remaining = deadline - es_now s in
      if remaining \<le> 0 then Some (give_up accepted request s)
      else case recv_ecu_frame g (min (ecu_response_timeout (timers cfg)) remaining) s of
        (Inl e, s1) \<Rightarrow> Some ((Inl e, accepted), s1)
      | (Inr None, s1) \<Rightarrow>
          if pending_seen then exchange_loop cfg env g sid request deadline accepted pending_seen s1
          else Some (give_up accepted request s1)
      | (Inr (Some raw), s1) \<Rightarrow>
          let ptype = from_be (py_slice 2 4 raw) in
          if ptype = PT_DIAGNOSTIC_POSITIVE_ACK
          then if accepted then Some ((Inr False, True), s1)
               else (case relay_ecu_frame cfg env raw s1 of
                       (Inl e, s2) \<Rightarrow> Some ((Inl e, True), s2)
                     | (Inr _, s2) \<Rightarrow> exchange_loop cfg env g sid request deadline True pending_seen s2)
          else if ptype = PT_DIAGNOSTIC_MESSAGE
          then if \<not> response_matches (timers cfg) raw sid then Some ((Inr False, accepted), s1)
               else (case relay_ecu_frame cfg env raw s1 of
                       (Inl e, s2) \<Rightarrow> Some ((Inl e, True), s2)
                     | (Inr _, s2) \<Rightarrow>
                         if is_response_pending raw \<and> sid \<noteq> None \<and> Some (uint (raw ! 13)) = sid
                         then exchange_loop cfg env g sid request deadline True True s2
                         else Some ((Inr (\<not> is_response_pending raw), True), s2))
          else (case relay_ecu_frame cfg env raw s1 of
                  (Inl e, s2) \<Rightarrow> Some ((Inl e, accepted), s2)
                | (Inr _, s2) \<Rightarrow> Some ((Inr (ptype = PT_DIAGNOSTIC_NEGATIVE_ACK), accepted), s2)))"

text \<open>The handler of an exception inside the exchange, and the retirement of a connection whose exchange
  did not complete.\<close>

definition exchange_end ::
    "edge_config \<Rightarrow> 'k edge_env \<Rightarrow> int \<Rightarrow> nat \<Rightarrow> bytes \<Rightarrow> (bool res \<times> bool) \<times> 'k edge_session
       \<Rightarrow> unit res \<times> 'k edge_session" where
  "exchange_end cfg env target g request rs =
     (case rs of
        ((Inr completed, accepted), s) \<Rightarrow> (Inr (), if completed then s else retire_leg cfg env target g s)
      | ((Inl e, accepted), s) \<Rightarrow>
          if \<not> is_Exception e then (Inl e, retire_leg cfg env target g s)
          else if accepted then (Inr (), retire_leg cfg env target g s)
          else (case send_diag_nack 0x06 request s of (r, s') \<Rightarrow> (r, retire_leg cfg env target g s')))"

definition exchange_with_ecu ::
    "edge_config \<Rightarrow> 'k edge_env \<Rightarrow> int \<Rightarrow> nat \<Rightarrow> bytes \<Rightarrow> bytes \<Rightarrow> 'k edge_session
       \<Rightarrow> (unit res \<times> 'k edge_session) option" where
  "exchange_with_ecu cfg env target g sent_bytes request s =
     (if e_closing s then Some (Inr (), s)
      else
        let deadline = es_now s + ecu_pending_max_wait (timers cfg);
            sid = (if 13 \<le> length sent_bytes then Some (uint (sent_bytes ! 12)) else None) in
        case send_within env g sent_bytes (deadline - es_now s) s of
          (Inl e, s') \<Rightarrow> Some (exchange_end cfg env target g request ((Inl e, False), s'))
        | (Inr _, s') \<Rightarrow>
            map_option (exchange_end cfg env target g request)
              (exchange_loop cfg env g sid request deadline False False s'))"

section \<open>Diagnostic messages\<close>

definition ljust_17 :: "bytes \<Rightarrow> bytes" where
  "ljust_17 b = b @ replicate (17 - length b) 0"

text \<open>\<open>_build_uds_response\<close>; the VIN is ASCII.\<close>

definition build_uds_response :: "edge_doip \<Rightarrow> bytes \<Rightarrow> bytes \<Rightarrow> bytes" where
  "build_uds_response dc urandom uds =
     (if 3 \<le> length uds \<and> uds ! 0 = 0x22 \<and> uds ! 1 = 0xF1 \<and> uds ! 2 = 0x90
      then [0x62, 0xF1, 0x90] @ ljust_17 (take 17 (map (\<lambda>c. of_nat (of_char c)) (vin dc)))
      else case uds of [] \<Rightarrow> urandom | u # us \<Rightarrow> [u OR 0x40] @ us @ urandom)"

definition handle_self_diagnostic :: "edge_config \<Rightarrow> 'k edge_env \<Rightarrow> bytes \<Rightarrow> ('k edge_session, unit) py" where
  "handle_self_diagnostic cfg env raw =
     bnd (gets es_tester) (\<lambda>t.
     let src = (if 10 \<le> length raw then from_be (py_slice 8 10 raw) else tester_or_default t);
         tgt = (if 12 \<le> length raw then from_be (py_slice 10 12 raw) else node_logical_addr (edoip cfg));
         uds = drop 12 raw in
     bnd (lift (to_bytes_big 2 tgt)) (\<lambda>a.
     bnd (lift (to_bytes_big 2 src)) (\<lambda>b.
     seq (edge_send_frame PT_DIAGNOSTIC_POSITIVE_ACK (a @ b @ [0]))
      (edge_send_frame PT_DIAGNOSTIC_MESSAGE (a @ b @ build_uds_response (edoip cfg) (ee_urandom env) uds)))))"

text \<open>\<open>_handle_diagnostic\<close> on an activated session, on the bytes of the packet. The outer option is
  \<open>None\<close> where the exchange does not return.\<close>

definition edge_handle_diagnostic ::
    "edge_config \<Rightarrow> 'k edge_env \<Rightarrow> bytes \<Rightarrow> 'k edge_session \<Rightarrow> (unit res \<times> 'k edge_session) option" where
  "edge_handle_diagnostic cfg env raw s =
     (let source = (if 10 \<le> length raw then Some (from_be (py_slice 8 10 raw)) else None) in
      if source = None \<or> source \<noteq> es_tester s
      then Some (seq (send_diag_nack 0x02 raw) (raise DoIPProtocolError) s)
      else if 12 \<le> length raw \<and> from_be (py_slice 10 12 raw) = node_logical_addr (edoip cfg)
      then Some (handle_self_diagnostic cfg env raw s)
      else case run_chain cfg env ''tester_to_ecu'' (dissect (ee_scapy env) raw) s of
          (Inl (DoIPFaultInjectionError code), s1) \<Rightarrow> Some (send_diag_nack code raw s1)
        | (Inl e, s1) \<Rightarrow> Some (Inl e, s1)
        | (Inr None, s1) \<Rightarrow> Some (Inr (), s1)
        | (Inr (Some p), s1) \<Rightarrow>
            if e_closing s1 then Some (Inr (), s1)
            else case ser (ee_scapy env) p of
                Inl e \<Rightarrow> Some (Inl e, s1)
              | Inr processed \<Rightarrow>
                  if length processed < 12 then Some (send_diag_nack 0x03 raw s1)
                  else let target = from_be (py_slice 10 12 processed) in
                    case connection_for cfg env target raw s1 of
                      (Inl e, s2) \<Rightarrow> Some (Inl e, s2)
                    | (Inr None, s2) \<Rightarrow> Some (Inr (), s2)
                    | (Inr (Some g), s2) \<Rightarrow> exchange_with_ecu cfg env target g processed raw s2)"

end
