(* ===== verification/Edge_Session.thy ===== *)
theory Edge_Session
  imports Edge_Exchange Edge_Udp
begin

text \<open>
  One session of the EdgeNode from start to end (\<^verbatim>\<open>DoIPSession\<close> of \<^verbatim>\<open>doip_edgenode/session.py\<close>): its loop, the
  dispatch of frames, the inactivity timers, Alive Check probes and the teardown, around the
  exchange of \<open>Edge_Exchange\<close>. A Routing Activation is handled in phases: the session waits for the
  verdict of the registry (the lock of the address, the probes of other sessions), then for the
  tester's socket to take the answer, and time passes in both. Which verdict it gets is an argument
  here; \<open>Edge_Activation\<close> models that decision among all sessions. Any other handler runs to its
  end before a timer or a probe takes effect.
\<close>

section \<open>State\<close>

text \<open>What the registry decides on a valid request: grant it, deny it with a code, or the session was closed
  while it waited.\<close>

datatype ra_decision = RaGrant | RaDeny int | RaGone

text \<open>The exchange's environment, the fields \<^verbatim>\<open>source_address\<close> and \<^verbatim>\<open>activation_type\<close> as Scapy presents them, the
  registry's decision and its count of open sockets, and the inactivity times in milliseconds.\<close>

record 'k run_env =
  rv_env :: "'k edge_env"
  rv_source :: "'k \<Rightarrow> int option"
  rv_type :: "'k \<Rightarrow> int option"
  rv_decide :: "int \<Rightarrow> ra_decision"
  rv_open :: nat
  rv_initial_ms :: int
  rv_general_ms :: int

text \<open>Where the handling of a Routing Activation Request is suspended: before the verdict on a valid request
  for an address, or in the sending of its answer, positive (\<open>True\<close>) or not.\<close>

datatype ra_pause = AwaitVerdict int | AwaitSent bool

text \<open>The timers are the times at which they fire. \<open>er_probe\<close> is the event of a probe in progress, \<open>True\<close> once
  it is set. \<open>er_eof\<close>: the tester will send nothing more. \<open>er_pause\<close>: the Routing Activation in progress, with
  the time its request was read.\<close>

record 'k edge_run =
  er_s :: "'k edge_session"
  er_initial :: "int option"
  er_general :: "int option"
  er_probe :: "bool option"
  er_pause :: "(ra_pause \<times> int) option"
  er_eof :: bool
  er_ended :: bool

definition on_s :: "('k edge_session, 'a) py \<Rightarrow> ('k edge_run, 'a) py" where
  "on_s m r = (case m (er_s r) of (x, s) \<Rightarrow> (x, r\<lparr>er_s := s\<rparr>))"

abbreviation run_activated :: "'k edge_run \<Rightarrow> bool" where
  "run_activated r \<equiv> es_activated (er_s r)"

abbreviation run_closing :: "'k edge_run \<Rightarrow> bool" where
  "run_closing r \<equiv> e_closing (er_s r)"

section \<open>Timers and teardown\<close>

definition start_initial_timer :: "'k run_env \<Rightarrow> 'k edge_run \<Rightarrow> 'k edge_run" where
  "start_initial_timer env r =
     (if run_closing r then r else r\<lparr>er_initial := Some (es_now (er_s r) + rv_initial_ms env)\<rparr>)"

definition reset_inactivity_timer :: "'k run_env \<Rightarrow> 'k edge_run \<Rightarrow> 'k edge_run" where
  "reset_inactivity_timer env r =
     (if run_closing r then r\<lparr>er_general := None\<rparr>
      else r\<lparr>er_general := Some (es_now (er_s r) + rv_general_ms env)\<rparr>)"

text \<open>\<open>_schedule_cleanup\<close>: closing is final, a waiting probe is woken, the timers are cancelled.\<close>

definition run_schedule_cleanup :: "'k edge_run \<Rightarrow> 'k edge_run" where
  "run_schedule_cleanup r =
     r\<lparr>er_s := (er_s r)\<lparr>e_closing := True\<rparr>, er_probe := map_option (\<lambda>_. True) (er_probe r),
       er_initial := None, er_general := None\<rparr>"

text \<open>\<open>_cleanup_impl\<close>: every cached connection to an ECU is closed.\<close>

definition close_legs :: "'k edge_session \<Rightarrow> 'k edge_session" where
  "close_legs s =
     s\<lparr>es_legs := (\<lambda>g. if g \<in> snd ` set (es_conns s) then leg_close (es_legs s g) else es_legs s g), es_conns := []\<rparr>"

definition run_cleanup :: "'k edge_run \<Rightarrow> 'k edge_run" where
  "run_cleanup r =
     (let r = run_schedule_cleanup r in r\<lparr>er_s := close_legs (er_s r), er_pause := None, er_ended := True\<rparr>)"

section \<open>Handlers\<close>

definition edge_alive_response :: "bytes \<Rightarrow> 'k edge_run \<Rightarrow> 'k edge_run" where
  "edge_alive_response fr r =
     (if \<not> run_activated r \<or> run_closing r \<or> length fr \<noteq> 8 + 2 \<or> from_be (py_slice 4 8 fr) \<noteq> 2
         \<or> Some (from_be (py_slice 8 10 fr)) \<noteq> es_tester (er_s r) then r
      else r\<lparr>er_probe := map_option (\<lambda>_. True) (er_probe r)\<rparr>)"

text \<open>\<open>_probe_alive_once\<close> up to its wait, and its end; the value tells whether it waits.\<close>

definition edge_probe_begin :: "'k edge_run \<Rightarrow> 'k edge_run \<times> bool" where
  "edge_probe_begin r =
     (if run_closing r \<or> \<not> run_activated r \<or> es_tester (er_s r) = None then (r, False)
      else case on_s (edge_send_frame PT_ALIVE_CHECK_REQUEST []) (r\<lparr>er_probe := Some False\<rparr>) of
          (Inl _, r') \<Rightarrow> (r'\<lparr>er_probe := None\<rparr>, False)
        | (Inr _, r') \<Rightarrow> (r', True))"

definition edge_probe_end :: "'k edge_run \<Rightarrow> 'k edge_run \<times> bool" where
  "edge_probe_end r = (r\<lparr>er_probe := None\<rparr>, er_probe r = Some True \<and> \<not> run_closing r)"

definition edge_entity_status :: "edge_doip \<Rightarrow> nat \<Rightarrow> ('k edge_run, unit) py" where
  "edge_entity_status dc open_count =
     bnd (lift (status_payload dc open_count)) (\<lambda>payload. on_s (edge_send_frame PT_ENTITY_STATUS_RESPONSE payload))"

definition edge_handle_power_mode :: "edge_doip \<Rightarrow> ('k edge_run, unit) py" where
  "edge_handle_power_mode dc =
     bnd (lift (py_bytes [edge_power_mode dc])) (\<lambda>payload. on_s (edge_send_frame PT_POWER_MODE_RESPONSE payload))"

definition edge_ra_suspend :: "ra_pause \<Rightarrow> ('k edge_run, unit) py" where
  "edge_ra_suspend p = modify (\<lambda>r. r\<lparr>er_pause :=
     Some (p, case er_pause r of None \<Rightarrow> es_now (er_s r) | Some (_, t) \<Rightarrow> t)\<rparr>)"

text \<open>A negative answer is written; once the socket has taken it the handler raises.\<close>

definition ra_refuse :: "edge_doip \<Rightarrow> int \<Rightarrow> int \<Rightarrow> ('k edge_run, unit) py" where
  "ra_refuse dc code src =
     seq (on_s (send_routing_activation_response dc code src)) (edge_ra_suspend (AwaitSent False))"

text \<open>\<open>_handle_routing_activation\<close> up to its first wait.\<close>

definition edge_handle_ra :: "edge_config \<Rightarrow> 'k run_env \<Rightarrow> 'k \<Rightarrow> ('k edge_run, unit) py" where
  "edge_handle_ra cfg env pkt =
     (case (rv_source env pkt, rv_type env pkt) of
        (Some src, Some activation_type) \<Rightarrow>
          bnd (gets er_s) (\<lambda>s.
          if es_activated s \<and> Some src \<noteq> es_tester s then ra_refuse (edoip cfg) 0x02 src
          else if \<not> is_tester_allowed (edoip cfg) src then ra_refuse (edoip cfg) 0x00 src
          else if activation_type \<notin> {0x00, 0x01} then ra_refuse (edoip cfg) 0x06 src
          else edge_ra_suspend (AwaitVerdict src))
      | _ \<Rightarrow> ra_refuse (edoip cfg) 0x00 0x0000)"

text \<open>\<open>_activate_with_conflict_check\<close> from the verdict on: a grant is committed only on a session that is not
  closing.\<close>

definition edge_ra_verdict :: "edge_config \<Rightarrow> 'k run_env \<Rightarrow> int \<Rightarrow> ('k edge_run, unit) py" where
  "edge_ra_verdict cfg env src =
     (case rv_decide env src of
        RaDeny code \<Rightarrow> ra_refuse (edoip cfg) code src
      | RaGone \<Rightarrow> seq (modify run_schedule_cleanup) (raise DoIPProtocolError)
      | RaGrant \<Rightarrow>
          bnd (gets er_s) (\<lambda>s.
          if e_closing s then raise DoIPProtocolError
          else seq (modify (\<lambda>r. r\<lparr>er_s := (er_s r)\<lparr>es_tester := Some src, es_activated := True\<rparr>\<rparr>))
            (seq (on_s (send_routing_activation_response (edoip cfg) 0x10 src)) (edge_ra_suspend (AwaitSent True)))))"

definition edge_ra_sent :: "'k run_env \<Rightarrow> bool \<Rightarrow> ('k edge_run, unit) py" where
  "edge_ra_sent env granted =
     bnd (gets er_s) (\<lambda>s.
     if e_closing s \<or> \<not> granted then raise DoIPProtocolError
     else seq (modify (\<lambda>r. r\<lparr>er_pause := None\<rparr>)) (modify (reset_inactivity_timer env)))"

text \<open>The handling goes on after a wait; an exception ends in the teardown, as in \<open>session_turn\<close>.\<close>

definition edge_ra_continue :: "edge_config \<Rightarrow> 'k run_env \<Rightarrow> 'k edge_run \<Rightarrow> 'k edge_run" where
  "edge_ra_continue cfg env r =
     (case er_pause r of
        None \<Rightarrow> r
      | Some (p, _) \<Rightarrow>
          (case (case p of AwaitVerdict src \<Rightarrow> edge_ra_verdict cfg env src | AwaitSent granted \<Rightarrow> edge_ra_sent env granted) r of
             (Inl e, r') \<Rightarrow> run_cleanup r'
           | (Inr _, r') \<Rightarrow> r'))"

section \<open>Dispatch\<close>

text \<open>\<open>_dispatch\<close>; \<open>None\<close> where an exchange does not return.\<close>

definition edge_dispatch ::
    "edge_config \<Rightarrow> 'k run_env \<Rightarrow> 'k \<Rightarrow> 'k edge_run \<Rightarrow> (unit res \<times> 'k edge_run) option" where
  "edge_dispatch cfg env pkt r =
     (let S = ee_scapy (rv_env env) in
      if run_closing r then Some (Inr (), r)
      else case get_ptype S pkt of
        None \<Rightarrow> Some (seq (on_s (send_header_nack 0x01)) (raise DoIPProtocolError) r)
      | Some ptype \<Rightarrow>
          if ptype = PT_HEADER_NACK then Some (Inr (), r)
          else if ptype \<in> {PT_ALIVE_CHECK_REQUEST, PT_ALIVE_CHECK_RESPONSE} then
            if \<not> run_activated r then Some (Inr (), r)
            else (case ser S pkt of
                Inl e \<Rightarrow> Some (Inl e, r)
              | Inr fr \<Rightarrow>
                  let expected = (if ptype = PT_ALIVE_CHECK_REQUEST then 0 else 2) in
                  if int (length fr) \<noteq> 8 + expected \<or> from_be (py_slice 4 8 fr) \<noteq> expected
                  then Some (seq (on_s (send_header_nack 0x04)) (raise DoIPProtocolError) r)
                  else Some (Inr (), if ptype = PT_ALIVE_CHECK_RESPONSE then edge_alive_response fr r else r))
          else if ptype = PT_ROUTING_ACT_REQUEST then Some (edge_handle_ra cfg env pkt (r\<lparr>er_initial := None\<rparr>))
          else if ptype = PT_ENTITY_STATUS_REQUEST then Some (edge_entity_status (edoip cfg) (rv_open env) r)
          else if ptype = PT_POWER_MODE_REQUEST then Some (edge_handle_power_mode (edoip cfg) r)
          else if ptype = PT_DIAGNOSTIC_MESSAGE then
            (case ser S pkt of
               Inl e \<Rightarrow> Some (Inl e, r)
             | Inr fr \<Rightarrow>
                 if \<not> run_activated r then Some (seq (on_s (send_diag_nack 0x02 fr)) (raise DoIPProtocolError) r)
                 else map_option (\<lambda>(x, s). (x, r\<lparr>er_s := s\<rparr>)) (edge_handle_diagnostic cfg (rv_env env) fr (er_s r)))
          else Some (on_s (send_header_nack 0x01) r))"

text \<open>One turn of \<open>_session_loop\<close> inside \<open>run\<close>: every exception ends in the teardown.\<close>

definition session_turn :: "edge_config \<Rightarrow> 'k run_env \<Rightarrow> bool \<Rightarrow> 'k edge_run \<Rightarrow> 'k edge_run option" where
  "session_turn cfg env stalled r =
     (if run_closing r then Some (run_cleanup r)
      else case on_s (edge_read_frame (edoip cfg) stalled) r of
        (Inl e, r1) \<Rightarrow> Some (run_cleanup r1)
      | (Inr None, r1) \<Rightarrow> Some r1
      | (Inr (Some fr), r1) \<Rightarrow>
          let r2 = (if run_activated r1 then reset_inactivity_timer env r1 else r1);
              ptype = from_be (py_slice 2 4 fr) in
          if ptype = PT_HEADER_NACK then Some r2
          else if \<not> run_activated r2 \<and> ptype \<in> {PT_ALIVE_CHECK_REQUEST, PT_ALIVE_CHECK_RESPONSE} then Some r2
          else (case edge_dispatch cfg env (dissect (ee_scapy (rv_env env)) fr) r2 of
              None \<Rightarrow> None
            | Some (Inr _, r3) \<Rightarrow> Some r3
            | Some (Inl e, r3) \<Rightarrow> Some (run_cleanup r3)))"

section \<open>The life of a session\<close>

text \<open>Bytes arrive; the loop takes a turn when it has a whole frame or knows that none will come, and is not
  suspended in a Routing Activation; such a suspension ends, at any time; time passes up to the next
  timer; a timer fires; another session probes this one. What Scapy, the registry, the
  network and the random source do may differ from turn to turn, within \<open>E\<close>.\<close>

inductive run_step :: "edge_config \<Rightarrow> ('k run_env \<Rightarrow> bool) \<Rightarrow> 'k edge_run \<Rightarrow> 'k edge_run \<Rightarrow> bool"
  for cfg E where
  feed: "\<not> er_eof r \<Longrightarrow> run_step cfg E r (r\<lparr>er_s := (er_s r)\<lparr>e_in := e_in (er_s r) @ bs\<rparr>\<rparr>)"
| peer_end: "run_step cfg E r (r\<lparr>er_eof := True, er_s := (er_s r)\<lparr>e_reset := e_reset (er_s r) \<or> b\<rparr>\<rparr>)"
| turn: "\<not> er_ended r \<Longrightarrow> er_pause r = None \<Longrightarrow> E env \<Longrightarrow>
    er_eof r \<or> run_closing r \<or> fst (edge_read_frame (edoip cfg) stalled (er_s r)) \<noteq> Inl IncompleteReadError \<Longrightarrow>
    session_turn cfg env stalled r = Some r' \<Longrightarrow> run_step cfg E r r'"
| continue: "er_pause r \<noteq> None \<Longrightarrow> E env \<Longrightarrow> run_step cfg E r (edge_ra_continue cfg env r)"
| tick: "es_now (er_s r) \<le> t \<Longrightarrow> (\<forall>d. er_initial r = Some d \<or> er_general r = Some d \<longrightarrow> t \<le> d) \<Longrightarrow>
    run_step cfg E r (r\<lparr>er_s := (er_s r)\<lparr>es_now := t\<rparr>\<rparr>)"
| fire: "er_initial r = Some d \<or> er_general r = Some d \<Longrightarrow> d \<le> es_now (er_s r) \<Longrightarrow>
    run_step cfg E r (run_schedule_cleanup r)"
| probe: "er_probe r = None \<Longrightarrow> run_step cfg E r (fst (edge_probe_begin r))"
| probe_end: "run_step cfg E r (fst (edge_probe_end r))"

definition new_run :: "'k middleware list \<Rightarrow> int \<Rightarrow> 'k edge_run" where
  "new_run chain now =
     \<lparr>er_s = \<lparr>e_in = [], e_out = [], e_closing = False, e_reset = False, es_activated = False, es_tester = None,
        es_chain = chain, es_conns = [],
        es_legs = (\<lambda>g. \<lparr>leg_addr = 0, leg_max = 0, leg_in = [], leg_out = [], leg_connected = False, leg_terminal = False,
          leg_queue = [], leg_tester = 0, leg_closed = False\<rparr>),
        es_arrivals = (\<lambda>g. []), es_next_leg = 0, es_now = now\<rparr>,
      er_initial = None, er_general = None, er_probe = None, er_pause = None, er_eof = False, er_ended = False\<rparr>"

end
