(* ===== verification/Edge_Exchange_Props.thy ===== *)
theory Edge_Exchange_Props
  imports Edge_Exchange "HOL-Library.Sublist"
begin

text \<open>
  A diagnostic exchange ends, whatever the ECU sends, and relays to the tester what the ECU answered:
  a prefix of its frames, matching the request, with a synthetic NACK only where nothing was relayed,
  and the connection is kept exactly when the exchange was completed.
\<close>

section \<open>What relaying leaves alone\<close>

definition quiet :: "'k edge_session \<Rightarrow> 'k edge_session \<Rightarrow> bool" where
  "quiet s s' \<longleftrightarrow>
     es_legs s' = es_legs s \<and> es_arrivals s' = es_arrivals s \<and> es_conns s' = es_conns s \<and> es_now s \<le> es_now s'
     \<and> e_closing s' = e_closing s \<and> e_reset s' = e_reset s"

lemma quiet_refl [simp]: "quiet s s"
  by (simp add: quiet_def)






section \<open>The exchange ends\<close>

definition exchange_measure :: "nat \<Rightarrow> int \<Rightarrow> 'k edge_session \<Rightarrow> nat" where
  "exchange_measure g deadline s =
     length (leg_queue (es_legs s g)) + length (es_arrivals s g) + nat (deadline - es_now s)"


lemma recv_measure:
  assumes "recv_ecu_frame g t s = (Inr r, s')" "\<not> e_closing s" "0 < t" "t \<le> dl - es_now s"
  shows "exchange_measure g dl s' < exchange_measure g dl s"
  using assms
  by (auto simp: recv_ecu_frame_def leg_recv_def exchange_measure_def Let_def ebind_def
      split: if_splits option.splits list.splits prod.splits sum.splits)



section \<open>The sequence of answers\<close>

abbreviation ptype_of :: "bytes \<Rightarrow> int" where
  "ptype_of f \<equiv> from_be (py_slice 2 4 f)"

text \<open>The frames a tester may see in one exchange: an acknowledgement first, if any, and only one; then
  ResponsePending for this request any number of times; then one more frame, which ends it. Every
  Diagnostic Message among them answers the request, as far as matching is strict.\<close>

fun answer_sequence :: "edge_timers \<Rightarrow> int option \<Rightarrow> bool \<Rightarrow> bytes list \<Rightarrow> bool" where
  "answer_sequence tc sid acked [] = True"
| "answer_sequence tc sid acked (f # fs) =
     (if ptype_of f = PT_DIAGNOSTIC_POSITIVE_ACK then \<not> acked \<and> answer_sequence tc sid True fs
      else if ptype_of f = PT_DIAGNOSTIC_MESSAGE
      then response_matches tc f sid
        \<and> (fs = [] \<or> is_response_pending f \<and> Some (uint (f ! 13)) = sid \<and> answer_sequence tc sid True fs)
      else fs = [])"

text \<open>A frame that completes an exchange.\<close>

definition final_answer_frame :: "bytes \<Rightarrow> bool" where
  "final_answer_frame f \<longleftrightarrow>
     ptype_of f = PT_DIAGNOSTIC_MESSAGE \<and> \<not> is_response_pending f \<or> ptype_of f = PT_DIAGNOSTIC_NEGATIVE_ACK"

definition completes :: "bytes list \<Rightarrow> bool" where
  "completes fs \<longleftrightarrow> fs \<noteq> [] \<and> final_answer_frame (last fs)"

text \<open>What is still to be received from a connection.\<close>

definition incoming :: "nat \<Rightarrow> 'k edge_session \<Rightarrow> bytes list" where
  "incoming g s = List.map_filter (\<lambda>x. x) (leg_queue (es_legs s g)) @ List.map_filter snd (es_arrivals s g)"

text \<open>A session without middleware on an open socket, and Scapy as far as it matters there.\<close>

definition open_session :: "'k edge_env \<Rightarrow> 'k edge_session \<Rightarrow> bool" where
  "open_session env s \<longleftrightarrow>
     es_chain s = [] \<and> \<not> e_closing s \<and> \<not> e_reset s
     \<and> (\<forall>raw. ser (ee_scapy env) (dissect (ee_scapy env) raw) = Inr raw)"

lemma relay_plain:
  assumes "open_session env s"
  shows "relay_ecu_frame cfg env raw s = (Inr (), s\<lparr>e_out := e_out s @ [raw]\<rparr>)"
proof -
  have "s\<lparr>es_chain := []\<rparr> = s" using assms by (simp add: open_session_def)
  with assms show ?thesis
    by (simp add: open_session_def relay_ecu_frame_def Let_def run_chain_def try_catch_def bnd_def edge_send_raw_def)
qed

definition diag_nack_frame :: "int \<Rightarrow> bytes \<Rightarrow> bytes" where
  "diag_nack_frame code request =
     [2, 0xFD, 0x80, 3, 0, 0, 0, 5] @ py_slice 10 12 request @ py_slice 8 10 request @ [word_of_int code]"

lemma nack_header: "doip_header 2 PT_DIAGNOSTIC_NEGATIVE_ACK 5 = [2, 0xFD, 0x80, 3, 0, 0, 0, 5]"
  by code_simp

lemma send_diag_nack_open:
  assumes "\<not> e_closing s" "\<not> e_reset s" "12 \<le> length request" "0 \<le> c" "c < 256"
  shows "send_diag_nack c request s = (Inr (), s\<lparr>e_out := e_out s @ [diag_nack_frame c request]\<rparr>)"
proof -
  let ?p = "py_slice 10 12 request @ py_slice 8 10 request @ [word_of_int c]"
  have "length ?p = 5" using assms(3) by (simp add: py_slice_def)
  moreover from this have "frame_args_ok PT_DIAGNOSTIC_NEGATIVE_ACK ?p 2"
    by (simp add: frame_args_ok_def payload_types)
  ultimately have "edge_build_frame PT_DIAGNOSTIC_NEGATIVE_ACK ?p 2 = Inr (diag_nack_frame c request)"
    by (simp only: edge_codec.build_ok of_nat_numeral nack_header diag_nack_frame_def)
  with assms show ?thesis by (simp add: send_diag_nack_def edge_send_frame_def edge_send_raw_def)
qed

lemma plain_out: "open_session env (s\<lparr>e_out := x\<rparr>) = open_session env s"
  by (simp add: open_session_def)

text \<open>Receiving takes frames in order and touches nothing the tester sees.\<close>

lemma recv_plain:
  assumes r: "recv_ecu_frame g t s = (r, s1)" and p: "open_session env s" and t: "0 \<le> t"
  shows "open_session env s1 \<and> e_out s1 = e_out s \<and> es_conns s1 = es_conns s
    \<and> (\<forall>raw. r = Inr (Some raw) \<longrightarrow> incoming g s = raw # incoming g s1)
    \<and> (r = Inr None \<longrightarrow> incoming g s1 = incoming g s) \<and> (\<forall>e. r = Inl e \<longrightarrow> is_Exception e)
    \<and> es_now s1 \<le> es_now s + t"
  using assms
  by (auto simp: recv_ecu_frame_def leg_recv_def Let_def ebind_def open_session_def incoming_def
      List.map_filter_simps is_Exception_def
      split: if_splits option.splits list.splits prod.splits sum.splits)


section \<open>What the tester sees\<close>

text \<open>The outcome of the loop from state \<open>s\<close>, with the frames \<open>fs\<close> relayed from there on.\<close>

definition loop_outcome ::
    "edge_timers \<Rightarrow> int option \<Rightarrow> nat \<Rightarrow> bytes \<Rightarrow> int \<Rightarrow> bool \<Rightarrow> 'k edge_env \<Rightarrow> 'k edge_session
       \<Rightarrow> bytes list \<Rightarrow> (bool res \<times> bool) \<times> 'k edge_session \<Rightarrow> bool" where
  "loop_outcome tc sid g request deadline acc env s fs out =
     (case out of ((r, acc'), s') \<Rightarrow>
        prefix fs (incoming g s) \<and> answer_sequence tc sid acc fs \<and> open_session env s'
        \<and> (e_out s' = e_out s @ fs \<or> r = Inr False \<and> \<not> acc \<and> fs = [] \<and> e_out s' = e_out s @ [diag_nack_frame 6 request])
        \<and> (r = Inr True \<longleftrightarrow> completes fs) \<and> (\<forall>e. r = Inl e \<longrightarrow> is_Exception e \<and> (acc' \<or> fs = []))
        \<and> (acc \<longrightarrow> acc') \<and> es_conns s' = es_conns s \<and> es_now s' \<le> max (es_now s) deadline)"

lemma loop_outcome_nothing:
  "open_session env s' \<Longrightarrow> e_out s' = e_out s \<Longrightarrow> es_conns s' = es_conns s \<Longrightarrow> es_now s' \<le> max (es_now s) dl \<Longrightarrow>
   r \<noteq> Inr True \<Longrightarrow> (\<forall>e. r = Inl e \<longrightarrow> is_Exception e) \<Longrightarrow> (acc \<longrightarrow> acc') \<Longrightarrow>
   loop_outcome tc sid g req dl acc env s [] ((r, acc'), s')"
  by (simp add: loop_outcome_def completes_def)

lemma loop_outcome_give_up:
  assumes "open_session env s'" "e_out s' = e_out s" "es_conns s' = es_conns s" "es_now s' \<le> max (es_now s) dl"
    "12 \<le> length req"
  shows "loop_outcome tc sid g req dl acc env s [] (give_up acc req s')"
  using assms send_diag_nack_open [of s' req 6]
  by (auto simp: give_up_def loop_outcome_def completes_def open_session_def)

text \<open>One more frame in front of an outcome.\<close>

lemma loop_outcome_Cons:
  assumes o: "loop_outcome tc sid g req dl True env s2 fs out"
    and s2: "s2 = s1\<lparr>e_out := e_out s1 @ [raw]\<rparr>" and inc: "incoming g s = raw # incoming g s1"
    and eq: "e_out s1 = e_out s" "es_conns s1 = es_conns s" "es_now s1 \<le> max (es_now s) dl"
    and seq: "answer_sequence tc sid True fs \<Longrightarrow> answer_sequence tc sid acc (raw # fs)"
    and last: "fs = [] \<Longrightarrow> \<not> final_answer_frame raw"
  shows "loop_outcome tc sid g req dl acc env s (raw # fs) out"
proof -
  have "incoming g s2 = incoming g s1" by (simp add: s2 incoming_def)
  moreover have "completes (raw # fs) \<longleftrightarrow> completes fs" using last by (auto simp: completes_def)
  ultimately show ?thesis using o s2 inc eq seq by (auto simp: loop_outcome_def split: prod.splits)
qed

text \<open>A last frame.\<close>

lemma loop_outcome_single:
  assumes "open_session env s1" "incoming g s = raw # incoming g s1"
    "e_out s1 = e_out s" "es_conns s1 = es_conns s" "es_now s1 \<le> max (es_now s) dl"
    "answer_sequence tc sid acc [raw]" "b \<longleftrightarrow> final_answer_frame raw" "acc \<longrightarrow> acc'"
  shows "loop_outcome tc sid g req dl acc env s [raw] ((Inr b, acc'), s1\<lparr>e_out := e_out s1 @ [raw]\<rparr>)"
  using assms by (auto simp: loop_outcome_def completes_def plain_out)

text \<open>A wait that ran out.\<close>

lemma loop_outcome_wait:
  assumes "loop_outcome tc sid g req dl acc env s1 fs out" "incoming g s1 = incoming g s"
    "e_out s1 = e_out s" "es_conns s1 = es_conns s" "es_now s1 \<le> max (es_now s) dl"
  shows "loop_outcome tc sid g req dl acc env s fs out"
  using assms by (auto simp: loop_outcome_def split: prod.splits)

lemma exchange_frame_outcome:
  assumes rs: "recv_ecu_frame g (min (ecu_response_timeout (timers cfg)) (dl - es_now s)) s = (Inr (Some raw), s1)"
    and op: "\<not> e_closing s" "\<not> dl - es_now s \<le> 0"
    and pl: "open_session env s1" and inc: "incoming g s = raw # incoming g s1"
    and eq: "e_out s1 = e_out s" "es_conns s1 = es_conns s" "es_now s1 \<le> max (es_now s) dl"
    and ih: "\<And>pend'. \<exists>fs out. exchange_loop cfg env g sid request dl True pend' (s1\<lparr>e_out := e_out s1 @ [raw]\<rparr>) = Some out
      \<and> loop_outcome (timers cfg) sid g request dl True env (s1\<lparr>e_out := e_out s1 @ [raw]\<rparr>) fs out"
  shows "\<exists>fs out. exchange_loop cfg env g sid request dl acc pend s = Some out
    \<and> loop_outcome (timers cfg) sid g request dl acc env s fs out"
proof -
  let ?s2 = "s1\<lparr>e_out := e_out s1 @ [raw]\<rparr>" and ?tc = "timers cfg"
  note loop = exchange_loop.simps [of cfg env g sid request dl acc pend s] Let_def rs relay_plain [OF pl]
  have idle: "loop_outcome ?tc sid g request dl acc env s [] ((Inr False, acc), s1)"
    by (rule loop_outcome_nothing) (use pl eq in auto)
  have single: "loop_outcome ?tc sid g request dl acc env s [raw] ((Inr b, acc'), ?s2)"
    if "answer_sequence ?tc sid acc [raw]" "b \<longleftrightarrow> final_answer_frame raw" "acc \<longrightarrow> acc'" for b acc'
    by (rule loop_outcome_single [OF pl inc eq that])
  have more: "\<exists>fs out. exchange_loop cfg env g sid request dl True pend' ?s2 = Some out
      \<and> loop_outcome ?tc sid g request dl acc env s fs out"
    if "\<And>fs. answer_sequence ?tc sid True fs \<Longrightarrow> answer_sequence ?tc sid acc (raw # fs)" "\<not> final_answer_frame raw" for pend'
    using ih [of pend'] loop_outcome_Cons [OF _ refl inc eq that(1) that(2)] by blast
  show ?thesis
  proof (cases "ptype_of raw = PT_DIAGNOSTIC_POSITIVE_ACK")
    case True
    show ?thesis
    proof (cases acc)
      case acked: True
      with True op loop have "exchange_loop cfg env g sid request dl acc pend s = Some ((Inr False, acc), s1)" by simp
      with idle show ?thesis by blast
    next
      case False
      with True op loop more [of pend] show ?thesis by (auto simp: final_answer_frame_def payload_types)
    qed
  next
    case na: False
    show ?thesis
    proof (cases "ptype_of raw = PT_DIAGNOSTIC_MESSAGE")
      case False
      with na op loop single [of "ptype_of raw = PT_DIAGNOSTIC_NEGATIVE_ACK" acc] show ?thesis
        by (auto simp: final_answer_frame_def)
    next
      case True
      then have fin: "final_answer_frame raw \<longleftrightarrow> \<not> is_response_pending raw"
        by (auto simp: final_answer_frame_def payload_types)
      let ?again = "is_response_pending raw \<and> sid \<noteq> None \<and> Some (uint (raw ! 13)) = sid"
      show ?thesis
      proof (cases "response_matches ?tc raw sid")
        case False
        with na True op loop have "exchange_loop cfg env g sid request dl acc pend s = Some ((Inr False, acc), s1)" by simp
        with idle show ?thesis by blast
      next
        case ok: True
        with na True op loop
        have l: "exchange_loop cfg env g sid request dl acc pend s =
            (if ?again then exchange_loop cfg env g sid request dl True True ?s2
             else Some ((Inr (\<not> is_response_pending raw), True), ?s2))"
          by simp
        have seq: "answer_sequence ?tc sid acc (raw # fs)" if "answer_sequence ?tc sid True fs" "fs = [] \<or> ?again" for fs
          using that na True ok by auto
        show ?thesis
        proof (cases ?again)
          case True
          with l more [of True] seq fin show ?thesis by (simp del: answer_sequence.simps)
        next
          case False
          with l single [of "\<not> is_response_pending raw" True] seq [of "[]"] fin show ?thesis
            by (auto simp del: answer_sequence.simps(2) split_paired_Ex)
        qed
      qed
    qed
  qed
qed

lemma exchange_loop_outcome:
  assumes rt: "0 < ecu_response_timeout (timers cfg)" and req: "12 \<le> length request"
  shows "open_session env s \<Longrightarrow>
    \<exists>fs out. exchange_loop cfg env g sid request dl acc pend s = Some out
      \<and> loop_outcome (timers cfg) sid g request dl acc env s fs out"
proof (induction "exchange_measure g dl s" arbitrary: acc pend s rule: less_induct)
  case less
  have open_s: "\<not> e_closing s" using less.prems by (simp add: open_session_def)
  show ?case
  proof (cases "dl - es_now s \<le> 0")
    case True
    with open_s have "exchange_loop cfg env g sid request dl acc pend s = Some (give_up acc request s)"
      by (subst exchange_loop.simps) (simp add: Let_def)
    moreover have "loop_outcome (timers cfg) sid g request dl acc env s [] (give_up acc request s)"
      by (rule loop_outcome_give_up) (use less.prems req in auto)
    ultimately show ?thesis by blast
  next
    case False
    let ?t = "min (ecu_response_timeout (timers cfg)) (dl - es_now s)"
    obtain r s1 where rs: "recv_ecu_frame g ?t s = (r, s1)" by (cases "recv_ecu_frame g ?t s")
    note rp = recv_plain [OF rs less.prems]
    have pl: "open_session env s1" and o1: "e_out s1 = e_out s" and c1: "es_conns s1 = es_conns s"
      and n1: "es_now s1 \<le> max (es_now s) dl"
      using rp rt False by auto
    have m: "exchange_measure g dl s1 < exchange_measure g dl s" if "r = Inr x" for x
      using recv_measure [of g ?t s x s1 dl] rs that False open_s rt by simp
    have ih: "\<exists>fs out. exchange_loop cfg env g sid request dl acc' pend' s' = Some out
        \<and> loop_outcome (timers cfg) sid g request dl acc' env s' fs out"
      if "r = Inr x" "s' = s1 \<or> s' = s1\<lparr>e_out := e_out s1 @ [raw]\<rparr>" for x acc' pend' s' raw
    proof (rule less.hyps)
      show "exchange_measure g dl s' < exchange_measure g dl s"
        using m [OF that(1)] that(2) by (auto simp: exchange_measure_def)
      show "open_session env s'" using that(2) pl by (auto simp: plain_out)
    qed
    note loop = exchange_loop.simps [of cfg env g sid request dl acc pend s] Let_def rs
    consider (err) e where "r = Inl e" | (timeout) "r = Inr None" | (frame) raw where "r = Inr (Some raw)"
      by (cases r) auto
    then show ?thesis
    proof cases
      case err
      have "loop_outcome (timers cfg) sid g request dl acc env s [] ((Inl e, acc), s1)"
        by (rule loop_outcome_nothing) (use pl o1 c1 n1 rp err rt False in auto)
      with err open_s False loop show ?thesis by auto
    next
      case timeout
      have inc: "incoming g s1 = incoming g s" using rp timeout rt False by auto
      show ?thesis
      proof (cases pend)
        case True
        with timeout ih [OF timeout, of s1] open_s False loop loop_outcome_wait [OF _ inc o1 c1 n1] show ?thesis
          by fastforce
      next
        case np: False
        have "loop_outcome (timers cfg) sid g request dl acc env s [] (give_up acc request s1)"
          by (rule loop_outcome_give_up) (use pl o1 c1 n1 req in auto)
        with timeout np open_s False loop show ?thesis by auto
      qed
    next
      case frame
      have inc: "incoming g s = raw # incoming g s1" using rp frame rt False by auto
      show ?thesis
        using rs frame by (intro exchange_frame_outcome [OF _ open_s False pl inc o1 c1 n1] ih [OF frame]) auto
    qed
  qed
qed


text \<open>The exchange as the tester sees it, and what becomes of the connection.\<close>

lemma bounded_wait: "0 \<le> bounded_wait n d" "bounded_wait n d \<le> max 0 n"
  by (auto simp: bounded_wait_def split: option.split)

lemma loop_outcome_end:
  assumes o: "loop_outcome tc sid g req dl False env s fs out" and "12 \<le> length req"
    and cached: "map_of (es_conns s) target = Some g" and d: "distinct (map fst (es_conns s))"
    and e: "exchange_end cfg env target g req out = (r, s')" and rt: "0 < ecu_response_timeout (timers cfg)"
  shows "r = Inr () \<and> (e_out s' = e_out s @ fs \<or> fs = [] \<and> e_out s' = e_out s @ [diag_nack_frame 6 req])
    \<and> map_of (es_conns s') = (if completes fs then map_of (es_conns s) else (map_of (es_conns s))(target := None))
    \<and> (completes fs \<or> leg_closed (es_legs s' g))
    \<and> es_now s' \<le> max (es_now s) dl + (if completes fs then 0 else ecu_response_timeout (timers cfg))"
proof -
  obtain x a s1 where out: "out = ((x, a), s1)" by (metis prod.exhaust)
  have c: "es_conns s1 = es_conns s" and n: "es_now s1 \<le> max (es_now s) dl" and pl: "open_session env s1"
    using o by (auto simp: out loop_outcome_def)
  have ret: "map_of (es_conns (retire_leg cfg env target g s2)) = (map_of (es_conns s))(target := None)"
      "e_out (retire_leg cfg env target g s2) = e_out s2" "leg_closed (es_legs (retire_leg cfg env target g s2) g)"
      "es_now (retire_leg cfg env target g s2) \<le> es_now s2 + ecu_response_timeout (timers cfg)"
    if "es_conns s2 = es_conns s" for s2 :: "'a edge_session"
    using that cached bounded_wait (2) [of "ecu_response_timeout (timers cfg)" "ee_close env g (es_now s2)"] rt
    by (auto simp: retire_leg_def Let_def AList.delete_conv' leg_close_def)
  have nack: "send_diag_nack 6 req s1 = (Inr (), s1\<lparr>e_out := e_out s1 @ [diag_nack_frame 6 req]\<rparr>)"
    by (rule send_diag_nack_open) (use pl assms(2) in \<open>auto simp: open_session_def\<close>)
  show ?thesis
    using o e n c ret [of s1] ret [of "s1\<lparr>e_out := e_out s1 @ [diag_nack_frame 6 req]\<rparr>"]
    by (auto simp: out exchange_end_def loop_outcome_def nack split: sum.splits if_splits)
qed


lemma send_within_live:
  assumes "leg_connected (es_legs s g)" "\<not> leg_terminal (es_legs s g)"
  shows "\<exists>r n. send_within env g data limit s =
      (r, s\<lparr>es_legs := (es_legs s)(g := (es_legs s g)\<lparr>leg_out := leg_out (es_legs s g) @ [data]\<rparr>), es_now := n\<rparr>)
    \<and> (r = Inr () \<or> r = Inl TimeoutError) \<and> es_now s \<le> n \<and> n \<le> es_now s + max 0 limit"
  using assms bounded_wait [of limit "ee_drain env g (es_now s)"]
  by (intro exI [of _ "fst (send_within env g data limit s)"]
      exI [of _ "es_now s + bounded_wait limit (ee_drain env g (es_now s))"])
    (simp add: send_within_def on_leg_def leg_send_def)

text \<open>C15: one exchange on a cached connection, in a session without middleware whose tester takes every
  frame at once, returns normally: within the exchange budget when it completes, and otherwise
  within the budget and the response timeout, which bounds the wait for the connection to close.
  However long the ECU's socket takes the request, and whatever the ECU sends, the exchange relays a
  prefix of what the ECU sends, as an answer sequence for the request: at most one acknowledgement,
  ResponsePending any number of times, one more frame. Only where nothing at all was relayed may the
  tester get a synthetic NACK (target unreachable) instead. The connection stays cached exactly when
  the answers ended with a final response or a NACK of the ECU; in every other case, timeout, reset,
  mismatch, repeated acknowledgement or a request the ECU's socket does not take, it is retired and
  closed, so a late frame cannot answer a later request.\<close>

theorem edge_exchange_faithful:
  assumes "0 < ecu_response_timeout (timers cfg)" "0 \<le> ecu_pending_max_wait (timers cfg)" "12 \<le> length request"
    and pl: "open_session env s"
    and cached: "map_of (es_conns s) target = Some g" "distinct (map fst (es_conns s))"
    and live: "leg_connected (es_legs s g)" "\<not> leg_terminal (es_legs s g)"
  shows "\<exists>fs s'. exchange_with_ecu cfg env target g sent request s = Some (Inr (), s')
    \<and> prefix fs (incoming g s)
    \<and> answer_sequence (timers cfg) (if 13 \<le> length sent then Some (uint (sent ! 12)) else None) False fs
    \<and> (e_out s' = e_out s @ fs \<or> fs = [] \<and> e_out s' = e_out s @ [diag_nack_frame 6 request])
    \<and> map_of (es_conns s') = (if completes fs then map_of (es_conns s) else (map_of (es_conns s))(target := None))
    \<and> (completes fs \<or> leg_closed (es_legs s' g))
    \<and> es_now s' \<le> es_now s + ecu_pending_max_wait (timers cfg)
        + (if completes fs then 0 else ecu_response_timeout (timers cfg))"
proof -
  let ?dl = "es_now s + ecu_pending_max_wait (timers cfg)"
    and ?sid = "if 13 \<le> length sent then Some (uint (sent ! 12)) else None"
  obtain x n where send: "send_within env g sent (ecu_pending_max_wait (timers cfg)) s =
      (x, s\<lparr>es_legs := (es_legs s)(g := (es_legs s g)\<lparr>leg_out := leg_out (es_legs s g) @ [sent]\<rparr>), es_now := n\<rparr>)"
    (is "_ = (x, ?s1)") and x: "x = Inr () \<or> x = Inl TimeoutError" and n: "n \<le> ?dl"
    using send_within_live [OF live, of env sent "ecu_pending_max_wait (timers cfg)"] assms(2) by auto
  have same: "es_conns ?s1 = es_conns s" "e_out ?s1 = e_out s" "incoming g ?s1 = incoming g s"
    by (simp_all add: incoming_def)
  have pl1: "open_session env ?s1" using pl by (simp add: open_session_def)
  have "\<exists>fs out. loop_outcome (timers cfg) ?sid g request ?dl False env ?s1 fs out
      \<and> exchange_with_ecu cfg env target g sent request s = Some (exchange_end cfg env target g request out)"
  proof (cases "x = Inr ()")
    case True
    obtain fs out where "exchange_loop cfg env g ?sid request ?dl False False ?s1 = Some out"
        "loop_outcome (timers cfg) ?sid g request ?dl False env ?s1 fs out"
      using exchange_loop_outcome [OF assms(1,3) pl1] by blast
    with True pl send show ?thesis
      by (intro exI [of _ fs] exI [of _ out]) (simp add: exchange_with_ecu_def open_session_def Let_def)
  next
    case False
    with x have x: "x = Inl TimeoutError" by simp
    have "loop_outcome (timers cfg) ?sid g request ?dl False env ?s1 [] ((Inl TimeoutError, False), ?s1)"
      by (rule loop_outcome_nothing) (use pl1 in \<open>simp_all add: is_Exception_def\<close>)
    with x pl send show ?thesis
      by (intro exI [of _ "[]"] exI [of _ "((Inl TimeoutError, False), ?s1)"])
        (simp add: exchange_with_ecu_def open_session_def Let_def)
  qed
  then obtain fs out where o: "loop_outcome (timers cfg) ?sid g request ?dl False env ?s1 fs out"
    and run: "exchange_with_ecu cfg env target g sent request s = Some (exchange_end cfg env target g request out)"
    by blast
  obtain r s' where e: "exchange_end cfg env target g request out = (r, s')"
    by (cases "exchange_end cfg env target g request out")
  note end' = loop_outcome_end [OF o assms(3) _ _ e assms(1), unfolded same, OF cached]
  have "prefix fs (incoming g s) \<and> answer_sequence (timers cfg) ?sid False fs"
    using o by (auto simp: loop_outcome_def same split: prod.splits)
  with end' run e n show ?thesis by (intro exI [of _ fs] exI [of _ s']) auto
qed

section \<open>Witnesses\<close>

text \<open>A node at 0xE400 with one ECU, 0x1001, and a session whose connection 0 to it is about to receive an
  acknowledgement, a ResponsePending and, three seconds later, the answer to ReadDataByIdentifier.\<close>

definition ex_edge_config :: edge_config where
  "ex_edge_config = \<lparr>edoip = ex_edge_doip, timers = \<lparr>ecu_response_timeout = 2000, ecu_pending_max_wait = 30000,
     strict_response_matching = True\<rparr>, routing_table = []\<rparr>"

definition ex_env :: "bytes edge_env" where
  "ex_env = \<lparr>ee_scapy = raw_scapy, ee_draws = \<lparr>random_float = 0, randint = (\<lambda>a b. a)\<rparr>,
     ee_dial = (\<lambda>r t. None), ee_urandom = [1, 2, 3, 4],
     ee_drain = (\<lambda>g t. Some 0), ee_close = (\<lambda>g t. Some 0)\<rparr>"

definition ex_request :: bytes where
  "ex_request = [2, 0xFD, 0x80, 1, 0, 0, 0, 7, 0x0E, 0x80, 0x10, 1, 0x22, 0xF1, 0x90]"

definition ex_answers :: "(int \<times> bytes) list" where
  "ex_answers =
     [(10, [2, 0xFD, 0x80, 2, 0, 0, 0, 5, 0x10, 1, 0x0E, 0x80, 0]),
      (50, [2, 0xFD, 0x80, 1, 0, 0, 0, 7, 0x10, 1, 0x0E, 0x80, 0x7F, 0x22, 0x78]),
      (3050, [2, 0xFD, 0x80, 1, 0, 0, 0, 8, 0x10, 1, 0x0E, 0x80, 0x62, 0xF1, 0x90, 0x41])]"

definition ex_session :: "bytes edge_session" where
  "ex_session =
     \<lparr>e_in = [], e_out = [], e_closing = False, e_reset = False, es_activated = True, es_tester = Some 0x0E80,
      es_chain = [], es_conns = [(0x1001, 0)],
      es_legs = (\<lambda>g. \<lparr>leg_addr = 0x1001, leg_max = 4096, leg_in = [], leg_out = [], leg_connected = True,
        leg_terminal = False, leg_queue = [], leg_tester = 0x0E80, leg_closed = False\<rparr>),
      es_arrivals = (\<lambda>g. map (\<lambda>(t, f). (t, Some f)) ex_answers), es_next_leg = 1, es_now = 0\<rparr>"

lemma open_ex: "open_session (ex_env\<lparr>ee_drain := dr, ee_close := cl\<rparr>) ex_session"
  by (simp add: open_session_def ex_env_def ex_session_def raw_scapy_def)


text \<open>The same connection when it never closes and takes five seconds to accept the request.\<close>

definition slow_env :: "bytes edge_env" where
  "slow_env = ex_env\<lparr>ee_drain := (\<lambda>g t. Some 5000), ee_close := (\<lambda>g t. None)\<rparr>"

theorem edge_exchange_faithful_witness:
  "\<exists>fs s'. exchange_with_ecu ex_edge_config slow_env 0x1001 0 ex_request ex_request ex_session = Some (Inr (), s')
    \<and> prefix fs (map snd ex_answers) \<and> answer_sequence (timers ex_edge_config) (Some 0x22) False fs
    \<and> es_now s' \<le> 32000"
proof -
  have inc: "incoming 0 ex_session = map snd ex_answers"
    by (simp add: incoming_def ex_session_def ex_answers_def List.map_filter_simps)
  have sid: "(if 13 \<le> length ex_request then Some (uint (ex_request ! 12)) else None) = Some 0x22"
    by (simp add: ex_request_def)
  have op: "open_session slow_env ex_session" unfolding slow_env_def by (rule open_ex)
  have times: "0 < ecu_response_timeout (timers ex_edge_config)" "0 \<le> ecu_pending_max_wait (timers ex_edge_config)"
    "12 \<le> length ex_request" by (simp_all add: ex_edge_config_def ex_request_def)
  have conn: "map_of (es_conns ex_session) 0x1001 = Some 0" "distinct (map fst (es_conns ex_session))"
    "leg_connected (es_legs ex_session 0)" "\<not> leg_terminal (es_legs ex_session 0)"
    by (simp_all add: ex_session_def)
  have now: "es_now ex_session = 0" "ecu_pending_max_wait (timers ex_edge_config) = 30000"
    "ecu_response_timeout (timers ex_edge_config) = 2000" by (simp_all add: ex_session_def ex_edge_config_def)
  from edge_exchange_faithful [OF times op conn, of ex_request, unfolded inc sid now] obtain fs s' where
    x: "exchange_with_ecu ex_edge_config slow_env 0x1001 0 ex_request ex_request ex_session = Some (Inr (), s')"
      "prefix fs (map snd ex_answers)" "answer_sequence (timers ex_edge_config) (Some 0x22) False fs"
    and n: "es_now s' \<le> 0 + 30000 + (if completes fs then 0 else 2000)"
    by blast
  from n have "es_now s' \<le> 32000" by (simp split: if_splits)
  with x show ?thesis by blast
qed

end
