(* ===== verification/Edge_Session_Props.thy ===== *)
theory Edge_Session_Props
  imports Edge_Session Edge_Exchange_Props
begin

text \<open>
  Invariants of the life of an EdgeNode session: nothing reaches an ECU before activation, the tester's
  identity never changes afterwards and every frame towards an ECU carries it (or, for a tester 0, the
  address the node announces for it), and a session that is never activated does not outlive its initial
  timer by more than the handling of an activation request that was read before.
\<close>

section \<open>Frames towards the ECU\<close>

abbreviation source_of :: "bytes \<Rightarrow> int" where
  "source_of f \<equiv> from_be (py_slice 8 10 f)"

text \<open>The address under which the node activates itself at an ECU is the tester's, or 0x0E00 for the tester 0.\<close>

definition announced :: "int \<Rightarrow> int" where
  "announced a = (if a = 0 then 0x0E00 else a)"

text \<open>A frame for the tester \<open>a\<close>: its source is \<open>a\<close>, or it is one of the frames of the node's own activation
  (the Routing Activation Request, an Alive Check Response) with the announced address.\<close>

definition speaks_for :: "int \<Rightarrow> bytes \<Rightarrow> bool" where
  "speaks_for a f \<longleftrightarrow> source_of f = a
     \<or> ptype_of f \<in> {PT_ROUTING_ACT_REQUEST, PT_ALIVE_CHECK_RESPONSE} \<and> source_of f = announced a"

definition leg_speaks :: "int \<Rightarrow> ecu_leg \<Rightarrow> bool" where
  "leg_speaks a l \<longleftrightarrow> (\<forall>f \<in> set (leg_out l). speaks_for a f)"

lemma keeps_leg_send: "speaks_for a f \<Longrightarrow> keeps (leg_speaks a) (leg_send f)"
  by (simp add: keeps_def leg_send_def leg_speaks_def)

lemma source_of_built: "source_of (doip_header v pt n @ int_be 2 a @ rest) = a mod 65536"
  by (simp add: doip_header_def py_slice_def from_be_int_be)

lemma announced_range: "0 \<le> a \<Longrightarrow> a < 65536 \<Longrightarrow> 0 \<le> announced a \<and> announced a < 65536"
  by (simp add: announced_def)

lemma speaks_built:
  assumes "pt \<in> {PT_ROUTING_ACT_REQUEST, PT_ALIVE_CHECK_RESPONSE}" "0 \<le> a" "a < 65536"
  shows "speaks_for a (doip_header v pt n @ int_be 2 (announced a) @ rest)"
proof -
  have "ptype_of (doip_header v pt n @ int_be 2 (announced a) @ rest) = pt"
    using assms(1) by (auto simp: doip_header_def py_slice_def from_be_int_be payload_types)
  then show ?thesis using assms announced_range [of a] by (simp add: speaks_for_def source_of_built)
qed

lemma keeps_alive_reply:
  assumes a: "0 \<le> a" "a < 65536"
  shows "keeps (leg_speaks a) (send_alive_check_response (announced a))"
proof -
  have "speaks_for a f" if "ecu_build_frame PT_ALIVE_CHECK_RESPONSE (int_be 2 (announced a)) = Inr f" for f
    using that speaks_built [of PT_ALIVE_CHECK_RESPONSE a _ _ "[]"] a
    by (auto simp: ecu_build_frame_virt virt_codec.build_Inr_iff DOIP_VER_def)
  then show ?thesis
    using announced_range [OF a] unfolding send_alive_check_response_def
    by (auto simp: keeps_def bnd_def pack_uint_def split: sum.split dest: keepsD [OF keeps_leg_send, rotated])
qed

lemma leg_out_read [simp]: "leg_out (snd (ecu_read_frame l)) = leg_out l"
  by (auto simp: ecu_read_frame_def bnd_def leg_read_exactly_def Let_def split: prod.split sum.split option.split)

lemma keeps_read: "keeps (leg_speaks a) ecu_read_frame"
  by (rule keepsI) (simp add: leg_speaks_def)

lemma keeps_ra_frame: "0 \<le> a \<Longrightarrow> a < 65536 \<Longrightarrow> keeps (leg_speaks a) (ra_frame (announced a) f)"
  unfolding ra_frame_def Let_def by (intro keeps_rules keeps_alive_reply)

lemma keeps_ra_wait: "0 \<le> a \<Longrightarrow> a < 65536 \<Longrightarrow> keeps (leg_speaks a) (ra_wait n (announced a))"
  by (induction n) (auto intro!: keeps_rules keeps_read keeps_ra_frame)

lemma keeps_activation:
  assumes "0 \<le> a" "a < 65536"
  shows "keeps (leg_speaks a) (do_routing_activation (announced a))"
proof (cases "build_ra_request (announced a)")
  case (Inl e)
  then show ?thesis by (simp add: do_routing_activation_def keeps_def bnd_def)
next
  case (Inr f)
  then have "speaks_for a f"
    using assms announced_range [OF assms] speaks_built [of PT_ROUTING_ACT_REQUEST a _ _ "[0, 0, 0, 0, 0]"]
    by (auto simp: build_ra_request_ok virt_codec.build_Inr_iff DOIP_VER_def)
  moreover have "do_routing_activation (announced a) = seq (leg_send f) (ra_wait 3 (announced a))"
    by (simp add: do_routing_activation_def Inr)
  ultimately show ?thesis using assms by (simp add: keeps_seq keeps_leg_send keeps_ra_wait)
qed

lemma leg_out_close [simp]: "leg_out (leg_close l) = leg_out l" "leg_out (mark_terminal d l) = leg_out l"
  by (simp_all add: leg_close_def mark_terminal_def Let_def)

lemma keeps_leg_connect:
  assumes "0 \<le> a" "a < 65536"
  shows "keeps (leg_speaks a) (leg_connect (announced a))"
proof (rule keepsI)
  fix l assume l: "leg_speaks a l"
  obtain x l' where r: "do_routing_activation (announced a) (l\<lparr>leg_connected := True, leg_tester := announced a\<rparr>) = (x, l')" by fastforce
  have "leg_speaks a l'"
    using keepsD [OF keeps_activation [OF assms], of "l\<lparr>leg_connected := True, leg_tester := announced a\<rparr>"] l r
    by (simp add: leg_speaks_def)
  then show "leg_speaks a (snd (leg_connect (announced a) l))"
    using l r by (cases x) (simp_all add: leg_connect_def leg_speaks_def)
qed

section \<open>The exchange\<close>

text \<open>A plain session that speaks for its tester.\<close>

definition spoken :: "int \<Rightarrow> 'k edge_session \<Rightarrow> bool" where
  "spoken a s \<longleftrightarrow> es_tester s = Some a \<and> es_activated s \<and> es_chain s = [] \<and> (\<forall>g. leg_speaks a (es_legs s g))"

text \<open>Steps that leave identity, chain and the frames sent to ECUs alone.\<close>

definition silent :: "'k edge_session \<Rightarrow> 'k edge_session \<Rightarrow> bool" where
  "silent s s' \<longleftrightarrow> es_tester s' = es_tester s \<and> es_activated s' = es_activated s \<and> es_chain s' = es_chain s
     \<and> (\<forall>g. leg_out (es_legs s' g) = leg_out (es_legs s g))"

lemma silent_refl [simp]: "silent s s"
  by (simp add: silent_def)

lemma silent_trans: "silent s s' \<Longrightarrow> silent s' s'' \<Longrightarrow> silent s s''"
  by (simp add: silent_def)

lemma silent_spoken: "silent s s' \<Longrightarrow> spoken a s \<Longrightarrow> spoken a s'"
  by (auto simp: silent_def spoken_def leg_speaks_def)

lemma silent_send_raw: "edge_send_raw f s = (x, s') \<Longrightarrow> silent s s'"
  by (auto simp: edge_send_raw_def silent_def split: if_splits)

lemma silent_send_frame: "edge_send_frame pt pl s = (x, s') \<Longrightarrow> silent s s'"
  by (auto simp: edge_send_frame_def bnd_def split: sum.splits dest: silent_send_raw)

lemma silent_nacks:
  "send_header_nack c s = (x, s') \<Longrightarrow> silent s s'" "send_diag_nack c f s = (x, s') \<Longrightarrow> silent s s'"
  "send_routing_activation_response dc c a s = (x, s') \<Longrightarrow> silent s s'"
  by (auto simp: send_header_nack_def send_diag_nack_def send_routing_activation_response_def seq_def bnd_def simp del: py_bytes.simps
      split: sum.splits prod.splits if_splits dest: silent_send_frame)

lemma silent_relay:
  assumes "relay_ecu_frame cfg env f s = (x, s')" "es_chain s = []"
  shows "silent s s'"
proof -
  have eq: "s\<lparr>es_chain := []\<rparr> = s" using assms(2) by simp
  show ?thesis
    using assms
    by (auto simp: eq relay_ecu_frame_def Let_def run_chain_def try_catch_def bnd_def split: if_splits sum.splits dest: silent_send_raw)
qed

lemma silent_recv: "recv_ecu_frame g t s = (x, s') \<Longrightarrow> silent s s'"
  by (auto simp: recv_ecu_frame_def leg_recv_def Let_def silent_def
      split: if_splits option.splits list.splits prod.splits)

lemma silent_give_up: "silent s (snd (give_up acc req s))"
  by (auto simp: give_up_def split: prod.split sum.split dest: silent_nacks)

lemma silent_loop:
  assumes "exchange_loop cfg env g rid req dl acc pend s = Some y"
  shows "es_chain s = [] \<longrightarrow> silent s (snd y)"
  using assms
proof (rule exchange_loop.raw_induct
    [where P = "\<lambda>cfg env g rid req dl acc pend s y. es_chain s = [] \<longrightarrow> silent s (snd y)", rotated], goal_cases)
  case (1 loop cfg env g rid req dl acc pend s y)
  have next1: "silent s (snd y)" if "loop cfg env g rid req dl a p s1 = Some y" "silent s s1" "es_chain s = []" for a p s1
    using 1(1) [OF that(1)] that silent_trans [of s s1] by (simp add: silent_def)
  have rel: "silent s s2" if "relay_ecu_frame cfg env f s1 = (x, s2)" "silent s s1" "es_chain s = []" for f x s1 s2
    using silent_relay [OF that(1)] that(2,3) silent_trans [of s s1 s2] by (simp add: silent_def)
  have give: "silent s (snd (give_up b req s1))" if "silent s s1" for b s1
    using silent_give_up [of s1 b req] that silent_trans by blast
  show ?case
    using 1(2) next1 rel give silent_recv [of g _ s]
    by (auto simp: Let_def split: if_splits prod.splits sum.splits option.splits)
qed

lemma keeps_gets_bnd: "(\<And>s. P s \<Longrightarrow> keeps P (k (f s))) \<Longrightarrow> keeps P (bnd (gets f) k)"
  by (simp add: keeps_def)

lemma keeps_silent: "(\<And>s x s'. m s = (x, s') \<Longrightarrow> silent s s') \<Longrightarrow> keeps (spoken a) m"
  unfolding keeps_def by (metis prod.collapse silent_spoken)

lemma keeps_on_leg: "keeps (leg_speaks a) m \<Longrightarrow> keeps (spoken a) (on_leg g m)"
  unfolding keeps_def by (auto simp: on_leg_def spoken_def split: prod.split) (metis snd_conv)

lemma keeps_diag_nack: "keeps (spoken a) (send_diag_nack c f)"
  by (rule keeps_silent) (rule silent_nacks)

lemma keeps_connect_to_ecu:
  assumes "0 \<le> a" "a < 65536"
  shows "keeps (spoken a) (connect_to_ecu cfg env target fr)"
proof -
  have new: "keeps (spoken a) (modify (\<lambda>s. s\<lparr>es_next_leg := n, es_legs := (es_legs s)(g := (new_leg entry m)\<lparr>leg_in := bs\<rparr>),
      es_arrivals := (es_arrivals s)(g := arr)\<rparr>))" for n g entry m bs arr
    by (rule keeps_modify) (auto simp: spoken_def leg_speaks_def new_leg_def)
  have cache: "keeps (spoken a) (modify (\<lambda>s. s\<lparr>es_conns := AList.update target g (es_conns s)\<rparr>))" for g
    by (rule keeps_modify) (auto simp: spoken_def)
  have conn: "keeps (spoken a) (on_leg g (leg_connect (tester_or_default (es_tester s))))" if "spoken a s" for g s
  proof -
    have "tester_or_default (es_tester s) = announced a"
      using that by (simp add: spoken_def tester_or_default_def announced_def)
    then show ?thesis using assms by (simp add: keeps_on_leg keeps_leg_connect)
  qed
  have rest: "keeps (spoken a) (case ee_dial env entry (es_now s) of
           None \<Rightarrow> seq (send_diag_nack 0x06 fr) (ret None)
         | Some (bs, arr) \<Rightarrow>
             let g = es_next_leg s; l = (new_leg entry (edge_max_payload (edoip cfg)))\<lparr>leg_in := bs\<rparr> in
             seq (modify (\<lambda>s. s\<lparr>es_next_leg := g + 1, es_legs := (es_legs s)(g := l), es_arrivals := (es_arrivals s)(g := arr)\<rparr>))
              (bnd (try_catch (seq (on_leg g (leg_connect (tester_or_default (es_tester s)))) (ret True))
                      (\<lambda>e. if is_Exception e then ret False else raise e)) (\<lambda>ok.
               if ok then seq (modify (\<lambda>s. s\<lparr>es_conns := AList.update target g (es_conns s)\<rparr>)) (ret (Some g))
               else seq (send_diag_nack 0x06 fr) (ret None))))" if "spoken a s" for s entry
    unfolding Let_def case_prod_beta
    by (intro keeps_rules new cache conn [OF that] keeps_diag_nack)
  show ?thesis
    unfolding connect_to_ecu_def by (intro keeps_rules keeps_gets_bnd keeps_diag_nack rest)
qed

text \<open>\<^verbatim>\<open>self.tester_logical_addr or 0x0E00\<close> takes the address 0 for a missing one.\<close>

lemma tester_zero_announced_as_default: "tester_or_default (Some 0) = 0x0E00"
  by (simp add: tester_or_default_def)

lemma silent_retire: "silent s (retire_leg cfg env target g s)"
  by (simp add: retire_leg_def silent_def Let_def)

lemma keeps_connection_for:
  assumes "0 \<le> a" "a < 65536"
  shows "keeps (spoken a) (connection_for cfg env target fr)"
  unfolding connection_for_def
  by (intro keeps_rules keeps_gets_bnd keeps_connect_to_ecu assms keeps_modify silent_spoken [OF silent_retire])

lemma exchange_end_spoken: "spoken a (snd z) \<Longrightarrow> spoken a (snd (exchange_end cfg env target g req z))"
  by (cases z) (auto simp: exchange_end_def split: sum.split prod.split intro: silent_spoken silent_retire
      dest: keeps_result [OF keeps_diag_nack])

lemma keeps_send_within:
  assumes "speaks_for a f"
  shows "keeps (spoken a) (send_within env g f limit)"
proof (rule keepsI)
  fix s :: "'a edge_session" assume s: "spoken a s"
  obtain x s1 where r: "on_leg g (leg_send f) s = (x, s1)" by fastforce
  have "spoken a s1" by (rule keeps_result [OF keeps_on_leg [OF keeps_leg_send [OF assms]] s r])
  then show "spoken a (snd (send_within env g f limit s))"
    by (simp add: send_within_def r spoken_def split: sum.split)
qed

lemma exchange_spoken:
  assumes "exchange_with_ecu cfg env target g sent req s = Some (x, s')" "spoken a s" "source_of sent = a"
  shows "spoken a s'"
proof (cases "e_closing s")
  case True
  with assms show ?thesis by (simp add: exchange_with_ecu_def)
next
  case False
  let ?limit = "ecu_pending_max_wait (timers cfg)"
  obtain y s1 where y: "send_within env g sent ?limit s = (y, s1)" by fastforce
  have s1: "spoken a s1"
    by (rule keeps_result [OF keeps_send_within assms(2) y]) (simp add: speaks_for_def assms(3))
  have l: "spoken a (snd z)" if "exchange_loop cfg env g rid req dl acc pend s1 = Some z" for rid dl acc pend z
  proof -
    have "es_chain s1 = []" using s1 by (simp add: spoken_def)
    with silent_loop [OF that] silent_spoken [OF _ s1] show ?thesis by blast
  qed
  obtain z where "exchange_end cfg env target g req z = (x, s')" "spoken a (snd z)"
  proof (cases y)
    case (Inl e)
    with assms(1) False y s1 that [of "((Inl e, False), s1)"] show ?thesis by (simp add: exchange_with_ecu_def Let_def)
  next
    case (Inr u)
    with assms(1) False y obtain z where "exchange_end cfg env target g req z = (x, s')"
        "exchange_loop cfg env g (if 13 \<le> length sent then Some (uint (sent ! 12)) else None) req
           (es_now s + ecu_pending_max_wait (timers cfg)) False False s1 = Some z"
      by (auto simp: exchange_with_ecu_def Let_def split del: if_split)
    then show ?thesis using l that by blast
  qed
  then show ?thesis using exchange_end_spoken [of a z cfg env target g req] by simp
qed

text \<open>Scapy as far as a session without middleware depends on it: dissecting and serialising gives the bytes
  back, and the fields are the ones on the wire.\<close>

definition faithful :: "'k run_env \<Rightarrow> bool" where
  "faithful env \<longleftrightarrow>
     (\<forall>fr. ser (ee_scapy (rv_env env)) (dissect (ee_scapy (rv_env env)) fr) = Inr fr)
     \<and> (\<forall>pkt a. rv_source env pkt = Some a \<longrightarrow> 0 \<le> a \<and> a < 65536)"

lemma keeps_self_diagnostic: "keeps (spoken a) (handle_self_diagnostic cfg env fr)"
  unfolding handle_self_diagnostic_def Let_def
  by (intro keeps_rules keeps_silent) (erule silent_send_frame)+

lemma run_chain_plain: "es_chain s = [] \<Longrightarrow> run_chain cfg env dir pkt s = (Inr (Some pkt), s)"
  by (simp add: run_chain_def)

lemma diagnostic_spoken:
  assumes run: "edge_handle_diagnostic cfg env fr s = Some (x, s')" and s: "spoken a s" and a: "0 \<le> a" "a < 65536"
    and S: "\<And>fr. ser (ee_scapy env) (dissect (ee_scapy env) fr) = Inr fr"
  shows "spoken a s'"
proof -
  have c: "es_chain s = []" "es_tester s = Some a" using s by (simp_all add: spoken_def)
  show ?thesis
  proof (cases "10 \<le> length fr \<and> source_of fr = a")
    case False
    then have "seq (send_diag_nack 0x02 fr) (raise DoIPProtocolError) s = (x, s')"
      using run c by (auto simp: edge_handle_diagnostic_def Let_def split: if_splits)
    then show ?thesis by (rule keeps_result [OF keeps_seq [OF keeps_diag_nack keeps_raise] s])
  next
    case True
    consider "handle_self_diagnostic cfg env fr s = (x, s')" | "(x, s') = (Inr (), s)" | "send_diag_nack 0x03 fr s = (x, s')"
      | g y s1 where "connection_for cfg env (from_be (py_slice 10 12 fr)) fr s = (y, s1)"
          "s' = s1 \<or> exchange_with_ecu cfg env (from_be (py_slice 10 12 fr)) g fr fr s1 = Some (x, s')"
      using run True
      by (auto simp: edge_handle_diagnostic_def c run_chain_plain S Let_def split: if_splits sum.splits option.splits prod.splits)
    then show ?thesis
    proof cases
      case 1
      then show ?thesis by (rule keeps_result [OF keeps_self_diagnostic s])
    next
      case 2
      with s show ?thesis by simp
    next
      case 3
      then show ?thesis by (rule keeps_result [OF keeps_diag_nack s])
    next
      case 4
      from keeps_result [OF keeps_connection_for [OF a] s 4(1)] 4(2) True show ?thesis
        by (auto intro: exchange_spoken)
    qed
  qed
qed

section \<open>The life of a session\<close>

definition run_safe :: "'k edge_run \<Rightarrow> bool" where
  "run_safe r \<longleftrightarrow>
     (if run_activated r then \<exists>a. 0 \<le> a \<and> a < 65536 \<and> spoken a (er_s r)
      else es_tester (er_s r) = None \<and> es_chain (er_s r) = [] \<and> es_conns (er_s r) = [] \<and> (\<forall>g. leg_out (es_legs (er_s r) g) = []))"

text \<open>A Routing Activation in progress: the initial timer is cancelled, and the address may be granted.\<close>

definition pause_ok :: "'k edge_run \<Rightarrow> bool" where
  "pause_ok r \<longleftrightarrow>
     (case er_pause r of
        None \<Rightarrow> True
      | Some (p, t) \<Rightarrow> er_initial r = None
          \<and> (case p of
               AwaitVerdict a \<Rightarrow> 0 \<le> a \<and> a < 65536 \<and> (run_activated r \<longrightarrow> es_tester (er_s r) = Some a)
             | AwaitSent granted \<Rightarrow> granted \<longrightarrow> run_activated r))"

text \<open>A session that is neither activated nor closing is on its initial timer, or handles a request that it
  read in time.\<close>

definition in_time :: "int \<Rightarrow> 'k edge_run \<Rightarrow> bool" where
  "in_time limit r \<longleftrightarrow> run_activated r \<or> run_closing r
     \<or> (case er_pause r of None \<Rightarrow> er_initial r = Some limit \<and> es_now (er_s r) \<le> limit | Some (_, t) \<Rightarrow> t \<le> limit)"

definition run_inv :: "int \<Rightarrow> 'k edge_run \<Rightarrow> bool" where
  "run_inv limit r \<longleftrightarrow> run_safe r \<and> pause_ok r \<and> in_time limit r"

text \<open>Steps of the session that leave connections, identity and clock alone.\<close>

definition idle_step :: "'k edge_session \<Rightarrow> 'k edge_session \<Rightarrow> bool" where
  "idle_step s s' \<longleftrightarrow> es_tester s' = es_tester s \<and> es_activated s' = es_activated s \<and> es_chain s' = es_chain s
     \<and> es_conns s' = es_conns s \<and> es_legs s' = es_legs s \<and> es_now s' = es_now s \<and> e_closing s' = e_closing s"

lemma idle_send_raw: "edge_send_raw f s = (x, s') \<Longrightarrow> idle_step s s'"
  by (auto simp: edge_send_raw_def idle_step_def split: if_splits)

lemma idle_send_frame: "edge_send_frame pt pl s = (x, s') \<Longrightarrow> idle_step s s'"
  by (auto simp: edge_send_frame_def bnd_def idle_step_def split: sum.splits dest!: idle_send_raw)

lemma idle_nacks:
  "send_header_nack c s = (x, s') \<Longrightarrow> idle_step s s'" "send_diag_nack c f s = (x, s') \<Longrightarrow> idle_step s s'"
  "send_routing_activation_response dc c a s = (x, s') \<Longrightarrow> idle_step s s'"
  by (auto simp: send_header_nack_def send_diag_nack_def send_routing_activation_response_def seq_def bnd_def idle_step_def
      simp del: py_bytes.simps split: sum.splits prod.splits if_splits dest!: idle_send_frame)

lemma idle_discard: "discard_payload st n s = (x, s') \<Longrightarrow> idle_step s s'"
  by (auto simp: discard_payload_def try_catch_def on_stream_def idle_step_def split: if_splits prod.splits sum.splits)

definition idles :: "('k edge_session, 'a) py \<Rightarrow> bool" where
  "idles m \<longleftrightarrow> (\<forall>s x s'. m s = (x, s') \<longrightarrow> idle_step s s')"

lemma idlesI: "(\<And>s x s'. m s = (x, s') \<Longrightarrow> idle_step s s') \<Longrightarrow> idles m"
  by (simp add: idles_def)

lemma idles_bnd: "idles m \<Longrightarrow> (\<And>a. idles (k a)) \<Longrightarrow> idles (bnd m k)"
  unfolding idles_def bnd_def idle_step_def by (fastforce split: prod.splits sum.splits)

lemma idles_seq: "idles m \<Longrightarrow> idles n \<Longrightarrow> idles (seq m n)"
  unfolding seq_def by (rule idles_bnd)

lemma idles_basic: "idles (on_stream q)" "idles (ret a)" "idles (raise e)"
  by (auto simp: idles_def on_stream_def idle_step_def split: prod.splits)

lemma idles_if: "(b \<Longrightarrow> idles m) \<Longrightarrow> (\<not> b \<Longrightarrow> idles n) \<Longrightarrow> idles (if b then m else n)"
  by simp

lemma idles_option: "(x = None \<Longrightarrow> idles m) \<Longrightarrow> (\<And>a. x = Some a \<Longrightarrow> idles (k a)) \<Longrightarrow> idles (case x of None \<Rightarrow> m | Some a \<Rightarrow> k a)"
  by (cases x) simp_all

lemma idles_read: "idles (edge_read_frame dc st)"
  unfolding edge_read_frame_def Let_def
  by (intro idles_bnd idles_seq idles_basic idles_if idles_option idlesI [OF idle_nacks(1)] idlesI [OF idle_discard])

lemma idle_read: "edge_read_frame dc st s = (x, s') \<Longrightarrow> idle_step s s'"
  using idles_read unfolding idles_def by blast

lemma run_safe_idle: "run_safe r \<Longrightarrow> idle_step (er_s r) s' \<Longrightarrow> run_safe (r\<lparr>er_s := s'\<rparr>)"
  by (auto simp: run_safe_def idle_step_def spoken_def split: if_splits)

lemma run_inv_idle: "run_inv limit r \<Longrightarrow> idle_step (er_s r) s' \<Longrightarrow> run_inv limit (r\<lparr>er_s := s'\<rparr>)"
  using run_safe_idle by (auto simp: run_inv_def idle_step_def pause_ok_def in_time_def split: option.splits ra_pause.splits)

lemma keeps_on_s:
  assumes "\<And>s x s'. m s = (x, s') \<Longrightarrow> idle_step s s'"
  shows "keeps (run_inv limit) (on_s m)" "keeps run_safe (on_s m)"
  by (rule keepsI, auto simp: on_s_def split: prod.split intro: run_inv_idle run_safe_idle dest: assms)+

lemmas keeps_nacks = keeps_on_s [OF idle_nacks(1)] keeps_on_s [OF idle_nacks(2)] keeps_on_s [OF idle_nacks(3)] keeps_on_s [OF idle_send_frame]

lemma run_inv_schedule: "run_inv limit r \<Longrightarrow> run_inv limit (run_schedule_cleanup r)"
  by (auto simp: run_inv_def run_safe_def run_schedule_cleanup_def spoken_def pause_ok_def in_time_def
      split: option.splits ra_pause.splits)

lemma run_inv_cleanup: "run_safe r \<Longrightarrow> run_inv limit (run_cleanup r)"
  by (auto simp: run_inv_def run_safe_def run_cleanup_def run_schedule_cleanup_def close_legs_def spoken_def Let_def
      leg_speaks_def pause_ok_def in_time_def)

lemma run_inv_timer: "run_inv limit r \<Longrightarrow> run_inv limit (reset_inactivity_timer env r)"
  by (auto simp: run_inv_def run_safe_def reset_inactivity_timer_def pause_ok_def in_time_def
      split: option.splits ra_pause.splits)

lemma run_inv_cong:
  assumes "er_s r = er_s r'" "er_initial r = er_initial r'" "er_pause r = er_pause r'"
  shows "run_inv limit r = run_inv limit r'"
  unfolding run_inv_def run_safe_def pause_ok_def in_time_def assms by (rule refl)

lemma seq_modify_apply: "seq (modify f) m r = m (f r)"
  by (simp add: seq_def bnd_def)

lemma run_inv_safe: "run_inv limit r \<Longrightarrow> run_safe r"
  by (simp add: run_inv_def)

section \<open>Dispatch\<close>

text \<open>What holds of an outcome: the invariant, and after an exception as much of it as the teardown needs.\<close>

definition settled :: "int \<Rightarrow> 'a res \<times> 'k edge_run \<Rightarrow> bool" where
  "settled limit out = (case out of (Inr _, r) \<Rightarrow> run_inv limit r | (Inl _, r) \<Rightarrow> run_safe r)"

lemma settled_keeps: "keeps (run_inv limit) m \<Longrightarrow> run_inv limit r \<Longrightarrow> settled limit (m r)"
  by (cases "m r") (auto simp: settled_def split: sum.split dest: keeps_result intro: run_inv_safe)

lemma settled_raises: "keeps run_safe m \<Longrightarrow> run_safe r \<Longrightarrow> settled limit (seq m (raise e) r)"
  by (cases "m r") (auto simp: settled_def seq_def bnd_def split: sum.split dest: keeps_result)

text \<open>A request that was read on the initial timer, with that timer cancelled: the state in which the
  handling of a Routing Activation runs.\<close>

definition ra_ready :: "int \<Rightarrow> 'k edge_run \<Rightarrow> bool" where
  "ra_ready limit r \<longleftrightarrow> run_safe r \<and> er_initial r = None
     \<and> (run_activated r \<or> run_closing r
        \<or> (case er_pause r of None \<Rightarrow> es_now (er_s r) \<le> limit | Some (_, t) \<Rightarrow> t \<le> limit))"

lemma ra_ready_idle: "ra_ready limit r \<Longrightarrow> idle_step (er_s r) s' \<Longrightarrow> ra_ready limit (r\<lparr>er_s := s'\<rparr>)"
  using run_safe_idle by (auto simp: ra_ready_def idle_step_def split: option.splits)

lemma ra_suspended:
  assumes "ra_ready limit r" and "case p of AwaitVerdict a \<Rightarrow> 0 \<le> a \<and> a < 65536 \<and> (run_activated r \<longrightarrow> es_tester (er_s r) = Some a)
    | AwaitSent granted \<Rightarrow> granted \<longrightarrow> run_activated r"
  shows "settled limit (edge_ra_suspend p r)"
  using assms
  by (auto simp: edge_ra_suspend_def settled_def run_inv_def ra_ready_def run_safe_def pause_ok_def in_time_def
      split: option.splits ra_pause.splits)

lemma settled_answer:
  assumes r: "ra_ready limit r" and g: "granted \<Longrightarrow> run_activated r"
  shows "settled limit (seq (on_s (send_routing_activation_response dc c a)) (edge_ra_suspend (AwaitSent granted)) r)"
proof -
  obtain x s' where s: "send_routing_activation_response dc c a (er_s r) = (x, s')" by fastforce
  then have i: "idle_step (er_s r) s'" by (rule idle_nacks)
  then have r': "ra_ready limit (r\<lparr>er_s := s'\<rparr>)" by (rule ra_ready_idle [OF r])
  have "settled limit (edge_ra_suspend (AwaitSent granted) (r\<lparr>er_s := s'\<rparr>))"
    by (rule ra_suspended [OF r']) (use g i in \<open>simp add: idle_step_def\<close>)
  with r' s show ?thesis
    by (auto simp: seq_def bnd_def on_s_def settled_def ra_ready_def split: sum.splits)
qed

lemma settled_refuse: "ra_ready limit r \<Longrightarrow> settled limit (ra_refuse dc c a r)"
  unfolding ra_refuse_def by (rule settled_answer) simp_all

lemma settled_ra:
  assumes r: "ra_ready limit r" and env: "faithful env"
  shows "settled limit (edge_handle_ra cfg env pkt r)"
proof -
  have "settled limit (edge_ra_suspend (AwaitVerdict a) r)"
    if "rv_source env pkt = Some a" "run_activated r \<longrightarrow> Some a = es_tester (er_s r)" for a
    by (rule ra_suspended [OF r]) (use that env in \<open>auto simp: faithful_def\<close>)
  then show ?thesis
    using settled_refuse [OF r] by (auto simp: edge_handle_ra_def split: option.split)
qed

text \<open>Granting makes the session speak for the tester.\<close>

lemma run_safe_grant:
  assumes "run_safe r" "0 \<le> a" "a < 65536" "run_activated r \<Longrightarrow> es_tester (er_s r) = Some a"
  shows "run_safe (r\<lparr>er_s := (er_s r)\<lparr>es_tester := Some a, es_activated := True\<rparr>\<rparr>)"
  using assms by (auto simp: run_safe_def spoken_def leg_speaks_def split: if_splits)

lemma settled_verdict:
  assumes r: "ra_ready limit r" and a: "0 \<le> a" "a < 65536" "run_activated r \<Longrightarrow> es_tester (er_s r) = Some a"
  shows "settled limit (edge_ra_verdict cfg env a r)"
proof (cases "rv_decide env a")
  case RaGrant
  let ?r = "r\<lparr>er_s := (er_s r)\<lparr>es_tester := Some a, es_activated := True\<rparr>\<rparr>"
  have "ra_ready limit ?r" using run_safe_grant [of r a] r a by (auto simp: ra_ready_def)
  then have "settled limit (seq (on_s (send_routing_activation_response (edoip cfg) 0x10 a)) (edge_ra_suspend (AwaitSent True)) ?r)"
    by (rule settled_answer) simp
  with r RaGrant show ?thesis by (auto simp: edge_ra_verdict_def settled_def ra_ready_def seq_modify_apply)
next
  case (RaDeny c)
  with settled_refuse [OF r] show ?thesis by (simp add: edge_ra_verdict_def)
next
  case RaGone
  have "run_safe (run_schedule_cleanup r)"
    using r by (auto simp: ra_ready_def run_safe_def run_schedule_cleanup_def spoken_def)
  with RaGone show ?thesis by (simp add: edge_ra_verdict_def settled_def seq_modify_apply)
qed

lemma run_inv_ready: "run_inv limit r \<Longrightarrow> er_pause r = None \<Longrightarrow> ra_ready limit (r\<lparr>er_initial := None\<rparr>)"
  "run_inv limit r \<Longrightarrow> er_pause r = Some x \<Longrightarrow> ra_ready limit r"
  by (auto simp: run_inv_def ra_ready_def run_safe_def in_time_def pause_ok_def split: option.splits)

lemma run_inv_continue:
  assumes inv: "run_inv limit r" and p: "er_pause r \<noteq> None"
  shows "run_inv limit (edge_ra_continue cfg env r)"
proof -
  obtain p t where p: "er_pause r = Some (p, t)" using p by auto
  note ready = run_inv_ready(2) [OF inv p]
  have "settled limit ((case p of AwaitVerdict src \<Rightarrow> edge_ra_verdict cfg env src | AwaitSent granted \<Rightarrow> edge_ra_sent env granted) r)"
  proof (cases p)
    case (AwaitVerdict a)
    with inv p have "0 \<le> a" "a < 65536" "run_activated r \<Longrightarrow> es_tester (er_s r) = Some a"
      by (auto simp: run_inv_def pause_ok_def)
    with AwaitVerdict settled_verdict [OF ready] show ?thesis by simp
  next
    case (AwaitSent granted)
    have "settled limit (Inr (), reset_inactivity_timer env (r\<lparr>er_pause := None\<rparr>))"
      if "granted"
    proof -
      from inv p AwaitSent that have "run_inv limit (r\<lparr>er_pause := None\<rparr>)"
        by (auto simp: run_inv_def pause_ok_def in_time_def run_safe_def)
      then show ?thesis by (simp add: settled_def run_inv_timer)
    qed
    with AwaitSent run_inv_safe [OF inv] show ?thesis by (auto simp: edge_ra_sent_def settled_def seq_modify_apply)
  qed
  then show ?thesis
    by (auto simp: edge_ra_continue_def p settled_def intro: run_inv_cleanup split: prod.splits sum.splits)
qed

lemma settled_diagnostic:
  assumes "run_inv limit r" "run_activated r" "faithful env" "er_pause r = None"
    "edge_handle_diagnostic cfg (rv_env env) fr (er_s r) = Some (x, s')"
  shows "settled limit (x, r\<lparr>er_s := s'\<rparr>)"
proof -
  obtain a where a: "0 \<le> a" "a < 65536" "spoken a (er_s r)" using assms(1,2) by (auto simp: run_inv_def run_safe_def)
  have S: "ser (ee_scapy (rv_env env)) (dissect (ee_scapy (rv_env env)) fr) = Inr fr" for fr
    using assms(3) by (simp add: faithful_def)
  have "spoken a s'" by (rule diagnostic_spoken [OF assms(5) a(3,1,2) S])
  moreover from this have "es_activated s'" by (simp add: spoken_def)
  ultimately have "run_inv limit (r\<lparr>er_s := s'\<rparr>)"
    using a assms(4) by (auto simp: run_inv_def run_safe_def pause_ok_def in_time_def)
  then show ?thesis by (auto simp: settled_def split: sum.split intro: run_inv_safe)
qed

lemma run_inv_alive: "run_inv limit r \<Longrightarrow> run_inv limit (edge_alive_response fr r)"
  by (subst run_inv_cong [of _ r]) (simp_all add: edge_alive_response_def)

text \<open>The same for a handler that may not return.\<close>

definition settles_opt :: "int \<Rightarrow> ('a res \<times> 'k edge_run) option \<Rightarrow> bool" where
  "settles_opt limit x \<longleftrightarrow> (\<forall>out. x = Some out \<longrightarrow> settled limit out)"

lemma settles_opt_rules:
  "settled limit out \<Longrightarrow> settles_opt limit (Some out)"
  "(b \<Longrightarrow> settles_opt limit x) \<Longrightarrow> (\<not> b \<Longrightarrow> settles_opt limit y) \<Longrightarrow> settles_opt limit (if b then x else y)"
  "(c = None \<Longrightarrow> settles_opt limit x) \<Longrightarrow> (\<And>v. c = Some v \<Longrightarrow> settles_opt limit (k v)) \<Longrightarrow>
     settles_opt limit (case c of None \<Rightarrow> x | Some v \<Rightarrow> k v)"
  "(\<And>e. d = Inl e \<Longrightarrow> settles_opt limit (f e)) \<Longrightarrow> (\<And>v. d = Inr v \<Longrightarrow> settles_opt limit (h v)) \<Longrightarrow>
     settles_opt limit (case d of Inl e \<Rightarrow> f e | Inr v \<Rightarrow> h v)"
  by (auto simp: settles_opt_def split: option.split sum.split)

lemma settled_dispatch:
  assumes inv: "run_inv limit r" and env: "faithful env" and idle: "er_pause r = None"
  shows "settles_opt limit (edge_dispatch cfg env pkt r)"
proof -
  note safe = run_inv_safe [OF inv]
  have self: "settled limit (Inr (), r)" using inv by (simp add: settled_def)
  have raised: "settled limit (Inl e, r)" for e :: exn using safe by (simp add: settled_def)
  have nack: "settled limit (seq (on_s (send_header_nack c)) (raise e) r)" for c e
    by (intro settled_raises keeps_on_s safe) (rule idle_nacks)
  have nack1: "settled limit (on_s (send_header_nack c) r)" for c
    by (intro settled_keeps keeps_on_s inv) (rule idle_nacks)
  have dnack: "settled limit (seq (on_s (send_diag_nack c fr)) (raise e) r)" for c fr e
    by (intro settled_raises keeps_on_s safe) (rule idle_nacks)
  have alive: "settled limit (Inr (), edge_alive_response fr r)" for fr
    using inv by (simp add: settled_def run_inv_alive)
  have ra: "settled limit (edge_handle_ra cfg env pkt (r\<lparr>er_initial := None\<rparr>))"
    by (rule settled_ra [OF run_inv_ready(1) [OF inv idle] env])
  have st: "settled limit (edge_entity_status (edoip cfg) n r)" "settled limit (edge_handle_power_mode (edoip cfg) r)" for n
    unfolding edge_entity_status_def edge_handle_power_mode_def
    by (intro settled_keeps keeps_rules keeps_on_s inv, erule idle_send_frame)+
  have ar: "settled limit (Inr (), if b then edge_alive_response fr r else r)" for b fr
    using alive [of fr] self by simp
  have diag: "settles_opt limit (map_option (\<lambda>(x, s). (x, r\<lparr>er_s := s\<rparr>)) (edge_handle_diagnostic cfg (rv_env env) fr (er_s r)))"
    if "\<not> \<not> run_activated r" for fr
    using settled_diagnostic [OF inv _ env idle, of cfg fr] that by (auto simp: settles_opt_def)
  show ?thesis
    unfolding edge_dispatch_def Let_def
    by (intro settles_opt_rules self raised nack nack1 dnack ar ra st diag)
qed

lemma run_inv_turn:
  assumes inv: "run_inv limit r" and env: "faithful env" and idle: "er_pause r = None"
    and run: "session_turn cfg env stalled r = Some r'"
  shows "run_inv limit r'"
proof -
  obtain x r1 where rd: "on_s (edge_read_frame (edoip cfg) stalled) r = (x, r1)" by fastforce
  have r1: "run_inv limit r1"
    by (rule keeps_result [OF keeps_on_s(1) inv rd]) (rule idle_read)
  define r2 where "r2 = (if run_activated r1 then reset_inactivity_timer env r1 else r1)"
  have r2: "run_inv limit r2" using r1 by (simp add: r2_def run_inv_timer)
  have idle2: "er_pause r2 = None"
    using rd idle by (auto simp: r2_def on_s_def reset_inactivity_timer_def split: prod.splits)
  show ?thesis
  proof (cases "run_closing r")
    case True
    with run inv show ?thesis by (auto simp: session_turn_def intro: run_inv_cleanup run_inv_safe)
  next
    case False
    consider "r' = run_cleanup r1" | "r' = r1" | "r' = r2"
      | y r3 fr where "edge_dispatch cfg env (dissect (ee_scapy (rv_env env)) fr) r2 = Some (y, r3)"
          "r' = (case y of Inr _ \<Rightarrow> r3 | Inl _ \<Rightarrow> run_cleanup r3)"
      using run False rd
      by (auto simp: session_turn_def Let_def r2_def [symmetric] split: sum.splits option.splits if_splits)
    then show ?thesis
    proof cases
      case 1
      then show ?thesis using r1 by (simp add: run_inv_cleanup run_inv_safe)
    next
      case 4
      with settled_dispatch [OF r2 env idle2, of cfg "dissect (ee_scapy (rv_env env)) fr"] show ?thesis
        by (auto simp: settles_opt_def settled_def split: sum.splits intro: run_inv_cleanup)
    qed (use r1 r2 in simp_all)
  qed
qed

lemma run_inv_step:
  assumes "run_step cfg faithful r r'" "run_inv limit r"
  shows "run_inv limit r'"
  using assms
proof (induction rule: run_step.induct)
  case (turn r env stalled r')
  then show ?case by (auto intro: run_inv_turn)
next
  case (continue r env)
  then show ?case by (auto intro: run_inv_continue)
next
  case (tick r t)
  then show ?case
    by (auto simp: run_inv_def run_safe_def spoken_def pause_ok_def in_time_def split: option.splits ra_pause.splits)
next
  case (fire r d)
  then show ?case by (simp add: run_inv_schedule)
next
  case (probe r)
  obtain x s' where s: "edge_send_frame PT_ALIVE_CHECK_REQUEST [] (er_s r) = (x, s')" by fastforce
  have "run_inv limit (r\<lparr>er_s := s'\<rparr>)" by (rule run_inv_idle [OF probe.prems(1) idle_send_frame [OF s]])
  then have "run_inv limit (r\<lparr>er_s := s', er_probe := p\<rparr>)" "run_inv limit (r\<lparr>er_probe := p, er_s := s'\<rparr>)" for p
    using run_inv_cong [of "r\<lparr>er_s := s'\<rparr>" "r\<lparr>er_s := s', er_probe := p\<rparr>" limit]
      run_inv_cong [of "r\<lparr>er_s := s'\<rparr>" "r\<lparr>er_probe := p, er_s := s'\<rparr>" limit] by simp_all
  then show ?case
    using probe.prems(1) s by (auto simp: edge_probe_begin_def on_s_def split: sum.split)
qed (auto simp: run_inv_def run_safe_def spoken_def edge_probe_end_def pause_ok_def in_time_def
    split: if_splits option.splits ra_pause.splits)

lemma run_inv_start: "0 \<le> rv_initial_ms env \<Longrightarrow> run_inv (t0 + rv_initial_ms env) (start_initial_timer env (new_run [] t0))"
  by (simp add: run_inv_def run_safe_def start_initial_timer_def new_run_def pause_ok_def in_time_def)

lemma run_reachable:
  assumes "(run_step cfg faithful)\<^sup>*\<^sup>* (start_initial_timer env (new_run [] t0)) r" "0 \<le> rv_initial_ms env"
  shows "run_inv (t0 + rv_initial_ms env) r"
  using assms(1)
proof (induction rule: rtranclp_induct)
  case base
  show ?case by (rule run_inv_start [OF assms(2)])
next
  case (step y z)
  from step.hyps(2) step.IH show ?case by (rule run_inv_step)
qed

text \<open>C20: the EdgeNode speaks to an ECU only for the tester it has activated. In every state a session without
  middleware can reach, over a Scapy that gives the bytes of a frame back and reads addresses of two
  bytes, whatever bytes arrive in whatever pieces: no ECU has been contacted while the session is not
  activated, and every frame ever sent to an ECU carries the address of the session's tester as its
  source; only the node's own Routing Activation Request and Alive Check Response carry, for a tester
  activated with the address 0, the default 0x0E00 instead.\<close>

theorem edge_speaks_for_tester:
  assumes "(run_step cfg faithful)\<^sup>*\<^sup>* (start_initial_timer env (new_run [] t0)) r" "0 \<le> rv_initial_ms env"
  shows "(\<not> run_activated r \<longrightarrow> es_conns (er_s r) = [] \<and> (\<forall>g. leg_out (es_legs (er_s r) g) = []))
    \<and> (f \<in> set (leg_out (es_legs (er_s r) g)) \<longrightarrow>
         es_tester (er_s r) = Some (from_be (py_slice 8 10 f))
         \<or> es_tester (er_s r) = Some 0 \<and> from_be (py_slice 8 10 f) = 0x0E00
           \<and> from_be (py_slice 2 4 f) \<in> {PT_ROUTING_ACT_REQUEST, PT_ALIVE_CHECK_RESPONSE})"
proof (cases "run_activated r")
  case True
  with run_reachable [OF assms] obtain a where "es_tester (er_s r) = Some a" and "leg_speaks a (es_legs (er_s r) g)"
    by (auto simp: run_inv_def run_safe_def spoken_def)
  with True show ?thesis by (auto simp: leg_speaks_def speaks_for_def announced_def split: if_splits)
qed (use run_reachable [OF assms] in \<open>simp add: run_inv_def run_safe_def\<close>)

lemma run_step_pause_ends:
  assumes "run_step cfg E r r'" "er_pause r \<noteq> None" "er_pause r' = None" "run_inv limit r"
  shows "run_activated r' \<or> run_closing r'"
  using assms
proof cases
  case (continue env)
  obtain p t where p: "er_pause r = Some (p, t)" using assms(2) by auto
  have cl: "run_closing (run_cleanup x)" for x :: "'a edge_run"
    by (simp add: run_cleanup_def run_schedule_cleanup_def close_legs_def Let_def)
  show ?thesis
  proof (cases p)
    case (AwaitVerdict a)
    have s: "on_s m r1 = (x, r2) \<Longrightarrow> er_pause r2 = er_pause r1" for m :: "('a edge_session, unit) py" and x and r1 r2 :: "'a edge_run"
      by (auto simp: on_s_def split: prod.splits)
    show ?thesis
      using continue(1) assms(3) cl AwaitVerdict
      by (auto simp: edge_ra_continue_def p edge_ra_verdict_def ra_refuse_def edge_ra_suspend_def seq_def bnd_def
          split: prod.splits sum.splits ra_decision.splits if_splits dest!: s)
  next
    case (AwaitSent granted)
    then show ?thesis
      using continue(1) assms(3,4) cl
      by (auto simp: edge_ra_continue_def p edge_ra_sent_def seq_modify_apply run_inv_def pause_ok_def reset_inactivity_timer_def
          split: if_splits)
  qed
qed (auto simp: edge_probe_begin_def edge_probe_end_def on_s_def run_schedule_cleanup_def split: if_splits prod.splits sum.splits)

text \<open>C21: a session that is neither activated nor closing does not outlive its initial inactivity timer, unless it is
  handling a Routing Activation Request that it read before the timer ran out: that request cancels
  the timer, and the session then waits for the verdict (the lock of the address, the probes of
  other sessions) or for the tester's socket to take the answer. No other traffic stops or postpones
  the timer, and when the handling of that request ends, by whichever step, the session is activated
  or closing. As in the previous property the session has no middleware and Scapy gives the bytes of a
  frame back.\<close>

theorem unactivated_session_expires:
  assumes "(run_step cfg faithful)\<^sup>*\<^sup>* (start_initial_timer env (new_run [] t0)) r" "0 \<le> rv_initial_ms env"
    "t0 + rv_initial_ms env < es_now (er_s r)"
  shows "(run_activated r \<or> run_closing r \<or> (\<exists>p t. er_pause r = Some (p, t) \<and> t \<le> t0 + rv_initial_ms env))
    \<and> (\<forall>r'. run_step cfg faithful r r' \<and> er_pause r \<noteq> None \<and> er_pause r' = None \<longrightarrow> run_activated r' \<or> run_closing r')"
  using run_reachable [OF assms(1,2)] run_step_pause_ends assms(3)
  by (fastforce simp: run_inv_def in_time_def split: option.splits)

text \<open>A session that is activated and has a request to an ECU it cannot reach.\<close>

definition ex_run_env :: "bytes run_env" where
  "ex_run_env =
     \<lparr>rv_env = ex_env, rv_source = (\<lambda>p. if length p < 10 then None else Some (from_be (py_slice 8 10 p))),
      rv_type = (\<lambda>p. if length p < 11 then None else Some (uint (p ! 10))), rv_decide = (\<lambda>a. RaGrant), rv_open = 1,
      rv_initial_ms = 2000, rv_general_ms = 300000\<rparr>"

definition ex_ra_frame :: bytes where
  "ex_ra_frame = [2, 0xFD, 0, 5, 0, 0, 0, 7, 0x0E, 0x80, 0, 0, 0, 0, 0]"

lemma ex_faithful: "faithful ex_run_env"
proof -
  have "from_be (py_slice 8 10 p) < 65536" if "\<not> length p < 10" for p
    using from_be_less [of "py_slice 8 10 p"] that by simp
  then show ?thesis by (auto simp: faithful_def ex_run_env_def ex_env_def raw_scapy_def split: if_splits)
qed

text \<open>The request is read, granted, and its answer is sent.\<close>

lemma ex_run_reachable:
  "\<exists>r. (run_step ex_edge_config faithful)\<^sup>*\<^sup>* (start_initial_timer ex_run_env (new_run [] 0)) r \<and> run_activated r
    \<and> er_pause r = None"
proof -
  let ?r0 = "start_initial_timer ex_run_env (new_run [] 0)" and ?S = "run_step ex_edge_config faithful"
  let ?go = "edge_ra_continue ex_edge_config ex_run_env"
  let ?r1 = "?r0\<lparr>er_s := (er_s ?r0)\<lparr>e_in := e_in (er_s ?r0) @ ex_ra_frame\<rparr>\<rparr>"
  have "case session_turn ex_edge_config ex_run_env False ?r1 of None \<Rightarrow> False
    | Some r \<Rightarrow> er_pause r \<noteq> None \<and> er_pause (?go r) \<noteq> None \<and> er_pause (?go (?go r)) = None \<and> run_activated (?go (?go r))"
    by code_simp
  then obtain r where r: "session_turn ex_edge_config ex_run_env False ?r1 = Some r"
      "er_pause r \<noteq> None" "er_pause (?go r) \<noteq> None" "run_activated (?go (?go r))" "er_pause (?go (?go r)) = None"
    by (auto split: option.splits)
  have "?S ?r0 ?r1"
    by (rule run_step.feed) (simp add: start_initial_timer_def new_run_def)
  moreover have "?S ?r1 r"
  proof (rule run_step.turn [where E = faithful and env = ex_run_env and stalled = False and r = ?r1, OF _ _ ex_faithful _ r(1)])
    show "\<not> er_ended ?r1" "er_pause ?r1 = None" by (simp_all add: start_initial_timer_def new_run_def)
    have "fst (edge_read_frame (edoip ex_edge_config) False (er_s ?r1)) = Inr (Some ex_ra_frame)" by code_simp
    then show "er_eof ?r1 \<or> run_closing ?r1 \<or> fst (edge_read_frame (edoip ex_edge_config) False (er_s ?r1)) \<noteq> Inl IncompleteReadError"
      by simp
  qed
  moreover have "?S r (?go r)" "?S (?go r) (?go (?go r))" using r ex_faithful by (auto intro: run_step.continue)
  ultimately have "?S\<^sup>*\<^sup>* ?r0 (?go (?go r))" by (meson converse_rtranclp_into_rtranclp rtranclp.rtrancl_refl)
  with r(4,5) show ?thesis by blast
qed

theorem edge_speaks_for_tester_witness:
  "\<exists>r. run_activated r \<and> (\<forall>g f. f \<in> set (leg_out (es_legs (er_s r) g)) \<longrightarrow> es_tester (er_s r) = Some (from_be (py_slice 8 10 f))
        \<or> es_tester (er_s r) = Some 0)
    \<and> (run_step ex_edge_config faithful)\<^sup>*\<^sup>* (start_initial_timer ex_run_env (new_run [] 0)) r"
proof -
  obtain r where r: "(run_step ex_edge_config faithful)\<^sup>*\<^sup>* (start_initial_timer ex_run_env (new_run [] 0)) r" "run_activated r"
    using ex_run_reachable by blast
  have "0 \<le> rv_initial_ms ex_run_env" by (simp add: ex_run_env_def)
  from edge_speaks_for_tester [OF r(1) this] r show ?thesis by blast
qed

text \<open>The timer has fired at its time and the clock has moved on.\<close>

theorem unactivated_session_expires_witness:
  "\<exists>r. (run_step ex_edge_config faithful)\<^sup>*\<^sup>* (start_initial_timer ex_run_env (new_run [] 0)) r \<and> es_now (er_s r) = 2001
    \<and> (run_activated r \<or> run_closing r)"
proof -
  let ?R = "(run_step ex_edge_config faithful)\<^sup>*\<^sup>* (start_initial_timer ex_run_env (new_run [] 0))"
  define r0 :: "bytes edge_run" where "r0 = start_initial_timer ex_run_env (new_run [] 0)"
  define r1 where "r1 = r0\<lparr>er_s := (er_s r0)\<lparr>es_now := 2000\<rparr>\<rparr>"
  define r2 where "r2 = run_schedule_cleanup r1"
  define r3 where "r3 = r2\<lparr>er_s := (er_s r2)\<lparr>es_now := 2001\<rparr>\<rparr>"
  have r0: "er_initial r0 = Some 2000" "er_general r0 = None" "es_now (er_s r0) = 0"
    by (simp_all add: r0_def start_initial_timer_def new_run_def ex_run_env_def)
  have "run_step ex_edge_config faithful r0 r1" unfolding r1_def by (rule run_step.tick) (simp_all add: r0)
  moreover have "run_step ex_edge_config faithful r1 r2"
    unfolding r2_def by (rule run_step.fire [of _ 2000]) (simp_all add: r1_def r0)
  moreover have "run_step ex_edge_config faithful r2 r3"
    unfolding r3_def by (rule run_step.tick) (simp_all add: r2_def r1_def run_schedule_cleanup_def)
  ultimately have reach: "?R r3" unfolding r0_def by (meson converse_rtranclp_into_rtranclp rtranclp.rtrancl_refl)
  have t: "es_now (er_s r3) = 2001" by (simp add: r3_def)
  have "er_pause r3 = None"
    by (simp add: r3_def r2_def r1_def r0_def run_schedule_cleanup_def start_initial_timer_def new_run_def)
  moreover have "0 \<le> rv_initial_ms ex_run_env" "0 + rv_initial_ms ex_run_env < es_now (er_s r3)"
    by (simp_all add: t ex_run_env_def)
  ultimately have "run_activated r3 \<or> run_closing r3"
    using unactivated_session_expires [OF reach] by auto
  with reach t show ?thesis by blast
qed

end
