(* ===== verification/Edge_Log.thy ===== *)
theory Edge_Log
  imports Edge_Middleware Edge_Config_Load "HOL-Library.Multiset"
begin

text \<open>
  The logger middleware of the EdgeNode (\<^verbatim>\<open>doip_edgenode/middleware/logger.py\<close>): the process-wide table of
  log sinks with its reference counts, \<open>LogSinkOwner\<close>, by which a server holds its leases, the
  logger objects of the sessions, which borrow them, and the bounded record a packet is logged as.
  The canonical form of a path (\<^verbatim>\<open>os.path\<close>) and whether a file can be opened are arguments; a logger is
  a number, and \<open>open_handlers\<close> are the loggers whose handlers are attached and open.
\<close>

section \<open>The table of sinks\<close>

record sink_state =
  sinks :: "(string \<times> nat \<times> nat) list"
  open_handlers :: "nat list"
  next_logger :: nat

text \<open>\<open>open_file l p\<close> is the exception raised when the handlers of logger \<open>l\<close> are opened on \<open>p\<close>.\<close>

record log_io =
  canonical :: "string \<Rightarrow> string"
  open_file :: "nat \<Rightarrow> string \<Rightarrow> exn option"

definition make_logger :: "log_io \<Rightarrow> string \<Rightarrow> ('z sink_state_scheme, nat) py" where
  "make_logger io log_path w =
     (let path = canonical io log_path in
      case map_of (sinks w) path of
        Some (lgr, references) \<Rightarrow> (Inr lgr, w\<lparr>sinks := AList.update path (lgr, references + 1) (sinks w)\<rparr>)
      | None \<Rightarrow>
          let lgr = next_logger w; w' = w\<lparr>next_logger := lgr + 1\<rparr> in
          case open_file io lgr path of
            Some e \<Rightarrow> (Inl e, w')
          | None \<Rightarrow> (Inr lgr, w'\<lparr>open_handlers := open_handlers w' @ [lgr], sinks := AList.update path (lgr, 1) (sinks w')\<rparr>))"

definition release_logger :: "string \<Rightarrow> nat \<Rightarrow> 'z sink_state_scheme \<Rightarrow> 'z sink_state_scheme" where
  "release_logger path lgr w =
     (case map_of (sinks w) path of
        None \<Rightarrow> w
      | Some (current, references) \<Rightarrow>
          if current \<noteq> lgr then w
          else if references > 1 then w\<lparr>sinks := AList.update path (lgr, references - 1) (sinks w)\<rparr>
          else w\<lparr>sinks := AList.delete path (sinks w), open_handlers := removeAll lgr (open_handlers w)\<rparr>)"

section \<open>Owners and logger objects\<close>

record sink_owner =
  own_loggers :: "(string \<times> nat) list"
  own_closed :: bool

record logger_mw =
  lm_sink_path :: string
  lm_hex_dump :: bool
  lm_closed :: bool
  lm_owns_sink :: bool
  lm_logger :: "nat option"

record log_world = sink_state +
  sink_owners :: "sink_owner list"
  logger_mws :: "logger_mw list"

definition new_owner :: "log_world \<Rightarrow> log_world" where
  "new_owner w = w\<lparr>sink_owners := sink_owners w @ [\<lparr>own_loggers = [], own_closed = False\<rparr>]\<rparr>"

definition set_owner :: "nat \<Rightarrow> sink_owner \<Rightarrow> log_world \<Rightarrow> log_world" where
  "set_owner k ow w = w\<lparr>sink_owners := (sink_owners w)[k := ow]\<rparr>"

definition acquire :: "log_io \<Rightarrow> nat \<Rightarrow> string \<Rightarrow> (log_world, nat) py" where
  "acquire io k log_path w =
     (let ow = sink_owners w ! k in
      if own_closed ow then (Inl RuntimeError, w)
      else let path = canonical io log_path in
        case map_of (own_loggers ow) path of
          Some lgr \<Rightarrow> (Inr lgr, w)
        | None \<Rightarrow>
            (case make_logger io path w of
               (Inl e, w') \<Rightarrow> (Inl e, w')
             | (Inr lgr, w') \<Rightarrow>
                 (Inr lgr, set_owner k (ow\<lparr>own_loggers := AList.update path lgr (own_loggers ow)\<rparr>) w')))"

definition owner_close :: "nat \<Rightarrow> log_world \<Rightarrow> log_world" where
  "owner_close k w =
     (let ow = sink_owners w ! k in
      if own_closed ow then w
      else fold (\<lambda>(path, lgr). release_logger path lgr) (own_loggers ow)
             (set_owner k \<lparr>own_loggers = [], own_closed = True\<rparr> w))"

text \<open>\<open>LoggerMiddleware.__init__\<close>: the object is added to the world unless the constructor raises.
  The owner is \<open>None\<close> for a logger that holds a lease of its own.\<close>

definition mw_bool :: "yaml \<Rightarrow> bool res" where
  "mw_bool v = (case v of YBool b \<Rightarrow> Inr b | _ \<Rightarrow> Inl ValueError)"

definition nonblank :: "yaml \<Rightarrow> string res" where
  "nonblank v = (case v of YStr s \<Rightarrow> if py_strip s = [] then Inl ValueError else Inr s | _ \<Rightarrow> Inl ValueError)"

definition logger_init :: "log_io \<Rightarrow> yaml \<Rightarrow> yaml \<Rightarrow> nat option \<Rightarrow> bool \<Rightarrow> (log_world, nat) py" where
  "logger_init io log_path hex_dump owner open_sink =
     bnd (lift (nonblank log_path)) (\<lambda>path.
     bnd (lift (mw_bool hex_dump)) (\<lambda>hx.
     bnd (if open_sink
          then bnd (case owner of None \<Rightarrow> make_logger io path | Some k \<Rightarrow> acquire io k path) (\<lambda>lgr. ret (Some lgr))
          else ret None) (\<lambda>lgr.
     bnd (gets (\<lambda>w. length (logger_mws w))) (\<lambda>j.
     seq (modify (\<lambda>w. w\<lparr>logger_mws := logger_mws w @
            [\<lparr>lm_sink_path = canonical io path, lm_hex_dump = hx, lm_closed = False,
              lm_owns_sink = (open_sink \<and> owner = None), lm_logger = lgr\<rparr>]\<rparr>))
       (ret j)))))"

definition logger_close :: "nat \<Rightarrow> log_world \<Rightarrow> log_world" where
  "logger_close j w =
     (let m = logger_mws w ! j in
      if lm_closed m then w
      else let w' = w\<lparr>logger_mws := (logger_mws w)[j := m\<lparr>lm_closed := True\<rparr>]\<rparr> in
        if lm_owns_sink m
        then case lm_logger m of None \<Rightarrow> w' | Some lgr \<Rightarrow> release_logger (lm_sink_path m) lgr w'
        else w')"

section \<open>The record of a packet\<close>

text \<open>Hexadecimal text: \<^verbatim>\<open>f"{n:04X}"\<close> and \<^verbatim>\<open>raw.hex(" ")\<close>.\<close>

definition hex_char :: "string \<Rightarrow> nat \<Rightarrow> char" where
  "hex_char alphabet d = alphabet ! d"

fun hex_digits :: "nat \<Rightarrow> string" where
  "hex_digits n = (if n < 16 then [hex_char ''0123456789ABCDEF'' n] else hex_digits (n div 16) @ [hex_char ''0123456789ABCDEF'' (n mod 16)])"

definition pad_zero :: "nat \<Rightarrow> string \<Rightarrow> string" where
  "pad_zero width s = replicate (width - length s) CHR ''0'' @ s"

definition fmt_04X :: "int \<Rightarrow> string" where
  "fmt_04X v = (if v < 0 then CHR ''-'' # pad_zero 3 (hex_digits (nat (- v))) else pad_zero 4 (hex_digits (nat v)))"

definition hex_byte :: "byte \<Rightarrow> string" where
  "hex_byte b = [hex_char ''0123456789abcdef'' (unat b div 16), hex_char ''0123456789abcdef'' (unat b mod 16)]"

fun hex_spaced :: "bytes \<Rightarrow> string" where
  "hex_spaced [] = []"
| "hex_spaced [b] = hex_byte b"
| "hex_spaced (b # bs) = hex_byte b @ '' '' @ hex_spaced bs"

definition PAYLOAD_TYPE_NAMES :: "(int \<times> string) list" where
  "PAYLOAD_TYPE_NAMES =
     [(0x0000, ''DoIP Header NACK''),
      (0x0001, ''Vehicle Identification Request''),
      (0x0002, ''Vehicle Identification Request (EID)''),
      (0x0003, ''Vehicle Identification Request (VIN)''),
      (0x0004, ''Vehicle Identification Response / Vehicle Announcement''),
      (0x0005, ''Routing Activation Request''),
      (0x0006, ''Routing Activation Response''),
      (0x0007, ''Alive Check Request''),
      (0x0008, ''Alive Check Response''),
      (0x4001, ''Entity Status Request''),
      (0x4002, ''Entity Status Response''),
      (0x4003, ''Power Mode Info Request''),
      (0x4004, ''Power Mode Info Response''),
      (0x8001, ''Diagnostic Message''),
      (0x8002, ''Diagnostic Message Positive ACK''),
      (0x8003, ''Diagnostic Message Negative ACK'')]"

abbreviation MAX_HEX_BYTES :: nat where "MAX_HEX_BYTES \<equiv> 4096"

abbreviation MAX_RECORD_BYTES :: nat where "MAX_RECORD_BYTES \<equiv> 16384"

text \<open>The text of one record. \<open>now\<close> is the timestamp, \<open>plen\<close> the text of the length field if the
  packet has one, and \<open>packed\<close> what \<^verbatim>\<open>bytes(pkt)\<close> gives. All of it is ASCII, so characters are bytes.\<close>

definition log_line :: "bool \<Rightarrow> string \<Rightarrow> string \<Rightarrow> int option \<Rightarrow> string option \<Rightarrow> bytes res \<Rightarrow> string" where
  "log_line hex_dump now direction ptype plen packed =
     (let type_hex = (case ptype of None \<Rightarrow> ''?'' | Some p \<Rightarrow> ''0x'' @ fmt_04X p);
          type_name = (case ptype of None \<Rightarrow> ''?''
            | Some p \<Rightarrow> (case map_of PAYLOAD_TYPE_NAMES p of None \<Rightarrow> ''unknown'' | Some n \<Rightarrow> n));
          len_str = (case plen of None \<Rightarrow> ''?'' | Some t \<Rightarrow> t);
          line = now @ ''  dir='' @ direction @ ''  type='' @ type_hex @ ''('' @ type_name @ '')  len='' @ len_str;
          line = (if \<not> hex_dump then line
            else case packed of
              Inl _ \<Rightarrow> line
            | Inr bs \<Rightarrow> line @ [CHR 0x0A] @ ''  hex: '' @ hex_spaced (take MAX_HEX_BYTES bs) @
                (if length bs > MAX_HEX_BYTES
                 then '' ... [truncated; '' @ py_str_int (int (length bs)) @ '' total bytes]'' else []))
      in if length line > MAX_RECORD_BYTES
         then take (MAX_RECORD_BYTES - 32) line @ '' ... [record truncated]''
         else line)"

text \<open>\<open>LoggerMiddleware.process\<close>: the records it writes; the packet itself is returned.\<close>

definition logger_process ::
    "'k scapy \<Rightarrow> ('k \<Rightarrow> string option) \<Rightarrow> string \<Rightarrow> string \<Rightarrow> log_world \<Rightarrow> logger_mw \<Rightarrow> 'k \<Rightarrow> 'k \<times> string list" where
  "logger_process S plen now direction w m pkt =
     (if lm_closed m \<or> lm_logger m = None \<or> the (lm_logger m) \<notin> set (open_handlers w) then (pkt, [])
      else (pkt, [log_line (lm_hex_dump m) now direction (get_ptype S pkt) (plen pkt) (ser S pkt)]))"

end
