(* ===== verification/Edge_Log_Props.thy ===== *)
theory Edge_Log_Props
  imports Edge_Log
begin

text \<open>
  The table of log sinks is exact: its counts are the leases that owners and logger objects hold,
  whatever order they are taken and given back in, so a sink is open as long as somebody holds it and
  closed with its last lease. And a record is bounded.
\<close>

section \<open>A service that hands out counted leases\<close>

text \<open>\<open>ok w M\<close>: the state \<open>w\<close> of the service accounts for the leases \<open>M\<close>.\<close>

locale lease_service =
  fixes ok :: "'w \<Rightarrow> ('k \<times> 'l) multiset \<Rightarrow> bool"
    and key :: "'a \<Rightarrow> 'k"
    and take_lease :: "'a \<Rightarrow> 'w \<Rightarrow> 'l res \<times> 'w"
    and give_back :: "'k \<Rightarrow> 'l \<Rightarrow> 'w \<Rightarrow> 'w"
  assumes taken: "ok w M \<Longrightarrow> take_lease a w = (Inr l, w') \<Longrightarrow> ok w' (add_mset (key a, l) M)"
    and refused: "ok w M \<Longrightarrow> take_lease a w = (Inl e, w') \<Longrightarrow> ok w' M"
    and given_back: "ok w M \<Longrightarrow> (k, l) \<in># M \<Longrightarrow> ok (give_back k l w) (M - {#(k, l)#})"
begin

lemma all_given_back:
  "ok w M \<Longrightarrow> mset ls \<subseteq># M \<Longrightarrow> ok (fold (\<lambda>(k, l). give_back k l) ls w) (M - mset ls)"
proof (induction ls arbitrary: w M)
  case (Cons x ls)
  obtain k l where x: "x = (k, l)" by (cases x)
  have mem: "(k, l) \<in># M" and sub: "mset ls \<subseteq># M - {#(k, l)#}"
    using Cons.prems(2) x by (simp_all add: insert_subset_eq_iff)
  show ?case using Cons.IH [OF given_back [OF Cons.prems(1) mem] sub] x by simp
qed simp

lemma given_back_after_taken:
  "ok w M \<Longrightarrow> take_lease a w = (Inr l, w') \<Longrightarrow> ok (give_back (key a) l w') M"
  using given_back [OF taken, of w M a l w' "key a" l] by simp

end

section \<open>The table provides it\<close>

text \<open>The table as a map \<open>T\<close>, the open loggers \<open>H\<close> and the next number \<open>nx\<close> account for \<open>M\<close>.\<close>

definition counted :: "(string \<Rightarrow> (nat \<times> nat) option) \<Rightarrow> nat set \<Rightarrow> nat \<Rightarrow> (string \<times> nat) multiset \<Rightarrow> bool" where
  "counted T H nx M \<longleftrightarrow>
     (\<forall>p l n. T p = Some (l, n) \<longrightarrow> 0 < n \<and> count M (p, l) = n \<and> l \<in> H) \<and>
     (\<forall>p l. (p, l) \<in># M \<longrightarrow> (\<exists>n. T p = Some (l, n))) \<and>
     (\<forall>l \<in> H. l < nx \<and> (\<exists>p n. T p = Some (l, n))) \<and>
     (\<forall>p q l m n. T p = Some (l, m) \<longrightarrow> T q = Some (l, n) \<longrightarrow> p = q)"

definition accounts :: "'z sink_state_scheme \<Rightarrow> (string \<times> nat) multiset \<Rightarrow> bool" where
  "accounts w M \<longleftrightarrow>
     distinct (map fst (sinks w)) \<and> counted (map_of (sinks w)) (set (open_handlers w)) (next_logger w) M"

lemma counted_table: "counted T H nx M \<Longrightarrow> T p = Some (l, n) \<Longrightarrow> 0 < n \<and> count M (p, l) = n \<and> l \<in> H"
  by (simp add: counted_def)

lemma counted_lease: "counted T H nx M \<Longrightarrow> (p, l) \<in># M \<Longrightarrow> \<exists>n. T p = Some (l, n)"
  by (simp add: counted_def)

lemma counted_fresh: "counted T H nx M \<Longrightarrow> T p = Some (l, n) \<Longrightarrow> l < nx"
  by (auto simp: counted_def)

lemma counted_owner: "counted T H nx M \<Longrightarrow> l \<in> H \<Longrightarrow> \<exists>p n. T p = Some (l, n)"
  by (simp add: counted_def)

lemma counted_inj: "counted T H nx M \<Longrightarrow> T p = Some (l, m) \<Longrightarrow> T q = Some (l, n) \<Longrightarrow> p = q"
  unfolding counted_def by blast

lemma countedI:
  assumes "\<And>p l n. T p = Some (l, n) \<Longrightarrow> 0 < n \<and> count M (p, l) = n \<and> l \<in> H \<and> l < nx"
    and "\<And>p l. (p, l) \<in># M \<Longrightarrow> \<exists>n. T p = Some (l, n)"
    and "\<And>l. l \<in> H \<Longrightarrow> \<exists>p n. T p = Some (l, n)"
    and "\<And>p q l m n. T p = Some (l, m) \<Longrightarrow> T q = Some (l, n) \<Longrightarrow> p = q"
  shows "counted T H nx M"
  unfolding counted_def using assms by meson

lemma counted_new:
  assumes c: "counted T H nx M" and new: "T p = None"
  shows "counted (T(p \<mapsto> (nx, Suc 0))) (insert nx H) (Suc nx) (add_mset (p, nx) M)"
proof (rule countedI)
  have no: "(p, l) \<notin># M" for l using counted_lease [OF c] new by fastforce
  fix q l n
  show "(T(p \<mapsto> (nx, Suc 0))) q = Some (l, n) \<Longrightarrow>
      0 < n \<and> count (add_mset (p, nx) M) (q, l) = n \<and> l \<in> insert nx H \<and> l < Suc nx"
    using counted_table [OF c, of q l n] counted_fresh [OF c, of q l n] no [of nx]
    by (auto simp: not_in_iff less_Suc_eq split: if_splits)
  show "(q, l) \<in># add_mset (p, nx) M \<Longrightarrow> \<exists>n. (T(p \<mapsto> (nx, Suc 0))) q = Some (l, n)"
    using counted_lease [OF c, of q l] no by auto
next
  fix l
  show "l \<in> insert nx H \<Longrightarrow> \<exists>q n. (T(p \<mapsto> (nx, Suc 0))) q = Some (l, n)"
    using counted_owner [OF c, of l] new by auto (metis option.distinct(1))
next
  fix q r l m n
  show "(T(p \<mapsto> (nx, Suc 0))) q = Some (l, m) \<Longrightarrow> (T(p \<mapsto> (nx, Suc 0))) r = Some (l, n) \<Longrightarrow> q = r"
    using counted_inj [OF c, of q l m r n] counted_fresh [OF c, of q l m] counted_fresh [OF c, of r l n]
    by (auto split: if_splits)
qed

text \<open>The count of a sink changes with its leases.\<close>

lemma counted_change:
  assumes c: "counted T H nx M" and old: "T p = Some (l, n)"
    and new: "0 < k" "count M' (p, l) = k" and other: "\<And>q. q \<noteq> (p, l) \<Longrightarrow> count M' q = count M q"
  shows "counted (T(p \<mapsto> (l, k))) H nx M'"
proof (rule countedI)
  fix q j m
  show "(T(p \<mapsto> (l, k))) q = Some (j, m) \<Longrightarrow> 0 < m \<and> count M' (q, j) = m \<and> j \<in> H \<and> j < nx"
    using counted_table [OF c] counted_fresh [OF c] new other [of "(q, j)"] old by (auto split: if_splits)
  show "(q, j) \<in># M' \<Longrightarrow> \<exists>n. (T(p \<mapsto> (l, k))) q = Some (j, n)"
    using counted_lease [OF c, of q j] other [of "(q, j)"] old by (cases "(q, j) = (p, l)") (auto simp flip: count_greater_zero_iff)
next
  fix j
  show "j \<in> H \<Longrightarrow> \<exists>q n. (T(p \<mapsto> (l, k))) q = Some (j, n)"
    using counted_owner [OF c, of j] old by (metis fun_upd_apply option.sel prod.sel(1))
next
  fix q r j m m'
  show "(T(p \<mapsto> (l, k))) q = Some (j, m) \<Longrightarrow> (T(p \<mapsto> (l, k))) r = Some (j, m') \<Longrightarrow> q = r"
    using counted_inj [OF c] old by (auto split: if_splits)
qed

lemma counted_last:
  assumes c: "counted T H nx M" and old: "T p = Some (l, 1)"
  shows "counted (T(p := None)) (H - {l}) nx (M - {#(p, l)#})"
proof (rule countedI)
  fix q j m
  show "(T(p := None)) q = Some (j, m) \<Longrightarrow> 0 < m \<and> count (M - {#(p, l)#}) (q, j) = m \<and> j \<in> H - {l} \<and> j < nx"
    using counted_table [OF c, of q j m] counted_fresh [OF c, of q j m] counted_inj [OF c old, of q m]
    by (auto split: if_splits)
  show "(q, j) \<in># M - {#(p, l)#} \<Longrightarrow> \<exists>n. (T(p := None)) q = Some (j, n)"
    using counted_lease [OF c, of q j] counted_table [OF c old] old by (auto simp flip: count_greater_zero_iff split: if_splits)
next
  fix j
  show "j \<in> H - {l} \<Longrightarrow> \<exists>q n. (T(p := None)) q = Some (j, n)"
    using counted_owner [OF c, of j] old by (metis DiffE fun_upd_apply insertI1 option.sel prod.sel(1))
next
  fix q r j m m'
  show "(T(p := None)) q = Some (j, m) \<Longrightarrow> (T(p := None)) r = Some (j, m') \<Longrightarrow> q = r"
    using counted_inj [OF c] by (auto split: if_splits)
qed

lemma make_logger_accounts:
  assumes "accounts w M" "make_logger io p w = (Inr l, w')"
  shows "accounts w' (add_mset (canonical io p, l) M)"
proof (cases "map_of (sinks w) (canonical io p)")
  case None
  with assms show ?thesis
    by (auto simp: make_logger_def Let_def accounts_def update_conv' distinct_update counted_new
        split: option.splits)
next
  case (Some x)
  obtain lgr n where x: "x = (lgr, n)" by (cases x)
  have c: "counted (map_of (sinks w)) (set (open_handlers w)) (next_logger w) M"
    using assms(1) by (simp add: accounts_def)
  have "counted ((map_of (sinks w))(canonical io p \<mapsto> (lgr, n + 1))) (set (open_handlers w)) (next_logger w)
      (add_mset (canonical io p, lgr) M)"
    using counted_change [OF c, of "canonical io p" lgr n "n + 1"] counted_table [OF c] Some x by auto
  with assms Some x show ?thesis
    by (auto simp: make_logger_def accounts_def update_conv' distinct_update)
qed

lemma counted_Suc: "counted T H nx M \<Longrightarrow> counted T H (Suc nx) M"
  unfolding counted_def by (meson less_SucI)

lemma make_logger_refused:
  "accounts w M \<Longrightarrow> make_logger io p w = (Inl e, w') \<Longrightarrow> accounts w' M"
  by (auto simp: make_logger_def Let_def accounts_def counted_Suc split: option.splits)

lemma release_logger_accounts:
  assumes "accounts w M" "(p, l) \<in># M"
  shows "accounts (release_logger p l w) (M - {#(p, l)#})"
proof -
  have c: "counted (map_of (sinks w)) (set (open_handlers w)) (next_logger w) M"
    using assms(1) by (simp add: accounts_def)
  then obtain n where n: "map_of (sinks w) p = Some (l, n)" using assms(2) counted_lease by blast
  have pos: "0 < n" "count M (p, l) = n" using counted_table [OF c n] by simp_all
  show ?thesis
  proof (cases "n > 1")
    case True
    then have "counted ((map_of (sinks w))(p \<mapsto> (l, n - 1))) (set (open_handlers w)) (next_logger w) (M - {#(p, l)#})"
      using counted_change [OF c n, of "n - 1" "M - {#(p, l)#}"] pos by auto
    with assms(1) n True show ?thesis
      by (auto simp: release_logger_def accounts_def update_conv' distinct_update)
  next
    case False
    with pos n have "counted ((map_of (sinks w))(p := None)) (set (open_handlers w) - {l}) (next_logger w) (M - {#(p, l)#})"
      using counted_last [OF c, of p l] by auto
    with assms(1) n False show ?thesis
      by (auto simp: release_logger_def accounts_def delete_conv' distinct_delete)
  qed
qed


interpretation sink: lease_service accounts "canonical io" "make_logger io" release_logger for io
  by unfold_locales (rule make_logger_accounts make_logger_refused release_logger_accounts; assumption)+

section \<open>Leases of a world\<close>

definition mw_lease :: "logger_mw \<Rightarrow> (string \<times> nat) multiset" where
  "mw_lease m =
     (if lm_owns_sink m \<and> \<not> lm_closed m
      then (case lm_logger m of None \<Rightarrow> {#} | Some l \<Rightarrow> {#(lm_sink_path m, l)#}) else {#})"

definition leases :: "log_world \<Rightarrow> (string \<times> nat) multiset" where
  "leases w = sum_list (map (\<lambda>ow. mset (own_loggers ow)) (sink_owners w)) + sum_list (map mw_lease (logger_mws w))"

definition owner_ok :: "sink_owner \<Rightarrow> bool" where
  "owner_ok ow \<longleftrightarrow> distinct (map fst (own_loggers ow)) \<and> (own_closed ow \<longrightarrow> own_loggers ow = [])"

definition log_inv :: "log_world \<Rightarrow> bool" where
  "log_inv w \<longleftrightarrow> accounts w (leases w) \<and> list_all owner_ok (sink_owners w)"

inductive log_step :: "log_io \<Rightarrow> log_world \<Rightarrow> log_world \<Rightarrow> bool" for io where
  NewOwner: "log_step io w (new_owner w)"
| Acquire: "k < length (sink_owners w) \<Longrightarrow> log_step io w (snd (acquire io k p w))"
| CloseOwner: "k < length (sink_owners w) \<Longrightarrow> log_step io w (owner_close k w)"
| NewLogger: "(\<forall>k. own = Some k \<longrightarrow> k < length (sink_owners w)) \<Longrightarrow>
     log_step io w (snd (logger_init io lp hx own op w))"
| CloseLogger: "j < length (logger_mws w) \<Longrightarrow> log_step io w (logger_close j w)"

definition new_log_world :: log_world where
  "new_log_world = \<lparr>sinks = [], open_handlers = [], next_logger = 0, sink_owners = [], logger_mws = []\<rparr>"

definition log_reachable :: "log_io \<Rightarrow> log_world \<Rightarrow> bool" where
  "log_reachable io w \<longleftrightarrow> (log_step io)\<^sup>*\<^sup>* new_log_world w"


lemma leases_no_owner_change [simp]:
  "leases (w\<lparr>sinks := a\<rparr>) = leases w" "leases (w\<lparr>open_handlers := b\<rparr>) = leases w"
  "leases (w\<lparr>next_logger := c\<rparr>) = leases w"
  by (simp_all add: leases_def)

lemma make_logger_frame:
  "make_logger io p w = (r, w') \<Longrightarrow> sink_owners w' = sink_owners w \<and> logger_mws w' = logger_mws w"
  by (auto simp: make_logger_def Let_def split: option.splits)

lemma release_logger_frame [simp]:
  "sink_owners (release_logger p l w) = sink_owners w" "logger_mws (release_logger p l w) = logger_mws w"
  by (auto simp: release_logger_def split: option.splits)

lemma release_all_frame [simp]:
  "sink_owners (fold (\<lambda>(p, l). release_logger p l) ls w) = sink_owners w"
  "logger_mws (fold (\<lambda>(p, l). release_logger p l) ls w) = logger_mws w"
  by (induction ls arbitrary: w) auto

lemma leases_frame: "sink_owners w' = sink_owners w \<Longrightarrow> logger_mws w' = logger_mws w \<Longrightarrow> leases w' = leases w"
  by (simp add: leases_def)

lemma sum_list_set:
  fixes f :: "'a \<Rightarrow> 'b multiset"
  assumes "k < length xs"
  shows "sum_list (map f (xs[k := x])) = sum_list (map f xs) - f (xs ! k) + f x" "f (xs ! k) \<subseteq># sum_list (map f xs)"
proof -
  have *: "map f xs = map f (take k xs) @ f (xs ! k) # map f (drop (Suc k) xs)"
    using assms by (subst id_take_nth_drop [OF assms]) simp
  show "f (xs ! k) \<subseteq># sum_list (map f xs)" by (subst *) simp
  show "sum_list (map f (xs[k := x])) = sum_list (map f xs) - f (xs ! k) + f x"
    by (subst *) (simp add: upd_conv_take_nth_drop [OF assms] ac_simps)
qed

lemma accounts_frame:
  "accounts (set_owner k ow w) M = accounts w M" "accounts (w\<lparr>logger_mws := ms\<rparr>) M = accounts w M"
  "accounts (w\<lparr>sink_owners := os\<rparr>) M = accounts w M"
  by (simp_all add: accounts_def set_owner_def)

lemma new_owner_inv: "log_inv w \<Longrightarrow> log_inv (new_owner w)"
  by (simp add: log_inv_def new_owner_def accounts_frame leases_def owner_ok_def)

lemma owner_ok_nth: "log_inv w \<Longrightarrow> k < length (sink_owners w) \<Longrightarrow> owner_ok (sink_owners w ! k)"
  by (simp add: log_inv_def list_all_length)

lemma owner_ok_set: "list_all owner_ok os \<Longrightarrow> owner_ok ow \<Longrightarrow> list_all owner_ok (os[k := ow])"
  by (auto simp: list_all_iff dest: set_update_subset_insert [THEN subsetD])

lemma exchange_part:
  fixes A B a b :: "'a multiset"
  assumes "a \<subseteq># A"
  shows "A - a + b + B = A + B - a + b" "B + (A - a + b) = B + A - a + b"
proof -
  have le: "count a x \<le> count A x" for x using assms by (rule mset_subset_eq_count)
  show "A - a + b + B = A + B - a + b" "B + (A - a + b) = B + A - a + b"
    by (rule multiset_eqI, cut_tac x = x in le, simp)+
qed

lemma leases_set_owner:
  assumes "k < length (sink_owners w)"
  shows "leases (set_owner k ow w) = leases w - mset (own_loggers (sink_owners w ! k)) + mset (own_loggers ow)"
    "mset (own_loggers (sink_owners w ! k)) \<subseteq># leases w"
proof -
  note upd = sum_list_set [OF assms, of "\<lambda>ow. mset (own_loggers ow)"]
  show "mset (own_loggers (sink_owners w ! k)) \<subseteq># leases w"
    using upd(2) by (simp add: leases_def subset_mset.add_increasing2)
  show "leases (set_owner k ow w) = leases w - mset (own_loggers (sink_owners w ! k)) + mset (own_loggers ow)"
  proof -
    have "sink_owners (set_owner k ow w) = (sink_owners w)[k := ow]" "logger_mws (set_owner k ow w) = logger_mws w"
      by (simp_all add: set_owner_def)
    then show ?thesis by (simp only: leases_def upd(1) exchange_part(1) [OF upd(2)])
  qed
qed

lemma update_new_key: "map_of xs k = None \<Longrightarrow> AList.update k v xs = xs @ [(k, v)]"
  by (induction xs) auto

text \<open>Under idempotent canonical paths, the owner's dictionary and the table use the same key.\<close>

lemma acquire_log_inv:
  assumes idem: "\<And>p. canonical io (canonical io p) = canonical io p"
    and inv: "log_inv w" and k: "k < length (sink_owners w)" and run: "acquire io k p w = (r, w')"
  shows "log_inv w'"
proof (cases "own_closed (sink_owners w ! k) \<or> map_of (own_loggers (sink_owners w ! k)) (canonical io p) \<noteq> None")
  case True
  with inv run show ?thesis by (auto simp: acquire_def Let_def split: if_splits option.splits)
next
  case False
  let ?ow = "sink_owners w ! k"
  obtain x v where mk: "make_logger io (canonical io p) w = (x, v)" by fastforce
  have v: "sink_owners v = sink_owners w" "logger_mws v = logger_mws w" using make_logger_frame [OF mk] by auto
  show ?thesis
  proof (cases x)
    case (Inl e)
    with False run mk have "w' = v" by (auto simp: acquire_def)
    then show ?thesis
      using sink.refused [OF _ mk [unfolded Inl]] inv v leases_frame [OF v] by (simp add: log_inv_def)
  next
    case (Inr l)
    let ?ow' = "?ow\<lparr>own_loggers := AList.update (canonical io p) l (own_loggers ?ow)\<rparr>"
    have w': "w' = set_owner k ?ow' v" using False run mk Inr by (auto simp: acquire_def Let_def)
    have acc: "accounts v (add_mset (canonical io p, l) (leases w))"
      using sink.taken [OF _ mk [unfolded Inr]] inv idem by (simp add: log_inv_def)
    have new: "mset (own_loggers ?ow') = add_mset (canonical io p, l) (mset (own_loggers ?ow))"
      using False by (simp add: update_new_key)
    have "leases w' = add_mset (canonical io p, l) (leases w)"
      using leases_set_owner(1) [of k v ?ow'] leases_set_owner(2) [of k v] k v leases_frame [OF v] new by (simp add: w')
    moreover have "owner_ok ?ow'" using owner_ok_nth [OF inv k] False by (simp add: owner_ok_def distinct_update)
    ultimately show ?thesis
      using acc inv v by (simp add: w' log_inv_def accounts_frame) (simp add: set_owner_def owner_ok_set)
  qed
qed

lemma owner_close_inv:
  assumes inv: "log_inv w" and k: "k < length (sink_owners w)"
  shows "log_inv (owner_close k w)"
proof (cases "own_closed (sink_owners w ! k)")
  case False
  let ?ls = "own_loggers (sink_owners w ! k)" and ?v = "set_owner k \<lparr>own_loggers = [], own_closed = True\<rparr> w"
  have acc: "accounts ?v (leases w)" using inv by (simp add: log_inv_def accounts_frame)
  have "accounts (fold (\<lambda>(p, l). release_logger p l) ?ls ?v) (leases w - mset ?ls)"
    by (rule sink.all_given_back [OF acc leases_set_owner(2) [OF k]])
  moreover have "leases (fold (\<lambda>(p, l). release_logger p l) ?ls ?v) = leases w - mset ?ls"
    using leases_set_owner(1) [OF k] by (simp add: leases_frame [of "fold _ _ _" ?v])
  ultimately show ?thesis
    using False inv by (simp add: log_inv_def owner_close_def Let_def)
      (simp add: set_owner_def owner_ok_set owner_ok_def)
qed (simp add: owner_close_def inv)

lemma leases_logger:
  assumes "j < length (logger_mws w)"
  shows "leases (w\<lparr>logger_mws := (logger_mws w)[j := m]\<rparr>) = leases w - mw_lease (logger_mws w ! j) + mw_lease m"
    "mw_lease (logger_mws w ! j) \<subseteq># leases w"
proof -
  note upd = sum_list_set [OF assms, of mw_lease]
  show "mw_lease (logger_mws w ! j) \<subseteq># leases w"
    using upd(2) by (simp add: leases_def subset_mset.add_increasing)
  show "leases (w\<lparr>logger_mws := (logger_mws w)[j := m]\<rparr>) = leases w - mw_lease (logger_mws w ! j) + mw_lease m"
  proof -
    have "leases (w\<lparr>logger_mws := (logger_mws w)[j := m]\<rparr>) = sum_list (map (\<lambda>ow. mset (own_loggers ow)) (sink_owners w))
        + sum_list (map mw_lease ((logger_mws w)[j := m]))" by (simp add: leases_def)
    then show ?thesis by (simp only: leases_def upd(1) exchange_part(2) [OF upd(2)])
  qed
qed

lemma logger_close_inv:
  assumes inv: "log_inv w" and j: "j < length (logger_mws w)"
  shows "log_inv (logger_close j w)"
proof (cases "lm_closed (logger_mws w ! j)")
  case False
  let ?m = "logger_mws w ! j" and ?v = "w\<lparr>logger_mws := (logger_mws w)[j := (logger_mws w ! j)\<lparr>lm_closed := True\<rparr>]\<rparr>"
  have lv: "leases ?v = leases w - mw_lease ?m"
    using leases_logger(1) [OF j, of "?m\<lparr>lm_closed := True\<rparr>"] by (simp add: mw_lease_def)
  have acc: "accounts ?v (leases w)" using inv by (simp add: log_inv_def accounts_frame)
  show ?thesis
  proof (cases "lm_owns_sink ?m \<and> lm_logger ?m \<noteq> None")
    case True
    then obtain l where l: "lm_logger ?m = Some l" "mw_lease ?m = {#(lm_sink_path ?m, l)#}"
      using False by (auto simp: mw_lease_def)
    have mem: "(lm_sink_path ?m, l) \<in># leases w" using leases_logger(2) [OF j] l by simp
    have "accounts (release_logger (lm_sink_path ?m) l ?v) (leases w - {#(lm_sink_path ?m, l)#})"
      by (rule sink.given_back [OF acc mem])
    moreover have "leases (release_logger (lm_sink_path ?m) l ?v) = leases ?v" by (rule leases_frame) simp_all
    ultimately show ?thesis
      using False True l lv inv by (simp add: log_inv_def logger_close_def Let_def)
  next
    case nolease: False
    then have "mw_lease ?m = {#}" by (auto simp: mw_lease_def)
    with False nolease lv acc inv show ?thesis
      by (auto simp: log_inv_def logger_close_def Let_def split: option.splits)
  qed
qed (simp add: logger_close_def inv)

lemma new_logger_inv:
  assumes "accounts w (leases w + mw_lease m)" "list_all owner_ok (sink_owners w)"
  shows "log_inv (w\<lparr>logger_mws := logger_mws w @ [m]\<rparr>)"
proof -
  have "leases (w\<lparr>logger_mws := logger_mws w @ [m]\<rparr>) = leases w + mw_lease m"
    by (simp add: leases_def ac_simps)
  with assms show ?thesis by (simp add: log_inv_def accounts_frame)
qed

lemma logger_init_inv:
  assumes idem: "\<And>p. canonical io (canonical io p) = canonical io p"
    and inv: "log_inv w" and own: "\<forall>k. own = Some k \<longrightarrow> k < length (sink_owners w)"
  shows "log_inv (snd (logger_init io lp hx own op w))"
proof (cases "nonblank lp")
  case (Inr path)
  note lp = this
  show ?thesis
  proof (cases "mw_bool hx")
    case (Inr b)
    note lp = lp Inr
    show ?thesis
    proof (cases op)
      case False
      then show ?thesis
        using lp inv new_logger_inv [of w]
        by (simp add: logger_init_def log_inv_def mw_lease_def)
    next
      case True
      show ?thesis
      proof (cases own)
        case None
        obtain x v where mk: "make_logger io path w = (x, v)" by fastforce
        have v: "sink_owners v = sink_owners w" "logger_mws v = logger_mws w" using make_logger_frame [OF mk] by auto
        show ?thesis
        proof (cases x)
          case (Inl e)
          then show ?thesis
            using sink.refused [OF _ mk [unfolded Inl]] inv v leases_frame [OF v] lp True None mk
            by (simp add: logger_init_def log_inv_def bnd_def)
        next
          case (Inr l)
          let ?m = "\<lparr>lm_sink_path = canonical io path, lm_hex_dump = b, lm_closed = False, lm_owns_sink = True, lm_logger = Some l\<rparr>"
          have "accounts v (leases v + mw_lease ?m)"
            using sink.taken [OF _ mk [unfolded Inr]] inv leases_frame [OF v] by (simp add: log_inv_def mw_lease_def)
          then show ?thesis
            using new_logger_inv [of v ?m] lp True None mk Inr v inv
            by (simp add: logger_init_def log_inv_def bnd_def)
        qed
      next
        case (Some k)
        obtain x v where ac: "acquire io k path w = (x, v)" by fastforce
        have v: "log_inv v" using acquire_log_inv [OF idem inv _ ac] own Some by simp
        show ?thesis
          using lp True Some ac v new_logger_inv [of v]
          by (cases x) (simp_all add: logger_init_def bnd_def log_inv_def mw_lease_def)
      qed
    qed
  qed (simp add: logger_init_def lp bnd_def inv)
qed (simp add: logger_init_def bnd_def inv)

lemma log_step_inv:
  assumes "log_step io w w'" "log_inv w" "\<And>p. canonical io (canonical io p) = canonical io p"
  shows "log_inv w'"
  using assms
  by cases (auto intro: new_owner_inv owner_close_inv logger_close_inv logger_init_inv
      acquire_log_inv [OF _ _ _ prod.collapse [symmetric]])

lemma log_reachable_new: "log_reachable io new_log_world"
  by (simp add: log_reachable_def)

lemma log_reachable_step: "log_reachable io v \<Longrightarrow> log_step io v w \<Longrightarrow> log_reachable io w"
  by (simp add: log_reachable_def)

lemma log_reachable_inv:
  assumes "log_reachable io w" "\<And>p. canonical io (canonical io p) = canonical io p"
  shows "log_inv w"
  using assms(1) unfolding log_reachable_def
proof (induction rule: rtranclp_induct)
  case base
  show ?case by (simp add: log_inv_def new_log_world_def leases_def accounts_def counted_def)
next
  case (step v w)
  then show ?case using log_step_inv assms(2) by blast
qed


section \<open>The table is exact\<close>

text \<open>C28: Whatever owners and logger objects are created, acquire and close, in whatever order and with
  whatever failures to open a file: the reference count of every log sink is the number of leases that
  are held on it, a sink is in the table exactly as long as somebody holds a lease, and the handlers
  that are open are those of the leased sinks. So no sink leaks and none is closed while it is in use.\<close>

theorem sinks_exact:
  assumes "\<forall>p. canonical io (canonical io p) = canonical io p" "log_reachable io w"
  shows "(\<forall>p l n. map_of (sinks w) p = Some (l, n) \<longleftrightarrow> n = count (leases w) (p, l) \<and> 0 < n) \<and>
    (\<forall>l. l \<in> set (open_handlers w) \<longleftrightarrow> (\<exists>p. (p, l) \<in># leases w))"
proof -
  have c: "counted (map_of (sinks w)) (set (open_handlers w)) (next_logger w) (leases w)"
    using log_reachable_inv [OF assms(2)] assms(1) by (simp add: log_inv_def accounts_def)
  have "map_of (sinks w) p = Some (l, n) \<longleftrightarrow> n = count (leases w) (p, l) \<and> 0 < n" for p l n
    using counted_table [OF c, of p l] counted_lease [OF c, of p l] by (auto simp flip: count_greater_zero_iff)
  moreover have "l \<in> set (open_handlers w) \<longleftrightarrow> (\<exists>p. (p, l) \<in># leases w)" for l
    using counted_owner [OF c, of l] counted_table [OF c, of _ l] counted_lease [OF c, of _ l]
    by (metis count_greater_zero_iff)
  ultimately show ?thesis by blast
qed

definition plain_io :: log_io where
  "plain_io = \<lparr>canonical = id, open_file = (\<lambda>l p. if p = ''/nowhere'' then Some OtherError else None)\<rparr>"

text \<open>A server owner holds a sink that a standalone logger holds, too.\<close>

definition two_holders :: log_world where
  "two_holders = snd (logger_init plain_io (YStr ''a.log'') (YBool True) None True (snd (acquire plain_io 0 ''a.log'' (new_owner new_log_world))))"

lemma two_holders_reachable: "log_reachable plain_io two_holders"
proof -
  have "log_reachable plain_io (new_owner new_log_world)"
    by (rule log_reachable_step [OF log_reachable_new NewOwner])
  then have "log_reachable plain_io (snd (acquire plain_io 0 ''a.log'' (new_owner new_log_world)))"
    by (rule log_reachable_step) (rule Acquire, simp add: new_owner_def)
  then show ?thesis
    unfolding two_holders_def by (rule log_reachable_step) (rule NewLogger, simp)
qed

theorem sinks_exact_witness:
  "map_of (sinks two_holders) ''a.log'' = Some (0, 2) \<and> count (leases two_holders) (''a.log'', 0) = 2"
proof -
  have tab: "map_of (sinks two_holders) ''a.log'' = Some (0, 2)"
    by (simp add: two_holders_def logger_init_def acquire_def make_logger_def plain_io_def new_owner_def
        new_log_world_def nonblank_def mw_bool_def set_owner_def bnd_def seq_def py_strip_def strip_by_def is_space_def is_ws_def Let_def)
  moreover have "count (leases two_holders) (''a.log'', 0) = 2"
    using sinks_exact [OF _ two_holders_reachable] tab by (simp add: plain_io_def)
  ultimately show ?thesis ..
qed

text \<open>A record never exceeds its bound, whatever the packet and the fields of the record are.\<close>

lemma log_line_bounded: "length (log_line hx now dir pt pl packed) \<le> MAX_RECORD_BYTES"
proof -
  have "length (if length t > MAX_RECORD_BYTES then take (MAX_RECORD_BYTES - 32) t @ '' ... [record truncated]'' else t)
      \<le> MAX_RECORD_BYTES" for t :: string
    by simp
  then show ?thesis unfolding log_line_def Let_def by blast
qed

text \<open>A logger passes the packet on, and writes one record exactly while its sink is open.\<close>

lemma logger_process_passes: "fst (logger_process S pl now dir w m pkt) = pkt"
  by (simp add: logger_process_def)

lemma logger_silent_after_close: "j < length (logger_mws w) \<Longrightarrow>
    snd (logger_process S pl now dir (logger_close j w) (logger_mws (logger_close j w) ! j) pkt) = []"
  by (auto simp: logger_process_def logger_close_def Let_def split: option.splits)

end
