(* ===== verification/Edge_Build.thy ===== *)
theory Edge_Build
  imports Edge_Log_Props
begin

text \<open>
  From the configuration to the middleware objects: the constructors of
  \<^verbatim>\<open>doip_edgenode/middleware\<close> with their validation, \<open>_build_middleware\<close> and the construction of
  \<open>DoIPServer\<close> (\<^verbatim>\<open>doip_edgenode/server.py\<close>). Constructor arguments are the parameters the loader of
  \<open>Edge_Config_Load\<close> returns; the log sinks are those of \<open>Edge_Log\<close>.
\<close>

section \<open>Validation of settings\<close>

definition mw_bounded :: "int \<Rightarrow> int option \<Rightarrow> yaml \<Rightarrow> int res" where
  "mw_bounded lo hi v =
     ebind (case v of
         YInt i \<Rightarrow> Inr i
       | YStr s \<Rightarrow> (case int_text s of None \<Rightarrow> Inl ValueError | Some i \<Rightarrow> Inr i)
       | _ \<Rightarrow> Inl ValueError) (\<lambda>r.
     if r < lo \<or> (hi \<noteq> None \<and> the hi < r) then Inl ValueError else Inr r)"

definition mw_float :: "py_lib \<Rightarrow> rat \<Rightarrow> rat option \<Rightarrow> yaml \<Rightarrow> rat res" where
  "mw_float L lo hi v =
     (case py_float L v of
        None \<Rightarrow> Inl ValueError
      | Some r \<Rightarrow> if r < lo \<or> (hi \<noteq> None \<and> the hi < r) then Inl ValueError else Inr r)"

definition mw_bounded_opt :: "int \<Rightarrow> int option \<Rightarrow> yaml \<Rightarrow> int option res" where
  "mw_bounded_opt lo hi v = (if v = YNull then Inr None else ebind (mw_bounded lo hi v) (\<lambda>i. Inr (Some i)))"

section \<open>Constructors\<close>

definition match_filter :: "yaml \<Rightarrow> (string option \<times> int option) res" where
  "match_filter v =
     (case v of
        YNull \<Rightarrow> Inr (None, None)
      | YMap d \<Rightarrow>
          if \<not> list_all (\<lambda>(k, x). case k of YStr s \<Rightarrow> True | _ \<Rightarrow> False) d then Inl ValueError
          else ebind (case get d ''direction'' YNull of
                YNull \<Rightarrow> Inr None
              | YStr s \<Rightarrow> if s = ''tester_to_ecu'' \<or> s = ''ecu_to_tester'' then Inr (Some s) else Inl ValueError
              | _ \<Rightarrow> Inl ValueError) (\<lambda>direction.
            ebind (mw_bounded_opt 0 (Some 0xFFFF) (get d ''payload_type'' YNull)) (\<lambda>pt.
            Inr (direction, pt)))
      | _ \<Rightarrow> Inl ValueError)"

definition drop_init :: "py_lib \<Rightarrow> ydict \<Rightarrow> drop_mw res" where
  "drop_init L p =
     ebind (mw_float L 0 (Some 1) (get p ''drop_rate'' (YFloat (Some 0)))) (\<lambda>rate.
     ebind (match_filter (get p ''match'' YNull)) (\<lambda>(d, pt).
     Inr \<lparr>drop_rate = rate, match_direction = d, match_payload_type = pt\<rparr>))"

definition delay_init :: "ydict \<Rightarrow> delay_mw res" where
  "delay_init p =
     ebind (mw_bounded 0 None (get p ''delay_ms'' (YInt 0))) (\<lambda>d.
     ebind (mw_bounded 0 None (get p ''jitter_ms'' (YInt 0))) (\<lambda>j.
     Inr \<lparr>delay_ms = d, jitter_ms = j\<rparr>))"

definition corrupt_init :: "ydict \<Rightarrow> corrupt_mw res" where
  "corrupt_init p =
     ebind (mw_bounded_opt 0 None (get p ''byte_offset'' YNull)) (\<lambda>off.
     ebind (mw_bounded 0 (Some 0xFF) (get p ''flip_mask'' (YInt 1))) (\<lambda>mask.
     Inr \<lparr>byte_offset = off, flip_mask = mask\<rparr>))"

definition replay_init :: "ydict \<Rightarrow> 'k replay_mw res" where
  "replay_init p =
     ebind (mw_bool (get p ''record'' (YBool False))) (\<lambda>r.
     ebind (mw_bounded 1 None (get p ''replay_count'' (YInt 1))) (\<lambda>n.
     Inr \<lparr>recording = r, replay_count = n, recorded = [], replayed = False\<rparr>))"

definition address_init :: "ydict \<Rightarrow> address_mw res" where
  "address_init p =
     ebind (mw_bounded_opt 0 (Some 0xFFFF) (get p ''src_override'' YNull)) (\<lambda>s.
     ebind (mw_bounded_opt 0 (Some 0xFFFF) (get p ''tgt_override'' YNull)) (\<lambda>t.
     Inr \<lparr>src_override = s, tgt_override = t\<rparr>))"

definition fault_of :: "yaml \<Rightarrow> fault_mode res" where
  "fault_of v =
     (if v = YStr ''wrong_version'' then Inr wrong_version
      else if v = YStr ''bad_inverse'' then Inr bad_inverse
      else if v = YStr ''bad_length'' then Inr bad_length
      else if v = YStr ''unknown_type'' then Inr unknown_type
      else case v of YList _ \<Rightarrow> Inl TypeError | YMap _ \<Rightarrow> Inl TypeError | _ \<Rightarrow> Inl ValueError)"

definition header_fault_init :: "ydict \<Rightarrow> header_fault res" where
  "header_fault_init p =
     ebind (fault_of (get p ''fault'' (YStr ''wrong_version''))) (\<lambda>f.
     ebind (case get p ''direction'' (YStr ''tester_to_ecu'') of
         YStr s \<Rightarrow> if s = ''tester_to_ecu'' \<or> s = ''ecu_to_tester'' \<or> s = ''both'' then Inr s else Inl ValueError
       | _ \<Rightarrow> Inl ValueError) (\<lambda>d.
     ebind (mw_bounded 1 None (get p ''inject_on_nth'' (YInt 1))) (\<lambda>n.
     Inr \<lparr>hf_fault = f, hf_direction = d, inject_on_nth = n, hf_counter = 0\<rparr>)))"

definition tls_fault_init :: "ydict \<Rightarrow> unit res" where
  "tls_fault_init p =
     ebind (nonblank (get p ''fault'' (YStr ''wrong_cipher''))) (\<lambda>_.
     ebind (mw_bool (get p ''enabled'' (YBool False))) (\<lambda>_. Inr ()))"

section \<open>The factory\<close>

text \<open>An instance, whether it is enabled, and the number of its logger object if it is a logger.\<close>

record 'k built =
  b_mw :: "'k middleware"
  b_enabled :: bool
  b_logger :: "nat option"

text \<open>A class called with keyword arguments: a parameter \<^verbatim>\<open>self\<close> collides with the bound argument.\<close>

definition mw_plain :: "py_lib \<Rightarrow> string \<Rightarrow> ydict \<Rightarrow> 'k middleware res" where
  "mw_plain L t p =
     (if t = ''DropMiddleware'' then ebind (drop_init L p) (\<lambda>m. Inr (DropMiddleware m))
      else if t = ''DelayMiddleware'' then ebind (delay_init p) (\<lambda>m. Inr (DelayMiddleware m))
      else if t = ''CorruptMiddleware'' then ebind (corrupt_init p) (\<lambda>m. Inr (CorruptMiddleware m))
      else if t = ''ReplayMiddleware'' then ebind (replay_init p) (\<lambda>m. Inr (ReplayMiddleware m))
      else if t = ''AddressMiddleware'' then ebind (address_init p) (\<lambda>m. Inr (AddressMiddleware m))
      else if t = ''HeaderFaultMiddleware'' then ebind (header_fault_init p) (\<lambda>m. Inr (HeaderFaultMiddleware m))
      else ebind (tls_fault_init p) (\<lambda>_. Inr TLSFaultMiddleware))"

definition mw_new :: "py_lib \<Rightarrow> log_io \<Rightarrow> nat option \<Rightarrow> middleware_config \<Rightarrow> (log_world, 'k built) py" where
  "mw_new L io owner mc =
     (if mwc_type mc \<notin> set VALID_MIDDLEWARE_TYPES then raise ConfigError
      else if has (mwc_params mc) ''self'' then raise TypeError
      else if mwc_type mc = ''LoggerMiddleware''
      then bnd (logger_init io (get (mwc_params mc) ''log_path'' (YStr ''logs/doip.log''))
                  (get (mwc_params mc) ''hex_dump'' (YBool True)) owner (mwc_enabled mc)) (\<lambda>j.
           ret \<lparr>b_mw = LoggerMiddleware, b_enabled = mwc_enabled mc, b_logger = Some j\<rparr>)
      else lift (ebind (mw_plain L (mwc_type mc) (mwc_params mc)) (\<lambda>m.
           Inr \<lparr>b_mw = m, b_enabled = mwc_enabled mc, b_logger = None\<rparr>)))"

definition close_loggers :: "'k built list \<Rightarrow> log_world \<Rightarrow> log_world" where
  "close_loggers bs w = fold (\<lambda>b w. case b_logger b of None \<Rightarrow> w | Some j \<Rightarrow> logger_close j w) bs w"

fun build_from :: "py_lib \<Rightarrow> log_io \<Rightarrow> nat option \<Rightarrow> middleware_config list \<Rightarrow> 'k built list \<Rightarrow> (log_world, 'k built list) py" where
  "build_from L io owner [] instances = ret instances"
| "build_from L io owner (mc # mcs) instances =
     bnd (try_catch (mw_new L io owner mc) (\<lambda>e. seq (modify (close_loggers instances)) (raise e))) (\<lambda>obj.
     build_from L io owner mcs (instances @ [obj]))"

definition build_middleware :: "py_lib \<Rightarrow> log_io \<Rightarrow> nat option \<Rightarrow> middleware_config list \<Rightarrow> (log_world, 'k built list) py" where
  "build_middleware L io owner mcs = build_from L io owner mcs []"

text \<open>\<open>MiddlewareChain(_build_middleware(...))\<close>.\<close>

definition built_chain :: "'k built list \<Rightarrow> 'k middleware list" where
  "built_chain bs = chain_of (map (\<lambda>b. (b_mw b, b_enabled b)) bs)"

text \<open>\<open>DoIPServer.__init__\<close>: the registry refuses a bad limit; the middleware is built once, to validate it
  and to open the sinks, which the server's owner keeps. The result is the number of that owner.\<close>

definition server_init :: "py_lib \<Rightarrow> log_io \<Rightarrow> app_config \<Rightarrow> (log_world, nat) py" where
  "server_init L io cfg w =
     (if \<not> (1 \<le> max_connections (ac_doip cfg) \<and> max_connections (ac_doip cfg) \<le> 254) then (Inl ValueError, w)
      else let k = length (sink_owners w) in
        try_catch (bnd (build_middleware L io (Some k) (ac_middleware cfg)) (\<lambda>bs :: bytes built list. ret k))
          (\<lambda>e. seq (modify (owner_close k)) (raise e)) (new_owner w))"

section \<open>Well-formed middleware\<close>

definition in_range :: "int \<Rightarrow> int \<Rightarrow> int option \<Rightarrow> bool" where
  "in_range lo hi v \<longleftrightarrow> (case v of None \<Rightarrow> True | Some i \<Rightarrow> lo \<le> i \<and> i \<le> hi)"

fun mw_ok :: "'k middleware \<Rightarrow> bool" where
  "mw_ok (DropMiddleware m) \<longleftrightarrow> 0 \<le> drop_rate m \<and> drop_rate m \<le> 1 \<and> in_range 0 0xFFFF (match_payload_type m)
     \<and> match_direction m \<in> {None, Some ''tester_to_ecu'', Some ''ecu_to_tester''}"
| "mw_ok (DelayMiddleware m) \<longleftrightarrow> 0 \<le> delay_ms m \<and> 0 \<le> jitter_ms m"
| "mw_ok (CorruptMiddleware m) \<longleftrightarrow> (byte_offset m \<noteq> None \<longrightarrow> 0 \<le> the (byte_offset m)) \<and> 0 \<le> flip_mask m \<and> flip_mask m \<le> 0xFF"
| "mw_ok (ReplayMiddleware m) \<longleftrightarrow> 1 \<le> replay_count m \<and> int (length (recorded m)) \<le> replay_count m
     \<and> (replayed m \<longleftrightarrow> int (length (recorded m)) = replay_count m)"
| "mw_ok (AddressMiddleware m) \<longleftrightarrow> in_range 0 0xFFFF (src_override m) \<and> in_range 0 0xFFFF (tgt_override m)"
| "mw_ok (HeaderFaultMiddleware m) \<longleftrightarrow> 0 \<le> hf_counter m \<and> hf_counter m < inject_on_nth m
     \<and> hf_direction m \<in> {''tester_to_ecu'', ''ecu_to_tester'', ''both''}"
| "mw_ok _ \<longleftrightarrow> True"

end
