(* ===== verification/Edge_Build_Props.thy ===== *)
theory Edge_Build_Props
  imports Edge_Build
begin

text \<open>
  Loader and factory fit together: what the loader accepts the constructors accept, the objects are
  well-formed and stay so for every packet, and a server whose construction fails gives its log sinks
  back.
\<close>

section \<open>Constructed middleware is well-formed\<close>

lemma mw_bounded_range: "mw_bounded lo hi v = Inr i \<Longrightarrow> lo \<le> i \<and> (hi \<noteq> None \<longrightarrow> i \<le> the hi)"
  by (auto simp: mw_bounded_def ebind_eq_Inr split: if_splits)

lemma mw_bounded_opt_range: "mw_bounded_opt lo (Some hi) v = Inr x \<Longrightarrow> in_range lo hi x"
  by (auto simp: mw_bounded_opt_def in_range_def ebind_eq_Inr dest: mw_bounded_range split: if_splits)

lemma drop_init_ok: "drop_init L p = Inr m \<Longrightarrow> mw_ok (DropMiddleware m)"
  by (auto simp: drop_init_def match_filter_def mw_float_def ebind_eq_Inr in_range_def
      dest: mw_bounded_opt_range split: option.splits yaml.splits if_splits)

lemma mw_plain_ok: "mw_plain L t p = Inr m \<Longrightarrow> mw_ok m"
  by (auto simp: mw_plain_def ebind_eq_Inr drop_init_ok delay_init_def corrupt_init_def replay_init_def
      address_init_def header_fault_init_def mw_bounded_opt_def in_range_def
      dest!: mw_bounded_range mw_bounded_opt_range drop_init_ok split: if_splits yaml.splits)

section \<open>It stays well-formed\<close>

lemma replay_keeps_ok:
  "mw_ok (ReplayMiddleware m) \<Longrightarrow> replay_process E dir pkt m s = ((r, m'), s') \<Longrightarrow> mw_ok (ReplayMiddleware m')"
  by (auto simp: replay_process_def Let_def split: if_splits prod.splits sum.splits)

lemma header_fault_keeps_ok:
  "mw_ok (HeaderFaultMiddleware m) \<Longrightarrow> header_fault_process S dir pkt m = (r, m') \<Longrightarrow> mw_ok (HeaderFaultMiddleware m')"
  by (auto simp: header_fault_process_def should_inject_def Let_def split: if_splits)

lemma mw_process_keeps_ok: "mw_ok m \<Longrightarrow> mw_process S E dir pkt m s = ((r, m'), s') \<Longrightarrow> mw_ok m'"
  by (cases m) (auto split: prod.splits dest: replay_keeps_ok header_fault_keeps_ok simp del: mw_ok.simps(4,6))

lemma chain_run_keeps_ok:
  "list_all mw_ok ms \<Longrightarrow> chain_run S E dir ms p s = ((r, ms'), s') \<Longrightarrow> list_all mw_ok ms'"
proof (induction S E dir ms p s arbitrary: r ms' s' rule: chain_run.induct)
  case (3 S E dir m ms pkt s)
  obtain x m' v where m: "mw_process S E dir pkt m s = ((x, m'), v)"
    by (cases "mw_process S E dir pkt m s") auto
  have ok: "mw_ok m'"
    using 3(2) mw_process_keeps_ok [OF _ m] by simp
  show ?case
  proof (cases x)
    case (Inl e)
    with 3(2,3) m ok show ?thesis by auto
  next
    case (Inr q)
    obtain y ns u where n: "chain_run S E dir ms q v = ((y, ns), u)"
      by (cases "chain_run S E dir ms q v") auto
    have "list_all mw_ok ns" using 3(1) [OF m [symmetric] refl Inr _ n] 3(2) by simp
    moreover have "ms' = m' # ns" using 3(3) m n Inr by simp
    ultimately show ?thesis using ok by simp
  qed
qed auto

section \<open>What the loader accepts\<close>

text \<open>A parameter is absent, or its value is one the constructor takes.\<close>

definition accepts :: "string \<Rightarrow> (yaml \<Rightarrow> bool) \<Rightarrow> ydict \<Rightarrow> bool" where
  "accepts name P d \<longleftrightarrow> (\<forall>v. map_of d (YStr name) = Some v \<longrightarrow> P v)"

lemma accepts_get: "accepts name P d \<Longrightarrow> P dflt \<Longrightarrow> P (get d name dflt)"
  by (auto simp: accepts_def get_def split: option.splits)

text \<open>\<open>f\<close>, a check of a constructor, takes the value.\<close>

definition takes :: "(yaml \<Rightarrow> 'a res) \<Rightarrow> yaml \<Rightarrow> bool" where
  "takes f v \<longleftrightarrow> (\<exists>x. f v = Inr x)"

lemma takesI: "f v = Inr x \<Longrightarrow> takes f v"
  by (auto simp: takes_def)

lemma takesE: "takes f v \<Longrightarrow> (\<And>x. f v = Inr x \<Longrightarrow> thesis) \<Longrightarrow> thesis"
  by (auto simp: takes_def)

lemma with_param_accepts:
  assumes "with_param name f d = Inr d'" "\<And>v v'. f v = Inr v' \<Longrightarrow> P v'"
  shows "accepts name P d'"
  using assms by (auto simp: with_param_def accepts_def ebind_eq_Inr update_conv' split: option.splits)

lemma with_param_other:
  "with_param name f d = Inr d' \<Longrightarrow> n \<noteq> name \<Longrightarrow> map_of d' (YStr n) = map_of d (YStr n)"
  by (auto simp: with_param_def ebind_eq_Inr update_conv' split: option.splits)

lemma with_param_keeps: "with_param name f d = Inr d' \<Longrightarrow> n \<noteq> name \<Longrightarrow> accepts n P d \<Longrightarrow> accepts n P d'"
  by (simp add: accepts_def with_param_other)

lemma with_param_has: "with_param name f d = Inr d' \<Longrightarrow> has d' n = has d n"
  by (cases "n = name") (auto simp: with_param_def has_def ebind_eq_Inr update_conv' split: option.splits)

definition good_int :: "int \<Rightarrow> int option \<Rightarrow> bool \<Rightarrow> yaml \<Rightarrow> bool" where
  "good_int lo hi nullable v \<longleftrightarrow> (nullable \<and> v = YNull) \<or> (\<exists>i. v = YInt i \<and> lo \<le> i \<and> (hi \<noteq> None \<longrightarrow> i \<le> the hi))"

lemma int_param_good: "int_param lo hi nullable v = Inr v' \<Longrightarrow> good_int lo hi nullable v'"
  by (auto simp: int_param_def good_int_def bounded_def guard_def ebind_eq_Inr split: if_splits)

lemma mw_bounded_defaults:
  "takes (mw_bounded 0 None) (YInt 0)" "takes (mw_bounded 1 None) (YInt 1)" "takes (mw_bounded_opt lo hi) YNull"
  "takes (mw_bounded 0 (Some 0xFF)) (YInt 1)"
  by (simp_all add: takes_def mw_bounded_def mw_bounded_opt_def)

lemma int_param_builds:
  "int_param lo hi False v = Inr v' \<Longrightarrow> takes (mw_bounded lo hi) v'"
  "int_param lo hi True v = Inr v' \<Longrightarrow> takes (mw_bounded_opt lo hi) v'"
  by (auto dest!: int_param_good simp: good_int_def takes_def mw_bounded_def mw_bounded_opt_def)

lemma rate_param_builds: "rate_param L v = Inr v' \<Longrightarrow> takes (mw_float L 0 (Some 1)) v'"
  by (auto simp: takes_def rate_param_def nonnegative_number_def guard_def mw_float_def ebind_eq_Inr
      split: option.splits if_splits)

lemma string_param_builds: "string_param v = Inr v' \<Longrightarrow> takes nonblank v'"
  by (auto simp: takes_def string_param_def string_value_def nonblank_def guard_def ebind_eq_Inr
      split: yaml.splits if_splits)

lemma bool_param_builds: "bool_param v = Inr v' \<Longrightarrow> takes mw_bool v'"
  by (auto simp: takes_def bool_param_def mw_bool_def ebind_eq_Inr elim!: strict_bool.elims)

lemma update_string_keys:
  "list_all (\<lambda>(k, x). case k of YStr s \<Rightarrow> True | _ \<Rightarrow> False) d \<Longrightarrow>
     list_all (\<lambda>(k, x). case k of YStr s \<Rightarrow> True | _ \<Rightarrow> False) (AList.update (YStr n) v d)"
  by (induction d) auto

lemma validate_match_builds: "validate_match v = Inr v' \<Longrightarrow> takes match_filter v'"
proof (cases "v = YNull")
  case True
  then show "validate_match v = Inr v' \<Longrightarrow> ?thesis" by (simp add: validate_match_def match_filter_def takes_def)
next
  case False
  assume "validate_match v = Inr v'"
  with False obtain d d' where d: "v' = YMap d'"
      "list_all (\<lambda>(k, x). case k of YStr s \<Rightarrow> True | _ \<Rightarrow> False) d"
      "has d ''direction'' \<longrightarrow> get d ''direction'' YNull \<in> {YNull, YStr ''tester_to_ecu'', YStr ''ecu_to_tester''}"
      "with_param ''payload_type'' (int_param 0 (Some 0xFFFF) True) d = Inr d'"
    by (auto simp: validate_match_def mapping_def guard_def ebind_eq_Inr split: yaml.splits if_splits)
  have keys: "list_all (\<lambda>(k, x). case k of YStr s \<Rightarrow> True | _ \<Rightarrow> False) d'"
    using d(2,4) by (auto simp: with_param_def ebind_eq_Inr update_string_keys split: option.splits)
  have dir: "get d' ''direction'' YNull \<in> {YNull, YStr ''tester_to_ecu'', YStr ''ecu_to_tester''}"
    using d(3) with_param_other [OF d(4), of "''direction''"] by (auto simp: get_def has_def split: option.splits)
  have "accepts ''payload_type'' (takes (mw_bounded_opt 0 (Some 0xFFFF))) d'"
    by (rule with_param_accepts [OF d(4)]) (rule int_param_builds(2))
  then have "takes (mw_bounded_opt 0 (Some 0xFFFF)) (get d' ''payload_type'' YNull)"
    by (rule accepts_get) (rule mw_bounded_defaults)
  then obtain x where "mw_bounded_opt 0 (Some 0xFFFF) (get d' ''payload_type'' YNull) = Inr x"
    by (rule takesE)
  with keys dir d(1) show ?thesis by (auto simp: match_filter_def takes_def)
qed

text \<open>Two parameters that are checked one after the other.\<close>

lemma two_params:
  assumes "with_param a f' p = Inr p1" "with_param b g' p1 = Inr q" "a \<noteq> b"
    and "\<And>v v'. f' v = Inr v' \<Longrightarrow> takes f v'" "\<And>v v'. g' v = Inr v' \<Longrightarrow> takes g v'"
    and "takes f da" "takes g db"
  obtains x y where "f (get q a da) = Inr x" "g (get q b db) = Inr y"
proof -
  have "accepts a (takes f) p1" by (rule with_param_accepts [OF assms(1,4)])
  then have "accepts a (takes f) q" by (rule with_param_keeps [OF assms(2,3)])
  then have "takes f (get q a da)" by (rule accepts_get) (rule assms(6))
  moreover have "accepts b (takes g) q" by (rule with_param_accepts [OF assms(2,5)])
  then have "takes g (get q b db)" by (rule accepts_get) (rule assms(7))
  ultimately show ?thesis by (elim takesE) (rule that)
qed

lemma delay_builds:
  assumes "coerce_fields (integer_fields ''DelayMiddleware'') p = Inr q"
  shows "\<exists>m. delay_init q = Inr m"
proof -
  from assms obtain p1 where p: "with_param ''delay_ms'' (int_param 0 None False) p = Inr p1"
      "with_param ''jitter_ms'' (int_param 0 None False) p1 = Inr q"
    by (auto simp: integer_fields_def ebind_eq_Inr)
  obtain x y where "mw_bounded 0 None (get q ''delay_ms'' (YInt 0)) = Inr x"
      "mw_bounded 0 None (get q ''jitter_ms'' (YInt 0)) = Inr y"
    by (rule two_params [OF p]) (auto intro: int_param_builds mw_bounded_defaults)
  then show ?thesis by (simp add: delay_init_def)
qed


lemma corrupt_builds:
  assumes "coerce_fields (integer_fields ''CorruptMiddleware'') p = Inr q"
  shows "\<exists>m. corrupt_init q = Inr m"
proof -
  from assms obtain p1 where p: "with_param ''byte_offset'' (int_param 0 None True) p = Inr p1"
      "with_param ''flip_mask'' (int_param 0 (Some 0xFF) False) p1 = Inr q"
    by (auto simp: integer_fields_def ebind_eq_Inr)
  obtain x y where "mw_bounded_opt 0 None (get q ''byte_offset'' YNull) = Inr x"
      "mw_bounded 0 (Some 0xFF) (get q ''flip_mask'' (YInt 1)) = Inr y"
    by (rule two_params [OF p]) (auto intro: int_param_builds mw_bounded_defaults)
  then show ?thesis by (simp add: corrupt_init_def)
qed

lemma address_builds:
  assumes "coerce_fields (integer_fields ''AddressMiddleware'') p = Inr q"
  shows "\<exists>m. address_init q = Inr m"
proof -
  from assms obtain p1 where p: "with_param ''src_override'' (int_param 0 (Some 0xFFFF) True) p = Inr p1"
      "with_param ''tgt_override'' (int_param 0 (Some 0xFFFF) True) p1 = Inr q"
    by (auto simp: integer_fields_def ebind_eq_Inr)
  obtain x y where "mw_bounded_opt 0 (Some 0xFFFF) (get q ''src_override'' YNull) = Inr x"
      "mw_bounded_opt 0 (Some 0xFFFF) (get q ''tgt_override'' YNull) = Inr y"
    by (rule two_params [OF p]) (auto intro: int_param_builds mw_bounded_defaults)
  then show ?thesis by (simp add: address_init_def)
qed

lemma drop_builds:
  assumes "check_params L ''DropMiddleware'' p = Inr q"
  shows "\<exists>m. drop_init L q = Inr m"
proof -
  from assms obtain p1 where p: "with_param ''drop_rate'' (rate_param L) p = Inr p1"
      "with_param ''match'' validate_match p1 = Inr q"
    by (auto simp: check_params_def ebind_eq_Inr)
  have dflt: "takes (mw_float L 0 (Some 1)) (YFloat (Some 0))" "takes match_filter YNull"
    by (simp_all add: takes_def mw_float_def match_filter_def)
  obtain x y where "mw_float L 0 (Some 1) (get q ''drop_rate'' (YFloat (Some 0))) = Inr x"
      "match_filter (get q ''match'' YNull) = Inr y"
    by (rule two_params [OF p]) (auto intro: rate_param_builds validate_match_builds dflt)
  then show ?thesis by (simp add: drop_init_def split: prod.splits)
qed

lemma replay_builds:
  assumes "check_params L ''ReplayMiddleware'' p = Inr q"
  shows "\<exists>m. replay_init q = Inr m"
proof -
  from assms obtain p1 where p: "with_param ''record'' bool_param p = Inr p1"
      "with_param ''replay_count'' (int_param 1 None False) p1 = Inr q"
    by (auto simp: check_params_def ebind_eq_Inr)
  have dflt: "takes mw_bool (YBool False)" by (auto simp: takes_def mw_bool_def)
  obtain x y where "mw_bool (get q ''record'' (YBool False)) = Inr x"
      "mw_bounded 1 None (get q ''replay_count'' (YInt 1)) = Inr y"
    by (rule two_params [OF p]) (auto intro: bool_param_builds int_param_builds mw_bounded_defaults dflt)
  then show ?thesis by (simp add: replay_init_def)
qed

lemma logger_builds:
  assumes "check_params L ''LoggerMiddleware'' p = Inr q"
  obtains s b where "nonblank (get q ''log_path'' (YStr ''logs/doip.log'')) = Inr s"
    "mw_bool (get q ''hex_dump'' (YBool True)) = Inr b"
proof -
  from assms obtain p1 where p: "with_param ''log_path'' string_param p = Inr p1"
      "with_param ''hex_dump'' bool_param p1 = Inr q"
    by (auto simp: check_params_def ebind_eq_Inr)
  have dflt: "takes mw_bool (YBool True)" "takes nonblank (YStr ''logs/doip.log'')"
    by (auto simp: takes_def mw_bool_def nonblank_def py_strip_def strip_by_def is_space_def is_ws_def)
  show ?thesis
    by (rule two_params [OF p]) (auto intro: bool_param_builds string_param_builds dflt that)
qed

definition fault_direction :: "yaml \<Rightarrow> string res" where
  "fault_direction v =
     (case v of
         YStr s \<Rightarrow> if s = ''tester_to_ecu'' \<or> s = ''ecu_to_tester'' \<or> s = ''both'' then Inr s else Inl ValueError
       | _ \<Rightarrow> Inl ValueError)"

lemma header_fault_builds:
  assumes "coerce_fields (integer_fields ''HeaderFaultMiddleware'') p0 = Inr p"
    "check_params L ''HeaderFaultMiddleware'' p = Inr q"
  shows "\<exists>m. header_fault_init q = Inr m"
proof -
  from assms(2) obtain p1 where
      p: "with_param ''fault'' (\<lambda>v. ebind (string_value True v) (\<lambda>s. choice_param VALID_HEADER_FAULTS (YStr s))) p = Inr p1"
        "with_param ''direction'' (choice_param [''tester_to_ecu'', ''ecu_to_tester'', ''both'']) p1 = Inr q"
    by (auto simp: check_params_def ebind_eq_Inr)
  from assms(1) have "with_param ''inject_on_nth'' (int_param 1 None False) p0 = Inr p"
    by (auto simp: integer_fields_def ebind_eq_Inr)
  then have "accepts ''inject_on_nth'' (takes (mw_bounded 1 None)) p"
    by (rule with_param_accepts) (rule int_param_builds)
  then have "accepts ''inject_on_nth'' (takes (mw_bounded 1 None)) q"
    by (intro with_param_keeps [OF p(2)] with_param_keeps [OF p(1)]) simp_all
  then have "takes (mw_bounded 1 None) (get q ''inject_on_nth'' (YInt 1))"
    by (rule accepts_get) (rule mw_bounded_defaults)
  moreover
  have dflt: "takes fault_of (YStr ''wrong_version'')" "takes fault_direction (YStr ''tester_to_ecu'')"
    by (auto simp: takes_def fault_of_def fault_direction_def)
  have mode: "takes fault_of v'" if "ebind (string_value True v) (\<lambda>s. choice_param VALID_HEADER_FAULTS (YStr s)) = Inr v'" for v v'
    using that by (auto simp: ebind_eq_Inr choice_param_def guard_def VALID_HEADER_FAULTS_def takes_def fault_of_def split: if_splits)
  have dir: "takes fault_direction v'" if "choice_param [''tester_to_ecu'', ''ecu_to_tester'', ''both''] v = Inr v'" for v v'
    using that by (auto simp: ebind_eq_Inr choice_param_def guard_def takes_def fault_direction_def split: if_splits)
  obtain x y where "fault_of (get q ''fault'' (YStr ''wrong_version'')) = Inr x"
      "fault_direction (get q ''direction'' (YStr ''tester_to_ecu'')) = Inr y"
    by (rule two_params [OF p]) (auto intro: dflt mode dir)
  ultimately show ?thesis by (elim takesE) (simp add: header_fault_init_def fault_direction_def)
qed

lemma tls_builds:
  assumes "check_params L ''TLSFaultMiddleware'' p = Inr q" "\<not> has p ''enabled''"
  shows "\<exists>u. tls_fault_init q = Inr u"
proof -
  from assms(1) have p: "with_param ''fault'' string_param p = Inr q" by (simp add: check_params_def)
  then have "accepts ''fault'' (takes nonblank) q" by (rule with_param_accepts) (rule string_param_builds)
  then have "takes nonblank (get q ''fault'' (YStr ''wrong_cipher''))"
    by (rule accepts_get) (simp add: takes_def nonblank_def py_strip_def strip_by_def is_space_def is_ws_def)
  moreover have "get q ''enabled'' (YBool False) = YBool False"
    using assms(2) with_param_other [OF p, of "''enabled''"] by (simp add: get_def has_def)
  ultimately show ?thesis by (elim takesE) (simp add: tls_fault_init_def mw_bool_def)
qed


section \<open>The factory builds what the loader accepts\<close>

lemma loaded_entry_parts:
  assumes "load_middleware_entry L v = Inr mc"
  obtains p0 p where "mwc_type mc \<in> set VALID_MIDDLEWARE_TYPES" "\<not> has p0 ''enabled''"
    "coerce_fields (integer_fields (mwc_type mc)) p0 = Inr p" "check_params L (mwc_type mc) p = Inr (mwc_params mc)"
proof -
  have no: "\<not> has (filter (\<lambda>(k, x). k \<noteq> YStr ''type'' \<and> k \<noteq> YStr ''enabled'') d) ''enabled''" for d :: ydict
    by (induction d) (auto simp: has_def)
  show ?thesis
    using assms by (auto simp: load_middleware_entry_def guard_def ebind_eq_Inr no split: if_splits intro!: that)
qed

lemma loaded_entry_builds:
  assumes "load_middleware_entry L v = Inr mc" "mwc_type mc \<noteq> ''LoggerMiddleware''"
  obtains m :: "'k middleware" where "mw_plain L (mwc_type mc) (mwc_params mc) = Inr m"
proof -
  from assms(1) obtain p0 p where p: "mwc_type mc \<in> set VALID_MIDDLEWARE_TYPES" "\<not> has p0 ''enabled''"
    "coerce_fields (integer_fields (mwc_type mc)) p0 = Inr p" "check_params L (mwc_type mc) p = Inr (mwc_params mc)"
    by (rule loaded_entry_parts)
  have "mwc_type mc \<in> {''DropMiddleware'', ''DelayMiddleware'', ''CorruptMiddleware'', ''ReplayMiddleware'',
      ''AddressMiddleware'', ''HeaderFaultMiddleware'', ''TLSFaultMiddleware''}"
    using p(1) assms(2) by (auto simp: VALID_MIDDLEWARE_TYPES_def)
  then have "\<exists>m :: 'k middleware. mw_plain L (mwc_type mc) (mwc_params mc) = Inr m"
  proof (elim insertE emptyE, goal_cases)
    case 1
    with p drop_builds show ?case by (fastforce simp: mw_plain_def)
  next
    case 2
    then have "check_params L (mwc_type mc) p = Inr p" by (simp add: check_params_def)
    with p 2 delay_builds show ?case by (fastforce simp: mw_plain_def)
  next
    case 3
    then have "check_params L (mwc_type mc) p = Inr p" by (simp add: check_params_def)
    with p 3 corrupt_builds show ?case by (fastforce simp: mw_plain_def)
  next
    case 4
    have "\<exists>m :: 'k replay_mw. replay_init (mwc_params mc) = Inr m" by (rule replay_builds [of L p]) (use p 4 in simp)
    with 4 show ?case by (auto simp: mw_plain_def)
  next
    case 5
    then have "check_params L (mwc_type mc) p = Inr p" by (simp add: check_params_def)
    with p 5 address_builds show ?case by (fastforce simp: mw_plain_def)
  next
    case 6
    with p header_fault_builds show ?case by (fastforce simp: mw_plain_def)
  next
    case 7
    then have "p0 = p" using p(3) by (simp add: integer_fields_def)
    with p 7 tls_builds show ?case by (fastforce simp: mw_plain_def)
  qed
  then show ?thesis using that by blast
qed


fun class_name :: "'k middleware \<Rightarrow> string" where
  "class_name LoggerMiddleware = ''LoggerMiddleware''"
| "class_name (DropMiddleware _) = ''DropMiddleware''"
| "class_name (DelayMiddleware _) = ''DelayMiddleware''"
| "class_name (CorruptMiddleware _) = ''CorruptMiddleware''"
| "class_name (ReplayMiddleware _) = ''ReplayMiddleware''"
| "class_name (AddressMiddleware _) = ''AddressMiddleware''"
| "class_name (HeaderFaultMiddleware _) = ''HeaderFaultMiddleware''"
| "class_name TLSFaultMiddleware = ''TLSFaultMiddleware''"

lemma mw_plain_class:
  "mw_plain L t p = Inr m \<Longrightarrow> t \<in> set VALID_MIDDLEWARE_TYPES \<Longrightarrow> t \<noteq> ''LoggerMiddleware'' \<Longrightarrow> class_name m = t"
  by (auto simp: mw_plain_def VALID_MIDDLEWARE_TYPES_def ebind_eq_Inr split: if_splits)

definition owner_open :: "nat \<Rightarrow> log_world \<Rightarrow> bool" where
  "owner_open k w \<longleftrightarrow> k < length (sink_owners w) \<and> \<not> own_closed (sink_owners w ! k)"

lemma acquire_opens:
  assumes "owner_open k w" "\<And>l p. open_file io l p = None"
  obtains lgr w' where "acquire io k p w = (Inr lgr, w')" "owner_open k w'"
proof (cases "map_of (own_loggers (sink_owners w ! k)) (canonical io p)")
  case (Some lgr)
  with assms(1) show ?thesis by (auto simp: acquire_def owner_open_def intro!: that)
next
  case None
  obtain lgr v where mk: "make_logger io (canonical io p) w = (Inr lgr, v)"
  proof (cases "map_of (sinks w) (canonical io (canonical io p))")
    case None
    then show ?thesis using assms(2) by (intro that) (simp add: make_logger_def Let_def)
  next
    case (Some x)
    then show ?thesis by (cases x) (simp add: make_logger_def that)
  qed
  with None assms(1) show ?thesis
    using make_logger_frame [OF mk] by (auto simp: acquire_def owner_open_def set_owner_def Let_def intro!: that)
qed

lemma mw_new_builds:
  assumes "load_middleware_entry L v = Inr mc" "\<not> has (mwc_params mc) ''self''"
    and "\<And>l p. open_file io l p = None" "owner_open k w"
  obtains b :: "'k built" and w' where "mw_new L io (Some k) mc w = (Inr b, w')" "owner_open k w'"
    "b_enabled b = mwc_enabled mc" "class_name (b_mw b) = mwc_type mc" "mw_ok (b_mw b)"
proof -
  from assms(1) obtain p where p: "mwc_type mc \<in> set VALID_MIDDLEWARE_TYPES"
      "check_params L (mwc_type mc) p = Inr (mwc_params mc)" by (rule loaded_entry_parts)
  show ?thesis
  proof (cases "mwc_type mc = ''LoggerMiddleware''")
    case True
    with p(2) obtain s b where sb: "nonblank (get (mwc_params mc) ''log_path'' (YStr ''logs/doip.log'')) = Inr s"
        "mw_bool (get (mwc_params mc) ''hex_dump'' (YBool True)) = Inr b" by (auto elim: logger_builds)
    obtain lgr w' where "acquire io k s w = (Inr lgr, w')" "owner_open k w'"
      using acquire_opens [OF assms(4,3)] .
    with True sb assms(2,4) p(1)
    have "\<exists>j w''. mw_new L io (Some k) mc w = (Inr \<lparr>b_mw = LoggerMiddleware :: 'k middleware, b_enabled = mwc_enabled mc, b_logger = Some j\<rparr>, w'')
        \<and> owner_open k w''"
      by (cases "mwc_enabled mc") (simp_all add: mw_new_def logger_init_def bnd_def seq_def owner_open_def)
    then show ?thesis using that True by fastforce
  next
    case False
    obtain m :: "'k middleware" where m: "mw_plain L (mwc_type mc) (mwc_params mc) = Inr m"
      using loaded_entry_builds [OF assms(1) False] by metis
    show ?thesis
      by (rule that [of "\<lparr>b_mw = m, b_enabled = mwc_enabled mc, b_logger = None\<rparr>" w])
        (use m mw_plain_ok [OF m] mw_plain_class [OF m p(1) False] assms(2,4) p(1) False in \<open>simp_all add: mw_new_def\<close>)
  qed
qed


lemma build_from_ok:
  fixes acc :: "'k built list"
  assumes "list_all (\<lambda>mc. (\<exists>v. load_middleware_entry L v = Inr mc) \<and> \<not> has (mwc_params mc) ''self'') mcs"
    and "\<And>l p. open_file io l p = None" "owner_open k w"
  shows "\<exists>bs w'. build_from L io (Some k) mcs acc w = (Inr (acc @ bs), w') \<and> owner_open k w' \<and>
    map (class_name \<circ> b_mw) bs = map mwc_type mcs \<and> map b_enabled bs = map mwc_enabled mcs \<and> list_all (mw_ok \<circ> b_mw) bs"
  using assms
proof (induction mcs arbitrary: acc w)
  case (Cons mc mcs)
  from Cons.prems(1) obtain v where v: "load_middleware_entry L v = Inr mc" "\<not> has (mwc_params mc) ''self''" by auto
  obtain b :: "'k built" and w1 where b: "mw_new L io (Some k) mc w = (Inr b, w1)" "owner_open k w1"
      "b_enabled b = mwc_enabled mc" "class_name (b_mw b) = mwc_type mc" "mw_ok (b_mw b)"
    using mw_new_builds [OF v Cons.prems(2,3)] .
  have "list_all (\<lambda>mc. (\<exists>v. load_middleware_entry L v = Inr mc) \<and> \<not> has (mwc_params mc) ''self'') mcs"
    using Cons.prems(1) by simp
  from Cons.IH [OF this Cons.prems(2) b(2), of "acc @ [b]"] obtain bs w' where
      "build_from L io (Some k) mcs (acc @ [b]) w1 = (Inr ((acc @ [b]) @ bs), w')" "owner_open k w'"
      "map (class_name \<circ> b_mw) bs = map mwc_type mcs" "map b_enabled bs = map mwc_enabled mcs" "list_all (mw_ok \<circ> b_mw) bs"
    by blast
  with b show ?case by (intro exI [of _ "b # bs"] exI [of _ w']) (simp add: bnd_def try_catch_def comp_def)
qed simp

lemma loaded_entries:
  "map_res f vs = Inr ys \<Longrightarrow> list_all (\<lambda>y. \<exists>v. f v = Inr y) ys"
  by (induction f vs arbitrary: ys rule: map_res.induct) (auto simp: ebind_eq_Inr)

text \<open>C27: Every middleware section the loader accepts can be built for every session, provided no
  parameter is called \<^verbatim>\<open>self\<close> and the log files open: one object per entry, of the class and in
  the order of the configuration, enabled as configured, and each well-formed: rates in the unit interval, masks in a
  byte, addresses in two bytes, counts positive.\<close>

theorem loaded_middleware_builds:
  assumes "load_middleware L v = Inr mcs" "list_all (\<lambda>mc. \<not> has (mwc_params mc) ''self'') mcs"
    and "\<forall>l p. open_file io l p = None" "owner_open k w"
  shows "\<exists>(bs :: 'k built list) w'. build_middleware L io (Some k) mcs w = (Inr bs, w') \<and>
    map (class_name \<circ> b_mw) bs = map mwc_type mcs \<and> map b_enabled bs = map mwc_enabled mcs \<and> list_all (mw_ok \<circ> b_mw) bs"
proof -
  have "list_all (\<lambda>mc. \<exists>v. load_middleware_entry L v = Inr mc) mcs"
    using assms(1) loaded_entries by (auto simp: load_middleware_def split: yaml.splits)
  then have "list_all (\<lambda>mc. (\<exists>v. load_middleware_entry L v = Inr mc) \<and> \<not> has (mwc_params mc) ''self'') mcs"
    using assms(2) by (simp add: list_all_iff)
  from build_from_ok [OF this _ assms(4), of io "[]"] assms(3) show ?thesis
    by (auto simp: build_middleware_def)
qed


text \<open>A section with a drop rate in text form and a logger, on a server that has opened its owner.\<close>

definition sample_section :: yaml where
  "sample_section = YList [YMap [(YStr ''type'', YStr ''DelayMiddleware''), (YStr ''delay_ms'', YStr ''0x10'')],
     YMap [(YStr ''type'', YStr ''LoggerMiddleware''), (YStr ''enabled'', YBool False)]]"

definition sample_lib :: py_lib where
  "sample_lib = \<lparr>lib_float = (\<lambda>_. None), lib_ipv4 = (\<lambda>_. True), lib_ipv6 = (\<lambda>_. True)\<rparr>"

definition open_io :: log_io where
  "open_io = \<lparr>canonical = id, open_file = (\<lambda>_ _. None)\<rparr>"

lemma int_text_0x10: "int_text ''0x10'' = Some 16"
  by code_simp

lemma sample_section_loads:
  "load_middleware sample_lib sample_section =
     Inr [\<lparr>mwc_type = ''DelayMiddleware'', mwc_enabled = True, mwc_params = [(YStr ''delay_ms'', YInt 16)]\<rparr>,
          \<lparr>mwc_type = ''LoggerMiddleware'', mwc_enabled = False, mwc_params = []\<rparr>]"
  by (simp add: load_middleware_def sample_section_def load_middleware_entry_def mapping_def guard_def require_def get_def
      string_value_def VALID_MIDDLEWARE_TYPES_def integer_fields_def with_param_def int_param_def bounded_def
      check_params_def int_text_0x10)

theorem loaded_middleware_builds_witness:
  "\<exists>(bs :: bytes built list) w'. build_middleware sample_lib open_io (Some 0)
      [\<lparr>mwc_type = ''DelayMiddleware'', mwc_enabled = True, mwc_params = [(YStr ''delay_ms'', YInt 16)]\<rparr>,
       \<lparr>mwc_type = ''LoggerMiddleware'', mwc_enabled = False, mwc_params = []\<rparr>] (new_owner new_log_world) = (Inr bs, w') \<and>
    map b_enabled bs = [True, False]"
  using loaded_middleware_builds [OF sample_section_loads, of open_io 0 "new_owner new_log_world"]
  by (fastforce simp: has_def open_io_def owner_open_def new_owner_def new_log_world_def)

section \<open>A server that cannot be constructed gives everything back\<close>

text \<open>The leases of owner \<open>k\<close> account for the difference between two worlds, and no logger object of
  the owner holds a lease itself.\<close>

definition balanced :: "nat \<Rightarrow> log_world \<Rightarrow> log_world \<Rightarrow> bool" where
  "balanced k w0 w \<longleftrightarrow> log_inv w \<and> k < length (sink_owners w) \<and>
     leases w = leases w0 + mset (own_loggers (sink_owners w ! k))"

definition borrowed :: "'k built list \<Rightarrow> log_world \<Rightarrow> bool" where
  "borrowed bs w \<longleftrightarrow> (\<forall>b j. b \<in> set bs \<longrightarrow> b_logger b = Some j \<longrightarrow>
     j < length (logger_mws w) \<and> \<not> lm_owns_sink (logger_mws w ! j))"

lemma acquire_mws: "acquire io k p w = (r, w') \<Longrightarrow> logger_mws w' = logger_mws w"
  by (auto simp: acquire_def Let_def set_owner_def dest: make_logger_frame split: if_splits option.splits prod.splits sum.splits)

lemma acquire_balanced:
  assumes idem: "\<And>p. canonical io (canonical io p) = canonical io p"
    and bal: "balanced k w0 w" and run: "acquire io k p w = (r, w')"
  shows "balanced k w0 w'"
proof -
  let ?ow = "sink_owners w ! k"
  have inv: "log_inv w'" using acquire_log_inv [OF idem _ _ run] bal by (simp add: balanced_def)
  show ?thesis
  proof (cases "own_closed ?ow \<or> map_of (own_loggers ?ow) (canonical io p) \<noteq> None")
    case True
    with bal run show ?thesis by (auto simp: acquire_def Let_def split: if_splits option.splits)
  next
    case False
    obtain x v where mk: "make_logger io (canonical io p) w = (x, v)" by fastforce
    have v: "sink_owners v = sink_owners w" "logger_mws v = logger_mws w" using make_logger_frame [OF mk] by auto
    show ?thesis
    proof (cases x)
      case (Inl e)
      with False run mk have "w' = v" by (auto simp: acquire_def)
      with inv bal v leases_frame [OF v] show ?thesis by (simp add: balanced_def)
    next
      case (Inr l)
      let ?ow' = "?ow\<lparr>own_loggers := AList.update (canonical io p) l (own_loggers ?ow)\<rparr>"
      have w': "w' = set_owner k ?ow' v" using False run mk Inr by (auto simp: acquire_def Let_def)
      have k: "k < length (sink_owners v)" using bal v by (simp add: balanced_def)
      have "leases w' = leases v - mset (own_loggers ?ow) + mset (own_loggers ?ow')"
        using leases_set_owner(1) [OF k, of ?ow'] v by (simp add: w')
      with inv bal v leases_frame [OF v] k show ?thesis
        by (simp add: balanced_def w' set_owner_def)
    qed
  qed
qed


lemma logger_init_cases:
  assumes run: "logger_init io lp hx (Some k) op w = (r, w')"
  obtains (raised) e where "r = Inl e" "w' = w"
  | (no_sink) e p where "r = Inl e" "acquire io k p w = (Inl e, w')"
  | (made) v m where "r = Inr (length (logger_mws v))" "w' = v\<lparr>logger_mws := logger_mws v @ [m]\<rparr>" "\<not> lm_owns_sink m"
      "v = w \<or> (\<exists>p lgr. acquire io k p w = (Inr lgr, v))"
proof (cases "nonblank lp"; cases "mw_bool hx")
  fix path b assume args: "nonblank lp = Inr path" "mw_bool hx = Inr b"
  show ?thesis
  proof (cases op)
    case False
    with run args show ?thesis by (intro made [of w]) (auto simp: logger_init_def)
  next
    case True
    obtain x v where acq: "acquire io k path w = (x, v)" by fastforce
    show ?thesis
    proof (cases x)
      case (Inl e)
      with run args True acq show ?thesis by (intro no_sink [of e path]) (auto simp: logger_init_def bnd_def)
    next
      case (Inr lgr)
      with run args True acq show ?thesis by (intro made [of v]) (auto simp: logger_init_def bnd_def seq_def)
    qed
  qed
qed (use run raised in \<open>auto simp: logger_init_def bnd_def\<close>)

lemma leases_new_mw: "leases (v\<lparr>logger_mws := logger_mws v @ [m]\<rparr>) = leases v + mw_lease m"
  by (simp add: leases_def ac_simps)

lemma new_mw_balanced:
  "balanced k w0 v \<Longrightarrow> \<not> lm_owns_sink m \<Longrightarrow> balanced k w0 (v\<lparr>logger_mws := logger_mws v @ [m]\<rparr>)"
  using leases_new_mw [of v m] by (auto simp: balanced_def log_inv_def mw_lease_def accounts_frame)

lemma mw_new_balanced:
  assumes idem: "\<And>p. canonical io (canonical io p) = canonical io p"
    and bal: "balanced k w0 w" and bor: "borrowed acc w" and run: "mw_new L io (Some k) mc w = (r, w')"
  shows "balanced k w0 w' \<and> borrowed acc w' \<and> (\<forall>b. r = Inr b \<longrightarrow> borrowed (acc @ [b]) w')"
proof -
  let ?lp = "get (mwc_params mc) ''log_path'' (YStr ''logs/doip.log'')" and ?hx = "get (mwc_params mc) ''hex_dump'' (YBool True)"
  have "w' = w \<and> (\<forall>b. r = Inr b \<longrightarrow> b_logger b = None) \<or>
      (\<exists>x. logger_init io ?lp ?hx (Some k) (mwc_enabled mc) w = (x, w') \<and>
        (\<forall>b. r = Inr b \<longrightarrow> x = Inr (the (b_logger b)) \<and> b_logger b \<noteq> None))"
    using run by (auto simp: mw_new_def bnd_def ebind_eq_Inr split: if_splits prod.splits sum.splits)
  then show ?thesis
  proof (elim disjE exE conjE)
    assume "w' = w" "\<forall>b. r = Inr b \<longrightarrow> b_logger b = None"
    with bal bor show ?thesis by (auto simp: borrowed_def)
  next
    fix x assume x: "logger_init io ?lp ?hx (Some k) (mwc_enabled mc) w = (x, w')"
      "\<forall>b. r = Inr b \<longrightarrow> x = Inr (the (b_logger b)) \<and> b_logger b \<noteq> None"
    from x(1) show ?thesis
    proof (cases rule: logger_init_cases)
      case (raised e)
      with bal bor x(2) show ?thesis by auto
    next
      case (no_sink e p)
      then show ?thesis
        using acquire_balanced [OF idem bal no_sink(2)] acquire_mws [OF no_sink(2)] bor x(2) by (auto simp: borrowed_def)
    next
      case (made v m)
      have v: "balanced k w0 v" "logger_mws v = logger_mws w"
        using made(4) bal acquire_balanced [OF idem bal] acquire_mws by blast+
      then show ?thesis
        using new_mw_balanced [OF v(1) made(3)] made bor x(2)
        by (auto simp: borrowed_def nth_append less_Suc_eq)
    qed
  qed
qed

lemma close_borrowed:
  assumes "balanced k w0 w" "borrowed bs w"
  shows "balanced k w0 (close_loggers bs w)"
  using assms unfolding close_loggers_def
proof (induction bs arbitrary: w)
  case (Cons b bs)
  show ?case
  proof (cases "b_logger b")
    case None
    with Cons show ?thesis by (simp add: borrowed_def)
  next
    case (Some j)
    with Cons.prems have j: "j < length (logger_mws w)" "\<not> lm_owns_sink (logger_mws w ! j)"
      by (auto simp: borrowed_def)
    have same: "logger_close j w = w \<or>
        logger_close j w = w\<lparr>logger_mws := (logger_mws w)[j := (logger_mws w ! j)\<lparr>lm_closed := True\<rparr>]\<rparr>"
      using j by (simp add: logger_close_def Let_def)
    have own: "lm_owns_sink ((logger_mws w)[j := (logger_mws w ! j)\<lparr>lm_closed := True\<rparr>] ! i) = lm_owns_sink (logger_mws w ! i)" for i
      using j(1) by (cases "i = j") auto
    have "balanced k w0 (logger_close j w)"
      using same Cons.prems(1) logger_close_inv [of w j] j leases_logger(1) [OF j(1), of "(logger_mws w ! j)\<lparr>lm_closed := True\<rparr>"]
      by (auto simp: balanced_def mw_lease_def)
    moreover have "borrowed bs (logger_close j w)"
      using same Cons.prems(2) by (auto simp: borrowed_def own)
    ultimately show ?thesis using Cons.IH Some by simp
  qed
qed simp

lemma build_from_balanced:
  fixes acc :: "'k built list"
  assumes idem: "\<And>p. canonical io (canonical io p) = canonical io p"
  shows "balanced k w0 w \<Longrightarrow> borrowed acc w \<Longrightarrow> build_from L io (Some k) mcs acc w = (r, w') \<Longrightarrow> balanced k w0 w'"
proof (induction mcs arbitrary: acc w)
  case (Cons mc mcs)
  obtain x :: "'k built res" and v where new: "mw_new L io (Some k) mc w = (x, v)" by fastforce
  note step = mw_new_balanced [OF idem Cons.prems(1,2) new]
  show ?case
  proof (cases x)
    case (Inl e)
    with new Cons.prems(3) step show ?thesis
      by (auto simp: bnd_def seq_def try_catch_def intro: close_borrowed)
  next
    case (Inr b)
    with new Cons.prems(3) step Cons.IH show ?thesis by (auto simp: bnd_def try_catch_def)
  qed
qed simp

lemma owner_close_leases:
  assumes "balanced k w0 w"
  shows "leases (owner_close k w) = leases w0"
proof (cases "own_closed (sink_owners w ! k)")
  case True
  have "owner_ok (sink_owners w ! k)" using assms owner_ok_nth by (simp add: balanced_def)
  with True assms show ?thesis by (simp add: owner_close_def balanced_def owner_ok_def)
next
  case False
  let ?v = "set_owner k \<lparr>own_loggers = [], own_closed = True\<rparr> w"
  have k: "k < length (sink_owners w)" using assms by (simp add: balanced_def)
  have "leases (owner_close k w) = leases ?v"
    using False by (simp add: owner_close_def Let_def leases_frame [of "fold _ _ ?v" ?v])
  also have "\<dots> = leases w0" using leases_set_owner(1) [OF k] assms by (simp add: balanced_def)
  finally show ?thesis .
qed

lemma same_leases_same_table:
  assumes "log_inv w" "log_inv w'" "leases w' = leases w"
  shows "map_of (sinks w') = map_of (sinks w)" "set (open_handlers w') = set (open_handlers w)"
proof -
  have c: "counted (map_of (sinks w)) (set (open_handlers w)) (next_logger w) (leases w)"
      "counted (map_of (sinks w')) (set (open_handlers w')) (next_logger w') (leases w)"
    using assms by (simp_all add: log_inv_def accounts_def)
  have entry: "map_of (sinks v) p = Some (l, n) \<longleftrightarrow> n = count (leases w) (p, l) \<and> 0 < n"
    if "counted (map_of (sinks v)) H nx (leases w)" for v :: log_world and H nx p l n
    using counted_table [OF that, of p l] counted_lease [OF that, of p l] by (auto simp flip: count_greater_zero_iff)
  have "map_of (sinks w') p = Some x \<longleftrightarrow> map_of (sinks w) p = Some x" for p x
    using entry [OF c(1), of p] entry [OF c(2), of p] by (cases x) blast
  then show eq: "map_of (sinks w') = map_of (sinks w)" by (intro ext) (metis not_Some_eq)
  have "l \<in> set (open_handlers w') \<longleftrightarrow> l \<in> set (open_handlers w)" for l
    using counted_owner [OF c(1), of l] counted_owner [OF c(2), of l] counted_table [OF c(1), of _ l]
      counted_table [OF c(2), of _ l] eq by metis
  then show "set (open_handlers w') = set (open_handlers w)" by blast
qed


text \<open>C29: When a server cannot be constructed, because a middleware is refused or a log file does not open
  after others did, the log sinks are what they were before: every sink that was opened for it is closed
  again, and the counts of sinks that others use are restored.\<close>

theorem failed_server_leaves_no_sink:
  assumes "\<forall>p. canonical io (canonical io p) = canonical io p" "log_reachable io w"
    and "server_init L io cfg w = (Inl e, w')"
  shows "map_of (sinks w') = map_of (sinks w) \<and> set (open_handlers w') = set (open_handlers w)"
proof (cases "1 \<le> max_connections (ac_doip cfg) \<and> max_connections (ac_doip cfg) \<le> 254")
  case True
  let ?k = "length (sink_owners w)"
  have idem: "\<And>p. canonical io (canonical io p) = canonical io p" using assms(1) by simp
  have inv: "log_inv w" by (rule log_reachable_inv [OF assms(2) idem])
  then have bal: "balanced ?k w (new_owner w)"
    using new_owner_inv by (simp add: balanced_def new_owner_def leases_def)
  obtain x :: "bytes built list res" and v where
    v: "build_middleware L io (Some ?k) (ac_middleware cfg) (new_owner w) = (x, v)" by fastforce
  then have v_bal: "balanced ?k w v"
    using build_from_balanced [OF idem bal, of "[] :: bytes built list"] by (simp add: build_middleware_def borrowed_def)
  have w': "w' = owner_close ?k v"
    using assms(3) True v by (cases x) (auto simp: server_init_def Let_def bnd_def seq_def try_catch_def)
  then have inv': "log_inv w'" using v_bal owner_close_inv by (simp add: balanced_def)
  have "leases w' = leases w" using owner_close_leases [OF v_bal] w' by simp
  from same_leases_same_table [OF inv inv' this] show ?thesis by (rule conjI)
next
  case False
  with assms(3) show ?thesis by (auto simp: server_init_def)
qed


text \<open>A configuration with two loggers; the file of the second does not open.\<close>

definition failing_config :: app_config where
  "failing_config = \<lparr>ac_network = \<lparr>tester_interface = ''lo'', tester_ipv4 = ''127.0.0.1'', ecu_interface = ''lo''\<rparr>,
     ac_ports = \<lparr>doip_plain = 13400, doip_tls = 3496\<rparr>,
     ac_tls = \<lparr>server_cert = ''s'', server_key = ''s'', client_cert = ''c'', client_key = ''c'', ca_cert = ''a'',
       mutual_tls = True, tls_version = ''TLSv1.3'', cipher_suites = []\<rparr>,
     ac_doip = ex_edge_doip,
     ac_timers = \<lparr>t_tcp_initial_inactivity_s = 2, t_tcp_general_inactivity_s = 300, alive_check_interval_ms = 500,
       ecu_response_timeout_s = 2, ecu_pending_max_wait_s = 30, timer_strict_matching = True\<rparr>,
     ac_udp = \<lparr>edge_announce_count = 3, edge_announce_interval_ms = 500\<rparr>, ac_routing = [],
     ac_middleware = [
       \<lparr>mwc_type = ''LoggerMiddleware'', mwc_enabled = True, mwc_params = [(YStr ''log_path'', YStr ''a.log'')]\<rparr>,
       \<lparr>mwc_type = ''LoggerMiddleware'', mwc_enabled = True, mwc_params = [(YStr ''log_path'', YStr ''/nowhere'')]\<rparr>]\<rparr>"

lemma two_holders_eq:
  "two_holders = \<lparr>sinks = [(''a.log'', 0, 2)], open_handlers = [0], next_logger = 1,
     sink_owners = [\<lparr>own_loggers = [(''a.log'', 0)], own_closed = False\<rparr>],
     logger_mws = [\<lparr>lm_sink_path = ''a.log'', lm_hex_dump = True, lm_closed = False, lm_owns_sink = True, lm_logger = Some 0\<rparr>]\<rparr>"
  by (simp add: two_holders_def logger_init_def acquire_def make_logger_def plain_io_def new_owner_def
      new_log_world_def nonblank_def mw_bool_def set_owner_def bnd_def seq_def py_strip_def strip_by_def is_space_def
      is_ws_def Let_def)

lemma failing_config_fails: "fst (server_init sample_lib plain_io failing_config two_holders) = Inl OtherError"
  by (simp add: two_holders_eq server_init_def failing_config_def ex_edge_doip_def build_middleware_def mw_new_def has_def
      get_def VALID_MIDDLEWARE_TYPES_def logger_init_def acquire_def make_logger_def plain_io_def new_owner_def
      nonblank_def mw_bool_def set_owner_def bnd_def seq_def try_catch_def py_strip_def strip_by_def is_space_def
      is_ws_def Let_def)

theorem failed_server_leaves_no_sink_witness:
  "fst (server_init sample_lib plain_io failing_config two_holders) = Inl OtherError \<and>
   map_of (sinks (snd (server_init sample_lib plain_io failing_config two_holders))) ''a.log'' = Some (0, 2)"
proof -
  have "map_of (sinks (snd (server_init sample_lib plain_io failing_config two_holders))) = map_of (sinks two_holders)"
    using failed_server_leaves_no_sink [OF _ two_holders_reachable prod.collapse [symmetric, of "server_init sample_lib plain_io failing_config two_holders", unfolded failing_config_fails]]
    by (simp add: plain_io_def)
  then show ?thesis using failing_config_fails by (simp add: two_holders_eq)
qed

section \<open>Middleware stays well-formed\<close>

text \<open>Whatever packets pass, in whatever directions, and whatever the chain does with them.\<close>

fun chain_feed :: "'k scapy \<Rightarrow> ('s, 'k) mw_env \<Rightarrow> 'k middleware list \<Rightarrow> (string \<times> 'k) list \<Rightarrow> 's \<Rightarrow> 'k middleware list \<times> 's" where
  "chain_feed S E ms [] s = (ms, s)"
| "chain_feed S E ms ((dir, pkt) # xs) s =
     (case chain_run S E dir ms (Some pkt) s of ((r, ms'), s') \<Rightarrow> chain_feed S E ms' xs s')"

lemma chain_feed_ok: "list_all mw_ok ms \<Longrightarrow> list_all mw_ok (fst (chain_feed S E ms xs s))"
proof (induction xs arbitrary: ms s)
  case (Cons x xs)
  obtain dir pkt where x: "x = (dir, pkt)" by (cases x)
  obtain r ms' s' where run: "chain_run S E dir ms (Some pkt) s = ((r, ms'), s')"
    by (cases "chain_run S E dir ms (Some pkt) s") auto
  show ?case using Cons.IH [OF chain_run_keeps_ok [OF Cons.prems run]] run x by simp
qed simp

lemma built_chain_ok: "list_all (mw_ok \<circ> b_mw) bs \<Longrightarrow> list_all mw_ok (built_chain bs)"
  by (auto simp: built_chain_def chain_of_def list_all_iff)

text \<open>A well-formed corruption keeps the header and the length of the packet and changes one byte at most.\<close>

lemma corrupt_one_byte:
  assumes "mw_ok (CorruptMiddleware m)" "ser S pkt = Inr bs" "\<And>x. ser S (dissect S x) = Inr x"
    and "\<And>a b. a \<le> b \<Longrightarrow> a \<le> randint R a b \<and> randint R a b \<le> b"
  obtains i out where "ser S (corrupt_process S R pkt m) = Inr out"
    "out = bs \<or> (8 \<le> i \<and> i < length bs \<and> out = bs[i := bs ! i XOR word_of_int (flip_mask m)])"
proof -
  have patch: "take 8 bs @ (drop 8 bs)[j := drop 8 bs ! j XOR w] = bs[8 + j := bs ! (8 + j) XOR w]"
    if "j < length (drop 8 bs)" for j w
    using that by (intro nth_equalityI) (auto simp: nth_append nth_list_update)
  show ?thesis
  proof (cases "drop 8 bs = []")
    case True
    with assms(2) show ?thesis by (intro that) (auto simp: corrupt_process_def)
  next
    case False
    then have len: "0 < length (drop 8 bs)" by (metis length_greater_0_conv)
    show ?thesis
    proof (cases "byte_offset m")
      case None
      let ?j = "nat (randint R 0 (int (length (drop 8 bs)) - 1))"
      have j: "?j < length (drop 8 bs)" using assms(4) [of 0 "int (length (drop 8 bs)) - 1"] len by linarith
      with None False assms(2,3) patch [OF j] show ?thesis
        by (intro that [of _ "8 + ?j"]) (auto simp: corrupt_process_def Let_def)
    next
      case (Some off)
      show ?thesis
      proof (cases "off \<ge> int (length (drop 8 bs))")
        case True
        with Some False assms(2) show ?thesis by (intro that) (auto simp: corrupt_process_def Let_def)
      next
        case small: False
        with assms(1) Some have j: "nat off < length (drop 8 bs)" by auto
        with Some False small assms(2,3) patch [OF j] show ?thesis
          by (intro that [of _ "8 + nat off"]) (auto simp: corrupt_process_def Let_def)
      qed
    qed
  qed
qed

end
