(* ===== verification/Edge_Server.thy ===== *)
theory Edge_Server
  imports Edge_Build_Props Edge_Activation
begin

text \<open>
  The life of one EdgeNode server (\<open>DoIPServer\<close> of \<^verbatim>\<open>doip_edgenode/server.py\<close>): starting, accepting
  connections, the handler task of each connection, and the shutdown that joins all of them. What runs
  between two awaits that can suspend is one step. A session is represented by its handler task: what it
  exchanges with tester and ECU is the subject of \<open>Edge_Session\<close>; here it runs until it ends or is
  cancelled, and may release its socket on its own before. Listeners, the UDP announcer and the
  executor are resources that are open or not. A request to cancel a task is part of the state, and the
  waits of the shutdown are waits for tasks and transports: which steps are sure to come is a relation of
  its own, in which a task ends because it was cancelled or because it has nothing left to wait for.
\<close>

section \<open>State\<close>

datatype listener = PlainListener | TlsListener

datatype startup_phase = NotStarted | BindPlain | BindTls | StartUdp | StartupDone | StartupFailed

text \<open>A connection's handler task: created and not yet run, in \<open>session.run()\<close>, in \<open>session.close()\<close>, waiting for
  the writer to close, finished.\<close>

datatype conn_phase = CCreated | CRunning | CSessionClosing | CLeaving | CDone

text \<open>Where the cleanup task is: created and not yet run, or the await it is suspended in.\<close>

datatype cleanup_phase =
    KNone | KCreated | KJoinStartup | KJoinServe | KWaitClosed | KUdpStop | KJoinConnections | KCloseSessions | KDone

text \<open>\<open>sv_serve_tasks\<close> is the server's set of serving tasks; \<open>sv_serving\<close> are those that have not ended, with
  whether they were cancelled. \<open>sv_cancelled\<close>: the handler tasks that were; \<open>sv_lost\<close>: the connections whose
  transport is gone; \<open>sv_final\<close>: the sessions the cleanup waits for at its end.\<close>

record edge_server =
  sv_closing :: bool
  sv_started :: bool
  sv_startup :: startup_phase
  sv_listeners :: "listener list"
  sv_startup_cancelled :: bool
  sv_serve_tasks :: "listener list"
  sv_serving :: "(listener \<times> bool) list"
  sv_served :: bool
  sv_conn :: "nat \<Rightarrow> conn_phase"
  sv_next_conn :: nat
  sv_conn_tasks :: "nat list"
  sv_cancelled :: "nat list"
  sv_closed_writers :: "nat list"
  sv_lost :: "nat list"
  sv_open :: "nat list"
  sv_sessions :: "nat list"
  sv_final :: "nat list"
  sv_cleanup :: cleanup_phase
  sv_udp_open :: bool
  sv_udp_stop_failed :: bool
  sv_executor_down :: bool
  sv_owner :: nat
  sv_log :: log_world

text \<open>After \<open>DoIPServer.__init__\<close>, which has opened owner \<open>k\<close> and left the log world \<open>lg\<close>.\<close>

definition new_server :: "nat \<Rightarrow> log_world \<Rightarrow> edge_server" where
  "new_server k lg = \<lparr>sv_closing = False, sv_started = False, sv_startup = NotStarted, sv_listeners = [],
     sv_startup_cancelled = False, sv_serve_tasks = [], sv_serving = [], sv_served = False,
     sv_conn = (\<lambda>_. CDone), sv_next_conn = 0, sv_conn_tasks = [], sv_cancelled = [],
     sv_closed_writers = [], sv_lost = [], sv_open = [], sv_sessions = [], sv_final = [], sv_cleanup = KNone, sv_udp_open = False,
     sv_udp_stop_failed = False, sv_executor_down = False, sv_owner = k, sv_log = lg\<rparr>"

section \<open>Operations\<close>

definition close_writer :: "nat \<Rightarrow> edge_server \<Rightarrow> edge_server" where
  "close_writer i s = s\<lparr>sv_closed_writers := List.insert i (sv_closed_writers s)\<rparr>"

definition release_socket :: "nat \<Rightarrow> edge_server \<Rightarrow> edge_server" where
  "release_socket i s = s\<lparr>sv_open := release i (sv_open s)\<rparr>"

definition set_conn :: "nat \<Rightarrow> conn_phase \<Rightarrow> edge_server \<Rightarrow> edge_server" where
  "set_conn i p s = s\<lparr>sv_conn := (sv_conn s)(i := p)\<rparr>"

text \<open>The end of a handler task, with its done callback.\<close>

definition finish_conn :: "nat \<Rightarrow> edge_server \<Rightarrow> edge_server" where
  "finish_conn i s = (set_conn i CDone s)\<lparr>sv_conn_tasks := removeAll i (sv_conn_tasks s)\<rparr>"

text \<open>\<open>start\<close> up to its first await; \<open>None\<close> is the \<open>RuntimeError\<close> of a second use.\<close>

definition srv_start :: "edge_server \<Rightarrow> edge_server option" where
  "srv_start s =
     (if sv_started s \<or> sv_closing s then None else Some (s\<lparr>sv_started := True, sv_startup := BindPlain\<rparr>))"

text \<open>\<open>_start_resources\<close>: the resource it waits for is there, or the attempt has failed. A failing announcer
  may have opened its socket.\<close>

definition startup_acquired :: "edge_server \<Rightarrow> edge_server" where
  "startup_acquired s =
     (case sv_startup s of
        BindPlain \<Rightarrow> s\<lparr>sv_listeners := sv_listeners s @ [PlainListener], sv_startup := BindTls\<rparr>
      | BindTls \<Rightarrow> s\<lparr>sv_listeners := sv_listeners s @ [TlsListener], sv_startup := StartUdp\<rparr>
      | StartUdp \<Rightarrow> s\<lparr>sv_udp_open := True, sv_startup := StartupDone\<rparr>
      | _ \<Rightarrow> s)"

definition startup_aborted :: "bool \<Rightarrow> edge_server \<Rightarrow> edge_server" where
  "startup_aborted opened s =
     s\<lparr>sv_udp_open := (sv_udp_open s \<or> (sv_startup s = StartUdp \<and> opened)), sv_startup := StartupFailed\<rparr>"

definition in_startup :: "edge_server \<Rightarrow> bool" where
  "in_startup s \<longleftrightarrow> sv_startup s \<in> {BindPlain, BindTls, StartUdp}"

text \<open>\<open>start\<close> after the startup task is done.\<close>

definition srv_serve :: "edge_server \<Rightarrow> edge_server" where
  "srv_serve s =
     (if sv_closing s then s\<lparr>sv_served := True\<rparr>
      else s\<lparr>sv_served := True, sv_serve_tasks := sv_serve_tasks s @ sv_listeners s,
             sv_serving := sv_serving s @ map (\<lambda>l. (l, False)) (sv_listeners s)\<rparr>)"

definition accept_connection :: "edge_server \<Rightarrow> edge_server" where
  "accept_connection s =
     (let i = sv_next_conn s; s = s\<lparr>sv_next_conn := i + 1\<rparr> in
      if sv_closing s then close_writer i s
      else (set_conn i CCreated s)\<lparr>sv_conn_tasks := sv_conn_tasks s @ [i]\<rparr>)"

text \<open>The end of \<open>_handle_connection\<close> up to \<open>wait_closed\<close>.\<close>

definition leave_conn :: "nat \<Rightarrow> edge_server \<Rightarrow> edge_server" where
  "leave_conn i s = set_conn i CLeaving (release_socket i (close_writer i s))"

text \<open>\<open>_do_tls_handshake\<close> is a placeholder that accepts every connection as plaintext.\<close>

definition do_tls_handshake :: bool where "do_tls_handshake = True"

text \<open>\<open>_run_connection\<close> up to the first await of the session.\<close>

definition run_connection :: "py_lib \<Rightarrow> log_io \<Rightarrow> app_config \<Rightarrow> bool \<Rightarrow> nat \<Rightarrow> edge_server \<Rightarrow> edge_server" where
  "run_connection L io cfg use_tls i s =
     (if use_tls \<and> \<not> do_tls_handshake then leave_conn i s
      else case build_middleware L io (Some (sv_owner s)) (ac_middleware cfg) (sv_log s) :: bytes built list res \<times> log_world of
          (Inl e, lg) \<Rightarrow> leave_conn i (s\<lparr>sv_log := lg\<rparr>)
        | (Inr bs, lg) \<Rightarrow> (set_conn i CRunning s)\<lparr>sv_log := lg, sv_sessions := sv_sessions s @ [i]\<rparr>)"

text \<open>The first step of a handler task. A task that
  is cancelled before it has run never enters its body.\<close>

definition handle_connection :: "py_lib \<Rightarrow> log_io \<Rightarrow> app_config \<Rightarrow> bool \<Rightarrow> bool \<Rightarrow> nat \<Rightarrow> edge_server \<Rightarrow> edge_server" where
  "handle_connection L io cfg use_tls cancelled i s =
     (if cancelled then finish_conn i s
      else if sv_closing s then finish_conn i (release_socket i (close_writer i s))
      else case reserve (ac_doip cfg) i (sv_open s) of
          None \<Rightarrow> finish_conn i (close_writer i s)
        | Some opn \<Rightarrow> run_connection L io cfg use_tls i (s\<lparr>sv_open := opn\<rparr>))"

text \<open>The session's own closing of its transport.\<close>

definition session_releases :: "nat \<Rightarrow> edge_server \<Rightarrow> edge_server" where
  "session_releases i s = release_socket i (close_writer i s)"

text \<open>\<open>session.close()\<close> has returned, or was cancelled and the session stays listed.\<close>

definition session_closed :: "bool \<Rightarrow> nat \<Rightarrow> edge_server \<Rightarrow> edge_server" where
  "session_closed cancelled i s =
     leave_conn i (if cancelled then s else s\<lparr>sv_sessions := removeAll i (sv_sessions s)\<rparr>)"

definition srv_stop :: "edge_server \<Rightarrow> edge_server" where
  "srv_stop s =
     (let s = s\<lparr>sv_closing := True\<rparr>;
          s = fold (\<lambda>i s. release_socket i (close_writer i s)) (sv_conn_tasks s) s
      in if sv_cleanup s = KNone then s\<lparr>sv_cleanup := KCreated\<rparr> else s)"

text \<open>\<open>_cleanup\<close> from one await to the next: it cancels the startup, then the serving tasks, then the handler
  tasks. The announcer's \<open>stop\<close> never suspends, but may raise; the rest is done in any case.\<close>

definition cleanup_next :: "bool \<Rightarrow> edge_server \<Rightarrow> edge_server" where
  "cleanup_next udp_ok s =
     (case sv_cleanup s of
        KCreated \<Rightarrow> s\<lparr>sv_startup_cancelled := in_startup s, sv_cleanup := KJoinStartup\<rparr>
      | KJoinStartup \<Rightarrow>
          s\<lparr>sv_serving := map (\<lambda>(l, c). (l, c \<or> l \<in> set (sv_serve_tasks s))) (sv_serving s), sv_serve_tasks := [],
            sv_cleanup := KJoinServe\<rparr>
      | KJoinServe \<Rightarrow> s\<lparr>sv_listeners := [], sv_cleanup := KWaitClosed\<rparr>
      | KWaitClosed \<Rightarrow> s\<lparr>sv_cleanup := KUdpStop\<rparr>
      | KUdpStop \<Rightarrow>
          s\<lparr>sv_udp_open := (sv_udp_open s \<and> \<not> udp_ok), sv_udp_stop_failed := \<not> udp_ok, sv_cancelled := sv_conn_tasks s,
            sv_cleanup := KJoinConnections\<rparr>
      | KJoinConnections \<Rightarrow> s\<lparr>sv_final := sv_sessions s, sv_sessions := [], sv_cleanup := KCloseSessions\<rparr>
      | KCloseSessions \<Rightarrow> s\<lparr>sv_executor_down := True, sv_log := owner_close (sv_owner s) (sv_log s), sv_cleanup := KDone\<rparr>
      | _ \<Rightarrow> s)"

text \<open>The transports of all accepted connections are gone: what a listener's \<open>wait_closed\<close> waits for, and with
  it a cancelled \<open>serve_forever\<close>, which closes its listener and waits.\<close>

definition all_lost :: "edge_server \<Rightarrow> bool" where
  "all_lost s \<longleftrightarrow> (\<forall>i < sv_next_conn s. i \<in> set (sv_lost s))"

text \<open>What the present await of the cleanup waits for.\<close>

definition cleanup_ready :: "edge_server \<Rightarrow> bool" where
  "cleanup_ready s \<longleftrightarrow>
     (case sv_cleanup s of
        KNone \<Rightarrow> False
      | KCreated \<Rightarrow> True
      | KJoinStartup \<Rightarrow> \<not> in_startup s
      | KJoinServe \<Rightarrow> sv_serving s = []
      | KWaitClosed \<Rightarrow> all_lost s
      | KUdpStop \<Rightarrow> True
      | KJoinConnections \<Rightarrow> sv_conn_tasks s = []
      | KCloseSessions \<Rightarrow> sv_final s = []
      | KDone \<Rightarrow> False)"

definition serve_ends :: "listener \<times> bool \<Rightarrow> edge_server \<Rightarrow> edge_server" where
  "serve_ends x s = s\<lparr>sv_serving := remove1 x (sv_serving s)\<rparr>"

definition transport_lost :: "nat \<Rightarrow> edge_server \<Rightarrow> edge_server" where
  "transport_lost i s = s\<lparr>sv_lost := i # sv_lost s\<rparr>"

definition final_close :: "nat \<Rightarrow> edge_server \<Rightarrow> edge_server" where
  "final_close i s = s\<lparr>sv_final := removeAll i (sv_final s)\<rparr>"

section \<open>Steps\<close>

text \<open>Steps of the server's own tasks and transports, as they may happen. Handler tasks are cancelled by the
  cleanup only.\<close>

inductive srv_internal :: "py_lib \<Rightarrow> log_io \<Rightarrow> app_config \<Rightarrow> edge_server \<Rightarrow> edge_server \<Rightarrow> bool" for L io cfg where
  Acquired: "in_startup s \<Longrightarrow> srv_internal L io cfg s (startup_acquired s)"
| Aborted: "in_startup s \<Longrightarrow> srv_internal L io cfg s (startup_aborted opened s)"
| Serve: "sv_startup s = StartupDone \<Longrightarrow> \<not> sv_served s \<Longrightarrow> srv_internal L io cfg s (srv_serve s)"
| ServeEnds: "x \<in> set (sv_serving s) \<Longrightarrow> srv_internal L io cfg s (serve_ends x s)"
| Handle: "i \<in> set (sv_conn_tasks s) \<Longrightarrow> sv_conn s i = CCreated \<Longrightarrow> cancelled \<longrightarrow> i \<in> set (sv_cancelled s) \<Longrightarrow>
     srv_internal L io cfg s (handle_connection L io cfg use_tls cancelled i s)"
| Release: "sv_conn s i \<in> {CRunning, CSessionClosing} \<Longrightarrow> i \<in> set (sv_open s) \<Longrightarrow>
     srv_internal L io cfg s (session_releases i s)"
| RunEnds: "i \<in> set (sv_conn_tasks s) \<Longrightarrow> sv_conn s i = CRunning \<Longrightarrow> srv_internal L io cfg s (set_conn i CSessionClosing s)"
| SessionClosed: "i \<in> set (sv_conn_tasks s) \<Longrightarrow> sv_conn s i = CSessionClosing \<Longrightarrow>
     cancelled \<longrightarrow> i \<in> set (sv_cancelled s) \<Longrightarrow> srv_internal L io cfg s (session_closed cancelled i s)"
| Left: "i \<in> set (sv_conn_tasks s) \<Longrightarrow> sv_conn s i = CLeaving \<Longrightarrow> srv_internal L io cfg s (finish_conn i s)"
| Lost: "i < sv_next_conn s \<Longrightarrow> i \<notin> set (sv_lost s) \<Longrightarrow> srv_internal L io cfg s (transport_lost i s)"
| FinalClose: "i \<in> set (sv_final s) \<Longrightarrow> srv_internal L io cfg s (final_close i s)"
| Cleanup: "cleanup_ready s \<Longrightarrow> srv_internal L io cfg s (cleanup_next udp_ok s)"

text \<open>The steps that come without anyone's help. A startup, a serving task and a session that runs are not
  among them until they are cancelled: before, they may last for ever. A cancelled startup ends; a
  cancelled serving task ends once the transports are gone; a task that is not yet started runs;
  \<open>session.close()\<close> returns (it is never stuck, as the model of the teardown shows); the wait for the
  writer is bounded by the source; a transport that was closed is lost in the end, which asyncio
  grants when the peer takes what is still unsent or the connection breaks.\<close>

inductive srv_driven :: "py_lib \<Rightarrow> log_io \<Rightarrow> app_config \<Rightarrow> edge_server \<Rightarrow> edge_server \<Rightarrow> bool" for L io cfg where
  DAborted: "in_startup s \<Longrightarrow> sv_startup_cancelled s \<Longrightarrow> srv_driven L io cfg s (startup_aborted opened s)"
| DServeEnds: "(l, True) \<in> set (sv_serving s) \<Longrightarrow> all_lost s \<Longrightarrow> srv_driven L io cfg s (serve_ends (l, True) s)"
| DHandle: "i \<in> set (sv_conn_tasks s) \<Longrightarrow> sv_conn s i = CCreated \<Longrightarrow>
     srv_driven L io cfg s (handle_connection L io cfg use_tls (i \<in> set (sv_cancelled s)) i s)"
| DRunEnds: "i \<in> set (sv_conn_tasks s) \<Longrightarrow> sv_conn s i = CRunning \<Longrightarrow> i \<in> set (sv_cancelled s) \<Longrightarrow>
     srv_driven L io cfg s (set_conn i CSessionClosing s)"
| DSessionClosed: "i \<in> set (sv_conn_tasks s) \<Longrightarrow> sv_conn s i = CSessionClosing \<Longrightarrow>
     srv_driven L io cfg s (session_closed False i s)"
| DLeft: "i \<in> set (sv_conn_tasks s) \<Longrightarrow> sv_conn s i = CLeaving \<Longrightarrow> srv_driven L io cfg s (finish_conn i s)"
| DLost: "i < sv_next_conn s \<Longrightarrow> i \<in> set (sv_closed_writers s) \<Longrightarrow> i \<notin> set (sv_lost s) \<Longrightarrow>
     srv_driven L io cfg s (transport_lost i s)"
| DFinalClose: "i \<in> set (sv_final s) \<Longrightarrow> srv_driven L io cfg s (final_close i s)"
| DCleanup: "cleanup_ready s \<Longrightarrow> srv_driven L io cfg s (cleanup_next udp_ok s)"

text \<open>What others do: start the server, connect, stop it (a failed start or a cancelled one stops it, too).\<close>

inductive srv_step :: "py_lib \<Rightarrow> log_io \<Rightarrow> app_config \<Rightarrow> edge_server \<Rightarrow> edge_server \<Rightarrow> bool" for L io cfg where
  Internal: "srv_internal L io cfg s s' \<Longrightarrow> srv_step L io cfg s s'"
| Start: "srv_start s = Some s' \<Longrightarrow> srv_step L io cfg s s'"
| Accept: "srv_step L io cfg s (accept_connection s)"
| Stop: "srv_step L io cfg s (srv_stop s)"

text \<open>A server is born by a successful construction in a reachable log world.\<close>

inductive srv_reachable :: "py_lib \<Rightarrow> log_io \<Rightarrow> app_config \<Rightarrow> edge_server \<Rightarrow> bool" for L io cfg where
  Born: "log_reachable io lg \<Longrightarrow> server_init L io cfg lg = (Inr k, lg') \<Longrightarrow> srv_reachable L io cfg (new_server k lg')"
| Step: "srv_reachable L io cfg s \<Longrightarrow> srv_step L io cfg s s' \<Longrightarrow> srv_reachable L io cfg s'"

end
