(* ===== verification/Edge_Server_Props.thy ===== *)
theory Edge_Server_Props
  imports Edge_Server
begin

text \<open>
  The server keeps its bounds, and a server that is stopped, at whatever moment of its life, joins
  every task it has started and gives back every resource it has taken. The order of the shutdown is an
  invariant: what it waits for was cancelled before. A weight that every internal step lowers, and
  a step that comes by itself as long as the server is not clean, make it end.
\<close>

section \<open>Order of the shutdown\<close>

fun cleanup_rank :: "cleanup_phase \<Rightarrow> nat" where
  "cleanup_rank KNone = 0"
| "cleanup_rank KCreated = 1"
| "cleanup_rank KJoinStartup = 2"
| "cleanup_rank KJoinServe = 3"
| "cleanup_rank KWaitClosed = 4"
| "cleanup_rank KUdpStop = 5"
| "cleanup_rank KJoinConnections = 6"
| "cleanup_rank KCloseSessions = 7"
| "cleanup_rank KDone = 8"

abbreviation rank :: "edge_server \<Rightarrow> nat" where
  "rank s \<equiv> cleanup_rank (sv_cleanup s)"

definition serving_listed :: "edge_server \<Rightarrow> bool" where
  "serving_listed s \<longleftrightarrow> (\<forall>x \<in> set (sv_serving s). fst x \<in> set (sv_serve_tasks s))"

definition serving_cancelled :: "edge_server \<Rightarrow> bool" where
  "serving_cancelled s \<longleftrightarrow> (\<forall>x \<in> set (sv_serving s). snd x)"

lemma serving_cong:
  "sv_serving s' = sv_serving s \<Longrightarrow> sv_serve_tasks s' = sv_serve_tasks s \<Longrightarrow> serving_listed s' = serving_listed s"
  "sv_serving s' = sv_serving s \<Longrightarrow> serving_cancelled s' = serving_cancelled s"
  by (simp_all add: serving_listed_def serving_cancelled_def)

text \<open>What the shutdown has done at each point: everything it goes on to wait for was cancelled before.\<close>

definition order_inv :: "edge_server \<Rightarrow> bool" where
  "order_inv s \<longleftrightarrow>
     (sv_closing s \<longleftrightarrow> sv_cleanup s \<noteq> KNone) \<and>
     (2 \<le> rank s \<longrightarrow> in_startup s \<longrightarrow> sv_startup_cancelled s) \<and>
     (rank s < 3 \<longrightarrow> serving_listed s) \<and>
     (3 \<le> rank s \<longrightarrow> \<not> in_startup s \<and> sv_serve_tasks s = [] \<and> serving_cancelled s) \<and>
     (4 \<le> rank s \<longrightarrow> sv_listeners s = [] \<and> sv_serving s = []) \<and>
     (6 \<le> rank s \<longrightarrow> (sv_udp_open s \<longrightarrow> sv_udp_stop_failed s) \<and> set (sv_conn_tasks s) \<subseteq> set (sv_cancelled s)) \<and>
     (sv_cancelled s \<noteq> [] \<longrightarrow> 6 \<le> rank s) \<and>
     (7 \<le> rank s \<longrightarrow> sv_conn_tasks s = [] \<and> sv_sessions s = []) \<and>
     (8 \<le> rank s \<longrightarrow> sv_executor_down s \<and> sv_final s = [])"

text \<open>Operations on one connection touch none of the other fields.\<close>

lemma conn_frame [simp]:
  "sv_closing (close_writer i s) = sv_closing s" "sv_cleanup (close_writer i s) = sv_cleanup s"
  "sv_startup (close_writer i s) = sv_startup s" "sv_serve_tasks (close_writer i s) = sv_serve_tasks s"
  "sv_listeners (close_writer i s) = sv_listeners s" "sv_udp_open (close_writer i s) = sv_udp_open s"
  "sv_udp_stop_failed (close_writer i s) = sv_udp_stop_failed s" "sv_executor_down (close_writer i s) = sv_executor_down s"
  "sv_conn_tasks (close_writer i s) = sv_conn_tasks s" "sv_sessions (close_writer i s) = sv_sessions s"
  "sv_conn (close_writer i s) = sv_conn s" "sv_open (close_writer i s) = sv_open s"
  "sv_next_conn (close_writer i s) = sv_next_conn s" "sv_log (close_writer i s) = sv_log s"
  "sv_owner (close_writer i s) = sv_owner s"
  "sv_cancelled (close_writer i s) = sv_cancelled s" "sv_lost (close_writer i s) = sv_lost s"
  "sv_serving (close_writer i s) = sv_serving s" "sv_final (close_writer i s) = sv_final s" "sv_startup_cancelled (close_writer i s) = sv_startup_cancelled s" "set (sv_closed_writers (close_writer i s)) = insert i (set (sv_closed_writers s))"
  by (simp_all add: close_writer_def)

lemma release_frame [simp]:
  "sv_closing (release_socket i s) = sv_closing s" "sv_cleanup (release_socket i s) = sv_cleanup s"
  "sv_startup (release_socket i s) = sv_startup s" "sv_serve_tasks (release_socket i s) = sv_serve_tasks s"
  "sv_listeners (release_socket i s) = sv_listeners s" "sv_udp_open (release_socket i s) = sv_udp_open s"
  "sv_udp_stop_failed (release_socket i s) = sv_udp_stop_failed s" "sv_executor_down (release_socket i s) = sv_executor_down s"
  "sv_conn_tasks (release_socket i s) = sv_conn_tasks s" "sv_sessions (release_socket i s) = sv_sessions s"
  "sv_conn (release_socket i s) = sv_conn s" "sv_open (release_socket i s) = removeAll i (sv_open s)"
  "sv_next_conn (release_socket i s) = sv_next_conn s" "sv_log (release_socket i s) = sv_log s"
  "sv_owner (release_socket i s) = sv_owner s"
  "sv_cancelled (release_socket i s) = sv_cancelled s" "sv_lost (release_socket i s) = sv_lost s"
  "sv_serving (release_socket i s) = sv_serving s" "sv_final (release_socket i s) = sv_final s" "sv_startup_cancelled (release_socket i s) = sv_startup_cancelled s" "sv_closed_writers (release_socket i s) = sv_closed_writers s"
  by (simp_all add: release_socket_def release_def)

lemma set_conn_frame [simp]:
  "sv_closing (set_conn i p s) = sv_closing s" "sv_cleanup (set_conn i p s) = sv_cleanup s"
  "sv_startup (set_conn i p s) = sv_startup s" "sv_serve_tasks (set_conn i p s) = sv_serve_tasks s"
  "sv_listeners (set_conn i p s) = sv_listeners s" "sv_udp_open (set_conn i p s) = sv_udp_open s"
  "sv_udp_stop_failed (set_conn i p s) = sv_udp_stop_failed s" "sv_executor_down (set_conn i p s) = sv_executor_down s"
  "sv_conn_tasks (set_conn i p s) = sv_conn_tasks s" "sv_sessions (set_conn i p s) = sv_sessions s"
  "sv_conn (set_conn i p s) = (sv_conn s)(i := p)" "sv_open (set_conn i p s) = sv_open s"
  "sv_next_conn (set_conn i p s) = sv_next_conn s" "sv_log (set_conn i p s) = sv_log s"
  "sv_owner (set_conn i p s) = sv_owner s"
  "sv_cancelled (set_conn i p s) = sv_cancelled s" "sv_lost (set_conn i p s) = sv_lost s"
  "sv_serving (set_conn i p s) = sv_serving s" "sv_final (set_conn i p s) = sv_final s" "sv_startup_cancelled (set_conn i p s) = sv_startup_cancelled s" "sv_closed_writers (set_conn i p s) = sv_closed_writers s"
  by (simp_all add: set_conn_def)

text \<open>\<open>stop\<close> closes the writers of all tasks and releases their sockets.\<close>

definition hang_up :: "nat list \<Rightarrow> edge_server \<Rightarrow> edge_server" where
  "hang_up is s = fold (\<lambda>i s. release_socket i (close_writer i s)) is s"

lemma hang_up_frame [simp]:
  "sv_closing (hang_up is s) = sv_closing s" "sv_cleanup (hang_up is s) = sv_cleanup s"
  "sv_startup (hang_up is s) = sv_startup s" "sv_serve_tasks (hang_up is s) = sv_serve_tasks s"
  "sv_listeners (hang_up is s) = sv_listeners s" "sv_udp_open (hang_up is s) = sv_udp_open s"
  "sv_udp_stop_failed (hang_up is s) = sv_udp_stop_failed s" "sv_executor_down (hang_up is s) = sv_executor_down s"
  "sv_conn_tasks (hang_up is s) = sv_conn_tasks s" "sv_sessions (hang_up is s) = sv_sessions s"
  "sv_conn (hang_up is s) = sv_conn s" "sv_open (hang_up is s) = filter (\<lambda>i. i \<notin> set is) (sv_open s)"
  "sv_next_conn (hang_up is s) = sv_next_conn s" "sv_log (hang_up is s) = sv_log s"
  "sv_owner (hang_up is s) = sv_owner s"
  "sv_cancelled (hang_up is s) = sv_cancelled s" "sv_lost (hang_up is s) = sv_lost s"
  "sv_serving (hang_up is s) = sv_serving s" "sv_final (hang_up is s) = sv_final s" "sv_startup_cancelled (hang_up is s) = sv_startup_cancelled s" "set (sv_closed_writers (hang_up is s)) = set is \<union> set (sv_closed_writers s)"
  unfolding hang_up_def by (induction "is" arbitrary: s) (auto simp: removeAll_filter_not_eq conj_commute intro: filter_cong)

lemma srv_stop_fields:
  "sv_closing (srv_stop s) = True" "sv_cleanup (srv_stop s) = (if sv_cleanup s = KNone then KCreated else sv_cleanup s)"
  "sv_cancelled (srv_stop s) = sv_cancelled s" "sv_lost (srv_stop s) = sv_lost s" "sv_serving (srv_stop s) = sv_serving s"
  "sv_final (srv_stop s) = sv_final s" "sv_startup_cancelled (srv_stop s) = sv_startup_cancelled s"
  "sv_startup (srv_stop s) = sv_startup s" "sv_serve_tasks (srv_stop s) = sv_serve_tasks s"
  "sv_listeners (srv_stop s) = sv_listeners s" "sv_udp_open (srv_stop s) = sv_udp_open s"
  "sv_udp_stop_failed (srv_stop s) = sv_udp_stop_failed s" "sv_executor_down (srv_stop s) = sv_executor_down s"
  "sv_conn_tasks (srv_stop s) = sv_conn_tasks s" "sv_sessions (srv_stop s) = sv_sessions s"
  "sv_conn (srv_stop s) = sv_conn s" "sv_open (srv_stop s) = filter (\<lambda>i. i \<notin> set (sv_conn_tasks s)) (sv_open s)"
  "sv_next_conn (srv_stop s) = sv_next_conn s" "sv_log (srv_stop s) = sv_log s" "sv_owner (srv_stop s) = sv_owner s"
  "set (sv_closed_writers (srv_stop s)) = set (sv_conn_tasks s) \<union> set (sv_closed_writers s)"
  unfolding srv_stop_def Let_def hang_up_def [symmetric] by simp_all


lemma finish_conn_fields [simp]:
  "sv_closing (finish_conn i s) = sv_closing s" "sv_cleanup (finish_conn i s) = sv_cleanup s"
  "sv_startup (finish_conn i s) = sv_startup s" "sv_serve_tasks (finish_conn i s) = sv_serve_tasks s"
  "sv_listeners (finish_conn i s) = sv_listeners s" "sv_udp_open (finish_conn i s) = sv_udp_open s"
  "sv_udp_stop_failed (finish_conn i s) = sv_udp_stop_failed s" "sv_executor_down (finish_conn i s) = sv_executor_down s"
  "sv_conn_tasks (finish_conn i s) = removeAll i (sv_conn_tasks s)" "sv_sessions (finish_conn i s) = sv_sessions s"
  "sv_conn (finish_conn i s) = (sv_conn s)(i := CDone)" "sv_open (finish_conn i s) = sv_open s"
  "sv_next_conn (finish_conn i s) = sv_next_conn s" "sv_log (finish_conn i s) = sv_log s"
  "sv_owner (finish_conn i s) = sv_owner s"
  "sv_cancelled (finish_conn i s) = sv_cancelled s" "sv_lost (finish_conn i s) = sv_lost s"
  "sv_serving (finish_conn i s) = sv_serving s" "sv_final (finish_conn i s) = sv_final s" "sv_startup_cancelled (finish_conn i s) = sv_startup_cancelled s" "sv_closed_writers (finish_conn i s) = sv_closed_writers s"
  by (simp_all add: finish_conn_def)

lemmas end_defs = serve_ends_def transport_lost_def final_close_def

lemmas conn_defs = end_defs leave_conn_def session_releases_def session_closed_def handle_connection_def run_connection_def do_tls_handshake_def Let_def

lemma order_new: "order_inv (new_server k lg)"
  by (simp add: order_inv_def new_server_def in_startup_def serving_listed_def)

lemma order_conn:
  assumes "order_inv s" "sv_closing s' = sv_closing s" "sv_cleanup s' = sv_cleanup s" "sv_startup s' = sv_startup s"
    "sv_startup_cancelled s' = sv_startup_cancelled s" "sv_serve_tasks s' = sv_serve_tasks s" "sv_serving s' = sv_serving s"
    "sv_listeners s' = sv_listeners s" "sv_udp_open s' = sv_udp_open s" "sv_udp_stop_failed s' = sv_udp_stop_failed s"
    "sv_cancelled s' = sv_cancelled s" "sv_executor_down s' = sv_executor_down s"
    "set (sv_conn_tasks s') \<subseteq> set (sv_conn_tasks s)" "set (sv_final s') \<subseteq> set (sv_final s)"
    "set (sv_sessions s') \<subseteq> set (sv_sessions s) \<or> \<not> sv_closing s"
  shows "order_inv s'"
proof -
  have c: "sv_conn_tasks s = [] \<longrightarrow> sv_conn_tasks s' = []" "sv_final s = [] \<longrightarrow> sv_final s' = []"
    using assms(13,14) by auto
  have "0 < rank s \<longrightarrow> sv_closing s" using assms(1) by (cases "sv_cleanup s") (simp_all add: order_inv_def)
  then have ss: "7 \<le> rank s \<longrightarrow> sv_sessions s = [] \<longrightarrow> sv_sessions s' = []" using assms(15) by auto
  note sc = serving_cong(1) [OF assms(7,6)] serving_cong(2) [OF assms(7)]
  show ?thesis
    using assms(1,13) c ss unfolding order_inv_def in_startup_def assms(2-12) sc by blast
qed

lemma order_internal: "srv_internal L io cfg s s' \<Longrightarrow> order_inv s \<Longrightarrow> order_inv s'"
proof (induction rule: srv_internal.induct)
  case (Acquired s)
  then show ?case by (cases "sv_startup s"; cases "sv_cleanup s") (simp_all add: order_inv_def in_startup_def startup_acquired_def serving_listed_def serving_cancelled_def)
next
  case (Aborted s opened)
  then show ?case by (cases "sv_cleanup s") (simp_all add: order_inv_def in_startup_def startup_aborted_def serving_listed_def serving_cancelled_def)
next
  case (Serve s)
  then show ?case
    by (cases "sv_cleanup s") (auto simp: order_inv_def in_startup_def srv_serve_def serving_listed_def serving_cancelled_def)
next
  case (ServeEnds x s)
  then show ?case by (cases "sv_cleanup s") (auto simp: order_inv_def in_startup_def serve_ends_def serving_listed_def serving_cancelled_def
      dest: set_remove1_subset [THEN subsetD])
next
  case (Handle i s cancelled)
  then show ?case
    by - (rule order_conn [of s]; auto simp: conn_defs split: option.splits prod.splits sum.splits)
next
  case (Release s i)
  then show ?case by - (rule order_conn [of s]; auto simp: conn_defs)
next
  case (RunEnds i s)
  then show ?case by - (rule order_conn [of s]; auto simp: conn_defs)
next
  case (SessionClosed i s cancelled)
  then show ?case by - (rule order_conn [of s]; auto simp: conn_defs)
next
  case (Left i s)
  then show ?case by - (rule order_conn [of s]; auto simp: conn_defs)
next
  case (Lost i s)
  then show ?case by - (rule order_conn [of s]; auto simp: conn_defs)
next
  case (FinalClose i s)
  then show ?case by - (rule order_conn [of s]; auto simp: conn_defs)
next
  case (Cleanup s udp_ok)
  then show ?case
    by (cases "sv_cleanup s")
      (auto simp: order_inv_def in_startup_def cleanup_next_def cleanup_ready_def serving_listed_def serving_cancelled_def)
qed

lemma order_step: "srv_step L io cfg s s' \<Longrightarrow> order_inv s \<Longrightarrow> order_inv s'"
proof (induction rule: srv_step.induct)
  case (Internal s s')
  then show ?case by (rule order_internal)
next
  case (Start s s')
  then have s': "s' = s\<lparr>sv_started := True, sv_startup := BindPlain\<rparr>" and c: "\<not> sv_closing s"
    by (auto simp: srv_start_def split: if_splits)
  from c Start have "sv_cleanup s = KNone" by (simp add: order_inv_def)
  with Start s' serving_cong [of s' s] show ?case by (simp add: order_inv_def)
next
  case (Accept s)
  show ?case
  proof (cases "sv_closing s")
    case True
    with Accept show ?thesis by - (rule order_conn [of s]; simp add: accept_connection_def Let_def)
  next
    case False
    with Accept have "sv_cleanup s = KNone" by (simp add: order_inv_def)
    with Accept False serving_cong [of "accept_connection s" s] show ?thesis
      by (simp add: order_inv_def accept_connection_def Let_def in_startup_def)
  qed
next
  case (Stop s)
  show ?case
  proof (cases "sv_cleanup s = KNone")
    case True
    with Stop serving_cong [of "srv_stop s" s] show ?thesis by (simp add: order_inv_def srv_stop_fields)
  next
    case False
    with Stop show ?thesis by - (rule order_conn [of s]; auto simp: srv_stop_fields order_inv_def)
  qed
qed

section \<open>Connections and capacity\<close>

definition conn_inv :: "app_config \<Rightarrow> edge_server \<Rightarrow> bool" where
  "conn_inv cfg s \<longleftrightarrow>
     distinct (sv_conn_tasks s) \<and> distinct (sv_open s) \<and>
     int (length (sv_open s)) \<le> max_connections (ac_doip cfg) + 1 \<and>
     (\<forall>i. i \<in> set (sv_conn_tasks s) \<longleftrightarrow> sv_conn s i \<noteq> CDone) \<and>
     (\<forall>i. i \<in> set (sv_conn_tasks s) \<longrightarrow> i < sv_next_conn s) \<and>
     (\<forall>i. i \<in> set (sv_open s) \<longrightarrow> sv_conn s i \<in> {CRunning, CSessionClosing}) \<and>
     (\<forall>i < sv_next_conn s. sv_closing s \<or> sv_conn s i \<in> {CDone, CLeaving} \<longrightarrow> i \<in> set (sv_closed_writers s)) \<and>
     (sv_closing s \<longrightarrow> sv_open s = [])"

lemma conn_new: "1 \<le> max_connections (ac_doip cfg) \<Longrightarrow> conn_inv cfg (new_server k lg)"
  by (simp add: conn_inv_def new_server_def)

lemma reserve_some:
  assumes "reserve dc i opn = Some opn'" "i \<notin> set opn"
  shows "opn' = opn @ [i]" "int (length opn) + 1 \<le> max_connections dc + 1"
  using assms by (auto simp: reserve_def split: if_splits)


lemma conn_finish:
  assumes "conn_inv cfg s" "i \<in> set (sv_conn_tasks s)" "sv_conn s i \<in> {CCreated, CLeaving}" "i \<in> set (sv_closed_writers s)"
  shows "conn_inv cfg (finish_conn i s)"
  using assms by (auto simp: conn_inv_def distinct_removeAll)

lemma conn_close_writer: "conn_inv cfg s \<Longrightarrow> conn_inv cfg (close_writer i s)"
  by (simp add: conn_inv_def)

lemma conn_release: "conn_inv cfg s \<Longrightarrow> conn_inv cfg (release_socket i s)"
proof -
  assume inv: "conn_inv cfg s"
  have "length (removeAll i (sv_open s)) \<le> length (sv_open s)" by (simp add: removeAll_filter_not_eq)
  moreover have "int (length (sv_open s)) \<le> max_connections (ac_doip cfg) + 1" using inv by (simp add: conn_inv_def)
  ultimately have "int (length (removeAll i (sv_open s))) \<le> max_connections (ac_doip cfg) + 1" by linarith
  with inv show ?thesis by (simp add: conn_inv_def distinct_removeAll)
qed

lemma conn_leave:
  assumes "conn_inv cfg s" "i \<in> set (sv_conn_tasks s)"
  shows "conn_inv cfg (leave_conn i s)"
  using conn_release [OF conn_close_writer [OF assms(1), of i], of i] assms(2)
  by (auto simp: conn_inv_def leave_conn_def)

lemma conn_other:
  assumes "conn_inv cfg s" "sv_conn_tasks s' = sv_conn_tasks s" "sv_open s' = sv_open s" "sv_conn s' = sv_conn s"
    "sv_next_conn s' = sv_next_conn s" "sv_closed_writers s' = sv_closed_writers s" "sv_closing s' = sv_closing s"
  shows "conn_inv cfg s'"
  using assms by (simp add: conn_inv_def)

lemma conn_reserved:
  assumes "conn_inv cfg s" "i \<in> set (sv_conn_tasks s)" "sv_conn s i = CCreated" "\<not> sv_closing s"
    "reserve (ac_doip cfg) i (sv_open s) = Some opn"
  shows "conn_inv cfg (set_conn i CRunning (s\<lparr>sv_open := opn\<rparr>))"
proof -
  have "i \<notin> set (sv_open s)" using assms(1,3) by (auto simp: conn_inv_def)
  from reserve_some [OF assms(5) this] assms(1-4) show ?thesis
    by (auto simp: conn_inv_def)
qed

lemma conn_handle:
  assumes inv: "conn_inv cfg s" and i: "i \<in> set (sv_conn_tasks s)" "sv_conn s i = CCreated"
    and cancel: "cancelled \<longrightarrow> sv_closing s"
  shows "conn_inv cfg (handle_connection L io cfg use_tls cancelled i s)"
proof (cases "cancelled \<or> sv_closing s")
  case True
  then have closing: "sv_closing s" using cancel by blast
  then have w: "i \<in> set (sv_closed_writers s)" using inv i by (auto simp: conn_inv_def)
  show ?thesis
  proof (cases cancelled)
    case True
    then show ?thesis using conn_finish [OF inv i(1) _ w] i by (simp add: handle_connection_def run_connection_def do_tls_handshake_def)
  next
    case False
    have "conn_inv cfg (release_socket i (close_writer i s))" by (intro conn_release conn_close_writer inv)
    with False closing i show ?thesis by (simp add: handle_connection_def run_connection_def do_tls_handshake_def conn_finish)
  qed
next
  case False
  show ?thesis
  proof (cases "reserve (ac_doip cfg) i (sv_open s)")
    case None
    with False i conn_close_writer [OF inv] show ?thesis by (simp add: handle_connection_def run_connection_def do_tls_handshake_def conn_finish)
  next
    case (Some opn)
    have res: "conn_inv cfg (set_conn i CRunning (s\<lparr>sv_open := opn\<rparr>))" using conn_reserved [OF inv i _ Some] False by simp
    obtain x :: "bytes built list res" and lg
      where b: "build_middleware L io (Some (sv_owner s)) (ac_middleware cfg) (sv_log s) = (x, lg)" by fastforce
    show ?thesis
    proof (cases x)
      case (Inl e)
      have "conn_inv cfg (leave_conn i (set_conn i CRunning (s\<lparr>sv_open := opn, sv_log := lg\<rparr>)))"
        by (rule conn_leave) (use conn_other [OF res, of "set_conn i CRunning (s\<lparr>sv_open := opn, sv_log := lg\<rparr>)"] i in simp_all)
      moreover have "leave_conn i (set_conn i CRunning (s\<lparr>sv_open := opn, sv_log := lg\<rparr>)) = leave_conn i (s\<lparr>sv_open := opn, sv_log := lg\<rparr>)"
        by (simp add: leave_conn_def set_conn_def release_socket_def close_writer_def)
      ultimately show ?thesis using Inl b Some False by (simp add: handle_connection_def run_connection_def do_tls_handshake_def)
    next
      case (Inr bs)
      with b Some False show ?thesis
        by (simp add: handle_connection_def run_connection_def do_tls_handshake_def) (rule conn_other [OF res], simp_all)
    qed
  qed
qed

lemma conn_internal:
  "srv_internal L io cfg s s' \<Longrightarrow> order_inv s \<Longrightarrow> conn_inv cfg s \<Longrightarrow> conn_inv cfg s'"
proof (induction rule: srv_internal.induct)
  case (Acquired s)
  then show ?case by (auto intro: conn_other simp: startup_acquired_def split: startup_phase.splits)
next
  case (Aborted s opened)
  then show ?case by (auto intro: conn_other simp: startup_aborted_def)
next
  case (Serve s)
  then show ?case by (auto intro: conn_other simp: srv_serve_def)
next
  case (Handle i s cancelled)
  then show ?case by (intro conn_handle) (cases "sv_cleanup s"; auto simp: order_inv_def)+
next
  case (Release s i)
  then show ?case unfolding session_releases_def by (intro conn_release conn_close_writer)
next
  case (RunEnds i s)
  then show ?case by (auto simp: conn_inv_def)
next
  case (ServeEnds x s)
  then show ?case by (auto intro: conn_other simp: end_defs)
next
  case (Lost i s)
  then show ?case by (auto intro: conn_other simp: end_defs)
next
  case (FinalClose i s)
  then show ?case by (auto intro: conn_other simp: end_defs)
next
  case (SessionClosed i s cancelled)
  then show ?case
    unfolding session_closed_def by (intro conn_leave) (auto intro: conn_other)
next
  case (Left i s)
  then show ?case by (intro conn_finish) (auto simp: conn_inv_def)
next
  case (Cleanup s udp_ok)
  then show ?case by (auto intro: conn_other simp: cleanup_next_def split: cleanup_phase.splits)
qed

lemma conn_step:
  "srv_step L io cfg s s' \<Longrightarrow> order_inv s \<Longrightarrow> conn_inv cfg s \<Longrightarrow> conn_inv cfg s'"
proof (induction rule: srv_step.induct)
  case (Internal s s')
  then show ?case by (rule conn_internal)
next
  case (Start s s')
  then show ?case by (auto simp: srv_start_def intro: conn_other split: if_splits)
next
  case (Accept s)
  then have fresh: "sv_conn s (sv_next_conn s) = CDone" by (auto simp: conn_inv_def)
  then have "sv_next_conn s \<notin> set (sv_open s)" using Accept by (auto simp: conn_inv_def)
  with Accept fresh show ?case by (auto simp: accept_connection_def Let_def conn_inv_def less_Suc_eq)
next
  case (Stop s)
  then have "filter (\<lambda>i. i \<notin> set (sv_conn_tasks s)) (sv_open s) = []"
    by (auto simp: filter_empty_conv conn_inv_def)
  with Stop show ?case by (auto simp: conn_inv_def srv_stop_fields)
qed


section \<open>Sinks\<close>

text \<open>The owner's sinks stay open until everything else has been joined.\<close>

definition log_ok :: "edge_server \<Rightarrow> bool" where
  "log_ok s \<longleftrightarrow> log_inv (sv_log s) \<and> sv_owner s < length (sink_owners (sv_log s)) \<and>
     (own_closed (sink_owners (sv_log s) ! sv_owner s) \<longleftrightarrow> sv_cleanup s = KDone)"

lemma owner_flags:
  "map own_closed (sink_owners (set_owner k (ow\<lparr>own_loggers := x\<rparr>) w)) = (map own_closed (sink_owners w))[k := own_closed ow]"
  by (simp add: set_owner_def map_update)

lemma acquire_flags:
  assumes "acquire io k p w = (r, w')"
  shows "map own_closed (sink_owners w') = map own_closed (sink_owners w)"
proof -
  have same: "(map own_closed (sink_owners w))[k := own_closed (sink_owners w ! k)] = map own_closed (sink_owners w)"
    by (cases "k < length (sink_owners w)") (simp_all add: list_update_beyond list_update_same_conv)
  with assms show ?thesis
    by (auto simp: acquire_def Let_def owner_flags dest: make_logger_frame
        split: if_splits option.splits prod.splits sum.splits)
qed

lemma mw_new_flags:
  assumes "mw_new L io (Some k) mc w = (r, w')"
  shows "map own_closed (sink_owners w') = map own_closed (sink_owners w)"
proof (cases "w' = w")
  case False
  with assms obtain x where "logger_init io (get (mwc_params mc) ''log_path'' (YStr ''logs/doip.log''))
      (get (mwc_params mc) ''hex_dump'' (YBool True)) (Some k) (mwc_enabled mc) w = (x, w')"
    by (auto simp: mw_new_def bnd_def split: if_splits prod.splits sum.splits)
  then show ?thesis by (cases rule: logger_init_cases) (auto dest: acquire_flags)
qed simp

lemma close_loggers_flags: "sink_owners (close_loggers bs w) = sink_owners w"
  unfolding close_loggers_def
  by (induction bs arbitrary: w) (auto simp: logger_close_def Let_def split: option.splits)

lemma build_from_flags:
  fixes acc :: "'k built list"
  shows "build_from L io (Some k) mcs acc w = (r, w') \<Longrightarrow> map own_closed (sink_owners w') = map own_closed (sink_owners w)"
proof (induction mcs arbitrary: acc w)
  case (Cons mc mcs)
  obtain x :: "'k built res" and v where new: "mw_new L io (Some k) mc w = (x, v)" by fastforce
  note step = mw_new_flags [OF new]
  show ?case
  proof (cases x)
    case (Inl e)
    with new Cons.prems step show ?thesis
      by (auto simp: bnd_def seq_def try_catch_def close_loggers_flags)
  next
    case (Inr b)
    with new Cons.prems step Cons.IH show ?thesis by (fastforce simp: bnd_def try_catch_def)
  qed
qed simp

lemma balanced_self:
  assumes "log_inv w" "k < length (sink_owners w)"
  shows "balanced k (set_owner k \<lparr>own_loggers = [], own_closed = True\<rparr> w) w"
  using assms leases_set_owner(2) [OF assms(2)] leases_set_owner(1) [OF assms(2), of "\<lparr>own_loggers = [], own_closed = True\<rparr>"]
  by (simp add: balanced_def)

lemma build_log_ok:
  assumes idem: "\<And>p. canonical io (canonical io p) = canonical io p"
    and b: "build_middleware L io (Some k) mcs lg = (x :: 'k built list res, lg')" and inv: "log_inv lg" "k < length (sink_owners lg)"
  shows "log_inv lg'" "length (sink_owners lg') = length (sink_owners lg)"
    "own_closed (sink_owners lg' ! k) = own_closed (sink_owners lg ! k)"
proof -
  have flags: "map own_closed (sink_owners lg') = map own_closed (sink_owners lg)"
    using b build_from_flags by (simp add: build_middleware_def)
  then show len: "length (sink_owners lg') = length (sink_owners lg)" by (metis length_map)
  show "own_closed (sink_owners lg' ! k) = own_closed (sink_owners lg ! k)"
    using flags len inv(2) by (metis nth_map)
  show "log_inv lg'"
    using build_from_balanced [OF idem balanced_self [OF inv], of "[] :: 'k built list"] b
    by (simp add: build_middleware_def borrowed_def balanced_def)
qed


lemma log_same:
  assumes "log_ok s" "sv_log s' = sv_log s" "sv_owner s' = sv_owner s" "sv_cleanup s' = KDone \<longleftrightarrow> sv_cleanup s = KDone"
  shows "log_ok s'"
  using assms by (simp add: log_ok_def)

lemma log_handle:
  assumes idem: "\<And>p. canonical io (canonical io p) = canonical io p" and ok: "log_ok s"
  shows "log_ok (handle_connection L io cfg use_tls cancelled i s)"
proof (cases "cancelled \<or> sv_closing s \<or> reserve (ac_doip cfg) i (sv_open s) = None")
  case True
  with ok show ?thesis by (auto simp: handle_connection_def run_connection_def do_tls_handshake_def intro: log_same)
next
  case False
  obtain x :: "bytes built list res" and lg
    where b: "build_middleware L io (Some (sv_owner s)) (ac_middleware cfg) (sv_log s) = (x, lg)" by fastforce
  have "log_inv lg \<and> sv_owner s < length (sink_owners lg) \<and>
      (own_closed (sink_owners lg ! sv_owner s) \<longleftrightarrow> sv_cleanup s = KDone)"
    using build_log_ok [OF idem b] ok by (simp add: log_ok_def)
  with False b show ?thesis
    by (cases x) (auto simp: handle_connection_def run_connection_def do_tls_handshake_def leave_conn_def log_ok_def)
qed

lemma owner_close_flags:
  assumes "k < length (sink_owners w)"
  shows "length (sink_owners (owner_close k w)) = length (sink_owners w)" "own_closed (sink_owners (owner_close k w) ! k)"
  using assms by (simp_all add: owner_close_def Let_def set_owner_def)

lemma log_internal:
  assumes "srv_internal L io cfg s s'" "log_ok s" and idem: "\<And>p. canonical io (canonical io p) = canonical io p"
  shows "log_ok s'"
  using assms(1,2)
proof (induction rule: srv_internal.induct)
  case (Acquired s)
  then show ?case by (auto intro: log_same simp: startup_acquired_def split: startup_phase.splits)
next
  case (Handle i s cancelled)
  then show ?case using idem by (intro log_handle)
next
  case (Cleanup s udp_ok)
  then show ?case
    by (cases "sv_cleanup s")
      (auto simp: log_ok_def cleanup_next_def cleanup_ready_def owner_close_flags owner_close_inv)
qed (auto simp: startup_aborted_def srv_serve_def conn_defs log_ok_def)

lemma log_step_ok:
  assumes "srv_step L io cfg s s'" "order_inv s" "log_ok s" and idem: "\<And>p. canonical io (canonical io p) = canonical io p"
  shows "log_ok s'"
  using assms(1-3)
proof (induction rule: srv_step.induct)
  case (Internal s s')
  then show ?case using idem by (blast intro: log_internal)
next
  case (Start s s')
  then show ?case by (auto simp: srv_start_def intro: log_same split: if_splits)
next
  case (Accept s)
  then show ?case by (auto simp: accept_connection_def Let_def log_ok_def)
next
  case (Stop s)
  then show ?case by (auto simp: log_ok_def srv_stop_fields)
qed

lemma new_server_log_ok:
  assumes "log_reachable io lg" "server_init L io cfg lg = (Inr k, lg')"
    and idem: "\<And>p. canonical io (canonical io p) = canonical io p"
  shows "log_ok (new_server k lg') \<and> 1 \<le> max_connections (ac_doip cfg)"
proof -
  let ?k = "length (sink_owners lg)"
  have inv: "log_inv (new_owner lg)" using new_owner_inv log_reachable_inv [OF assms(1) idem] by simp
  have "k = ?k \<and> 1 \<le> max_connections (ac_doip cfg) \<and>
      (\<exists>bs :: bytes built list. build_middleware L io (Some ?k) (ac_middleware cfg) (new_owner lg) = (Inr bs, lg'))"
    using assms(2) by (auto simp: server_init_def bnd_def seq_def try_catch_def Let_def split: if_splits prod.splits sum.splits)
  then show ?thesis
    using build_log_ok [OF idem _ inv, of L ?k] by (fastforce simp: log_ok_def new_server_def new_owner_def)
qed

lemma srv_reachable_inv:
  assumes "srv_reachable L io cfg s" and idem: "\<And>p. canonical io (canonical io p) = canonical io p"
  shows "order_inv s \<and> conn_inv cfg s \<and> log_ok s"
  using assms(1)
proof induction
  case (Born lg k lg')
  then show ?case using new_server_log_ok [OF Born idem] order_new conn_new by blast
next
  case (Step s s')
  then show ?case using order_step conn_step log_step_ok idem by blast
qed


section \<open>Bounds\<close>

text \<open>C24: In every reachable state of a server, at most the configured number of connections and one reserve
  socket are open; every open socket belongs to a handler task that is running a session, so a task that is
  leaving or has ended, with whatever outcome, holds no place; and a server that is shutting down holds none.\<close>

theorem server_capacity:
  assumes "\<forall>p. canonical io (canonical io p) = canonical io p" "srv_reachable L io cfg s"
  shows "distinct (sv_open s) \<and> int (length (sv_open s)) \<le> max_connections (ac_doip cfg) + 1 \<and>
    (\<forall>i. i \<in> set (sv_open s) \<longrightarrow> i \<in> set (sv_conn_tasks s) \<and> sv_conn s i \<in> {CRunning, CSessionClosing}) \<and>
    (sv_closing s \<longrightarrow> sv_open s = [])"
proof -
  have inv: "conn_inv cfg s" using srv_reachable_inv [OF assms(2)] assms(1) by simp
  show ?thesis
  proof (intro conjI allI impI, goal_cases)
    case (3 i)
    then have "sv_conn s i \<in> {CRunning, CSessionClosing}" using inv by (auto simp: conn_inv_def)
    with inv show ?case by (auto simp: conn_inv_def)
  next
    case (4 i)
    with inv show ?case by (auto simp: conn_inv_def)
  qed (use inv in \<open>simp_all add: conn_inv_def\<close>)
qed

text \<open>A server without middleware that has accepted one connection and runs its session.\<close>

definition quiet_config :: app_config where
  "quiet_config = failing_config\<lparr>ac_middleware := []\<rparr>"

definition busy_server :: edge_server where
  "busy_server = handle_connection sample_lib open_io quiet_config False False 0 (accept_connection (new_server 0 (new_owner new_log_world)))"

lemma busy_server_reachable: "srv_reachable sample_lib open_io quiet_config busy_server"
proof -
  have "server_init sample_lib open_io quiet_config new_log_world = (Inr 0, new_owner new_log_world)"
    by (simp add: server_init_def quiet_config_def failing_config_def ex_edge_doip_def build_middleware_def
        new_log_world_def try_catch_def)
  then have "srv_reachable sample_lib open_io quiet_config (new_server 0 (new_owner new_log_world))"
    by (rule Born [OF log_reachable_new])
  then have "srv_reachable sample_lib open_io quiet_config (accept_connection (new_server 0 (new_owner new_log_world)))"
    by (rule srv_reachable.Step) (rule Accept)
  then show ?thesis
    unfolding busy_server_def
    by (rule srv_reachable.Step)
      (intro srv_step.Internal Handle, simp_all add: accept_connection_def new_server_def set_conn_def)
qed

lemma busy_server_fields: "sv_open busy_server = [0]" "sv_closing busy_server = False"
  by (simp_all add: busy_server_def handle_connection_def run_connection_def do_tls_handshake_def accept_connection_def new_server_def set_conn_def reserve_def
      quiet_config_def failing_config_def ex_edge_doip_def build_middleware_def)

theorem server_capacity_witness:
  "sv_open busy_server = [0] \<and> sv_conn busy_server 0 \<in> {CRunning, CSessionClosing}"
  using server_capacity [OF _ busy_server_reachable] busy_server_fields by (simp add: open_io_def)

text \<open>As long as a session runs, the sinks its loggers borrow are not given back.\<close>

lemma session_sinks_open:
  assumes "srv_reachable L io cfg s" "\<And>p. canonical io (canonical io p) = canonical io p"
    and "sv_conn s i \<noteq> CDone"
  shows "\<not> own_closed (sink_owners (sv_log s) ! sv_owner s)"
proof
  assume "own_closed (sink_owners (sv_log s) ! sv_owner s)"
  with srv_reachable_inv [OF assms(1,2)] have ended: "sv_cleanup s = KDone" by (simp add: log_ok_def)
  with srv_reachable_inv [OF assms(1,2)] have "sv_conn_tasks s = []" by (simp add: order_inv_def)
  with srv_reachable_inv [OF assms(1,2)] assms(3) show False by (simp add: conn_inv_def)
qed

section \<open>Shutdown\<close>

text \<open>Everything has been joined and given back. The announcer's socket may stay open only when its own
  \<open>stop\<close> raised.\<close>

definition srv_clean :: "edge_server \<Rightarrow> bool" where
  "srv_clean s \<longleftrightarrow>
     sv_cleanup s = KDone \<and> \<not> in_startup s \<and> sv_listeners s = [] \<and> sv_serve_tasks s = [] \<and> sv_serving s = [] \<and>
     sv_conn_tasks s = [] \<and> sv_sessions s = [] \<and> sv_final s = [] \<and> sv_open s = [] \<and> (\<forall>i < sv_next_conn s. i \<in> set (sv_closed_writers s)) \<and>
     (sv_udp_open s \<longrightarrow> sv_udp_stop_failed s) \<and> sv_executor_down s \<and>
     own_loggers (sink_owners (sv_log s) ! sv_owner s) = []"

text \<open>However the tasks of the server are scheduled, it becomes clean: on every path of internal steps, and
  before it is, there is always a step that comes by itself.\<close>

inductive shuts_down :: "py_lib \<Rightarrow> log_io \<Rightarrow> app_config \<Rightarrow> edge_server \<Rightarrow> bool" for L io cfg where
  Clean: "srv_clean s \<Longrightarrow> shuts_down L io cfg s"
| Later: "srv_driven L io cfg s s1 \<Longrightarrow> (\<And>s'. srv_internal L io cfg s s' \<Longrightarrow> shuts_down L io cfg s') \<Longrightarrow>
     shuts_down L io cfg s"

text \<open>Steps that come by themselves are steps of the server.\<close>

lemma driven_internal: "srv_driven L io cfg s s' \<Longrightarrow> srv_internal L io cfg s s'"
  by (induction rule: srv_driven.induct) (auto intro: srv_internal.intros)

fun conn_weight :: "conn_phase \<Rightarrow> nat" where
  "conn_weight CCreated = 5"
| "conn_weight CRunning = 3"
| "conn_weight CSessionClosing = 2"
| "conn_weight CLeaving = 1"
| "conn_weight CDone = 0"

fun startup_weight :: "startup_phase \<Rightarrow> nat" where
  "startup_weight BindPlain = 3"
| "startup_weight BindTls = 2"
| "startup_weight StartUdp = 1"
| "startup_weight _ = 0"

definition tasks_weight :: "edge_server \<Rightarrow> nat" where
  "tasks_weight s = (\<Sum>i \<in> set (sv_conn_tasks s). conn_weight (sv_conn s i))"

definition live_transports :: "edge_server \<Rightarrow> nat set" where
  "live_transports s = {i. i < sv_next_conn s \<and> i \<notin> set (sv_lost s)}"

definition srv_weight :: "edge_server \<Rightarrow> nat" where
  "srv_weight s = startup_weight (sv_startup s) + (if sv_served s then 0 else 1) + tasks_weight s + length (sv_open s)
     + length (sv_serving s) + card (live_transports s) + length (sv_sessions s) + length (sv_final s) + (8 - rank s)"

lemma all_lost_iff: "all_lost s \<longleftrightarrow> live_transports s = {}"
  by (auto simp: all_lost_def live_transports_def)

lemma live_lost: "i < sv_next_conn s \<Longrightarrow> i \<notin> set (sv_lost s) \<Longrightarrow> card (live_transports (transport_lost i s)) < card (live_transports s)"
  by (rule psubset_card_mono) (auto simp: live_transports_def transport_lost_def)

lemma live_frame [simp]:
  "live_transports (close_writer i s) = live_transports s" "live_transports (release_socket i s) = live_transports s"
  "live_transports (set_conn i p s) = live_transports s" "live_transports (finish_conn i s) = live_transports s"
  by (simp_all add: live_transports_def)

lemma weight_drop:
  assumes "finite A" "i \<in> A" "conn_weight p < conn_weight (c i)"
  shows "(\<Sum>j \<in> A. conn_weight ((c(i := p)) j)) < (\<Sum>j \<in> A. conn_weight (c j))"
  by (rule sum_strict_mono_ex1) (use assms in auto)

lemma weight_remove:
  assumes "finite A" "i \<in> A" "0 < conn_weight (c i)"
  shows "(\<Sum>j \<in> A - {i}. conn_weight ((c(i := p)) j)) < (\<Sum>j \<in> A. conn_weight (c j))"
proof -
  have "(\<Sum>j \<in> A - {i}. conn_weight ((c(i := p)) j)) = (\<Sum>j \<in> A - {i}. conn_weight (c j))"
    by (rule sum.cong) auto
  with assms show ?thesis by (simp add: sum.remove [of A i])
qed

lemma tasks_finish: "i \<in> set (sv_conn_tasks s) \<Longrightarrow> 0 < conn_weight (sv_conn s i) \<Longrightarrow> tasks_weight (finish_conn i s) < tasks_weight s"
  unfolding tasks_weight_def using weight_remove [of "set (sv_conn_tasks s)" i "sv_conn s" CDone] by simp

lemma served_frame [simp]:
  "sv_served (close_writer i s) = sv_served s" "sv_served (release_socket i s) = sv_served s"
  "sv_served (set_conn i p s) = sv_served s" "sv_served (finish_conn i s) = sv_served s"
  by (simp_all add: close_writer_def release_socket_def set_conn_def finish_conn_def)

lemma removeAll_shorter: "i \<in> set xs \<Longrightarrow> length (removeAll i xs) < length xs"
  using length_removeAll_less .

lemma removeAll_le: "length (removeAll i xs) \<le> length xs"
  by (simp add: removeAll_filter_not_eq)

lemma tasks_weight_frame [simp]:
  "tasks_weight (close_writer i s) = tasks_weight s" "tasks_weight (release_socket i s) = tasks_weight s"
  by (simp_all add: tasks_weight_def)

lemma internal_decreases:
  "srv_internal L io cfg s s' \<Longrightarrow> sv_closing s \<Longrightarrow> srv_weight s' < srv_weight s"
proof (induction rule: srv_internal.induct)
  case (Acquired s)
  then show ?case by (auto simp: in_startup_def startup_acquired_def srv_weight_def tasks_weight_def live_transports_def)
next
  case (Aborted s opened)
  then show ?case by (auto simp: in_startup_def startup_aborted_def srv_weight_def tasks_weight_def live_transports_def)
next
  case (Serve s)
  then show ?case by (simp add: srv_serve_def srv_weight_def tasks_weight_def live_transports_def)
next
  case (ServeEnds x s)
  then have "length (remove1 x (sv_serving s)) < length (sv_serving s)"
    using length_pos_if_in_set [of x "sv_serving s"] by (simp add: length_remove1)
  then show ?case by (simp add: serve_ends_def srv_weight_def tasks_weight_def live_transports_def)
next
  case (Handle i s cancelled)
  then have "tasks_weight (finish_conn i s) < tasks_weight s" "tasks_weight (finish_conn i (release_socket i (close_writer i s))) < tasks_weight s"
    using tasks_finish [of i s] tasks_finish [of i "release_socket i (close_writer i s)"] by simp_all
  with Handle removeAll_le [of i "sv_open s"] show ?case
    by (cases cancelled) (simp_all add: handle_connection_def srv_weight_def add_less_le_mono)
next
  case (Release s i)
  then show ?case using removeAll_shorter [of i "sv_open s"] by (simp add: session_releases_def srv_weight_def)
next
  case (RunEnds i s)
  then show ?case
    using weight_drop [of "set (sv_conn_tasks s)" i CSessionClosing "sv_conn s"] by (simp add: srv_weight_def tasks_weight_def)
next
  case (SessionClosed i s cancelled)
  then have "tasks_weight (session_closed cancelled i s) < tasks_weight s"
    using weight_drop [of "set (sv_conn_tasks s)" i CLeaving "sv_conn s"]
    by (cases cancelled) (simp_all add: tasks_weight_def session_closed_def leave_conn_def fun_upd_def)
  with removeAll_le [of i "sv_open s"] removeAll_le [of i "sv_sessions s"] show ?case
    by (cases cancelled)
      (simp_all add: srv_weight_def session_closed_def leave_conn_def live_transports_def add_less_le_mono add_le_mono)
next
  case (Left i s)
  then have "tasks_weight (finish_conn i s) < tasks_weight s" by (intro tasks_finish) simp_all
  then show ?case by (simp add: srv_weight_def)
next
  case (Lost i s)
  then show ?case using live_lost [of i s] by (simp add: srv_weight_def transport_lost_def tasks_weight_def)
next
  case (FinalClose i s)
  then show ?case
    using removeAll_shorter [of i "sv_final s"]
    by (simp add: srv_weight_def final_close_def tasks_weight_def live_transports_def)
next
  case (Cleanup s udp_ok)
  then show ?case
    by (cases "sv_cleanup s") (simp_all add: cleanup_ready_def cleanup_next_def srv_weight_def tasks_weight_def live_transports_def)
qed

lemma internal_closing: "srv_internal L io cfg s s' \<Longrightarrow> sv_closing s \<Longrightarrow> sv_closing s'"
  by (induction rule: srv_internal.induct)
    (auto simp: startup_acquired_def startup_aborted_def srv_serve_def conn_defs cleanup_next_def
      split: startup_phase.splits cleanup_phase.splits)

text \<open>As long as the shutdown is not over, something comes by itself.\<close>

lemma handler_driven:
  assumes "conn_inv cfg s" "i \<in> set (sv_conn_tasks s)" "i \<in> set (sv_cancelled s)"
  shows "\<exists>s'. srv_driven L io cfg s s'"
proof (cases "sv_conn s i")
  case CDone
  with assms show ?thesis by (simp add: conn_inv_def)
next
  case CCreated
  then show ?thesis using DHandle [OF assms(2)] by blast
next
  case CRunning
  then show ?thesis using DRunEnds [OF assms(2) _ assms(3)] by blast
next
  case CSessionClosing
  then show ?thesis using DSessionClosed [OF assms(2)] by blast
next
  case CLeaving
  then show ?thesis using DLeft [OF assms(2)] by blast
qed

lemma transport_driven:
  assumes "conn_inv cfg s" "sv_closing s" "\<not> all_lost s"
  shows "\<exists>s'. srv_driven L io cfg s s'"
proof -
  from assms(3) obtain i where i: "i < sv_next_conn s" "i \<notin> set (sv_lost s)" by (auto simp: all_lost_def)
  with assms(1,2) have "i \<in> set (sv_closed_writers s)" by (simp add: conn_inv_def)
  with i show ?thesis by (blast intro: DLost)
qed

lemma driven_possible:
  assumes order: "order_inv s" and conn: "conn_inv cfg s" and closing: "sv_closing s" and busy: "sv_cleanup s \<noteq> KDone"
  shows "\<exists>s'. srv_driven L io cfg s s'"
proof (cases "cleanup_ready s")
  case True
  then show ?thesis by (blast intro: DCleanup)
next
  case False
  show ?thesis
  proof (cases "sv_cleanup s")
    case KJoinStartup
    with False order show ?thesis by (auto simp: cleanup_ready_def order_inv_def intro: DAborted)
  next
    case KJoinServe
    with False have "sv_serving s \<noteq> []" by (simp add: cleanup_ready_def)
    then obtain l c where "(l, c) \<in> set (sv_serving s)" by (metis list.set_intros(1) neq_Nil_conv surj_pair)
    with KJoinServe order have "(l, True) \<in> set (sv_serving s)" by (auto simp: order_inv_def serving_cancelled_def)
    then show ?thesis using transport_driven [OF conn closing] by (cases "all_lost s") (blast intro: DServeEnds)+
  next
    case KWaitClosed
    with False show ?thesis using transport_driven [OF conn closing] by (simp add: cleanup_ready_def)
  next
    case KJoinConnections
    with False order obtain i where "i \<in> set (sv_conn_tasks s)" "i \<in> set (sv_cancelled s)"
      by (cases "sv_conn_tasks s") (auto simp: cleanup_ready_def order_inv_def)
    with conn show ?thesis by (rule handler_driven)
  next
    case KCloseSessions
    with False show ?thesis by (cases "sv_final s") (auto simp: cleanup_ready_def intro!: exI DFinalClose)
  qed (use False busy closing order in \<open>simp_all add: cleanup_ready_def order_inv_def\<close>)
qed

lemma finished_is_clean:
  assumes "order_inv s" "conn_inv cfg s" "log_ok s" "sv_cleanup s = KDone"
  shows "srv_clean s"
proof -
  have "sv_conn s i = CDone" for i using assms by (auto simp: conn_inv_def order_inv_def)
  moreover have "owner_ok (sink_owners (sv_log s) ! sv_owner s)"
    using assms(3) owner_ok_nth by (simp add: log_ok_def)
  ultimately show ?thesis
    using assms by (auto simp: srv_clean_def order_inv_def conn_inv_def log_ok_def owner_ok_def)
qed

lemma closing_shuts_down:
  assumes idem: "\<And>p. canonical io (canonical io p) = canonical io p"
  shows "order_inv s \<Longrightarrow> conn_inv cfg s \<Longrightarrow> log_ok s \<Longrightarrow> sv_closing s \<Longrightarrow> shuts_down L io cfg s"
proof (induction "srv_weight s" arbitrary: s rule: less_induct)
  case less
  show ?case
  proof (cases "sv_cleanup s = KDone")
    case True
    with less show ?thesis by (blast intro: Clean finished_is_clean)
  next
    case False
    with less obtain s1 where s1: "srv_driven L io cfg s s1" using driven_possible by blast
    have "shuts_down L io cfg s'" if "srv_internal L io cfg s s'" for s'
      using that less internal_decreases [OF that] order_internal [OF that] conn_internal [OF that]
        log_internal [OF that _ idem] internal_closing [OF that] by blast
    with s1 show ?thesis by (rule Later)
  qed
qed

text \<open>C23: From every reachable state, a server that is stopped, during start-up, while serving, with
  connections at any point of their handling, shuts down in whatever order its tasks run, and in the end
  no listener, serving task, handler task, session or socket is left, every writer it ever accepted
  is closed, the executor is down and its log sinks are given back. The waits of the cleanup end
  because it has cancelled what it waits for: a start-up, a serving task or a session that is not
  cancelled may go on for ever, and before the server is clean there is always a step that comes by
  itself: a cancelled task that ends, a task that was waiting to run, a closed transport that is lost, or
  the cleanup's own next step. What is taken for granted is that a cancelled start-up and a
  cancelled session give up, that \<open>session.close()\<close> returns, and that a closed transport is lost in
  the end (a peer that takes nothing of what is still unsent can delay that).\<close>

theorem server_shuts_down:
  assumes "\<forall>p. canonical io (canonical io p) = canonical io p" "srv_reachable L io cfg s"
  shows "shuts_down L io cfg (srv_stop s)"
proof -
  have idem: "\<And>p. canonical io (canonical io p) = canonical io p" using assms(1) by simp
  have "srv_reachable L io cfg (srv_stop s)" by (rule srv_reachable.Step [OF assms(2) Stop])
  from srv_reachable_inv [OF this idem] show ?thesis
    by (intro closing_shuts_down idem) (simp_all add: srv_stop_fields)
qed

theorem server_shuts_down_witness:
  "shuts_down sample_lib open_io quiet_config (srv_stop busy_server) \<and> sv_open busy_server = [0]"
  using server_shuts_down [OF _ busy_server_reachable] busy_server_fields by (simp add: open_io_def)

text \<open>A server that has bound its listeners and serves: without the cancellation of its serving tasks nothing would
  end them.\<close>

lemma serving_lasts:
  assumes "sv_cleanup s = KJoinServe" "sv_serving s \<noteq> []" "\<forall>x \<in> set (sv_serving s). \<not> snd x" "all_lost s"
    "sv_conn_tasks s = []" "\<not> in_startup s" "sv_final s = []"
  shows "\<not> srv_driven L io cfg s s'"
proof
  assume "srv_driven L io cfg s s'"
  then show False
    by cases (use assms in \<open>auto simp: cleanup_ready_def all_lost_def\<close>)
qed

text \<open>Later connections, second calls of \<open>start\<close> and \<open>stop\<close> start no task: a connection that still comes is closed
  at once, and its transport is the only thing it adds to what is left.\<close>

lemma external_while_closing:
  assumes "sv_closing s"
  shows "srv_start s = None" "srv_weight (accept_connection s) \<le> srv_weight s + 1"
    "sv_conn_tasks (accept_connection s) = sv_conn_tasks s"
proof -
  have "live_transports (accept_connection s) \<subseteq> insert (sv_next_conn s) (live_transports s)"
    using assms by (auto simp: live_transports_def accept_connection_def Let_def)
  moreover have "finite (live_transports s)" by (simp add: live_transports_def)
  ultimately have "card (live_transports (accept_connection s)) \<le> card (live_transports s) + 1"
    by (metis Suc_eq_plus1 card_mono finite_insert card_insert_if le_SucI)
  then show "srv_weight (accept_connection s) \<le> srv_weight s + 1"
    using assms by (simp add: srv_weight_def accept_connection_def tasks_weight_def Let_def)
qed (use assms in \<open>simp_all add: srv_start_def accept_connection_def Let_def\<close>)

text \<open>The TLS port treats a connection as the plain port does: nothing is encrypted.\<close>

lemma tls_port_plaintext: "handle_connection L io cfg True = handle_connection L io cfg False"
  by (intro ext) (simp add: handle_connection_def run_connection_def do_tls_handshake_def split: option.split)

end
