(* ===== verification/Echo_Props.thy ===== *)
theory Echo_Props
  imports Echo_Ecu
begin

text \<open>
  What every interleaving of the Echo ECU's sessions keeps: well-formed frames only, no diagnostic
  answer before an activation was granted, a registry of activated sockets; and what it does not
  keep, the ownership of a tester address across an eviction.
\<close>

section \<open>Frames that were sent\<close>

definition sent :: "int \<Rightarrow> bytes \<Rightarrow> bytes \<Rightarrow> bool" where
  "sent pt pl f \<longleftrightarrow> frame_args_ok pt pl 2 \<and> f = doip_header 2 pt (int (length pl)) @ pl"

definition echo_types :: "int set" where
  "echo_types = {PT_HEADER_NACK, PT_ROUTING_ACT_RESPONSE, PT_ALIVE_CHECK_REQUEST, PT_ALIVE_CHECK_RESPONSE,
     PT_ENTITY_STATUS_RESPONSE, PT_POWER_MODE_RESPONSE, PT_DIAGNOSTIC_MESSAGE, PT_DIAGNOSTIC_POSITIVE_ACK}"

definition diag_types :: "int set" where
  "diag_types = {PT_DIAGNOSTIC_MESSAGE, PT_DIAGNOSTIC_POSITIVE_ACK}"

text \<open>A Routing Activation Response with the code for success.\<close>

definition grant :: "bytes \<Rightarrow> bool" where
  "grant f \<longleftrightarrow> (\<exists>pl. sent PT_ROUTING_ACT_RESPONSE pl f \<and> length pl = 13 \<and> pl ! 4 = 0x10)"

lemma sent_iff: "echo_build pt pl VER = Inr f \<longleftrightarrow> sent pt pl f"
  by (simp add: sent_def echo_codec.build_Inr_iff VER_def)

lemma sent_types: "sent pt pl f \<Longrightarrow> sent pt' pl' f \<Longrightarrow> pt = pt'"
  using echo_codec.build_inject by (metis sent_iff)

text \<open>Every frame is a well-formed one, and a diagnostic frame comes after a grant.\<close>

definition trace_ok :: "bytes list \<Rightarrow> bool" where
  "trace_ok out \<longleftrightarrow>
     (\<forall>xs f ys. out = xs @ f # ys \<longrightarrow>
        (\<exists>pt pl. sent pt pl f \<and> pt \<in> echo_types \<and> (pt \<in> diag_types \<longrightarrow> (\<exists>g \<in> set xs. grant g))))"

lemma trace_ok_Nil: "trace_ok []"
  by (simp add: trace_ok_def)

lemma trace_ok_snoc:
  "trace_ok (out @ [f]) \<longleftrightarrow>
     trace_ok out \<and> (\<exists>pt pl. sent pt pl f \<and> pt \<in> echo_types \<and> (pt \<in> diag_types \<longrightarrow> (\<exists>g \<in> set out. grant g)))"
  (is "?l \<longleftrightarrow> trace_ok out \<and> ?f")
proof
  assume l: ?l
  have "trace_ok out"
    unfolding trace_ok_def
  proof (intro allI impI)
    fix xs g ys assume "out = xs @ g # ys"
    then have "out @ [f] = xs @ g # (ys @ [f])" by simp
    with l show "\<exists>pt pl. sent pt pl g \<and> pt \<in> echo_types \<and> (pt \<in> diag_types \<longrightarrow> (\<exists>g \<in> set xs. grant g))"
      unfolding trace_ok_def by blast
  qed
  moreover from l have ?f unfolding trace_ok_def by blast
  ultimately show "trace_ok out \<and> ?f" ..
next
  assume r: "trace_ok out \<and> ?f"
  show ?l
    unfolding trace_ok_def
  proof (intro allI impI)
    fix xs g ys assume "out @ [f] = xs @ g # ys"
    with r show "\<exists>pt pl. sent pt pl g \<and> pt \<in> echo_types \<and> (pt \<in> diag_types \<longrightarrow> (\<exists>g \<in> set xs. grant g))"
      by (cases ys rule: rev_cases) (auto simp: trace_ok_def)
  qed
qed

section \<open>The invariant\<close>

definition echo_conn_ok :: "echo_conn \<Rightarrow> bool" where
  "echo_conn_ok c \<longleftrightarrow>
     trace_ok (ec_out c) \<and> (ec_activated c \<and> \<not> ec_lost c \<longrightarrow> (\<exists>g \<in> set (ec_out c). grant g))
     \<and> (ec_activated c \<longleftrightarrow> ec_tester c \<noteq> None)"

definition echo_inv :: "echo_world \<Rightarrow> bool" where
  "echo_inv w \<longleftrightarrow>
     (\<forall>i. echo_conn_ok (ew_conns w i))
     \<and> (\<forall>a i. echo_lookup (ew_registry w) a = Some i \<longrightarrow> ec_activated (ew_conns w i))"

lemma echo_lookup_unregister: "echo_lookup (echo_unregister a rg) b = (if b = a then None else echo_lookup rg b)"
  by (simp add: echo_lookup_def echo_unregister_def delete_conv')

lemma echo_lookup_register: "echo_lookup (echo_register a i rg) b = (if b = a then Some i else echo_lookup rg b)"
  by (simp add: echo_lookup_def echo_register_def update_conv')

lemma upd_echo_simps [simp]:
  "ew_conns (upd_echo i f w) = (ew_conns w)(i := f (ew_conns w i))" "ew_next (upd_echo i f w) = ew_next w"
  "ew_registry (upd_echo i f w) = ew_registry w" "ew_set (upd_echo i f w) = ew_set w"
  "ew_next_event (upd_echo i f w) = ew_next_event w"
  by (simp_all add: upd_echo_def)

text \<open>Changes that the invariant does not see, and a loss of the connection.\<close>

lemma echo_inv_upd:
  assumes "echo_inv w" "\<And>c. echo_conn_ok c \<Longrightarrow> echo_conn_ok (f c)" "\<And>c. ec_activated c \<Longrightarrow> ec_activated (f c)"
  shows "echo_inv (upd_echo i f w)"
  using assms by (auto simp: echo_inv_def)

lemma echo_inv_lost: "echo_inv w \<Longrightarrow> echo_inv (upd_echo i (\<lambda>c. c\<lparr>ec_phase := p c, ec_lost := True\<rparr>) w)"
  by (erule echo_inv_upd) (auto simp: echo_conn_ok_def)

lemma echo_inv_close: "echo_inv w \<Longrightarrow> echo_inv (echo_close i w)"
  unfolding echo_close_def by (erule echo_inv_lost)

lemma echo_inv_unregister: "echo_inv w \<Longrightarrow> echo_inv (echo_unregister_own i w)"
  by (auto simp: echo_inv_def echo_unregister_own_def echo_lookup_unregister split: option.split if_splits)

lemma echo_inv_evict: "echo_inv w \<Longrightarrow> echo_inv (echo_evict j w)"
  unfolding echo_evict_def by (intro echo_inv_unregister, erule echo_inv_upd) (auto simp: echo_conn_ok_def)

lemma echo_inv_send:
  assumes "echo_inv w" "sent pt pl f" "pt \<in> echo_types" "pt \<in> diag_types \<Longrightarrow> ec_activated (ew_conns w i)"
  shows "echo_inv (snd (echo_send i f w))"
proof (cases "ec_lost (ew_conns w i)")
  case True
  with assms(1) show ?thesis by (simp add: echo_send_def)
next
  case False
  have c: "echo_conn_ok (ew_conns w i)" using assms(1) by (simp add: echo_inv_def)
  then have "echo_conn_ok ((ew_conns w i)\<lparr>ec_out := ec_out (ew_conns w i) @ [f]\<rparr>)"
    using assms(2-4) False by (auto simp: echo_conn_ok_def trace_ok_snoc)
  with assms(1) False show ?thesis
    by (auto simp: echo_send_def echo_inv_def)
qed

section \<open>Handlers\<close>

text \<open>\<open>settles i m\<close>: the task of session \<open>i\<close> that runs \<open>m\<close> and, should it raise, closes, keeps the invariant.\<close>

definition settles :: "nat \<Rightarrow> (echo_world, 'a) py \<Rightarrow> bool" where
  "settles i m \<longleftrightarrow>
     (\<forall>w. echo_inv w \<longrightarrow> (case m w of (Inr _, w') \<Rightarrow> echo_inv w' | (Inl _, w') \<Rightarrow> echo_inv (echo_close i w')))"

named_theorems settles_rules

lemma settlesD:
  "settles i m \<Longrightarrow> echo_inv w \<Longrightarrow> m w = (Inr a, w') \<Longrightarrow> echo_inv w'"
  "settles i m \<Longrightarrow> echo_inv w \<Longrightarrow> m w = (Inl e, w') \<Longrightarrow> echo_inv (echo_close i w')"
  by (fastforce simp: settles_def)+

lemma settles_keeps: "keeps echo_inv m \<Longrightarrow> settles i m"
  by (fastforce simp: settles_def keeps_def echo_inv_close split: prod.split sum.split)

lemma settles_bnd [settles_rules]: "settles i m \<Longrightarrow> (\<And>a. settles i (k a)) \<Longrightarrow> settles i (bnd m k)"
  unfolding settles_def [of i "bnd m k"] bnd_def by (auto split: prod.split sum.split dest: settlesD)

lemma settles_seq [settles_rules]: "settles i m \<Longrightarrow> settles i n \<Longrightarrow> settles i (seq m n)"
  by (simp add: seq_def settles_bnd)

lemma settles_if [settles_rules]:
  "(b \<Longrightarrow> settles i m) \<Longrightarrow> (\<not> b \<Longrightarrow> settles i n) \<Longrightarrow> settles i (if b then m else n)"
  by simp

lemma settles_case_option [settles_rules]:
  "(x = None \<Longrightarrow> settles i m) \<Longrightarrow> (\<And>a. x = Some a \<Longrightarrow> settles i (k a)) \<Longrightarrow>
     settles i (case x of None \<Rightarrow> m | Some a \<Rightarrow> k a)"
  by (cases x) simp_all

lemma settles_basic [settles_rules]:
  "settles i (ret a)" "settles i (raise e)" "settles i (lift r)" "settles i (gets g)"
  by (rule settles_keeps, rule keeps_rules)+

lemma keeps_send_frame:
  "pt \<in> echo_types - diag_types \<Longrightarrow> keeps echo_inv (echo_send_frame i pt pl)"
  by (rule keepsI)
    (auto simp: echo_send_frame_def bnd_def sent_iff split: sum.split intro: echo_inv_send)

lemma settles_send_frame [settles_rules]:
  "settles i (echo_send_frame j PT_HEADER_NACK pl)" "settles i (echo_send_frame j PT_ROUTING_ACT_RESPONSE pl)"
  "settles i (echo_send_frame j PT_ALIVE_CHECK_REQUEST pl)" "settles i (echo_send_frame j PT_ALIVE_CHECK_RESPONSE pl)"
  "settles i (echo_send_frame j PT_ENTITY_STATUS_RESPONSE pl)" "settles i (echo_send_frame j PT_POWER_MODE_RESPONSE pl)"
  by (rule settles_keeps, rule keeps_send_frame, simp add: echo_types_def diag_types_def payload_types)+

lemma settles_modify [settles_rules]:
  "settles i (modify (upd_echo k (\<lambda>c. c\<lparr>ec_phase := p\<rparr>)))" "settles i (modify (echo_probe_end j))"
  "settles i (modify (echo_evict j))" "settles i (modify (echo_alive_response k))"
proof -
  show "settles i (modify (upd_echo k (\<lambda>c. c\<lparr>ec_phase := p\<rparr>)))" "settles i (modify (echo_probe_end j))"
    unfolding echo_probe_end_def
    by (rule settles_keeps, rule keeps_modify, erule echo_inv_upd; simp add: echo_conn_ok_def)+
  show "settles i (modify (echo_evict j))"
    by (rule settles_keeps, rule keeps_modify, rule echo_inv_evict)
  show "settles i (modify (echo_alive_response k))"
    by (rule settles_keeps, rule keeps_modify)
      (simp add: echo_alive_response_def echo_inv_def split: option.split)
qed

lemma settles_probe_begin [settles_rules]: "settles i (echo_probe_begin j)"
proof (rule settles_keeps, rule keepsI)
  fix w assume w: "echo_inv w"
  let ?w = "upd_echo j (\<lambda>c. c\<lparr>ec_event := Some (ew_next_event w), ec_probe_pending := True\<rparr>) (w\<lparr>ew_next_event := ew_next_event w + 1\<rparr>)"
  have "echo_inv (w\<lparr>ew_next_event := ew_next_event w + 1\<rparr>)" using w by (simp add: echo_inv_def)
  then have "echo_inv ?w" by (rule echo_inv_upd) (simp_all add: echo_conn_ok_def)
  then have "echo_inv (snd (echo_send_frame j PT_ALIVE_CHECK_REQUEST [] ?w))"
    by (rule keepsD [OF keeps_send_frame, rotated]) (simp add: echo_types_def diag_types_def payload_types)
  then show "echo_inv (snd (echo_probe_begin j w))"
    by (auto simp: echo_probe_begin_def Let_def split: prod.split sum.split)
qed

text \<open>Accepting: a socket that is told so is activated; where the answer cannot be sent it is closed.\<close>

lemma echo_ra_response_Inr:
  "echo_ra_response P a c = Inr pl \<Longrightarrow> length pl = 13 \<and> pl ! 4 = word_of_int c"
  by (auto simp: echo_ra_response_def ebind_eq_Inr pack_uint_def nth_append split: if_splits)

lemma settles_accept [settles_rules]: "settles i (echo_accept P i a)"
proof -
  have "case echo_accept P i a w of (Inr _, w') \<Rightarrow> echo_inv w' | (Inl _, w') \<Rightarrow> echo_inv (echo_close i w')"
    if w: "echo_inv w" for w
  proof -
    define w1 where "w1 = (upd_echo i (\<lambda>c. c\<lparr>ec_tester := Some a, ec_activated := True\<rparr>) w)
      \<lparr>ew_registry := echo_register a i (ew_registry w)\<rparr>"
    have c: "echo_inv (echo_close i w1)"
      using w by (auto simp: w1_def echo_inv_def echo_close_def echo_conn_ok_def echo_lookup_register split: if_splits)
    have g: "echo_inv (upd_echo i (\<lambda>c. c\<lparr>ec_out := ec_out c @ [f]\<rparr>) w1)"
      if "sent PT_ROUTING_ACT_RESPONSE pl f" "length pl = 13" "pl ! 4 = 0x10" for f pl
    proof -
      from that have "grant f" by (auto simp: grant_def)
      moreover have "PT_ROUTING_ACT_RESPONSE \<in> echo_types" "PT_ROUTING_ACT_RESPONSE \<notin> diag_types"
        by (simp_all add: echo_types_def diag_types_def payload_types)
      ultimately show ?thesis
        using w that
        by (auto simp: w1_def echo_inv_def echo_conn_ok_def echo_lookup_register trace_ok_snoc split: if_splits)
    qed
    have "echo_accept P i a w = bnd (lift (echo_ra_response P a 0x10)) (echo_send_frame i PT_ROUTING_ACT_RESPONSE) w1"
      by (simp add: echo_accept_def w1_def)
    then show ?thesis
      using c g
      by (auto simp: bnd_def echo_send_frame_def echo_send_def sent_iff dest!: echo_ra_response_Inr split: sum.split)
  qed
  then show ?thesis by (simp add: settles_def)
qed

lemma settles_ra: "settles i (echo_handle_ra P i pl)"
  unfolding echo_handle_ra_def
  by (intro settles_rules) (simp add: case_prod_beta settles_rules)

lemma settles_resume: "settles i (echo_ra_resume P i a j alive)"
  unfolding echo_ra_resume_def by (intro settles_rules)

lemma settles_diagnostic: "settles i (echo_handle_diagnostic C config rnd i pl)"
proof -
  let ?Q = "\<lambda>w. echo_inv w \<and> ec_activated (ew_conns w i)"
  have s: "keeps ?Q (echo_send_frame i pt x)" if "pt \<in> diag_types" for pt x
    by (rule keepsI)
      (use that in \<open>auto simp: echo_send_frame_def bnd_def sent_iff echo_types_def diag_types_def split: sum.split intro: echo_inv_send\<close>,
       auto simp: echo_send_def)
  have "keeps ?Q (echo_handle_diagnostic C config rnd i pl)"
    unfolding echo_handle_diagnostic_def Let_def
    by (intro keeps_rules s) (simp_all add: diag_types_def)
  moreover have "echo_handle_diagnostic C config rnd i pl w = (Inr (), w)" if "\<not> ec_activated (ew_conns w i)" for w
    using that by (simp add: echo_handle_diagnostic_def)
  ultimately have "keeps echo_inv (echo_handle_diagnostic C config rnd i pl)"
    unfolding keeps_def by (metis snd_conv)
  then show ?thesis by (rule settles_keeps)
qed

lemma settles_dispatch: "settles i (echo_dispatch C config P rnd i fr)"
  unfolding echo_dispatch_def Let_def echo_handle_alive_check_def echo_handle_entity_status_def echo_handle_power_mode_def
  by (intro settles_rules settles_ra settles_diagnostic)

section \<open>Reachable states\<close>

lemma echo_inv_step: "echo_step C config P w w' \<Longrightarrow> echo_inv w \<Longrightarrow> echo_inv w'"
proof (induction rule: echo_step.induct)
  case (frame i w fr rest rnd)
  have "echo_inv (upd_echo i (\<lambda>c. c\<lparr>ec_in := rest\<rparr>) w)"
    using frame.prems by (rule echo_inv_upd) (simp_all add: echo_conn_ok_def)
  with settles_dispatch [of i C config P rnd fr] show ?case
    by (auto simp: echo_turn_def split: prod.splits sum.splits bool.splits intro: echo_inv_close dest: settlesD)
next
  case (probed i w a j e failed alive)
  have "echo_inv (upd_echo i (\<lambda>c. c\<lparr>ec_phase := Reading\<rparr>) w)"
    using probed.prems by (rule echo_inv_upd) (simp_all add: echo_conn_ok_def)
  with settles_resume [of i P a j alive] show ?case
    by (auto simp: echo_wake_def split: prod.splits sum.splits dest: settlesD)
next
  case (finish i w)
  then show ?case
    unfolding echo_finish_def by (intro echo_inv_upd [OF echo_inv_unregister]) (simp_all add: echo_conn_ok_def)
next
  case (connect w)
  then show ?case by (simp add: echo_inv_def)
next
  case (stream_end i w e rest)
  then show ?case by (intro echo_inv_close)
qed (erule echo_inv_upd; simp add: echo_conn_ok_def)+

lemma echo_inv_new: "echo_inv new_echo_world"
  by (simp add: echo_inv_def new_echo_world_def echo_conn_ok_def new_echo_conn_def trace_ok_Nil echo_lookup_def)

lemma echo_reachable_inv: "echo_reachable C config P w \<Longrightarrow> echo_inv w"
  unfolding echo_reachable_def by (induction rule: rtranclp_induct) (auto intro: echo_inv_new echo_inv_step)

section \<open>Conflict resolution on concrete frames\<close>

definition activation_request :: "int \<Rightarrow> bytes" where
  "activation_request a = doip_header 2 PT_ROUTING_ACT_REQUEST 7 @ int_be 2 a @ [0, 0, 0, 0, 0]"

definition ra_answer :: "echo_params \<Rightarrow> int \<Rightarrow> int \<Rightarrow> bytes" where
  "ra_answer P a code =
     doip_header 2 PT_ROUTING_ACT_RESPONSE 13 @ int_be 2 a @ int_be 2 (p_ecu_addr P) @ [word_of_int code] @ replicate 8 0"

lemma echo_read_frame_unbounded: "echo_read_frame = read_frame None"
  by (simp add: echo_read_frame_def read_frame_def)

lemma ra_request_built: "echo_build PT_ROUTING_ACT_REQUEST (int_be 2 a @ [0, 0, 0, 0, 0]) 2 = Inr (activation_request a)"
  by (simp add: echo_codec.build_Inr_iff activation_request_def frame_args_ok_def payload_types)

lemma ra_answer_sent:
  assumes "0 \<le> a" "a < 65536" "0 \<le> p_ecu_addr P" "p_ecu_addr P < 65536" "0 \<le> code" "code < 256"
  shows "bnd (lift (echo_ra_response P a code)) (echo_send_frame i PT_ROUTING_ACT_RESPONSE) = echo_send i (ra_answer P a code)"
proof -
  have "echo_ra_response P a code = Inr (int_be 2 a @ int_be 2 (p_ecu_addr P) @ [word_of_int code] @ replicate 8 0)"
    using assms by (simp add: echo_ra_response_def pack_uint_def numeral_eq_Suc)
  moreover have "echo_build PT_ROUTING_ACT_RESPONSE (int_be 2 a @ int_be 2 (p_ecu_addr P) @ [word_of_int code] @ replicate 8 0) VER
      = Inr (ra_answer P a code)"
    by (simp add: echo_codec.build_Inr_iff ra_answer_def frame_args_ok_def payload_types VER_def)
  ultimately show ?thesis by (simp add: echo_send_frame_def)
qed

text \<open>Activation of a socket, with its answer.\<close>

definition granted :: "echo_params \<Rightarrow> nat \<Rightarrow> int \<Rightarrow> echo_world \<Rightarrow> echo_world" where
  "granted P i a w =
     upd_echo i (\<lambda>c. c\<lparr>ec_tester := Some a, ec_activated := True, ec_out := ec_out c @ [ra_answer P a 0x10]\<rparr>)
       (w\<lparr>ew_registry := echo_register a i (ew_registry w)\<rparr>)"

lemma echo_accept_open:
  assumes "0 \<le> a" "a < 65536" "0 \<le> p_ecu_addr P" "p_ecu_addr P < 65536" "\<not> ec_lost (ew_conns w i)"
  shows "echo_accept P i a w = (Inr (), granted P i a w)"
proof -
  have "bnd (lift (echo_ra_response P a 0x10)) (echo_send_frame i PT_ROUTING_ACT_RESPONSE) = echo_send i (ra_answer P a 0x10)"
    by (rule ra_answer_sent) (use assms in simp_all)
  with assms(5) show ?thesis by (simp add: echo_accept_def echo_send_def granted_def upd_echo_def)
qed

lemma echo_turn_ra:
  "echo_turn C config P rnd i (activation_request a) w =
     (case echo_handle_ra P i (int_be 2 a @ [0, 0, 0, 0, 0]) w of (Inr _, w') \<Rightarrow> w' | (Inl _, w') \<Rightarrow> echo_close i w')"
proof -
  have "echo_ptype (activation_request a) = Inr PT_ROUTING_ACT_REQUEST"
    using echo_codec.ptype_of_built [OF ra_request_built] by (simp add: echo_ptype_def frame_ptype_def)
  moreover have "echo_payload (activation_request a) = int_be 2 a @ [0, 0, 0, 0, 0]"
    using echo_codec.payload_of_built [OF ra_request_built] by (simp add: echo_payload_def frame_payload_def)
  moreover have "py_index (activation_request a) 0 = Inr 2" "py_index (activation_request a) 1 = Inr 0xFD"
    by (simp_all add: py_index_def activation_request_def doip_header_def)
  ultimately show ?thesis
    by (simp add: echo_turn_def echo_dispatch_def seq_def bnd_def split: prod.split sum.split)
qed

text \<open>One step of a session that has such a request before it: granted where nobody holds the address;
  otherwise the holder is probed; and the outcome of the probe.\<close>

definition idle :: "nat \<Rightarrow> echo_world \<Rightarrow> bool" where
  "idle i w \<longleftrightarrow> i < ew_next w \<and> ec_phase (ew_conns w i) = Reading \<and> \<not> ec_lost (ew_conns w i) \<and> \<not> ec_eof (ew_conns w i)
     \<and> ec_in (ew_conns w i) = []"

definition probing :: "nat \<Rightarrow> int \<Rightarrow> nat \<Rightarrow> echo_world \<Rightarrow> echo_world" where
  "probing i a j w =
     (let e = ew_next_event w in
      upd_echo i (\<lambda>c. c\<lparr>ec_phase := Probing a j e False\<rparr>)
       (upd_echo j (\<lambda>c. c\<lparr>ec_event := Some e, ec_probe_pending := True, ec_out := ec_out c @ [[2, 0xFD, 0, 7, 0, 0, 0, 0]]\<rparr>)
         (w\<lparr>ew_next_event := e + 1\<rparr>)))"

lemma upd_echo_feed:
  "ec_in (ew_conns w i) = [] \<Longrightarrow> upd_echo i (\<lambda>c. c\<lparr>ec_in := []\<rparr>) (upd_echo i (\<lambda>c. c\<lparr>ec_in := ec_in c @ bs\<rparr>) w) = w"
proof -
  assume "ec_in (ew_conns w i) = []"
  then have "(ew_conns w i)\<lparr>ec_in := []\<rparr> = ew_conns w i" by (cases "ew_conns w i") simp
  then show ?thesis by (simp add: upd_echo_def)
qed

lemma ra_address: "0 \<le> a \<Longrightarrow> a < 65536 \<Longrightarrow> unpack_H (py_slice 0 2 (int_be 2 a)) = Inr a"
  using py_slice_all [of "int_be 2 a"] by simp

lemma frame_reachable:
  assumes r: "echo_reachable C config P w" and i: "idle i w" and b: "echo_build pt pl 2 = Inr fr"
  shows "echo_reachable C config P (echo_turn C config P [0, 0, 0, 0] i fr w)"
proof -
  let ?w = "upd_echo i (\<lambda>c. c\<lparr>ec_in := ec_in c @ fr\<rparr>) w"
  have "read_frame None (fr @ []) = (Inr fr, [])" by (rule echo_codec.read_built [OF b]) simp
  then have "echo_read_frame fr = (Inr fr, [])" by (simp add: echo_read_frame_unbounded)
  then have "echo_step C config P ?w (echo_turn C config P [0, 0, 0, 0] i fr (upd_echo i (\<lambda>c. c\<lparr>ec_in := []\<rparr>) ?w))"
    using i by (intro echo_step.frame) (simp_all add: idle_def)
  moreover have "echo_step C config P w ?w" using i by (intro echo_step.feed) (simp_all add: idle_def)
  moreover have "upd_echo i (\<lambda>c. c\<lparr>ec_in := []\<rparr>) ?w = w" using i by (intro upd_echo_feed) (simp add: idle_def)
  ultimately show ?thesis using r by (simp add: echo_reachable_def)
qed

lemmas ra_turn_reachable = frame_reachable [OF _ _ ra_request_built]

lemma grant_reachable:
  assumes "echo_reachable C config P w" "idle i w" "0 \<le> a" "a < 65536" "0 \<le> p_ecu_addr P" "p_ecu_addr P < 65536"
    "echo_lookup (ew_registry w) a = None"
  shows "echo_reachable C config P (granted P i a w)"
proof -
  have "\<not> ec_lost (ew_conns w i)" using assms(2) by (simp add: idle_def)
  then have "echo_turn C config P [0, 0, 0, 0] i (activation_request a) w = granted P i a w"
    using assms by (simp add: echo_turn_ra echo_handle_ra_def ra_address echo_accept_open)
  with ra_turn_reachable [OF assms(1,2), of a] show ?thesis by simp
qed

lemma probe_frame: "echo_build PT_ALIVE_CHECK_REQUEST [] VER = Inr [2, 0xFD, 0, 7, 0, 0, 0, 0]"
  by code_simp

lemma probe_reachable:
  assumes "echo_reachable C config P w" "idle i w" "0 \<le> a" "a < 65536"
    "echo_lookup (ew_registry w) a = Some j" "j \<noteq> i" "\<not> ec_lost (ew_conns w j)"
  shows "echo_reachable C config P (probing i a j w)"
proof -
  have "echo_turn C config P [0, 0, 0, 0] i (activation_request a) w = probing i a j w"
    using assms
    by (simp add: echo_turn_ra echo_handle_ra_def ra_address echo_probe_begin_def echo_send_frame_def echo_send_def probe_frame bnd_def
        probing_def Let_def upd_echo_def)
  with ra_turn_reachable [OF assms(1,2), of a] show ?thesis by simp
qed

lemma timeout_reachable:
  assumes "echo_reachable C config P w" "i < ew_next w" "ec_phase (ew_conns w i) = Probing a j e failed"
    "e \<notin> set (ew_set w)" "0 \<le> a" "a < 65536" "0 \<le> p_ecu_addr P" "p_ecu_addr P < 65536" "i \<noteq> j" "\<not> ec_lost (ew_conns w i)"
  shows "echo_reachable C config P
    (granted P i a (echo_evict j (echo_probe_end j (upd_echo i (\<lambda>c. c\<lparr>ec_phase := Reading\<rparr>) w))))"
proof -
  let ?w = "echo_evict j (echo_probe_end j (upd_echo i (\<lambda>c. c\<lparr>ec_phase := Reading\<rparr>) w))"
  have "\<not> ec_lost (ew_conns ?w i)"
    using assms(9,10) by (simp add: echo_evict_def echo_unregister_own_def echo_probe_end_def split: option.split)
  then have "echo_wake P i a j False w = granted P i a ?w"
    using assms by (simp add: echo_wake_def echo_ra_resume_def echo_accept_open)
  moreover have "echo_step C config P w (echo_wake P i a j False w)"
    using assms by (intro echo_step.probed) auto
  ultimately show ?thesis using assms(1) by (simp add: echo_reachable_def)
qed

lemma end_reachable:
  assumes "echo_reachable C config P w" "i < ew_next w" "ec_phase (ew_conns w i) = Reading" "ec_lost (ew_conns w i)"
  shows "echo_reachable C config P (echo_finish i (echo_close i w))"
proof -
  have "echo_step C config P w (echo_close i w)" using assms by (intro echo_step.stream_end [where e = IncompleteReadError]) auto
  moreover have "echo_step C config P (echo_close i w) (echo_finish i (echo_close i w))"
    using assms by (intro echo_step.finish) (simp_all add: echo_close_def)
  ultimately show ?thesis using assms(1) by (simp add: echo_reachable_def)
qed

lemma connect_reachable: "echo_reachable C config P w \<Longrightarrow> echo_reachable C config P (w\<lparr>ew_next := ew_next w + 1\<rparr>)"
  unfolding echo_reachable_def by (rule rtranclp.rtrancl_into_rtrancl, assumption, rule echo_step.connect)

text \<open>A socket that holds an address: open, reading, activated for it.\<close>

definition holds_address :: "echo_world \<Rightarrow> nat \<Rightarrow> int \<Rightarrow> bool" where
  "holds_address w i a \<longleftrightarrow>
     i < ew_next w \<and> ec_phase (ew_conns w i) = Reading \<and> \<not> ec_lost (ew_conns w i) \<and> \<not> ec_eof (ew_conns w i)
     \<and> ec_activated (ew_conns w i) \<and> ec_tester (ew_conns w i) = Some a"

text \<open>A silent holder is replaced: socket 0 is evicted, socket 1 holds the address, the task of socket 0 is
  still to end, and socket 2 is connected.\<close>

lemma silent_holder_replaced:
  assumes a: "0 \<le> a" "a < 65536" and p: "0 \<le> p_ecu_addr P" "p_ecu_addr P < 65536"
  shows "\<exists>w d0. echo_reachable C config P w \<and> ew_next w = 3
    \<and> ew_conns w = (\<lambda>i. new_echo_conn)(0 := d0, 1 := new_echo_conn\<lparr>ec_tester := Some a, ec_activated := True, ec_out := [ra_answer P a 0x10]\<rparr>)
    \<and> ec_tester d0 = Some a \<and> ec_phase d0 = Reading \<and> ec_lost d0"
proof -
  define w1 where "w1 = new_echo_world\<lparr>ew_next := 1\<rparr>\<lparr>ew_next := 2\<rparr>\<lparr>ew_next := 3\<rparr>"
  have r1: "echo_reachable C config P w1"
    using connect_reachable [OF connect_reachable [OF connect_reachable [of C config P new_echo_world]]]
    by (simp add: w1_def echo_reachable_def new_echo_world_def numeral_eq_Suc)
  have f1: "ew_conns w1 = (\<lambda>i. new_echo_conn)" "ew_next w1 = 3" "echo_lookup (ew_registry w1) a = None"
    "ew_set w1 = []" "ew_next_event w1 = 0"
    by (simp_all add: w1_def new_echo_world_def echo_lookup_def)
  define w2 where "w2 = granted P 0 a w1"
  have r2: "echo_reachable C config P w2"
    unfolding w2_def by (rule grant_reachable [OF r1 _ a p]) (simp_all add: f1 idle_def new_echo_conn_def)
  define c0 where "c0 = new_echo_conn\<lparr>ec_tester := Some a, ec_activated := True, ec_out := [ra_answer P a 0x10]\<rparr>"
  have f2: "ew_conns w2 = (\<lambda>i. new_echo_conn)(0 := c0)" "ew_next w2 = 3" "echo_lookup (ew_registry w2) a = Some 0"
    "ew_set w2 = []" "ew_next_event w2 = 0"
    by (simp_all add: w2_def granted_def f1 c0_def echo_lookup_register new_echo_conn_def)
  define w3 where "w3 = probing 1 a 0 w2"
  have r3: "echo_reachable C config P w3"
    unfolding w3_def by (rule probe_reachable [OF r2 _ a]) (simp_all add: f2 c0_def idle_def new_echo_conn_def)
  define c0' where "c0' = c0\<lparr>ec_event := Some 0, ec_probe_pending := True, ec_out := ec_out c0 @ [[2, 0xFD, 0, 7, 0, 0, 0, 0]]\<rparr>"
  have f3: "ew_conns w3 = (\<lambda>i. new_echo_conn)(0 := c0', 1 := new_echo_conn\<lparr>ec_phase := Probing a 0 0 False\<rparr>)" "ew_next w3 = 3"
    "ew_set w3 = []"
    by (simp_all add: w3_def probing_def f2 c0'_def)
  define w4 where "w4 = granted P 1 a (echo_evict 0 (echo_probe_end 0 (upd_echo 1 (\<lambda>c. c\<lparr>ec_phase := Reading\<rparr>) w3)))"
  have r4: "echo_reachable C config P w4"
    unfolding w4_def
    by (rule timeout_reachable [OF r3 _ _ _ a p, where e = 0 and failed = False]) (simp_all add: f3 new_echo_conn_def)
  define d0 where "d0 = c0'\<lparr>ec_probe_pending := False, ec_event := None, ec_lost := True, ec_eof := True\<rparr>"
  have d0: "ec_tester d0 = Some a" "ec_phase d0 = Reading" "ec_lost d0"
    by (simp_all add: d0_def c0'_def c0_def new_echo_conn_def)
  have f4: "ew_conns w4 = (\<lambda>i. new_echo_conn)(0 := d0, 1 := c0)" "ew_next w4 = 3"
    by (simp_all add: w4_def granted_def echo_evict_def echo_probe_end_def echo_unregister_own_def f3 c0_def c0'_def d0_def
        new_echo_conn_def fun_eq_iff)
  from r4 f4 d0 show ?thesis unfolding c0_def by blast
qed

text \<open>the late cleanup of an evicted socket frees the address of its successor. A silent socket is
  evicted in favour of a second one; when the task of the first ends, it unregisters the address once
  more, by number only; a third socket that asks for the same address is then granted it without any
  Alive Check, so two open sockets hold one address.\<close>

theorem echo_eviction_frees_successor:
  assumes a: "0 \<le> a" "a < 65536" and p: "0 \<le> p_ecu_addr P" "p_ecu_addr P < 65536"
  shows "\<exists>w. echo_reachable C config P w \<and> holds_address w 1 a \<and> holds_address w 2 a
    \<and> ec_out (ew_conns w 1) = [ra_answer P a 0x10]"
proof -
  obtain w4 d0 where r4: "echo_reachable C config P w4" "ew_next w4 = 3"
    and f4: "ew_conns w4 = (\<lambda>i. new_echo_conn)(0 := d0, 1 := new_echo_conn\<lparr>ec_tester := Some a, ec_activated := True, ec_out := [ra_answer P a 0x10]\<rparr>)"
    and d0: "ec_tester d0 = Some a" "ec_phase d0 = Reading" "ec_lost d0"
    using silent_holder_replaced [OF a p, of C config] by blast
  define w5 where "w5 = echo_finish 0 (echo_close 0 w4)"
  have r5: "echo_reachable C config P w5"
    unfolding w5_def by (rule end_reachable [OF r4(1)]) (simp_all add: f4 d0 r4)
  have f5: "ew_conns w5 (Suc 0) = new_echo_conn\<lparr>ec_tester := Some a, ec_activated := True, ec_out := [ra_answer P a 0x10]\<rparr>" "ew_conns w5 2 = new_echo_conn" "ew_next w5 = 3" "echo_lookup (ew_registry w5) a = None"
    by (simp_all add: w5_def echo_finish_def echo_close_def echo_unregister_own_def f4 r4 d0 echo_lookup_unregister)
  have "echo_reachable C config P (granted P 2 a w5)"
    by (rule grant_reachable [OF r5 _ a p]) (simp_all add: f5 idle_def new_echo_conn_def)
  moreover have "holds_address (granted P 2 a w5) 1 a" "holds_address (granted P 2 a w5) 2 a"
    "ec_out (ew_conns (granted P 2 a w5) 1) = [ra_answer P a 0x10]"
    by (simp_all add: holds_address_def granted_def f5 new_echo_conn_def)
  ultimately show ?thesis by blast
qed

definition ex_conv :: py_conv where
  "ex_conv = \<lparr>conv_str = (\<lambda>v. []), conv_int = (\<lambda>v. Inl TypeError)\<rparr>"

definition ex_params :: echo_params where
  "ex_params = \<lparr>p_ecu_addr = 2, p_node_type = 1, p_power_mode = 1, p_max_data = 4096\<rparr>"

theorem echo_eviction_frees_successor_witness:
  "\<exists>w. echo_reachable ex_conv [] ex_params w \<and> holds_address w 1 0x0E80 \<and> holds_address w 2 0x0E80"
  using echo_eviction_frees_successor [of "0x0E80" ex_params ex_conv "[]"] by (auto simp: ex_params_def)

section \<open>Diagnostic messages\<close>

definition diag_request :: "int \<Rightarrow> int \<Rightarrow> bytes \<Rightarrow> bytes" where
  "diag_request src tgt req =
     doip_header 2 PT_DIAGNOSTIC_MESSAGE (int (length req) + 4) @ int_be 2 src @ int_be 2 tgt @ req"

definition echo_ack :: "int \<Rightarrow> int \<Rightarrow> bytes" where
  "echo_ack src tgt = doip_header 2 PT_DIAGNOSTIC_POSITIVE_ACK 5 @ int_be 2 src @ int_be 2 tgt @ [0]"

lemma diag_request_built:
  "int (length req) + 4 < 2 ^ 32 \<Longrightarrow>
     echo_build PT_DIAGNOSTIC_MESSAGE (int_be 2 src @ int_be 2 tgt @ req) 2 = Inr (diag_request src tgt req)"
  by (simp add: echo_codec.build_Inr_iff diag_request_def frame_args_ok_def payload_types add.commute)

text \<open>An activated, open session acknowledges a request and answers it, in this order and with two frames.\<close>

lemma echo_diagnostic_open:
  assumes "0 \<le> src" "src < 65536" "0 \<le> tgt" "tgt < 65536"
    and c: "ec_activated (ew_conns w i)" "\<not> ec_lost (ew_conns w i)"
    and resp: "echo_uds_response C config rnd req = Inr resp" and len: "int (length resp) + 4 < 2 ^ 32"
  shows "echo_handle_diagnostic C config rnd i (int_be 2 src @ int_be 2 tgt @ req) w =
    (Inr (), upd_echo i (\<lambda>c. c\<lparr>ec_out := ec_out c @ [echo_ack src tgt, diag_request tgt src resp]\<rparr>) w)"
proof -
  have sl: "py_slice 0 2 (int_be 2 src @ int_be 2 tgt @ req) = int_be 2 src"
    "py_slice 2 4 (int_be 2 src @ int_be 2 tgt @ req) = int_be 2 tgt"
    by (simp_all add: py_slice_def)
  have ack: "echo_build PT_DIAGNOSTIC_POSITIVE_ACK (int_be 2 src @ int_be 2 tgt @ [0]) VER = Inr (echo_ack src tgt)"
    by (simp add: echo_codec.build_Inr_iff echo_ack_def frame_args_ok_def payload_types VER_def)
  show ?thesis
    using assms diag_request_built [OF len, of tgt src] ack
    by (simp add: echo_handle_diagnostic_def sl pack_uint_def echo_send_frame_def echo_send_def VER_def seq_def bnd_def upd_echo_def)
qed

lemma echo_turn_diag:
  assumes "int (length req) + 4 < 2 ^ 32"
  shows "echo_turn C config P rnd i (diag_request src tgt req) w =
     (case echo_handle_diagnostic C config rnd i (int_be 2 src @ int_be 2 tgt @ req) w of
        (Inr _, w') \<Rightarrow> w' | (Inl _, w') \<Rightarrow> echo_close i w')"
proof -
  note b = diag_request_built [OF assms, of src tgt]
  have "echo_ptype (diag_request src tgt req) = Inr PT_DIAGNOSTIC_MESSAGE"
    using echo_codec.ptype_of_built [OF b] by (simp add: echo_ptype_def frame_ptype_def)
  moreover have "echo_payload (diag_request src tgt req) = int_be 2 src @ int_be 2 tgt @ req"
    using echo_codec.payload_of_built [OF b] by (simp add: echo_payload_def frame_payload_def)
  moreover have "py_index (diag_request src tgt req) 0 = Inr 2" "py_index (diag_request src tgt req) 1 = Inr 0xFD"
    by (simp_all add: py_index_def diag_request_def doip_header_def)
  ultimately show ?thesis
    by (simp add: echo_turn_def echo_dispatch_def payload_types seq_def bnd_def split: prod.split sum.split)
qed

text \<open>C19: in every state the server can reach, whatever the peers send and however the sessions interleave,
  every frame on a socket is a well-formed version 2 frame of one of eight payload types, a diagnostic
  acknowledgement or answer is only ever sent after a granted Routing Activation on the same
  socket, and the registry only names activated sockets.\<close>

theorem echo_reachable_safe:
  assumes "echo_reachable C config P w"
  shows "trace_ok (ec_out (ew_conns w i))
    \<and> (echo_lookup (ew_registry w) a = Some j \<longrightarrow> ec_activated (ew_conns w j))"
  using echo_reachable_inv [OF assms] by (auto simp: echo_inv_def echo_conn_ok_def)

text \<open>A socket that was granted an address and got one request answered.\<close>

theorem echo_reachable_safe_witness:
  "\<exists>w. echo_reachable ex_conv [] ex_params w
    \<and> length (ec_out (ew_conns w 0)) = 3 \<and> trace_ok (ec_out (ew_conns w 0))"
proof -
  define w1 where "w1 = new_echo_world\<lparr>ew_next := 1\<rparr>"
  have r1: "echo_reachable ex_conv [] ex_params w1"
    using connect_reachable [of ex_conv "[]" ex_params new_echo_world] by (simp add: w1_def echo_reachable_def new_echo_world_def)
  define w2 where "w2 = granted ex_params 0 0x0E80 w1"
  have r2: "echo_reachable ex_conv [] ex_params w2"
    unfolding w2_def
    by (rule grant_reachable [OF r1]) (simp_all add: ex_params_def w1_def new_echo_world_def idle_def new_echo_conn_def echo_lookup_def)
  have i2: "idle 0 w2" "ec_activated (ew_conns w2 0)" "length (ec_out (ew_conns w2 0)) = 1"
    by (simp_all add: w2_def granted_def idle_def w1_def new_echo_world_def new_echo_conn_def)
  have d: "echo_handle_diagnostic ex_conv [] [0, 0, 0, 0] 0 (int_be 2 0x0E80 @ int_be 2 2 @ [0x3E, 0]) w2 =
      (Inr (), upd_echo 0 (\<lambda>c. c\<lparr>ec_out := ec_out c @ [echo_ack 0x0E80 2, diag_request 2 0x0E80 [0x7E, 0, 0, 0, 0, 0]]\<rparr>) w2)"
    by (rule echo_diagnostic_open) (use i2 in \<open>simp_all add: idle_def echo_uds_response_def\<close>)
  have "echo_reachable ex_conv [] ex_params (echo_turn ex_conv [] ex_params [0, 0, 0, 0] 0 (diag_request 0x0E80 2 [0x3E, 0]) w2)"
    using frame_reachable [OF r2 i2(1) diag_request_built, of "[0x3E, 0]"] by simp
  then have "echo_reachable ex_conv [] ex_params (upd_echo 0 (\<lambda>c. c\<lparr>ec_out := ec_out c @ [echo_ack 0x0E80 2, diag_request 2 0x0E80 [0x7E, 0, 0, 0, 0, 0]]\<rparr>) w2)"
    by (simp add: echo_turn_diag d del: append.simps)
  then show ?thesis using i2(3) by (intro exI conjI) (assumption, simp, rule conjunct1 [OF echo_reachable_safe])
qed

end
