(* ===== verification/Edge_Exchange_Live.thy ===== *)
theory Edge_Exchange_Live
  imports Edge_Exchange_Props
begin

text \<open>
  The converse of faithfulness: an answer of the ECU that arrives in time is relayed whole, however many
  ResponsePending frames and response timeouts lie in between, and completes the exchange.
\<close>

section \<open>An answer that arrives in time gets through\<close>

text \<open>Frames with their arrival times. Each is to arrive before the deadline of the exchange and, until a
  ResponsePending has been seen, within one response timeout.\<close>

fun timely :: "int \<Rightarrow> int \<Rightarrow> bool \<Rightarrow> int \<Rightarrow> (int \<times> bytes) list \<Rightarrow> bool" where
  "timely rt dl pend now [] = True"
| "timely rt dl pend now ((t, f) # tfs) =
     (now < dl \<and> t < dl \<and> (pend \<or> t \<le> now + rt) \<and> timely rt dl (pend \<or> is_response_pending f) (max now t) tfs)"

text \<open>A session without middleware whose connections to ECUs take what is sent at once.\<close>

definition plain_session :: "'k edge_env \<Rightarrow> 'k edge_session \<Rightarrow> bool" where
  "plain_session env s \<longleftrightarrow> open_session env s \<and> (\<forall>g t. ee_drain env g t = Some 0)"

lemma plain_ex: "plain_session ex_env ex_session"
proof -
  have "ex_env\<lparr>ee_drain := \<lambda>g t. Some 0, ee_close := \<lambda>g t. Some 0\<rparr> = ex_env" by (simp add: ex_env_def)
  with open_ex [of "\<lambda>g t. Some 0" "\<lambda>g t. Some 0"] show ?thesis by (simp add: plain_session_def ex_env_def)
qed

definition awaits :: "nat \<Rightarrow> (int \<times> bytes option) list \<Rightarrow> 'k edge_session \<Rightarrow> bool" where
  "awaits g arr s \<longleftrightarrow> leg_connected (es_legs s g) \<and> leg_queue (es_legs s g) = [] \<and> es_arrivals s g = arr"

lemma recv_arrival:
  assumes "awaits g ((t, Some f) # rest) s" "\<not> e_closing s" "t \<le> es_now s + tmo"
  shows "recv_ecu_frame g tmo s = (Inr (Some f), s\<lparr>es_now := max (es_now s) t, es_arrivals := (es_arrivals s)(g := rest)\<rparr>)"
  using assms by (simp add: recv_ecu_frame_def leg_recv_def awaits_def Let_def)

lemma recv_wait:
  assumes "awaits g ((t, Some f) # rest) s" "\<not> e_closing s" "es_now s + tmo < t"
  shows "recv_ecu_frame g tmo s = (Inr None, s\<lparr>es_now := es_now s + tmo\<rparr>)"
  using assms by (simp add: recv_ecu_frame_def leg_recv_def awaits_def)

text \<open>After a ResponsePending the loop sits through any number of response timeouts.\<close>

lemma exchange_loop_patience:
  assumes rt: "0 < ecu_response_timeout (timers cfg)"
  shows "awaits g ((t, Some f) # rest) s \<Longrightarrow> \<not> e_closing s \<Longrightarrow> es_now s < dl \<Longrightarrow> t < dl \<Longrightarrow>
    \<exists>n. es_now s \<le> n \<and> n \<le> max (es_now s) t \<and> n < dl \<and> t \<le> n + ecu_response_timeout (timers cfg)
      \<and> exchange_loop cfg env g sid req dl acc True s = exchange_loop cfg env g sid req dl acc True (s\<lparr>es_now := n\<rparr>)"
proof (induction "nat (dl - es_now s)" arbitrary: s rule: less_induct)
  case less
  let ?rt = "ecu_response_timeout (timers cfg)"
  show ?case
  proof (cases "t \<le> es_now s + ?rt")
    case True
    with less.prems show ?thesis by (intro exI [of _ "es_now s"]) auto
  next
    case False
    let ?s = "s\<lparr>es_now := es_now s + ?rt\<rparr>"
    have min: "min ?rt (dl - es_now s) = ?rt" using False less.prems by simp
    have step: "exchange_loop cfg env g sid req dl acc True s = exchange_loop cfg env g sid req dl acc True ?s"
      using less.prems False recv_wait [of g t f rest s ?rt] min
      by (subst exchange_loop.simps) (simp add: Let_def)
    have "\<exists>n. es_now ?s \<le> n \<and> n \<le> max (es_now ?s) t \<and> n < dl \<and> t \<le> n + ?rt
      \<and> exchange_loop cfg env g sid req dl acc True ?s = exchange_loop cfg env g sid req dl acc True (?s\<lparr>es_now := n\<rparr>)"
      by (rule less.hyps) (use less.prems False rt in \<open>auto simp: awaits_def\<close>)
    then obtain n where "es_now s + ?rt \<le> n" "n \<le> max (es_now s + ?rt) t" "n < dl" "t \<le> n + ?rt"
      "exchange_loop cfg env g sid req dl acc True ?s = exchange_loop cfg env g sid req dl acc True (s\<lparr>es_now := n\<rparr>)"
      by auto
    with step False rt show ?thesis by (intro exI [of _ n]) auto
  qed
qed

text \<open>So the loop takes a timely frame, from a state that differs only in its clock.\<close>

lemma exchange_loop_takes:
  assumes rt: "0 < ecu_response_timeout (timers cfg)" and w: "awaits g ((t, Some f) # rest) s" "\<not> e_closing s"
    and t: "es_now s < dl" "t < dl" "pend \<or> t \<le> es_now s + ecu_response_timeout (timers cfg)"
  shows "\<exists>n. exchange_loop cfg env g sid req dl acc pend s = exchange_loop cfg env g sid req dl acc pend (s\<lparr>es_now := n\<rparr>)
    \<and> n < dl \<and> recv_ecu_frame g (min (ecu_response_timeout (timers cfg)) (dl - n)) (s\<lparr>es_now := n\<rparr>)
        = (Inr (Some f), s\<lparr>es_now := max (es_now s) t, es_arrivals := (es_arrivals s)(g := rest)\<rparr>)"
proof -
  have "\<exists>n. es_now s \<le> n \<and> n \<le> max (es_now s) t \<and> n < dl \<and> t \<le> n + ecu_response_timeout (timers cfg)
      \<and> exchange_loop cfg env g sid req dl acc pend s = exchange_loop cfg env g sid req dl acc pend (s\<lparr>es_now := n\<rparr>)"
  proof (cases pend)
    case True
    then show ?thesis using exchange_loop_patience [OF rt w t(1,2), of env sid req acc] by simp
  next
    case False
    with t show ?thesis by (intro exI [of _ "es_now s"]) auto
  qed
  then obtain n where n: "es_now s \<le> n" "n \<le> max (es_now s) t" "n < dl" "t \<le> n + ecu_response_timeout (timers cfg)"
    "exchange_loop cfg env g sid req dl acc pend s = exchange_loop cfg env g sid req dl acc pend (s\<lparr>es_now := n\<rparr>)"
    by blast
  moreover have "max n t = max (es_now s) t" using n by auto
  ultimately show ?thesis
    using w t recv_arrival [of g t f rest "s\<lparr>es_now := n\<rparr>" "min (ecu_response_timeout (timers cfg)) (dl - n)"]
    by (intro exI [of _ n]) (auto simp: awaits_def)
qed

text \<open>One frame of an answer sequence.\<close>

lemma exchange_loop_step:
  assumes rs: "recv_ecu_frame g (min (ecu_response_timeout (timers cfg)) (dl - es_now s)) s = (Inr (Some f), s1)"
    and op: "\<not> e_closing s" "es_now s < dl" and pl: "open_session env s1"
    and seq: "answer_sequence (timers cfg) sid acc (f # fs)" and fin: "completes (f # fs)"
  shows "exchange_loop cfg env g sid req dl acc pend s =
    (if fs = [] then Some ((Inr True, acc \<or> ptype_of f = PT_DIAGNOSTIC_MESSAGE), s1\<lparr>e_out := e_out s1 @ [f]\<rparr>)
     else exchange_loop cfg env g sid req dl True (pend \<or> ptype_of f = PT_DIAGNOSTIC_MESSAGE) (s1\<lparr>e_out := e_out s1 @ [f]\<rparr>))"
  using assms
  by (subst exchange_loop.simps)
    (auto simp: Let_def relay_plain [OF pl] completes_def final_answer_frame_def payload_types)

lemma timely_weaken: "timely rt dl pend now tfs \<Longrightarrow> (pend \<longrightarrow> pend') \<Longrightarrow> timely rt dl pend' now tfs"
  by (induction rt dl pend now tfs arbitrary: pend' rule: timely.induct) auto

lemma exchange_loop_complete:
  assumes rt: "0 < ecu_response_timeout (timers cfg)"
  shows "open_session env s \<Longrightarrow> awaits g (map (\<lambda>(t, f). (t, Some f)) tfs @ rest) s \<Longrightarrow>
    timely (ecu_response_timeout (timers cfg)) dl pend (es_now s) tfs \<Longrightarrow>
    answer_sequence (timers cfg) sid acc (map snd tfs) \<Longrightarrow> completes (map snd tfs) \<Longrightarrow>
    \<exists>a s'. exchange_loop cfg env g sid req dl acc pend s = Some ((Inr True, a), s')
      \<and> e_out s' = e_out s @ map snd tfs \<and> es_conns s' = es_conns s \<and> es_legs s' = es_legs s"
proof (induction tfs arbitrary: s acc pend)
  case Nil
  then show ?case by (simp add: completes_def)
next
  case (Cons tf tfs)
  obtain t f where tf: "tf = (t, f)" by (cases tf)
  have op: "\<not> e_closing s" using Cons.prems(1) by (simp add: open_session_def)
  obtain n where l: "exchange_loop cfg env g sid req dl acc pend s = exchange_loop cfg env g sid req dl acc pend (s\<lparr>es_now := n\<rparr>)"
      and n: "n < dl"
      and rs: "recv_ecu_frame g (min (ecu_response_timeout (timers cfg)) (dl - n)) (s\<lparr>es_now := n\<rparr>)
        = (Inr (Some f), s\<lparr>es_now := max (es_now s) t, es_arrivals := (es_arrivals s)(g := map (\<lambda>(t, f). (t, Some f)) tfs @ rest)\<rparr>)"
    using exchange_loop_takes [OF rt, of g t f "map (\<lambda>(t, f). (t, Some f)) tfs @ rest" s dl pend env sid req acc] Cons.prems op tf
    by auto
  let ?s1 = "s\<lparr>es_now := max (es_now s) t, es_arrivals := (es_arrivals s)(g := map (\<lambda>(t, f). (t, Some f)) tfs @ rest)\<rparr>"
  let ?pend = "pend \<or> ptype_of f = PT_DIAGNOSTIC_MESSAGE"
  have pl: "open_session env ?s1" using Cons.prems(1) by (simp add: open_session_def)
  note step = exchange_loop_step [of g cfg dl "s\<lparr>es_now := n\<rparr>" f ?s1 env sid acc "map snd tfs" req pend]
  have st: "exchange_loop cfg env g sid req dl acc pend s =
      (if tfs = [] then Some ((Inr True, acc \<or> ptype_of f = PT_DIAGNOSTIC_MESSAGE), ?s1\<lparr>e_out := e_out s @ [f]\<rparr>)
       else exchange_loop cfg env g sid req dl True ?pend (?s1\<lparr>e_out := e_out s @ [f]\<rparr>))"
    using step l n rs op pl Cons.prems(4,5) tf by simp
  show ?case
  proof (cases "tfs = []")
    case True
    with st tf show ?thesis by simp
  next
    case False
    have tm: "timely (ecu_response_timeout (timers cfg)) dl ?pend (max (es_now s) t) tfs"
      using Cons.prems(3) tf by (auto elim!: timely_weaken simp: is_response_pending_def)
    have "\<exists>a s'. exchange_loop cfg env g sid req dl True ?pend (?s1\<lparr>e_out := e_out s @ [f]\<rparr>) = Some ((Inr True, a), s')
        \<and> e_out s' = e_out (?s1\<lparr>e_out := e_out s @ [f]\<rparr>) @ map snd tfs \<and> es_conns s' = es_conns (?s1\<lparr>e_out := e_out s @ [f]\<rparr>)
        \<and> es_legs s' = es_legs (?s1\<lparr>e_out := e_out s @ [f]\<rparr>)"
    proof (rule Cons.IH)
      show "answer_sequence (timers cfg) sid True (map snd tfs)" "completes (map snd tfs)"
        using Cons.prems(4,5) tf False by (auto simp: completes_def split: if_splits)
    qed (use pl tm Cons.prems(2) in \<open>simp_all add: plain_out awaits_def\<close>)
    with st False tf show ?thesis by auto
  qed
qed

lemma exchange_with_ecu_complete:
  assumes "0 < ecu_response_timeout (timers cfg)" and pl: "open_session env s"
    and live: "\<not> leg_terminal (es_legs s g)" and w: "awaits g (map (\<lambda>(t, f). (t, Some f)) tfs @ rest) s"
    and drain: "ee_drain env g (es_now s) = Some d" "0 \<le> d"
    and tm: "timely (ecu_response_timeout (timers cfg)) (es_now s + ecu_pending_max_wait (timers cfg)) False (es_now s + d) tfs"
    and "answer_sequence (timers cfg) (if 13 \<le> length sent then Some (uint (sent ! 12)) else None) False (map snd tfs)"
    and c: "completes (map snd tfs)"
  shows "\<exists>s'. exchange_with_ecu cfg env target g sent request s = Some (Inr (), s')
    \<and> e_out s' = e_out s @ map snd tfs \<and> es_conns s' = es_conns s
    \<and> leg_connected (es_legs s' g) \<and> leg_out (es_legs s' g) = leg_out (es_legs s g) @ [sent]"
proof -
  define s1 where "s1 = s\<lparr>es_legs := (es_legs s)(g := (es_legs s g)\<lparr>leg_out := leg_out (es_legs s g) @ [sent]\<rparr>), es_now := es_now s + d\<rparr>"
  let ?dl = "es_now s + ecu_pending_max_wait (timers cfg)"
    and ?sid = "if 13 \<le> length sent then Some (uint (sent ! 12)) else None"
  have "d < ecu_pending_max_wait (timers cfg)"
    using tm c by (cases tfs) (auto simp: completes_def)
  with live w drain have send: "send_within env g sent (ecu_pending_max_wait (timers cfg)) s = (Inr (), s1)"
    by (simp add: send_within_def on_leg_def leg_send_def s1_def awaits_def bounded_wait_def)
  have "\<exists>a s'. exchange_loop cfg env g ?sid request ?dl False False s1 = Some ((Inr True, a), s')
      \<and> e_out s' = e_out s1 @ map snd tfs \<and> es_conns s' = es_conns s1 \<and> es_legs s' = es_legs s1"
    by (rule exchange_loop_complete)
      (use assms in \<open>simp_all add: s1_def open_session_def awaits_def split del: if_split\<close>)
  then obtain a s' where "exchange_loop cfg env g ?sid request ?dl False False s1 = Some ((Inr True, a), s')"
      "e_out s' = e_out s @ map snd tfs" "es_conns s' = es_conns s" "es_legs s' = es_legs s1"
    by (auto simp: s1_def)
  with send pl w show ?thesis
    by (simp add: exchange_with_ecu_def Let_def open_session_def exchange_end_def s1_def awaits_def)
qed

text \<open>C16: in a session without middleware (a chain may drop, change or delay an answer), on an open socket
  of the tester, with a Scapy that serialises what it dissected unchanged: when the ECU's socket has
  taken the request, an answer sequence of the ECU that ends with a final response or a NACK, and
  arrives within the response timeout, or after a ResponsePending at any time before the deadline
  of the exchange, is relayed to the tester frame by frame and nothing else is sent; the exchange
  completes and its connection stays cached and open for the next request.\<close>

theorem edge_exchange_complete:
  assumes "0 < ecu_response_timeout (timers cfg)" and pl: "open_session env s"
    and live: "\<not> leg_terminal (es_legs s g)" and w: "awaits g (map (\<lambda>(t, f). (t, Some f)) tfs @ rest) s"
    and drain: "ee_drain env g (es_now s) = Some d" "0 \<le> d"
    and "timely (ecu_response_timeout (timers cfg)) (es_now s + ecu_pending_max_wait (timers cfg)) False (es_now s + d) tfs"
    and "answer_sequence (timers cfg) (if 13 \<le> length sent then Some (uint (sent ! 12)) else None) False (map snd tfs)"
    and "completes (map snd tfs)"
  shows "\<exists>s'. exchange_with_ecu cfg env target g sent request s = Some (Inr (), s')
    \<and> e_out s' = e_out s @ map snd tfs \<and> es_conns s' = es_conns s
    \<and> leg_connected (es_legs s' g) \<and> leg_out (es_legs s' g) = leg_out (es_legs s g) @ [sent]"
  by (rule exchange_with_ecu_complete) (use assms in auto)

theorem edge_exchange_complete_witness:
  "\<exists>s'. exchange_with_ecu ex_edge_config ex_env 0x1001 0 ex_request ex_request ex_session = Some (Inr (), s')
    \<and> e_out s' = map snd ex_answers \<and> es_conns s' = [(0x1001, 0)] \<and> leg_out (es_legs s' 0) = [ex_request]"
proof -
  have "timely 2000 30000 False 0 ex_answers"
    by (simp add: ex_answers_def is_response_pending_def payload_types py_slice_def from_be_def)
  moreover have "answer_sequence (timers ex_edge_config) (Some 0x22) False (map snd ex_answers)"
    by (simp add: ex_answers_def is_response_pending_def response_matches_def payload_types py_slice_def from_be_def)
  moreover have "completes (map snd ex_answers)"
    by (simp add: ex_answers_def completes_def final_answer_frame_def is_response_pending_def payload_types py_slice_def from_be_def)
  moreover have "(if 13 \<le> length ex_request then Some (uint (ex_request ! 12)) else None) = Some 0x22"
    by (simp add: ex_request_def)
  moreover have "ee_drain ex_env 0 0 = Some 0" "open_session ex_env ex_session"
    using plain_ex by (simp_all add: ex_env_def plain_session_def)
  ultimately show ?thesis
    using edge_exchange_complete [of ex_edge_config ex_env ex_session 0 ex_answers "[]" 0 ex_request "0x1001" ex_request]
    by (auto simp: awaits_def ex_session_def ex_edge_config_def)
qed

end
