(* ===== verification/Edge_Echo_Link.thy ===== *)
theory Edge_Echo_Link
  imports Echo_Props Edge_Exchange_Live
begin

text \<open>
  The EdgeNode in front of the Echo ECU: a tester's request, forwarded by the EdgeNode, answered by the
  Echo ECU, and relayed back.
\<close>

lemma diag_request_fields:
  "ptype_of (diag_request a b x) = PT_DIAGNOSTIC_MESSAGE" "drop 12 (diag_request a b x) = x"
  "length (diag_request a b x) = 12 + length x"
  by (simp_all add: diag_request_def from_be_int_be payload_types)

lemma diag_request_nth: "n < length x \<Longrightarrow> diag_request a b x ! (12 + n) = x ! n"
  using nth_drop [of 12 "diag_request a b x" n] by (simp add: diag_request_fields)

lemma echo_ack_type: "ptype_of (echo_ack a b) = PT_DIAGNOSTIC_POSITIVE_ACK"
  by (simp add: echo_ack_def from_be_int_be payload_types)

text \<open>The reply bit.\<close>

lemma uint_or_40: "uint ((u :: byte) OR 0x40) = uint u OR 0x40"
  by (simp add: uint_or)

lemma echo_response_head:
  assumes "echo_uds_response C config rnd (u # us) = Inr resp"
  shows "resp \<noteq> [] \<and> hd resp = u OR 0x40"
proof -
  have "(0x22 :: byte) OR 0x40 = 0x62" by code_simp
  with assms show ?thesis
    by (auto simp: echo_uds_response_def ebind_eq_Inr split: if_splits)
qed

lemma echo_answer_sequence:
  assumes "echo_uds_response C config rnd (u # us) = Inr resp" "u OR 0x40 \<noteq> 0x7F"
  shows "answer_sequence tc (Some (uint u)) False [echo_ack src tgt, diag_request tgt src resp]"
    "completes [echo_ack src tgt, diag_request tgt src resp]"
proof -
  have h: "diag_request tgt src resp ! 12 = u OR 0x40" "13 \<le> length (diag_request tgt src resp)"
    using echo_response_head [OF assms(1)] diag_request_nth [of 0 resp tgt src]
    by (auto simp: hd_conv_nth diag_request_fields Suc_le_eq)
  then show "answer_sequence tc (Some (uint u)) False [echo_ack src tgt, diag_request tgt src resp]"
    by (simp add: echo_ack_type diag_request_fields response_matches_def Let_def uint_or_40 payload_types)
  show "completes [echo_ack src tgt, diag_request tgt src resp]"
    using h assms(2) by (simp add: completes_def final_answer_frame_def is_response_pending_def diag_request_fields)
qed

text \<open>What the Echo ECU writes while it handles one frame.\<close>

definition echo_answers :: "py_conv \<Rightarrow> ydict \<Rightarrow> echo_params \<Rightarrow> bytes \<Rightarrow> nat \<Rightarrow> bytes \<Rightarrow> echo_world \<Rightarrow> bytes list" where
  "echo_answers C config P urandom i fr w =
     drop (length (ec_out (ew_conns w i))) (ec_out (ew_conns (echo_turn C config P urandom i fr w) i))"

lemma echo_answers_diag:
  assumes "0 \<le> src" "src < 65536" "0 \<le> tgt" "tgt < 65536" "ec_activated (ew_conns w i)" "\<not> ec_lost (ew_conns w i)"
    "echo_uds_response C config rnd req = Inr resp" "int (length resp) + 4 < 2 ^ 32" "int (length req) + 4 < 2 ^ 32"
  shows "echo_answers C config P rnd i (diag_request src tgt req) w = [echo_ack src tgt, diag_request tgt src resp]"
  using assms echo_diagnostic_open [of src tgt w i C config rnd req resp]
  by (simp add: echo_answers_def echo_turn_diag)

text \<open>EdgeNode and Echo ECU together: a request that the EdgeNode forwards to a socket the Echo ECU has
  activated is answered with an acknowledgement and a response in which addresses are swapped and the
  service identifier carries the reply bit; if both frames arrive within the EdgeNode's timers,
  the tester gets exactly these two frames and the connection stays cached for the next request.
  The request's service identifier must not be one whose reply reads as a negative response.\<close>

lemma edge_echo_exchange:
  assumes rt: "0 < ecu_response_timeout (timers cfg)" and pl: "plain_session env s"
    and leg: "\<not> leg_terminal (es_legs s g)" "awaits g (map (\<lambda>(t, f). (t, Some f)) tfs @ rest) s"
    and echo: "map snd tfs = echo_answers C config P urandom i (diag_request src tgt (u # us)) w"
    and tm: "timely (ecu_response_timeout (timers cfg)) (es_now s + ecu_pending_max_wait (timers cfg)) False (es_now s) tfs"
    and act: "ec_activated (ew_conns w i)" "\<not> ec_lost (ew_conns w i)"
    and req: "0 \<le> src" "src < 65536" "0 \<le> tgt" "tgt < 65536" "u OR 0x40 \<noteq> 0x7F" "int (length us) + 5 < 2 ^ 32"
    and resp: "echo_uds_response C config urandom (u # us) = Inr resp" "int (length resp) + 4 < 2 ^ 32"
  shows "\<exists>s'. exchange_with_ecu cfg env target g (diag_request src tgt (u # us)) request s = Some (Inr (), s')
    \<and> e_out s' = e_out s @ [echo_ack src tgt, diag_request tgt src resp] \<and> hd resp = u OR 0x40
    \<and> es_conns s' = es_conns s \<and> leg_connected (es_legs s' g)"
proof -
  have fs: "map snd tfs = [echo_ack src tgt, diag_request tgt src resp]"
    using echo echo_answers_diag [of src tgt w i C config urandom "u # us" resp P] act req resp by simp
  have "(if 13 \<le> length (diag_request src tgt (u # us)) then Some (uint (diag_request src tgt (u # us) ! 12)) else None) = Some (uint u)"
    using diag_request_nth [of 0 "u # us" src tgt] by (simp add: diag_request_fields)
  moreover have tm': "timely (ecu_response_timeout (timers cfg)) (es_now s + ecu_pending_max_wait (timers cfg)) False (es_now s + 0) tfs"
    using tm by simp
  moreover have "open_session env s" "ee_drain env g (es_now s) = Some 0" using pl by (simp_all add: plain_session_def)
  ultimately show ?thesis
    using exchange_with_ecu_complete [OF rt _ leg _ _ tm', where sent = "diag_request src tgt (u # us)" and target = target and request = request]
      echo_answer_sequence(1) [OF resp(1) req(5), of "timers cfg" src tgt] echo_answer_sequence(2) [OF resp(1) req(5), of src tgt] fs echo_response_head [OF resp(1)]
    by auto
qed

end
