(* ===== verification/Pc_Tester.thy ===== *)
theory Pc_Tester
  imports Echo_Ecu
begin

text \<open>
  The command-line tester (\<^verbatim>\<open>pc_tester/tester.py\<close>): frame helpers, hexadecimal input, the background
  reader with its queue, the commands, reconnecting, and the read-evaluate-print loop with its
  retries. The clock is in milliseconds. What a connection will deliver, and when, is a list of arrivals;
  the background reader takes what has arrived before any command step that looks at its queue. What is printed is
  the list of frames handed to \<open>_print_response\<close>; other messages to the user are not modelled.
\<close>

section \<open>Tables and helpers\<close>

definition DIAG_NACK_CODES :: "(int \<times> string) list" where
  "DIAG_NACK_CODES =
     [(0x02, ''Invalid source address''), (0x03, ''Target unreachable''), (0x04, ''Message too large''),
      (0x05, ''Out of memory''), (0x06, ''Target unknown''), (0x07, ''Message transmitted, positive ACK timeout''),
      (0x08, ''Message transmitted, negative ACK timeout''), (0x09, ''Network link failure'')]"

definition tester_build :: "int \<Rightarrow> bytes \<Rightarrow> bytes res" where
  "tester_build payload_type payload =
     ebind (pack_uint 1 0x02) (\<lambda>v.
     ebind (pack_uint 1 (0xFF XOR 0x02)) (\<lambda>i.
     ebind (pack_uint 2 payload_type) (\<lambda>t.
     ebind (pack_uint 4 (int (length payload))) (\<lambda>l.
     Inr (v @ i @ t @ l @ payload)))))"

definition tester_read_frame :: "(bytes, bytes) py" where
  "tester_read_frame =
     bnd (read_exactly 8) (\<lambda>hdr.
     bnd (lift (unpack_uint 4 (py_slice 4 8 hdr))) (\<lambda>plen.
     if plen = 0 then ret hdr
     else bnd (read_exactly (nat plen)) (\<lambda>payload. ret (hdr @ payload))))"

definition tester_ptype :: "bytes \<Rightarrow> int res" where
  "tester_ptype fr = unpack_H (py_slice 2 4 fr)"

definition tester_plen :: "bytes \<Rightarrow> int res" where
  "tester_plen fr = unpack_uint 4 (py_slice 4 8 fr)"

definition tester_payload :: "bytes \<Rightarrow> bytes" where
  "tester_payload fr = drop 8 fr"

text \<open>\<^verbatim>\<open>p.replace(s, "")\<close> for a two-character \<open>s\<close>.\<close>

fun remove_pair :: "char \<Rightarrow> char \<Rightarrow> string \<Rightarrow> string" where
  "remove_pair a b (c # d # cs) =
     (if c = a \<and> d = b then remove_pair a b cs else c # remove_pair a b (d # cs))"
| "remove_pair a b cs = cs"

definition parse_hex_input :: "string list \<Rightarrow> bytes res" where
  "parse_hex_input parts =
     (let joined = concat (map (\<lambda>p. remove_pair CHR ''0'' CHR ''X'' (remove_pair CHR ''0'' CHR ''x'' p)) parts) in
      if length joined mod 2 \<noteq> 0 then Inl ValueError else py_fromhex joined)"

section \<open>Display of a response\<close>

datatype shown =
    ShRouting int | ShPosAck int int int | ShNegAck int "string option" | ShDiag int int bytes
  | ShStatus int int int int | ShPower int | ShHeaderNack int | ShAlive "int option" | ShPayload bytes

definition print_response :: "bytes \<Rightarrow> (int \<times> shown) res" where
  "print_response fr =
     ebind (tester_ptype fr) (\<lambda>pt.
     let payload = tester_payload fr in
     if pt = PT_ROUTING_ACT_RESPONSE \<and> 5 \<le> length payload then Inr (pt, ShRouting (uint (payload ! 4)))
     else if pt = PT_DIAGNOSTIC_POSITIVE_ACK \<and> 5 \<le> length payload
     then ebind (unpack_H (py_slice 0 2 payload)) (\<lambda>src. ebind (unpack_H (py_slice 2 4 payload)) (\<lambda>tgt.
       Inr (pt, ShPosAck src tgt (uint (payload ! 4)))))
     else if pt = PT_DIAGNOSTIC_NEGATIVE_ACK \<and> 5 \<le> length payload
     then let code = uint (payload ! 4) in Inr (pt, ShNegAck code (map_of DIAG_NACK_CODES code))
     else if pt = PT_DIAGNOSTIC_MESSAGE \<and> 5 \<le> length payload
     then ebind (unpack_H (py_slice 0 2 payload)) (\<lambda>src. ebind (unpack_H (py_slice 2 4 payload)) (\<lambda>tgt.
       Inr (pt, ShDiag src tgt (drop 4 payload))))
     else if pt = PT_ENTITY_STATUS_RESPONSE \<and> 7 \<le> length payload
     then ebind (unpack_uint 4 (py_slice 3 7 payload)) (\<lambda>max_data.
       Inr (pt, ShStatus (uint (payload ! 0)) (uint (payload ! 1)) (uint (payload ! 2)) max_data))
     else if pt = PT_POWER_MODE_RESPONSE \<and> 1 \<le> length payload then Inr (pt, ShPower (uint (payload ! 0)))
     else if pt = PT_HEADER_NACK \<and> 1 \<le> length payload then Inr (pt, ShHeaderNack (uint (payload ! 0)))
     else if pt = PT_ALIVE_CHECK_RESPONSE
     then if 2 \<le> length payload then ebind (unpack_H (py_slice 0 2 payload)) (\<lambda>src. Inr (pt, ShAlive (Some src)))
       else Inr (pt, ShAlive None)
     else Inr (pt, ShPayload payload))"

section \<open>The connection\<close>

text \<open>What a connection delivers: a frame as \<open>_read_frame\<close> returns it, the end of the stream, or a reset.\<close>

datatype arrival = Frame bytes | Eof | Reset

text \<open>\<open>t_writer\<close>: \<open>_writer\<close> is not \<open>None\<close>. \<open>t_lost\<close>: the connection was reset, so that \<^verbatim>\<open>drain\<close> raises.
  \<open>t_reading\<close>: the background task runs; \<open>t_closed\<close> is \<open>_closed_event\<close>. \<open>t_out\<close> are the frames sent,
  over all connections, of which there were \<open>t_dials\<close>.\<close>

record tester =
  t_addr :: int
  t_ecu :: int
  t_timeout :: int
  t_auto :: bool
  t_activated :: bool
  t_writer :: bool
  t_lost :: bool
  t_reading :: bool
  t_closed :: bool
  t_queue :: "bytes list"
  t_arrivals :: "(int \<times> arrival) list"
  t_out :: "bytes list"
  t_shown :: "bytes list"
  t_now :: int
  t_dials :: nat

text \<open>What the \<open>n\<close>-th attempt to connect yields: the time it is over, and the arrivals, unless it failed.\<close>

type_synonym dialer = "nat \<Rightarrow> int \<Rightarrow> int \<times> (int \<times> arrival) list option"

definition tester_send :: "bytes \<Rightarrow> (tester, unit) py" where
  "tester_send fr s =
     (if \<not> t_writer s then (Inl OtherError, s)
      else if t_lost s then (Inl ConnectionResetError, s)
      else (Inr (), s\<lparr>t_out := t_out s @ [fr]\<rparr>))"

definition tester_send_frame :: "int \<Rightarrow> bytes \<Rightarrow> (tester, unit) py" where
  "tester_send_frame pt pl = bnd (lift (tester_build pt pl)) tester_send"

text \<open>One turn of \<open>_background_reader\<close>.\<close>

definition reader_frame :: "bytes \<Rightarrow> (tester, unit) py" where
  "reader_frame fr =
     bnd (lift (tester_ptype fr)) (\<lambda>pt.
     if pt = PT_ALIVE_CHECK_REQUEST then
       bnd (lift (tester_plen fr)) (\<lambda>n.
       if n \<noteq> 0 then raise ValueError
       else bnd (gets t_addr) (\<lambda>a. bnd (lift (pack_H a)) (tester_send_frame PT_ALIVE_CHECK_RESPONSE)))
     else modify (\<lambda>s. s\<lparr>t_queue := t_queue s @ [fr]\<rparr>))"

definition reader_stop :: "tester \<Rightarrow> tester" where
  "reader_stop s = s\<lparr>t_reading := False, t_closed := True\<rparr>"

definition reader_turn :: "arrival \<Rightarrow> tester \<Rightarrow> tester" where
  "reader_turn a s =
     (case a of
        Eof \<Rightarrow> reader_stop s
      | Reset \<Rightarrow> reader_stop (s\<lparr>t_lost := True\<rparr>)
      | Frame fr \<Rightarrow> (case reader_frame fr s of (Inr _, s') \<Rightarrow> s' | (Inl _, s') \<Rightarrow> reader_stop s'))"

text \<open>Everything that has arrived by now is read, as long as the task runs; a reset is noticed in any case.\<close>

fun reader_catch_up :: "(int \<times> arrival) list \<Rightarrow> tester \<Rightarrow> tester" where
  "reader_catch_up [] s = s\<lparr>t_arrivals := []\<rparr>"
| "reader_catch_up ((t, a) # rest) s =
     (if t_now s < t then s\<lparr>t_arrivals := (t, a) # rest\<rparr>
      else if t_reading s then reader_catch_up rest (reader_turn a s)
      else reader_catch_up rest (if a = Reset then s\<lparr>t_lost := True\<rparr> else s))"

definition reader_sync :: "tester \<Rightarrow> tester" where
  "reader_sync s = reader_catch_up (t_arrivals s) s"

text \<open>\<open>_recv\<close> with a given timeout. A queued frame is taken at once. Otherwise the reader goes on,
  arrival by arrival, until a frame is queued or the timeout is over; that the connection was closed is only
  noticed then.\<close>

fun recv_wait :: "int \<Rightarrow> (int \<times> arrival) list \<Rightarrow> tester \<Rightarrow> bytes res \<times> tester" where
  "recv_wait deadline arr s =
     (case t_queue s of
        fr # q \<Rightarrow> (Inr fr, s\<lparr>t_queue := q, t_arrivals := arr\<rparr>)
      | [] \<Rightarrow>
          (case arr of
             (t, a) # rest \<Rightarrow>
               if deadline < t
               then (Inl (if t_closed s then ConnectionResetError else TimeoutError), s\<lparr>t_arrivals := arr, t_now := max (t_now s) deadline\<rparr>)
               else let s1 = s\<lparr>t_now := max (t_now s) t\<rparr> in
                 recv_wait deadline rest
                   (if t_reading s then reader_turn a s1 else if a = Reset then s1\<lparr>t_lost := True\<rparr> else s1)
           | [] \<Rightarrow>
               (Inl (if t_closed s then ConnectionResetError else TimeoutError), s\<lparr>t_arrivals := [], t_now := max (t_now s) deadline\<rparr>)))"

declare recv_wait.simps [simp del]

definition tester_recv :: "int option \<Rightarrow> (tester, bytes) py" where
  "tester_recv timeout s =
     (let limit = (case timeout of None \<Rightarrow> t_timeout s | Some t \<Rightarrow> t) in
      recv_wait (t_now s + limit) (t_arrivals s) s)"

definition show_response :: "bytes \<Rightarrow> (tester, unit) py" where
  "show_response fr =
     bnd (lift (print_response fr)) (\<lambda>_. modify (\<lambda>s. s\<lparr>t_shown := t_shown s @ [fr]\<rparr>))"

section \<open>Commands\<close>

definition cmd_activate :: "int option \<Rightarrow> (tester, bool) py" where
  "cmd_activate src_addr =
     bnd (gets t_addr) (\<lambda>own.
     let addr = (case src_addr of Some a \<Rightarrow> a | None \<Rightarrow> own) in
     bnd (lift (ebind (pack_H addr) (\<lambda>a. Inr (a @ [0x00] @ [0, 0, 0, 0])))) (\<lambda>payload.
     seq (tester_send_frame PT_ROUTING_ACT_REQUEST payload)
     (bnd (tester_recv None) (\<lambda>resp.
      seq (show_response resp)
      (bnd (lift (tester_ptype resp)) (\<lambda>pt.
       let p = tester_payload resp in
       if pt = PT_ROUTING_ACT_RESPONSE \<and> 5 \<le> length p \<and> p ! 4 = 0x10
       then seq (modify (\<lambda>s. s\<lparr>t_addr := addr, t_activated := True\<rparr>)) (ret True)
       else ret False))))))"

definition cmd_diag :: "bytes \<Rightarrow> (tester, unit) py" where
  "cmd_diag uds_payload =
     bnd (gets (\<lambda>s. s)) (\<lambda>s.
     if \<not> t_activated s then ret ()
     else
       bnd (lift (ebind (pack_HH (t_addr s) (t_ecu s)) (\<lambda>a. Inr (a @ uds_payload)))) (\<lambda>payload.
       seq (tester_send_frame PT_DIAGNOSTIC_MESSAGE payload)
       (bnd (tester_recv None) (\<lambda>resp1.
        seq (show_response resp1)
        (bnd (lift (tester_ptype resp1)) (\<lambda>pt.
         if pt = PT_DIAGNOSTIC_POSITIVE_ACK
         then try_catch (bnd (tester_recv (Some 2000)) show_response)
                (\<lambda>e. if e = TimeoutError then ret () else raise e)
         else ret ()))))))"

definition cmd_target :: "int option \<Rightarrow> (tester, unit) py" where
  "cmd_target new_addr =
     (case new_addr of
        None \<Rightarrow> ret ()
      | Some a \<Rightarrow>
          if \<not> (0x0000 \<le> a \<and> a \<le> 0xFFFF) then raise ValueError
          else modify (\<lambda>s. s\<lparr>t_ecu := a\<rparr>))"

definition cmd_alive :: "(tester, unit) py" where
  "cmd_alive =
     bnd (gets (\<lambda>s. s)) (\<lambda>s.
     if \<not> t_activated s then ret ()
     else bnd (lift (pack_H (t_addr s))) (tester_send_frame PT_ALIVE_CHECK_RESPONSE))"

definition cmd_status :: "(tester, unit) py" where
  "cmd_status = seq (tester_send_frame PT_ENTITY_STATUS_REQUEST []) (bnd (tester_recv None) show_response)"

definition cmd_power :: "(tester, unit) py" where
  "cmd_power = seq (tester_send_frame PT_POWER_MODE_REQUEST []) (bnd (tester_recv None) show_response)"

section \<open>Connecting\<close>

definition tester_connect :: "dialer \<Rightarrow> (tester, unit) py" where
  "tester_connect D s =
     (case D (t_dials s) (t_now s) of
        (t, None) \<Rightarrow> (Inl ConnectionError, s\<lparr>t_dials := t_dials s + 1, t_now := max (t_now s) t\<rparr>)
      | (t, Some arr) \<Rightarrow>
          (Inr (), s\<lparr>t_dials := t_dials s + 1, t_now := max (t_now s) t, t_writer := True, t_lost := False,
             t_closed := False, t_queue := [], t_reading := True, t_arrivals := arr\<rparr>))"

text \<open>The task of the reader is cancelled, which sets the event too.\<close>

definition tester_disconnect :: "tester \<Rightarrow> tester" where
  "tester_disconnect s =
     (if t_reading s then reader_stop s else s)
       \<lparr>t_writer := False, t_activated := False, t_queue := [], t_arrivals := []\<rparr>"

text \<open>The exceptions \<open>reconnect\<close> catches: network errors and timeouts.\<close>

definition network_error :: "exn \<Rightarrow> bool" where
  "network_error e \<longleftrightarrow> e \<in> {ConnectionResetError, ConnectionError, TimeoutError}"

definition tester_reconnect :: "dialer \<Rightarrow> (tester, bool) py" where
  "tester_reconnect D =
     try_catch
       (seq (modify tester_disconnect)
        (seq (tester_connect D)
         (bnd (cmd_activate None) (\<lambda>ok. if \<not> ok then ret False else ret True))))
       (\<lambda>e. if network_error e then ret False else raise e)"

section \<open>The loop\<close>

definition int_arg :: "string list \<Rightarrow> int option res" where
  "int_arg parts =
     (if 1 < length parts
      then case py_int_auto (parts ! 1) of None \<Rightarrow> Inl ValueError | Some i \<Rightarrow> Inr (Some i)
      else Inr None)"

text \<open>The body of the inner \<^verbatim>\<open>try\<close>, for the words of a non-empty line.\<close>

definition run_command :: "string list \<Rightarrow> (tester, unit) py" where
  "run_command parts =
     (let cmd = py_lower (hd parts) in
      if cmd = ''help'' then ret ()
      else if cmd = ''activate'' then bnd (lift (int_arg parts)) (\<lambda>addr. bnd (cmd_activate addr) (\<lambda>_. ret ()))
      else if cmd = ''diag'' then
        if length parts < 2 then ret ()
        else bnd (lift (parse_hex_input (tl parts))) cmd_diag
      else if cmd = ''target'' then bnd (lift (int_arg parts)) cmd_target
      else if cmd = ''alive'' then cmd_alive
      else if cmd = ''status'' then cmd_status
      else if cmd = ''power'' then cmd_power
      else ret ())"

text \<open>A lost connection is answered by reconnecting and running the command again, while attempts are
  left. The value tells whether the program goes on.\<close>

fun attempt :: "dialer \<Rightarrow> nat \<Rightarrow> string list \<Rightarrow> (tester, bool) py" where
  "attempt D 0 parts = seq (modify tester_disconnect) (ret False)"
| "attempt D (Suc n) parts =
     try_catch (seq (run_command parts) (ret True))
       (\<lambda>e.
          if e = TimeoutError then ret True
          else if e \<in> {IncompleteReadError, ConnectionResetError, ConnectionError} then
            bnd (if 0 < n then tester_reconnect D else ret False) (\<lambda>ok.
            if ok then attempt D n parts else seq (modify tester_disconnect) (ret False))
          else if is_Exception e then ret True
          else raise e)"

definition ATTEMPTS :: "tester \<Rightarrow> nat" where
  "ATTEMPTS s = (if t_auto s then 3 else 1)"

text \<open>\<^verbatim>\<open>line.split()\<close>.\<close>

function py_split :: "string \<Rightarrow> string list" where
  "py_split [] = []"
| "py_split (c # cs) =
     (if is_space c then py_split cs
      else (c # takeWhile (\<lambda>x. \<not> is_space x) cs) # py_split (dropWhile (\<lambda>x. \<not> is_space x) cs))"
  by pat_completeness auto
termination
  by (relation "measure length") (auto simp: le_imp_less_Suc length_dropWhile_le)

text \<open>One line of input, at a time the user chooses; the background reader has caught up by then.\<close>

definition repl_line :: "dialer \<Rightarrow> string \<Rightarrow> (tester, bool) py" where
  "repl_line D line =
     (let parts = py_split (py_strip line) in
      if parts = [] then ret True
      else if py_lower (hd parts) \<in> {''quit'', ''exit'', ''q''} then seq (modify tester_disconnect) (ret False)
      else bnd (gets ATTEMPTS) (\<lambda>n. attempt D n parts))"

fun repl_loop :: "dialer \<Rightarrow> (int \<times> string) list \<Rightarrow> (tester, unit) py" where
  "repl_loop D [] = modify tester_disconnect"
| "repl_loop D ((t, line) # lines) =
     seq (modify (\<lambda>s. reader_sync (s\<lparr>t_now := max (t_now s) t\<rparr>)))
     (bnd (repl_line D line) (\<lambda>go. if go then repl_loop D lines else ret ()))"

definition repl :: "dialer \<Rightarrow> bool \<Rightarrow> (int \<times> string) list \<Rightarrow> (tester, unit) py" where
  "repl D auto_activate lines =
     (if auto_activate
      then bnd (cmd_activate None) (\<lambda>ok. if \<not> ok then modify tester_disconnect else repl_loop D lines)
      else repl_loop D lines)"

text \<open>What \<open>main\<close> reads from the configuration, the timeout apart: port, \<^verbatim>\<open>auto_reconnect\<close> and the addresses.\<close>

definition tester_load_config :: "yaml res \<Rightarrow> ydict" where
  "tester_load_config doc = (case doc of Inr (YMap d) \<Rightarrow> d | _ \<Rightarrow> [])"

definition tester_settings :: "py_conv \<Rightarrow> ydict \<Rightarrow> (int \<times> bool \<times> int \<times> int) res" where
  "tester_settings C cfg =
     (let target = get cfg ''target'' (YMap []); dc = get cfg ''doip'' (YMap []) in
      ebind (ebind (obj_get target ''port'' (YInt 13400)) (py_int_of C)) (\<lambda>p.
      ebind (obj_get target ''auto_reconnect'' (YBool True)) (\<lambda>auto.
      ebind (ebind (obj_get dc ''tester_logical_addr'' (YStr ''0x0E00'')) (int_auto_of C)) (\<lambda>a.
      ebind (ebind (obj_get dc ''ecu_logical_addr'' (YStr ''0x0003'')) (int_auto_of C)) (\<lambda>e.
      Inr (p, Config_Load.truthy auto, a, e))))))"

end
