(* ===== verification/Tester_Props.thy ===== *)
theory Tester_Props
  imports Pc_Tester Echo_Props
begin

text \<open>
  The tester: what its background reader hides and keeps, how often one line of input is sent, and
  which answers it takes for which command.
\<close>

section \<open>Frames\<close>

lemma tester_build_eq: "tester_build pt pl = echo_build pt pl 2"
  by (simp add: tester_build_def echo_build_def Let_def)

text \<open>The tester's builder as an instance of the contract, its version fixed.\<close>

lemma tester_build_Inr:
  "tester_build pt pl = Inr fr \<longleftrightarrow> frame_args_ok pt pl 2 \<and> fr = doip_header 2 pt (int (length pl)) @ pl"
  by (simp add: tester_build_eq echo_codec.build_Inr_iff)

lemma tester_read_frame_unbounded: "tester_read_frame = read_frame None"
  by (simp add: tester_read_frame_def read_frame_def)

lemma tester_ptype_eq: "8 \<le> length fr \<Longrightarrow> tester_ptype fr = Inr (from_be (py_slice 2 4 fr))"
  by (simp add: tester_ptype_def unpack_uint_def)

text \<open>Displaying a frame never fails.\<close>

lemma Inr_if: "(b \<Longrightarrow> \<exists>x. m = Inr x) \<Longrightarrow> (\<not> b \<Longrightarrow> \<exists>x. n = Inr x) \<Longrightarrow> \<exists>x. (if b then m else n) = Inr x"
  by simp

lemma print_response_total: "8 \<le> length fr \<Longrightarrow> \<exists>x. print_response fr = Inr x"
  unfolding print_response_def Let_def by (simp only: tester_ptype_eq ebind_Inr, intro Inr_if) (auto simp: unpack_uint_def)

lemma show_response_ok:
  "8 \<le> length fr \<Longrightarrow> show_response fr s = (Inr (), s\<lparr>t_shown := t_shown s @ [fr]\<rparr>)"
  using print_response_total [of fr] by (auto simp: show_response_def)

lemma unknown_target_shown_unreachable:
  "map_of DIAG_NACK_CODES NACK_UNKNOWN_TARGET_ADDRESS = Some ''Target unreachable''"
  by (simp add: DIAG_NACK_CODES_def nack_codes)

section \<open>The background reader\<close>

abbreviation is_probe :: "bytes \<Rightarrow> bool" where
  "is_probe fr \<equiv> from_be (py_slice 2 4 fr) = PT_ALIVE_CHECK_REQUEST"

definition alive_reply :: "int \<Rightarrow> bytes" where
  "alive_reply a = doip_header 2 PT_ALIVE_CHECK_RESPONSE 2 @ int_be 2 a"

lemma reader_frame_probe:
  assumes "8 \<le> length fr" "is_probe fr" "from_be (py_slice 4 8 fr) = 0" "t_writer s" "\<not> t_lost s" "0 \<le> t_addr s" "t_addr s < 65536"
  shows "reader_frame fr s = (Inr (), s\<lparr>t_out := t_out s @ [alive_reply (t_addr s)]\<rparr>)"
proof -
  have "tester_build PT_ALIVE_CHECK_RESPONSE (int_be 2 (t_addr s)) = Inr (alive_reply (t_addr s))"
    by (simp add: tester_build_Inr alive_reply_def frame_args_ok_def payload_types)
  moreover have "tester_plen fr = Inr 0" using assms(1,3) by (simp add: tester_plen_def unpack_uint_def)
  ultimately show ?thesis
    using assms by (simp add: reader_frame_def tester_ptype_eq pack_uint_def tester_send_frame_def tester_send_def)
qed

lemma reader_frame_other:
  "8 \<le> length fr \<Longrightarrow> \<not> is_probe fr \<Longrightarrow> reader_frame fr s = (Inr (), s\<lparr>t_queue := t_queue s @ [fr]\<rparr>)"
  by (simp add: reader_frame_def tester_ptype_eq)

text \<open>While the connection stands, the background reader answers every Alive Check Request at once
  with the tester's own address and hides it from the commands; every other frame is queued, in the order of
  arrival, and nothing else is sent.\<close>

theorem tester_reader_filters:
  assumes "t_reading s" "t_writer s" "\<not> t_lost s" "0 \<le> t_addr s" "t_addr s < 65536"
    "\<forall>(t, fr) \<in> set tfs. t \<le> t_now s \<and> 8 \<le> length fr \<and> (is_probe fr \<longrightarrow> from_be (py_slice 4 8 fr) = 0)"
  shows "reader_catch_up (map (\<lambda>(t, fr). (t, Frame fr)) tfs) s =
    s\<lparr>t_arrivals := [], t_queue := t_queue s @ filter (\<lambda>fr. \<not> is_probe fr) (map snd tfs),
      t_out := t_out s @ replicate (length (filter is_probe (map snd tfs))) (alive_reply (t_addr s))\<rparr>"
  using assms
proof (induction tfs arbitrary: s)
  case Nil
  then show ?case by simp
next
  case (Cons tf tfs)
  obtain t fr where tf: "tf = (t, fr)" by (cases tf)
  with Cons.prems have fr: "t \<le> t_now s" "8 \<le> length fr" "is_probe fr \<Longrightarrow> from_be (py_slice 4 8 fr) = 0" by auto
  show ?case
  proof (cases "is_probe fr")
    case True
    then have "reader_turn (Frame fr) s = s\<lparr>t_out := t_out s @ [alive_reply (t_addr s)]\<rparr>"
      using fr Cons.prems by (simp add: reader_turn_def reader_frame_probe)
    with Cons.IH [of "s\<lparr>t_out := t_out s @ [alive_reply (t_addr s)]\<rparr>"] Cons.prems fr True tf show ?thesis by simp
  next
    case False
    then have "reader_turn (Frame fr) s = s\<lparr>t_queue := t_queue s @ [fr]\<rparr>"
      using fr by (simp add: reader_turn_def reader_frame_other)
    with Cons.IH [of "s\<lparr>t_queue := t_queue s @ [fr]\<rparr>"] Cons.prems fr False tf show ?thesis by simp
  qed
qed

section \<open>How often a line is sent\<close>

definition requests :: "tester \<Rightarrow> nat" where
  "requests s = length (filter (\<lambda>fr. from_be (py_slice 2 4 fr) = PT_DIAGNOSTIC_MESSAGE) (t_out s))"

text \<open>\<open>costs k d m\<close>: the computation \<open>m\<close> sends at most \<open>k\<close> Diagnostic Messages and connects at most \<open>d\<close> times.\<close>

definition costs :: "nat \<Rightarrow> nat \<Rightarrow> (tester, 'a) py \<Rightarrow> bool" where
  "costs k d m \<longleftrightarrow>
     (\<forall>s. requests (snd (m s)) \<le> requests s + k \<and> t_dials (snd (m s)) \<le> t_dials s + d)"

named_theorems cost_rules

lemma costs_weaken: "costs k d m \<Longrightarrow> k \<le> k' \<Longrightarrow> d \<le> d' \<Longrightarrow> costs k' d' m"
  unfolding costs_def by (meson add_left_mono le_trans)

lemma costsD: "costs k d m \<Longrightarrow> m s = (r, s') \<Longrightarrow> requests s' \<le> requests s + k \<and> t_dials s' \<le> t_dials s + d"
  by (metis costs_def snd_conv)

lemma costsI: "(\<And>s r s'. m s = (r, s') \<Longrightarrow> requests s' \<le> requests s + k \<and> t_dials s' \<le> t_dials s + d) \<Longrightarrow> costs k d m"
  unfolding costs_def by (metis prod.collapse)

lemma costs_bnd:
  assumes m: "costs k d m" and f: "\<And>a. costs k' d' (f a)" and b: "k + k' \<le> kk" "d + d' \<le> dd"
  shows "costs kk dd (bnd m f)"
proof (rule costsI)
  fix s r s' assume run: "bnd m f s = (r, s')"
  obtain x t where x: "m s = (x, t)" by fastforce
  note m' = costsD [OF m x]
  show "requests s' \<le> requests s + kk \<and> t_dials s' \<le> t_dials s + dd"
  proof (cases x)
    case (Inl e)
    with run x m' b show ?thesis by (auto simp: bnd_Inl)
  next
    case (Inr a)
    with run x have "f a t = (r, s')" by (simp add: bnd_Inr)
    from costsD [OF f this] m' b show ?thesis by auto
  qed
qed

lemma costs_try:
  assumes m: "costs k d m" and h: "\<And>e. costs k' d' (h e)" and b: "k + k' \<le> kk" "d + d' \<le> dd"
  shows "costs kk dd (try_catch m h)"
proof (rule costsI)
  fix s r s' assume run: "try_catch m h s = (r, s')"
  obtain x t where x: "m s = (x, t)" by fastforce
  note m' = costsD [OF m x]
  show "requests s' \<le> requests s + kk \<and> t_dials s' \<le> t_dials s + dd"
  proof (cases x)
    case (Inl e)
    with run x have "h e t = (r, s')" by (simp add: try_catch_def)
    from costsD [OF h this] m' b show ?thesis by auto
  next
    case (Inr a)
    with run x m' b show ?thesis by (auto simp: try_catch_def)
  qed
qed

lemma costs_seq: "costs k d m \<Longrightarrow> costs k' d' n \<Longrightarrow> k + k' \<le> kk \<Longrightarrow> d + d' \<le> dd \<Longrightarrow> costs kk dd (seq m n)"
  unfolding seq_def by (rule costs_bnd)

lemma costs_basic [cost_rules]:
  "costs k d (ret a)" "costs k d (raise e)" "costs k d (lift r)" "costs k d (gets g)"
  by (simp_all add: costs_def)

lemma costs_modify: "(\<And>s. t_out (g s) = t_out s \<and> t_dials (g s) = t_dials s) \<Longrightarrow> costs k d (modify g)"
  by (simp add: costs_def requests_def)

lemma costs_if [cost_rules]: "(b \<Longrightarrow> costs k d m) \<Longrightarrow> (\<not> b \<Longrightarrow> costs k d n) \<Longrightarrow> costs k d (if b then m else n)"
  by simp

lemma costs_bnd0: "costs 0 0 m \<Longrightarrow> (\<And>a. costs k d (f a)) \<Longrightarrow> costs k d (bnd m f)"
  by (rule costs_bnd) auto

lemma costs_seq0: "costs 0 0 m \<Longrightarrow> costs k d n \<Longrightarrow> costs k d (seq m n)"
  by (rule costs_seq) auto

lemma costs_send_frame: "costs (if pt = PT_DIAGNOSTIC_MESSAGE then 1 else 0) 0 (tester_send_frame pt pl)"
proof (rule costsI)
  fix s r s' assume run: "tester_send_frame pt pl s = (r, s')"
  show "requests s' \<le> requests s + (if pt = PT_DIAGNOSTIC_MESSAGE then 1 else 0) \<and> t_dials s' \<le> t_dials s + 0"
  proof (cases "tester_build pt pl")
    case (Inl e)
    with run show ?thesis by (simp add: tester_send_frame_def bnd_def)
  next
    case (Inr fr)
    then have "from_be (py_slice 2 4 fr) = pt"
      by (auto simp: tester_build_Inr frame_args_ok_def from_be_int_be)
    with Inr run show ?thesis
      by (auto simp: tester_send_frame_def tester_send_def requests_def split: if_splits)
  qed
qed

lemma costs_send_other [cost_rules]: "pt \<noteq> PT_DIAGNOSTIC_MESSAGE \<Longrightarrow> costs k d (tester_send_frame pt pl)"
  using costs_send_frame [of pt pl] by (auto elim: costs_weaken)

lemma costs_reader_frame: "costs 0 0 (reader_frame fr)"
  unfolding reader_frame_def
  by (intro costs_bnd0 cost_rules costs_modify) (simp_all add: payload_types)

lemma requests_simps [simp]:
  "requests (s\<lparr>t_lost := b\<rparr>) = requests s" "requests (s\<lparr>t_now := n\<rparr>) = requests s"
  "requests (s\<lparr>t_arrivals := arr\<rparr>) = requests s" "requests (s\<lparr>t_queue := q\<rparr>) = requests s"
  "requests (reader_stop s) = requests s" "t_dials (reader_stop s) = t_dials s"
  by (simp_all add: requests_def reader_stop_def)

lemma reader_turn_cost: "requests (reader_turn a s) \<le> requests s \<and> t_dials (reader_turn a s) \<le> t_dials s"
proof (cases a)
  case (Frame fr)
  obtain r s' where "reader_frame fr s = (r, s')" by fastforce
  with costsD [OF costs_reader_frame this] Frame show ?thesis by (cases r) (auto simp: reader_turn_def)
qed (simp_all add: reader_turn_def)

lemma recv_wait_cost: "recv_wait dl arr s = (r, s') \<Longrightarrow> requests s' \<le> requests s \<and> t_dials s' \<le> t_dials s"
proof (induction arr arbitrary: s)
  case Nil
  then show ?case by (subst (asm) recv_wait.simps) (auto split: list.splits)
next
  case (Cons ta arr)
  obtain t a where ta: "ta = (t, a)" by (cases ta)
  let ?s1 = "s\<lparr>t_now := max (t_now s) t\<rparr>"
  let ?s2 = "if t_reading s then reader_turn a ?s1 else if a = Reset then ?s1\<lparr>t_lost := True\<rparr> else ?s1"
  have "requests ?s2 \<le> requests s \<and> t_dials ?s2 \<le> t_dials s" using reader_turn_cost [of a ?s1] by simp
  then show ?case
    using Cons.prems Cons.IH [of ?s2] ta
    by (subst (asm) recv_wait.simps) (auto simp: Let_def split: list.splits if_splits)
qed

lemma costs_recv [cost_rules]: "costs k d (tester_recv tmo)"
  by (rule costs_weaken [of 0 0], rule costsI) (auto simp: tester_recv_def Let_def dest: recv_wait_cost)

lemma costs_show [cost_rules]: "costs k d (show_response fr)"
  unfolding show_response_def by (intro costs_bnd0 cost_rules costs_modify) simp

lemma costs_activate [cost_rules]: "costs k d (cmd_activate a)"
  unfolding cmd_activate_def Let_def
  by (intro costs_bnd0 costs_seq0 cost_rules costs_modify) (simp_all add: payload_types)

lemma costs_diag: "costs 1 0 (cmd_diag u)"
proof -
  have t: "costs 0 0 (try_catch (bnd (tester_recv (Some 2000)) show_response) (\<lambda>e. if e = TimeoutError then ret () else raise e))"
    by (rule costs_try [of 0 0 _ 0 0]) (auto intro!: costs_bnd0 cost_rules)
  have "costs 1 0 (tester_send_frame PT_DIAGNOSTIC_MESSAGE pl)" for pl
    using costs_send_frame [of PT_DIAGNOSTIC_MESSAGE pl] by simp
  then show ?thesis
    unfolding cmd_diag_def
    by (intro costs_bnd0 cost_rules) (rule costs_seq [of 1 0 _ 0 0], auto intro!: costs_bnd0 costs_seq0 cost_rules t)
qed

lemma costs_run_command: "costs 1 0 (run_command parts)"
  unfolding run_command_def Let_def cmd_target_def cmd_alive_def cmd_status_def cmd_power_def
  by (intro cost_rules costs_bnd0 costs_seq0 costs_diag)
    (auto intro!: cost_rules costs_modify simp: payload_types split: option.split)

lemma costs_reconnect: "costs 0 1 (tester_reconnect D)"
proof -
  have "costs 0 1 (tester_connect D)"
    by (rule costsI) (auto simp: tester_connect_def requests_def split: prod.splits option.splits)
  moreover have "costs 0 0 (modify tester_disconnect)"
    by (rule costs_modify) (simp add: tester_disconnect_def reader_stop_def)
  ultimately have "costs 0 1 (seq (modify tester_disconnect) (seq (tester_connect D)
      (bnd (cmd_activate None) (\<lambda>ok. if \<not> ok then ret False else ret True))))"
    by (intro costs_seq0 costs_seq [of 0 1 _ 0 0] costs_bnd0 cost_rules) auto
  then show ?thesis
    unfolding tester_reconnect_def by (rule costs_try [of 0 1 _ 0 0]) (auto intro!: cost_rules)
qed

lemma costs_give_up: "costs k d (seq (modify tester_disconnect) (ret False))"
  by (intro costs_seq0 cost_rules costs_modify) (simp add: tester_disconnect_def reader_stop_def)

lemma costs_attempt: "costs n (n - 1) (attempt D n parts)"
proof (induction n)
  case 0
  show ?case unfolding attempt.simps by (rule costs_give_up)
next
  case (Suc n)
  have r: "costs n n (bnd (if 0 < n then tester_reconnect D else ret False)
      (\<lambda>ok. if ok then attempt D n parts else seq (modify tester_disconnect) (ret False)))"
  proof (cases n)
    case 0
    then show ?thesis using costs_give_up [of 0 0] by (simp only: less_irrefl if_False bnd_ret)
  next
    case (Suc m)
    have "costs n (n - 1) (if ok then attempt D n parts else seq (modify tester_disconnect) (ret False))" for ok
      using Suc.IH costs_give_up by simp
    then show ?thesis
      using costs_reconnect [of D] Suc by (intro costs_bnd [of 0 1 _ n "n - 1"]) auto
  qed
  have "costs (Suc n) n (attempt D (Suc n) parts)"
    unfolding attempt.simps
  proof (rule costs_try [of 1 0 _ n n])
    show "costs 1 0 (seq (run_command parts) (ret True))"
      by (rule costs_seq [of 1 0 _ 0 0, OF costs_run_command]) (simp_all add: costs_basic)
  qed (intro cost_rules r, simp_all)
  then show ?case by simp
qed

text \<open>One line of input sends at most three Diagnostic Messages and opens at most two new connections,
  whatever the network does; without automatic reconnection at most one message and no connection.\<close>

theorem retries_bounded:
  assumes "repl_line D line s = (r, s')"
  shows "requests s' \<le> requests s + ATTEMPTS s \<and> t_dials s' \<le> t_dials s + (ATTEMPTS s - 1)"
proof -
  have g: "costs k d (seq (modify tester_disconnect) (ret False))" for k d by (rule costs_give_up)
  have a: "costs (ATTEMPTS s) (ATTEMPTS s - 1) (attempt D (ATTEMPTS s) parts)" for parts by (rule costs_attempt)
  show ?thesis
    using assms costsD [OF a] costsD [OF g] unfolding repl_line_def Let_def by (auto split: if_splits)
qed

section \<open>Commands and their answers\<close>

text \<open>A tester at rest on an open connection.\<close>

definition tester_ready :: "tester \<Rightarrow> bool" where
  "tester_ready s \<longleftrightarrow> t_writer s \<and> \<not> t_lost s \<and> t_reading s \<and> \<not> t_closed s \<and> t_queue s = []
     \<and> 0 \<le> t_addr s \<and> t_addr s < 65536 \<and> 0 \<le> t_ecu s \<and> t_ecu s < 65536"

abbreviation plain_frame :: "bytes \<Rightarrow> bool" where
  "plain_frame fr \<equiv> 8 \<le> length fr \<and> \<not> is_probe fr"

lemma recv_next:
  assumes "tester_ready s" "t_arrivals s = (t, Frame fr) # rest" "plain_frame fr"
    "t \<le> t_now s + (case tmo of None \<Rightarrow> t_timeout s | Some x \<Rightarrow> x)"
  shows "tester_recv tmo s = (Inr fr, s\<lparr>t_now := max (t_now s) t, t_arrivals := rest\<rparr>)"
proof -
  let ?dl = "t_now s + (case tmo of None \<Rightarrow> t_timeout s | Some x \<Rightarrow> x)"
  let ?s1 = "s\<lparr>t_now := max (t_now s) t, t_queue := [fr]\<rparr>"
  have "reader_turn (Frame fr) (s\<lparr>t_now := max (t_now s) t\<rparr>) = ?s1"
    using assms(1,3) by (simp add: reader_turn_def reader_frame_other tester_ready_def)
  then have "recv_wait ?dl ((t, Frame fr) # rest) s = recv_wait ?dl rest ?s1"
    using assms by (subst recv_wait.simps) (simp add: tester_ready_def Let_def)
  also have "\<dots> = (Inr fr, ?s1\<lparr>t_queue := [], t_arrivals := rest\<rparr>)"
    by (subst recv_wait.simps) simp
  also have "?s1\<lparr>t_queue := [], t_arrivals := rest\<rparr> = s\<lparr>t_now := max (t_now s) t, t_arrivals := rest\<rparr>"
    using assms(1) by (cases s) (simp add: tester_ready_def)
  finally show ?thesis using assms(2) by (simp add: tester_recv_def Let_def)
qed

lemma recv_show:
  assumes "tester_ready s" "t_arrivals s = (t, Frame fr) # rest" "plain_frame fr"
    "t \<le> t_now s + (case tmo of None \<Rightarrow> t_timeout s | Some x \<Rightarrow> x)"
  shows "bnd (tester_recv tmo) show_response s =
    (Inr (), s\<lparr>t_now := max (t_now s) t, t_arrivals := rest, t_shown := t_shown s @ [fr]\<rparr>)"
  using recv_next [OF assms] assms(3) by (simp add: bnd_def show_response_ok)

lemma tester_send_ready:
  "tester_ready s \<Longrightarrow> frame_args_ok pt pl 2 \<Longrightarrow>
     tester_send_frame pt pl s = (Inr (), s\<lparr>t_out := t_out s @ [doip_header 2 pt (int (length pl)) @ pl]\<rparr>)"
  by (simp add: tester_send_frame_def tester_build_eq echo_codec.build_ok tester_send_def tester_ready_def)

text \<open>A request, its acknowledgement and one more frame: both are shown, nothing more is read.\<close>

lemma cmd_diag_acked:
  assumes r: "tester_ready s" "t_activated s" and len: "int (length req) + 4 < 2 ^ 32"
    and arr: "t_arrivals s = (t1, Frame ack) # (t2, Frame ans) # rest" "plain_frame ack" "plain_frame ans"
    and ack: "from_be (py_slice 2 4 ack) = PT_DIAGNOSTIC_POSITIVE_ACK"
    and t: "t1 \<le> t_now s + t_timeout s" "t2 \<le> max (t_now s) t1 + 2000"
  shows "cmd_diag req s = (Inr (), s\<lparr>t_out := t_out s @ [diag_request (t_addr s) (t_ecu s) req],
     t_now := max (max (t_now s) t1) t2, t_arrivals := rest, t_shown := t_shown s @ [ack, ans]\<rparr>)"
proof -
  let ?pl = "int_be 2 (t_addr s) @ int_be 2 (t_ecu s) @ req"
  let ?s1 = "s\<lparr>t_out := t_out s @ [diag_request (t_addr s) (t_ecu s) req]\<rparr>"
  let ?s2 = "?s1\<lparr>t_now := max (t_now s) t1, t_arrivals := (t2, Frame ans) # rest\<rparr>"
  have "frame_args_ok PT_DIAGNOSTIC_MESSAGE ?pl 2" using len by (simp add: frame_args_ok_def payload_types)
  then have send: "tester_send_frame PT_DIAGNOSTIC_MESSAGE ?pl s = (Inr (), ?s1)"
    using r(1) by (simp add: tester_send_ready diag_request_def add.commute)
  have r1: "tester_ready ?s1" "tester_ready (?s2\<lparr>t_shown := t_shown s @ [ack]\<rparr>)" using r(1) by (simp_all add: tester_ready_def)
  have recv1: "tester_recv None ?s1 = (Inr ack, ?s2)"
    using recv_next [OF r1(1), of t1 ack "(t2, Frame ans) # rest" None] arr t by simp
  have recv2: "bnd (tester_recv (Some 2000)) show_response (?s2\<lparr>t_shown := t_shown s @ [ack]\<rparr>)
      = (Inr (), ?s2\<lparr>t_shown := t_shown s @ [ack, ans], t_now := max (max (t_now s) t1) t2, t_arrivals := rest\<rparr>)"
    using recv_show [OF r1(2), of t2 ans rest "Some 2000"] arr t by simp
  have pk: "ebind (pack_HH (t_addr s) (t_ecu s)) (\<lambda>a. Inr (a @ req)) = Inr ?pl"
    using r(1) by (simp add: tester_ready_def pack_uint_def)
  show ?thesis
    using r(2) arr(2) ack
    by (simp add: cmd_diag_def pk seq_def bnd_Inr [of "tester_send_frame PT_DIAGNOSTIC_MESSAGE ?pl", OF send]
        bnd_Inr [of "tester_recv None", OF recv1] bnd_Inr [of "show_response ack", OF show_response_ok] tester_ptype_eq
        try_catch_def recv2)
qed

lemma cmd_status_next:
  assumes "tester_ready s" "t_arrivals s = (t, Frame fr) # rest" "plain_frame fr" "t \<le> t_now s + t_timeout s"
  shows "\<exists>s'. cmd_status s = (Inr (), s') \<and> t_shown s' = t_shown s @ [fr] \<and> t_arrivals s' = rest"
proof -
  let ?s1 = "s\<lparr>t_out := t_out s @ [doip_header 2 PT_ENTITY_STATUS_REQUEST 0]\<rparr>"
  have send: "tester_send_frame PT_ENTITY_STATUS_REQUEST [] s = (Inr (), ?s1)"
    using assms(1) by (simp add: tester_send_ready frame_args_ok_def payload_types)
  have "tester_ready ?s1" using assms(1) by (simp add: tester_ready_def)
  from recv_show [OF this, of t fr rest None] assms send show ?thesis
    by (simp add: cmd_status_def seq_def bnd_Inr [of "tester_send_frame PT_ENTITY_STATUS_REQUEST []", OF send])
qed

lemma diag_request_plain: "plain_frame (diag_request a b x)"
  by (simp add: diag_request_def from_be_int_be payload_types)

lemma echo_ack_plain: "plain_frame (echo_ack a b)" "from_be (py_slice 2 4 (echo_ack a b)) = PT_DIAGNOSTIC_POSITIVE_ACK"
  by (simp_all add: echo_ack_def from_be_int_be payload_types)

text \<open>after a ResponsePending the tester is one answer behind. The command \<^verbatim>\<open>diag\<close> shows the acknowledgement
  and the ResponsePending and returns; the final answer to the request is then shown as the answer
  to the next command, here \<^verbatim>\<open>status\<close>, whose own answer is left for the command after it.\<close>

theorem pending_shifts_answers:
  assumes r: "tester_ready s" "t_activated s" and len: "int (length us) + 5 < 2 ^ 32"
    and arr: "t_arrivals s =
      [(t1, Frame (echo_ack (t_addr s) (t_ecu s))), (t2, Frame (diag_request (t_ecu s) (t_addr s) [0x7F, u, 0x78])),
       (t3, Frame (diag_request (t_ecu s) (t_addr s) ((u OR 0x40) # rs))), (t4, Frame status)]"
    and t: "t1 \<le> t_now s + t_timeout s" "t2 \<le> max (t_now s) t1 + 2000" "t3 \<le> max (max (t_now s) t1) t2 + t_timeout s"
  shows "\<exists>s'. seq (cmd_diag (u # us)) cmd_status s = (Inr (), s') \<and> t_arrivals s' = [(t4, Frame status)]
    \<and> t_shown s' = t_shown s @ [echo_ack (t_addr s) (t_ecu s), diag_request (t_ecu s) (t_addr s) [0x7F, u, 0x78],
        diag_request (t_ecu s) (t_addr s) ((u OR 0x40) # rs)]"
proof -
  let ?ack = "echo_ack (t_addr s) (t_ecu s)" and ?pend = "diag_request (t_ecu s) (t_addr s) [0x7F, u, 0x78]"
    and ?fin = "diag_request (t_ecu s) (t_addr s) ((u OR 0x40) # rs)"
  define s1 where "s1 = s\<lparr>t_out := t_out s @ [diag_request (t_addr s) (t_ecu s) (u # us)],
    t_now := max (max (t_now s) t1) t2, t_arrivals := [(t3, Frame ?fin), (t4, Frame status)], t_shown := t_shown s @ [?ack, ?pend]\<rparr>"
  have d: "cmd_diag (u # us) s = (Inr (), s1)"
    unfolding s1_def by (rule cmd_diag_acked) (use r len arr t echo_ack_plain diag_request_plain in simp_all)
  have "tester_ready s1" using r(1) by (simp add: s1_def tester_ready_def)
  then obtain s' where "cmd_status s1 = (Inr (), s')" "t_shown s' = t_shown s1 @ [?fin]" "t_arrivals s' = [(t4, Frame status)]"
    using cmd_status_next [of s1 t3 ?fin "[(t4, Frame status)]"] diag_request_plain t(3) by (auto simp: s1_def)
  with d show ?thesis by (auto simp: seq_Inr s1_def)
qed

definition ex_tester :: "(int \<times> arrival) list \<Rightarrow> tester" where
  "ex_tester arr =
     \<lparr>t_addr = 0x0E80, t_ecu = 0x1001, t_timeout = 5000, t_auto = True, t_activated = True, t_writer = True,
      t_lost = False, t_reading = True, t_closed = False, t_queue = [], t_arrivals = arr, t_out = [], t_shown = [],
      t_now = 0, t_dials = 1\<rparr>"

theorem pending_shifts_answers_witness:
  "\<exists>s'. seq (cmd_diag [0x31, 1]) cmd_status (ex_tester
      [(10, Frame (echo_ack 0x0E80 0x1001)), (20, Frame (diag_request 0x1001 0x0E80 [0x7F, 0x31, 0x78])),
       (900, Frame (diag_request 0x1001 0x0E80 [0x71, 1])), (1000, Frame [2, 0xFD, 0x40, 2, 0, 0, 0, 3, 0, 1, 1])]) = (Inr (), s')
    \<and> last (t_shown s') = diag_request 0x1001 0x0E80 [0x71, 1]"
  using pending_shifts_answers [of "ex_tester
      [(10, Frame (echo_ack 0x0E80 0x1001)), (20, Frame (diag_request 0x1001 0x0E80 [0x7F, 0x31, 0x78])),
       (900, Frame (diag_request 0x1001 0x0E80 [0x71, 1])), (1000, Frame [2, 0xFD, 0x40, 2, 0, 0, 0, 3, 0, 1, 1])]"
      "[1]" 10 20 "0x31" 900 "[1]" 1000 "[2, 0xFD, 0x40, 2, 0, 0, 0, 3, 0, 1, 1]"]
  by (auto simp: ex_tester_def tester_ready_def)

theorem tester_reader_filters_witness:
  "reader_catch_up [(1, Frame [2, 0xFD, 0, 7, 0, 0, 0, 0]), (2, Frame [2, 0xFD, 0x40, 4, 0, 0, 0, 1, 1])] ((ex_tester [])\<lparr>t_now := 5\<rparr>) =
    (ex_tester [])\<lparr>t_now := 5, t_queue := [[2, 0xFD, 0x40, 4, 0, 0, 0, 1, 1]], t_out := [alive_reply 0x0E80]\<rparr>"
  using tester_reader_filters [of "(ex_tester [])\<lparr>t_now := 5\<rparr>"
      "[(1, [2, 0xFD, 0, 7, 0, 0, 0, 0]), (2, [2, 0xFD, 0x40, 4, 0, 0, 0, 1, 1])]"]
  by (simp add: ex_tester_def py_slice_def from_be_def payload_types)

theorem retries_bounded_witness:
  "\<exists>r s'. repl_line (\<lambda>n t. (t, None)) ''diag 3E 00'' (ex_tester []) = (r, s') \<and> requests s' \<le> 3 \<and> t_dials s' \<le> 3"
proof -
  obtain r s' where run: "repl_line (\<lambda>n t. (t, None)) ''diag 3E 00'' (ex_tester []) = (r, s')"
    by (cases "repl_line (\<lambda>n t. (t, None)) ''diag 3E 00'' (ex_tester [])")
  with retries_bounded [OF run] show ?thesis by (auto simp: ex_tester_def ATTEMPTS_def requests_def)
qed

section \<open>Reconnecting\<close>

text \<open>Frames that a list of arrivals brings.\<close>

definition frames_of :: "(int \<times> arrival) list \<Rightarrow> bytes set" where
  "frames_of arr = {fr. \<exists>t. (t, Frame fr) \<in> set arr}"

definition fresh :: "bytes set \<Rightarrow> tester \<Rightarrow> bool" where
  "fresh F s \<longleftrightarrow> set (t_queue s) \<subseteq> F \<and> frames_of (t_arrivals s) \<subseteq> F"

lemma reader_turn_queue:
  "set (t_queue (reader_turn a s)) \<subseteq> set (t_queue s) \<union> frames_of [(t, a)]"
  by (auto simp: reader_turn_def reader_stop_def reader_frame_def bnd_def tester_send_frame_def tester_send_def frames_of_def
      split: arrival.splits sum.splits if_splits)

lemma recv_wait_fresh:
  "recv_wait dl arr s = (r, s') \<Longrightarrow> set (t_queue s) \<subseteq> F \<Longrightarrow> frames_of arr \<subseteq> F \<Longrightarrow>
     fresh F s' \<and> (\<forall>fr. r = Inr fr \<longrightarrow> fr \<in> F) \<and> t_shown s' = t_shown s \<and> t_addr s' = t_addr s \<and> t_writer s' = t_writer s"
proof (induction arr arbitrary: s)
  case Nil
  then show ?case by (subst (asm) recv_wait.simps) (auto simp: fresh_def split: list.splits)
next
  case (Cons ta arr)
  obtain t a where ta: "ta = (t, a)" by (cases ta)
  let ?s1 = "s\<lparr>t_now := max (t_now s) t\<rparr>"
  let ?s2 = "if t_reading s then reader_turn a ?s1 else if a = Reset then ?s1\<lparr>t_lost := True\<rparr> else ?s1"
  have fa: "frames_of [(t, a)] \<subseteq> F" "frames_of arr \<subseteq> F" using Cons.prems(3) ta by (auto simp: frames_of_def)
  have same: "t_shown (reader_turn a x) = t_shown x" "t_addr (reader_turn a x) = t_addr x" "t_writer (reader_turn a x) = t_writer x" for x
    by (auto simp: reader_turn_def reader_stop_def reader_frame_def bnd_def tester_send_frame_def tester_send_def
        split: arrival.splits sum.splits if_splits)
  have q: "set (t_queue ?s2) \<subseteq> F" using reader_turn_queue [of a ?s1 t] fa(1) Cons.prems(2) by auto
  have step: "recv_wait dl arr ?s2 = (r, s') \<Longrightarrow> ?case"
    using Cons.IH [OF _ q fa(2)] same by (auto split: if_splits)
  show ?case
    using Cons.prems ta step
    by (subst (asm) recv_wait.simps) (auto simp: Let_def fresh_def split: list.splits if_splits)
qed

lemma tester_recv_fresh:
  assumes "tester_recv tmo s = (r, s')" "fresh F s"
  shows "fresh F s' \<and> (\<forall>fr. r = Inr fr \<longrightarrow> fr \<in> F) \<and> t_shown s' = t_shown s \<and> t_addr s' = t_addr s \<and> t_writer s' = t_writer s"
proof -
  have "recv_wait (t_now s + (case tmo of None \<Rightarrow> t_timeout s | Some t \<Rightarrow> t)) (t_arrivals s) s = (r, s')"
    using assms(1) by (simp add: tester_recv_def Let_def)
  from recv_wait_fresh [OF this, of F] assms(2) show ?thesis by (simp add: fresh_def)
qed

text \<open>A successful activation: the tester holds the address, and exactly the frame that granted it was shown.\<close>

lemma cmd_activate_True:
  assumes "cmd_activate None s = (Inr True, s')" "fresh F s"
  shows "fresh F s' \<and> t_activated s' \<and> t_addr s' = t_addr s \<and> t_writer s'
    \<and> (\<exists>fr \<in> F. t_shown s' = t_shown s @ [fr] \<and> from_be (py_slice 2 4 fr) = PT_ROUTING_ACT_RESPONSE \<and> fr ! 12 = 0x10)"
proof -
  from assms(1) obtain pl s1 resp s2 where send: "tester_send_frame PT_ROUTING_ACT_REQUEST pl s = (Inr (), s1)"
      and recv: "tester_recv None s1 = (Inr resp, s2)"
      and ok: "tester_ptype resp = Inr PT_ROUTING_ACT_RESPONSE" "5 \<le> length (tester_payload resp)" "tester_payload resp ! 4 = 0x10"
      and s': "s' = s2\<lparr>t_shown := t_shown s2 @ [resp], t_addr := t_addr s, t_activated := True\<rparr>"
    by (auto simp: cmd_activate_def Let_def bnd_eq_Inr seq_def show_response_def split: if_splits)
  have s1: "fresh F s1" "t_shown s1 = t_shown s" "t_writer s1"
    using send assms(2) by (auto simp: tester_send_frame_def tester_send_def bnd_eq_Inr fresh_def split: if_splits)
  note f = tester_recv_fresh [OF recv s1(1)]
  have "from_be (py_slice 2 4 resp) = PT_ROUTING_ACT_RESPONSE" "resp ! 12 = 0x10"
    using ok by (auto simp: tester_ptype_def unpack_uint_def tester_payload_def nth_drop split: if_splits)
  with f s1 s' show ?thesis by (auto simp: fresh_def)
qed

text \<open>A reconnect that succeeds leaves a session that is activated under the same address and holds
  nothing of the old connection: the frame that granted the activation and whatever is still queued or
  to come were delivered by the new one, so no stale answer is taken for a new one.\<close>

theorem reconnect_is_fresh:
  assumes "tester_reconnect D s = (Inr True, s')"
  shows "\<exists>t arr. D (t_dials s) (t_now s) = (t, Some arr) \<and> fresh (frames_of arr) s' \<and> t_activated s' \<and> t_addr s' = t_addr s
    \<and> (\<exists>fr \<in> frames_of arr. t_shown s' = t_shown s @ [fr] \<and> from_be (py_slice 2 4 fr) = PT_ROUTING_ACT_RESPONSE \<and> fr ! 12 = 0x10)"
proof -
  let ?d = "tester_disconnect s"
  have d: "t_dials ?d = t_dials s" "t_now ?d = t_now s" "t_shown ?d = t_shown s" "t_addr ?d = t_addr s"
    by (simp_all add: tester_disconnect_def reader_stop_def)
  from assms have "seq (tester_connect D) (bnd (cmd_activate None) (\<lambda>ok. if \<not> ok then ret False else ret True)) ?d = (Inr True, s')"
    by (auto simp: tester_reconnect_def try_catch_def split: prod.splits sum.splits if_splits)
  then obtain s1 where c: "tester_connect D ?d = (Inr (), s1)" and a: "cmd_activate None s1 = (Inr True, s')"
    by (auto simp: seq_def bnd_eq_Inr split: if_splits)
  from c obtain t arr where arr: "D (t_dials s) (t_now s) = (t, Some arr)"
      and s1: "t_queue s1 = []" "t_arrivals s1 = arr" "t_shown s1 = t_shown s" "t_addr s1 = t_addr s"
    using d by (auto simp: tester_connect_def split: prod.splits option.splits)
  have "fresh (frames_of arr) s1" using s1 by (simp add: fresh_def)
  from cmd_activate_True [OF a this] arr s1 show ?thesis by auto
qed

text \<open>A dialer that succeeds and grants.\<close>

definition ex_grant :: bytes where
  "ex_grant = [2, 0xFD, 0, 6, 0, 0, 0, 13, 0x0E, 0x80, 0x10, 1, 0x10, 0, 0, 0, 0, 0, 0, 0, 0]"

definition ex_dialer :: dialer where
  "ex_dialer n t = (t + 5, Some [(t + 10, Frame ex_grant), (t + 20, Eof)])"

theorem reconnect_is_fresh_witness:
  "\<exists>s'. tester_reconnect ex_dialer ((ex_tester [])\<lparr>t_lost := True, t_queue := [[9]]\<rparr>) = (Inr True, s')
    \<and> fresh {ex_grant} s' \<and> t_shown s' = [ex_grant]"
proof -
  let ?s = "(ex_tester [])\<lparr>t_lost := True, t_queue := [[9]]\<rparr>"
  have "fst (tester_reconnect ex_dialer ?s) = Inr True" by code_simp
  then obtain s' where run: "tester_reconnect ex_dialer ?s = (Inr True, s')" by (metis prod.collapse)
  from reconnect_is_fresh [OF run] show ?thesis
    using run by (auto simp: ex_tester_def ex_dialer_def frames_of_def)
qed

end
