(* ===== verification/Tester_Edge_Echo.thy ===== *)
theory Tester_Edge_Echo
  imports Edge_Echo_Link Tester_Props
begin

text \<open>
  The three programs in a row: the tester's command, the EdgeNode's exchange and the Echo ECU's answer.
\<close>

text \<open>C18: a \<^verbatim>\<open>diag\<close> command of the tester, through the EdgeNode, to a socket the Echo ECU has activated. The frame
  the tester sends is the one the EdgeNode forwards; the two frames the Echo ECU writes for it
  reach the tester unchanged and in order, where each hop delivers them within its timers; the
  tester shows exactly the acknowledgement and the response, whose service identifier carries the
  reply bit, and is left with nothing unread. The request's service identifier must not be one whose reply reads
  as a negative response.\<close>

theorem tester_edge_echo_roundtrip:
  assumes tester: "tester_ready s" "t_activated s" "t_addr s = src" "t_ecu s = tgt"
    and edge: "0 < ecu_response_timeout (timers cfg)" "plain_session env e" "\<not> leg_terminal (es_legs e g)"
      "awaits g (map (\<lambda>(t, f). (t, Some f)) tfs) e"
      "timely (ecu_response_timeout (timers cfg)) (es_now e + ecu_pending_max_wait (timers cfg)) False (es_now e) tfs"
    and echo: "ec_activated (ew_conns w i)" "\<not> ec_lost (ew_conns w i)"
      "map snd tfs = echo_answers C config P urandom i (diag_request src tgt (u # us)) w"
      "echo_uds_response C config urandom (u # us) = Inr resp" "int (length resp) + 4 < 2 ^ 32"
    and req: "u OR 0x40 \<noteq> 0x7F" "int (length us) + 5 < 2 ^ 32"
    and hop: "t_arrivals s = [(t1, Frame f1), (t2, Frame f2)]" "t1 \<le> t_now s + t_timeout s" "t2 \<le> max (t_now s) t1 + 2000"
      "\<And>e'. exchange_with_ecu cfg env tgt g (diag_request src tgt (u # us)) (diag_request src tgt (u # us)) e = Some (Inr (), e')
         \<Longrightarrow> [f1, f2] = drop (length (e_out e)) (e_out e')"
  shows "\<exists>s' e'. cmd_diag (u # us) s = (Inr (), s') \<and> t_out s' = t_out s @ [diag_request src tgt (u # us)]
    \<and> exchange_with_ecu cfg env tgt g (diag_request src tgt (u # us)) (diag_request src tgt (u # us)) e = Some (Inr (), e')
    \<and> e_out e' = e_out e @ [echo_ack src tgt, diag_request tgt src resp] \<and> es_conns e' = es_conns e
    \<and> t_shown s' = t_shown s @ [echo_ack src tgt, diag_request tgt src resp] \<and> hd resp = u OR 0x40
    \<and> t_arrivals s' = [] \<and> t_queue s' = []"
proof -
  have addr: "0 \<le> src" "src < 65536" "0 \<le> tgt" "tgt < 65536" using tester by (auto simp: tester_ready_def)
  obtain e' where x: "exchange_with_ecu cfg env tgt g (diag_request src tgt (u # us)) (diag_request src tgt (u # us)) e = Some (Inr (), e')"
      "e_out e' = e_out e @ [echo_ack src tgt, diag_request tgt src resp]" "hd resp = u OR 0x40" "es_conns e' = es_conns e"
    using edge_echo_exchange [where rest = "[]" and tfs = tfs and C = C and config = config and P = P and urandom = urandom and i = i
        and w = w and src = src and tgt = tgt and u = u and us = us and resp = resp and cfg = cfg and env = env and s = e and g = g
        and target = tgt and request = "diag_request src tgt (u # us)"] edge echo req addr
    by auto
  with hop(4) have f: "f1 = echo_ack src tgt" "f2 = diag_request tgt src resp" by auto
  have "cmd_diag (u # us) s = (Inr (), s\<lparr>t_out := t_out s @ [diag_request src tgt (u # us)],
      t_now := max (max (t_now s) t1) t2, t_arrivals := [], t_shown := t_shown s @ [echo_ack src tgt, diag_request tgt src resp]\<rparr>)"
    using cmd_diag_acked [of s "u # us" t1 f1 t2 f2 "[]"] tester req(2) hop f echo_ack_plain diag_request_plain by simp
  with x tester(1) show ?thesis by (auto simp: tester_ready_def)
qed

text \<open>Reading the VIN of an Echo ECU with the default configuration.\<close>

definition ex_vin_response :: bytes where
  "ex_vin_response = [0x62, 0xF1, 0x90] @ replicate 17 0x30"

definition ex_echo_world :: echo_world where
  "ex_echo_world = granted ex_params 0 0x0E80 (new_echo_world\<lparr>ew_next := 1\<rparr>)"

definition ex_echo_tfs :: "(int \<times> bytes) list" where
  "ex_echo_tfs = [(10, echo_ack 0x0E80 0x1001), (20, diag_request 0x1001 0x0E80 ex_vin_response)]"

definition ex_echo_session :: "bytes edge_session" where
  "ex_echo_session = ex_session\<lparr>es_arrivals := \<lambda>g. map (\<lambda>(t, f). (t, Some f)) ex_echo_tfs\<rparr>"

theorem tester_edge_echo_roundtrip_witness:
  "\<exists>s'. cmd_diag [0x22, 0xF1, 0x90]
      (ex_tester [(15, Frame (echo_ack 0x0E80 0x1001)), (25, Frame (diag_request 0x1001 0x0E80 ex_vin_response))]) = (Inr (), s')
    \<and> t_shown s' = [echo_ack 0x0E80 0x1001, diag_request 0x1001 0x0E80 ex_vin_response]"
proof -
  let ?s = "ex_tester [(15, Frame (echo_ack 0x0E80 0x1001)), (25, Frame (diag_request 0x1001 0x0E80 ex_vin_response))]"
    and ?r = "diag_request 0x0E80 0x1001 [0x22, 0xF1, 0x90]"
  have vin: "echo_uds_response ex_conv [] [1, 2, 3, 4] [0x22, 0xF1, 0x90] = Inr ex_vin_response"
    by code_simp
  have len: "int (length ex_vin_response) + 4 < 2 ^ 32" by (simp add: ex_vin_response_def)
  have act: "ec_activated (ew_conns ex_echo_world 0)" "\<not> ec_lost (ew_conns ex_echo_world 0)"
    by (simp_all add: ex_echo_world_def granted_def new_echo_world_def new_echo_conn_def)
  have echo: "map snd ex_echo_tfs = echo_answers ex_conv [] ex_params [1, 2, 3, 4] 0 ?r ex_echo_world"
    unfolding ex_echo_tfs_def by (subst echo_answers_diag [OF _ _ _ _ act vin len]) simp_all
  have edge: "0 < ecu_response_timeout (timers ex_edge_config)" "plain_session ex_env ex_echo_session"
    "\<not> leg_terminal (es_legs ex_echo_session 0)" "awaits 0 (map (\<lambda>(t, f). (t, Some f)) ex_echo_tfs) ex_echo_session"
    "timely (ecu_response_timeout (timers ex_edge_config)) (es_now ex_echo_session + ecu_pending_max_wait (timers ex_edge_config))
       False (es_now ex_echo_session) ex_echo_tfs"
    using plain_ex
    by (simp_all add: ex_edge_config_def ex_echo_session_def ex_session_def plain_session_def open_session_def awaits_def ex_echo_tfs_def)
  have hop: "[echo_ack 0x0E80 0x1001, diag_request 0x1001 0x0E80 ex_vin_response] = drop (length (e_out ex_echo_session)) (e_out e')"
    if "exchange_with_ecu ex_edge_config ex_env 0x1001 0 ?r ?r ex_echo_session = Some (Inr (), e')" for e'
    using edge_echo_exchange [where rest = "[]" and target = "0x1001" and request = ?r, OF edge(1-3) _ echo edge(5) act _ _ _ _ _ _ vin len]
      edge(4) that
    by auto
  show ?thesis
    using tester_edge_echo_roundtrip [of ?s "0x0E80" "0x1001", OF _ _ _ _ edge act echo vin len _ _ _ _ _ hop]
    by (auto simp: ex_tester_def tester_ready_def)
qed

end
