(* ===== verification/Plugin_Load.thy ===== *)
theory Plugin_Load
  imports Doip_Dispatcher Config_Load
begin

text \<open>
  How a VirtualEcu process gets its plugins: the loader (\<^verbatim>\<open>virtual_ecu/virtecu/loader.py\<close>), and \<open>EcuCore\<close> with
  the start and stop of its plugins (\<^verbatim>\<open>core.py\<close>). The import machinery of Python and the code of plugin modules
  are arguments (\<open>host_ops\<close>); modules are objects with identity, named by numbers, and \<^verbatim>\<open>sys.modules\<close> is
  part of the state.
\<close>

section \<open>The process and what it runs on\<close>

text \<open>The state of the process: that of the ECU, the table of modules, and what plugins keep (the extension).\<close>

record ecu_process = ecu +
  sys_modules :: "(string \<times> nat) list"

text \<open>A class object: its name, \<^verbatim>\<open>__module__\<close>, whether it is a subclass of \<open>Plugin\<close> or \<open>Plugin\<close> itself, and its
  constructor, called with keyword arguments.\<close>

record ('p, 'w) pyclass =
  cls_name :: string
  cls_module :: "string option"
  cls_plugin :: bool
  cls_base :: bool
  cls_new :: "ydict \<Rightarrow> ('w, ('p, 'w) plugin) py"

datatype ('p, 'w) pyobj = PyType "('p, 'w) pyclass" | PyOther

text \<open>Python's import machinery, and the variables and the \<^verbatim>\<open>__name__\<close> of a module. \<open>host_spec\<close> tells whether
  \<^verbatim>\<open>spec_from_file_location\<close> finds a loader.\<close>

record ('p, 'w) host_ops =
  host_isfile :: "string \<Rightarrow> bool"
  host_import :: "string \<Rightarrow> ('w, nat) py"
  host_spec :: "string \<Rightarrow> string \<Rightarrow> bool"
  host_module :: "string \<Rightarrow> string \<Rightarrow> ('w, nat) py"
  host_exec :: "nat \<Rightarrow> ('w, unit) py"
  host_vars :: "nat \<Rightarrow> 'w \<Rightarrow> (string \<times> ('p, 'w) pyobj) list"
  host_name :: "nat \<Rightarrow> string"

section \<open>Importing\<close>

text \<open>\<^verbatim>\<open>os.path.basename\<close> and the first part of \<^verbatim>\<open>os.path.splitext\<close>, on POSIX.\<close>

definition path_basename :: "string \<Rightarrow> string" where
  "path_basename p = rev (takeWhile (\<lambda>c. c \<noteq> CHR ''/'') (rev p))"

definition splitext_stem :: "string \<Rightarrow> string" where
  "splitext_stem b =
     (let stem = rev (tl (dropWhile (\<lambda>c. c \<noteq> CHR ''.'') (rev b))) in
      if CHR ''.'' \<in> set b \<and> (\<exists>c \<in> set stem. c \<noteq> CHR ''.'') then stem else b)"

text \<open>The characters below code point 256 that \<^verbatim>\<open>\w\<close> matches.\<close>

definition is_word_char :: "char \<Rightarrow> bool" where
  "is_word_char c =
     (let n = of_char c :: nat in
      48 \<le> n \<and> n \<le> 57 \<or> 65 \<le> n \<and> n \<le> 90 \<or> n = 95 \<or> 97 \<le> n \<and> n \<le> 122
      \<or> n \<in> {0xAA, 0xB2, 0xB3, 0xB5, 0xB9, 0xBA, 0xBC, 0xBD, 0xBE} \<or> 0xC0 \<le> n \<and> n \<noteq> 0xD7 \<and> n \<noteq> 0xF7)"

definition plugin_module_name :: "string \<Rightarrow> string" where
  "plugin_module_name path =
     ''virtecu_plugin_'' @ map (\<lambda>c. if is_word_char c then c else CHR ''_'') (splitext_stem (path_basename path))"

text \<open>\<^verbatim>\<open>ImportError\<close> is one of the exceptions no code tells apart (\<open>OtherError\<close>).\<close>

definition import_spec :: "('p, 'x ecu_process_scheme) host_ops \<Rightarrow> plugin_spec \<Rightarrow> ('x ecu_process_scheme, nat) py" where
  "import_spec h spec =
     (case ps_module spec of
        Some (c # cs) \<Rightarrow> host_import h (c # cs)
      | _ \<Rightarrow>
          let path = (case ps_file spec of None \<Rightarrow> [] | Some p \<Rightarrow> p) in
          if \<not> host_isfile h path then raise OtherError
          else let name = plugin_module_name path in
          if \<not> host_spec h name path then raise OtherError
          else bnd (host_module h name path) (\<lambda>m.
          seq (modify (\<lambda>w. w\<lparr>sys_modules := AList.update name m (sys_modules w)\<rparr>))
          (seq (try_catch (host_exec h m)
                 (\<lambda>e. seq (modify (\<lambda>w. w\<lparr>sys_modules := AList.delete name (sys_modules w)\<rparr>)) (raise e)))
          (ret m))))"

text \<open>\<open>_plugin_classes\<close>: one entry per variable of the module that is bound to such a class, by class name.\<close>

definition plugin_class_of :: "string \<Rightarrow> ('p, 'w) pyobj \<Rightarrow> ('p, 'w) pyclass option" where
  "plugin_class_of name x =
     (case x of
        PyType c \<Rightarrow> if cls_plugin c \<and> \<not> cls_base c \<and> cls_module c = Some name then Some c else None
      | PyOther \<Rightarrow> None)"

definition plugin_classes :: "('p, 'w) host_ops \<Rightarrow> nat \<Rightarrow> 'w \<Rightarrow> ('p, 'w) pyclass list" where
  "plugin_classes h m w =
     sort_key cls_name (List.map_filter (\<lambda>(_, x). plugin_class_of (host_name h m) x) (host_vars h m w))"

section \<open>Loading\<close>

text \<open>The loader's state: the list \<^verbatim>\<open>plugins\<close> beside the process, so that an exception keeps what has been appended.\<close>

type_synonym ('p, 'x) loading = "('p, 'x ecu_process_scheme) plugin list \<times> 'x ecu_process_scheme"

definition in_process :: "('w, 'a) py \<Rightarrow> ('l \<times> 'w, 'a) py" where
  "in_process m s = (case m (snd s) of (r, w) \<Rightarrow> (r, (fst s, w)))"

text \<open>\<^verbatim>\<open>cls(**params)\<close>: keyword arguments have to be strings.\<close>

fun is_ystr :: "yaml \<Rightarrow> bool" where
  "is_ystr (YStr s) = True"
| "is_ystr _ = False"

definition construct :: "('p, 'w) pyclass \<Rightarrow> ydict \<Rightarrow> ('w, ('p, 'w) plugin) py" where
  "construct c params = (if list_all (\<lambda>kv. is_ystr (fst kv)) params then cls_new c params else raise TypeError)"

definition configure :: "plugin_spec \<Rightarrow> nat \<Rightarrow> ('p, 'w) plugin \<Rightarrow> ('p, 'w) plugin" where
  "configure spec index obj =
     (let obj = (case ps_priority spec of None \<Rightarrow> obj | Some p \<Rightarrow> obj\<lparr>p_priority := p\<rparr>)
      in obj\<lparr>p_load_index := int index\<rparr>)"

primrec instantiate ::
    "plugin_spec \<Rightarrow> nat \<Rightarrow> ('p, 'x ecu_process_scheme) pyclass list \<Rightarrow> (('p, 'x) loading, unit) py" where
  "instantiate spec index [] = ret ()"
| "instantiate spec index (c # cs) =
     bnd (in_process (construct c (ps_params spec))) (\<lambda>obj.
     seq (modify (\<lambda>(ps, w). (ps @ [configure spec index obj], w))) (instantiate spec index cs))"

text \<open>\<^verbatim>\<open>except Exception: log; if strict: raise\<close>.\<close>

definition skip_failure :: "bool \<Rightarrow> 'a \<Rightarrow> exn \<Rightarrow> ('s, 'a) py" where
  "skip_failure strict a e = (if strict \<or> \<not> is_Exception e then raise e else ret a)"

definition load_one ::
    "('p, 'x ecu_process_scheme) host_ops \<Rightarrow> bool \<Rightarrow> nat \<Rightarrow> plugin_spec \<Rightarrow> (('p, 'x) loading, unit) py" where
  "load_one h strict index spec =
     (if \<not> ps_enabled spec then ret ()
      else bnd (try_catch (bnd (in_process (import_spec h spec)) (\<lambda>m. ret (Some m))) (skip_failure strict None)) (\<lambda>r.
        case r of
          None \<Rightarrow> ret ()
        | Some m \<Rightarrow>
            try_catch (bnd (gets (\<lambda>(ps, w). plugin_classes h m w)) (\<lambda>classes.
              if classes = [] then ret () else instantiate spec index classes)) (skip_failure strict ())))"

primrec load_specs ::
    "('p, 'x ecu_process_scheme) host_ops \<Rightarrow> bool \<Rightarrow> nat \<Rightarrow> plugin_spec list \<Rightarrow> (('p, 'x) loading, unit) py" where
  "load_specs h strict index [] = ret ()"
| "load_specs h strict index (spec # specs) =
     seq (load_one h strict index spec) (load_specs h strict (Suc index) specs)"

definition load_objects ::
    "('p, 'x ecu_process_scheme) host_ops \<Rightarrow> plugin_spec list \<Rightarrow> bool
      \<Rightarrow> ('x ecu_process_scheme, ('p, 'x ecu_process_scheme) plugin list) py" where
  "load_objects h specs strict w =
     (case load_specs h strict 0 specs ([], w) of
        (Inl e, (_, w')) \<Rightarrow> (Inl e, w')
      | (Inr _, (ps, w')) \<Rightarrow> (Inr ps, w'))"

section \<open>EcuCore\<close>

record ('p, 'w) ecu_core =
  core_config :: ecu_config
  core_strict :: bool
  core_plugins :: "('p, 'w) plugin list"
  core_dispatcher :: "('p, 'w) dispatcher"
  core_doip_hooks :: "('p, 'w) doip_dispatcher"

text \<open>\<open>EcuCore.__init__\<close> with the plugins of the configuration.\<close>

definition new_core ::
    "('p, 'x ecu_process_scheme) host_ops \<Rightarrow> ecu_config \<times> plugins_config
      \<Rightarrow> ('x ecu_process_scheme, ('p, 'x ecu_process_scheme) ecu_core) py" where
  "new_core h cfg =
     seq (modify (\<lambda>w. ecu.extend (new_ecu (fst cfg)) (ecu.more w)))
     (bnd (load_objects h (plugin_specs (snd cfg)) (plugins_strict (snd cfg))) (\<lambda>ps.
      ret \<lparr>core_config = fst cfg, core_strict = plugins_strict (snd cfg), core_plugins = ps,
           core_dispatcher = new_dispatcher ps, core_doip_hooks = new_doip_dispatcher ps\<rparr>))"

text \<open>\<open>startup\<close> and \<open>shutdown\<close>; \<^verbatim>\<open>setup\<close> and \<^verbatim>\<open>teardown\<close> of the plugins are arguments.\<close>

primrec core_startup :: "(('p, 'w) plugin \<Rightarrow> ('w, unit) py) \<Rightarrow> bool \<Rightarrow> ('p, 'w) plugin list \<Rightarrow> ('w, unit) py" where
  "core_startup setup strict [] = ret ()"
| "core_startup setup strict (p # ps) =
     seq (try_catch (setup p) (skip_failure strict ())) (core_startup setup strict ps)"

primrec core_shutdown :: "(('p, 'w) plugin \<Rightarrow> ('w, unit) py) \<Rightarrow> ('p, 'w) plugin list \<Rightarrow> ('w, unit) py" where
  "core_shutdown teardown [] = ret ()"
| "core_shutdown teardown (p # ps) =
     seq (try_catch (teardown p) (skip_failure False ())) (core_shutdown teardown ps)"

end
