(* ===== verification/Ecu_Main.thy ===== *)
theory Ecu_Main
  imports Plugin_Load
begin

text \<open>
  The command line of the VirtualEcu (\<^verbatim>\<open>virtual_ecu/virtecu/cli.py\<close>) and its TCP listener
  (\<^verbatim>\<open>server.py\<close>, \<^verbatim>\<open>netutil.py\<close>): the overrides, the address the listener binds, start and stop, and the exit
  code of \<open>main\<close>. Binding, serving until the process is stopped, and the names of interfaces are arguments
  (\<open>net_ops\<close>); the sessions run inside \<open>net_serve\<close>. An \<^verbatim>\<open>OSError\<close> is one of its subclasses in \<open>exn\<close>, since nothing
  here tells them apart. Ctrl+C is \<open>CancelledError\<close>: \<^verbatim>\<open>asyncio.run\<close> cancels the main task and then raises
  \<^verbatim>\<open>KeyboardInterrupt\<close>.
\<close>

section \<open>Overrides\<close>

record cli_args =
  arg_host :: "string option"
  arg_port :: "int option"
  arg_interface :: "string option"
  arg_no_udp :: bool
  arg_plugin :: "string list"
  arg_check :: bool

definition cli_spec :: "string \<Rightarrow> nat \<Rightarrow> string \<Rightarrow> plugin_spec" where
  "cli_spec base_dir index path =
     \<lparr>ps_label = ''--plugin '' @ path, ps_file = Some (if path_isabs path then path else path_join base_dir path),
      ps_module = None, ps_enabled = True, ps_priority = Some (-1000 - int index), ps_params = []\<rparr>"

definition cli_specs :: "string \<Rightarrow> string list \<Rightarrow> plugin_spec list" where
  "cli_specs base_dir paths = map (\<lambda>(index, path). cli_spec base_dir index path) (enumerate 0 paths)"

definition apply_overrides ::
    "string \<Rightarrow> cli_args \<Rightarrow> ecu_config \<times> plugins_config \<Rightarrow> ecu_config \<times> plugins_config" where
  "apply_overrides base_dir args cfg =
     (let (c, ps) = cfg;
          l = listen c;
          l = (case arg_host args of None \<Rightarrow> l | Some h \<Rightarrow> l\<lparr>host := h\<rparr>);
          l = (case arg_port args of None \<Rightarrow> l | Some p \<Rightarrow> l\<lparr>port := p\<rparr>);
          l = (case arg_interface args of None \<Rightarrow> l | Some i \<Rightarrow> l\<lparr>interface := i\<rparr>);
          c = c\<lparr>listen := l\<rparr>;
          c = (if arg_no_udp args then c\<lparr>udp := (udp c)\<lparr>udp_enabled := False\<rparr>\<rparr> else c)
      in (c, ps\<lparr>plugin_specs := plugin_specs ps @ cli_specs base_dir (arg_plugin args)\<rparr>))"

section \<open>The listening socket\<close>

text \<open>\<^verbatim>\<open>str.isdigit\<close> below code point 256, which holds of the superscripts that \<^verbatim>\<open>int\<close> rejects; \<^verbatim>\<open>if_nametoindex\<close> is
  an argument.\<close>

definition py_isdigit :: "string \<Rightarrow> bool" where
  "py_isdigit s \<longleftrightarrow> s \<noteq> [] \<and> list_all (\<lambda>c. c \<in> set ''0123456789'' \<or> c \<in> {CHR 0xB2, CHR 0xB3, CHR 0xB9}) s"

definition is_OSError :: "exn \<Rightarrow> bool" where
  "is_OSError e \<longleftrightarrow> e \<in> {ConnectionError, ConnectionResetError, TimeoutError}"

definition resolve_if_index :: "(string \<Rightarrow> int res) \<Rightarrow> string \<Rightarrow> int res" where
  "resolve_if_index nametoindex i =
     (if i = [] then Inr 0
      else if py_isdigit i then (case py_int_dec i of None \<Rightarrow> Inl ValueError | Some n \<Rightarrow> Inr n)
      else (case nametoindex i of Inl e \<Rightarrow> if is_OSError e then Inr 0 else Inl e | Inr n \<Rightarrow> Inr n))"

text \<open>What is bound: an IPv4 address, or an IPv6 address with its scope, for IPv6 alone or for both families.\<close>

datatype bind_addr =
    BindV4 string int
  | BindV6 bool string int int

text \<open>\<open>ip6 text\<close>: whether an IPv6 address is link-local, and whether it is multicast; \<open>None\<close> for other text.\<close>

record 'w net_ops =
  net_if_index :: "string \<Rightarrow> int res"
  net_ip6 :: "string \<Rightarrow> (bool \<times> bool) option"
  net_bind :: "bind_addr \<Rightarrow> ('w, int) py"

definition listen_addr :: "'w net_ops \<Rightarrow> listen_config \<Rightarrow> bind_addr res" where
  "listen_addr net l =
     (if family l = ''ipv4''
      then Inr (BindV4 (if host l \<notin> {'''', ''::''} then host l else ''0.0.0.0'') (port l))
      else ebind (resolve_if_index (net_if_index net) (interface l)) (\<lambda>scope_id.
        let scope_id = (case net_ip6 net (takeWhile (\<lambda>c. c \<noteq> CHR ''%'') (host l)) of
                          Some (link_local, multicast) \<Rightarrow> if link_local \<or> multicast then scope_id else 0
                        | None \<Rightarrow> 0)
        in Inr (BindV6 (family l \<noteq> ''dual'') (host l) (port l) scope_id)))"

definition build_socket :: "'w net_ops \<Rightarrow> listen_config \<Rightarrow> ('w, int) py" where
  "build_socket net l = bnd (lift (listen_addr net l)) (net_bind net)"

section \<open>Start and stop\<close>

text \<open>The server: its port, and its announcer task, which may have ended.\<close>

datatype udp_task = UdpRunning | UdpEnded

record vserver =
  vs_port :: int
  vs_udp :: "udp_task option"

definition new_vserver :: "ecu_config \<Rightarrow> vserver" where
  "new_vserver c = \<lparr>vs_port = port (listen c), vs_udp = None\<rparr>"

record ('p, 'w) life_ops =
  life_setup :: "('p, 'w) plugin \<Rightarrow> ('w, unit) py"
  life_teardown :: "('p, 'w) plugin \<Rightarrow> ('w, unit) py"
  life_serve :: "(vserver \<times> 'w, unit) py"

definition server_stop :: "('p, 'w) life_ops \<Rightarrow> ('p, 'w) ecu_core \<Rightarrow> (vserver \<times> 'w, unit) py" where
  "server_stop life core =
     seq (modify (\<lambda>(v, w). (if vs_udp v = Some UdpRunning then v\<lparr>vs_udp := None\<rparr> else v, w)))
       (in_process (core_shutdown (life_teardown life) (core_plugins core)))"

text \<open>\<^verbatim>\<open>try: m finally: f\<close>, where \<open>f\<close> may itself raise.\<close>

definition finally_do :: "('s, 'a) py \<Rightarrow> ('s, unit) py \<Rightarrow> ('s, 'a) py" where
  "finally_do m f s = (case m s of (r, s1) \<Rightarrow> (case f s1 of (Inl e, s2) \<Rightarrow> (Inl e, s2) | (Inr _, s2) \<Rightarrow> (r, s2)))"

definition server_start ::
    "'w net_ops \<Rightarrow> ('p, 'w) life_ops \<Rightarrow> ('p, 'w) ecu_core \<Rightarrow> bool \<Rightarrow> (vserver \<times> 'w, unit) py" where
  "server_start net life core serve_forever =
     seq (in_process (core_startup (life_setup life) (core_strict core) (core_plugins core)))
     (bnd (in_process (build_socket net (listen (core_config core)))) (\<lambda>bound.
      seq (modify (\<lambda>(v, w). (v\<lparr>vs_port := bound,
             vs_udp := (if udp_enabled (udp (core_config core)) then Some UdpRunning else vs_udp v)\<rparr>, w)))
      (if \<not> serve_forever then ret () else finally_do (life_serve life) (server_stop life core))))"

section \<open>The exit code\<close>

text \<open>\<open>cfg\<close> is what \<open>load_config\<close> returns or raises. The state of the server goes with it.\<close>

definition virtecu_main ::
    "('p, 'x ecu_process_scheme) host_ops \<Rightarrow> 'x ecu_process_scheme net_ops
      \<Rightarrow> ('p, 'x ecu_process_scheme) life_ops \<Rightarrow> string \<Rightarrow> cli_args
      \<Rightarrow> (ecu_config \<times> plugins_config) res \<Rightarrow> ('x ecu_process_scheme, int) py" where
  "virtecu_main h net life base_dir args cfg w =
     (case bnd (lift cfg) (\<lambda>c. new_core h (apply_overrides base_dir args c)) w of
        (Inl e, w1) \<Rightarrow> (if is_Exception e then Inr 2 else Inl e, w1)
      | (Inr core, w1) \<Rightarrow>
          if arg_check args then (Inr 0, w1)
          else (case server_start net life core True (new_vserver (core_config core), w1) of
                  (Inr _, (_, w2)) \<Rightarrow> (Inr 0, w2)
                | (Inl e, (_, w2)) \<Rightarrow>
                    if e = CancelledError then (Inr 0, w2) else if is_OSError e then (Inr 1, w2) else (Inl e, w2)))"

end
