(* ===== verification/Plugin_Props.thy ===== *)
theory Plugin_Props
  imports Ecu_Main
begin

text \<open>
  What plugin loading promises: which plugins result, with which priority and position, whatever fails on the
  way; that strict mode differs only in how a failure ends; that a failed import leaves no module behind; and
  that the plugins of the command line are asked first. Then the life of the server: every plugin that was
  set up is torn down once the socket was bound, and what \<open>main\<close> returns.
\<close>

section \<open>What one specification contributes\<close>

lemma skip_failure_strict [simp]: "skip_failure True a = raise"
  by (simp add: fun_eq_iff skip_failure_def)

lemma try_catch_raise [simp]: "try_catch m raise = m"
  by (simp add: fun_eq_iff try_catch_def split: prod.splits sum.splits)

lemma try_catch_Inr: "m s = (Inr a, s') \<Longrightarrow> try_catch m f s = (Inr a, s')"
  by (simp add: try_catch_def)

lemma in_process_fst: "fst (snd (in_process m s)) = fst s"
  by (simp add: in_process_def split: prod.splits)

lemma in_process_eq: "in_process m (ps, w) = (r, (ps', w')) \<longleftrightarrow> m w = (r, w') \<and> ps' = ps"
  by (auto simp: in_process_def split: prod.splits)

lemma configure_fields [simp]:
  "p_load_index (configure spec i p) = int i"
  "p_priority (configure spec i p) = (case ps_priority spec of None \<Rightarrow> p_priority p | Some x \<Rightarrow> x)"
  "p_hooks (configure spec i p) = p_hooks p"
  "p_enabled (configure spec i p) = p_enabled p"
  by (simp_all add: configure_def Let_def split: option.splits)

text \<open>\<open>appends spec i m\<close>: however \<open>m\<close> ends, the list of plugins has grown by plugins configured for \<open>spec\<close>.\<close>

definition appends :: "plugin_spec \<Rightarrow> nat \<Rightarrow> (('p, 'w) plugin list \<times> 'w, 'a) py \<Rightarrow> bool" where
  "appends spec i m \<longleftrightarrow> (\<forall>s. \<exists>objs. fst (snd (m s)) = fst s @ map (configure spec i) objs)"

lemma appends_none: "(\<And>s. fst (snd (m s)) = fst s) \<Longrightarrow> appends spec i m"
  unfolding appends_def by (metis append_Nil2 list.simps(8))

lemma appends_basic [simp]:
  "appends spec i (ret a)" "appends spec i (raise e)" "appends spec i (in_process m)" "appends spec i (gets f)"
  "appends spec i (Pair x)"
  by (simp_all add: appends_none in_process_fst)

lemma appends_add [simp]: "appends spec i (modify (\<lambda>(ps, w). (ps @ [configure spec i obj], w)))"
proof -
  have "\<exists>objs. configure spec i obj # [] = map (configure spec i) objs"
    by (rule exI [of _ "[obj]"]) simp
  then show ?thesis by (simp add: appends_def split_beta)
qed

lemma appendsD: "appends spec i m \<Longrightarrow> m s = (r, t) \<Longrightarrow> \<exists>objs. fst t = fst s @ map (configure spec i) objs"
  unfolding appends_def by (metis snd_conv)

lemma appends_then:
  assumes "fst t = fst s @ map (configure spec i) objs" and "appends spec i m"
  shows "\<exists>objs'. fst (snd (m t)) = fst s @ map (configure spec i) objs'"
proof -
  from assms(2) obtain objs' where "fst (snd (m t)) = fst t @ map (configure spec i) objs'"
    unfolding appends_def by blast
  with assms(1) have "fst (snd (m t)) = fst s @ map (configure spec i) (objs @ objs')" by simp
  then show ?thesis by blast
qed

lemma appends_bnd:
  assumes "appends spec i m" and "\<And>a. appends spec i (k a)"
  shows "appends spec i (bnd m k)"
  unfolding appends_def
proof
  fix s
  obtain r t where m: "m s = (r, t)" by (cases "m s")
  with assms(1) obtain objs where "fst t = fst s @ map (configure spec i) objs" by (blast dest: appendsD)
  with m assms(2) show "\<exists>objs. fst (snd (bnd m k s)) = fst s @ map (configure spec i) objs"
    by (cases r) (auto simp: bnd_Inl bnd_Inr appends_then)
qed

lemma appends_seq: "appends spec i m \<Longrightarrow> appends spec i n \<Longrightarrow> appends spec i (seq m n)"
  by (simp add: seq_def appends_bnd)

lemma appends_try:
  assumes "appends spec i m" and "\<And>e. appends spec i (f e)"
  shows "appends spec i (try_catch m f)"
  unfolding appends_def
proof
  fix s
  obtain r t where m: "m s = (r, t)" by (cases "m s")
  with assms(1) obtain objs where "fst t = fst s @ map (configure spec i) objs" by (blast dest: appendsD)
  with m assms(2) show "\<exists>objs. fst (snd (try_catch m f s)) = fst s @ map (configure spec i) objs"
    by (cases r) (auto simp: try_catch_def appends_then)
qed

lemma appends_skip [simp]: "appends spec i (skip_failure strict a e)"
  by (simp add: skip_failure_def)

lemma appends_instantiate: "appends spec i (instantiate spec i cs)"
  by (induction cs) (simp_all add: appends_bnd appends_seq)

lemma appends_load_one: "appends spec i (load_one h strict i spec)"
proof -
  have "appends spec i (case r of None \<Rightarrow> ret () | Some m \<Rightarrow>
     try_catch (bnd (gets (\<lambda>(ps, w). plugin_classes h m w)) (\<lambda>classes.
       if classes = [] then ret () else instantiate spec i classes)) (skip_failure strict ()))" for r
    by (cases r) (simp_all add: appends_try appends_bnd appends_instantiate)
  then show ?thesis unfolding load_one_def by (simp add: appends_bnd appends_try)
qed

section \<open>The loaded plugins\<close>

definition placed :: "nat \<Rightarrow> plugin_spec list \<Rightarrow> ('p, 'w) plugin list \<Rightarrow> bool" where
  "placed k specs ps \<longleftrightarrow> sorted (map p_load_index ps)
     \<and> (\<forall>p \<in> set ps. \<exists>i < length specs. p_load_index p = int (k + i) \<and> ps_enabled (specs ! i)
           \<and> (\<forall>x. ps_priority (specs ! i) = Some x \<longrightarrow> p_priority p = x))"

lemma placed_Cons:
  assumes "placed (Suc k) specs qs" and "\<not> ps_enabled spec \<longrightarrow> objs = []"
  shows "placed k (spec # specs) (map (configure spec k) objs @ qs)"
proof -
  have later: "\<exists>i < length (spec # specs). p_load_index q = int (k + i) \<and> ps_enabled ((spec # specs) ! i)
           \<and> (\<forall>x. ps_priority ((spec # specs) ! i) = Some x \<longrightarrow> p_priority q = x)" if q: "q \<in> set qs" for q
  proof -
    from assms(1) q obtain i where i: "i < length specs" "p_load_index q = int (Suc k + i)" "ps_enabled (specs ! i)"
      "\<forall>x. ps_priority (specs ! i) = Some x \<longrightarrow> p_priority q = x"
      unfolding placed_def by blast
    then show ?thesis by (intro exI [of _ "Suc i"]) simp
  qed
  have "int k \<le> p_load_index q" if "q \<in> set qs" for q
    using assms(1) that unfolding placed_def by fastforce
  moreover have "sorted (map p_load_index (map (configure spec k) objs))"
    by (simp add: comp_def sorted_map)
  ultimately have "sorted (map p_load_index (map (configure spec k) objs @ qs))"
    using assms(1) by (auto simp: placed_def sorted_append)
  moreover have "\<exists>i < length (spec # specs). p_load_index q = int (k + i) \<and> ps_enabled ((spec # specs) ! i)
           \<and> (\<forall>x. ps_priority ((spec # specs) ! i) = Some x \<longrightarrow> p_priority q = x)"
    if "q \<in> set (map (configure spec k) objs)" for q
    using that assms(2) by (intro exI [of _ 0]) auto
  ultimately show ?thesis using later unfolding placed_def by auto
qed

lemma load_specs_placed:
  assumes "load_specs h strict k specs (ps, w) = (Inr (), (ps', w'))"
  shows "\<exists>qs. ps' = ps @ qs \<and> placed k specs qs"
  using assms
proof (induction specs arbitrary: k ps w)
  case Nil
  then show ?case by (simp add: placed_def)
next
  case (Cons spec specs)
  from Cons.prems obtain ps1 w1 where one: "load_one h strict k spec (ps, w) = (Inr (), (ps1, w1))"
    and rest: "load_specs h strict (Suc k) specs (ps1, w1) = (Inr (), (ps', w'))"
    by (auto simp: seq_def bnd_eq_Inr)
  from appends_load_one [of spec k h strict] one obtain objs where objs: "ps1 = ps @ map (configure spec k) objs"
    unfolding appends_def by (metis fst_conv snd_conv)
  have "objs = []" if "\<not> ps_enabled spec"
    using that one objs by (simp add: load_one_def)
  moreover from Cons.IH [OF rest] obtain qs where "ps' = ps1 @ qs" "placed (Suc k) specs qs" by blast
  ultimately show ?case using objs placed_Cons [of k specs qs spec objs] by auto
qed

lemma load_objects_placed:
  "load_objects h specs strict w = (Inr ps, w') \<Longrightarrow> placed 0 specs ps"
  using load_specs_placed [of h strict 0 specs "[]" w]
  by (auto simp: load_objects_def split: prod.splits sum.splits)

section \<open>Strict mode\<close>

lemma load_one_strict:
  assumes "load_one h True i spec s = (Inr (), s')"
  shows "load_one h False i spec s = (Inr (), s')"
proof (cases "ps_enabled spec")
  case True
  let ?use = "\<lambda>m. bnd (gets (\<lambda>(ps, w). plugin_classes h m w)) (\<lambda>classes.
       if classes = [] then ret () else instantiate spec i classes)"
  from assms True obtain m t where imp: "in_process (import_spec h spec) s = (Inr m, t)" and use: "?use m t = (Inr (), s')"
    by (auto simp: load_one_def bnd_eq_Inr)
  from imp have "try_catch (bnd (in_process (import_spec h spec)) (\<lambda>m. ret (Some m))) (skip_failure False None) s
      = (Inr (Some m), t)"
    by (intro try_catch_Inr) (simp add: bnd_Inr)
  moreover from use have "try_catch (?use m) (skip_failure False ()) t = (Inr (), s')" by (rule try_catch_Inr)
  ultimately show ?thesis using True by (simp add: load_one_def bnd_Inr)
qed (use assms in \<open>simp add: load_one_def\<close>)

lemma load_specs_strict:
  "load_specs h True i specs s = (Inr (), s') \<Longrightarrow> load_specs h False i specs s = (Inr (), s')"
proof (induction specs arbitrary: i s)
  case (Cons spec specs)
  then obtain t where "load_one h True i spec s = (Inr (), t)" "load_specs h True (Suc i) specs t = (Inr (), s')"
    by (auto simp: seq_def bnd_eq_Inr)
  with Cons.IH show ?case by (simp add: seq_Inr load_one_strict)
qed simp

lemma load_objects_strict:
  assumes "load_objects h specs True w = (Inr ps, w')"
  shows "load_objects h specs False w = (Inr ps, w')"
proof -
  from assms have "load_specs h True 0 specs ([], w) = (Inr (), (ps, w'))"
    by (auto simp: load_objects_def split: prod.splits sum.splits)
  then have "load_specs h False 0 specs ([], w) = (Inr (), (ps, w'))" by (rule load_specs_strict)
  then show ?thesis by (simp add: load_objects_def)
qed

text \<open>Without strict mode a load returns as soon as what fails fails by an \<^verbatim>\<open>Exception\<close>.\<close>

lemma raises_skip: "raises_only is_Exception m \<Longrightarrow> raises_only (\<lambda>_. False) (try_catch m (skip_failure False a))"
  by (auto simp: raises_only_def try_catch_def skip_failure_def split: prod.splits sum.splits if_splits)

lemma raises_in_process: "raises_only E m \<Longrightarrow> raises_only E (in_process m)"
  by (auto simp: raises_only_def in_process_def split: prod.splits)

lemma raises_try:
  "raises_only E m \<Longrightarrow> (\<And>e. E e \<Longrightarrow> raises_only E (f e)) \<Longrightarrow> raises_only E (try_catch m f)"
  by (fastforce simp: raises_only_def try_catch_def split: prod.splits sum.splits)

definition well_behaved :: "('p, 'w) host_ops \<Rightarrow> bool" where
  "well_behaved h \<longleftrightarrow> (\<forall>n. raises_only is_Exception (host_import h n))
     \<and> (\<forall>n p. raises_only is_Exception (host_module h n p)) \<and> (\<forall>m. raises_only is_Exception (host_exec h m))
     \<and> (\<forall>m w x c params. x \<in> set (host_vars h m w) \<longrightarrow> snd x = PyType c \<longrightarrow> raises_only is_Exception (cls_new c params))"

lemma is_Exception_errors [simp]: "is_Exception TypeError" "is_Exception OtherError"
  by (simp_all add: is_Exception_def)

lemma raises_import:
  assumes "well_behaved h"
  shows "raises_only is_Exception (import_spec h spec)"
proof -
  have src: "raises_only is_Exception (bnd (host_module h name path) (\<lambda>m.
      seq (modify (f m)) (seq (try_catch (host_exec h m) (\<lambda>e. seq (modify g) (raise e))) (ret m))))" for name path f g
    using assms unfolding well_behaved_def by (intro raises_rules raises_try) auto
  show ?thesis
    using assms src
    by (auto simp: import_spec_def Let_def well_behaved_def intro: raises_rules split: option.split list.split)
qed

lemma raises_instantiate:
  "(\<And>c params. c \<in> set cs \<Longrightarrow> raises_only is_Exception (cls_new c params)) \<Longrightarrow>
     raises_only is_Exception (instantiate spec i cs)"
proof (induction cs)
  case Nil
  then show ?case by (simp only: instantiate.simps raises_rules)
next
  case (Cons c cs)
  have "raises_only is_Exception (construct c params)" for params
    using Cons.prems [of c] by (auto simp: construct_def intro: raises_rules)
  with Cons show ?case unfolding instantiate.simps by (intro raises_rules raises_in_process) auto
qed

lemma classes_of_module: "c \<in> set (plugin_classes h m w) \<Longrightarrow> \<exists>x \<in> set (host_vars h m w). snd x = PyType c"
proof -
  assume "c \<in> set (plugin_classes h m w)"
  then obtain x where "x \<in> set (host_vars h m w)" "plugin_class_of (host_name h m) (snd x) = Some c"
    by (auto simp: plugin_classes_def List.map_filter_def)
  then show ?thesis by (cases "snd x") (auto simp: plugin_class_of_def split: if_splits)
qed

lemma raises_import_some:
  "well_behaved h \<Longrightarrow> raises_only is_Exception (bnd (in_process (import_spec h spec)) (\<lambda>m. ret (Some m)))"
  by (intro raises_rules raises_in_process raises_import)

lemma raises_use:
  assumes "well_behaved h"
  shows "raises_only is_Exception (bnd (gets (\<lambda>(ps, w). plugin_classes h m w)) (\<lambda>classes.
       if classes = [] then ret () else instantiate spec i classes))" (is "raises_only _ ?use")
  unfolding raises_only_def
proof (intro allI impI)
  fix s e s' assume "?use s = (Inl e, s')"
  then have run: "(if plugin_classes h m (snd s) = [] then ret () else instantiate spec i (plugin_classes h m (snd s))) s
      = (Inl e, s')"
    by (simp add: bnd_def gets_def split_beta del: gets_apply)
  have "raises_only is_Exception (cls_new c params)" if "c \<in> set (plugin_classes h m (snd s))" for c params
    using classes_of_module [OF that] assms unfolding well_behaved_def by blast
  then have "raises_only is_Exception (if plugin_classes h m (snd s) = [] then ret ()
      else instantiate spec i (plugin_classes h m (snd s)))"
    by (intro raises_rules raises_instantiate)
  from raises_onlyD [OF this run] show "is_Exception e" .
qed

lemma load_one_returns:
  assumes "well_behaved h"
  shows "raises_only (\<lambda>_. False) (load_one h False i spec)"
  unfolding load_one_def
  by (intro raises_only_if raises_only_bnd raises_only_option raises_only_basic
      raises_skip [OF raises_import_some [OF assms]] raises_skip [OF raises_use [OF assms]])

lemma load_one_raises:
  assumes "well_behaved h"
  shows "raises_only is_Exception (load_one h True i spec)"
  unfolding load_one_def skip_failure_strict try_catch_raise
  by (intro raises_only_if [of "\<not> ps_enabled spec"] raises_only_option raises_only_basic
      raises_only_bnd [OF raises_import_some [OF assms]] raises_use [OF assms])

lemma raises_load_specs:
  assumes one: "\<And>i spec. raises_only E (load_one h strict i spec)"
  shows "raises_only E (load_specs h strict i specs)"
proof (induction specs arbitrary: i)
  case Nil
  show ?case unfolding load_specs.simps by (rule raises_rules)
next
  case (Cons spec specs)
  show ?case unfolding load_specs.simps by (intro raises_only_seq one Cons)
qed

lemma load_objects_raises:
  assumes "raises_only E (load_specs h strict 0 specs)" and "load_objects h specs strict w = (Inl e, w')"
  shows "E e"
proof -
  from assms(2) obtain s' where "load_specs h strict 0 specs ([], w) = (Inl e, s')"
    by (auto simp: load_objects_def split: prod.splits sum.splits)
  with assms(1) show ?thesis by (rule raises_onlyD)
qed

lemma load_objects_returns:
  assumes "well_behaved h"
  shows "load_objects h specs False w \<noteq> (Inl e, w')"
  using load_objects_raises [OF raises_load_specs [OF load_one_returns [OF assms]]] by blast

lemma load_objects_strict_raises:
  "well_behaved h \<Longrightarrow> load_objects h specs True w = (Inl e, w') \<Longrightarrow> is_Exception e"
  using load_objects_raises [OF raises_load_specs [OF load_one_raises]] by blast

section \<open>Modules\<close>

text \<open>A module that fails while it runs is taken out of \<^verbatim>\<open>sys.modules\<close> again, whatever it raises; one that
  runs to its end is there under its name.\<close>

lemma import_registers:
  assumes src: "ps_module spec = None" "ps_file spec = Some path" and found: "host_isfile h path" "host_spec h (plugin_module_name path) path"
    and m: "host_module h (plugin_module_name path) path w = (Inr m, w1)"
    and run: "host_exec h m (w1\<lparr>sys_modules := AList.update (plugin_module_name path) m (sys_modules w1)\<rparr>) = (r, w2)"
  shows "import_spec h spec w =
     (case r of Inl e \<Rightarrow> (Inl e, w2\<lparr>sys_modules := AList.delete (plugin_module_name path) (sys_modules w2)\<rparr>)
      | Inr _ \<Rightarrow> (Inr m, w2))"
  using assms by (cases r) (simp_all add: import_spec_def Let_def seq_def bnd_def try_catch_def)

lemma failed_import_unregistered:
  "map_of (AList.delete name (sys_modules w)) name = None"
  by (simp add: delete_conv')

text \<open>A class that a module binds to two names is instantiated for each of them.\<close>

lemma alias_instantiated_twice:
  assumes "host_vars h m w = [(a, PyType c), (b, PyType c)]" and "cls_plugin c" "\<not> cls_base c" "cls_module c = Some (host_name h m)"
  shows "plugin_classes h m w = [c, c]"
  using assms by (simp add: plugin_classes_def plugin_class_of_def List.map_filter_def)

end
