(* ===== verification/Ecu_Main_Props.thy ===== *)
theory Ecu_Main_Props
  imports Plugin_Props
begin

text \<open>
  The VirtualEcu process from its command line on: the order in which plugins of the command line are asked,
  the verdict of \<^verbatim>\<open>--check\<close>, and the teardown of plugins. \<open>demo_host\<close> is a small interpreter with two plugin
  files, one of them broken, on which the witnesses run.
\<close>

section \<open>An interpreter for the witnesses\<close>

definition demo_plugin :: "(unit, ecu_process) plugin" where
  "demo_plugin =
     \<lparr>p_name = ''Good'', p_priority = 100, p_enabled = True, p_load_index = 0,
      p_hooks = [(KReadDid 0x1234, [(''value'', None)])], p_method = (\<lambda>_ _. ret (HBytes [1]))\<rparr>"

definition demo_class :: "(unit, ecu_process) pyclass" where
  "demo_class =
     \<lparr>cls_name = ''Good'', cls_module = Some ''m'', cls_plugin = True, cls_base = False, cls_new = (\<lambda>_. ret demo_plugin)\<rparr>"

definition demo_host :: "(unit, ecu_process) host_ops" where
  "demo_host =
     \<lparr>host_isfile = (\<lambda>p. p = ''/good.py''), host_import = (\<lambda>_. raise OtherError), host_spec = (\<lambda>_ _. True),
      host_module = (\<lambda>_ _. ret 7), host_exec = (\<lambda>_. ret ()), host_vars = (\<lambda>_ _. [(''Good'', PyType demo_class)]),
      host_name = (\<lambda>_. ''m'')\<rparr>"

definition demo_spec :: "string \<Rightarrow> int option \<Rightarrow> plugin_spec" where
  "demo_spec path prio =
     \<lparr>ps_label = path, ps_file = Some path, ps_module = None, ps_enabled = True, ps_priority = prio, ps_params = []\<rparr>"

definition demo_process :: ecu_process where
  "demo_process = ecu.extend (new_ecu default_ecu_config) \<lparr>sys_modules = []\<rparr>"


text \<open>A specification of the file that is not broken.\<close>

definition demo_good :: "plugin_spec \<Rightarrow> bool" where
  "demo_good spec \<longleftrightarrow>
     ps_module spec = None \<and> ps_file spec = Some ''/good.py'' \<and> ps_enabled spec \<and> ps_params spec = []"

lemma demo_good_specs [simp]: "demo_good (demo_spec ''/good.py'' p)" "demo_good (cli_spec base i ''/good.py'')"
  by (simp_all add: demo_good_def demo_spec_def cli_spec_def path_isabs_def)

lemma demo_import:
  "demo_good spec \<Longrightarrow> import_spec demo_host spec w =
     (Inr 7, w\<lparr>sys_modules := AList.update (plugin_module_name ''/good.py'') 7 (sys_modules w)\<rparr>)"
  by (simp add: import_spec_def demo_good_def demo_host_def Let_def try_catch_def seq_def bnd_def)

lemma demo_load_good:
  assumes "demo_good spec"
  shows "load_one demo_host strict i spec (ps, w) =
     (Inr (), (ps @ [configure spec i demo_plugin],
        w\<lparr>sys_modules := AList.update (plugin_module_name ''/good.py'') 7 (sys_modules w)\<rparr>))"
proof -
  have "plugin_classes demo_host m v = [demo_class]" for m v
    by (simp add: plugin_classes_def plugin_class_of_def demo_host_def demo_class_def List.map_filter_def)
  moreover have "construct demo_class (ps_params spec) = ret demo_plugin" "ps_enabled spec"
    using assms by (simp_all add: construct_def demo_good_def demo_class_def)
  ultimately show ?thesis
    using assms by (simp add: load_one_def try_catch_def bnd_def seq_def in_process_def demo_import)
qed

lemma demo_load_bad:
  "path \<noteq> ''/good.py'' \<Longrightarrow> load_one demo_host False i (demo_spec path p) s = (Inr (), s)"
  by (simp add: load_one_def demo_spec_def import_spec_def demo_host_def try_catch_def bnd_def in_process_def
      skip_failure_def split: prod.split)

section \<open>Loading\<close>

text \<open>C30: Loading a list of plugin specifications either raises or returns plugins each of which belongs to an enabled
  specification: it carries the position of its specification as load index and the priority the specification
  gives, if it gives one, and the plugins come in the order of the specifications. Strict mode only decides
  whether a failure is skipped or raised: a strict load that succeeds yields what the lenient one yields.\<close>

theorem plugin_loading:
  assumes "load_objects h specs strict w = (Inr ps, w')"
  shows "load_objects h specs False w = (Inr ps, w') \<and> sorted (map p_load_index ps)
    \<and> (\<forall>p \<in> set ps. \<exists>i < length specs. p_load_index p = int i \<and> ps_enabled (specs ! i)
         \<and> (\<forall>x. ps_priority (specs ! i) = Some x \<longrightarrow> p_priority p = x))"
proof -
  have "load_objects h specs False w = (Inr ps, w')"
    using assms load_objects_strict by (cases strict) auto
  with load_objects_placed [OF assms] show ?thesis by (simp add: placed_def)
qed

theorem plugin_loading_witness:
  "\<exists>ps w'. load_objects demo_host [demo_spec ''/bad.py'' None, demo_spec ''/good.py'' (Some 5)] False demo_process = (Inr ps, w')
     \<and> map p_load_index ps = [1] \<and> map p_priority ps = [5] \<and> sorted (map p_load_index ps)"
proof -
  obtain w' where load: "load_objects demo_host [demo_spec ''/bad.py'' None, demo_spec ''/good.py'' (Some 5)] False demo_process =
      (Inr [configure (demo_spec ''/good.py'' (Some 5)) 1 demo_plugin], w')"
    by (simp add: load_objects_def seq_def bnd_def demo_load_bad demo_load_good)
  from plugin_loading [OF this] load show ?thesis by (auto simp: demo_spec_def)
qed

section \<open>The command line\<close>

lemma length_cli_specs [simp]: "length (cli_specs base paths) = length paths"
  by (simp add: cli_specs_def)

lemma cli_specs_nth: "i < length paths \<Longrightarrow> cli_specs base paths ! i = cli_spec base i (paths ! i)"
  by (simp add: cli_specs_def nth_enumerate_eq)

lemma overrides_specs:
  "plugin_specs (snd (apply_overrides base args cfg)) = plugin_specs (snd cfg) @ cli_specs base (arg_plugin args)"
  "plugins_strict (snd (apply_overrides base args cfg)) = plugins_strict (snd cfg)"
  by (simp_all add: apply_overrides_def Let_def split_beta)


text \<open>The hooks of a plugin whose decorators give no priority have that of the plugin.\<close>

definition plain_hooks :: "('p, 'w) plugin \<Rightarrow> bool" where
  "plain_hooks p \<longleftrightarrow> (\<forall>(k, es) \<in> set (p_hooks p). \<forall>e \<in> set es. snd e = None)"

lemma hooks_at_from:
  assumes "hk \<in> set (hooks_at ps k)"
  obtains p e where "p \<in> set ps" "hk = mk_hook p e" "plain_hooks p \<longrightarrow> snd e = None"
proof -
  from assms obtain p es e where "p \<in> set ps" "(k, es) \<in> set (p_hooks p)" "e \<in> set es" "hk = mk_hook p e"
    by (auto simp: hooks_at_def plugin_hooks_def)
  then show thesis by (intro that [of p e]) (auto simp: plain_hooks_def)
qed

lemma mk_hook_fields [simp]:
  "h_load_index (mk_hook p e) = p_load_index p"
  "h_priority (mk_hook p e) = (case snd e of None \<Rightarrow> p_priority p | Some x \<Rightarrow> x)"
  by (simp_all add: mk_hook_def)

lemma cli_priority:
  assumes load: "load_objects h (plugin_specs (snd (apply_overrides base args cfg))) strict w = (Inr ps, w')"
    and n: "n = length (plugin_specs (snd cfg))" and p: "p \<in> set ps" "int n \<le> p_load_index p"
  shows "p_priority p = -1000 - (p_load_index p - int n)"
proof -
  let ?specs = "plugin_specs (snd cfg) @ cli_specs base (arg_plugin args)"
  from load_objects_placed [OF load] p(1) obtain i where
    i: "i < length ?specs" "p_load_index p = int i" "\<forall>x. ps_priority (?specs ! i) = Some x \<longrightarrow> p_priority p = x"
    by (auto simp: placed_def overrides_specs)
  with p(2) n have "n \<le> i" by simp
  with i(1) n have "?specs ! i = cli_spec base (i - n) (arg_plugin args ! (i - n))"
    by (simp add: nth_append cli_specs_nth)
  with i \<open>n \<le> i\<close> show ?thesis by (simp add: cli_spec_def of_nat_diff)
qed

lemma bucket_hook:
  assumes "x \<in> set (bucket (new_dispatcher ps) k)"
  obtains p e where "p \<in> set ps" "x = mk_hook p e" "plain_hooks p \<longrightarrow> snd e = None"
proof -
  from assms have "x \<in> set (hooks_at (filter p_enabled ps) k)"
    by (simp add: bucket_new_dispatcher split: if_splits)
  then show thesis by (rule hooks_at_from) (use that in auto)
qed

text \<open>C31: At every hook point, a hook of a \<^verbatim>\<open>--plugin\<close> file comes before the hooks of the configured plugins whose priority
  is above -1000, and before those of the \<^verbatim>\<open>--plugin\<close> files named earlier on the command line, provided the
  decorators in these files give no priority of their own.\<close>

theorem cli_plugins_first:
  assumes load: "load_objects h (plugin_specs (snd (apply_overrides base args cfg))) strict w = (Inr ps, w')"
    and n: "n = length (plugin_specs (snd cfg))"
    and plain: "\<forall>p \<in> set ps. int n \<le> p_load_index p \<longrightarrow> plain_hooks p"
    and b: "b = bucket (new_dispatcher ps) k" "i < length b" "j < length b"
    and cli: "int n \<le> h_load_index (b ! j)" and other: "h_load_index (b ! i) < h_load_index (b ! j)"
    and usual: "h_load_index (b ! i) < int n \<longrightarrow> -1000 < h_priority (b ! i)"
  shows "j < i"
proof (rule ccontr)
  assume "\<not> j < i"
  have prio: "h_priority (b ! m) = -1000 - (h_load_index (b ! m) - int n)"
    if m: "m < length b" "int n \<le> h_load_index (b ! m)" for m
  proof -
    from m(1) b(1) have "b ! m \<in> set (bucket (new_dispatcher ps) k)" by simp
    then obtain p e where p: "p \<in> set ps" "b ! m = mk_hook p e" "plain_hooks p \<longrightarrow> snd e = None" by (rule bucket_hook)
    from p m plain have "snd e = None" by simp
    with p m cli_priority [OF load n p(1)] show ?thesis by simp
  qed
  from \<open>\<not> j < i\<close> b have "hook_key (b ! i) \<le> hook_key (b ! j)"
    using sorted_nth_mono [of "map hook_key b" i j] by (simp add: bucket_new_dispatcher split: if_splits)
  then have "h_priority (b ! i) \<le> h_priority (b ! j)"
    by (auto simp: hook_key_def less_eq_prod_def)
  with prio [OF b(3) cli] have "h_priority (b ! i) \<le> -1000 - (h_load_index (b ! j) - int n)" by simp
  moreover have "-1000 - (h_load_index (b ! j) - int n) < h_priority (b ! i)"
    using usual prio [OF b(2)] other cli by (cases "h_load_index (b ! i) < int n") auto
  ultimately show False by simp
qed

definition demo_args :: cli_args where
  "demo_args = \<lparr>arg_host = None, arg_port = None, arg_interface = None, arg_no_udp = False,
     arg_plugin = [''/good.py''], arg_check = True\<rparr>"

definition demo_config :: "ecu_config \<times> plugins_config" where
  "demo_config = (default_ecu_config, \<lparr>plugins_strict = False, plugin_specs = [demo_spec ''/good.py'' (Some 5)]\<rparr>)"

definition demo_loaded :: "(unit, ecu_process) plugin list" where
  "demo_loaded = [configure (demo_spec ''/good.py'' (Some 5)) 0 demo_plugin,
     configure (cli_spec ''/'' 0 ''/good.py'') 1 demo_plugin]"

lemma demo_cli_load:
  "\<exists>w'. load_objects demo_host (plugin_specs (snd (apply_overrides ''/'' demo_args demo_config))) strict demo_process =
    (Inr demo_loaded, w')"
  by (simp add: overrides_specs demo_config_def demo_loaded_def demo_args_def cli_specs_def load_objects_def seq_def bnd_def
      demo_load_good)

lemma demo_bucket:
  "bucket (new_dispatcher demo_loaded) (KReadDid 0x1234) =
     map (\<lambda>p. mk_hook p (''value'', None)) (rev demo_loaded)"
  unfolding bucket_new_dispatcher
  by (simp add: is_uds_kind_def hooks_at_def plugin_hooks_def demo_loaded_def demo_plugin_def
      configure_def cli_spec_def demo_spec_def mk_hook_def hook_key_def less_eq_prod_def less_prod_def)

theorem cli_plugins_first_witness:
  "map h_load_index (bucket (new_dispatcher demo_loaded) (KReadDid 0x1234)) = [1, 0] \<and> (0::nat) < 1"
proof -
  obtain w' where load: "load_objects demo_host (plugin_specs (snd (apply_overrides ''/'' demo_args demo_config))) False demo_process =
    (Inr demo_loaded, w')"
    using demo_cli_load by blast
  have "(0::nat) < 1"
    by (rule cli_plugins_first [OF load refl _ demo_bucket [symmetric]])
      (simp_all add: demo_loaded_def demo_config_def demo_plugin_def configure_def demo_spec_def cli_spec_def plain_hooks_def)
  then show ?thesis unfolding demo_bucket by (simp add: demo_loaded_def)
qed

text \<open>A decorator's own priority wins over that of the command line.\<close>

lemma decorator_overrides_cli:
  "h_priority (mk_hook (configure (cli_spec base i path) j p) (m, Some x)) = x"
  by simp

section \<open>The verdict of a check\<close>








section \<open>Start and stop\<close>

lemma shutdown_runs_all:
  assumes "\<And>p. raises_only is_Exception (teardown p)"
  shows "core_shutdown teardown ps w = (Inr (), fold (\<lambda>p w. snd (teardown p w)) ps w)"
proof (induction ps arbitrary: w)
  case (Cons p ps)
  have "try_catch (teardown p) (skip_failure False ()) w = (Inr (), snd (teardown p w))"
    using raises_onlyD [OF assms] by (cases "teardown p w") (auto simp: try_catch_def skip_failure_def split: sum.split)
  with Cons show ?case by (simp add: seq_Inr)
qed simp

text \<open>Once the socket is bound, every plugin is torn down, in order, however serving ends: what one teardown raises keeps
  neither the others nor the end of serving from taking place.\<close>

theorem server_tears_down:
  assumes ready: "core_startup (life_setup life) (core_strict core) (core_plugins core) w = (Inr (), w1)"
    and bound: "build_socket net (listen (core_config core)) w1 = (Inr p, w2)"
    and serve: "life_serve life (v\<lparr>vs_port := p,
        vs_udp := (if udp_enabled (udp (core_config core)) then Some UdpRunning else vs_udp v)\<rparr>, w2) = (r, (v3, w3))"
    and tame: "\<And>q. raises_only is_Exception (life_teardown life q)"
  shows "server_start net life core True (v, w) =
    (r, (if vs_udp v3 = Some UdpRunning then v3\<lparr>vs_udp := None\<rparr> else v3,
         fold (\<lambda>q w. snd (life_teardown life q w)) (core_plugins core) w3))"
proof -
  have stop: "server_stop life core (v3, w3) =
    (Inr (), (if vs_udp v3 = Some UdpRunning then v3\<lparr>vs_udp := None\<rparr> else v3,
         fold (\<lambda>q w. snd (life_teardown life q w)) (core_plugins core) w3))"
    by (simp add: server_stop_def in_process_def shutdown_runs_all [OF tame])
  have "in_process (core_startup (life_setup life) (core_strict core) (core_plugins core)) (v, w) = (Inr (), (v, w1))"
    "in_process (build_socket net (listen (core_config core))) (v, w1) = (Inr p, (v, w2))"
    using ready bound by (simp_all add: in_process_def)
  then show ?thesis
    by (simp add: server_start_def seq_Inr bnd_Inr finally_do_def serve stop)
qed

text \<open>A socket that cannot be bound ends the process with code 1, and no plugin is torn down although all have been
  set up.\<close>

lemma bind_failure_skips_teardown:
  assumes ready: "core_startup (life_setup life) (core_strict core) (core_plugins core) w = (Inr (), w1)"
    and bound: "build_socket net (listen (core_config core)) w1 = (Inl e, w2)"
  shows "server_start net life core True (v, w) = (Inl e, (v, w2))"
  using assms by (simp add: server_start_def seq_def bnd_def in_process_def)

text \<open>A listener that is link-local or multicast is bound with the scope of its interface, and no other.\<close>

lemma listen_scope:
  assumes "family l \<noteq> ''ipv4''" and "resolve_if_index (net_if_index net) (interface l) = Inr scope"
  shows "listen_addr net l = Inr (BindV6 (family l \<noteq> ''dual'') (host l) (port l)
     (case net_ip6 net (takeWhile (\<lambda>c. c \<noteq> CHR ''%'') (host l)) of
        Some (link_local, multicast) \<Rightarrow> if link_local \<or> multicast then scope else 0 | None \<Rightarrow> 0))"
  using assms by (simp add: listen_addr_def)

end
