(* ===== verification/Tls_Bridge.thy ===== *)
theory Tls_Bridge
  imports Ecu_Client "HOL-Library.Sublist"
begin

text \<open>
  \<open>TLSBridge\<close> of \<^verbatim>\<open>doip_edgenode/tls_bridge.py\<close>: a blocking automaton of Scapy run in threads, with queues between
  them and the event loop. Three threads (automaton, reader, writer) and the event loop take turns; a step is what one
  of them does between two operations that another thread can see. The thread-safe queue towards the writer is a list
  whose \<open>None\<close> is the sentinel; what threads hand to the loop by \<^verbatim>\<open>call_soon_threadsafe\<close> waits in order. The
  automaton and the socket pair are parameters: how construction and run end, what \<^verbatim>\<open>recv\<close> and \<^verbatim>\<open>sendall\<close> do. After
  the model of the bridge, the connection to an ECU that uses it.
\<close>

section \<open>State\<close>

datatype automaton_phase = ANone | AQueued | ARunning | ADone

datatype reader_phase = RNone | RQueued | RLoop | RRecv | RDone

datatype writer_phase = WNone | WQueued | WGet | WSend bytes | WDone

datatype loop_call = CallRx bytes | CallHandshake

record bridge =
  br_closed :: bool
  br_sockets_open :: bool
  br_tx :: "bytes option list option"
  br_rx :: "bytes list"
  br_calls :: "loop_call list"
  br_automaton :: automaton_phase
  br_reader :: reader_phase
  br_writer :: writer_phase
  br_hs_done :: bool
  br_hs_error :: "exn option"
  br_sent :: bytes

text \<open>\<^verbatim>\<open>__init__\<close>; the attribute \<^verbatim>\<open>_sync_tx_queue\<close> does not exist before \<open>handshake\<close>.\<close>

definition new_bridge :: bridge where
  "new_bridge =
     \<lparr>br_closed = False, br_sockets_open = True, br_tx = None, br_rx = [], br_calls = [], br_automaton = ANone,
      br_reader = RNone, br_writer = WNone, br_hs_done = False, br_hs_error = None, br_sent = []\<rparr>"

section \<open>What the event loop does\<close>

text \<open>\<open>handshake\<close> up to its wait, and what it returns once the event is set.\<close>

definition handshake_begin :: "'m bridge_scheme \<Rightarrow> 'm bridge_scheme" where
  "handshake_begin b = b\<lparr>br_tx := Some [], br_automaton := AQueued, br_reader := RQueued, br_writer := WQueued\<rparr>"

definition handshake_result :: "'m bridge_scheme \<Rightarrow> unit res option" where
  "handshake_result b =
     (if \<not> br_hs_done b then None else Some (case br_hs_error b of None \<Rightarrow> Inr () | Some e \<Rightarrow> Inl e))"

definition bridge_send :: "bytes \<Rightarrow> ('m bridge_scheme, unit) py" where
  "bridge_send data b =
     (if br_closed b then (Inr (), b)
      else case br_tx b of
        None \<Rightarrow> (Inl AttributeError, b)
      | Some q \<Rightarrow> (Inr (), b\<lparr>br_tx := Some (q @ [Some data])\<rparr>))"

text \<open>\<open>None\<close> where the source waits for the queue.\<close>

definition bridge_recv :: "'m bridge_scheme \<Rightarrow> (bytes \<times> 'm bridge_scheme) option" where
  "bridge_recv b = (case br_rx b of [] \<Rightarrow> None | d # q \<Rightarrow> Some (d, b\<lparr>br_rx := q\<rparr>))"

definition bridge_close :: "'m bridge_scheme \<Rightarrow> 'm bridge_scheme" where
  "bridge_close b =
     b\<lparr>br_closed := True, br_tx := map_option (\<lambda>q. q @ [None]) (br_tx b), br_sockets_open := False\<rparr>"

definition run_call :: "loop_call \<Rightarrow> 'm bridge_scheme \<Rightarrow> 'm bridge_scheme" where
  "run_call c b = (case c of CallRx d \<Rightarrow> b\<lparr>br_rx := br_rx b @ [d]\<rparr> | CallHandshake \<Rightarrow> b\<lparr>br_hs_done := True\<rparr>)"

definition call_soon :: "loop_call \<Rightarrow> 'm bridge_scheme \<Rightarrow> 'm bridge_scheme" where
  "call_soon c b = b\<lparr>br_calls := br_calls b @ [c]\<rparr>"

section \<open>What the threads do\<close>

text \<open>\<open>_run_automaton\<close>: the automaton is constructed, and later its \<^verbatim>\<open>run\<close> ends, or either raises.\<close>

definition automaton_failed :: "exn \<Rightarrow> 'm bridge_scheme \<Rightarrow> 'm bridge_scheme" where
  "automaton_failed e b = call_soon CallHandshake (b\<lparr>br_hs_error := Some e, br_automaton := ADone\<rparr>)"

definition automaton_constructed :: "unit res \<Rightarrow> 'm bridge_scheme \<Rightarrow> 'm bridge_scheme" where
  "automaton_constructed r b =
     (case r of Inl e \<Rightarrow> automaton_failed e b | Inr _ \<Rightarrow> call_soon CallHandshake (b\<lparr>br_automaton := ARunning\<rparr>))"

definition automaton_ended :: "unit res \<Rightarrow> 'm bridge_scheme \<Rightarrow> 'm bridge_scheme" where
  "automaton_ended r b = (case r of Inl e \<Rightarrow> automaton_failed e b | Inr _ \<Rightarrow> b\<lparr>br_automaton := ADone\<rparr>)"

text \<open>\<open>_reader_thread\<close>: the test of the loop, and what \<^verbatim>\<open>recv\<close> returns or raises.\<close>

definition reader_check :: "'m bridge_scheme \<Rightarrow> 'm bridge_scheme" where
  "reader_check b = b\<lparr>br_reader := (if br_closed b then RDone else RRecv)\<rparr>"

definition reader_received :: "bytes res \<Rightarrow> 'm bridge_scheme \<Rightarrow> 'm bridge_scheme" where
  "reader_received r b =
     (case r of
        Inl e \<Rightarrow> b\<lparr>br_reader := RDone\<rparr>
      | Inr data \<Rightarrow> if data = [] then b\<lparr>br_reader := RDone\<rparr> else call_soon (CallRx data) (b\<lparr>br_reader := RLoop\<rparr>))"

text \<open>\<open>_writer_thread\<close>: it takes an item, and \<^verbatim>\<open>sendall\<close> ends, after all bytes or with an error after some.\<close>

definition writer_take :: "bytes option \<Rightarrow> bytes option list \<Rightarrow> 'm bridge_scheme \<Rightarrow> 'm bridge_scheme" where
  "writer_take item q b =
     b\<lparr>br_tx := Some q, br_writer := (case item of None \<Rightarrow> WDone | Some data \<Rightarrow> WSend data)\<rparr>"

definition writer_sent :: "bytes \<Rightarrow> nat option \<Rightarrow> 'm bridge_scheme \<Rightarrow> 'm bridge_scheme" where
  "writer_sent data failed b =
     (case failed of
        None \<Rightarrow> b\<lparr>br_sent := br_sent b @ data, br_writer := WGet\<rparr>
      | Some k \<Rightarrow> b\<lparr>br_sent := br_sent b @ take k data, br_writer := WDone\<rparr>)"

section \<open>Runs\<close>

text \<open>The bridge is used the way \<open>ECUConnection\<close> does: one \<open>handshake\<close>, and an event loop that outlives the threads.
  A closed socket takes no byte. A bridge with what was given to it and what it gave: the data \<open>send\<close> has taken, the data the reader has
  read, the data \<open>recv\<close> has returned, and whether \<^verbatim>\<open>sendall\<close> has failed.\<close>

record bridge_run = bridge +
  run_accepted :: "bytes list"
  run_arrived :: "bytes list"
  run_got :: "bytes list"
  run_broken :: bool

definition start_run :: bridge_run where
  "start_run = bridge.extend new_bridge \<lparr>run_accepted = [], run_arrived = [], run_got = [], run_broken = False\<rparr>"

inductive bridge_step :: "bridge_run \<Rightarrow> bridge_run \<Rightarrow> bool" where
  step_handshake: "br_tx s = None \<Longrightarrow> bridge_step s (handshake_begin s)"
| step_send: "bridge_send d s = (Inr (), t) \<Longrightarrow>
     bridge_step s (t\<lparr>run_accepted := run_accepted s @ (if br_closed s then [] else [d])\<rparr>)"
| step_recv: "bridge_recv s = Some (d, t) \<Longrightarrow> bridge_step s (t\<lparr>run_got := run_got s @ [d]\<rparr>)"
| step_close: "bridge_step s (bridge_close s)"
| step_call: "br_calls s = c # cs \<Longrightarrow> bridge_step s (run_call c (s\<lparr>br_calls := cs\<rparr>))"
| step_constructed: "br_automaton s = AQueued \<Longrightarrow> (\<And>e. r = Inl e \<Longrightarrow> is_Exception e) \<Longrightarrow> bridge_step s (automaton_constructed r s)"
| step_ended: "br_automaton s = ARunning \<Longrightarrow> (\<And>e. r = Inl e \<Longrightarrow> is_Exception e) \<Longrightarrow> bridge_step s (automaton_ended r s)"
| step_reader_starts: "br_reader s = RQueued \<Longrightarrow> bridge_step s (s\<lparr>br_reader := RLoop\<rparr>)"
| step_reader_checks: "br_reader s = RLoop \<Longrightarrow> bridge_step s (reader_check s)"
| step_reader_receives: "br_reader s = RRecv \<Longrightarrow> t = reader_received r s \<Longrightarrow>
     bridge_step s (t\<lparr>run_arrived := run_arrived s @ (case r of Inl _ \<Rightarrow> [] | Inr d \<Rightarrow> if d = [] then [] else [d])\<rparr>)"
| step_writer_starts: "br_writer s = WQueued \<Longrightarrow> bridge_step s (s\<lparr>br_writer := WGet\<rparr>)"
| step_writer_takes: "br_writer s = WGet \<Longrightarrow> br_tx s = Some (item # q) \<Longrightarrow> bridge_step s (writer_take item q s)"
| step_writer_sends: "br_writer s = WSend d \<Longrightarrow> br_sockets_open s \<Longrightarrow> bridge_step s (writer_sent d None s)"
| step_writer_fails: "br_writer s = WSend d \<Longrightarrow> br_sockets_open s \<or> k = 0 \<Longrightarrow> bridge_step s ((writer_sent d (Some k) s)\<lparr>run_broken := True\<rparr>)"

abbreviation bridge_reachable :: "bridge_run \<Rightarrow> bool" where
  "bridge_reachable \<equiv> bridge_step\<^sup>*\<^sup>* start_run"

section \<open>What goes through\<close>

definition rx_calls :: "loop_call list \<Rightarrow> bytes list" where
  "rx_calls cs = concat (map (\<lambda>c. case c of CallRx d \<Rightarrow> [d] | CallHandshake \<Rightarrow> []) cs)"

definition somes :: "bytes option list \<Rightarrow> bytes list" where
  "somes q = concat (map (\<lambda>x. case x of None \<Rightarrow> [] | Some d \<Rightarrow> [d]) q)"

definition queued :: "bytes option list option \<Rightarrow> bytes" where
  "queued tx = (case tx of None \<Rightarrow> [] | Some q \<Rightarrow> concat (somes q))"

fun in_hand :: "writer_phase \<Rightarrow> bytes" where
  "in_hand (WSend d) = d"
| "in_hand _ = []"

text \<open>Nothing but sentinels follows a sentinel.\<close>

abbreviation sentinels_last :: "bytes option list \<Rightarrow> bool" where
  "sentinels_last q \<equiv> sorted_wrt (\<lambda>a b. a = None \<longrightarrow> b = None) q"

lemma rx_calls_simps [simp]:
  "rx_calls [] = []" "rx_calls (CallRx d # cs) = d # rx_calls cs" "rx_calls (CallHandshake # cs) = rx_calls cs"
  "rx_calls (cs @ ds) = rx_calls cs @ rx_calls ds"
  by (simp_all add: rx_calls_def)

lemma somes_simps [simp]:
  "somes [] = []" "somes (Some d # q) = d # somes q" "somes (None # q) = somes q" "somes (q @ r) = somes q @ somes r"
  by (simp_all add: somes_def)

lemma queued_simps [simp]: "queued None = []" "queued (Some q) = concat (somes q)"
  by (simp_all add: queued_def)

lemma somes_only_sentinels: "\<forall>x \<in> set q. x = None \<Longrightarrow> somes q = []"
  by (induction q) auto

definition received_in_order :: "bridge_run \<Rightarrow> bool" where
  "received_in_order s \<longleftrightarrow> run_arrived s = run_got s @ br_rx s @ rx_calls (br_calls s)"

definition sent_in_order :: "bridge_run \<Rightarrow> bool" where
  "sent_in_order s \<longleftrightarrow>
     (if run_broken s then br_writer s = WDone \<and> prefix (br_sent s) (concat (run_accepted s))
      else concat (run_accepted s) = br_sent s @ in_hand (br_writer s) @ queued (br_tx s)
           \<and> (br_writer s = WDone \<longrightarrow> br_closed s \<and> queued (br_tx s) = []))
     \<and> (case br_tx s of
          None \<Rightarrow> br_writer s = WNone \<and> \<not> run_broken s
        | Some q \<Rightarrow> sentinels_last q \<and> (None \<in> set q \<longrightarrow> br_closed s))"

definition handshake_sound :: "bridge_run \<Rightarrow> bool" where
  "handshake_sound s \<longleftrightarrow>
     (br_hs_done s \<or> CallHandshake \<in> set (br_calls s) \<longrightarrow> br_automaton s \<in> {ARunning, ADone})
     \<and> (br_hs_error s \<noteq> None \<longrightarrow> br_automaton s = ADone) \<and> (br_tx s = None \<longrightarrow> br_automaton s = ANone)"

lemmas bridge_defs = handshake_begin_def bridge_send_def bridge_recv_def bridge_close_def run_call_def call_soon_def
  automaton_failed_def automaton_constructed_def automaton_ended_def reader_check_def reader_received_def
  writer_take_def writer_sent_def

lemma received_step: "bridge_step s t \<Longrightarrow> received_in_order s \<Longrightarrow> received_in_order t"
  by (induction rule: bridge_step.induct)
    (auto simp: received_in_order_def bridge_defs split: option.splits list.splits loop_call.splits sum.splits if_splits)

lemma handshake_step: "bridge_step s t \<Longrightarrow> handshake_sound s \<Longrightarrow> handshake_sound t"
  by (induction rule: bridge_step.induct)
    (auto simp: handshake_sound_def bridge_defs split: option.splits list.splits loop_call.splits sum.splits if_splits)

lemma sent_step:
  assumes "bridge_step s t" and inv: "sent_in_order s"
  shows "sent_in_order t"
  using assms(1)
proof cases
  case step_handshake
  with inv show ?thesis by (auto simp: sent_in_order_def bridge_defs)
next
  case (step_send d t')
  with inv show ?thesis
    by (cases "br_tx s")
      ((auto simp: sent_in_order_def bridge_defs sorted_wrt_append prefix_def split: if_splits; metis not_None_eq)+)
next
  case (step_close)
  with inv show ?thesis
    by (cases "br_tx s") (auto simp: sent_in_order_def bridge_defs sorted_wrt_append split: if_splits)
next
  case (step_writer_takes item q)
  have "somes q = []" if "item = None" "sentinels_last (item # q)"
    using that by (intro somes_only_sentinels) simp
  with step_writer_takes inv show ?thesis
    by (cases item) (auto simp: sent_in_order_def bridge_defs split: if_splits)
next
  case (step_writer_fails d k)
  have "prefix (br_sent s @ take k d) (br_sent s @ d @ queued (br_tx s))"
    by (metis append.assoc append_take_drop_id prefixI)
  with step_writer_fails inv show ?thesis
    by (auto simp: sent_in_order_def bridge_defs split: if_splits option.splits)
qed (use inv in \<open>auto simp: sent_in_order_def bridge_defs split: option.splits list.splits loop_call.splits sum.splits if_splits\<close>)

lemma bridge_invariant:
  assumes "bridge_reachable s"
  shows "received_in_order s \<and> sent_in_order s \<and> handshake_sound s"
  using assms
proof (induction rule: rtranclp_induct)
  case base
  show ?case
    by (simp add: start_run_def new_bridge_def bridge.extend_def received_in_order_def sent_in_order_def handshake_sound_def)
next
  case (step s t)
  then show ?case using received_step sent_step handshake_step by blast
qed

text \<open>C33: Whatever the interleaving of the threads and the event loop: what \<open>recv\<close> has returned, then what waits for
  it, is what the reader has read, in its order and complete; the bytes on the socket are a prefix of what \<open>send\<close>
  has accepted, and all of it once the writer has met the sentinel; and a handshake that is reported as done was
  begun, one that failed has ended its automaton.\<close>

theorem tls_bridge_order:
  assumes "bridge_reachable s"
  shows "run_arrived s = run_got s @ br_rx s @ rx_calls (br_calls s)
    \<and> prefix (br_sent s) (concat (run_accepted s))
    \<and> (br_writer s = WDone \<and> \<not> run_broken s \<longrightarrow> br_sent s = concat (run_accepted s))
    \<and> (handshake_result s = Some (Inr ()) \<longrightarrow> br_automaton s \<in> {ARunning, ADone})
    \<and> (\<forall>e. handshake_result s = Some (Inl e) \<longrightarrow> br_automaton s = ADone)"
proof -
  from bridge_invariant [OF assms] have inv: "received_in_order s" "sent_in_order s" "handshake_sound s" by blast+
  have "prefix (br_sent s) (concat (run_accepted s))"
    using inv(2) by (auto simp: sent_in_order_def split: if_splits)
  moreover have "br_sent s = concat (run_accepted s)" if "br_writer s = WDone" "\<not> run_broken s"
    using inv(2) that by (simp add: sent_in_order_def)
  ultimately show ?thesis
    using inv(1,3) by (auto simp: received_in_order_def handshake_sound_def handshake_result_def split: if_splits option.splits)
qed

theorem tls_bridge_order_witness:
  "\<exists>s. bridge_reachable s \<and> br_sent s = [1] \<and> run_accepted s = [[1], [2]] \<and> prefix (br_sent s) (concat (run_accepted s))"
proof -
  let ?s1 = "(handshake_begin start_run)\<lparr>br_writer := WGet\<rparr>"
  let ?s2 = "?s1\<lparr>br_tx := Some [Some [1], Some [2]], run_accepted := [[1], [2]]\<rparr>"
  let ?s3 = "writer_sent [1] None (writer_take (Some [1]) [Some [2]] ?s2)"
  have "bridge_reachable (handshake_begin start_run)"
    by (intro r_into_rtranclp step_handshake) (simp add: start_run_def new_bridge_def bridge.extend_def)
  then have s1: "bridge_reachable ?s1"
    by (rule rtranclp.rtrancl_into_rtrancl) (intro step_writer_starts, simp add: handshake_begin_def)
  have "bridge_send [1] ?s1 = (Inr (), ?s1\<lparr>br_tx := Some [Some [1]]\<rparr>)"
    by (simp add: bridge_send_def handshake_begin_def start_run_def new_bridge_def bridge.extend_def)
  from step_send [OF this] have "bridge_step ?s1 (?s1\<lparr>br_tx := Some [Some [1]], run_accepted := [[1]]\<rparr>)"
    by (simp add: handshake_begin_def start_run_def new_bridge_def bridge.extend_def)
  with s1 have a: "bridge_reachable (?s1\<lparr>br_tx := Some [Some [1]], run_accepted := [[1]]\<rparr>)" by simp
  have "bridge_send [2] (?s1\<lparr>br_tx := Some [Some [1]], run_accepted := [[1]]\<rparr>)
      = (Inr (), ?s1\<lparr>br_tx := Some [Some [1], Some [2]], run_accepted := [[1]]\<rparr>)"
    by (simp add: bridge_send_def handshake_begin_def start_run_def new_bridge_def bridge.extend_def)
  from step_send [OF this] have "bridge_step (?s1\<lparr>br_tx := Some [Some [1]], run_accepted := [[1]]\<rparr>) ?s2"
    by (simp add: handshake_begin_def start_run_def new_bridge_def bridge.extend_def)
  with a have "bridge_reachable ?s2" by simp
  then have "bridge_reachable (writer_take (Some [1]) [Some [2]] ?s2)"
    by (rule rtranclp.rtrancl_into_rtrancl) (intro step_writer_takes, simp_all)
  then have s3: "bridge_reachable ?s3"
    by (rule rtranclp.rtrancl_into_rtrancl)
      (intro step_writer_sends, simp_all add: writer_take_def handshake_begin_def start_run_def new_bridge_def bridge.extend_def)
  have "br_sent ?s3 = [1]" "run_accepted ?s3 = [[1], [2]]"
    by (simp_all add: writer_take_def writer_sent_def handshake_begin_def start_run_def new_bridge_def bridge.extend_def)
  with s3 tls_bridge_order [OF s3] show ?thesis by blast
qed

section \<open>Closing\<close>

text \<open>Closing shuts the sockets before the writer has met the sentinel: what waits for it then is never sent.\<close>

lemma closed_sends_nothing:
  "bridge_step s t \<Longrightarrow> \<not> br_sockets_open s \<Longrightarrow> \<not> br_sockets_open t \<and> br_sent t = br_sent s"
  by (induction rule: bridge_step.induct)
    (auto simp: bridge_defs split: option.splits list.splits loop_call.splits sum.splits if_splits)

lemma close_drops_queued:
  assumes "bridge_step\<^sup>*\<^sup>* (bridge_close s) t"
  shows "br_sent t = br_sent s"
proof -
  have "\<not> br_sockets_open t \<and> br_sent t = br_sent s" using assms
  proof (induction rule: rtranclp_induct)
    case base
    show ?case by (simp add: bridge_close_def)
  next
    case (step t u)
    then show ?case using closed_sends_nothing by metis
  qed
  then show ?thesis ..
qed

text \<open>Nothing wakes a receiver when the reader has ended: a \<open>recv\<close> that waits then waits for ever.\<close>

definition recv_stuck :: "bridge_run \<Rightarrow> bool" where
  "recv_stuck s \<longleftrightarrow> br_reader s = RDone \<and> br_rx s = [] \<and> rx_calls (br_calls s) = [] \<and> br_tx s \<noteq> None"

lemma recv_stuck_step: "bridge_step s t \<Longrightarrow> recv_stuck s \<Longrightarrow> recv_stuck t"
  by (induction rule: bridge_step.induct)
    (auto simp: recv_stuck_def bridge_defs split: option.splits list.splits loop_call.splits sum.splits if_splits)

lemma recv_never_returns:
  assumes "bridge_step\<^sup>*\<^sup>* s t" and "recv_stuck s"
  shows "bridge_recv t = None"
proof -
  have "recv_stuck t" using assms by (induction rule: rtranclp_induct) (auto intro: recv_stuck_step)
  then show ?thesis by (simp add: recv_stuck_def bridge_recv_def)
qed

section \<open>The connection to an ECU over the bridge\<close>

text \<open>\<open>ECUConnection\<close> with \<^verbatim>\<open>use_tls\<close>: \<^verbatim>\<open>_reader\<close> is never set, so \<open>_read_frame\<close> fails in its assertion (an
  \<^verbatim>\<open>AssertionError\<close> is an exception no code tells apart, \<open>OtherError\<close>).\<close>

definition tls_leg_send :: "bytes \<Rightarrow> (ecu_leg \<times> 'm bridge_scheme, unit) py" where
  "tls_leg_send data lb =
     (if leg_terminal (fst lb) then (Inl ConnectionError, lb)
      else if \<not> leg_connected (fst lb) then (Inl RuntimeError, lb)
      else case bridge_send data (snd lb) of (r, b) \<Rightarrow> (r, (fst lb, b)))"

definition tls_leg_recv :: "ecu_leg \<times> 'm bridge_scheme \<Rightarrow> (bytes res \<times> (ecu_leg \<times> 'm bridge_scheme)) option" where
  "tls_leg_recv lb =
     (if \<not> leg_connected (fst lb) \<and> \<not> leg_terminal (fst lb) then Some (Inl RuntimeError, lb)
      else if leg_terminal (fst lb) then Some (Inl ConnectionError, lb)
      else map_option (\<lambda>(d, b). (Inr d, (fst lb, b))) (bridge_recv (snd lb)))"

definition tls_leg_close :: "ecu_leg \<times> 'm bridge_scheme \<Rightarrow> ecu_leg \<times> 'm bridge_scheme" where
  "tls_leg_close lb = (leg_close (fst lb), bridge_close (snd lb))"

definition tls_read_frame :: "(ecu_leg \<times> 'm bridge_scheme, bytes) py" where
  "tls_read_frame = raise OtherError"

text \<open>The request goes to the bridge; the first of the three reads raises, which ends the loop.\<close>

definition tls_routing_activation :: "int \<Rightarrow> (ecu_leg \<times> 'm bridge_scheme, unit) py" where
  "tls_routing_activation tester =
     bnd (lift (build_ra_request tester)) (\<lambda>req. seq (tls_leg_send req) (bnd tls_read_frame (\<lambda>raw. ret ())))"

text \<open>\<open>connect\<close> from the handshake on; \<open>handshake\<close> is what the bridge answers and the bridge it leaves.\<close>

definition tls_leg_connect ::
    "unit res \<times> 'm bridge_scheme \<Rightarrow> int \<Rightarrow> ecu_leg \<Rightarrow> unit res \<times> (ecu_leg \<times> 'm bridge_scheme)" where
  "tls_leg_connect handshake tester l =
     (let (r, b) = handshake;
          failed = (\<lambda>e (l, b). (Inl e, tls_leg_close (mark_terminal True l, b)))
      in if leg_terminal l then (Inl ConnectionError, (l, b))
         else if leg_connected l then (Inl RuntimeError, (l, b))
         else case r of
           Inl e \<Rightarrow> failed e (l, b)
         | Inr _ \<Rightarrow>
             (case tls_routing_activation tester (l\<lparr>leg_connected := True, leg_tester := tester\<rparr>, b) of
                (Inl e, lb) \<Rightarrow> failed e lb
              | (Inr _, lb) \<Rightarrow> (Inr (), lb)))"

lemma tls_leg_never_connects: "\<exists>e lb. tls_leg_connect h tester l = (Inl e, lb)"
  by (auto simp: tls_leg_connect_def tls_routing_activation_def tls_read_frame_def bnd_def seq_def Let_def
      split: prod.splits sum.splits)

end
