(* ===== verification/Example_Plugins.thy ===== *)
theory Example_Plugins
  imports Resolve_Uds
begin

text \<open>
  The plugins the repository ships, \<^verbatim>\<open>virtual_ecu/plugins/example_engine.py\<close> and \<^verbatim>\<open>example_faults.py\<close>, as handlers of the
  dispatcher model, with integers as parameters of their constructors. Their attributes, and the key \<^verbatim>\<open>"engine"\<close> of
  \<^verbatim>\<open>ctx.data\<close>, extend the state of the ECU; the frames a handler sends on its own are a list. A handler
  is one computation: what other connections do while it sleeps is not part of it.
\<close>

section \<open>State\<close>

record example_world = ecu +
  eng_rpm :: int
  eng_self_test :: "bytes option"
  eng_limit :: "int option"
  faults_seen :: "(int \<times> int) list"
  extra_sent :: "bytes list"

type_synonym 'x example = "'x example_world_scheme"

section \<open>EngineEcu\<close>

definition DID_ENGINE_SPEED :: int where "DID_ENGINE_SPEED = 0xF40C"
definition DID_VEHICLE_SPEED :: int where "DID_VEHICLE_SPEED = 0xF40D"
definition DID_REV_LIMIT :: int where "DID_REV_LIMIT = 0x2A00"
definition RID_SELF_TEST :: int where "RID_SELF_TEST = 0x0203"

lemmas engine_ids = DID_ENGINE_SPEED_def DID_VEHICLE_SPEED_def DID_REV_LIMIT_def RID_SELF_TEST_def

text \<open>\<open>__init__\<close>, for the attributes of the object.\<close>

definition engine_init :: "int \<Rightarrow> 'x example \<Rightarrow> 'x example" where
  "engine_init idle w = w\<lparr>eng_rpm := idle, eng_self_test := None\<rparr>"

definition read_engine_speed :: "int \<Rightarrow> ('x example, hres) py" where
  "read_engine_speed idle =
     seq (modify (\<lambda>w. w\<lparr>eng_rpm := idle + ((eng_rpm w - idle) + 250) mod 4000\<rparr>))
     (bnd (gets eng_rpm) (\<lambda>rpm. bnd (lift (to_bytes_big 2 rpm)) (\<lambda>b. ret (HBytes b))))"

definition read_vehicle_speed :: "int \<Rightarrow> ctx \<Rightarrow> ('x example, hres) py" where
  "read_vehicle_speed idle c =
     bnd (gets eng_rpm) (\<lambda>rpm.
     if rpm < idle + 100 then raise (ctx_nrc c NRC_CONDITIONS_NOT_CORRECT)
     else bnd (lift (py_bytes [min 255 (rpm div 40)])) (\<lambda>b. ret (HBytes b)))"

definition write_rev_limit :: "int \<Rightarrow> int \<Rightarrow> bytes \<Rightarrow> ctx \<Rightarrow> ('x example, hres) py" where
  "write_rev_limit idle redline v c =
     bnd (gets (\<lambda>w. security_level (sess w (ctx_session c)))) (\<lambda>level.
     if level < 1 then raise (ctx_nrc c NRC_SECURITY_ACCESS_DENIED)
     else if length v \<noteq> 2 then raise (ctx_nrc c NRC_REQUEST_OUT_OF_RANGE)
     else let limit = from_be v in
       if \<not> (idle \<le> limit \<and> limit \<le> redline) then raise (ctx_nrc c NRC_REQUEST_OUT_OF_RANGE)
       else seq (modify (\<lambda>w. w\<lparr>eng_limit := Some limit\<rparr>)) (ret (HBool True)))"

definition read_rev_limit :: "int \<Rightarrow> ('x example, hres) py" where
  "read_rev_limit redline =
     bnd (gets (\<lambda>w. case eng_limit w of None \<Rightarrow> redline | Some l \<Rightarrow> l)) (\<lambda>limit.
     bnd (lift (to_bytes_big 2 limit)) (\<lambda>b. ret (HBytes b)))"

definition self_test :: "int \<Rightarrow> ctx \<Rightarrow> ('x example, hres) py" where
  "self_test control c =
     (if control = 0x01 then
        seq (modify (\<lambda>w. w\<lparr>eng_self_test := None\<rparr>))
        (bnd (gets eng_rpm) (\<lambda>rpm. bnd (lift (to_bytes_big 2 rpm)) (\<lambda>b.
         seq (modify (\<lambda>w. w\<lparr>eng_self_test := Some (0 # b)\<rparr>)) (ret (HBytes [0])))))
      else if control = 0x03 then
        bnd (gets eng_self_test) (\<lambda>r. case r of
            None \<Rightarrow> raise (ctx_nrc c NRC_CONDITIONS_NOT_CORRECT)
          | Some b \<Rightarrow> ret (HBytes b))
      else ret HNone)"

text \<open>A method called with arguments of another hook kind raises \<open>TypeError\<close>. The observer only logs.\<close>

definition engine_method :: "int \<Rightarrow> int \<Rightarrow> string \<Rightarrow> ('p, 'x example) handler" where
  "engine_method idle redline name args =
     (case args of
        ReqArgs req c \<Rightarrow>
          if name = ''trace'' then ret HNone
          else if name = ''read_engine_speed'' then read_engine_speed idle
          else if name = ''read_vehicle_speed'' then read_vehicle_speed idle c
          else if name = ''read_rev_limit'' then read_rev_limit redline
          else raise TypeError
      | WriteArgs v req c \<Rightarrow> if name = ''write_rev_limit'' then write_rev_limit idle redline v c else raise TypeError
      | RoutineArgs control data req c \<Rightarrow> if name = ''self_test'' then self_test control c else raise TypeError
      | _ \<Rightarrow> raise TypeError)"

definition engine_attrs :: "class_attrs list" where
  "engine_attrs =
     [[(''trace'', [(KObserver, None)]),
       (''read_engine_speed'', [(KReadDid DID_ENGINE_SPEED, None)]),
       (''read_vehicle_speed'', [(KReadDid DID_VEHICLE_SPEED, None)]),
       (''write_rev_limit'', [(KWriteDid DID_REV_LIMIT, None)]),
       (''read_rev_limit'', [(KReadDid DID_REV_LIMIT, None)]),
       (''self_test'', [(KRoutine RID_SELF_TEST None, None)])]]"

definition engine_ecu :: "int \<Rightarrow> int \<Rightarrow> ('p, 'x example) plugin" where
  "engine_ecu idle redline =
     \<lparr>p_name = ''EngineEcu'', p_priority = 50, p_enabled = True, p_load_index = 0,
      p_hooks = collect_hooks engine_attrs, p_method = engine_method idle redline\<rparr>"

section \<open>RawFaults and SimpleDtcs\<close>

definition intercept :: "int set \<Rightarrow> int set \<Rightarrow> int \<Rightarrow> uds_request \<Rightarrow> ('x example, hres) py" where
  "intercept drop_sids stall_sids stall_count req =
     (if sid req \<in> drop_sids then ret HNoResponse
      else if sid req \<in> stall_sids then
        bnd (gets (\<lambda>w. (case map_of (faults_seen w) (sid req) of None \<Rightarrow> 0 | Some n \<Rightarrow> n) + 1)) (\<lambda>n.
        seq (modify (\<lambda>w. w\<lparr>faults_seen := AList.update (sid req) n (faults_seen w)\<rparr>))
        (seq (if n \<le> stall_count
              then bnd (lift (py_bytes [0x7F, sid req AND 0xFF, 0x78])) (\<lambda>b. modify (\<lambda>w. w\<lparr>extra_sent := extra_sent w @ [b]\<rparr>))
              else ret ())
        (ret HNone)))
      else ret HNone)"

definition raw_faults :: "int set \<Rightarrow> int set \<Rightarrow> int \<Rightarrow> ('p, 'x example) plugin" where
  "raw_faults drop_sids stall_sids stall_count =
     \<lparr>p_name = ''RawFaults'', p_priority = 10, p_enabled = True, p_load_index = 0,
      p_hooks = collect_hooks [[(''intercept'', [(KService ANY_SERVICE, None)])]],
      p_method = (\<lambda>name args. case args of
          ReqArgs req c \<Rightarrow> intercept drop_sids stall_sids stall_count req
        | _ \<Rightarrow> raise TypeError)\<rparr>"

definition SID_READ_DTC_INFORMATION :: int where "SID_READ_DTC_INFORMATION = 0x19"
definition REPORT_DTC_BY_STATUS_MASK :: int where "REPORT_DTC_BY_STATUS_MASK = 0x02"

definition DTCS :: "(int \<times> int) list" where "DTCS = [(0xC10A00, 0x2F), (0xD24B14, 0x08)]"

definition read_dtc :: "uds_request \<Rightarrow> ('w, hres) py" where
  "read_dtc req =
     (if sub_function req \<noteq> Some REPORT_DTC_BY_STATUS_MASK \<or> length (raw req) \<noteq> 3 then ret HNone
      else let mask = uint (raw req ! 2);
               rec = [0xFF] @ concat (map (\<lambda>(dtc, status). int_be 3 dtc @ [word_of_int status])
                       (filter (\<lambda>(dtc, status). status AND mask \<noteq> 0) DTCS))
           in ret (HBytes (positive req ([word_of_int REPORT_DTC_BY_STATUS_MASK] @ rec))))"

definition simple_dtcs :: "('p, 'w) plugin" where
  "simple_dtcs =
     \<lparr>p_name = ''SimpleDtcs'', p_priority = 100, p_enabled = True, p_load_index = 0,
      p_hooks = collect_hooks [[(''read_dtc'', [(KService SID_READ_DTC_INFORMATION, None)])]],
      p_method = (\<lambda>name args. case args of ReqArgs req c \<Rightarrow> read_dtc req | _ \<Rightarrow> raise TypeError)\<rparr>"

section \<open>The hooks of the engine\<close>

lemma engine_hooks:
  "p_hooks (engine_ecu idle redline) =
     [(KObserver, [(''trace'', None)]), (KReadDid 0xF40C, [(''read_engine_speed'', None)]),
      (KReadDid 0xF40D, [(''read_vehicle_speed'', None)]), (KWriteDid 0x2A00, [(''write_rev_limit'', None)]),
      (KReadDid 0x2A00, [(''read_rev_limit'', None)]), (KRoutine 0x0203 None, [(''self_test'', None)])]"
  by (simp add: engine_ecu_def engine_attrs_def engine_ids collect_hooks_def collect_mark_def append_at_def
      lookup_list_def Let_def)

abbreviation engine_hook :: "int \<Rightarrow> int \<Rightarrow> string \<Rightarrow> ('p, 'x example) hook" where
  "engine_hook idle redline name \<equiv> mk_hook (engine_ecu idle redline) (name, None)"

lemma engine_hooks_at:
  "hooks_at [engine_ecu idle redline] k =
     (if k = KObserver then [engine_hook idle redline ''trace'']
      else if k = KReadDid 0xF40C then [engine_hook idle redline ''read_engine_speed'']
      else if k = KReadDid 0xF40D then [engine_hook idle redline ''read_vehicle_speed'']
      else if k = KWriteDid 0x2A00 then [engine_hook idle redline ''write_rev_limit'']
      else if k = KReadDid 0x2A00 then [engine_hook idle redline ''read_rev_limit'']
      else if k = KRoutine 0x0203 None then [engine_hook idle redline ''self_test''] else [])"
  by (auto simp: hooks_at_def plugin_hooks_def engine_hooks)

lemma engine_enabled [simp]: "p_enabled (engine_ecu idle redline)"
  by (simp add: engine_ecu_def)

lemma engine_bucket:
  "bucket (new_dispatcher [engine_ecu idle redline]) k = hooks_at [engine_ecu idle redline] k"
proof -
  have "sort_key hook_key (hooks_at [engine_ecu idle redline] k) = hooks_at [engine_ecu idle redline] k"
    by (simp add: engine_hooks_at)
  then show ?thesis
    unfolding bucket_new_dispatcher by (simp add: engine_hooks_at is_uds_kind_def split: hook_point.split)
qed

lemma engine_tables:
  "observers (new_dispatcher [engine_ecu idle redline]) = [engine_hook idle redline ''trace'']"
  "any_hooks (new_dispatcher [engine_ecu idle redline]) = []"
  "s \<noteq> ANY_SERVICE \<Longrightarrow> lookup_list (service_hooks (new_dispatcher [engine_ecu idle redline])) s = []"
  "lookup_list (read_did_hooks (new_dispatcher [engine_ecu idle redline])) did = hooks_at [engine_ecu idle redline] (KReadDid did)"
  "lookup_list (write_did_hooks (new_dispatcher [engine_ecu idle redline])) did = hooks_at [engine_ecu idle redline] (KWriteDid did)"
  using engine_bucket [of idle redline KObserver] engine_bucket [of idle redline "KService ANY_SERVICE"]
    engine_bucket [of idle redline "KService s"] engine_bucket [of idle redline "KReadDid did"]
    engine_bucket [of idle redline "KWriteDid did"]
  by (simp_all add: engine_hooks_at)

lemma engine_call [simp]: "h_method (mk_hook (engine_ecu idle redline) (name, None)) args = engine_method idle redline name args"
  by (simp add: mk_hook_def engine_ecu_def)

lemma engine_dispatch:
  assumes "raw req \<noteq> []" and "d = new_dispatcher [engine_ecu idle redline]"
  shows "dispatch cfg d req r w =
    bnd (core_handle cfg d \<lparr>ctx_request = req, ctx_session = r\<rparr>)
      (\<lambda>r3. if r3 \<noteq> HNone then ret r3 else lift (fallback (uds cfg) req)) w"
proof -
  have "sid req \<noteq> ANY_SERVICE" using sid_range [OF assms(1)] by (simp add: ANY_SERVICE_def)
  then show ?thesis
    unfolding assms(2)
    by (simp add: dispatch_eq ladder_hooks_def engine_tables call_hook_def try_catch_def engine_method_def Let_def
        seq_def bnd_def)
qed

lemma rev_limit_bytes: "int_be 2 0x2A00 = [0x2A, 0x00]"
  by code_simp

lemma engine_read_rev_limit:
  assumes rq: "raw req = [0x22, 0x2A, 0x00]" and size: "5 \<le> max_payload_bytes (doip cfg)"
    and l: "(case eng_limit w of None \<Rightarrow> redline | Some x \<Rightarrow> x) = l" "0 \<le> l" "l < 65536"
  shows "dispatch cfg (new_dispatcher [engine_ecu idle redline]) req r w = (Inr (HBytes ([0x62, 0x2A, 0x00] @ int_be 2 l)), w)"
proof -
  have s: "sid req = 0x22" using rq by simp
  have dids: "req_dids req = [0x2A00]" using rq by (simp add: req_dids_def py_slice_def from_be_def)
  have v: "read_rev_limit redline w = (Inr (HBytes (int_be 2 l)), w)"
    using l by (simp add: read_rev_limit_def to_bytes_big_def)
  note h = rev_limit_bytes
  have len: "length (int_be 2 l) = 2" by simp
  show ?thesis
    using rq size len
    by (simp add: engine_dispatch core_handle_def s sids read_data_by_identifier_def Let_def dids req_data_def read_one_def
        resolve_did_read_def engine_tables engine_hooks_at call_hook_def try_catch_def engine_method_def v judge_bytes_def
        bnd_def pack_uint_def h positive_def)
qed

text \<open>The revolution limit of the example engine, through the dispatcher and the built-in services. A write needs
  security level 1, two bytes, and a value between idle speed and redline, and is refused with the
  negative response of the first of these it lacks, changing nothing; otherwise it is accepted, and what a read
  then answers, on any connection, is the value written.\<close>

theorem rev_limit_roundtrip:
  assumes rq: "raw req = [0x2E, 0x2A, 0x00] @ v" "v \<noteq> []" and rd: "raw rreq = [0x22, 0x2A, 0x00]"
    and size: "5 \<le> max_payload_bytes (doip cfg)" and d: "d = new_dispatcher [engine_ecu idle redline]"
    and run: "dispatch cfg d req r w = (res, w')"
  shows "(if security_level (sess w r) < 1 then res = Inl (NegativeResponse NRC_SECURITY_ACCESS_DENIED (Some 0x2E)) \<and> w' = w
    else if length v \<noteq> 2 \<or> from_be v < idle \<or> redline < from_be v
      then res = Inl (NegativeResponse NRC_REQUEST_OUT_OF_RANGE (Some 0x2E)) \<and> w' = w
    else res = Inr (HBytes [0x6E, 0x2A, 0x00])
         \<and> dispatch cfg d rreq r' w' = (Inr (HBytes ([0x62, 0x2A, 0x00] @ v)), w'))"
proof -
  have s: "sid req = 0x2E" using rq(1) by simp
  have did: "from_be [0x2A, 0x00] = 0x2A00" by (simp add: from_be_def)
  note h = rev_limit_bytes
  have len: "\<not> length (req_data req) < 3" "py_slice 0 2 (req_data req) = [0x2A, 0x00]" "drop 2 (req_data req) = v"
    using rq by (simp_all add: req_data_def py_slice_def Suc_le_eq)
  let ?c = "\<lparr>ctx_request = req, ctx_session = r\<rparr>"
  have hook: "resolve_did_write (uds cfg) d 0x2A00 v ?c w =
    (if security_level (sess w r) < 1 then (Inl (NegativeResponse NRC_SECURITY_ACCESS_DENIED (Some 0x2E)), w)
     else if length v \<noteq> 2 \<or> from_be v < idle \<or> redline < from_be v
       then (Inl (NegativeResponse NRC_REQUEST_OUT_OF_RANGE (Some 0x2E)), w)
     else (Inr (Some True), w\<lparr>eng_limit := Some (from_be v)\<rparr>))"
    by (auto simp: resolve_did_write_def d engine_tables engine_hooks_at call_hook_def try_catch_def engine_method_def
        write_rev_limit_def ctx_nrc_def s judge_bool_def Plugins.truthy_def bnd_def seq_def Let_def)
  have disp: "dispatch cfg d req r w = bnd (write_data_by_identifier cfg d ?c)
      (\<lambda>r3. if r3 \<noteq> HNone then ret r3 else lift (fallback (uds cfg) req)) w"
    using rq by (simp add: engine_dispatch [OF _ d] core_handle_def s sids)
  have wr: "write_data_by_identifier cfg d ?c w =
     (case resolve_did_write (uds cfg) d 0x2A00 v ?c w of
        (Inl e, t) \<Rightarrow> (Inl e, t)
      | (Inr (Some True), t) \<Rightarrow> (Inr (HBytes [0x6E, 0x2A, 0x00]), t)
      | (Inr _, t) \<Rightarrow> write_data_by_identifier cfg d ?c w)"
    using len
    by (auto simp: write_data_by_identifier_def did bnd_def pack_uint_def h positive_def s Let_def
        split: prod.split sum.split option.split bool.split)
  show ?thesis
  proof (cases "security_level (sess w r) < 1 \<or> length v \<noteq> 2 \<or> from_be v < idle \<or> redline < from_be v")
    case True
    with run show ?thesis by (auto simp: disp bnd_def wr hook split: if_splits)
  next
    case False
    with run have res: "res = Inr (HBytes [0x6E, 0x2A, 0x00])" "w' = w\<lparr>eng_limit := Some (from_be v)\<rparr>"
      by (simp_all add: disp bnd_def wr hook)
    have "from_be v < 65536" using False from_be_less [of v] by simp
    moreover have "int_be 2 (from_be v) = v" using False int_be_from_be [of v] by simp
    ultimately have "dispatch cfg d rreq r' w' = (Inr (HBytes ([0x62, 0x2A, 0x00] @ v)), w')"
      using engine_read_rev_limit [OF rd size, where w = w' and redline = redline and l = "from_be v" and idle = idle and r = r']
        res(2) d by simp
    with res False show ?thesis by simp
  qed
qed

text \<open>A tester that has unlocked level 1.\<close>

definition unlocked_world :: example_world where
  "unlocked_world =
     upd_sess 0 (\<lambda>s. s\<lparr>security_level := 1\<rparr>)
       (ecu.extend (new_ecu default_ecu_config)
          \<lparr>eng_rpm = 800, eng_self_test = None, eng_limit = None, faults_seen = [], extra_sent = []\<rparr>)"

definition engine_disp :: "(unit, example_world) dispatcher" where
  "engine_disp = new_dispatcher [engine_ecu 800 6500]"

theorem rev_limit_roundtrip_witness:
  "let w' = snd (dispatch default_ecu_config engine_disp (mk_req [0x2E, 0x2A, 0x00, 0x17, 0x70]) 0 unlocked_world)
   in dispatch default_ecu_config engine_disp (mk_req [0x22, 0x2A, 0x00]) 7 w' = (Inr (HBytes [0x62, 0x2A, 0x00, 0x17, 0x70]), w')"
proof -
  obtain res w' where run: "dispatch default_ecu_config engine_disp (mk_req [0x2E, 0x2A, 0x00, 0x17, 0x70]) 0 unlocked_world = (res, w')"
    by fastforce
  have "security_level (sess unlocked_world 0) = 1"
    by (simp add: unlocked_world_def core_simps)
  moreover have "from_be [0x17, 0x70] = 6000" by (simp add: from_be_def)
  moreover have "5 \<le> max_payload_bytes (doip default_ecu_config)" by (simp add: config_defaults)
  moreover have "raw (mk_req [0x2E, 0x2A, 0x00, 0x17, 0x70]) = [0x2E, 0x2A, 0x00] @ [0x17, 0x70]"
    "raw (mk_req [0x22, 0x2A, 0x00]) = [0x22, 0x2A, 0x00]" by (simp_all add: mk_req_def)
  ultimately show ?thesis
    using rev_limit_roundtrip [OF _ _ _ _ engine_disp_def run, of "[0x17, 0x70]" "mk_req [0x22, 0x2A, 0x00]" 7] run
    by (simp add: Let_def)
qed

text \<open>The engine speed stays in the window of 4000 above idle, so that its two bytes always exist.\<close>

lemma engine_speed_bounded:
  assumes "0 \<le> idle" "idle + 4000 \<le> 65536"
  shows "\<exists>w'. read_engine_speed idle w = (Inr (HBytes (int_be 2 (eng_rpm w'))), w') \<and> idle \<le> eng_rpm w' \<and> eng_rpm w' < idle + 4000"
proof -
  let ?rpm = "idle + ((eng_rpm w - idle) + 250) mod 4000"
  have "0 \<le> (eng_rpm w - idle + 250) mod 4000" "(eng_rpm w - idle + 250) mod 4000 < 4000" by simp_all
  with assms have "0 \<le> ?rpm" "?rpm < 65536" "idle \<le> ?rpm" "?rpm < idle + 4000" by linarith+
  then show ?thesis
    by (intro exI [of _ "w\<lparr>eng_rpm := ?rpm\<rparr>"]) (simp add: read_engine_speed_def to_bytes_big_def)
qed

section \<open>Faults\<close>

lemma raw_faults_bucket:
  "any_hooks (new_dispatcher [raw_faults ds ss n]) = [mk_hook (raw_faults ds ss n) (''intercept'', None)]"
  "observers (new_dispatcher [raw_faults ds ss n]) = []"
  "s \<noteq> ANY_SERVICE \<Longrightarrow> lookup_list (service_hooks (new_dispatcher [raw_faults ds ss n])) s = []"
proof -
  have hooks: "p_hooks (raw_faults ds ss n) = [(KService ANY_SERVICE, [(''intercept'', None)])]"
    by (simp add: raw_faults_def collect_hooks_def collect_mark_def append_at_def lookup_list_def Let_def)
  have en: "p_enabled (raw_faults ds ss n)" by (simp add: raw_faults_def)
  have at: "bucket (new_dispatcher [raw_faults ds ss n]) k =
    (if k = KService ANY_SERVICE then [mk_hook (raw_faults ds ss n) (''intercept'', None)] else [])" for k
    unfolding bucket_new_dispatcher using en by (auto simp: hooks_at_def plugin_hooks_def hooks is_uds_kind_def)
  show "any_hooks (new_dispatcher [raw_faults ds ss n]) = [mk_hook (raw_faults ds ss n) (''intercept'', None)]"
    using at [of "KService ANY_SERVICE"] by simp
  show "observers (new_dispatcher [raw_faults ds ss n]) = []"
    using at [of KObserver] by simp
  show "s \<noteq> ANY_SERVICE \<Longrightarrow> lookup_list (service_hooks (new_dispatcher [raw_faults ds ss n])) s = []"
    using at [of "KService s"] by simp
qed

lemma faults_call [simp]: "h_method (mk_hook (raw_faults ds ss n) e) (ReqArgs req c) = intercept ds ss n req"
  by (simp add: mk_hook_def raw_faults_def)

text \<open>A dropped service is never answered and never reaches the services; a stalled one announces the
  delay as often as it is told to, and is then answered as without the plugin.\<close>

lemma dropped_service_silent:
  assumes "raw req \<noteq> []" "sid req \<in> ds"
  shows "dispatch cfg (new_dispatcher [raw_faults ds ss n]) req r w = (Inr HNoResponse, w)"
proof -
  have "sid req \<noteq> ANY_SERVICE" using sid_range [OF assms(1)] by (simp add: ANY_SERVICE_def)
  then show ?thesis
    using assms(2)
    by (simp add: dispatch_eq ladder_hooks_def raw_faults_bucket ask_service_def call_hook_def try_catch_def intercept_def Let_def seq_def
        bnd_def judge_any_def)
qed

lemma stall_announces:
  assumes "sid req \<notin> ds" "sid req \<in> ss" and "k = (case map_of (faults_seen w) (sid req) of None \<Rightarrow> 0 | Some m \<Rightarrow> m)"
  shows "\<exists>w'. intercept ds ss n req w = (Inr HNone, w') \<and> map_of (faults_seen w') (sid req) = Some (k + 1)
    \<and> extra_sent w' = extra_sent w @ (if k + 1 \<le> n then [[0x7F, word_of_int (sid req AND 0xFF), 0x78]] else [])"
  using assms int_and_255 [of "sid req"]
  by (simp add: intercept_def bnd_def seq_def update_conv')

end
