(* ===== verification/Uds_Probe.thy ===== *)
theory Uds_Probe
  imports Pc_Tester Ecu_Main
begin

text \<open>
  The one-shot client \<^verbatim>\<open>virtual_ecu/tools/uds_probe.py\<close>, which uses a blocking socket with a time limit per
  \<^verbatim>\<open>recv\<close>. What the connection delivers is a list of events: a block of bytes, a silence that lasts beyond the limit, the
  end of the stream; when the list is used up, nothing arrives any more. Whether \<^verbatim>\<open>sendall\<close> and
  \<^verbatim>\<open>connect\<close> succeed is an argument. What is printed is a list of messages.
\<close>

section \<open>Reading\<close>

datatype net_event = Block bytes | Silence | Closed

datatype probe_msg =
    MActivationFailed int bytes | MActivation int | MRequest bytes | MNoResponse | MAck | MNack int | MOther int bytes
  | MPending int | MResponse bytes

text \<open>\<open>recv_exact\<close> with \<open>n\<close> bytes still missing.\<close>

fun recv_exact :: "nat \<Rightarrow> bytes \<Rightarrow> net_event list \<Rightarrow> bytes res \<times> net_event list" where
  "recv_exact 0 chunks evs = (Inr chunks, evs)"
| "recv_exact (Suc n) chunks [] = (Inl TimeoutError, [])"
| "recv_exact (Suc n) chunks (Silence # evs) = (Inl TimeoutError, evs)"
| "recv_exact (Suc n) chunks (Closed # evs) = (Inl ConnectionError, Closed # evs)"
| "recv_exact (Suc n) chunks (Block b # evs) =
     (if b = [] then (Inl ConnectionError, Block b # evs)
      else if length b \<le> Suc n then recv_exact (Suc n - length b) (chunks @ b) evs
      else (Inr (chunks @ take (Suc n) b), Block (drop (Suc n) b) # evs))"

definition probe_build :: "int \<Rightarrow> bytes \<Rightarrow> bytes res" where
  "probe_build payload_type payload =
     ebind (pack_uint 1 0x02) (\<lambda>v. ebind (pack_uint 1 0xFD) (\<lambda>i. ebind (pack_uint 2 payload_type) (\<lambda>t.
     ebind (pack_uint 4 (int (length payload))) (\<lambda>l. Inr (v @ i @ t @ l @ payload)))))"

definition probe_read_frame :: "net_event list \<Rightarrow> (int \<times> bytes) res \<times> net_event list" where
  "probe_read_frame evs =
     (case recv_exact 8 [] evs of
        (Inl e, evs1) \<Rightarrow> (Inl e, evs1)
      | (Inr header, evs1) \<Rightarrow>
          (case recv_exact (nat (from_be (py_slice 4 8 header))) [] evs1 of
             (Inl e, evs2) \<Rightarrow> (Inl e, evs2)
           | (Inr pl, evs2) \<Rightarrow> (Inr (from_be (py_slice 2 4 header), pl), evs2)))"

text \<open>Reading consumes: the measure of the loop below.\<close>

fun event_size :: "net_event \<Rightarrow> nat" where
  "event_size (Block b) = length b"
| "event_size Silence = 1"
| "event_size Closed = 1"

abbreviation events_size :: "net_event list \<Rightarrow> nat" where
  "events_size evs \<equiv> sum_list (map event_size evs)"

lemma recv_exact_size:
  "recv_exact n chunks evs = (r, evs') \<Longrightarrow>
     events_size evs' \<le> events_size evs \<and> (\<forall>x. r = Inr x \<longrightarrow> events_size evs' + n = events_size evs)"
  by (induction n chunks evs arbitrary: r evs' rule: recv_exact.induct) (auto split: if_splits)

lemma probe_read_frame_size: "probe_read_frame evs = (Inr x, evs') \<Longrightarrow> events_size evs' < events_size evs"
  by (auto simp: probe_read_frame_def split: prod.splits sum.splits dest!: recv_exact_size)

section \<open>One request\<close>

text \<open>What \<open>send_uds\<close> makes of a frame: go on, or return.\<close>

definition is_pending :: "bytes \<Rightarrow> bool" where
  "is_pending response \<longleftrightarrow> 3 \<le> length response \<and> response ! 0 = 0x7F \<and> response ! 2 = 0x78"

definition judge_frame :: "int \<Rightarrow> bytes \<Rightarrow> probe_msg \<times> bytes option option" where
  "judge_frame pt pl =
     (if pt = PT_DIAGNOSTIC_POSITIVE_ACK then (MAck, None)
      else if pt = PT_DIAGNOSTIC_NEGATIVE_ACK
        then (MNack (if length pl > 4 then uint (pl ! 4) else 0xFF), Some None)
      else if pt \<noteq> PT_DIAGNOSTIC_MESSAGE then (MOther pt pl, None)
      else let response = drop 4 pl in
        if is_pending response then (MPending (uint (response ! 1)), None)
        else (MResponse response, Some (Some response)))"

function await_response :: "net_event list \<Rightarrow> probe_msg list \<Rightarrow> bytes option res \<times> probe_msg list \<times> net_event list" where
  "await_response evs out =
     (case probe_read_frame evs of
        (Inl e, evs') \<Rightarrow> if e = TimeoutError then (Inr None, out @ [MNoResponse], evs') else (Inl e, out, evs')
      | (Inr (pt, pl), evs') \<Rightarrow>
          (case judge_frame pt pl of
             (m, None) \<Rightarrow> await_response evs' (out @ [m])
           | (m, Some r) \<Rightarrow> (Inr r, out @ [m], evs')))"
  by pat_completeness auto

termination await_response
  by (relation "measure (\<lambda>(evs, out). events_size evs)") (auto dest!: sym [of "(_, _)" "probe_read_frame _"] probe_read_frame_size)

declare await_response.simps [simp del]

record probe =
  pr_in :: "net_event list"
  pr_sent :: "bytes list"
  pr_out :: "probe_msg list"

definition probe_sendall :: "(bytes \<Rightarrow> unit res) \<Rightarrow> bytes \<Rightarrow> (probe, unit) py" where
  "probe_sendall sendall data s =
     (case sendall data of Inl e \<Rightarrow> (Inl e, s) | Inr _ \<Rightarrow> (Inr (), s\<lparr>pr_sent := pr_sent s @ [data]\<rparr>))"

definition say :: "probe_msg \<Rightarrow> (probe, unit) py" where
  "say m = modify (\<lambda>s. s\<lparr>pr_out := pr_out s @ [m]\<rparr>)"

definition read_in :: "(probe, int \<times> bytes) py" where
  "read_in s = (case probe_read_frame (pr_in s) of (r, evs) \<Rightarrow> (r, s\<lparr>pr_in := evs\<rparr>))"

definition probe_activate :: "(bytes \<Rightarrow> unit res) \<Rightarrow> int \<Rightarrow> (probe, bool) py" where
  "probe_activate sendall tester =
     bnd (lift (pack_H tester)) (\<lambda>a.
     bnd (lift (probe_build PT_ROUTING_ACT_REQUEST (a @ [0] @ [0, 0, 0, 0]))) (\<lambda>fr.
     seq (probe_sendall sendall fr)
     (bnd read_in (\<lambda>(pt, pl).
      if pt \<noteq> PT_ROUTING_ACT_RESPONSE \<or> length pl < 5 then seq (say (MActivationFailed pt pl)) (ret False)
      else let code = uint (pl ! 4) in seq (say (MActivation code)) (ret (code = 0x10))))))"

definition send_uds :: "(bytes \<Rightarrow> unit res) \<Rightarrow> int \<Rightarrow> int \<Rightarrow> bytes \<Rightarrow> (probe, bytes option) py" where
  "send_uds sendall tester target u =
     seq (say (MRequest u))
     (bnd (lift (pack_HH tester target)) (\<lambda>h.
      bnd (lift (probe_build PT_DIAGNOSTIC_MESSAGE (h @ u))) (\<lambda>fr.
      seq (probe_sendall sendall fr)
      (\<lambda>s. case await_response (pr_in s) (pr_out s) of (r, out, evs) \<Rightarrow> (r, s\<lparr>pr_in := evs, pr_out := out\<rparr>)))))"

section \<open>The program\<close>

definition probe_parse_hex :: "string \<Rightarrow> bytes option" where
  "probe_parse_hex text =
     (let cleaned = map (\<lambda>c. if c = CHR '','' \<or> c = CHR ''_'' then CHR '' '' else c) (remove_pair CHR ''0'' CHR ''x'' text)
      in fromhex (filter (\<lambda>c. c \<noteq> CHR '' '') cleaned))"

text \<open>The requests of the command line; \<open>Some 1\<close> is the \<^verbatim>\<open>SystemExit\<close> of text that is not hexadecimal.\<close>

primrec send_requests :: "(bytes \<Rightarrow> unit res) \<Rightarrow> int \<Rightarrow> int \<Rightarrow> string list \<Rightarrow> (probe, int option) py" where
  "send_requests sendall tester target [] = ret None"
| "send_requests sendall tester target (text # rest) =
     (case probe_parse_hex text of
        None \<Rightarrow> ret (Some 1)
      | Some u \<Rightarrow> bnd (send_uds sendall tester target u) (\<lambda>_. send_requests sendall tester target rest))"

text \<open>\<open>main\<close>, from the arguments on: the exit code, or the exception that ends the program. Without a request
  the argument parser exits with 2.\<close>

definition probe_main ::
    "(bytes \<Rightarrow> unit res) \<Rightarrow> unit res \<Rightarrow> string \<Rightarrow> string \<Rightarrow> string list \<Rightarrow> (probe, int) py" where
  "probe_main sendall connect tester_arg target_arg requests =
     (if requests = [] then ret 2
      else case (py_int_auto tester_arg, py_int_auto target_arg) of
        (Some tester, Some target) \<Rightarrow>
          (case connect of
             Inl e \<Rightarrow> if is_OSError e then ret 1 else raise e
           | Inr _ \<Rightarrow>
               try_catch
                 (bnd (probe_activate sendall tester) (\<lambda>ok.
                  if \<not> ok then ret 1
                  else bnd (send_requests sendall tester target requests) (\<lambda>r.
                    ret (case r of None \<Rightarrow> 0 | Some c \<Rightarrow> c))))
                 (\<lambda>e. if is_OSError e then ret 1 else raise e))
      | _ \<Rightarrow> raise ValueError)"

section \<open>Frames in any segmentation\<close>

lemma probe_build_eq: "probe_build pt pl = build_frame pt pl 0x02"
  by (simp add: probe_build_def build_frame_def Let_def)

text \<open>What the client sends is a frame that the reader of the VirtualEcu takes back whole.\<close>

lemma ecu_reads_probe:
  assumes "probe_build pt pl = Inr fr" "int (length pl) \<le> m"
  shows "read_frame (Some m) (fr @ rest) = (Inr fr, rest) \<and> frame_ptype fr = Inr pt \<and> frame_payload fr = pl"
  using assms unfolding probe_build_eq
  by (auto intro: virt_codec.read_built virt_codec.ptype_of_built virt_codec.payload_of_built)

text \<open>\<open>carries evs bs\<close>: the bytes arrive in blocks of whatever size, without silence or end between them.\<close>

definition carries :: "net_event list \<Rightarrow> bytes \<Rightarrow> bool" where
  "carries evs bs \<longleftrightarrow> (\<exists>blocks. evs = map Block blocks \<and> [] \<notin> set blocks \<and> concat blocks = bs)"

lemma carries_Nil [simp]: "carries [] bs \<longleftrightarrow> bs = []"
  by (auto simp: carries_def)

lemma carries_Cons: "carries (ev # evs) bs \<longleftrightarrow> (\<exists>b bs'. ev = Block b \<and> b \<noteq> [] \<and> bs = b @ bs' \<and> carries evs bs')"
  unfolding carries_def
  by (auto simp: Cons_eq_map_conv) (metis concat.simps(2) list.set_intros(1) list.simps(9) set_ConsD)

lemma recv_exact_carries:
  assumes "carries evs (xs @ ys)" and "length xs = n"
  shows "\<exists>evs'. recv_exact n chunks evs = (Inr (chunks @ xs), evs') \<and> carries evs' ys"
  using assms
proof (induction n chunks evs arbitrary: xs rule: recv_exact.induct)
  case (5 n chunks b evs)
  then obtain bs where b: "b \<noteq> []" "xs @ ys = b @ bs" "carries evs bs" by (auto simp: carries_Cons)
  show ?case
  proof (cases "length b \<le> Suc n")
    case True
    then obtain zs where zs: "xs = b @ zs" "bs = zs @ ys"
      using b(2) "5.prems"(2) by (auto simp: append_eq_append_conv2)
    with "5.IH" [OF b(1) True, of zs] b "5.prems" True show ?thesis by auto
  next
    case False
    then obtain zs where zs: "b = xs @ zs" "ys = zs @ bs"
      using b(2) "5.prems"(2) by (auto simp: append_eq_append_conv2)
    with False b "5.prems" show ?thesis by (auto simp: carries_Cons)
  qed
qed (auto simp: carries_Cons)

text \<open>A frame of the protocol, as a peer sends it.\<close>

definition wire_frame :: "int \<times> bytes \<Rightarrow> bytes" where
  "wire_frame f = doip_header 0x02 (fst f) (int (length (snd f))) @ snd f"

definition wire_ok :: "int \<times> bytes \<Rightarrow> bool" where
  "wire_ok f \<longleftrightarrow> frame_args_ok (fst f) (snd f) 0x02"

lemma read_wire_frame:
  assumes "carries evs (wire_frame f @ rest)" and "wire_ok f"
  shows "\<exists>evs'. probe_read_frame evs = (Inr f, evs') \<and> carries evs' rest"
proof -
  let ?h = "doip_header 0x02 (fst f) (int (length (snd f)))"
  from assms(1) have "carries evs (?h @ (snd f @ rest))" by (simp add: wire_frame_def)
  from recv_exact_carries [OF this, of 8 "[]"] obtain evs1 where
    h: "recv_exact 8 [] evs = (Inr ?h, evs1)" "carries evs1 (snd f @ rest)" by auto
  have r: "0 \<le> fst f" "fst f < 65536" "int (length (snd f)) < 2 ^ 32"
    using assms(2) by (simp_all add: wire_ok_def frame_args_ok_def)
  have sl: "from_be (py_slice 4 8 ?h) = int (length (snd f))" "from_be (py_slice 2 4 ?h) = fst f"
    using r py_slice_header [of 2 "fst f" "int (length (snd f))" "[]"] by (simp_all add: from_be_int_be)
  from recv_exact_carries [OF h(2), of "length (snd f)" "[]"] obtain evs2 where
    "recv_exact (length (snd f)) [] evs1 = (Inr (snd f), evs2)" "carries evs2 rest" by auto
  with h(1) sl show ?thesis by (simp add: probe_read_frame_def)
qed

section \<open>The answer\<close>

text \<open>What may come before the answer, written on the bytes of the frames alone: a positive
  acknowledgement, a diagnostic message \<open>7F sid 78\<close> after the four address bytes, or a frame of any
  type that is neither a diagnostic message (0x8001) nor a negative acknowledgement (0x8003); with
  the message the client prints for it.\<close>

inductive passed :: "int \<times> bytes \<Rightarrow> probe_msg \<Rightarrow> bool" where
  ack: "passed (0x8002, pl) MAck"
| pending: "length addrs = 4 \<Longrightarrow> passed (0x8001, addrs @ 0x7F # s # 0x78 # xs) (MPending (uint s))"
| other: "pt \<notin> {0x8001, 0x8002, 0x8003} \<Longrightarrow> passed (pt, pl) (MOther pt pl)"

text \<open>What ends the wait, on the bytes again: a negative acknowledgement is no answer, and reported with
  its code (the byte behind the addresses, 0xFF when there is none); a diagnostic message whose
  payload is not \<open>7F _ 78 \<dots>\<close> is the answer (an empty one when the message is shorter than its
  addresses).\<close>

inductive ends :: "int \<times> bytes \<Rightarrow> bytes option \<Rightarrow> probe_msg \<Rightarrow> bool" where
  refused: "ends (0x8003, pl) None (MNack (if length pl > 4 then uint (pl ! 4) else 0xFF))"
| answered: "length addrs = 4 \<Longrightarrow> \<nexists>s xs. response = 0x7F # s # 0x78 # xs \<Longrightarrow>
    ends (0x8001, addrs @ response) (Some response) (MResponse response)"
| short: "length pl < 4 \<Longrightarrow> ends (0x8001, pl) (Some []) (MResponse [])"

lemma is_pending_iff: "is_pending r \<longleftrightarrow> (\<exists>s xs. r = 0x7F # s # 0x78 # xs)"
  by (auto simp: is_pending_def numeral_3_eq_3 Suc_le_length_iff)

lemma passed_judged: "passed f m \<Longrightarrow> judge_frame (fst f) (snd f) = (m, None)"
  by (induction rule: passed.induct) (auto simp: judge_frame_def payload_types is_pending_iff Let_def)

lemma ends_judged: "ends f r m \<Longrightarrow> judge_frame (fst f) (snd f) = (m, Some r)"
  by (induction rule: ends.induct) (auto simp: judge_frame_def payload_types is_pending_iff Let_def)

text \<open>Every frame is of one of the two kinds.\<close>

lemma passed_or_ends: "(\<exists>m. passed f m) \<or> (\<exists>r m. ends f r m)"
proof (cases f)
  case (Pair pt pl)
  consider "pt = 0x8003" | "pt = 0x8002" | "pt \<notin> {0x8001, 0x8002, 0x8003}" | "pt = 0x8001" "length pl < 4"
    | "pt = 0x8001" "length (take 4 pl) = 4" by fastforce
  then show ?thesis
  proof cases
    case 5
    show ?thesis
    proof (cases "\<exists>s xs. drop 4 pl = 0x7F # s # 0x78 # xs")
      case True
      then obtain s xs where "pl = take 4 pl @ 0x7F # s # 0x78 # xs" by (metis append_take_drop_id)
      with passed.pending [OF 5(2), of s xs] show ?thesis by (metis Pair 5(1))
    next
      case False
      with ends.answered [OF 5(2), of "drop 4 pl"] show ?thesis by (auto simp: Pair 5(1))
    qed
  qed (auto simp: Pair intro: passed.intros ends.intros)
qed

lemma await_skips:
  assumes "carries evs (concat (map wire_frame fs) @ rest)" and "\<forall>f \<in> set fs. wire_ok f"
    and "list_all2 passed fs ms"
  shows "\<exists>evs'. await_response evs out = await_response evs' (out @ ms) \<and> carries evs' rest"
  using assms(3,1,2)
proof (induction arbitrary: evs out rule: list_all2_induct)
  case (Cons f fs m ms)
  from Cons.prems(1) have "carries evs (wire_frame f @ (concat (map wire_frame fs) @ rest))" by simp
  with Cons.prems(2) obtain evs1 where f: "probe_read_frame evs = (Inr f, evs1)"
    and c: "carries evs1 (concat (map wire_frame fs) @ rest)"
    using read_wire_frame by (metis list.set_intros(1))
  have "await_response evs out = await_response evs1 (out @ [m])"
    by (subst await_response.simps) (simp add: f split_beta passed_judged [OF Cons.hyps(1)])
  with Cons.IH [OF c, of "out @ [m]"] Cons.prems(2) show ?case by auto
qed auto

text \<open>C34: However the stream is cut into blocks, and however many positive acknowledgements,
  ResponsePending messages (\<open>7F sid 78\<close>) and frames of other types come first, the wait for an
  answer ends with the first frame that is none of these: a diagnostic message that is not pending is
  the answer, a negative acknowledgement means that there is none. Every frame is reported, in its
  order, and what follows the last one stays unread.\<close>

theorem probe_finds_answer:
  assumes "carries evs (concat (map wire_frame fs) @ wire_frame f @ rest)"
    and "\<forall>g \<in> set (f # fs). wire_ok g" "list_all2 passed fs ms" "ends f answer m"
  shows "\<exists>evs'. await_response evs out = (Inr answer, out @ ms @ [m], evs') \<and> carries evs' rest"
proof -
  from await_skips [OF assms(1) _ assms(3), of out] assms(2) obtain evs1 where
    skip: "await_response evs out = await_response evs1 (out @ ms)" "carries evs1 (wire_frame f @ rest)" by auto
  with assms(2) obtain evs2 where f: "probe_read_frame evs1 = (Inr f, evs2)" "carries evs2 rest"
    using read_wire_frame by (metis list.set_intros(1))
  have "await_response evs1 (out @ ms) = (Inr answer, (out @ ms) @ [m], evs2)"
    by (subst await_response.simps) (simp add: f(1) split_beta ends_judged [OF assms(4)])
  with skip(1) f(2) show ?thesis by simp
qed

text \<open>An acknowledgement and a ResponsePending, cut into blocks with the answer behind them.\<close>

theorem probe_finds_answer_witness:
  "\<exists>evs'. await_response
      [Block [2, 0xFD, 0x80], Block [2, 0, 0, 0, 5, 0, 3, 0x0E, 0, 0, 2, 0xFD, 0x80, 1, 0, 0, 0, 7, 0, 3, 0x0E, 0, 0x7F],
       Block [0x3E, 0x78, 2, 0xFD, 0x80, 1, 0, 0], Block [0, 6, 0, 3, 0x0E, 0, 0x7E, 0]] []
    = (Inr (Some [0x7E, 0]), [MAck, MPending 0x3E, MResponse [0x7E, 0]], evs') \<and> carries evs' []"
proof -
  let ?ack = "(0x8002, [0, 3, 0x0E, 0, 0]) :: int \<times> bytes" and ?wait = "(0x8001, [0, 3, 0x0E, 0] @ [0x7F, 0x3E, 0x78]) :: int \<times> bytes"
  let ?ans = "(0x8001, [0, 3, 0x0E, 0] @ [0x7E, 0]) :: int \<times> bytes"
  let ?blocks = "[[2, 0xFD, 0x80], [2, 0, 0, 0, 5, 0, 3, 0x0E, 0, 0, 2, 0xFD, 0x80, 1, 0, 0, 0, 7, 0, 3, 0x0E, 0, 0x7F],
       [0x3E, 0x78, 2, 0xFD, 0x80, 1, 0, 0], [0, 6, 0, 3, 0x0E, 0, 0x7E, 0]] :: bytes list"
  have "wire_frame ?ack = [2, 0xFD, 0x80, 2, 0, 0, 0, 5, 0, 3, 0x0E, 0, 0]"
    "wire_frame ?wait = [2, 0xFD, 0x80, 1, 0, 0, 0, 7, 0, 3, 0x0E, 0, 0x7F, 0x3E, 0x78]"
    "wire_frame ?ans = [2, 0xFD, 0x80, 1, 0, 0, 0, 6, 0, 3, 0x0E, 0, 0x7E, 0]"
    by code_simp+
  then have c: "carries (map Block ?blocks) (concat (map wire_frame [?ack, ?wait]) @ wire_frame ?ans @ [])"
    unfolding carries_def by (intro exI [of _ ?blocks]) simp
  have ok: "\<forall>g \<in> set (?ans # [?ack, ?wait]). wire_ok g"
    by (simp add: wire_ok_def frame_args_ok_def)
  have "passed ?ack MAck" by (rule passed.ack)
  moreover have "passed ?wait (MPending 0x3E)" using passed.pending [of "[0, 3, 0x0E, 0]" "0x3E" "[]"] by simp
  ultimately have ms: "list_all2 passed [?ack, ?wait] [MAck, MPending 0x3E]" by simp
  have "ends ?ans (Some [0x7E, 0]) (MResponse [0x7E, 0])" by (rule ends.answered) simp_all
  from probe_finds_answer [OF c ok ms this, of "[]"] show ?thesis by simp
qed

text \<open>A request that times out leaves its answer for the next one: the client does not tell them apart.\<close>

lemma late_answer_taken:
  assumes "carries evs (wire_frame (PT_DIAGNOSTIC_MESSAGE, addrs @ response))"
    and "length addrs = 4" "int (length response) < 2 ^ 32 - 4" "\<not> is_pending response"
  shows "await_response (Silence # evs) out = (Inr None, out @ [MNoResponse], evs)
    \<and> (\<exists>evs'. await_response evs out' = (Inr (Some response), out' @ [MResponse response], evs'))"
proof
  show "await_response (Silence # evs) out = (Inr None, out @ [MNoResponse], evs)"
    by (subst await_response.simps) (simp add: probe_read_frame_def numeral_eq_Suc)
  have "wire_ok (PT_DIAGNOSTIC_MESSAGE, addrs @ response)"
    using assms(2,3) by (simp add: wire_ok_def frame_args_ok_def payload_types)
  with read_wire_frame [of evs "(PT_DIAGNOSTIC_MESSAGE, addrs @ response)" "[]"] assms(1) obtain evs1 where
    f: "probe_read_frame evs = (Inr (PT_DIAGNOSTIC_MESSAGE, addrs @ response), evs1)" by auto
  have "judge_frame PT_DIAGNOSTIC_MESSAGE (addrs @ response) = (MResponse response, Some (Some response))"
    using assms(2,4) by (simp add: judge_frame_def payload_types Let_def)
  then show "\<exists>evs'. await_response evs out' = (Inr (Some response), out' @ [MResponse response], evs')"
    by (subst await_response.simps) (simp add: f)
qed

end
