(* ===== verification/Edge_Teardown.thy ===== *)
theory Edge_Teardown
  imports Prelude
begin

text \<open>
  The teardown of an EdgeNode session while an exchange is under way (\<^verbatim>\<open>doip_edgenode/session.py\<close>): the
  session's run task, its timers, the tasks that connect to ECUs, read from them, retire and close their
  connections, and the one cleanup task that joins them all. Any of them may be ready to go on at any time; a step is
  what one task does between two awaits that can suspend. Connections and tasks are named by numbers. What is
  exchanged is the subject of \<open>Edge_Exchange\<close> and \<open>Edge_Session\<close>; here it matters only who owns which task.
\<close>

section \<open>State\<close>

text \<open>The task \<open>connect_owned\<close>: in \<open>conn.connect\<close>, or closing a connection that came up too late.\<close>

datatype connect_phase = Connecting | ClosingLate

text \<open>The task of \<open>_retire_ecu_leg\<close>: created, joining the cancelled read, joining the close.\<close>

datatype retire_phase = RetStart | RetRead nat | RetClose

datatype close_phase = CloseNone | CloseRunning | CloseDone

text \<open>The run task: between exchanges, awaiting a connection, in an exchange, awaiting a retirement, awaiting the
  cleanup, finished.\<close>

datatype run_phase = RunLoop | RunConnect nat | RunExchange int nat | RunRetire nat | RunLeave | RunOver

text \<open>The await of \<open>_cleanup_impl\<close>, with the tuple of tasks or connections it was given.\<close>

datatype teardown_phase =
    TNone | TBegin | TTimers "nat list" | TConnects "nat list" | TReads "nat list" | TConns "nat list"
  | TRetire "nat list" | TCloses "nat list" | TWriter | TDone

text \<open>Sets of tasks hold those that are not done. \<open>td_reads\<close> is \<open>_ecu_read_owners\<close> with \<open>_ecu_read_tasks\<close>;
  \<open>td_reading\<close> are the reads that are not done, whoever joins them. \<open>td_up\<close> are the connections that came up,
  \<open>td_close_calls\<close> how often \<open>ECUConnection.close\<close> was called on each.\<close>

record teardown =
  td_closing :: bool
  td_transport_closed :: bool
  td_timers :: "nat list"
  td_connects :: "(nat \<times> int \<times> connect_phase) list"
  td_cached :: "(int \<times> nat) list"
  td_reads :: "(int \<times> nat \<times> nat) list"
  td_reading :: "nat list"
  td_retirements :: "(nat \<times> int \<times> nat \<times> retire_phase) list"
  td_close :: "nat \<Rightarrow> close_phase"
  td_close_calls :: "nat \<Rightarrow> nat"
  td_up :: "nat list"
  td_next :: nat
  td_run :: run_phase
  td_cleanup :: teardown_phase

definition new_teardown :: teardown where
  "new_teardown = \<lparr>td_closing = False, td_transport_closed = False, td_timers = [], td_connects = [], td_cached = [],
     td_reads = [], td_reading = [], td_retirements = [], td_close = (\<lambda>_. CloseNone), td_close_calls = (\<lambda>_. 0),
     td_up = [], td_next = 0, td_run = RunLoop, td_cleanup = TNone\<rparr>"

section \<open>Joining a task whatever happens\<close>

text \<open>\<^verbatim>\<open>while not task.done(): try: await shield(task) except CancelledError: cancelled = True\<close>: the caller is cancelled
  any number of times before the task is done with a result; \<open>None\<close> while it is not.\<close>

datatype join_event = CallerCancelled | OwnerDone "unit res"

fun shielded_join :: "bool \<Rightarrow> join_event list \<Rightarrow> unit res option" where
  "shielded_join cancelled [] = None"
| "shielded_join cancelled (CallerCancelled # evs) = shielded_join True evs"
| "shielded_join cancelled (OwnerDone r # evs) =
     Some (case r of Inl e \<Rightarrow> Inl e | Inr _ \<Rightarrow> if cancelled then Inl CancelledError else Inr ())"

section \<open>Timers and closing\<close>

definition td_new_timer :: "teardown \<Rightarrow> teardown" where
  "td_new_timer s =
     (if td_closing s then s else s\<lparr>td_timers := td_timers s @ [td_next s], td_next := td_next s + 1\<rparr>)"

definition td_timer_ends :: "nat \<Rightarrow> teardown \<Rightarrow> teardown" where
  "td_timer_ends i s = s\<lparr>td_timers := removeAll i (td_timers s)\<rparr>"

definition td_schedule_cleanup :: "teardown \<Rightarrow> teardown" where
  "td_schedule_cleanup s =
     s\<lparr>td_closing := True, td_transport_closed := True,
       td_cleanup := (if td_cleanup s = TNone then TBegin else td_cleanup s)\<rparr>"

definition td_timer_fires :: "nat \<Rightarrow> teardown \<Rightarrow> teardown" where
  "td_timer_fires i s = td_timer_ends i (td_schedule_cleanup s)"

text \<open>\<open>_close_ecu_once\<close> up to its first await: the task that closes is created once.\<close>

definition td_close_once :: "nat \<Rightarrow> teardown \<Rightarrow> teardown" where
  "td_close_once g s =
     (if td_close s g = CloseNone
      then s\<lparr>td_close := (td_close s)(g := CloseRunning), td_close_calls := (td_close_calls s)(g := td_close_calls s g + 1)\<rparr>
      else s)"

section \<open>Connecting\<close>

definition td_begin_connect :: "int \<Rightarrow> teardown \<Rightarrow> teardown" where
  "td_begin_connect t s =
     (if td_closing s then s
      else s\<lparr>td_connects := td_connects s @ [(td_next s, t, Connecting)], td_next := td_next s + 1,
             td_run := RunConnect (td_next s)\<rparr>)"

definition connect_over :: "nat \<Rightarrow> teardown \<Rightarrow> teardown" where
  "connect_over g s = s\<lparr>td_connects := filter (\<lambda>c. fst c \<noteq> g) (td_connects s)\<rparr>"

text \<open>\<open>connect_owned\<close> after \<open>conn.connect\<close> has returned.\<close>

definition connect_up :: "nat \<Rightarrow> int \<Rightarrow> teardown \<Rightarrow> teardown" where
  "connect_up g t s =
     (let s = s\<lparr>td_up := g # td_up s\<rparr> in
      if td_closing s
      then (td_close_once g s)\<lparr>td_connects := map (\<lambda>c. if fst c = g then (g, t, ClosingLate) else c) (td_connects s)\<rparr>
      else connect_over g (s\<lparr>td_cached := AList.update t g (td_cached s)\<rparr>))"

section \<open>Reading\<close>

text \<open>\<open>_recv_ecu_frame\<close> up to its wait; \<open>None\<close> is the \<open>RuntimeError\<close> of a read that belongs to another connection.\<close>

definition td_start_read :: "int \<Rightarrow> nat \<Rightarrow> teardown \<Rightarrow> teardown option" where
  "td_start_read t g s =
     (if td_closing s then Some s
      else case map_of (td_reads s) t of
          Some (own, r) \<Rightarrow> if own \<noteq> g then None else Some s
        | None \<Rightarrow> Some (s\<lparr>td_reads := AList.update t (g, td_next s) (td_reads s), td_reading := td_next s # td_reading s,
                          td_next := td_next s + 1\<rparr>))"

text \<open>Its end: a read that is done is forgotten.\<close>

definition td_collect_read :: "int \<Rightarrow> teardown \<Rightarrow> teardown" where
  "td_collect_read t s =
     (case map_of (td_reads s) t of
        Some (own, r) \<Rightarrow> if r \<in> set (td_reading s) then s else s\<lparr>td_reads := AList.delete t (td_reads s)\<rparr>
      | None \<Rightarrow> s)"

section \<open>Retiring\<close>

text \<open>\<open>_retire_ecu_connection\<close> up to its wait.\<close>

definition td_retire :: "int \<Rightarrow> nat \<Rightarrow> teardown \<Rightarrow> teardown" where
  "td_retire t g s =
     s\<lparr>td_retirements := td_retirements s @ [(td_next s, t, g, RetStart)], td_run := RunRetire (td_next s),
       td_next := td_next s + 1\<rparr>"

definition set_retirement :: "nat \<Rightarrow> retire_phase \<Rightarrow> teardown \<Rightarrow> teardown" where
  "set_retirement k p s =
     s\<lparr>td_retirements := map (\<lambda>(k', t, g, q). (k', t, g, if k' = k then p else q)) (td_retirements s)\<rparr>"

text \<open>\<open>_retire_ecu_leg\<close>: detach the connection, cancel and join its read, close it.\<close>

definition retire_detach :: "nat \<Rightarrow> int \<Rightarrow> nat \<Rightarrow> teardown \<Rightarrow> teardown" where
  "retire_detach k t g s =
     (let s = (if map_of (td_cached s) t = Some g then s\<lparr>td_cached := AList.delete t (td_cached s)\<rparr> else s) in
      case map_of (td_reads s) t of
        Some (own, r) \<Rightarrow>
          if own = g then set_retirement k (RetRead r) (s\<lparr>td_reads := AList.delete t (td_reads s)\<rparr>)
          else set_retirement k RetClose (td_close_once g s)
      | None \<Rightarrow> set_retirement k RetClose (td_close_once g s))"

definition retirement_over :: "nat \<Rightarrow> teardown \<Rightarrow> teardown" where
  "retirement_over k s = s\<lparr>td_retirements := filter (\<lambda>x. fst x \<noteq> k) (td_retirements s)\<rparr>"

section \<open>The run task\<close>

text \<open>A message for a target: over the cached connection, after retiring a dead one, or over a new one.\<close>

definition td_send_to :: "int \<Rightarrow> bool \<Rightarrow> teardown \<Rightarrow> teardown" where
  "td_send_to t alive s =
     (if td_closing s then s
      else case map_of (td_cached s) t of
        None \<Rightarrow> td_begin_connect t s
      | Some g \<Rightarrow> if alive then s\<lparr>td_run := RunExchange t g\<rparr> else td_retire t g s)"

text \<open>The end of an exchange.\<close>

definition td_exchange_end :: "bool \<Rightarrow> int \<Rightarrow> nat \<Rightarrow> teardown \<Rightarrow> teardown" where
  "td_exchange_end completed t g s = (if completed then s\<lparr>td_run := RunLoop\<rparr> else td_retire t g s)"

section \<open>The cleanup task\<close>

definition opened_closes :: "teardown \<Rightarrow> nat list" where
  "opened_closes s = filter (\<lambda>g. td_close s g \<noteq> CloseNone) [0..<td_next s]"

text \<open>\<open>_cleanup_impl\<close> from one await to the next.\<close>

definition td_cleanup_next :: "teardown \<Rightarrow> teardown" where
  "td_cleanup_next s =
     (case td_cleanup s of
        TBegin \<Rightarrow> s\<lparr>td_closing := True, td_transport_closed := True, td_cleanup := TTimers (td_timers s)\<rparr>
      | TTimers _ \<Rightarrow> s\<lparr>td_timers := [], td_cleanup := TConnects (map fst (td_connects s))\<rparr>
      | TConnects _ \<Rightarrow> s\<lparr>td_connects := [], td_cleanup := TReads (map (\<lambda>(t, own, r). r) (td_reads s))\<rparr>
      | TReads _ \<Rightarrow>
          (let conns = map snd (td_cached s) in
           fold td_close_once conns (s\<lparr>td_reads := [], td_cached := [], td_cleanup := TConns conns\<rparr>))
      | TConns _ \<Rightarrow> s\<lparr>td_cleanup := TRetire (map fst (td_retirements s))\<rparr>
      | TRetire _ \<Rightarrow> s\<lparr>td_cleanup := TCloses (opened_closes s)\<rparr>
      | TCloses _ \<Rightarrow> s\<lparr>td_cleanup := TWriter\<rparr>
      | TWriter \<Rightarrow> s\<lparr>td_cleanup := TDone\<rparr>
      | _ \<Rightarrow> s)"

text \<open>What the present await waits for.\<close>

definition td_ready :: "teardown \<Rightarrow> bool" where
  "td_ready s =
     (case td_cleanup s of
        TNone \<Rightarrow> False
      | TDone \<Rightarrow> False
      | TTimers is \<Rightarrow> list_all (\<lambda>i. i \<notin> set (td_timers s)) is
      | TConnects gs \<Rightarrow> list_all (\<lambda>g. g \<notin> fst ` set (td_connects s)) gs
      | TReads rs \<Rightarrow> list_all (\<lambda>r. r \<notin> set (td_reading s)) rs
      | TConns gs \<Rightarrow> list_all (\<lambda>g. td_close s g = CloseDone) gs
      | TRetire ks \<Rightarrow> list_all (\<lambda>k. k \<notin> fst ` set (td_retirements s)) ks
      | TCloses gs \<Rightarrow> list_all (\<lambda>g. td_close s g = CloseDone) gs
      | _ \<Rightarrow> True)"

section \<open>Steps\<close>

text \<open>Which await of the run task may end, and how; a task that was cancelled ends like one that failed.\<close>

inductive td_step :: "teardown \<Rightarrow> teardown \<Rightarrow> bool" where
  Close: "td_step s (td_schedule_cleanup s)"
| NewTimer: "td_run s = RunLoop \<Longrightarrow> td_step s (td_new_timer s)"
| TimerEnds: "i \<in> set (td_timers s) \<Longrightarrow> td_step s (td_timer_ends i s)"
| TimerFires: "i \<in> set (td_timers s) \<Longrightarrow> td_step s (td_timer_fires i s)"
| SendTo: "td_run s = RunLoop \<Longrightarrow> td_step s (td_send_to t alive s)"
| ConnectUp: "(g, t, Connecting) \<in> set (td_connects s) \<Longrightarrow> td_step s (connect_up g t s)"
| ConnectFails: "(g, t, Connecting) \<in> set (td_connects s) \<Longrightarrow> td_step s (connect_over g s)"
| LateClosed: "(g, t, ClosingLate) \<in> set (td_connects s) \<Longrightarrow> td_close s g = CloseDone \<Longrightarrow> td_step s (connect_over g s)"
| Connected: "td_run s = RunConnect g \<Longrightarrow> g \<notin> fst ` set (td_connects s) \<Longrightarrow> td_step s (s\<lparr>td_run := RunLoop\<rparr>)"
| StartRead: "td_run s = RunExchange t g \<Longrightarrow> td_start_read t g s = Some s' \<Longrightarrow> td_step s s'"
| ReadEnds: "r \<in> set (td_reading s) \<Longrightarrow> td_step s (s\<lparr>td_reading := removeAll r (td_reading s)\<rparr>)"
| CollectRead: "td_run s = RunExchange t g \<Longrightarrow> td_step s (td_collect_read t s)"
| ExchangeEnd: "td_run s = RunExchange t g \<Longrightarrow> td_step s (td_exchange_end completed t g s)"
| Detach: "(k, t, g, RetStart) \<in> set (td_retirements s) \<Longrightarrow> td_step s (retire_detach k t g s)"
| ReadJoined: "(k, t, g, RetRead r) \<in> set (td_retirements s) \<Longrightarrow> r \<notin> set (td_reading s) \<Longrightarrow>
     td_step s (set_retirement k RetClose (td_close_once g s))"
| Closed: "td_close s g = CloseRunning \<Longrightarrow> td_step s (s\<lparr>td_close := (td_close s)(g := CloseDone)\<rparr>)"
| RetireEnds: "(k, t, g, RetClose) \<in> set (td_retirements s) \<Longrightarrow> td_close s g = CloseDone \<Longrightarrow> td_step s (retirement_over k s)"
| Retired: "td_run s = RunRetire k \<Longrightarrow> k \<notin> fst ` set (td_retirements s) \<Longrightarrow> td_step s (s\<lparr>td_run := RunLoop\<rparr>)"
| Leave: "td_run s = RunLoop \<Longrightarrow> td_step s ((td_schedule_cleanup s)\<lparr>td_run := RunLeave\<rparr>)"
| Over: "td_run s = RunLeave \<Longrightarrow> td_cleanup s = TDone \<Longrightarrow> td_step s (s\<lparr>td_run := RunOver\<rparr>)"
| Cleanup: "td_ready s \<Longrightarrow> td_step s (td_cleanup_next s)"


inductive td_reachable :: "teardown \<Rightarrow> bool" where
  Init: "td_reachable new_teardown"
| Step: "td_reachable s \<Longrightarrow> td_step s s' \<Longrightarrow> td_reachable s'"

end
