(* ===== verification/Edge_Teardown_Props.thy ===== *)
theory Edge_Teardown_Props
  imports Edge_Teardown
begin

text \<open>
  What the teardown of an EdgeNode session promises in every interleaving: each connection to an ECU is owned by somebody
  who will close it, it is closed once, a cleanup that is done has left nothing behind, and a cleanup that waits can
  always let somebody go on.
\<close>

section \<open>What every step keeps\<close>

lemma close_once_frame [simp]:
  "td_closing (td_close_once g s) = td_closing s" "td_transport_closed (td_close_once g s) = td_transport_closed s"
  "td_timers (td_close_once g s) = td_timers s" "td_connects (td_close_once g s) = td_connects s"
  "td_cached (td_close_once g s) = td_cached s" "td_reads (td_close_once g s) = td_reads s"
  "td_reading (td_close_once g s) = td_reading s" "td_retirements (td_close_once g s) = td_retirements s"
  "td_up (td_close_once g s) = td_up s" "td_next (td_close_once g s) = td_next s" "td_run (td_close_once g s) = td_run s"
  "td_cleanup (td_close_once g s) = td_cleanup s"
  "td_close (td_close_once g s) h = CloseNone \<longleftrightarrow> td_close s h = CloseNone \<and> h \<noteq> g"
  "td_close (td_close_once g s) h = CloseDone \<longleftrightarrow> td_close s h = CloseDone"
  by (auto simp: td_close_once_def)

lemma close_all_frame [simp]:
  "td_closing (fold td_close_once gs s) = td_closing s" "td_transport_closed (fold td_close_once gs s) = td_transport_closed s"
  "td_timers (fold td_close_once gs s) = td_timers s" "td_connects (fold td_close_once gs s) = td_connects s"
  "td_cached (fold td_close_once gs s) = td_cached s" "td_reads (fold td_close_once gs s) = td_reads s"
  "td_reading (fold td_close_once gs s) = td_reading s" "td_retirements (fold td_close_once gs s) = td_retirements s"
  "td_up (fold td_close_once gs s) = td_up s" "td_next (fold td_close_once gs s) = td_next s"
  "td_run (fold td_close_once gs s) = td_run s" "td_cleanup (fold td_close_once gs s) = td_cleanup s"
  "td_close (fold td_close_once gs s) h = CloseNone \<longleftrightarrow> td_close s h = CloseNone \<and> h \<notin> set gs"
  "td_close (fold td_close_once gs s) h = CloseDone \<longleftrightarrow> td_close s h = CloseDone"
  by (induction gs arbitrary: s) auto

lemma set_retirement_frame [simp]:
  "td_closing (set_retirement k p s) = td_closing s" "td_transport_closed (set_retirement k p s) = td_transport_closed s"
  "td_timers (set_retirement k p s) = td_timers s" "td_connects (set_retirement k p s) = td_connects s"
  "td_cached (set_retirement k p s) = td_cached s" "td_reads (set_retirement k p s) = td_reads s"
  "td_reading (set_retirement k p s) = td_reading s" "td_close (set_retirement k p s) = td_close s"
  "td_close_calls (set_retirement k p s) = td_close_calls s" "td_up (set_retirement k p s) = td_up s"
  "td_next (set_retirement k p s) = td_next s" "td_run (set_retirement k p s) = td_run s"
  "td_cleanup (set_retirement k p s) = td_cleanup s"
  "map fst (td_retirements (set_retirement k p s)) = map fst (td_retirements s)"
  by (auto simp: set_retirement_def)

lemma in_set_retirement:
  "(k', t, g, q) \<in> set (td_retirements (set_retirement k p s)) \<longleftrightarrow>
     (if k' = k then q = p \<and> (\<exists>q0. (k', t, g, q0) \<in> set (td_retirements s)) else (k', t, g, q) \<in> set (td_retirements s))"
  by (force simp: set_retirement_def)

text \<open>Names in use are below the next one; one connection is attempted at a time, for a target that has none; a
  connection is closed once at most.\<close>

definition names_ok :: "teardown \<Rightarrow> bool" where
  "names_ok s \<longleftrightarrow>
     (\<forall>g. td_next s \<le> g \<longrightarrow> td_close s g = CloseNone \<and> g \<notin> set (td_up s)) \<and>
     (\<forall>c \<in> set (td_connects s). fst c < td_next s) \<and>
     (\<forall>g \<in> snd ` set (td_cached s). g < td_next s) \<and>
     (\<forall>x \<in> set (td_retirements s). fst x < td_next s \<and> fst (snd (snd x)) < td_next s) \<and>
     (\<forall>t g. td_run s = RunExchange t g \<longrightarrow> g < td_next s) \<and>
     distinct (map fst (td_retirements s))"

definition connect_inv :: "teardown \<Rightarrow> bool" where
  "connect_inv s \<longleftrightarrow>
     (td_closing s \<longleftrightarrow> td_cleanup s \<noteq> TNone) \<and> (td_closing s \<longrightarrow> td_transport_closed s) \<and>
     (td_connects s = [] \<or>
      (\<exists>g t p. td_connects s = [(g, t, p)] \<and> td_run s = RunConnect g \<and> (p = Connecting \<longrightarrow> map_of (td_cached s) t = None)
         \<and> (p = ClosingLate \<longrightarrow> td_closing s)))"

definition calls_inv :: "teardown \<Rightarrow> bool" where
  "calls_inv s \<longleftrightarrow> (\<forall>g. td_close_calls s g = (if td_close s g = CloseNone then 0 else 1))"

lemmas td_defs = td_schedule_cleanup_def td_new_timer_def td_timer_ends_def td_timer_fires_def td_send_to_def td_begin_connect_def
  td_retire_def connect_up_def connect_over_def td_start_read_def td_collect_read_def td_exchange_end_def
  retire_detach_def retirement_over_def td_cleanup_next_def Let_def

lemma calls_close_once: "calls_inv s \<Longrightarrow> calls_inv (td_close_once g s)"
  by (auto simp: calls_inv_def td_close_once_def)

lemma calls_close_all: "calls_inv s \<Longrightarrow> calls_inv (fold td_close_once gs s)"
  by (induction gs arbitrary: s) (simp_all add: calls_close_once)

lemma calls_set_retirement: "calls_inv (set_retirement k p s) \<longleftrightarrow> calls_inv s"
  and calls_reads: "calls_inv (s\<lparr>td_reads := rs\<rparr>) \<longleftrightarrow> calls_inv s"
  and calls_cached: "calls_inv (s\<lparr>td_cached := cs\<rparr>) \<longleftrightarrow> calls_inv s"
  by (simp_all add: calls_inv_def)

lemma calls_step: "td_step s s' \<Longrightarrow> calls_inv s \<Longrightarrow> calls_inv s'"
proof (induction rule: td_step.induct)
  case (ConnectUp g t s)
  have "calls_inv (td_close_once g (s\<lparr>td_up := g # td_up s\<rparr>))"
    using ConnectUp.prems by (intro calls_close_once) (simp add: calls_inv_def)
  with ConnectUp.prems show ?case
    by (simp add: connect_up_def connect_over_def Let_def calls_inv_def)
next
  case (Detach k t g s)
  have "calls_inv (td_close_once g (s\<lparr>td_cached := c\<rparr>))" for c
    using Detach.prems by (intro calls_close_once) (simp add: calls_inv_def)
  moreover have "calls_inv (td_close_once g s)" using Detach.prems by (rule calls_close_once)
  ultimately show ?case
    using Detach.prems by (auto simp only: retire_detach_def Let_def calls_set_retirement calls_reads calls_cached split: option.splits prod.splits if_splits)
next
  case (ReadJoined k t g r s)
  then show ?case by (simp only: calls_set_retirement calls_close_once)
next
  case (Cleanup s)
  have "calls_inv (fold td_close_once gs (s\<lparr>td_reads := [], td_cached := [], td_cleanup := p\<rparr>))" for gs p
    using Cleanup.prems by (intro calls_close_all) (simp add: calls_inv_def)
  with Cleanup.prems show ?case
    by (auto simp: td_cleanup_next_def Let_def calls_inv_def split: teardown_phase.splits)
qed (auto simp: calls_inv_def td_defs split: option.splits prod.splits if_splits)

lemma connect_inv_cong:
  "connect_inv s \<Longrightarrow> td_closing s' = td_closing s \<Longrightarrow> td_transport_closed s' = td_transport_closed s \<Longrightarrow>
   (td_cleanup s' = TNone) = (td_cleanup s = TNone) \<Longrightarrow> td_connects s' = td_connects s \<Longrightarrow> td_run s' = td_run s \<Longrightarrow>
   (\<And>t. map_of (td_cached s) t = None \<Longrightarrow> map_of (td_cached s') t = None) \<Longrightarrow> connect_inv s'"
  by (auto simp: connect_inv_def)

lemma connect_step: "td_step s s' \<Longrightarrow> connect_inv s \<Longrightarrow> connect_inv s'"
proof (induction rule: td_step.induct)
  case (Detach k t g s)
  from Detach.prems show ?case
    by (rule connect_inv_cong) (auto simp: retire_detach_def Let_def AList.delete_conv' split: option.splits prod.splits)
next
  case (Cleanup s)
  have "td_closing s" "td_transport_closed s" using Cleanup by (auto simp: connect_inv_def td_ready_def)
  with Cleanup.prems show ?case
    by (auto simp: connect_inv_def td_cleanup_next_def Let_def split: teardown_phase.splits)
next
  case (ConnectUp g t s)
  then show ?case by (auto simp: connect_inv_def connect_up_def connect_over_def Let_def)
next
  case (SendTo s t alive)
  then show ?case by (auto simp: connect_inv_def td_send_to_def td_begin_connect_def td_retire_def split: option.splits)
qed (auto simp: connect_inv_def td_schedule_cleanup_def td_new_timer_def td_timer_ends_def td_timer_fires_def connect_over_def
    td_start_read_def td_collect_read_def td_exchange_end_def td_retire_def retirement_over_def split: option.splits prod.splits if_splits)

text \<open>Fields of the one operation with branches.\<close>

lemma retire_detach_frame [simp]:
  "td_timers (retire_detach k t g s) = td_timers s" "td_connects (retire_detach k t g s) = td_connects s"
  "td_closing (retire_detach k t g s) = td_closing s" "td_reading (retire_detach k t g s) = td_reading s"
  "td_up (retire_detach k t g s) = td_up s" "td_next (retire_detach k t g s) = td_next s"
  "td_run (retire_detach k t g s) = td_run s" "td_cleanup (retire_detach k t g s) = td_cleanup s"
  "map fst (td_retirements (retire_detach k t g s)) = map fst (td_retirements s)"
  "td_cached (retire_detach k t g s) =
     (if map_of (td_cached s) t = Some g then AList.delete t (td_cached s) else td_cached s)"
  "td_reads (retire_detach k t g s) =
     (if \<exists>r. map_of (td_reads s) t = Some (g, r) then AList.delete t (td_reads s) else td_reads s)"
  "td_close (retire_detach k t g s) h = CloseNone \<longleftrightarrow>
     td_close s h = CloseNone \<and> (h = g \<longrightarrow> (\<exists>r. map_of (td_reads s) t = Some (g, r)))"
  "td_close (retire_detach k t g s) h = CloseDone \<longleftrightarrow> td_close s h = CloseDone"
  by (auto simp: retire_detach_def Let_def split: option.splits)

lemma in_retire_detach:
  "(k', t', g', q) \<in> set (td_retirements (retire_detach k t g s)) \<longleftrightarrow>
     (if k' = k then q = (case map_of (td_reads s) t of Some (own, r) \<Rightarrow> if own = g then RetRead r else RetClose | None \<Rightarrow> RetClose)
        \<and> (\<exists>q0. (k', t', g', q0) \<in> set (td_retirements s))
      else (k', t', g', q) \<in> set (td_retirements s))"
  by (auto simp: retire_detach_def Let_def in_set_retirement split: option.splits)

lemma distinct_retirement:
  assumes "distinct (map fst xs)" "(k, t, g, p) \<in> set xs" "(k, t', g', p') \<in> set xs"
  shows "t' = t \<and> g' = g \<and> p' = p"
  using assms by (metis eq_key_imp_eq_value prod.inject)

lemma in_update: "x \<in> set (AList.update k v xs) \<Longrightarrow> x = (k, v) \<or> x \<in> set xs"
  by (induction xs) (auto split: if_splits)

lemma names_cong:
  assumes "names_ok s" "td_close s' = td_close s" "td_up s' = td_up s" "td_connects s' = td_connects s" "td_cached s' = td_cached s"
    "td_retirements s' = td_retirements s" "td_run s' = td_run s" "td_next s \<le> td_next s'"
  shows "names_ok s'"
proof -
  have le: "x < td_next s'" if "x < td_next s" for x using that assms(8) by simp
  have "td_next s \<le> g" if "td_next s' \<le> g" for g using that assms(8) by simp
  with assms(1-7) show ?thesis unfolding names_ok_def by (simp add: le)
qed

lemma names_step: "td_step s s' \<Longrightarrow> names_ok s \<Longrightarrow> names_ok s'"
proof (induction rule: td_step.induct)
  case (Detach k t g s)
  have "g' < td_next s \<and> k' < td_next s" if "(k', t', g', q) \<in> set (td_retirements (retire_detach k t g s))" for k' t' g' q
    using that Detach.prems by (auto simp: in_retire_detach names_ok_def split: if_splits)
  moreover have "set (td_cached (retire_detach k t g s)) \<subseteq> set (td_cached s)"
    by (auto simp: AList.delete_eq)
  ultimately show ?case using Detach by (auto simp: names_ok_def split: prod.splits)
next
  case (ReadJoined k t g r s)
  have "g' < td_next s \<and> k' < td_next s" if "(k', t', g', q) \<in> set (td_retirements (set_retirement k RetClose (td_close_once g s)))" for k' t' g' q
    using that ReadJoined.prems by (auto simp: in_set_retirement names_ok_def split: if_splits)
  then show ?case using ReadJoined by (auto simp: names_ok_def split: prod.splits)
next
  case (ConnectUp g t s)
  then show ?case by (auto simp: names_ok_def connect_up_def connect_over_def Let_def dest!: in_update split: if_splits)
next
  case (SendTo s t alive)
  then show ?case by (auto simp: names_ok_def td_send_to_def td_begin_connect_def td_retire_def less_Suc_eq split: option.splits)
    (force dest: map_of_SomeD)+
next
  case (Cleanup s)
  then show ?case
    by (auto simp: names_ok_def td_cleanup_next_def Let_def split: teardown_phase.splits)
next
  case (StartRead s t g s')
  from StartRead have "td_close s' = td_close s" "td_up s' = td_up s" "td_connects s' = td_connects s" "td_cached s' = td_cached s"
    "td_retirements s' = td_retirements s" "td_run s' = td_run s" "td_next s \<le> td_next s'"
    by (auto simp: td_start_read_def split: option.splits prod.splits if_splits)
  with StartRead.prems show ?case by (rule names_cong)
next
  case (ExchangeEnd s t g completed)
  then show ?case
    by (auto simp: names_ok_def td_exchange_end_def td_retire_def less_Suc_eq)
qed (auto simp: names_ok_def td_schedule_cleanup_def td_new_timer_def td_timer_ends_def td_timer_fires_def connect_over_def less_Suc_eq
    td_collect_read_def retirement_over_def distinct_map inj_on_def split: option.splits prod.splits if_splits)

section \<open>Who owns what\<close>

text \<open>A connection that came up is cached, or being closed, or in a retirement that will close it. A read that is
  not done is in the table, or joined by a retirement.\<close>

definition leg_owned :: "nat \<Rightarrow> teardown \<Rightarrow> bool" where
  "leg_owned g s \<longleftrightarrow> td_close s g \<noteq> CloseNone \<or> (\<exists>t. map_of (td_cached s) t = Some g) \<or>
     (\<exists>k t r. (k, t, g, RetRead r) \<in> set (td_retirements s))"

definition read_owned :: "nat \<Rightarrow> teardown \<Rightarrow> bool" where
  "read_owned r s \<longleftrightarrow> (\<exists>t own. map_of (td_reads s) t = Some (own, r)) \<or>
     (\<exists>k t g. (k, t, g, RetRead r) \<in> set (td_retirements s))"

definition owned_inv :: "teardown \<Rightarrow> bool" where
  "owned_inv s \<longleftrightarrow> (\<forall>g \<in> set (td_up s). leg_owned g s) \<and> (\<forall>r \<in> set (td_reading s). read_owned r s)"

lemma leg_owned_detach:
  assumes "(k, t, g, RetStart) \<in> set (td_retirements s)" "distinct (map fst (td_retirements s))" "leg_owned h s"
  shows "leg_owned h (retire_detach k t g s)"
proof -
  have other: "k' \<noteq> k" if "(k', t', h', RetRead r) \<in> set (td_retirements s)" for k' t' h' r
    using distinct_retirement [OF assms(2,1)] that by blast
  consider "td_close s h \<noteq> CloseNone" | t' where "map_of (td_cached s) t' = Some h"
    | k' t' r where "(k', t', h, RetRead r) \<in> set (td_retirements s)"
    using assms(3) by (auto simp: leg_owned_def)
  then show ?thesis
  proof cases
    case 1
    then show ?thesis by (simp add: leg_owned_def)
  next
    case (2 t')
    show ?thesis
    proof (cases "t' = t \<and> h = g")
      case True
      show ?thesis
      proof (cases "\<exists>r. map_of (td_reads s) t = Some (g, r)")
        case True
        then obtain r where "map_of (td_reads s) t = Some (g, r)" by blast
        then have "(k, t, g, RetRead r) \<in> set (td_retirements (retire_detach k t g s))"
          using assms(1) by (auto simp: in_retire_detach)
        with \<open>t' = t \<and> h = g\<close> show ?thesis by (auto simp: leg_owned_def)
      next
        case False
        with \<open>t' = t \<and> h = g\<close> show ?thesis by (simp add: leg_owned_def)
      qed
    next
      case False
      with 2 have "map_of (td_cached (retire_detach k t g s)) t' = Some h"
        by (auto simp: AList.delete_conv')
      then show ?thesis by (auto simp: leg_owned_def)
    qed
  next
    case (3 k' t' r)
    with other [OF 3] have "(k', t', h, RetRead r) \<in> set (td_retirements (retire_detach k t g s))"
      by (simp add: in_retire_detach)
    then show ?thesis by (auto simp: leg_owned_def)
  qed
qed

lemma read_owned_detach:
  assumes "(k, t, g, RetStart) \<in> set (td_retirements s)" "distinct (map fst (td_retirements s))" "read_owned r s"
  shows "read_owned r (retire_detach k t g s)"
proof -
  have other: "k' \<noteq> k" if "(k', t', h', RetRead r) \<in> set (td_retirements s)" for k' t' h' r
    using distinct_retirement [OF assms(2,1)] that by blast
  consider t' own where "map_of (td_reads s) t' = Some (own, r)" | k' t' h where "(k', t', h, RetRead r) \<in> set (td_retirements s)"
    using assms(3) by (auto simp: read_owned_def)
  then show ?thesis
  proof cases
    case (1 t' own)
    show ?thesis
    proof (cases "t' = t \<and> own = g")
      case True
      with 1 assms(1) have "(k, t, g, RetRead r) \<in> set (td_retirements (retire_detach k t g s))"
        by (auto simp: in_retire_detach)
      then show ?thesis by (auto simp: read_owned_def)
    next
      case False
      with 1 have "map_of (td_reads (retire_detach k t g s)) t' = Some (own, r)" by (auto simp: AList.delete_conv')
      then show ?thesis by (auto simp: read_owned_def)
    qed
  next
    case (2 k' t' h)
    with other [OF 2] have "(k', t', h, RetRead r) \<in> set (td_retirements (retire_detach k t g s))"
      by (simp add: in_retire_detach)
    then show ?thesis by (auto simp: read_owned_def)
  qed
qed

lemma leg_owned_joined:
  assumes "(k, t, g, RetRead r) \<in> set (td_retirements s)" "distinct (map fst (td_retirements s))" "leg_owned h s"
  shows "leg_owned h (set_retirement k RetClose (td_close_once g s))"
proof (cases "h = g")
  case False
  then have "k' \<noteq> k" if "(k', t', h, RetRead r') \<in> set (td_retirements s)" for k' t' r'
    using distinct_retirement [OF assms(2,1)] that by blast
  with assms(3) show ?thesis by (fastforce simp: leg_owned_def in_set_retirement)
qed (simp add: leg_owned_def)

lemma read_owned_joined:
  assumes "(k, t, g, RetRead r) \<in> set (td_retirements s)" "distinct (map fst (td_retirements s))" "read_owned r' s" "r' \<noteq> r"
  shows "read_owned r' (set_retirement k RetClose (td_close_once g s))"
proof -
  have "k' \<noteq> k" if "(k', t', h, RetRead r') \<in> set (td_retirements s)" for k' t' h
    using distinct_retirement [OF assms(2,1)] that assms(4) by blast
  with assms(3) show ?thesis by (fastforce simp: read_owned_def in_set_retirement)
qed

lemma leg_owned_cong:
  "leg_owned h s \<Longrightarrow> (td_close s h \<noteq> CloseNone \<Longrightarrow> td_close s' h \<noteq> CloseNone) \<Longrightarrow>
   (\<And>t. map_of (td_cached s) t = Some h \<Longrightarrow> map_of (td_cached s') t = Some h \<or> td_close s' h \<noteq> CloseNone) \<Longrightarrow>
   (\<And>k t r. (k, t, h, RetRead r) \<in> set (td_retirements s) \<Longrightarrow> (k, t, h, RetRead r) \<in> set (td_retirements s')) \<Longrightarrow> leg_owned h s'"
  unfolding leg_owned_def by blast

lemma read_owned_cong:
  "read_owned r s \<Longrightarrow> (\<And>t own. map_of (td_reads s) t = Some (own, r) \<Longrightarrow> map_of (td_reads s') t = Some (own, r)) \<Longrightarrow>
   (\<And>k t g. (k, t, g, RetRead r) \<in> set (td_retirements s) \<Longrightarrow> (k, t, g, RetRead r) \<in> set (td_retirements s')) \<Longrightarrow> read_owned r s'"
  unfolding read_owned_def by blast

section \<open>The order of the teardown\<close>

definition emptied :: "teardown \<Rightarrow> bool" where
  "emptied s \<longleftrightarrow> td_timers s = [] \<and> td_connects s = [] \<and> td_reads s = [] \<and> td_cached s = []"

definition no_join :: "teardown \<Rightarrow> bool" where
  "no_join s \<longleftrightarrow> (\<forall>k t g r. (k, t, g, RetRead r) \<notin> set (td_retirements s))"

definition phase_inv :: "teardown \<Rightarrow> bool" where
  "phase_inv s \<longleftrightarrow>
     (case td_cleanup s of
        TTimers is \<Rightarrow> set (td_timers s) \<subseteq> set is
      | TConnects gs \<Rightarrow> td_timers s = [] \<and> fst ` set (td_connects s) \<subseteq> set gs
      | TReads rs \<Rightarrow> td_timers s = [] \<and> td_connects s = [] \<and> (\<forall>t own r. map_of (td_reads s) t = Some (own, r) \<longrightarrow> r \<in> set rs)
      | TConns gs \<Rightarrow> emptied s
      | TRetire ks \<Rightarrow> emptied s \<and> (\<forall>k t g r. (k, t, g, RetRead r) \<in> set (td_retirements s) \<longrightarrow> k \<in> set ks)
      | TCloses gs \<Rightarrow> emptied s \<and> no_join s \<and> set (td_up s) \<subseteq> set gs
      | TWriter \<Rightarrow> emptied s \<and> no_join s \<and> (\<forall>g \<in> set (td_up s). td_close s g = CloseDone)
      | TDone \<Rightarrow> emptied s \<and> no_join s \<and> (\<forall>g \<in> set (td_up s). td_close s g = CloseDone)
      | _ \<Rightarrow> True)"

lemma phase_cong:
  assumes "phase_inv s" "td_cleanup s' = td_cleanup s"
    and sub: "set (td_timers s') \<subseteq> set (td_timers s)" "fst ` set (td_connects s') \<subseteq> fst ` set (td_connects s)"
      "\<And>t x. map_of (td_reads s') t = Some x \<Longrightarrow> map_of (td_reads s) t = Some x"
      "td_cached s = [] \<Longrightarrow> td_cached s' = []"
    and join: "\<And>k t g r. (k, t, g, RetRead r) \<in> set (td_retirements s') \<Longrightarrow>
      (k, t, g, RetRead r) \<in> set (td_retirements s) \<or> td_reads s \<noteq> []"
    and up: "set (td_up s') \<subseteq> set (td_up s) \<or> td_connects s \<noteq> []"
    and closed: "\<And>g. td_close s g = CloseDone \<Longrightarrow> td_close s' g = CloseDone"
  shows "phase_inv s'"
proof -
  have reads: "td_reads s = [] \<Longrightarrow> td_reads s' = []"
    using sub(3) by (cases "td_reads s'") (fastforce split: if_splits)+
  have timers: "td_timers s = [] \<Longrightarrow> td_timers s' = []" and connects: "td_connects s = [] \<Longrightarrow> td_connects s' = []"
    using sub(1,2) by auto
  have emptied: "emptied s \<Longrightarrow> emptied s'"
    using sub(4) by (simp add: emptied_def reads timers connects)
  have join': "emptied s \<Longrightarrow> (k, t, g, RetRead r) \<in> set (td_retirements s') \<Longrightarrow> (k, t, g, RetRead r) \<in> set (td_retirements s)" for k t g r
    using join by (auto simp: emptied_def)
  have no_join: "emptied s \<Longrightarrow> no_join s \<Longrightarrow> no_join s'"
    using join' by (auto simp: no_join_def)
  have up': "emptied s \<Longrightarrow> set (td_up s') \<subseteq> set (td_up s)" using up by (auto simp: emptied_def)
  show ?thesis
  proof (cases "td_cleanup s")
    case (TReads rs)
    with assms(1,2) timers connects show ?thesis by (auto simp: phase_inv_def dest!: sub(3))
  next
    case (TRetire ks)
    with assms(1,2) emptied join' show ?thesis by (fastforce simp: phase_inv_def)
  next
    case (TCloses gs)
    with assms(1,2) emptied no_join up' show ?thesis by (auto simp: phase_inv_def)
  next
    case TWriter
    with assms(1,2) emptied no_join up' closed show ?thesis by (auto simp: phase_inv_def)
  next
    case TDone
    with assms(1,2) emptied no_join up' closed show ?thesis by (auto simp: phase_inv_def)
  qed (use assms(1,2) sub(1,2) timers emptied in \<open>auto simp: phase_inv_def\<close>)
qed

lemma cleanup_starts:
  "td_step s s' \<Longrightarrow> td_cleanup s = TNone \<Longrightarrow> td_cleanup s' = TNone \<or> td_cleanup s' = TBegin"
  by (induction rule: td_step.induct) (auto simp: td_defs td_ready_def split: option.splits prod.splits if_splits)

lemma phase_cleanup:
  assumes "td_ready s" "names_ok s" "owned_inv s" "phase_inv s"
  shows "phase_inv (td_cleanup_next s)"
proof (cases "td_cleanup s")
  case (TRetire ks)
  with assms(1,4) have nj: "no_join s" by (force simp: td_ready_def phase_inv_def no_join_def list_all_iff)
  have "g \<in> set (opened_closes s)" if "g \<in> set (td_up s)" for g
  proof -
    have "leg_owned g s" using assms(3) that by (simp add: owned_inv_def)
    moreover have "td_cached s = []" using TRetire assms(4) by (simp add: phase_inv_def emptied_def)
    ultimately have "td_close s g \<noteq> CloseNone" using nj by (auto simp: leg_owned_def no_join_def)
    moreover have "g < td_next s" using assms(2) that by (auto simp: names_ok_def not_le [symmetric])
    ultimately show ?thesis by (simp add: opened_closes_def)
  qed
  with TRetire assms(4) nj show ?thesis
    by (auto simp: phase_inv_def td_cleanup_next_def emptied_def no_join_def)
next
  case (TTimers x)
  with assms show ?thesis by (force simp: phase_inv_def td_cleanup_next_def td_ready_def list_all_iff)
next
  case (TConnects x)
  with assms show ?thesis by (force simp: phase_inv_def td_cleanup_next_def dest: map_of_SomeD)
next
  case (TConns x)
  with assms show ?thesis by (force simp: phase_inv_def td_cleanup_next_def emptied_def)
qed (use assms in \<open>auto simp: phase_inv_def td_cleanup_next_def Let_def emptied_def no_join_def td_ready_def list_all_iff\<close>)

lemma phase_step:
  "td_step s s' \<Longrightarrow> names_ok s \<Longrightarrow> connect_inv s \<Longrightarrow> owned_inv s \<Longrightarrow> phase_inv s \<Longrightarrow> phase_inv s'"
proof (cases "td_closing s")
  case False
  moreover assume "td_step s s'" "connect_inv s"
  ultimately have "td_cleanup s' = TNone \<or> td_cleanup s' = TBegin"
    using cleanup_starts by (simp add: connect_inv_def)
  then show ?thesis by (auto simp: phase_inv_def)
next
  case True
  assume "td_step s s'" "names_ok s" "connect_inv s" "owned_inv s" "phase_inv s"
  then show ?thesis using True
  proof (induction rule: td_step.induct)
    case (Cleanup s)
    then show ?case by (intro phase_cleanup)
  next
    case (ConnectUp g t s)
    then show ?case
      by (elim phase_cong) (force simp: connect_up_def connect_over_def Let_def)+
  next
    case (Detach k t g s)
    then show ?case
      by (elim phase_cong)
        (auto simp: AList.delete_conv' in_retire_detach split: if_splits option.splits)
  next
    case (ReadJoined k t g r s)
    then show ?case by (elim phase_cong) (auto simp: in_set_retirement split: if_splits)
  qed (elim phase_cong;
      auto simp: connect_inv_def td_defs AList.update_conv' AList.delete_conv' split: option.splits prod.splits if_splits)+
qed

lemma owned_step: "td_step s s' \<Longrightarrow> phase_inv s \<Longrightarrow> names_ok s \<Longrightarrow> connect_inv s \<Longrightarrow> owned_inv s \<Longrightarrow> owned_inv s'"
proof (induction rule: td_step.induct)
  case (ConnectUp g t s)
  then have free: "map_of (td_cached s) t = None" by (auto simp: connect_inv_def)
  have "leg_owned h (connect_up g t s)" if "leg_owned h s" for h
    using that free
    by (elim leg_owned_cong) (auto simp: connect_up_def connect_over_def Let_def AList.update_conv')
  moreover have "leg_owned g (connect_up g t s)"
    by (auto simp: leg_owned_def connect_up_def connect_over_def Let_def AList.update_conv')
  moreover have "read_owned r (connect_up g t s)" if "read_owned r s" for r
    using that by (elim read_owned_cong) (auto simp: connect_up_def connect_over_def Let_def)
  ultimately show ?case using ConnectUp
    by (auto simp: owned_inv_def) (auto simp: connect_up_def connect_over_def Let_def split: if_splits)
next
  case (Detach k t g s)
  then have "distinct (map fst (td_retirements s))" by (simp add: names_ok_def)
  with Detach show ?case by (auto simp: owned_inv_def intro: leg_owned_detach read_owned_detach)
next
  case (ReadJoined k t g r s)
  then have "distinct (map fst (td_retirements s))" by (simp add: names_ok_def)
  with ReadJoined show ?case
    by (auto simp: owned_inv_def intro!: leg_owned_joined read_owned_joined)
next
  case (StartRead s t g s')
  then have leg: "leg_owned h s \<Longrightarrow> leg_owned h s'" for h
    by (auto simp: leg_owned_def td_start_read_def split: option.splits prod.splits if_splits)
  from StartRead have r: "read_owned r s'" if "r \<in> set (td_reading s) \<longrightarrow> read_owned r s" "r \<in> set (td_reading s')" for r
  proof (cases "map_of (td_reads s) t = None \<and> \<not> td_closing s")
    case True
    with StartRead.hyps have s': "s' = s\<lparr>td_reads := AList.update t (g, td_next s) (td_reads s), td_reading := td_next s # td_reading s,
        td_next := td_next s + 1\<rparr>"
      by (simp add: td_start_read_def)
    show ?thesis
    proof (cases "r = td_next s")
      case True
      have "map_of (td_reads s') t = Some (g, r)" by (simp add: s' True AList.update_conv')
      then show ?thesis by (auto simp: read_owned_def)
    next
      case False
      with that s' have "read_owned r s" by simp
      then show ?thesis by (rule read_owned_cong) (use True in \<open>auto simp: s' AList.update_conv'\<close>)
    qed
  next
    case False
    with StartRead.hyps have "s' = s" by (auto simp: td_start_read_def split: option.splits prod.splits if_splits)
    with that show ?thesis by simp
  qed
  have "td_up s' = td_up s" using StartRead.hyps by (auto simp: td_start_read_def split: option.splits prod.splits if_splits)
  with StartRead.prems leg r show ?case by (simp add: owned_inv_def)
next
  case (CollectRead s t g)
  have "read_owned r (td_collect_read t s)" if "read_owned r s" "r \<in> set (td_reading s)" for r
    using that(1)
  proof (rule read_owned_cong)
    fix t' own
    assume "map_of (td_reads s) t' = Some (own, r)"
    with that(2) show "map_of (td_reads (td_collect_read t s)) t' = Some (own, r)"
      by (auto simp: td_collect_read_def AList.delete_conv' split: option.splits)
  qed (auto simp: td_collect_read_def split: option.splits prod.splits if_splits)
  moreover have "leg_owned h (td_collect_read t s) \<longleftrightarrow> leg_owned h s" for h
    by (auto simp: leg_owned_def td_collect_read_def split: option.splits prod.splits if_splits)
  ultimately show ?case using CollectRead
    by (auto simp: owned_inv_def) (auto simp: td_collect_read_def split: option.splits prod.splits if_splits)
next
  case (RetireEnds k t g s)
  then have d: "distinct (map fst (td_retirements s))" by (simp add: names_ok_def)
  have keep: "k' \<noteq> k" if "(k', t', h, RetRead r) \<in> set (td_retirements s)" for k' t' h r
    using distinct_retirement [OF d RetireEnds.hyps(1)] that by blast
  have "leg_owned h (retirement_over k s)" if "leg_owned h s" for h
    using that by (elim leg_owned_cong) (auto simp: retirement_over_def dest: keep)
  moreover have "read_owned r (retirement_over k s)" if "read_owned r s" for r
    using that by (elim read_owned_cong) (auto simp: retirement_over_def dest: keep)
  ultimately show ?case using RetireEnds by (simp add: owned_inv_def retirement_over_def)
next
  case (Cleanup s)
  show ?case
  proof (cases "\<exists>rs. td_cleanup s = TReads rs")
    case True
    then obtain rs where tr: "td_cleanup s = TReads rs" by blast
    have "leg_owned h (td_cleanup_next s)" if "leg_owned h s" for h
      using that by (elim leg_owned_cong) (auto simp: tr td_cleanup_next_def Let_def dest!: map_of_SomeD intro: rev_image_eqI)
    moreover have "read_owned r (td_cleanup_next s)" if "read_owned r s" "r \<in> set (td_reading s)" for r
      using that Cleanup by (auto simp: tr read_owned_def td_cleanup_next_def Let_def td_ready_def phase_inv_def list_all_iff)
    ultimately show ?thesis using Cleanup.prems by (auto simp: owned_inv_def) (auto simp: tr td_cleanup_next_def Let_def)
  next
    case False
    with Cleanup show ?thesis
      by (auto simp: owned_inv_def leg_owned_def read_owned_def td_cleanup_next_def split: teardown_phase.splits)
  qed
qed (auto simp: owned_inv_def leg_owned_def read_owned_def td_defs AList.update_conv' AList.delete_conv' split: option.splits prod.splits if_splits)

section \<open>No step of the teardown waits for what never ends\<close>

definition started_inv :: "teardown \<Rightarrow> bool" where
  "started_inv s \<longleftrightarrow>
     (\<forall>g t. (g, t, ClosingLate) \<in> set (td_connects s) \<longrightarrow> td_close s g \<noteq> CloseNone) \<and>
     (\<forall>k t g. (k, t, g, RetClose) \<in> set (td_retirements s) \<longrightarrow> td_close s g \<noteq> CloseNone) \<and>
     (case td_cleanup s of TConns gs \<Rightarrow> \<forall>g \<in> set gs. td_close s g \<noteq> CloseNone
      | TCloses gs \<Rightarrow> \<forall>g \<in> set gs. td_close s g \<noteq> CloseNone | _ \<Rightarrow> True)"

lemma started_cong:
  assumes "started_inv s" "td_cleanup s' = td_cleanup s \<or> td_cleanup s' = TBegin"
    and "\<And>g. td_close s g \<noteq> CloseNone \<Longrightarrow> td_close s' g \<noteq> CloseNone"
    and "\<And>g t. (g, t, ClosingLate) \<in> set (td_connects s') \<Longrightarrow> (g, t, ClosingLate) \<in> set (td_connects s) \<or> td_close s' g \<noteq> CloseNone"
    and "\<And>k t g. (k, t, g, RetClose) \<in> set (td_retirements s') \<Longrightarrow> (k, t, g, RetClose) \<in> set (td_retirements s) \<or> td_close s' g \<noteq> CloseNone"
  shows "started_inv s'"
proof -
  have late: "\<forall>g t. (g, t, ClosingLate) \<in> set (td_connects s') \<longrightarrow> td_close s' g \<noteq> CloseNone"
    and ret: "\<forall>k t g. (k, t, g, RetClose) \<in> set (td_retirements s') \<longrightarrow> td_close s' g \<noteq> CloseNone"
    using assms(1,3-5) unfolding started_inv_def by blast+
  have "case td_cleanup s' of TConns gs \<Rightarrow> \<forall>g \<in> set gs. td_close s' g \<noteq> CloseNone
      | TCloses gs \<Rightarrow> \<forall>g \<in> set gs. td_close s' g \<noteq> CloseNone | _ \<Rightarrow> True"
    using assms(1,2) unfolding started_inv_def by (cases "td_cleanup s") (auto simp: assms(3))
  with late ret show ?thesis by (simp add: started_inv_def)
qed

lemma started_step: "td_step s s' \<Longrightarrow> names_ok s \<Longrightarrow> started_inv s \<Longrightarrow> started_inv s'"
proof (induction rule: td_step.induct)
  case (Cleanup s)
  then show ?case
    by (auto simp: started_inv_def td_cleanup_next_def opened_closes_def Let_def split: teardown_phase.splits)
next
  case (Detach k t g s)
  then have d: "distinct (map fst (td_retirements s))" by (simp add: names_ok_def)
  have same: "g' = g" if "(k, t', g', q) \<in> set (td_retirements s)" for t' g' q
    using distinct_retirement [OF d Detach.hyps that] by simp
  show ?case using Detach.prems(2)
    by (rule started_cong) (auto simp: in_retire_detach dest: same split: if_splits option.splits)
next
  case (ReadJoined k t g r s)
  then have d: "distinct (map fst (td_retirements s))" by (simp add: names_ok_def)
  have same: "g' = g" if "(k, t', g', q) \<in> set (td_retirements s)" for t' g' q
    using distinct_retirement [OF d ReadJoined.hyps(1) that] by simp
  show ?case using ReadJoined.prems(2)
    by (rule started_cong) (auto simp: in_set_retirement dest: same split: if_splits)
next
  case (ConnectUp g t s)
  from ConnectUp.prems(2) show ?case
    by (rule started_cong) (auto simp: connect_up_def connect_over_def Let_def split: if_splits)
qed (erule started_cong;
    auto simp: td_schedule_cleanup_def td_new_timer_def td_timer_ends_def td_timer_fires_def connect_over_def td_send_to_def
      td_begin_connect_def td_start_read_def td_collect_read_def td_exchange_end_def td_retire_def retirement_over_def
      split: option.splits prod.splits if_splits)+

definition td_inv :: "teardown \<Rightarrow> bool" where
  "td_inv s \<longleftrightarrow> names_ok s \<and> connect_inv s \<and> calls_inv s \<and> phase_inv s \<and> owned_inv s \<and> started_inv s"

lemma td_inv_step: "td_step s s' \<Longrightarrow> td_inv s \<Longrightarrow> td_inv s'"
  unfolding td_inv_def
  by (blast intro: names_step connect_step calls_step phase_step owned_step started_step)

lemma td_reachable_inv: "td_reachable s \<Longrightarrow> td_inv s"
proof (induction rule: td_reachable.induct)
  case Init
  show ?case
    by (simp add: td_inv_def new_teardown_def names_ok_def connect_inv_def calls_inv_def phase_inv_def owned_inv_def started_inv_def)
qed (rule td_inv_step)

text \<open>The work still under way.\<close>

fun retire_weight :: "retire_phase \<Rightarrow> nat" where
  "retire_weight RetStart = 5"
| "retire_weight (RetRead r) = 3"
| "retire_weight RetClose = 1"

definition pending_work :: "teardown \<Rightarrow> nat" where
  "pending_work s =
     length (td_timers s) + length (td_connects s) + length (td_reading s)
     + sum_list (map (\<lambda>(k, t, g, p). retire_weight p) (td_retirements s))
     + card {g. td_close s g = CloseRunning}"

abbreviation retire_sum :: "(nat \<times> int \<times> nat \<times> retire_phase) list \<Rightarrow> nat" where
  "retire_sum xs \<equiv> sum_list (map (\<lambda>(k, t, g, p). retire_weight p) xs)"

lemma retire_sum_absent: "k \<notin> fst ` set xs \<Longrightarrow> retire_sum (map (\<lambda>(k', t, g, q). (k', t, g, if k' = k then p else q)) xs) = retire_sum xs"
  by (induction xs) auto

lemma retire_sum_set:
  "distinct (map fst xs) \<Longrightarrow> (k, t, g, q) \<in> set xs \<Longrightarrow>
   retire_sum (map (\<lambda>(k', t, g, q). (k', t, g, if k' = k then p else q)) xs) + retire_weight q = retire_sum xs + retire_weight p"
proof (induction xs)
  case (Cons x xs)
  show ?case
  proof (cases "fst x = k")
    case True
    with Cons.prems(1) have "k \<notin> fst ` set xs" by simp
    moreover from this True Cons.prems(2) have "x = (k, t, g, q)"
      by (metis fst_conv image_eqI set_ConsD)
    ultimately have "x = (k, t, g, q)" "k \<notin> fst ` set xs" by blast+
    then show ?thesis using retire_sum_absent [of k xs p] by (simp del: map_map)
  next
    case False
    with Cons show ?thesis by (cases x) auto
  qed
qed simp

lemma retire_sum_filter_le: "retire_sum (filter P xs) \<le> retire_sum xs"
  by (induction xs) auto

lemma retire_sum_filter: "x \<in> set xs \<Longrightarrow> \<not> P x \<Longrightarrow> retire_sum (filter P xs) < retire_sum xs"
proof (induction xs)
  case (Cons y xs)
  have pos: "0 < (case y of (k, t, g, p) \<Rightarrow> retire_weight p)" by (cases y; cases "snd (snd (snd y))") auto
  show ?case
  proof (cases "P y")
    case True
    with Cons show ?thesis by auto
  next
    case False
    then show ?thesis using pos retire_sum_filter_le [of P xs] by simp
  qed
qed simp

lemma running_finite: "names_ok s \<Longrightarrow> finite {g. td_close s g = CloseRunning}"
proof -
  assume "names_ok s"
  then have "{g. td_close s g = CloseRunning} \<subseteq> {..<td_next s}"
    by (auto simp: names_ok_def not_le [symmetric])
  then show ?thesis by (rule finite_subset) simp
qed

lemma running_close_once:
  assumes "names_ok s"
  shows "card {h. td_close (td_close_once g s) h = CloseRunning} \<le> card {h. td_close s h = CloseRunning} + 1"
proof -
  have "card {h. td_close (td_close_once g s) h = CloseRunning} \<le> card (insert g {h. td_close s h = CloseRunning})"
    using running_finite [OF assms] by (intro card_mono) (auto simp: td_close_once_def split: if_splits)
  also have "\<dots> \<le> card {h. td_close s h = CloseRunning} + 1"
    using card_insert_le_m1 by (simp add: card_insert_if running_finite [OF assms])
  finally show ?thesis .
qed

lemma work_close_ends:
  assumes "names_ok s" "td_close s g = CloseRunning"
  shows "pending_work (s\<lparr>td_close := (td_close s)(g := CloseDone)\<rparr>) < pending_work s"
proof -
  have "{h. ((td_close s)(g := CloseDone)) h = CloseRunning} = {h. td_close s h = CloseRunning} - {g}" by auto
  moreover have "card ({h. td_close s h = CloseRunning} - {g}) < card {h. td_close s h = CloseRunning}"
    using running_finite [OF assms(1)] assms(2) by (intro card_Diff1_less) auto
  ultimately show ?thesis by (simp add: pending_work_def)
qed

lemma work_read_ends:
  "r \<in> set (td_reading s) \<Longrightarrow> pending_work (s\<lparr>td_reading := removeAll r (td_reading s)\<rparr>) < pending_work s"
  by (simp add: pending_work_def length_removeAll_less)

lemma work_retirement:
  assumes "names_ok s" "(k, t, g, q) \<in> set (td_retirements s)" "retire_weight p + 1 < retire_weight q"
    and "td_timers s' = td_timers s" "td_connects s' = td_connects s" "td_reading s' = td_reading s"
    and "td_retirements s' = td_retirements (set_retirement k p s)"
    and "\<And>h. td_close s' h = CloseRunning \<Longrightarrow> td_close (td_close_once g s) h = CloseRunning"
  shows "pending_work s' < pending_work s"
proof -
  have "retire_sum (td_retirements s') + retire_weight q = retire_sum (td_retirements s) + retire_weight p"
    using assms(1,2,7) retire_sum_set [of "td_retirements s" k t g q p] by (simp add: names_ok_def set_retirement_def)
  moreover have "card {h. td_close s' h = CloseRunning} \<le> card {h. td_close (td_close_once g s) h = CloseRunning}"
  proof (rule card_mono)
    have "{h. td_close (td_close_once g s) h = CloseRunning} \<subseteq> insert g {h. td_close s h = CloseRunning}"
      by (auto simp: td_close_once_def split: if_splits)
    then show "finite {h. td_close (td_close_once g s) h = CloseRunning}"
      using running_finite [OF assms(1)] by (rule finite_subset [OF _ finite.insertI])
  qed (use assms(8) in blast)
  moreover note running_close_once [OF assms(1), of g]
  ultimately show ?thesis using assms(3-6) by (simp add: pending_work_def)
qed

lemma work_detach:
  assumes "names_ok s" "(k, t, g, RetStart) \<in> set (td_retirements s)"
  shows "pending_work (retire_detach k t g s) < pending_work s"
proof -
  define p where "p = (case map_of (td_reads s) t of Some (own, r) \<Rightarrow> if own = g then RetRead r else RetClose | None \<Rightarrow> RetClose)"
  have p: "retire_weight p + 1 < retire_weight RetStart"
    "td_retirements (retire_detach k t g s) = td_retirements (set_retirement k p s)"
    by (auto simp: p_def retire_detach_def Let_def set_retirement_def split: option.splits)
  have "td_close (retire_detach k t g s) h = CloseRunning \<Longrightarrow> td_close (td_close_once g s) h = CloseRunning" for h
    by (auto simp: retire_detach_def Let_def td_close_once_def split: option.splits if_splits)
  then show ?thesis by (intro work_retirement [OF assms p(1)]) (simp_all add: p(2))
qed

text \<open>A cleanup that waits can always let somebody else go on, who brings the end nearer.\<close>

lemma teardown_progress:
  assumes inv: "td_inv s" and run: "td_cleanup s \<noteq> TNone" "td_cleanup s \<noteq> TDone"
  shows "td_ready s \<or> (\<exists>s'. td_step s s' \<and> td_cleanup s' = td_cleanup s \<and> pending_work s' < pending_work s)"
proof (cases "td_ready s")
  case False
  have names: "names_ok s" and started: "started_inv s" using inv by (auto simp: td_inv_def)
  have close: ?thesis if "td_close s g \<noteq> CloseNone" "td_close s g \<noteq> CloseDone" for g
  proof -
    have r: "td_close s g = CloseRunning" using that by (cases "td_close s g") auto
    show ?thesis using td_step.Closed [OF r] work_close_ends [OF names r] by fastforce
  qed
  have read: ?thesis if "r \<in> set (td_reading s)" for r
    using td_step.ReadEnds [OF that] work_read_ends [OF that] by fastforce
  have conn: ?thesis if "(g, t, p) \<in> set (td_connects s)" for g t p
  proof -
    have less: "pending_work (connect_over g s) < pending_work s"
      using that by (auto simp: pending_work_def connect_over_def intro!: length_filter_less)
    show ?thesis
    proof (cases p)
      case Connecting
      with that less td_step.ConnectFails [of g t s] show ?thesis by (fastforce simp: connect_over_def)
    next
      case ClosingLate
      with that started have c: "td_close s g \<noteq> CloseNone" by (auto simp: started_inv_def)
      show ?thesis
      proof (cases "td_close s g = CloseDone")
        case True
        with that less ClosingLate td_step.LateClosed [of g t s] show ?thesis by (fastforce simp: connect_over_def)
      qed (rule close [OF c])
    qed
  qed
  have ret: ?thesis if m: "(k, t, g, p) \<in> set (td_retirements s)" for k t g p
  proof (cases p)
    case RetStart
    with m td_step.Detach [of k t g s] work_detach [OF names, of k t g] show ?thesis by fastforce
  next
    case (RetRead r)
    show ?thesis
    proof (cases "r \<in> set (td_reading s)")
      case False
      have "pending_work (set_retirement k RetClose (td_close_once g s)) < pending_work s"
        by (rule work_retirement [OF names m, where p = RetClose]) (simp_all add: RetRead set_retirement_def)
      with False m RetRead td_step.ReadJoined [of k t g r s] show ?thesis by fastforce
    qed (rule read)
  next
    case RetClose
    with m started have c: "td_close s g \<noteq> CloseNone" by (auto simp: started_inv_def)
    show ?thesis
    proof (cases "td_close s g = CloseDone")
      case True
      have "pending_work (retirement_over k s) < pending_work s"
        using m retire_sum_filter [of "(k, t, g, p)" "td_retirements s" "\<lambda>x. fst x \<noteq> k"]
        by (simp add: pending_work_def retirement_over_def)
      with True m RetClose td_step.RetireEnds [of k t g s] show ?thesis by (fastforce simp: retirement_over_def)
    qed (rule close [OF c])
  qed
  show ?thesis
  proof (cases "td_cleanup s")
    case (TTimers ts)
    with False obtain i where i: "i \<in> set (td_timers s)" by (auto simp: td_ready_def list_all_iff)
    have "pending_work (td_timer_ends i s) < pending_work s"
      using i by (simp add: pending_work_def td_timer_ends_def td_timer_fires_def length_removeAll_less)
    with td_step.TimerEnds [OF i] show ?thesis by (fastforce simp: td_timer_ends_def td_timer_fires_def)
  next
    case (TConns gs)
    with False obtain g where "g \<in> set gs" "td_close s g \<noteq> CloseDone" by (auto simp: td_ready_def list_all_iff)
    with TConns started show ?thesis by (intro close [of g]) (auto simp: started_inv_def)
  next
    case (TCloses gs)
    with False obtain g where "g \<in> set gs" "td_close s g \<noteq> CloseDone" by (auto simp: td_ready_def list_all_iff)
    with TCloses started show ?thesis by (intro close [of g]) (auto simp: started_inv_def)
  next
    case (TConnects gs)
    with False obtain g t p where "(g, t, p) \<in> set (td_connects s)" by (auto simp: td_ready_def list_all_iff)
    then show ?thesis by (rule conn)
  next
    case (TRetire ks)
    with False obtain k t g p where "(k, t, g, p) \<in> set (td_retirements s)" by (auto simp: td_ready_def list_all_iff)
    then show ?thesis by (rule ret)
  qed (use False run read in \<open>auto simp: td_ready_def list_all_iff\<close>)
qed simp

fun phase_left :: "teardown_phase \<Rightarrow> nat" where
  "phase_left TNone = 10"
| "phase_left TBegin = 9"
| "phase_left (TTimers is) = 8"
| "phase_left (TConnects gs) = 7"
| "phase_left (TReads rs) = 6"
| "phase_left (TConns gs) = 5"
| "phase_left (TRetire ks) = 4"
| "phase_left (TCloses gs) = 3"
| "phase_left TWriter = 2"
| "phase_left TDone = 1"

lemma cleanup_next_left: "td_ready s \<Longrightarrow> phase_left (td_cleanup (td_cleanup_next s)) < phase_left (td_cleanup s)"
  by (auto simp: td_ready_def td_cleanup_next_def Let_def split: teardown_phase.splits)

lemma cleanup_next_running: "td_ready s \<Longrightarrow> td_cleanup (td_cleanup_next s) \<noteq> TNone"
  by (auto simp: td_ready_def td_cleanup_next_def Let_def split: teardown_phase.splits)

lemma teardown_reaches_end:
  "td_inv s \<Longrightarrow> td_cleanup s \<noteq> TNone \<Longrightarrow> \<exists>s'. td_step\<^sup>*\<^sup>* s s' \<and> td_cleanup s' = TDone"
proof (induction "(phase_left (td_cleanup s), pending_work s)" arbitrary: s rule: wf_induct_rule [OF wf_lex_prod [OF wf_less wf_less]])
  case (1 s)
  show ?case
  proof (cases "td_cleanup s = TDone")
    case False
    from teardown_progress [OF 1(2,3) False] obtain s' where s': "td_step s s'" "td_cleanup s' \<noteq> TNone"
      "((phase_left (td_cleanup s'), pending_work s'), (phase_left (td_cleanup s), pending_work s)) \<in> less_than <*lex*> less_than"
    proof (elim disjE exE conjE)
      assume r: "td_ready s"
      show thesis by (rule that [OF td_step.Cleanup [OF r] cleanup_next_running [OF r]]) (simp add: cleanup_next_left [OF r])
    next
      fix s' assume "td_step s s'" "td_cleanup s' = td_cleanup s" "pending_work s' < pending_work s"
      with 1(3) show thesis by (intro that [of s']) auto
    qed
    have "\<exists>t. td_step\<^sup>*\<^sup>* s' t \<and> td_cleanup t = TDone"
      using 1(1) [OF _ td_inv_step [OF s'(1) 1(2)] s'(2)] s'(3) by auto
    with s'(1) show ?thesis by (meson converse_rtranclp_into_rtranclp)
  qed auto
qed

section \<open>The contract\<close>

text \<open>C25: However the closing of a session meets an exchange, an attempt to connect, or a retirement:
  \<open>ECUConnection.close\<close> is called at most once on each connection; when the cleanup is done, no timer, no attempt to
  connect and no read is left, and every connection that ever came up has been closed; and once the session is
  closing, the cleanup is never stuck: from every state the tasks it waits for can bring it to its end.\<close>

theorem teardown_complete:
  assumes "td_reachable s"
  shows "(\<forall>g. td_close_calls s g \<le> 1)
    \<and> (td_cleanup s = TDone \<longrightarrow> td_timers s = [] \<and> td_connects s = [] \<and> td_reading s = [] \<and> td_cached s = []
         \<and> (\<forall>g \<in> set (td_up s). td_close s g = CloseDone \<and> td_close_calls s g = 1))
    \<and> (td_closing s \<longrightarrow> (\<exists>s'. td_step\<^sup>*\<^sup>* s s' \<and> td_cleanup s' = TDone))"
proof -
  have inv: "td_inv s" using assms by (rule td_reachable_inv)
  then have calls: "calls_inv s" and order: "phase_inv s" and owned: "owned_inv s" and conn: "connect_inv s"
    by (simp_all add: td_inv_def)
  have "td_reading s = []" if "td_cleanup s = TDone"
    using that order owned by (fastforce simp: phase_inv_def emptied_def no_join_def owned_inv_def read_owned_def intro: ccontr)
  moreover have "\<exists>s'. td_step\<^sup>*\<^sup>* s s' \<and> td_cleanup s' = TDone" if "td_closing s"
    using that conn by (intro teardown_reaches_end [OF inv]) (simp add: connect_inv_def)
  ultimately show ?thesis
    using calls order by (auto simp: calls_inv_def phase_inv_def emptied_def)
qed

text \<open>A session is closed by its timer while it reads from an ECU.\<close>

definition closed_while_reading :: teardown where
  "closed_while_reading =
     (let s = td_new_timer new_teardown; s = td_send_to 5 True s; s = connect_up 1 5 s; s = s\<lparr>td_run := RunLoop\<rparr>;
          s = td_send_to 5 True s; s = the (td_start_read 5 1 s)
      in td_timer_ends 0 (td_schedule_cleanup s))"

lemma td_reachable_steps: "td_step\<^sup>*\<^sup>* s s' \<Longrightarrow> td_reachable s \<Longrightarrow> td_reachable s'"
  by (induction rule: rtranclp_induct) (auto intro: td_reachable.Step)

lemmas closed_while_reading_defs = new_teardown_def td_new_timer_def td_send_to_def td_begin_connect_def connect_up_def
  connect_over_def td_start_read_def td_schedule_cleanup_def td_timer_ends_def td_timer_fires_def Let_def

lemma closed_while_reading_eq:
  "closed_while_reading =
     new_teardown\<lparr>td_closing := True, td_transport_closed := True, td_cached := [(5, 1)], td_reads := [(5, 1, 2)],
       td_reading := [2], td_up := [1], td_next := 3, td_run := RunExchange 5 1, td_cleanup := TBegin\<rparr>"
  by (simp add: closed_while_reading_def closed_while_reading_defs)

lemma closed_while_reading_reachable: "td_reachable closed_while_reading"
proof -
  let ?s1 = "td_new_timer new_teardown" and ?s2 = "td_send_to 5 True (td_new_timer new_teardown)"
  let ?s3 = "connect_up 1 5 ?s2"
  let ?s4 = "?s3\<lparr>td_run := RunLoop\<rparr>"
  let ?s5 = "td_send_to 5 True ?s4"
  let ?s6 = "the (td_start_read 5 1 ?s5)"
  have "td_reachable ?s1" by (rule td_reachable.Step [OF td_reachable.Init td_step.NewTimer]) (simp add: new_teardown_def)
  then have "td_reachable ?s2" by (rule td_reachable.Step [OF _ td_step.SendTo]) (simp add: closed_while_reading_defs)
  then have "td_reachable ?s3" by (rule td_reachable.Step [OF _ td_step.ConnectUp]) (simp add: closed_while_reading_defs)
  then have "td_reachable ?s4" by (rule td_reachable.Step [OF _ td_step.Connected]) (simp_all add: closed_while_reading_defs)
  then have "td_reachable ?s5" by (rule td_reachable.Step [OF _ td_step.SendTo]) (simp add: closed_while_reading_defs)
  then have "td_reachable ?s6" by (rule td_reachable.Step [OF _ td_step.StartRead [where t = 5 and g = 1]])
      (simp_all add: closed_while_reading_defs)
  then have "td_reachable (td_timer_fires 0 ?s6)"
    by (rule td_reachable.Step [OF _ td_step.TimerFires]) (simp add: closed_while_reading_defs)
  then show ?thesis by (simp add: closed_while_reading_def td_timer_fires_def Let_def)
qed

theorem teardown_complete_witness:
  "td_up closed_while_reading = [1] \<and> td_reading closed_while_reading = [2] \<and> td_closing closed_while_reading
   \<and> (\<exists>s'. td_step\<^sup>*\<^sup>* closed_while_reading s' \<and> td_cleanup s' = TDone \<and> td_reading s' = [] \<and> td_cached s' = [])"
proof -
  have closing: "td_closing closed_while_reading" by (simp add: closed_while_reading_eq)
  with teardown_complete [OF closed_while_reading_reachable] obtain s' where
    s': "td_step\<^sup>*\<^sup>* closed_while_reading s'" "td_cleanup s' = TDone" by blast
  from teardown_complete [OF td_reachable_steps [OF s'(1) closed_while_reading_reachable]] s'(2)
  have "td_reading s' = []" "td_cached s' = []" by blast+
  with s' closing show ?thesis by (auto simp: closed_while_reading_eq new_teardown_def)
qed

text \<open>The loop that joins a task: it returns only when the task is done, whatever cancellations come before; an error
  of the task is passed on, and otherwise a cancellation of the caller is not lost.\<close>

lemma shielded_join_spec:
  "shielded_join c evs =
     (case dropWhile (\<lambda>e. e = CallerCancelled) evs of
        OwnerDone (Inl e) # _ \<Rightarrow> Some (Inl e)
      | OwnerDone (Inr _) # _ \<Rightarrow> Some (if c \<or> (\<exists>e es. evs = CallerCancelled # es) then Inl CancelledError else Inr ())
      | _ \<Rightarrow> None)"
  by (induction c evs rule: shielded_join.induct) (auto split: list.splits join_event.splits sum.splits)

end
