(* ===== verification/Edge_Announcer.thy ===== *)
theory Edge_Announcer
  imports Edge_Udp_Props Edge_Config_Load
begin

text \<open>
  The life of the EdgeNode's UDP listener (\<open>UDPAnnouncer\<close> of \<^verbatim>\<open>doip_edgenode/udp_announcer.py\<close>): start with the
  announcements, cancellation and failure of a start, stop, and the datagrams and deferred responses that meet
  them. Each start makes one socket, its transport and its protocol object, which share a number. Only one socket
  can be bound to the port, as the code relies on by leaving address reuse off. A transport that is closed calls
  \<open>connection_lost\<close> in the same step.
\<close>

section \<open>State\<close>

text \<open>Where the call of \<open>start\<close> is: not running; waiting for the endpoint, and for the transport to be connected;
  in the announcements, with the number still to send.\<close>

datatype start_phase = StIdle | StEndpoint nat | StConnected nat | StAnnounce nat

record announcer =
  an_protocols :: "nat \<Rightarrow> edge_udp"
  an_transport :: "nat option"
  an_protocol :: "nat option"
  an_open :: "nat list"
  an_next :: nat
  an_start :: start_phase

definition new_protocol :: edge_udp where
  "new_protocol = \<lparr>eu_transport = None, eu_out = [], eu_pending = [], eu_next = 0\<rparr>"

definition new_announcer :: announcer where
  "new_announcer = \<lparr>an_protocols = (\<lambda>_. new_protocol), an_transport = None, an_protocol = None, an_open = [],
     an_next = 0, an_start = StIdle\<rparr>"

definition on_protocol :: "nat \<Rightarrow> (edge_udp \<Rightarrow> edge_udp) \<Rightarrow> announcer \<Rightarrow> announcer" where
  "on_protocol n f s = s\<lparr>an_protocols := (an_protocols s)(n := f (an_protocols s n))\<rparr>"

section \<open>Operations\<close>

text \<open>\<open>_create_udp_socket\<close>: the socket, or the error of \<open>bind\<close> after closing it.\<close>

definition create_udp_socket :: "bool \<Rightarrow> announcer \<Rightarrow> nat res \<times> announcer" where
  "create_udp_socket bound s =
     (if bound then (Inr (an_next s), s\<lparr>an_open := an_next s # an_open s, an_next := an_next s + 1\<rparr>)
      else (Inl ConnectionError, s\<lparr>an_next := an_next s + 1\<rparr>))"

definition close_socket :: "nat \<Rightarrow> announcer \<Rightarrow> announcer" where
  "close_socket n s = on_protocol n connection_lost (s\<lparr>an_open := removeAll n (an_open s)\<rparr>)"

text \<open>\<open>start\<close> up to its first await.\<close>

definition announcer_start :: "bool \<Rightarrow> announcer \<Rightarrow> unit res \<times> announcer" where
  "announcer_start bound s =
     (if an_transport s \<noteq> None then (Inl RuntimeError, s)
      else case create_udp_socket bound s of
          (Inl e, s) \<Rightarrow> (Inl e, s)
        | (Inr n, s) \<Rightarrow> (Inr (), s\<lparr>an_start := StEndpoint n\<rparr>))"

text \<open>\<open>create_datagram_endpoint\<close> makes the protocol, whose payload may fail, and connects it.\<close>

definition endpoint_connects :: "edge_doip \<Rightarrow> nat \<Rightarrow> announcer \<Rightarrow> announcer" where
  "endpoint_connects dc n s =
     (case edge_announcement_payload dc of
        Inl e \<Rightarrow> (close_socket n s)\<lparr>an_start := StIdle\<rparr>
      | Inr payload \<Rightarrow> (on_protocol n (\<lambda>p. p\<lparr>eu_transport := Some n\<rparr>) s)\<lparr>an_start := StConnected n\<rparr>)"

definition endpoint_fails :: "nat \<Rightarrow> announcer \<Rightarrow> announcer" where
  "endpoint_fails n s = (close_socket n s)\<lparr>an_start := StIdle\<rparr>"

text \<open>\<open>start\<close> goes on: it keeps the transport and enters \<open>_send_announcements\<close>.\<close>

definition start_resumes :: "nat \<Rightarrow> nat \<Rightarrow> announcer \<Rightarrow> announcer" where
  "start_resumes announcements n s =
     s\<lparr>an_transport := Some n, an_protocol := Some n, an_start := StAnnounce announcements\<rparr>"

text \<open>One round of the loop after its sleep; the end of the loop is the end of \<open>start\<close>.\<close>

definition announce_round :: "edge_doip \<Rightarrow> nat \<Rightarrow> announcer \<Rightarrow> announcer" where
  "announce_round dc left s =
     (case left of
        0 \<Rightarrow> s\<lparr>an_start := StIdle\<rparr>
      | Suc rest \<Rightarrow>
          let s = (case (an_transport s, ebind (edge_announcement_payload dc) (\<lambda>p. edge_build_frame PT_VEHICLE_ID_RESPONSE p 0x02)) of
                     (Some n, Inr frame) \<Rightarrow>
                       on_protocol n (\<lambda>p. p\<lparr>eu_out := eu_out p @ [(frame, (''255.255.255.255'', DOIP_UDP_PORT, []))]\<rparr>) s
                   | _ \<Rightarrow> s)
          in s\<lparr>an_start := (if rest = 0 then StIdle else StAnnounce rest)\<rparr>)"

text \<open>\<open>cancel_pending\<close>, and \<open>stop\<close>.\<close>

definition cancel_pending :: "edge_udp \<Rightarrow> edge_udp" where
  "cancel_pending p = p\<lparr>eu_pending := []\<rparr>"

definition announcer_stop :: "announcer \<Rightarrow> announcer" where
  "announcer_stop s =
     (let transport = an_transport s; protocol = an_protocol s; s = s\<lparr>an_transport := None, an_protocol := None\<rparr>;
          s = (case protocol of None \<Rightarrow> s
               | Some n \<Rightarrow> on_protocol n (\<lambda>p. (cancel_pending p)\<lparr>eu_transport := None\<rparr>) s)
      in case transport of None \<Rightarrow> s | Some n \<Rightarrow> close_socket n s)"

text \<open>A start that is cancelled while it announces.\<close>

definition start_cancelled :: "announcer \<Rightarrow> announcer" where
  "start_cancelled s = (announcer_stop s)\<lparr>an_start := StIdle\<rparr>"

section \<open>Steps\<close>

text \<open>Calls of \<open>start\<close> do not overlap. Deferred responses fire at any time, also of a protocol object whose socket is
  closed.\<close>

inductive an_step :: "edge_doip \<Rightarrow> nat \<Rightarrow> announcer \<Rightarrow> announcer \<Rightarrow> bool" for dc announce_count where
  Start: "an_start s = StIdle \<Longrightarrow> bound \<longrightarrow> an_open s = [] \<Longrightarrow> announcer_start bound s = (r, s') \<Longrightarrow> an_step dc announce_count s s'"
| Connects: "an_start s = StEndpoint n \<Longrightarrow> an_step dc announce_count s (endpoint_connects dc n s)"
| Fails: "an_start s = StEndpoint n \<or> an_start s = StConnected n \<Longrightarrow> an_step dc announce_count s (endpoint_fails n s)"
| Resumes: "an_start s = StConnected n \<Longrightarrow> an_step dc announce_count s (start_resumes announce_count n s)"
| Announce: "an_start s = StAnnounce left \<Longrightarrow> an_step dc announce_count s (announce_round dc left s)"
| Cancelled: "an_start s = StAnnounce left \<Longrightarrow> an_step dc announce_count s (start_cancelled s)"
| Stop: "an_step dc announce_count s (announcer_stop s)"
| Datagram: "n \<in> set (an_open s) \<Longrightarrow> eu_transport (an_protocols s n) = Some n \<Longrightarrow> edge_announcement_payload dc = Inr payload \<Longrightarrow>
     an_step dc announce_count s (on_protocol n (\<lambda>p. snd (edge_datagram_received dc payload open_count data addr p)) s)"
| Fire: "edge_announcement_payload dc = Inr payload \<Longrightarrow>
     an_step dc announce_count s (on_protocol n (\<lambda>p. snd (fire_response payload h p)) s)"

inductive an_reachable :: "edge_doip \<Rightarrow> nat \<Rightarrow> announcer \<Rightarrow> bool" for dc announce_count where
  Init: "an_reachable dc announce_count new_announcer"
| Step: "an_reachable dc announce_count s \<Longrightarrow> an_step dc announce_count s s' \<Longrightarrow> an_reachable dc announce_count s'"

section \<open>What every step keeps\<close>

definition protocol_ok :: "nat \<Rightarrow> bool \<Rightarrow> edge_udp \<Rightarrow> bool" where
  "protocol_ok n opn p \<longleftrightarrow>
     (if opn then eu_transport p \<in> {None, Some n} \<and> pending_ok p else eu_transport p = None \<and> eu_pending p = [])"

definition an_inv :: "announcer \<Rightarrow> bool" where
  "an_inv s \<longleftrightarrow>
     an_protocol s = an_transport s \<and>
     (case an_start s of
        StEndpoint n \<Rightarrow> an_transport s = None \<and> an_open s = [n] \<and> an_protocols s n = new_protocol
      | StConnected n \<Rightarrow> an_transport s = None \<and> an_open s = [n]
      | _ \<Rightarrow> an_open s = (case an_transport s of None \<Rightarrow> [] | Some n \<Rightarrow> [n])) \<and>
     (\<forall>n \<in> set (an_open s). n < an_next s) \<and>
     (\<forall>n \<in> set (an_open s). protocol_ok n True (an_protocols s n)) \<and>
     (\<forall>n. n \<notin> set (an_open s) \<longrightarrow> protocol_ok n False (an_protocols s n)) \<and>
     (\<forall>n. an_next s \<le> n \<longrightarrow> an_protocols s n = new_protocol)"

lemma udp_transport [simp]:
  "eu_transport (snd (eu_send pt pl addr p)) = eu_transport p"
  "eu_transport (snd (eu_reject c addr p)) = eu_transport p"
  by (simp_all add: eu_send_def eu_reject_def bnd_def del: py_bytes.simps split: sum.split)

lemma datagram_transport: "eu_transport (snd (edge_datagram_received dc payload n data addr p)) = eu_transport p"
proof -
  have "keeps (\<lambda>q. eu_transport q = eu_transport p) (edge_datagram_received dc payload n data addr)"
    unfolding edge_datagram_received_def Let_def
    by (intro keeps_rules) (auto simp: keeps_def schedule_discovery_def split: option.split)
  then show ?thesis by (auto simp: keeps_def)
qed

lemma fire_response_effect:
  "eu_transport (snd (fire_response payload h p)) = eu_transport p"
  "length (eu_pending (snd (fire_response payload h p))) \<le> length (eu_pending p)"
  "eu_pending p = [] \<Longrightarrow> snd (fire_response payload h p) = p"
  by (auto simp: fire_response_def bnd_def AList.length_delete_le split: option.split)

lemma datagram_ok: "protocol_ok n True p \<Longrightarrow> protocol_ok n True (snd (edge_datagram_received dc payload k data addr p))"
  using pending_bounded [of dc payload k data addr]
  by (simp add: protocol_ok_def datagram_transport keeps_def)

lemma fire_ok: "protocol_ok n b p \<Longrightarrow> protocol_ok n b (snd (fire_response payload h p))"
  using fire_response_effect [where payload = payload and h = h and p = p]
  by (auto simp: protocol_ok_def pending_ok_def)

lemma lost_ok [simp]: "protocol_ok n False (connection_lost p)"
  by (simp add: protocol_ok_def connection_lost_def)

lemma protocol_ok_simps [simp]:
  "protocol_ok n b (p\<lparr>eu_out := ms\<rparr>) = protocol_ok n b p" "protocol_ok n b new_protocol"
  by (auto simp: protocol_ok_def new_protocol_def pending_ok_def)

lemma protocol_ok_connect: "protocol_ok n True p \<Longrightarrow> protocol_ok n True (p\<lparr>eu_transport := Some n\<rparr>)"
  by (auto simp: protocol_ok_def pending_ok_def)

lemma an_inv_on:
  assumes "an_inv s" "n \<in> set (an_open s)" "an_start s \<noteq> StEndpoint n"
    and "protocol_ok n True (an_protocols s n) \<Longrightarrow> protocol_ok n True (f (an_protocols s n))"
  shows "an_inv (on_protocol n f s)"
proof -
  have "protocol_ok n True (an_protocols s n)" using assms(1,2) by (simp add: an_inv_def)
  with assms show ?thesis by (auto simp: an_inv_def on_protocol_def split: start_phase.splits option.splits)
qed

lemma an_inv_stop: "an_inv s \<Longrightarrow> an_inv (announcer_stop s)"
  by (auto simp: an_inv_def announcer_stop_def on_protocol_def close_socket_def Let_def
      split: start_phase.splits option.splits)

lemma announcer_stop_idle: "an_transport (announcer_stop s) = None" "an_start (announcer_stop s) = an_start s"
  by (auto simp: announcer_stop_def on_protocol_def close_socket_def Let_def split: option.splits)

lemma on_protocol_same: "f (an_protocols s n) = an_protocols s n \<Longrightarrow> on_protocol n f s = s"
  by (simp add: on_protocol_def)

lemma closed_protocol: "an_inv s \<Longrightarrow> n \<notin> set (an_open s) \<Longrightarrow> eu_transport (an_protocols s n) = None \<and> eu_pending (an_protocols s n) = []"
  by (auto simp: an_inv_def protocol_ok_def)

lemma an_inv_step: "an_step dc k s s' \<Longrightarrow> an_inv s \<Longrightarrow> an_inv s'"
proof (induction rule: an_step.induct)
  case (Datagram n s payload open_count data addr)
  then have "an_start s \<noteq> StEndpoint n" by (auto simp: an_inv_def new_protocol_def)
  with Datagram show ?case by (intro an_inv_on datagram_ok)
next
  case (Fire payload s n h)
  show ?case
  proof (cases "n \<in> set (an_open s) \<and> an_start s \<noteq> StEndpoint n")
    case True
    with Fire show ?thesis by (intro an_inv_on fire_ok) auto
  next
    case False
    with Fire.prems have "eu_pending (an_protocols s n) = []"
      by (auto dest: closed_protocol) (auto simp: an_inv_def new_protocol_def)
    with Fire.prems show ?thesis by (simp add: on_protocol_same fire_response_effect(3))
  qed
next
  case (Stop s)
  then show ?case by (rule an_inv_stop)
next
  case (Cancelled s left)
  then have "an_inv (announcer_stop s)" by (intro an_inv_stop)
  with Cancelled.hyps show ?case
    by (auto simp: start_cancelled_def an_inv_def announcer_stop_idle split: start_phase.splits)
next
  case (Announce s left)
  then show ?case
    by (auto simp: an_inv_def announce_round_def on_protocol_def Let_def
      split: start_phase.splits option.splits sum.splits nat.splits)
next
  case (Start s bound r s')
  then show ?case
    by (auto simp: an_inv_def announcer_start_def create_udp_socket_def
      split: start_phase.splits option.splits if_splits)
qed (auto simp: an_inv_def on_protocol_def endpoint_connects_def endpoint_fails_def
   close_socket_def start_resumes_def protocol_ok_connect split: start_phase.splits option.splits sum.splits if_splits)

section \<open>The contract\<close>

lemma an_reachable_inv: "an_reachable dc k s \<Longrightarrow> an_inv s"
proof (induction rule: an_reachable.induct)
  case Init
  show ?case by (simp add: an_inv_def new_announcer_def)
qed (rule an_inv_step)

text \<open>Once the socket of a protocol object is closed, it stays closed and its datagrams stay what they are.\<close>

lemma closed_step:
  assumes "an_step dc k s s'" "an_inv s" "n \<notin> set (an_open s)" "n < an_next s"
  shows "n \<notin> set (an_open s') \<and> n < an_next s' \<and> eu_out (an_protocols s' n) = eu_out (an_protocols s n)"
  using assms
proof (induction rule: an_step.induct)
  case (Fire payload s m h)
  then show ?case
    by (cases "m = n") (auto simp: on_protocol_def fire_response_effect(3) dest: closed_protocol)
next
  case (Stop s)
  then show ?case
    by (auto simp: announcer_stop_def on_protocol_def close_socket_def Let_def cancel_pending_def connection_lost_def split: option.splits)
next
  case (Cancelled s left)
  then show ?case
    by (auto simp: start_cancelled_def announcer_stop_def on_protocol_def close_socket_def Let_def cancel_pending_def connection_lost_def split: option.splits)
next
  case (Announce s left)
  then have "an_transport s \<noteq> Some n" by (auto simp: an_inv_def)
  with Announce show ?case by (auto simp: announce_round_def on_protocol_def Let_def split: option.splits sum.splits nat.splits)
next
  case (Start s bound r s')
  then show ?case by (auto simp: announcer_start_def create_udp_socket_def split: if_splits)
qed (auto simp: on_protocol_def endpoint_connects_def endpoint_fails_def close_socket_def start_resumes_def connection_lost_def
  split: sum.splits if_splits)

lemma closed_steps:
  "(an_step dc k)\<^sup>*\<^sup>* s s' \<Longrightarrow> an_inv s \<Longrightarrow> n \<notin> set (an_open s) \<Longrightarrow> n < an_next s \<Longrightarrow>
   n \<notin> set (an_open s') \<and> eu_out (an_protocols s' n) = eu_out (an_protocols s n)"
proof (induction rule: converse_rtranclp_induct)
  case (step s t)
  from closed_step [OF step.hyps(1) step.prems] an_inv_step [OF step.hyps(1) step.prems(1)] step.IH show ?case by simp
qed simp

text \<open>C26: The UDP listener of the EdgeNode, whenever it is started, cancelled, failed or stopped: at most one socket is open;
  when no start is under way and the announcer holds no transport, none is; at most 256 responses are deferred; and
  after a socket is closed nothing is sent for it any more, whatever timers were scheduled before, and it never opens
  again.\<close>

theorem closed_listener_silent:
  assumes "an_reachable dc k s"
  shows "length (an_open s) \<le> 1
    \<and> (an_start s = StIdle \<longrightarrow> an_transport s = None \<longrightarrow> an_open s = [])
    \<and> (\<forall>n. length (eu_pending (an_protocols s n)) \<le> 256)
    \<and> (\<forall>n s'. n \<notin> set (an_open s) \<longrightarrow> n < an_next s \<longrightarrow> (an_step dc k)\<^sup>*\<^sup>* s s' \<longrightarrow>
         n \<notin> set (an_open s') \<and> eu_out (an_protocols s' n) = eu_out (an_protocols s n))"
proof -
  have inv: "an_inv s" using assms by (rule an_reachable_inv)
  have "length (eu_pending (an_protocols s n)) \<le> 256" for n
    using inv by (cases "n \<in> set (an_open s)") (auto simp: an_inv_def protocol_ok_def pending_ok_def MAX_PENDING_RESPONSES_def)
  moreover have "length (an_open s) \<le> 1" "an_start s = StIdle \<longrightarrow> an_transport s = None \<longrightarrow> an_open s = []"
    using inv by (auto simp: an_inv_def split: start_phase.splits option.splits)
  ultimately show ?thesis using closed_steps inv by blast
qed

text \<open>A listener that announces once, defers a response, and is stopped.\<close>

definition ex_payload :: bytes where
  "ex_payload = (case edge_announcement_payload ex_edge_doip of Inr p \<Rightarrow> p | Inl _ \<Rightarrow> [])"

lemma ex_payload: "edge_announcement_payload ex_edge_doip = Inr ex_payload" "length ex_payload = 33"
  by code_simp+

definition listening :: announcer where
  "listening = announce_round ex_edge_doip 1 (start_resumes 1 0 (endpoint_connects ex_edge_doip 0 (snd (announcer_start True new_announcer))))"

definition stopped_listener :: announcer where
  "stopped_listener =
     announcer_stop (on_protocol 0 (\<lambda>p. snd (edge_datagram_received ex_edge_doip ex_payload 0
       [0x02, 0xFD, 0x00, 0x01, 0, 0, 0, 0] (''10.0.0.9'', 40000, []) p)) listening)"

lemmas announcer_run_defs = announcer_start_def create_udp_socket_def new_announcer_def endpoint_connects_def on_protocol_def
  start_resumes_def ex_payload

lemma listening_open: "0 \<in> set (an_open listening)" "eu_transport (an_protocols listening 0) = Some 0"
  by (simp_all add: listening_def announce_round_def Let_def announcer_run_defs split: sum.splits)

lemma stopped_reachable: "an_reachable ex_edge_doip 1 stopped_listener"
proof -
  let ?s1 = "snd (announcer_start True new_announcer)"
  let ?s2 = "endpoint_connects ex_edge_doip 0 ?s1"
  let ?s3 = "start_resumes 1 0 ?s2"
  have "an_reachable ex_edge_doip 1 ?s1"
    by (rule an_reachable.Step [OF an_reachable.Init an_step.Start [where bound = True and r = "Inr ()"]]) (simp_all add: announcer_run_defs)
  then have "an_reachable ex_edge_doip 1 ?s2"
    by (rule an_reachable.Step [OF _ an_step.Connects]) (simp add: announcer_run_defs)
  then have "an_reachable ex_edge_doip 1 ?s3"
    by (rule an_reachable.Step [OF _ an_step.Resumes]) (simp add: announcer_run_defs)
  then have "an_reachable ex_edge_doip 1 listening" unfolding listening_def
    by (rule an_reachable.Step [OF _ an_step.Announce]) (simp add: announcer_run_defs)
  then show ?thesis unfolding stopped_listener_def
    by (intro an_reachable.Step [OF an_reachable.Step [OF _ an_step.Datagram] an_step.Stop]) (simp_all add: listening_open ex_payload)
qed

lemma ex_frame: "\<exists>f. edge_build_frame PT_VEHICLE_ID_RESPONSE ex_payload 2 = Inr f"
  by (simp add: edge_build_frame_def ex_payload payload_types to_bytes_big_def)

lemma ex_datagram:
  "snd (edge_datagram_received ex_edge_doip ex_payload 0 [0x02, 0xFD, 0x00, 0x01, 0, 0, 0, 0] (''10.0.0.9'', 40000, []) p)
   = schedule_discovery (''10.0.0.9'', 40000, []) p"
proof -
  have "source_allowed ''10.0.0.9''" by code_simp
  then show ?thesis
    by (simp add: edge_datagram_received_def Let_def ex_edge_doip_def EDGE_UDP_PAYLOAD_LENGTHS_def payload_types py_slice_def from_be_def)
qed

lemma stop_fields:
  "eu_out (an_protocols (announcer_stop s) n) = eu_out (an_protocols s n)" "an_next (announcer_stop s) = an_next s"
  "an_open (announcer_stop s) = (case an_transport s of None \<Rightarrow> an_open s | Some n \<Rightarrow> removeAll n (an_open s))"
  by (auto simp: announcer_stop_def on_protocol_def close_socket_def cancel_pending_def connection_lost_def Let_def split: option.split)

lemma listening_fields:
  "an_open listening = [0]" "an_transport listening = Some 0" "an_next listening = 1"
  "length (eu_out (an_protocols listening 0)) = 1"
  using ex_frame by (auto simp: listening_def announce_round_def Let_def announcer_run_defs new_protocol_def)

lemma schedule_out: "eu_out (schedule_discovery a p) = eu_out p"
  by (simp add: schedule_discovery_def split: option.split)

lemma stopped_eq: "stopped_listener = announcer_stop (on_protocol 0 (schedule_discovery (''10.0.0.9'', 40000, [])) listening)"
  by (simp only: stopped_listener_def ex_datagram)

lemma stopped_state: "an_open stopped_listener = []" "an_next stopped_listener = 1" "length (eu_out (an_protocols stopped_listener 0)) = 1"
  by (simp_all add: stopped_eq stop_fields on_protocol_def listening_fields schedule_out)

text \<open>Its deferred response fires afterwards.\<close>

definition late_timer :: announcer where
  "late_timer = on_protocol 0 (\<lambda>p. snd (fire_response ex_payload 0 p)) stopped_listener"

theorem closed_listener_silent_witness:
  "an_open stopped_listener = [] \<and> an_next stopped_listener = 1 \<and> length (eu_out (an_protocols stopped_listener 0)) = 1
   \<and> an_step ex_edge_doip 1 stopped_listener late_timer \<and> length (eu_out (an_protocols late_timer 0)) = 1"
proof -
  have step: "an_step ex_edge_doip 1 stopped_listener late_timer"
    unfolding late_timer_def by (rule an_step.Fire) (rule ex_payload)
  have "0 \<notin> set (an_open stopped_listener)" "0 < an_next stopped_listener" by (simp_all add: stopped_state)
  with step closed_listener_silent [OF stopped_reachable]
  have "eu_out (an_protocols late_timer 0) = eu_out (an_protocols stopped_listener 0)" by blast
  with step stopped_state show ?thesis by metis
qed

end
