(* ===== verification/Plugin_Decorators.thy ===== *)
theory Plugin_Decorators
  imports Dispatcher
begin

text \<open>
  How a method of a plugin becomes a hook: the decorators of \<^verbatim>\<open>virtual_ecu/virtecu/plugin.py\<close>, which leave marks on
  a function, and what the dispatcher makes of them through \<open>Plugin.__init_subclass__\<close> (\<open>collect_hooks\<close>). A
  function object is its list of marks; decorators are applied from the innermost to the outermost. Keys and
  priorities are integers, on which \<^verbatim>\<open>int\<close> has no effect.
\<close>

section \<open>Decorators\<close>

type_synonym marks = "(hook_point \<times> int option) list"

definition mark :: "hook_point \<Rightarrow> int option \<Rightarrow> marks \<Rightarrow> marks" where
  "mark k prio hooks = hooks @ [(k, prio)]"

definition on_service :: "int \<Rightarrow> int option \<Rightarrow> marks \<Rightarrow> marks" where
  "on_service service prio = mark (KService service) prio"

definition on_request :: "int option \<Rightarrow> marks \<Rightarrow> marks" where
  "on_request prio = mark KObserver prio"

definition on_read_did :: "int \<Rightarrow> int option \<Rightarrow> marks \<Rightarrow> marks" where
  "on_read_did did prio = mark (KReadDid did) prio"

definition on_write_did :: "int \<Rightarrow> int option \<Rightarrow> marks \<Rightarrow> marks" where
  "on_write_did did prio = mark (KWriteDid did) prio"

definition on_routine :: "int \<Rightarrow> int option \<Rightarrow> int option \<Rightarrow> marks \<Rightarrow> marks" where
  "on_routine rid control prio = mark (KRoutine rid control) prio"

definition on_routing_activation :: "int option \<Rightarrow> marks \<Rightarrow> marks" where
  "on_routing_activation prio = mark KRoutingActivation prio"

definition on_diagnostic_ack :: "int option \<Rightarrow> marks \<Rightarrow> marks" where
  "on_diagnostic_ack prio = mark KDiagnosticAck prio"

definition on_frame_rx :: "int option \<Rightarrow> marks \<Rightarrow> marks" where
  "on_frame_rx prio = mark KFrameRx prio"

definition on_frame_tx :: "int option \<Rightarrow> marks \<Rightarrow> marks" where
  "on_frame_tx prio = mark KFrameTx prio"

definition on_identification_request :: "int option \<Rightarrow> marks \<Rightarrow> marks" where
  "on_identification_request prio = mark KIdentificationRequest prio"

text \<open>\<open>Plugin.__init__\<close>: an object without a name is called after its class.\<close>

definition plugin_init :: "string \<Rightarrow> ('p, 'w) plugin \<Rightarrow> ('p, 'w) plugin" where
  "plugin_init class_name p = (if p_name p = [] then p\<lparr>p_name := class_name\<rparr> else p)"

section \<open>What the collection keeps\<close>

text \<open>The classes of the MRO declare a mark on a method.\<close>

definition declares :: "class_attrs list \<Rightarrow> string \<Rightarrow> hook_point \<Rightarrow> int option \<Rightarrow> bool" where
  "declares mro name k prio \<longleftrightarrow> (\<exists>attrs \<in> set mro. \<exists>marks. (name, marks) \<in> set attrs \<and> (k, prio) \<in> set marks)"

definition table_ok :: "hook_table \<Rightarrow> bool" where
  "table_ok t \<longleftrightarrow> distinct (map fst t) \<and> (\<forall>k. distinct (lookup_list t k))"

lemma lookup_update: "lookup_list (AList.update k xs t) k' = (if k' = k then xs else lookup_list t k')"
  by (simp add: lookup_list_def AList.update_conv')

lemma collect_mark_lookup:
  "lookup_list (collect_mark name mk t) k =
     (if k = fst mk \<and> (name, snd mk) \<notin> set (lookup_list t k) then lookup_list t k @ [(name, snd mk)] else lookup_list t k)"
  by (auto simp: collect_mark_def append_at_def lookup_update Let_def)

lemma collect_mark_ok: "table_ok t \<Longrightarrow> table_ok (collect_mark name mk t)"
  unfolding table_ok_def collect_mark_lookup
  by (auto simp: collect_mark_def append_at_def Let_def AList.distinct_update)

lemma collect_marks_lookup:
  "set (lookup_list (fold (collect_mark name) marks t) k) = set (lookup_list t k) \<union> {(name, prio) | prio. (k, prio) \<in> set marks}"
  by (induction marks arbitrary: t) (auto simp: collect_mark_lookup)

lemma collect_attrs_lookup:
  "set (lookup_list (fold (\<lambda>(name, marks) t. fold (collect_mark name) marks t) attrs t) k) =
   set (lookup_list t k) \<union> {(name, prio) | name prio marks. (name, marks) \<in> set attrs \<and> (k, prio) \<in> set marks}"
  by (induction attrs arbitrary: t) (auto simp: collect_marks_lookup)

lemma collect_hooks_lookup:
  "(name, prio) \<in> set (lookup_list (collect_hooks mro) k) \<longleftrightarrow> declares mro name k prio"
proof -
  have "set (lookup_list (fold (\<lambda>attrs t. fold (\<lambda>(name, marks) t. fold (collect_mark name) marks t) attrs t) mro t) k) =
      set (lookup_list t k) \<union> {(name, prio). declares mro name k prio}" for t
    by (induction mro arbitrary: t) (auto simp: collect_attrs_lookup declares_def)
  then show ?thesis by (simp add: collect_hooks_def lookup_list_def)
qed

lemma fold_keeps: "P t \<Longrightarrow> (\<And>x t. P t \<Longrightarrow> P (f x t)) \<Longrightarrow> P (fold f xs t)"
  by (induction xs arbitrary: t) auto

lemma collect_hooks_ok: "table_ok (collect_hooks mro)"
proof -
  have marks: "table_ok (fold (collect_mark name) marks t)" if "table_ok t" for name marks t
    using that by (rule fold_keeps) (rule collect_mark_ok)
  have attrs: "table_ok (fold (\<lambda>(name, marks) t. fold (collect_mark name) marks t) attrs t)" if "table_ok t" for attrs t
    using that by (rule fold_keeps) (auto intro: marks split: prod.splits)
  have "table_ok []" by (simp add: table_ok_def lookup_list_def)
  then show ?thesis unfolding collect_hooks_def by (rule fold_keeps) (rule attrs)
qed

lemma entries_at:
  "distinct (map fst t) \<Longrightarrow>
   map snd (filter (\<lambda>kh. fst kh = k) (concat (map (\<lambda>(k, es). map (\<lambda>e. (k, f e)) es) t))) = map f (lookup_list t k)"
proof (induction t)
  case (Cons x t)
  obtain k' es where x: "x = (k', es)" by (cases x)
  show ?case
  proof (cases "k' = k")
    case True
    with Cons.prems x have "k \<notin> fst ` set t" by simp
    then have "map_of t k = None" by (simp add: map_of_eq_None_iff)
    with Cons True x show ?thesis by (simp add: lookup_list_def filter_map comp_def)
  next
    case False
    with Cons x show ?thesis by (simp add: lookup_list_def filter_map comp_def)
  qed
qed (simp add: lookup_list_def)

section \<open>What is registered\<close>

text \<open>A plugin whose hooks were collected from its classes has, at each hook point of the UDS layer, one hook for every
  method and priority that a decorator named there, none twice and none else, bound to the method as the class resolves
  it; the dispatcher asks them in ascending order of priority. A plugin that is not enabled has none.\<close>

theorem decorated_methods_registered:
  assumes "p_hooks p = collect_hooks mro" "is_uds_kind k"
  shows "\<exists>es. distinct es \<and> (\<forall>name prio. (name, prio) \<in> set es \<longleftrightarrow> declares mro name k prio)
    \<and> bucket (new_dispatcher [p]) k = (if p_enabled p then sort_key hook_key (map (mk_hook p) es) else [])
    \<and> (\<forall>e \<in> set es. h_method (mk_hook p e) = p_method p (fst e)
         \<and> h_priority (mk_hook p e) = (case snd e of None \<Rightarrow> p_priority p | Some x \<Rightarrow> x))"
proof (intro exI conjI)
  let ?es = "lookup_list (collect_hooks mro) k"
  have ok: "distinct (map fst (collect_hooks mro))" "distinct ?es" using collect_hooks_ok [of mro] by (auto simp: table_ok_def)
  show "distinct ?es" by (rule ok)
  show "\<forall>name prio. (name, prio) \<in> set ?es \<longleftrightarrow> declares mro name k prio" by (simp add: collect_hooks_lookup)
  show "bucket (new_dispatcher [p]) k = (if p_enabled p then sort_key hook_key (map (mk_hook p) ?es) else [])"
    using assms entries_at [OF ok(1), of k "mk_hook p"]
    by (simp add: bucket_new_dispatcher hooks_at_def plugin_hooks_def)
qed (simp add: mk_hook_def)

text \<open>A method with two decorators, overridden in a subclass without any.\<close>

definition stacked_plugin :: "(unit, unit) plugin" where
  "stacked_plugin =
     \<lparr>p_name = ''Stacked'', p_priority = 100, p_enabled = True, p_load_index = 0,
      p_hooks = collect_hooks [[(''vin'', on_request None (on_read_did 0xF190 (Some 5) []))], [(''vin'', [])]],
      p_method = (\<lambda>_ _. ret HNone)\<rparr>"

theorem decorated_methods_registered_witness:
  "declares [[(''vin'', on_request None (on_read_did 0xF190 (Some 5) []))], [(''vin'', [])]] ''vin'' (KReadDid 0xF190) (Some 5)
   \<and> mk_hook stacked_plugin (''vin'', Some 5) \<in> set (bucket (new_dispatcher [stacked_plugin]) (KReadDid 0xF190))"
proof -
  let ?mro = "[[(''vin'', on_request None (on_read_did 0xF190 (Some 5) []))], [(''vin'', [])]]"
  have d: "declares ?mro ''vin'' (KReadDid 0xF190) (Some 5)"
    by (auto simp: declares_def on_request_def on_read_did_def mark_def)
  have h: "p_hooks stacked_plugin = collect_hooks ?mro" "is_uds_kind (KReadDid 0xF190)" "p_enabled stacked_plugin"
    by (simp_all add: stacked_plugin_def is_uds_kind_def)
  from decorated_methods_registered [OF h(1,2)] d h(3) show ?thesis by auto
qed

end
