(* ===== verification/Edge_Main.thy ===== *)
theory Edge_Main
  imports Edge_Config_Props Edge_Build_Props
begin

text \<open>
  The entry point of the EdgeNode, \<^verbatim>\<open>doip_edgenode/main.py\<close>: the signal handlers around one server lifetime and the exit
  code. What \<^verbatim>\<open>config.yaml\<close> parses to is an argument, and so is the run of the server with what it does to
  the world; the arguments of the command line only name the file and the log level. \<^verbatim>\<open>KeyboardInterrupt\<close> is
  \<open>CancelledError\<close>: \<open>main\<close> treats them alike.
\<close>

section \<open>Signals\<close>

datatype signum = SIGINT | SIGTERM

text \<open>A handler: the one \<open>_run\<close> installs, or another, which has a number.\<close>

datatype sig_handler = OnSignal | Handler nat

text \<open>\<open>sg_cancels\<close> counts the calls of \<^verbatim>\<open>startup_task.cancel\<close>.\<close>

record 'w signals =
  sg_handlers :: "signum \<Rightarrow> sig_handler"
  sg_signalled :: bool
  sg_cancels :: nat
  sg_world :: 'w

text \<open>A signal arrives; what handlers of others do is not of interest here.\<close>

definition on_signal :: "signum \<Rightarrow> 'w signals \<Rightarrow> 'w signals" where
  "on_signal g s =
     (if sg_handlers s g = OnSignal \<and> \<not> sg_signalled s then s\<lparr>sg_signalled := True, sg_cancels := sg_cancels s + 1\<rparr> else s)"

text \<open>The loop that installs the handlers; \<^verbatim>\<open>signal.signal\<close> may raise. The list is \<^verbatim>\<open>previous\<close>.\<close>

fun install_signals ::
    "(signum \<Rightarrow> bool) \<Rightarrow> signum list \<Rightarrow> (signum \<times> sig_handler) list \<Rightarrow> 'w signals
      \<Rightarrow> (unit res \<times> (signum \<times> sig_handler) list) \<times> 'w signals" where
  "install_signals fails [] previous s = ((Inr (), previous), s)"
| "install_signals fails (g # gs) previous s =
     (let previous = previous @ [(g, sg_handlers s g)] in
      if fails g then ((Inl ValueError, previous), s)
      else install_signals fails gs previous (s\<lparr>sg_handlers := (sg_handlers s)(g := OnSignal)\<rparr>))"

definition restore_signals :: "(signum \<times> sig_handler) list \<Rightarrow> 'w signals \<Rightarrow> 'w signals" where
  "restore_signals previous s = fold (\<lambda>(g, h) s. s\<lparr>sg_handlers := (sg_handlers s)(g := h)\<rparr>) previous s"

definition edge_run_server :: "(signum \<Rightarrow> bool) \<Rightarrow> ('w signals, unit) py \<Rightarrow> ('w signals, unit) py" where
  "edge_run_server fails serve s =
     (case install_signals fails [SIGINT, SIGTERM] [] s of ((r, previous), s1) \<Rightarrow>
        case (case r of Inl e \<Rightarrow> (Inl e, s1) | Inr _ \<Rightarrow> serve s1) of (r', s2) \<Rightarrow> (r', restore_signals previous s2))"

section \<open>The exit code\<close>

text \<open>\<open>tree\<close> is the content of the file, \<open>ConfigError\<close> where it cannot be read or parsed.\<close>

definition edge_main ::
    "(signum \<Rightarrow> bool) \<Rightarrow> py_lib \<Rightarrow> log_io \<Rightarrow> (app_config \<Rightarrow> nat \<Rightarrow> (log_world signals, unit) py) \<Rightarrow> yaml res
      \<Rightarrow> (log_world signals, int) py" where
  "edge_main fails L io serve tree s =
     (case ebind tree (edge_load_config L) of
        Inl e \<Rightarrow> (if e = ConfigError then Inr 1 else Inl e, s)
      | Inr cfg \<Rightarrow>
          (case server_init L io cfg (sg_world s) of
             (Inl e, lg) \<Rightarrow> (Inl e, s\<lparr>sg_world := lg\<rparr>)
           | (Inr k, lg) \<Rightarrow>
               (case edge_run_server fails (serve cfg k) (s\<lparr>sg_world := lg\<rparr>) of
                  (Inr _, s') \<Rightarrow> (Inr 0, s')
                | (Inl e, s') \<Rightarrow> (if e = CancelledError then Inr 0 else Inl e, s'))))"

section \<open>What it promises\<close>

lemma one_cancel: "sg_cancels s = (if sg_signalled s then 1 else 0) \<Longrightarrow> sg_cancels (fold on_signal gs s) \<le> 1"
proof (induction gs arbitrary: s)
  case (Cons g gs)
  have "sg_cancels (on_signal g s) = (if sg_signalled (on_signal g s) then 1 else 0)"
    using Cons.prems by (simp add: on_signal_def)
  then show ?case using Cons.IH by simp
qed auto

text \<open>Whatever fails, and wherever: the handlers are again what they were, provided the server leaves them alone.\<close>

lemma signals_restored:
  assumes "\<And>s. sg_handlers (snd (serve s)) = sg_handlers s"
  shows "sg_handlers (snd (edge_run_server fails serve s)) = sg_handlers s"
proof -
  have "sg_handlers (restore_signals [(SIGINT, sg_handlers s SIGINT)] s) = sg_handlers s" by (simp add: restore_signals_def)
  then show ?thesis using assms
    by (auto simp: edge_run_server_def restore_signals_def Let_def fun_eq_iff split: prod.splits) (metis signum.exhaust snd_conv)+
qed

text \<open>The exit code is 1 exactly for a configuration that is not accepted, and nothing has been started then.\<close>

lemma edge_main_rejects:
  assumes "\<And>e. tree = Inl e \<Longrightarrow> e = ConfigError"
  shows "fst (edge_main fails L io serve tree s) = Inr 1 \<longleftrightarrow> (\<forall>cfg. ebind tree (edge_load_config L) \<noteq> Inr cfg)"
    and "fst (edge_main fails L io serve tree s) = Inr 1 \<Longrightarrow> snd (edge_main fails L io serve tree s) = s"
proof -
  have "e = ConfigError" if "ebind tree (edge_load_config L) = Inl e" for e
    using that assms complains_edge_load [of L "projr tree"] by (cases tree) (auto simp: complains_def)
  then show "fst (edge_main fails L io serve tree s) = Inr 1 \<longleftrightarrow> (\<forall>cfg. ebind tree (edge_load_config L) \<noteq> Inr cfg)"
    "fst (edge_main fails L io serve tree s) = Inr 1 \<Longrightarrow> snd (edge_main fails L io serve tree s) = s"
    by (auto simp: edge_main_def split: sum.splits prod.splits if_splits)
qed

end
